(* ===== verification/Go_Prelude.thy ===== *)
theory Go_Prelude
  imports Main "HOL-Library.AList" "HOL-Library.Word" "HOL-Library.Sublist"
begin

text \<open>
  Shared vocabulary of the development: Go maps as association lists with distinct keys,
  Go strings as byte lists with \<open>strings.TrimSpace\<close>, \<open>strings.ToLower\<close> and the \<open>%d\<close>
  verb, Go times as nanoseconds, and the named theorem collections the component theories
  extend.

  A Go map is a list of key/value pairs whose keys are distinct. The order of the list stands
  for the order in which one \<open>range\<close> loop visits the map: Go leaves it open, and a theorem
  about every such list is a theorem about every order.
\<close>

named_theorems gomap_simps \<open>rewriting of map operations\<close>
named_theorems str_simps \<open>rewriting of Go string operations\<close>

section \<open>Maps\<close>

type_synonym ('k, 'v) gomap = "('k \<times> 'v) list"

definition gm_wf :: "('k, 'v) gomap \<Rightarrow> bool" where
  "gm_wf m \<longleftrightarrow> distinct (map fst m)"

definition gm_get :: "('k, 'v) gomap \<Rightarrow> 'k \<Rightarrow> 'v option" where
  "gm_get m k = map_of m k"

definition gm_put :: "'k \<Rightarrow> 'v \<Rightarrow> ('k, 'v) gomap \<Rightarrow> ('k, 'v) gomap" where
  "gm_put k v m = AList.update k v m"

definition gm_del :: "'k \<Rightarrow> ('k, 'v) gomap \<Rightarrow> ('k, 'v) gomap" where
  "gm_del k m = filter (\<lambda>e. fst e \<noteq> k) m"

text \<open>\<open>for k, v := range m { if p(v) { delete(m, k) } }\<close> and the values it deletes.\<close>

definition gm_drop :: "('v \<Rightarrow> bool) \<Rightarrow> ('k, 'v) gomap \<Rightarrow> ('k, 'v) gomap" where
  "gm_drop p m = filter (\<lambda>e. \<not> p (snd e)) m"

definition gm_vals :: "('v \<Rightarrow> bool) \<Rightarrow> ('k, 'v) gomap \<Rightarrow> 'v list" where
  "gm_vals p m = filter p (map snd m)"

definition gm_all :: "('k \<Rightarrow> 'v \<Rightarrow> bool) \<Rightarrow> ('k, 'v) gomap \<Rightarrow> bool" where
  "gm_all P m \<longleftrightarrow> list_all (\<lambda>e. P (fst e) (snd e)) m"

lemma gm_wf_Nil [simp]: "gm_wf []"
  by (simp add: gm_wf_def)

lemma gm_wf_put [simp, intro]: "gm_wf m \<Longrightarrow> gm_wf (gm_put k v m)"
  by (simp add: gm_wf_def gm_put_def distinct_update)

lemma gm_wf_del [simp, intro]: "gm_wf m \<Longrightarrow> gm_wf (gm_del k m)"
  by (auto simp: gm_wf_def gm_del_def intro: distinct_map_filter)

lemma gm_wf_drop [simp, intro]: "gm_wf m \<Longrightarrow> gm_wf (gm_drop p m)"
  by (auto simp: gm_wf_def gm_drop_def intro: distinct_map_filter)

lemma gm_get_Nil [simp]: "gm_get [] k = None"
  by (simp add: gm_get_def)

lemma gm_get_put [simp]: "gm_get (gm_put k v m) k' = (if k' = k then Some v else gm_get m k')"
  by (simp add: gm_get_def gm_put_def update_conv)

lemma gm_get_del [simp]: "gm_get (gm_del k m) k' = (if k' = k then None else gm_get m k')"
  by (induction m) (auto simp: gm_get_def gm_del_def)

lemma gm_get_in: "gm_get m k = Some v \<Longrightarrow> (k, v) \<in> set m"
  by (simp add: gm_get_def map_of_SomeD)

lemma gm_in_get: "gm_wf m \<Longrightarrow> (k, v) \<in> set m \<Longrightarrow> gm_get m k = Some v"
  by (simp add: gm_get_def gm_wf_def)

lemma gm_mem: "gm_wf m \<Longrightarrow> (k, v) \<in> set m \<longleftrightarrow> gm_get m k = Some v"
  by (metis gm_in_get gm_get_in)

lemma gm_del_absent: "gm_get m k = None \<Longrightarrow> gm_del k m = m"
  by (induction m) (auto simp: gm_get_def gm_del_def split: if_splits)

lemma gm_count:
  assumes "gm_wf m"
  shows "length (filter (\<lambda>e. P (snd e)) m) = card {k. \<exists>v. gm_get m k = Some v \<and> P v}"
proof -
  have "{k. \<exists>v. gm_get m k = Some v \<and> P v} = fst ` set (filter (\<lambda>e. P (snd e)) m)"
    by (auto simp: gm_mem [OF assms, symmetric] image_iff)
  moreover have "distinct (map fst (filter (\<lambda>e. P (snd e)) m))"
    using assms by (auto simp: gm_wf_def intro: distinct_map_filter)
  ultimately show ?thesis by (metis distinct_card length_map set_map)
qed

lemma gm_get_drop:
  "gm_wf m \<Longrightarrow> gm_get (gm_drop p m) k =
     (case gm_get m k of None \<Rightarrow> None | Some v \<Rightarrow> if p v then None else Some v)"
proof (induction m)
  case (Cons e m)
  then show ?case
    by (cases e)
      (auto simp: gm_get_def gm_drop_def gm_wf_def map_of_eq_None_iff image_iff
        split: option.splits dest: map_of_SomeD)
qed (simp add: gm_get_def gm_drop_def)

lemma gm_all_iff: "gm_all P m \<longleftrightarrow> (\<forall>(k, v) \<in> set m. P k v)"
  by (auto simp: gm_all_def list_all_iff)

lemma gm_all_get: "gm_wf m \<Longrightarrow> gm_all P m \<longleftrightarrow> (\<forall>k v. gm_get m k = Some v \<longrightarrow> P k v)"
  by (auto simp: gm_all_iff intro: gm_in_get dest: gm_get_in)

lemma gm_allD: "gm_all P m \<Longrightarrow> gm_get m k = Some v \<Longrightarrow> P k v"
  by (auto simp: gm_all_iff dest!: gm_get_in)

lemma gm_all_Nil [simp]: "gm_all P []"
  by (simp add: gm_all_def)

lemma set_gm_put: "set (gm_put k v m) \<subseteq> insert (k, v) (set m)"
  by (induction m) (auto simp: gm_put_def)

lemma gm_all_put [intro]: "gm_all P m \<Longrightarrow> P k v \<Longrightarrow> gm_all P (gm_put k v m)"
  using set_gm_put [of k v m] by (auto simp: gm_all_iff)

lemma gm_all_del [intro]: "gm_all P m \<Longrightarrow> gm_all P (gm_del k m)"
  by (auto simp: gm_all_iff gm_del_def)

lemma gm_all_drop [intro]: "gm_all P m \<Longrightarrow> gm_all P (gm_drop p m)"
  by (auto simp: gm_all_iff gm_drop_def)

lemma gm_all_drop_not: "gm_all (\<lambda>_ v. \<not> p v) (gm_drop p m)"
  by (auto simp: gm_all_iff gm_drop_def)

lemma gm_all_mono: "gm_all P m \<Longrightarrow> (\<And>k v. P k v \<Longrightarrow> Q k v) \<Longrightarrow> gm_all Q m"
  by (auto simp: gm_all_iff)

lemma set_gm_vals: "set (gm_vals p m) = {v. p v \<and> (\<exists>k. (k, v) \<in> set m)}"
  by (force simp: gm_vals_def)

lemma gm_drop_id: "gm_all (\<lambda>_ v. \<not> p v) m \<Longrightarrow> gm_drop p m = m"
  by (auto simp: gm_all_iff gm_drop_def filter_id_conv)

lemma set_gm_drop: "set (gm_drop p m) = {(k, v). (k, v) \<in> set m \<and> \<not> p v}"
  by (auto simp: gm_drop_def)

lemma set_gm_del: "set (gm_del k m) = {(k', v). (k', v) \<in> set m \<and> k' \<noteq> k}"
  by (auto simp: gm_del_def)

text \<open>
  The interface every registry of the program uses of its maps; the laws are what the Go
  specification promises of index expressions, assignments and \<open>delete\<close>.
\<close>

locale go_map =
  fixes get :: "'m \<Rightarrow> 'k \<Rightarrow> 'v option"
    and put :: "'k \<Rightarrow> 'v \<Rightarrow> 'm \<Rightarrow> 'm"
    and del :: "'k \<Rightarrow> 'm \<Rightarrow> 'm"
    and wf :: "'m \<Rightarrow> bool"
  assumes get_put: "wf m \<Longrightarrow> get (put k v m) = (get m)(k \<mapsto> v)"
    and get_del: "wf m \<Longrightarrow> get (del k m) = (get m)(k := None)"
    and wf_put: "wf m \<Longrightarrow> wf (put k v m)"
    and wf_del: "wf m \<Longrightarrow> wf (del k m)"
begin

lemma dom_put: "wf m \<Longrightarrow> dom (get (put k v m)) = insert k (dom (get m))"
  by (simp add: get_put)

lemma dom_del: "wf m \<Longrightarrow> dom (get (del k m)) = dom (get m) - {k}"
  by (simp add: get_del)

lemma put_del: "wf m \<Longrightarrow> get (put k v (del k m)) = get (put k v m)"
  by (simp add: get_put get_del wf_del)

lemma del_fresh: "wf m \<Longrightarrow> get m k = None \<Longrightarrow> get (del k (put k v m)) = get m"
  by (auto simp: get_put get_del wf_put)

end

interpretation gm: go_map gm_get gm_put gm_del gm_wf
  by unfold_locales (auto simp: fun_eq_iff)

section \<open>Times\<close>

text \<open>
  A \<open>time.Time\<close> is the number of nanoseconds since the zero time of Go (year 1, UTC), so
  \<open>IsZero\<close> is comparison with 0. A \<open>time.Duration\<close> is a number of nanoseconds. An
  operation that calls \<open>r.now()\<close> takes a clock: \<open>clk i\<close> is what the \<open>i\<close>-th call of that
  operation returns.
\<close>

type_synonym gotime = int
type_synonym duration = int
type_synonym clock = "nat \<Rightarrow> gotime"

definition second :: duration where
  "second = 1000000000"

definition minute :: duration where
  "minute = 60 * second"

definition time_Unix :: "gotime \<Rightarrow> int" where
  "time_Unix t = t div second - 62135596800"

definition time_of_Unix :: "int \<Rightarrow> gotime" where
  "time_of_Unix s = (s + 62135596800) * second"

lemma time_Unix_of_Unix [simp]: "time_Unix (time_of_Unix s) = s"
  by (simp add: time_Unix_def time_of_Unix_def second_def)

lemma time_Unix_mono: "t \<le> t' \<Longrightarrow> time_Unix t \<le> time_Unix t'"
  by (simp add: time_Unix_def second_def zdiv_mono1)

lemma second_pos [simp]: "0 < second"
  by (simp add: second_def)

end
