(* ===== verification/Go_Strings.thy ===== *)
theory Go_Strings
  imports Go_Prelude
begin

text \<open>
  Go strings as byte lists (\<open>char list\<close>), with the functions of \<open>strings\<close> and \<open>fmt\<close>
  the program calls: \<open>TrimSpace\<close> on every byte string, UTF-8 encoded white space
  included, \<open>ToLower\<close> on its ASCII letters (bytes from 0x80 on are kept: the letter case
  tables of Unicode are not modelled), and the \<open>%d\<close> verb on integers.
\<close>

section \<open>White space\<close>

text \<open>
  \<open>space_len s\<close> is the length of the encoding of the white space code point \<open>s\<close> starts with,
  0 if it starts with none: the six ASCII spaces, U+0085, U+00A0, U+1680, U+2000 to U+200A,
  U+2028, U+2029, U+202F, U+205F and U+3000. \<open>space_len_rev\<close> does the same at the end
  of a string, given reversed.
\<close>

definition ascii_space :: "char \<Rightarrow> bool" where
  "ascii_space c \<longleftrightarrow> c \<in> {CHR 0x09, CHR 0x0A, CHR 0x0B, CHR 0x0C, CHR 0x0D, CHR 0x20}"

definition space2 :: "char \<Rightarrow> char \<Rightarrow> bool" where
  "space2 a b \<longleftrightarrow> a = CHR 0xC2 \<and> b \<in> {CHR 0x85, CHR 0xA0}"

definition space3 :: "char \<Rightarrow> char \<Rightarrow> char \<Rightarrow> bool" where
  "space3 a b c \<longleftrightarrow>
     a = CHR 0xE1 \<and> b = CHR 0x9A \<and> c = CHR 0x80 \<or>
     a = CHR 0xE2 \<and> b = CHR 0x80 \<and>
       c \<in> {CHR 0x80, CHR 0x81, CHR 0x82, CHR 0x83, CHR 0x84, CHR 0x85, CHR 0x86, CHR 0x87,
             CHR 0x88, CHR 0x89, CHR 0x8A, CHR 0xA8, CHR 0xA9, CHR 0xAF} \<or>
     a = CHR 0xE2 \<and> b = CHR 0x81 \<and> c = CHR 0x9F \<or>
     a = CHR 0xE3 \<and> b = CHR 0x80 \<and> c = CHR 0x80"

fun space_len :: "string \<Rightarrow> nat" where
  "space_len [] = 0"
| "space_len [a] = (if ascii_space a then 1 else 0)"
| "space_len [a, b] = (if ascii_space a then 1 else if space2 a b then 2 else 0)"
| "space_len (a # b # c # s) =
     (if ascii_space a then 1 else if space2 a b then 2 else if space3 a b c then 3 else 0)"

fun space_len_rev :: "string \<Rightarrow> nat" where
  "space_len_rev [] = 0"
| "space_len_rev [a] = (if ascii_space a then 1 else 0)"
| "space_len_rev [b, a] = (if ascii_space b then 1 else if space2 a b then 2 else 0)"
| "space_len_rev (c # b # a # s) =
     (if ascii_space c then 1 else if space2 b c then 2 else if space3 a b c then 3 else 0)"

function strip :: "(string \<Rightarrow> nat) \<Rightarrow> string \<Rightarrow> string" where
  "strip f s = (if s = [] \<or> f s = 0 then s else strip f (drop (f s) s))"
  by pat_completeness auto
termination
  by (relation "measure (\<lambda>(f, s). length s)") auto

declare strip.simps [simp del]

definition trim_left :: "string \<Rightarrow> string" where
  "trim_left s = strip space_len s"

definition trim_right :: "string \<Rightarrow> string" where
  "trim_right s = rev (strip space_len_rev (rev s))"

definition TrimSpace :: "string \<Rightarrow> string" where
  "TrimSpace s = trim_right (trim_left s)"

section \<open>Lower case and decimal numbers\<close>

definition upper_letters :: string where
  "upper_letters = ''ABCDEFGHIJKLMNOPQRSTUVWXYZ''"

definition lower_letters :: string where
  "lower_letters = ''abcdefghijklmnopqrstuvwxyz''"

definition lower_char :: "char \<Rightarrow> char" where
  "lower_char c = (case map_of (zip upper_letters lower_letters) c of None \<Rightarrow> c | Some d \<Rightarrow> d)"

definition ToLower :: "string \<Rightarrow> string" where
  "ToLower s = map lower_char s"

fun itoa_nat :: "nat \<Rightarrow> string" where
  "itoa_nat n = (if n < 10 then [''0123456789'' ! n]
     else itoa_nat (n div 10) @ [''0123456789'' ! (n mod 10)])"

declare itoa_nat.simps [simp del]

definition itoa :: "int \<Rightarrow> string" where
  "itoa i = (if i < 0 then CHR ''-'' # itoa_nat (nat (- i)) else itoa_nat (nat i))"

section \<open>Trimming is idempotent\<close>

lemma strip_id: "f s = 0 \<Longrightarrow> strip f s = s"
  by (simp add: strip.simps)

lemma strip_stop: "f [] = 0 \<Longrightarrow> f (strip f s) = 0"
proof (induction f s rule: strip.induct)
  case (1 f s)
  then show ?case by (cases "s = [] \<or> f s = 0") (auto simp: strip.simps [of f s])
qed

lemma strip_suffix: "suffix (strip f s) s"
proof (induction f s rule: strip.induct)
  case (1 f s)
  show ?case
  proof (cases "s = [] \<or> f s = 0")
    case False
    have "suffix (strip f (drop (f s) s)) s"
      by (rule suffix_order.trans [OF "1.IH" [OF False] suffix_drop])
    with False show ?thesis by (simp add: strip.simps [of f s])
  qed (simp add: strip.simps [of f s])
qed

lemma trim_left_stop: "space_len (trim_left s) = 0"
  unfolding trim_left_def by (rule strip_stop) simp

lemma trim_right_stop: "space_len_rev (rev (trim_right s)) = 0"
  unfolding trim_right_def by (simp add: strip_stop [of space_len_rev])

lemma trim_right_prefix: "prefix (trim_right s) s"
  using strip_suffix [of space_len_rev "rev s"]
  by (simp add: trim_right_def suffix_to_prefix)

lemma space_len_prefix: "space_len (s @ t) = 0 \<Longrightarrow> space_len s = 0"
  by (cases s rule: space_len.cases; cases t rule: space_len.cases) (auto split: if_splits)

lemma TrimSpace_idem [simp, str_simps]: "TrimSpace (TrimSpace s) = TrimSpace s"
proof -
  let ?u = "TrimSpace s"
  obtain t where "trim_left s = ?u @ t"
    using trim_right_prefix [of "trim_left s"] by (auto simp: TrimSpace_def prefix_def)
  then have "space_len ?u = 0"
    using trim_left_stop [of s] space_len_prefix by metis
  then have "trim_left ?u = ?u" by (simp add: trim_left_def strip_id)
  moreover have "space_len_rev (rev ?u) = 0" by (simp add: TrimSpace_def trim_right_stop)
  ultimately show ?thesis
    by (simp add: TrimSpace_def trim_right_def strip_id)
qed

lemma TrimSpace_Nil [simp]: "TrimSpace [] = []"
  by (simp add: TrimSpace_def trim_left_def trim_right_def strip.simps)

section \<open>Lower case commutes with trimming\<close>

lemma upper_cases:
  assumes "lower_char c \<noteq> c"
  shows "c \<in> set upper_letters \<and> lower_char c \<in> set lower_letters"
  using assms unfolding lower_char_def
  by (auto split: option.splits dest!: map_of_SomeD dest: set_zip_leftD set_zip_rightD)

lemma lower_char_idem [simp]: "lower_char (lower_char c) = lower_char c"
proof (cases "lower_char c = c")
  case False
  then have "lower_char c \<in> set lower_letters" by (simp add: upper_cases)
  then show ?thesis
    by (auto simp: lower_char_def upper_letters_def lower_letters_def)
qed simp

lemma lower_char_fixes:
  assumes "d \<notin> set upper_letters" "d \<notin> set lower_letters"
  shows "(lower_char c = d) = (c = d)"
proof (cases "lower_char c = c")
  case False
  then show ?thesis using upper_cases [OF False] assms by auto
qed simp

lemma lower_spaces [simp]:
  "ascii_space (lower_char a) = ascii_space a"
  "space2 (lower_char a) (lower_char b) = space2 a b"
  "space3 (lower_char a) (lower_char b) (lower_char c) = space3 a b c"
  unfolding ascii_space_def space2_def space3_def
  by (simp_all add: lower_char_fixes upper_letters_def lower_letters_def)

lemma space_len_lower [simp]: "space_len (map lower_char s) = space_len s"
  by (cases s rule: space_len.cases) auto

lemma space_len_rev_lower [simp]: "space_len_rev (map lower_char s) = space_len_rev s"
  by (cases s rule: space_len_rev.cases) auto

lemma strip_lower:
  assumes inv: "\<And>s. f (map lower_char s) = f s"
  shows "strip f (map lower_char s) = map lower_char (strip f s)"
proof (induction "length s" arbitrary: s rule: less_induct)
  case less
  show ?case
  proof (cases "s = [] \<or> f s = 0")
    case False
    then have "strip f (map lower_char (drop (f s) s)) = map lower_char (strip f (drop (f s) s))"
      by (intro less) auto
    with False show ?thesis
      by (simp add: strip.simps [of f s] strip.simps [of f "map lower_char s"] inv drop_map)
  qed (auto simp: strip.simps [of f s] strip.simps [of f "map lower_char s"] inv)
qed

lemma TrimSpace_ToLower [str_simps]: "TrimSpace (ToLower s) = ToLower (TrimSpace s)"
  by (simp add: TrimSpace_def ToLower_def trim_left_def trim_right_def strip_lower rev_map)

lemma ToLower_idem [simp, str_simps]: "ToLower (ToLower s) = ToLower s"
  by (simp add: ToLower_def)

lemma ToLower_Nil [simp]: "ToLower [] = []"
  by (simp add: ToLower_def)

text \<open>\<open>normalizeFingerprint\<close> of the relay and of the pairing package: the same two calls.\<close>

definition normalizeFingerprint :: "string \<Rightarrow> string" where
  "normalizeFingerprint raw = ToLower (TrimSpace raw)"

lemma normalizeFingerprint_idem [simp, str_simps]:
  "normalizeFingerprint (normalizeFingerprint s) = normalizeFingerprint s"
  by (simp add: normalizeFingerprint_def TrimSpace_ToLower)

lemma normalizeFingerprint_Nil [simp]: "normalizeFingerprint [] = []"
  by (simp add: normalizeFingerprint_def)

section \<open>Decimal numbers and the keys built from them\<close>

lemma digit_char:
  assumes "n < 10"
  shows "''0123456789'' ! n \<in> set ''0123456789''"
  using assms by (intro nth_mem) simp

lemma digit_inj:
  assumes "m < 10" "n < 10"
  shows "(''0123456789'' ! m = ''0123456789'' ! n) = (m = n)"
  by (rule nth_eq_iff_index_eq) (use assms in auto)

lemma itoa_nat_digits: "set (itoa_nat n) \<subseteq> set ''0123456789''"
proof (induction n rule: itoa_nat.induct)
  case (1 n)
  show ?case
  proof (cases "n < 10")
    case True
    then show ?thesis using digit_char [of n] by (simp only: itoa_nat.simps [of n]) simp
  next
    case False
    then show ?thesis using 1 digit_char [of "n mod 10"]
      by (simp only: itoa_nat.simps [of n] if_False) simp
  qed
qed

lemma itoa_nat_nonempty: "itoa_nat n \<noteq> []"
  by (subst itoa_nat.simps) simp

lemma itoa_nat_inj: "itoa_nat m = itoa_nat n \<Longrightarrow> m = n"
proof (induction m arbitrary: n rule: itoa_nat.induct)
  case (1 m)
  have len1: "length (itoa_nat k) = 1 \<longleftrightarrow> k < 10" for k
    using itoa_nat_nonempty [of "k div 10"] by (subst itoa_nat.simps) auto
  have lt: "m < 10 \<longleftrightarrow> n < 10" using len1 [of m] len1 [of n] "1.prems" by simp
  show ?case
  proof (cases "m < 10")
    case True
    then show ?thesis using "1.prems" lt
      by (simp only: itoa_nat.simps [of m] itoa_nat.simps [of n]) (simp del: nth_Cons add: digit_inj)
  next
    case False
    then have eq: "itoa_nat (m div 10) = itoa_nat (n div 10)"
      "''0123456789'' ! (m mod 10) = ''0123456789'' ! (n mod 10)"
      using "1.prems" lt by (simp_all only: itoa_nat.simps [of m] itoa_nat.simps [of n]) simp_all
    have "m div 10 = n div 10" by (rule "1.IH" [OF False eq(1)])
    moreover have "m mod 10 = n mod 10" using eq(2) by (subst (asm) digit_inj) auto
    ultimately show ?thesis by (metis div_mult_mod_eq)
  qed
qed

lemma itoa_nat_chars:
  assumes "c \<notin> set ''0123456789''"
  shows "c \<notin> set (itoa_nat n)"
  using itoa_nat_digits [of n] assms by blast

lemma itoa_nat_length: "n < 10 ^ Suc k \<Longrightarrow> length (itoa_nat n) \<le> Suc k"
proof (induction k arbitrary: n)
  case 0
  then show ?case by (subst itoa_nat.simps) simp
next
  case (Suc k)
  then have "n div 10 < 10 ^ Suc k" by (simp add: div_less_iff_less_mult mult.commute)
  then show ?case using Suc.IH [of "n div 10"] by (subst itoa_nat.simps) simp
qed

lemma itoa_no_colon: "CHR '':'' \<notin> set (itoa i)"
  by (simp add: itoa_def itoa_nat_chars)

lemma itoa_nat_no_minus: "itoa_nat n \<noteq> CHR ''-'' # s"
proof
  assume "itoa_nat n = CHR ''-'' # s"
  then have "CHR ''-'' \<in> set (itoa_nat n)" by simp
  then show False using itoa_nat_chars [of "CHR ''-''" n] by simp
qed

lemma itoa_inj:
  assumes "itoa i = itoa j"
  shows "i = j"
proof -
  have "i < 0 \<longleftrightarrow> j < 0"
    using assms itoa_nat_no_minus itoa_nat_no_minus [symmetric]
    by (auto simp: itoa_def split: if_splits)
  then have "nat \<bar>i\<bar> = nat \<bar>j\<bar>"
    using assms by (intro itoa_nat_inj) (auto simp: itoa_def split: if_splits)
  with \<open>i < 0 \<longleftrightarrow> j < 0\<close> show ?thesis by auto
qed

lemma split_at_colon:
  assumes "CHR '':'' \<notin> set a" "CHR '':'' \<notin> set b" "a @ '':'' @ x = b @ '':'' @ y"
  shows "a = b \<and> x = y"
  using assms
proof (induction a arbitrary: b)
  case Nil
  then show ?case by (cases b) auto
next
  case (Cons c a)
  then show ?case by (cases b) auto
qed

lemma itoa_key_inj: "itoa i @ '':'' @ x = itoa j @ '':'' @ y \<longleftrightarrow> i = j \<and> x = y"
  using split_at_colon [OF itoa_no_colon itoa_no_colon] itoa_inj by blast

end
