(* ===== verification/Go_Net.thy ===== *)
theory Go_Net
  imports Go_Strings "HOL-Library.List_Lexorder" "HOL-Library.Char_ord" "HOL-Library.Product_Lexorder"
begin

text \<open>
  The functions of Go's \<open>net\<close>, \<open>strconv\<close> and \<open>sort\<close> packages that the relay's candidate
  validation calls: \<open>net.SplitHostPort\<close>, \<open>net.ParseIP\<close> (dotted IPv4, IPv6 with one
  ellipsis and an embedded IPv4 tail, no zone), \<open>strconv.Atoi\<close>. Each returns
  \<open>None\<close> where the library reports an error; \<open>ParseIP\<close> is only asked whether it succeeds.
  Byte strings are ordered lexicographically, as Go orders strings.
\<close>

section \<open>Decimal numbers\<close>

definition digit_val :: "char \<Rightarrow> nat option" where
  "digit_val c = map_of (zip ''0123456789'' [0..<10]) c"

fun parse_digits :: "nat \<Rightarrow> string \<Rightarrow> nat option" where
  "parse_digits acc [] = Some acc"
| "parse_digits acc (c # s) =
     (case digit_val c of None \<Rightarrow> None | Some d \<Rightarrow> parse_digits (10 * acc + d) s)"

text \<open>\<open>strconv.Atoi\<close>: an optional sign, at least one digit, a value of 64 bits.\<close>

definition Atoi :: "string \<Rightarrow> int option" where
  "Atoi s = (let neg = (s \<noteq> [] \<and> hd s = CHR ''-'');
                 ds = (if s \<noteq> [] \<and> (hd s = CHR ''-'' \<or> hd s = CHR ''+'') then tl s else s)
             in if ds = [] then None
                else case parse_digits 0 ds of
                    None \<Rightarrow> None
                  | Some n \<Rightarrow> let v = (if neg then - int n else int n)
                              in if - (2 ^ 63) \<le> v \<and> v < 2 ^ 63 then Some v else None)"

section \<open>IP addresses\<close>

fun split_on :: "char \<Rightarrow> string \<Rightarrow> string list" where
  "split_on d [] = [[]]"
| "split_on d (c # s) =
     (if c = d then [] # split_on d s
      else case split_on d s of [] \<Rightarrow> [[c]] | w # ws \<Rightarrow> (c # w) # ws)"

definition ipv4_octet :: "string \<Rightarrow> bool" where
  "ipv4_octet w \<longleftrightarrow> w \<noteq> [] \<and> (hd w = CHR ''0'' \<longrightarrow> w = ''0'') \<and>
     (case parse_digits 0 w of None \<Rightarrow> False | Some n \<Rightarrow> n \<le> 255)"

definition parseIPv4 :: "string \<Rightarrow> bool" where
  "parseIPv4 s \<longleftrightarrow> (let ws = split_on (CHR ''.'') s in length ws = 4 \<and> list_all ipv4_octet ws)"

definition hex_char :: "char \<Rightarrow> bool" where
  "hex_char c \<longleftrightarrow> c \<in> set ''0123456789abcdefABCDEF''"

text \<open>
  The loop of \<open>netip.parseIPv6\<close>: \<open>n\<close> is the number of 16-bit groups still missing,
  \<open>ell\<close> whether an ellipsis was seen. Each round reads one group of at most four hexadecimal
  digits.
\<close>

fun ipv6_groups :: "nat \<Rightarrow> bool \<Rightarrow> string \<Rightarrow> bool" where
  "ipv6_groups 0 ell s = (s = [] \<and> \<not> ell)"
| "ipv6_groups (Suc n) ell s =
     (let g = takeWhile hex_char s; r = dropWhile hex_char s
      in if g = [] \<or> 4 < length g then False
         else if r \<noteq> [] \<and> hd r = CHR ''.'' then
           (ell \<or> n = 1) \<and> 1 \<le> n \<and> parseIPv4 s \<and> (if n = 1 then \<not> ell else ell)
         else if r = [] then (if n = 0 then \<not> ell else ell)
         else if hd r \<noteq> CHR '':'' \<or> length r = 1 then False
         else let r' = tl r
              in if hd r' = CHR '':'' then
                   (if ell then False
                    else if tl r' = [] then n \<noteq> 0
                    else ipv6_groups n True (tl r'))
                 else ipv6_groups n ell r')"

definition parseIPv6 :: "string \<Rightarrow> bool" where
  "parseIPv6 s \<longleftrightarrow>
     CHR ''%'' \<notin> set s \<and>
     (if take 2 s = ''::'' then drop 2 s = [] \<or> ipv6_groups 8 True (drop 2 s)
      else ipv6_groups 8 False s)"

text \<open>\<open>netip.ParseAddr\<close> chooses by the first of \<open>.\<close>, \<open>:\<close> and \<open>%\<close> it meets.\<close>

definition ParseIP :: "string \<Rightarrow> bool" where
  "ParseIP s =
     (case find (\<lambda>c. c \<in> {CHR ''.'', CHR '':'', CHR ''%''}) s of
        None \<Rightarrow> False
      | Some c \<Rightarrow> if c = CHR ''.'' then parseIPv4 s
                  else if c = CHR '':'' then parseIPv6 s else False)"

section \<open>Host and port\<close>

fun last_index :: "char \<Rightarrow> string \<Rightarrow> nat option" where
  "last_index d [] = None"
| "last_index d (c # s) =
     (case last_index d s of
        Some i \<Rightarrow> Some (Suc i)
      | None \<Rightarrow> if c = d then Some 0 else None)"

fun first_index :: "char \<Rightarrow> string \<Rightarrow> nat option" where
  "first_index d [] = None"
| "first_index d (c # s) = (if c = d then Some 0 else map_option Suc (first_index d s))"

definition SplitHostPort :: "string \<Rightarrow> (string \<times> string) option" where
  "SplitHostPort hostport =
     (case last_index (CHR '':'') hostport of
        None \<Rightarrow> None
      | Some i \<Rightarrow>
          if hd hostport = CHR ''['' then
            (case first_index (CHR '']'') hostport of
               None \<Rightarrow> None
             | Some e \<Rightarrow>
                 if Suc e \<noteq> i then None
                 else if CHR ''['' \<in> set (drop 1 hostport) \<or> CHR '']'' \<in> set (drop (Suc e) hostport)
                 then None
                 else Some (take (e - 1) (drop 1 hostport), drop (Suc i) hostport))
          else if CHR '':'' \<in> set (take i hostport) \<or>
                  CHR ''['' \<in> set hostport \<or> CHR '']'' \<in> set hostport then None
          else Some (take i hostport, drop (Suc i) hostport))"

lemma last_index_less: "last_index d s = Some i \<Longrightarrow> i < length s \<and> s ! i = d"
  by (induction s arbitrary: i) (auto split: option.splits if_splits)

lemma last_index_None: "last_index d s = None \<longleftrightarrow> d \<notin> set s"
  by (induction s) (auto split: option.splits)

lemma last_index_append: "d \<notin> set p \<Longrightarrow> last_index d (h @ d # p) = Some (length h)"
  using last_index_None [of d p] by (induction h) (auto split: option.splits)

lemma SplitHostPort_plain:
  assumes "set h \<inter> {CHR '':'', CHR ''['', CHR '']''} = {}"
    "set p \<inter> {CHR '':'', CHR ''['', CHR '']''} = {}"
  shows "SplitHostPort (h @ CHR '':'' # p) = Some (h, p)"
proof -
  have "last_index (CHR '':'') (h @ CHR '':'' # p) = Some (length h)"
    using assms by (intro last_index_append) auto
  moreover have "hd (h @ CHR '':'' # p) \<noteq> CHR ''[''"
    using assms by (cases h) auto
  ultimately show ?thesis using assms by (auto simp: SplitHostPort_def)
qed

end
