(* ===== verification/Protocol_Frames.thy ===== *)
theory Protocol_Frames
  imports Go_Strings
begin

text \<open>
  The message types of \<open>internal/protocol\<close>: session and device frames
  (\<open>message.go\<close>, \<open>device.go\<close>), connectivity frames (\<open>connectivity.go\<close>) and their constructor
  functions. A Go pointer field is an option, a slice a list, and the zero value of a struct
  has empty strings, zero numbers, \<open>None\<close> and \<open>[]\<close>. The JSON text of a frame is not modelled.
\<close>

section \<open>Agent frames (message.go)\<close>

definition SessionLaunchSourceLocal :: string where
  "SessionLaunchSourceLocal = ''local''"

definition SessionLaunchSourceMobile :: string where
  "SessionLaunchSourceMobile = ''mobile''"

definition UnixTimestamp :: "gotime \<Rightarrow> int" where
  "UnixTimestamp t = (if t = 0 then 0 else time_Unix t)"

record SessionInfo =
  si_SessionID :: string
  si_DeviceID :: string
  si_Launcher :: string
  si_Label :: string
  si_CWD :: string
  si_CommandPreview :: string
  si_GitBranch :: string
  si_StartedAt :: int
  si_PlatformFamily :: string
  si_PlatformID :: string
  si_ComputerName :: string
  si_LaunchSource :: string

record LaunchContext =
  lc_Source :: string
  lc_RequestID :: string

record AgentFrame =
  af_Type :: string
  af_Session :: "SessionInfo option"
  af_LaunchContext :: "LaunchContext option"

definition attachLaunchContext :: "LaunchContext \<Rightarrow> AgentFrame \<Rightarrow> AgentFrame" where
  "attachLaunchContext launchContext frame =
     (if lc_Source launchContext \<noteq> [] \<or> lc_RequestID launchContext \<noteq> []
      then frame\<lparr>af_LaunchContext := Some launchContext\<rparr> else frame)"

definition RegisterFrameWithLaunchContext :: "SessionInfo \<Rightarrow> LaunchContext \<Rightarrow> AgentFrame" where
  "RegisterFrameWithLaunchContext info launchContext =
     attachLaunchContext launchContext
       \<lparr>af_Type = ''register'', af_Session = Some info, af_LaunchContext = None\<rparr>"

definition RegisterFrame :: "SessionInfo \<Rightarrow> AgentFrame" where
  "RegisterFrame info =
     RegisterFrameWithLaunchContext info \<lparr>lc_Source = [], lc_RequestID = []\<rparr>"

definition LaunchReadyFrame :: "LaunchContext \<Rightarrow> AgentFrame" where
  "LaunchReadyFrame launchContext =
     attachLaunchContext launchContext
       \<lparr>af_Type = ''launch_ready'', af_Session = None, af_LaunchContext = None\<rparr>"

section \<open>Device frames (device.go)\<close>

record DeviceInfo =
  dv_DeviceID :: string
  dv_DisplayName :: string
  dv_PlatformFamily :: string
  dv_PlatformID :: string
  dv_LaunchHealth :: string

record DeviceFrame =
  df_Type :: string
  df_Device :: "DeviceInfo option"
  df_RequestID :: string
  df_SessionID :: string
  df_WorkspaceSession :: string
  df_Command :: string
  df_CWD :: string
  df_Label :: string
  df_Status :: string
  df_Reason :: string

definition zeroDeviceFrame :: "string \<Rightarrow> DeviceFrame" where
  "zeroDeviceFrame ty = \<lparr>df_Type = ty, df_Device = None, df_RequestID = [], df_SessionID = [],
     df_WorkspaceSession = [], df_Command = [], df_CWD = [], df_Label = [], df_Status = [],
     df_Reason = []\<rparr>"

definition DeviceRegisterFrame :: "DeviceInfo \<Rightarrow> DeviceFrame" where
  "DeviceRegisterFrame info = (zeroDeviceFrame ''register'')\<lparr>df_Device := Some info\<rparr>"

definition DeviceUpdateFrame :: "DeviceInfo \<Rightarrow> DeviceFrame" where
  "DeviceUpdateFrame info = (zeroDeviceFrame ''update'')\<lparr>df_Device := Some info\<rparr>"

definition DeviceLaunchRequestFrame :: "string \<Rightarrow> string \<Rightarrow> string \<Rightarrow> string \<Rightarrow> DeviceFrame" where
  "DeviceLaunchRequestFrame requestID command cwd label =
     (zeroDeviceFrame ''launch_request'')\<lparr>df_RequestID := requestID, df_Command := command,
       df_CWD := cwd, df_Label := label\<rparr>"

definition DeviceLaunchResultFrameWithWorkspace ::
    "string \<Rightarrow> string \<Rightarrow> string \<Rightarrow> string \<Rightarrow> DeviceFrame" where
  "DeviceLaunchResultFrameWithWorkspace requestID status reason workspaceSession =
     (zeroDeviceFrame ''launch_result'')\<lparr>df_RequestID := requestID, df_Status := status,
       df_Reason := reason, df_WorkspaceSession := workspaceSession\<rparr>"

definition DeviceLaunchResultFrame :: "string \<Rightarrow> string \<Rightarrow> string \<Rightarrow> DeviceFrame" where
  "DeviceLaunchResultFrame requestID status reason =
     DeviceLaunchResultFrameWithWorkspace requestID status reason []"

definition DeviceTerminateRequestFrame :: "string \<Rightarrow> string \<Rightarrow> string \<Rightarrow> DeviceFrame" where
  "DeviceTerminateRequestFrame requestID sessionID workspaceSession =
     (zeroDeviceFrame ''terminate_request'')\<lparr>df_RequestID := requestID,
       df_SessionID := sessionID, df_WorkspaceSession := workspaceSession\<rparr>"

definition DeviceTerminateResultFrame :: "string \<Rightarrow> string \<Rightarrow> string \<Rightarrow> DeviceFrame" where
  "DeviceTerminateResultFrame requestID status reason =
     (zeroDeviceFrame ''terminate_result'')\<lparr>df_RequestID := requestID, df_Status := status,
       df_Reason := reason\<rparr>"

section \<open>Connectivity frames (connectivity.go)\<close>

definition ConnectivityProtocolVersion :: int where
  "ConnectivityProtocolVersion = 2"

record ConnectivityDaemonInfo =
  di_DeviceID :: string
  di_DisplayName :: string
  di_PlatformFamily :: string
  di_PlatformID :: string
  di_DaemonPublicKey :: string
  di_DaemonFingerprint :: string
  di_TunnelVersion :: string

record ConnectivityTrustedAndroid =
  ta_Fingerprint :: string
  ta_DisplayName :: string

record ConnectivityDirectSession =
  ds_AttemptID :: string
  ds_AndroidFingerprint :: string

record ConnectivityPairingResponse =
  pr_AccountID :: string
  pr_InvitationID :: string
  pr_CorrelationID :: string
  pr_AndroidPublicKey :: string
  pr_AndroidFingerprint :: string
  pr_AndroidDisplayName :: string
  pr_Signature :: string

record ConnectivityFrame =
  cf_Type :: string
  cf_ProtocolVersion :: int
  cf_RequestID :: string
  cf_Reason :: string
  cf_RetryAfterSeconds :: int
  cf_AccountID :: string
  cf_AttemptID :: string
  cf_Actor :: string
  cf_DaemonID :: string
  cf_TunnelToken :: string
  cf_FallbackReason :: string
  cf_DirectSetupLatencyMS :: int
  cf_RelaySetupLatencyMS :: int
  cf_PublicUDPAddr :: string
  cf_PrivateUDPAddrs :: "string list"
  cf_ExpiresAt :: int
  cf_Daemon :: "ConnectivityDaemonInfo option"
  cf_Daemons :: "ConnectivityDaemonInfo list"
  cf_TrustedDevices :: "ConnectivityTrustedAndroid list"
  cf_DirectSessions :: "ConnectivityDirectSession list"
  cf_AndroidFingerprint :: string
  cf_PairingResponse :: "ConnectivityPairingResponse option"

definition zeroDaemonInfo :: ConnectivityDaemonInfo where
  "zeroDaemonInfo = \<lparr>di_DeviceID = [], di_DisplayName = [], di_PlatformFamily = [],
     di_PlatformID = [], di_DaemonPublicKey = [], di_DaemonFingerprint = [],
     di_TunnelVersion = []\<rparr>"

definition zeroConnectivityFrame :: "string \<Rightarrow> ConnectivityFrame" where
  "zeroConnectivityFrame ty = \<lparr>cf_Type = ty, cf_ProtocolVersion = 0, cf_RequestID = [],
     cf_Reason = [], cf_RetryAfterSeconds = 0, cf_AccountID = [], cf_AttemptID = [],
     cf_Actor = [], cf_DaemonID = [], cf_TunnelToken = [], cf_FallbackReason = [],
     cf_DirectSetupLatencyMS = 0, cf_RelaySetupLatencyMS = 0, cf_PublicUDPAddr = [],
     cf_PrivateUDPAddrs = [], cf_ExpiresAt = 0, cf_Daemon = None, cf_Daemons = [],
     cf_TrustedDevices = [], cf_DirectSessions = [], cf_AndroidFingerprint = [],
     cf_PairingResponse = None\<rparr>"

definition ConnectivityRendezvousHintFrame ::
    "string \<Rightarrow> string \<Rightarrow> string \<Rightarrow> string \<Rightarrow> string \<Rightarrow> string \<Rightarrow> string list \<Rightarrow> int
      \<Rightarrow> ConnectivityFrame" where
  "ConnectivityRendezvousHintFrame requestID attemptID actor daemonID androidFingerprint
      publicUDPAddr privateUDPAddrs expiresAt =
     (zeroConnectivityFrame ''rendezvous_hint'')\<lparr>cf_RequestID := requestID,
       cf_AttemptID := attemptID, cf_Actor := actor, cf_DaemonID := daemonID,
       cf_AndroidFingerprint := androidFingerprint, cf_PublicUDPAddr := publicUDPAddr,
       cf_PrivateUDPAddrs := privateUDPAddrs, cf_ExpiresAt := expiresAt\<rparr>"

definition ConnectivityRendezvousCloseFrame ::
    "string \<Rightarrow> string \<Rightarrow> string \<Rightarrow> string \<Rightarrow> string \<Rightarrow> ConnectivityFrame" where
  "ConnectivityRendezvousCloseFrame requestID attemptID actor daemonID androidFingerprint =
     (zeroConnectivityFrame ''rendezvous_close'')\<lparr>cf_RequestID := requestID,
       cf_AttemptID := attemptID, cf_Actor := actor, cf_DaemonID := daemonID,
       cf_AndroidFingerprint := androidFingerprint\<rparr>"

definition ConnectivityAppRegisterFrame :: ConnectivityFrame where
  "ConnectivityAppRegisterFrame =
     (zeroConnectivityFrame ''app_register'')\<lparr>cf_ProtocolVersion := ConnectivityProtocolVersion\<rparr>"

definition ConnectivityDaemonRegisterFrame ::
    "ConnectivityDaemonInfo \<Rightarrow> ConnectivityTrustedAndroid list \<Rightarrow> ConnectivityFrame" where
  "ConnectivityDaemonRegisterFrame info trusted =
     (zeroConnectivityFrame ''computer_register'')\<lparr>
       cf_ProtocolVersion := ConnectivityProtocolVersion, cf_Daemon := Some info,
       cf_TrustedDevices := trusted\<rparr>"

definition ConnectivityDaemonSnapshotFrame ::
    "ConnectivityDaemonInfo list \<Rightarrow> ConnectivityFrame" where
  "ConnectivityDaemonSnapshotFrame daemons =
     (zeroConnectivityFrame ''computer_snapshot'')\<lparr>cf_Daemons := daemons\<rparr>"

definition ConnectivityDaemonUpsertFrame :: "ConnectivityDaemonInfo \<Rightarrow> ConnectivityFrame" where
  "ConnectivityDaemonUpsertFrame info =
     (zeroConnectivityFrame ''computer_visible'')\<lparr>cf_Daemon := Some info\<rparr>"

definition ConnectivityDaemonRemovedFrame :: "string \<Rightarrow> string \<Rightarrow> ConnectivityFrame" where
  "ConnectivityDaemonRemovedFrame deviceID daemonFingerprint =
     (zeroConnectivityFrame ''computer_removed'')\<lparr>cf_Daemon :=
       Some (zeroDaemonInfo\<lparr>di_DeviceID := deviceID, di_DaemonFingerprint := daemonFingerprint\<rparr>)\<rparr>"

definition ConnectivityPairedDeviceRevokedFrame :: "string \<Rightarrow> string \<Rightarrow> ConnectivityFrame" where
  "ConnectivityPairedDeviceRevokedFrame deviceID daemonFingerprint =
     (zeroConnectivityFrame ''client_revoked'')\<lparr>cf_Daemon :=
       Some (zeroDaemonInfo\<lparr>di_DeviceID := deviceID, di_DaemonFingerprint := daemonFingerprint\<rparr>)\<rparr>"

definition ConnectivityPairResponseForwardFrame ::
    "ConnectivityPairingResponse \<Rightarrow> ConnectivityFrame" where
  "ConnectivityPairResponseForwardFrame response =
     (zeroConnectivityFrame ''pair_response_forward'')\<lparr>cf_PairingResponse := Some response\<rparr>"

definition ConnectivityPairInvitationReservedFrame :: "string \<Rightarrow> string \<Rightarrow> ConnectivityFrame" where
  "ConnectivityPairInvitationReservedFrame requestID accountID =
     (zeroConnectivityFrame ''pair_invitation_reserved'')\<lparr>cf_RequestID := requestID,
       cf_AccountID := accountID\<rparr>"

definition ConnectivityPairCompletedFrame :: "string \<Rightarrow> ConnectivityFrame" where
  "ConnectivityPairCompletedFrame androidFingerprint =
     (zeroConnectivityFrame ''pair_completed'')\<lparr>cf_AndroidFingerprint := androidFingerprint\<rparr>"

definition ConnectivityDirectSessionOpenFrame ::
    "string \<Rightarrow> string \<Rightarrow> string \<Rightarrow> string \<Rightarrow> ConnectivityFrame" where
  "ConnectivityDirectSessionOpenFrame requestID attemptID daemonID androidFingerprint =
     (zeroConnectivityFrame ''direct_session_open'')\<lparr>cf_RequestID := requestID,
       cf_AttemptID := attemptID, cf_DaemonID := daemonID,
       cf_AndroidFingerprint := androidFingerprint\<rparr>"

definition ConnectivityDirectSessionCloseFrame ::
    "string \<Rightarrow> string \<Rightarrow> string \<Rightarrow> string \<Rightarrow> ConnectivityFrame" where
  "ConnectivityDirectSessionCloseFrame requestID attemptID daemonID androidFingerprint =
     (zeroConnectivityFrame ''direct_session_close'')\<lparr>cf_RequestID := requestID,
       cf_AttemptID := attemptID, cf_DaemonID := daemonID,
       cf_AndroidFingerprint := androidFingerprint\<rparr>"

definition ConnectivityRelayTunnelReadyFrame ::
    "string \<Rightarrow> string \<Rightarrow> string \<Rightarrow> string \<Rightarrow> string \<Rightarrow> string \<Rightarrow> ConnectivityFrame" where
  "ConnectivityRelayTunnelReadyFrame requestID attemptID actor daemonID androidFingerprint token =
     (zeroConnectivityFrame ''relay_tunnel_ready'')\<lparr>cf_RequestID := requestID,
       cf_AttemptID := attemptID, cf_Actor := actor, cf_DaemonID := daemonID,
       cf_AndroidFingerprint := androidFingerprint, cf_TunnelToken := token\<rparr>"

definition ConnectivityRelayTunnelReadyFrameWithDiagnostics ::
    "string \<Rightarrow> string \<Rightarrow> string \<Rightarrow> string \<Rightarrow> string \<Rightarrow> string \<Rightarrow> string \<Rightarrow> int \<Rightarrow> int
      \<Rightarrow> ConnectivityFrame" where
  "ConnectivityRelayTunnelReadyFrameWithDiagnostics requestID attemptID actor daemonID
      androidFingerprint token fallbackReason directSetupLatencyMS relaySetupLatencyMS =
     (ConnectivityRelayTunnelReadyFrame requestID attemptID actor daemonID androidFingerprint token)
       \<lparr>cf_FallbackReason := fallbackReason, cf_DirectSetupLatencyMS := directSetupLatencyMS,
        cf_RelaySetupLatencyMS := relaySetupLatencyMS\<rparr>"

definition ConnectivityErrorFrame :: "string \<Rightarrow> string \<Rightarrow> ConnectivityFrame" where
  "ConnectivityErrorFrame requestID reason =
     (zeroConnectivityFrame ''error'')\<lparr>cf_RequestID := requestID, cf_Reason := reason\<rparr>"

definition ConnectivityErrorFrameWithRetryAfter ::
    "string \<Rightarrow> string \<Rightarrow> int \<Rightarrow> ConnectivityFrame" where
  "ConnectivityErrorFrameWithRetryAfter requestID reason retryAfterSeconds =
     (ConnectivityErrorFrame requestID reason)\<lparr>cf_RetryAfterSeconds := retryAfterSeconds\<rparr>"

lemmas connectivity_frame_defs =
  ConnectivityRendezvousHintFrame_def ConnectivityRendezvousCloseFrame_def
  ConnectivityDaemonUpsertFrame_def ConnectivityDaemonRemovedFrame_def
  ConnectivityPairedDeviceRevokedFrame_def ConnectivityPairResponseForwardFrame_def
  ConnectivityDirectSessionCloseFrame_def ConnectivityRelayTunnelReadyFrame_def
  ConnectivityRelayTunnelReadyFrameWithDiagnostics_def zeroConnectivityFrame_def

end
