(* ===== verification/Conn_Model.thy ===== *)
theory Conn_Model
  imports Go_Net Protocol_Frames
begin

text \<open>
  The relay's connectivity registry (\<open>internal/relay/connectivity/registry.go\<close>): its state and
  its operations, in the order of the source.

  The state is \<open>connRegistry\<close>; an operation takes it and returns its result, the effects it has
  outside the registry (frames sent, peers closed, closers run, timers started) in order, and the
  new state. The text between \<open>r.mu.Lock\<close> and \<open>r.mu.Unlock\<close> is one atomic section. An
  operation that takes the lock twice (it sends a frame in between and comes back when the send
  failed) is written as its two sections and their composition, so that the sections of other
  operations can be placed between them. \<open>ok p f\<close> says whether sending frame \<open>f\<close> to peer
  \<open>p\<close> succeeds; \<open>clk i\<close> is the \<open>i\<close>-th reading of the clock.

  Peers are handles compared by identity, numbered here; a peer argument that the code passes as
  \<open>nil\<close> is an option. Attempts are heap objects compared by address: \<open>cr_nextPtr\<close> numbers the
  allocations and every attempt carries its number.
\<close>

type_synonym peer = nat
type_synonym closer = nat

datatype jsonPeer = AppPeer peer | DaemonPeer peer

datatype connError =
    ErrConnectivityPeerInactive
  | ErrPairingCorrelationNotFound
  | ErrRelayTunnelUnavailable
  | ErrRelayTunnelRateLimited
  | ErrRelayTunnelTokenInvalid
  | ErrRendezvousUnavailable
  | ErrRendezvousRateLimited
  | ErrRandomSource

definition TunnelActorClient :: string where
  "TunnelActorClient = ''client''"

definition TunnelActorDaemon :: string where
  "TunnelActorDaemon = ''daemon''"

definition RelayTunnelRequestLimit :: nat where
  "RelayTunnelRequestLimit = 10"

definition RelayTunnelRequestWindow :: duration where
  "RelayTunnelRequestWindow = minute"

definition RelayTunnelInFlightPerAppSessionLimit :: nat where
  "RelayTunnelInFlightPerAppSessionLimit = 4"

definition RendezvousCandidateLimit :: nat where
  "RendezvousCandidateLimit = 8"

section \<open>State\<close>

record AppOwner =
  ao_UserID :: int
  ao_AppSessionID :: string
  ao_DeviceFingerprint :: string
  ao_SessionCreatedAt :: gotime

record DaemonOwner =
  do_UserID :: int
  do_AgentTokenID :: string

record liveApp =
  la_owner :: AppOwner
  la_peer :: peer
  la_connectedAt :: gotime

record liveDaemon =
  ld_info :: ConnectivityDaemonInfo
  ld_owner :: DaemonOwner
  ld_peer :: peer
  ld_trusted :: "(string, ConnectivityTrustedAndroid) gomap"
  ld_connectedAt :: gotime

record pairCorrelation =
  pc_id :: string
  pc_owner :: DaemonOwner
  pc_deviceID :: string
  pc_peer :: peer
  pc_expiresAt :: gotime

record tunnelAttempt =
  tu_ptr :: nat
  tu_key :: string
  tu_id :: string
  tu_appOwner :: AppOwner
  tu_daemonOwner :: DaemonOwner
  tu_daemonDeviceID :: string
  tu_daemonFingerprint :: string
  tu_daemonPeer :: peer
  tu_appToken :: string
  tu_daemonToken :: string
  tu_fallbackReason :: string
  tu_directLatencyMS :: int
  tu_relayLatencyMS :: int
  tu_appRedeemed :: bool
  tu_daemonRedeemed :: bool
  tu_active :: bool
  tu_expiresAt :: gotime
  tu_closers :: "(int, closer) gomap"

record rendezvousAttempt =
  rv_ptr :: nat
  rv_key :: string
  rv_id :: string
  rv_appOwner :: AppOwner
  rv_appPeer :: peer
  rv_daemonOwner :: DaemonOwner
  rv_daemonDeviceID :: string
  rv_daemonFingerprint :: string
  rv_daemonPeer :: peer
  rv_expiresAt :: gotime

record directSession =
  dr_key :: string
  dr_id :: string
  dr_appOwner :: AppOwner
  dr_daemonOwner :: DaemonOwner
  dr_daemonDeviceID :: string
  dr_daemonFingerprint :: string
  dr_daemonPeer :: peer
  dr_androidFingerprint :: string

record rendezvousCloseNotification =
  cn_peer :: jsonPeer
  cn_frame :: ConnectivityFrame
  cn_closeOnFailure :: bool

record tunnelToken =
  tk_attemptID :: string
  tk_actor :: string

record TunnelRedemption =
  tr_TunnelKey :: string
  tr_AttemptID :: string
  tr_Actor :: string
  tr_UserID :: int
  tr_AppSessionID :: string
  tr_DeviceFingerprint :: string
  tr_DaemonDeviceID :: string
  tr_DaemonFingerprint :: string

record connRegistry =
  cr_apps :: "(peer, liveApp) gomap"
  cr_daemons :: "(string, liveDaemon) gomap"
  cr_correlations :: "(string, pairCorrelation) gomap"
  cr_attempts :: "(string, tunnelAttempt) gomap"
  cr_activeDirect :: "(string, directSession) gomap"
  cr_rendezvous :: "(string, rendezvousAttempt) gomap"
  cr_tokens :: "(string, tunnelToken) gomap"
  cr_tunnelRequests :: "(int, gotime list) gomap"
  cr_rendezvousReqs :: "(int, gotime list) gomap"
  cr_revokedApps :: "string set"
  cr_revokedAgents :: "string set"
  cr_userAppCutoff :: "(int, gotime) gomap"
  cr_nextCloserID :: int
  cr_nextPtr :: nat

definition NewRegistry :: connRegistry where
  "NewRegistry = \<lparr>cr_apps = [], cr_daemons = [], cr_correlations = [], cr_attempts = [],
     cr_activeDirect = [], cr_rendezvous = [], cr_tokens = [], cr_tunnelRequests = [],
     cr_rendezvousReqs = [], cr_revokedApps = {}, cr_revokedAgents = {}, cr_userAppCutoff = [],
     cr_nextCloserID = 0, cr_nextPtr = 0\<rparr>"

datatype ceffect =
    Send jsonPeer ConnectivityFrame
  | ClosePeer jsonPeer
  | RunCloser closer
  | ExpireRendezvousLater string duration
  | ExpireTunnelLater string duration

section \<open>Keys, candidates and normalisation\<close>

definition daemonMapKey :: "int \<Rightarrow> string \<Rightarrow> string" where
  "daemonMapKey userID deviceID = itoa userID @ '':'' @ TrimSpace deviceID"

definition pairCorrelationKey :: "int \<Rightarrow> string \<Rightarrow> string" where
  "pairCorrelationKey userID correlationID = itoa userID @ '':'' @ TrimSpace correlationID"

definition tunnelAttemptKey :: "AppOwner \<Rightarrow> string \<Rightarrow> string \<Rightarrow> string" where
  "tunnelAttemptKey owner daemonID attemptID =
     itoa (ao_UserID owner) @ '':'' @ TrimSpace (ao_AppSessionID owner) @ '':'' @
     normalizeFingerprint (ao_DeviceFingerprint owner) @ '':'' @
     TrimSpace daemonID @ '':'' @ TrimSpace attemptID"

definition directSessionReportKey :: "string \<Rightarrow> string \<Rightarrow> string" where
  "directSessionReportKey attemptID androidFingerprint =
     TrimSpace attemptID @ [CHR 0x00] @ normalizeFingerprint androidFingerprint"

definition trustedMapFromSlice ::
    "ConnectivityTrustedAndroid list \<Rightarrow> (string, ConnectivityTrustedAndroid) gomap" where
  "trustedMapFromSlice trusted =
     fold (\<lambda>device out.
        let device = device\<lparr>ta_Fingerprint := normalizeFingerprint (ta_Fingerprint device)\<rparr>
        in if ta_Fingerprint device = [] then out
           else gm_put (ta_Fingerprint device) device out) trusted []"

text \<open>\<open>trusted[fp].Fingerprint\<close>: the zero value is read where the key is missing.\<close>

definition trustedFingerprint :: "(string, ConnectivityTrustedAndroid) gomap \<Rightarrow> string \<Rightarrow> string" where
  "trustedFingerprint trusted fp =
     (case gm_get trusted fp of None \<Rightarrow> [] | Some t \<Rightarrow> ta_Fingerprint t)"

definition normalizeCandidateList :: "string list \<Rightarrow> string list" where
  "normalizeCandidateList addrs =
     take RendezvousCandidateLimit (sort (remdups (filter (\<lambda>a. a \<noteq> []) (map TrimSpace addrs))))"

definition validUDPAddr :: "string \<Rightarrow> bool" where
  "validUDPAddr raw =
     (case SplitHostPort (TrimSpace raw) of
        None \<Rightarrow> False
      | Some (host, port) \<Rightarrow>
          if \<not> ParseIP host then False
          else case Atoi port of None \<Rightarrow> False | Some n \<Rightarrow> 0 < n \<and> n \<le> 65535)"

definition validCandidatePayload :: "string \<Rightarrow> string list \<Rightarrow> bool" where
  "validCandidatePayload publicUDPAddr privateUDPAddrs \<longleftrightarrow>
     validUDPAddr publicUDPAddr \<and> list_all validUDPAddr privateUDPAddrs"

definition nonNegativeInt :: "int \<Rightarrow> int" where
  "nonNegativeInt v = (if v < 0 then 0 else v)"

section \<open>Notifications and closers\<close>

fun sendRendezvousCloseNotifications ::
    "(jsonPeer \<Rightarrow> ConnectivityFrame \<Rightarrow> bool) \<Rightarrow> rendezvousCloseNotification list \<Rightarrow> ceffect list" where
  "sendRendezvousCloseNotifications ok [] = []"
| "sendRendezvousCloseNotifications ok (n # ns) =
     Send (cn_peer n) (cn_frame n) #
     (if \<not> ok (cn_peer n) (cn_frame n) \<and> cn_closeOnFailure n then [ClosePeer (cn_peer n)] else []) @
     sendRendezvousCloseNotifications ok ns"

definition closeTunnelClosers :: "closer list \<Rightarrow> ceffect list" where
  "closeTunnelClosers closers = map RunCloser closers"

section \<open>Lookups\<close>

definition visibleDaemonsLocked :: "AppOwner \<Rightarrow> connRegistry \<Rightarrow> ConnectivityDaemonInfo list" where
  "visibleDaemonsLocked owner r =
     map ld_info (sort_key (\<lambda>live. (- ld_connectedAt live, di_DeviceID (ld_info live)))
       (gm_vals (\<lambda>live. do_UserID (ld_owner live) = ao_UserID owner \<and>
                        gm_get (ld_trusted live) (ao_DeviceFingerprint owner) \<noteq> None)
          (cr_daemons r)))"

definition matchingAppPeersLocked ::
    "int \<Rightarrow> (string, ConnectivityTrustedAndroid) gomap \<Rightarrow> connRegistry \<Rightarrow> peer list" where
  "matchingAppPeersLocked userID trusted r =
     map la_peer (gm_vals (\<lambda>app. ao_UserID (la_owner app) = userID \<and>
        gm_get trusted (ao_DeviceFingerprint (la_owner app)) \<noteq> None) (cr_apps r))"

definition matchingSingleAppPeerLocked :: "int \<Rightarrow> string \<Rightarrow> connRegistry \<Rightarrow> peer list" where
  "matchingSingleAppPeerLocked userID fingerprint r =
     map la_peer (gm_vals (\<lambda>app. ao_UserID (la_owner app) = userID \<and>
        ao_DeviceFingerprint (la_owner app) = fingerprint) (cr_apps r))"

definition lostAppPeersLocked ::
    "int \<Rightarrow> (string, ConnectivityTrustedAndroid) gomap \<Rightarrow> (string, ConnectivityTrustedAndroid) gomap
      \<Rightarrow> connRegistry \<Rightarrow> peer list" where
  "lostAppPeersLocked userID oldTrusted newTrusted r =
     concat (map (\<lambda>fp. if gm_get newTrusted fp \<noteq> None then []
                       else matchingSingleAppPeerLocked userID fp r) (map fst oldTrusted))"

definition daemonByDevicePeerLocked ::
    "string \<Rightarrow> peer \<Rightarrow> connRegistry \<Rightarrow> (string \<times> liveDaemon) option" where
  "daemonByDevicePeerLocked deviceID peer r =
     find (\<lambda>(key, live). di_DeviceID (ld_info live) = deviceID \<and> ld_peer live = peer) (cr_daemons r)"

definition appOwnerRevokedLocked :: "AppOwner \<Rightarrow> connRegistry \<Rightarrow> bool" where
  "appOwnerRevokedLocked owner r =
     (if TrimSpace (ao_AppSessionID owner) \<in> cr_revokedApps r then True
      else case gm_get (cr_userAppCutoff r) (ao_UserID owner) of
          None \<Rightarrow> False
        | Some cutoff \<Rightarrow> ao_SessionCreatedAt owner = 0 \<or> \<not> cutoff < ao_SessionCreatedAt owner)"

definition sameAppOwner :: "AppOwner \<Rightarrow> AppOwner \<Rightarrow> bool" where
  "sameAppOwner a b \<longleftrightarrow> ao_UserID a = ao_UserID b \<and> ao_AppSessionID a = ao_AppSessionID b \<and>
     ao_DeviceFingerprint a = ao_DeviceFingerprint b"

definition normOwner :: "AppOwner \<Rightarrow> AppOwner" where
  "normOwner owner =
     owner\<lparr>ao_DeviceFingerprint := normalizeFingerprint (ao_DeviceFingerprint owner)\<rparr>"

definition appPeerActiveLocked :: "AppOwner \<Rightarrow> peer \<Rightarrow> connRegistry \<Rightarrow> bool" where
  "appPeerActiveLocked owner peer r =
     (case gm_get (cr_apps r) peer of
        None \<Rightarrow> False
      | Some app \<Rightarrow> sameAppOwner (la_owner app) (normOwner owner) \<and>
                    \<not> appOwnerRevokedLocked (la_owner app) r)"

definition appOwnerActiveLocked :: "AppOwner \<Rightarrow> connRegistry \<Rightarrow> bool" where
  "appOwnerActiveLocked owner r =
     (if appOwnerRevokedLocked owner r then False
      else list_ex (\<lambda>(_, app). sameAppOwner (la_owner app) (normOwner owner)) (cr_apps r))"

lemma actors_differ [simp]: "TunnelActorClient \<noteq> TunnelActorDaemon" "TunnelActorDaemon \<noteq> TunnelActorClient"
  by (simp_all add: TunnelActorClient_def TunnelActorDaemon_def)

end
