(* ===== verification/Conn_Ops.thy ===== *)
theory Conn_Ops
  imports Conn_Model
begin

text \<open>
  The operations of the connectivity registry: removal helpers, rate limiting, registration and
  disconnection of apps and daemons, pairing, rendezvous, direct sessions and relay tunnels.
\<close>

section \<open>Removal helpers\<close>

definition removeCorrelationsForDaemonLocked :: "string \<Rightarrow> peer \<Rightarrow> connRegistry \<Rightarrow> connRegistry" where
  "removeCorrelationsForDaemonLocked deviceID peer r =
     r\<lparr>cr_correlations :=
         gm_drop (\<lambda>c. pc_deviceID c = deviceID \<and> pc_peer c = peer) (cr_correlations r)\<rparr>"

definition removeTunnelAttemptLocked ::
    "tunnelAttempt \<Rightarrow> connRegistry \<Rightarrow> closer list \<times> connRegistry" where
  "removeTunnelAttemptLocked attempt r =
     (map snd (tu_closers attempt),
      r\<lparr>cr_attempts := gm_del (tu_key attempt) (cr_attempts r),
        cr_tokens := gm_del (tu_daemonToken attempt) (gm_del (tu_appToken attempt) (cr_tokens r))\<rparr>)"

fun removeTunnelAttemptList ::
    "tunnelAttempt list \<Rightarrow> connRegistry \<Rightarrow> closer list \<times> connRegistry" where
  "removeTunnelAttemptList [] r = ([], r)"
| "removeTunnelAttemptList (a # as) r =
     (let (cs, r1) = removeTunnelAttemptLocked a r; (cs', r2) = removeTunnelAttemptList as r1
      in (cs @ cs', r2))"

definition removeTunnelAttemptsLocked ::
    "(tunnelAttempt \<Rightarrow> bool) \<Rightarrow> connRegistry \<Rightarrow> closer list \<times> connRegistry" where
  "removeTunnelAttemptsLocked match r = removeTunnelAttemptList (gm_vals match (cr_attempts r)) r"

definition rendezvousCloseFor :: "rendezvousAttempt \<Rightarrow> rendezvousCloseNotification" where
  "rendezvousCloseFor attempt =
     \<lparr>cn_peer = DaemonPeer (rv_daemonPeer attempt),
      cn_frame = ConnectivityRendezvousCloseFrame [] (rv_id attempt) TunnelActorClient
        (rv_daemonDeviceID attempt) (ao_DeviceFingerprint (rv_appOwner attempt)),
      cn_closeOnFailure = False\<rparr>"

definition removeRendezvousLocked ::
    "(rendezvousAttempt \<Rightarrow> bool) \<Rightarrow> connRegistry \<Rightarrow> rendezvousCloseNotification list \<times> connRegistry" where
  "removeRendezvousLocked match r =
     (map rendezvousCloseFor (gm_vals match (cr_rendezvous r)),
      r\<lparr>cr_rendezvous := gm_drop match (cr_rendezvous r)\<rparr>)"

definition directCloseFor :: "directSession \<Rightarrow> rendezvousCloseNotification" where
  "directCloseFor session =
     \<lparr>cn_peer = DaemonPeer (dr_daemonPeer session),
      cn_frame = ConnectivityDirectSessionCloseFrame [] (dr_id session)
        (dr_daemonDeviceID session) (dr_androidFingerprint session),
      cn_closeOnFailure = True\<rparr>"

definition removeActiveDirectLocked ::
    "(directSession \<Rightarrow> bool) \<Rightarrow> connRegistry \<Rightarrow> rendezvousCloseNotification list \<times> connRegistry" where
  "removeActiveDirectLocked match r =
     (map directCloseFor (gm_vals match (cr_activeDirect r)),
      r\<lparr>cr_activeDirect := gm_drop match (cr_activeDirect r)\<rparr>)"

section \<open>Expiry\<close>

definition sweepExpiredRendezvousLocked :: "gotime \<Rightarrow> connRegistry \<Rightarrow> connRegistry" where
  "sweepExpiredRendezvousLocked now r =
     r\<lparr>cr_rendezvous := gm_drop (\<lambda>a. \<not> now < rv_expiresAt a) (cr_rendezvous r)\<rparr>"

definition sweepExpiredPairCorrelationsLocked :: "gotime \<Rightarrow> connRegistry \<Rightarrow> connRegistry" where
  "sweepExpiredPairCorrelationsLocked now r =
     r\<lparr>cr_correlations := gm_drop (\<lambda>c. \<not> now < pc_expiresAt c) (cr_correlations r)\<rparr>"

definition tunnelAttemptExpired :: "gotime \<Rightarrow> tunnelAttempt \<Rightarrow> bool" where
  "tunnelAttemptExpired now attempt \<longleftrightarrow> \<not> (tu_active attempt \<or> now < tu_expiresAt attempt)"

definition sweepExpiredTunnelAttemptsLocked ::
    "gotime \<Rightarrow> connRegistry \<Rightarrow> nat \<times> closer list \<times> connRegistry" where
  "sweepExpiredTunnelAttemptsLocked now r =
     (length (gm_vals (tunnelAttemptExpired now) (cr_attempts r)),
      removeTunnelAttemptsLocked (tunnelAttemptExpired now) r)"

text \<open>The functions the two timers run when they fire.\<close>

definition expireRendezvousLater :: "clock \<Rightarrow> string \<Rightarrow> connRegistry \<Rightarrow> connRegistry" where
  "expireRendezvousLater clk key r =
     (case gm_get (cr_rendezvous r) key of
        None \<Rightarrow> r
      | Some attempt \<Rightarrow> if clk 0 < rv_expiresAt attempt then r
                        else r\<lparr>cr_rendezvous := gm_del key (cr_rendezvous r)\<rparr>)"

definition expireUnpairedRelayTunnelLater ::
    "clock \<Rightarrow> string \<Rightarrow> connRegistry \<Rightarrow> ceffect list \<times> connRegistry" where
  "expireUnpairedRelayTunnelLater clk tunnelKey r =
     (case gm_get (cr_attempts r) tunnelKey of
        None \<Rightarrow> ([], r)
      | Some attempt \<Rightarrow>
          if \<not> tu_active attempt \<and> \<not> clk 0 < tu_expiresAt attempt
          then let (closers, r1) = removeTunnelAttemptLocked attempt r
               in (closeTunnelClosers closers, r1)
          else ([], r))"

section \<open>Rate limiting\<close>

text \<open>
  \<open>recentRelayTunnelRequestsLocked\<close> and \<open>recentRendezvousRequestsLocked\<close> are the same text over
  two maps: the requests of the last minute, with the map pruned to them.
\<close>

definition recentRequestsLocked ::
    "int \<Rightarrow> gotime \<Rightarrow> (int, gotime list) gomap \<Rightarrow> gotime list \<times> (int, gotime list) gomap" where
  "recentRequestsLocked userID now m =
     (let requests = (case gm_get m userID of None \<Rightarrow> [] | Some ts \<Rightarrow> ts)
      in if requests = [] then ([], m)
         else let cutoff = now - RelayTunnelRequestWindow;
                  kept = filter (\<lambda>t. cutoff < t) requests
              in if kept = [] then ([], gm_del userID m)
                 else (kept, gm_put userID kept m))"

definition allowRequestLocked ::
    "int \<Rightarrow> gotime \<Rightarrow> (int, gotime list) gomap \<Rightarrow> bool \<times> (int, gotime list) gomap" where
  "allowRequestLocked userID now m =
     (let (recent, m') = recentRequestsLocked userID now m
      in (length recent < RelayTunnelRequestLimit, m'))"

definition recordRequestLocked ::
    "int \<Rightarrow> gotime \<Rightarrow> (int, gotime list) gomap \<Rightarrow> (int, gotime list) gomap" where
  "recordRequestLocked userID now m =
     (let (recent, m') = recentRequestsLocked userID now m
      in gm_put userID (recent @ [now]) m')"

definition allowRelayTunnelRequestLocked :: "int \<Rightarrow> gotime \<Rightarrow> connRegistry \<Rightarrow> bool \<times> connRegistry" where
  "allowRelayTunnelRequestLocked userID now r =
     (let (b, m) = allowRequestLocked userID now (cr_tunnelRequests r)
      in (b, r\<lparr>cr_tunnelRequests := m\<rparr>))"

definition recordRelayTunnelRequestLocked :: "int \<Rightarrow> gotime \<Rightarrow> connRegistry \<Rightarrow> connRegistry" where
  "recordRelayTunnelRequestLocked userID now r =
     r\<lparr>cr_tunnelRequests := recordRequestLocked userID now (cr_tunnelRequests r)\<rparr>"

definition allowRendezvousRequestLocked :: "int \<Rightarrow> gotime \<Rightarrow> connRegistry \<Rightarrow> bool \<times> connRegistry" where
  "allowRendezvousRequestLocked userID now r =
     (let (b, m) = allowRequestLocked userID now (cr_rendezvousReqs r)
      in (b, r\<lparr>cr_rendezvousReqs := m\<rparr>))"

definition recordRendezvousRequestLocked :: "int \<Rightarrow> gotime \<Rightarrow> connRegistry \<Rightarrow> connRegistry" where
  "recordRendezvousRequestLocked userID now r =
     r\<lparr>cr_rendezvousReqs := recordRequestLocked userID now (cr_rendezvousReqs r)\<rparr>"

definition countRelayTunnelAttemptsLocked :: "AppOwner \<Rightarrow> string \<Rightarrow> connRegistry \<Rightarrow> nat" where
  "countRelayTunnelAttemptsLocked owner excludingTunnelKey r =
     length (filter (\<lambda>(key, attempt). key \<noteq> excludingTunnelKey \<and>
        sameAppOwner (tu_appOwner attempt) owner) (cr_attempts r))"

section \<open>Apps\<close>

text \<open>\<open>stillValid\<close> is \<open>None\<close> for \<open>nil\<close>, else what the callback answers.\<close>

definition RegisterAppIfValid ::
    "clock \<Rightarrow> AppOwner \<Rightarrow> peer \<Rightarrow> bool option \<Rightarrow> connRegistry
      \<Rightarrow> (ConnectivityDaemonInfo list \<times> bool) \<times> connRegistry" where
  "RegisterAppIfValid clk owner0 peer stillValid r =
     (let owner = normOwner owner0
      in if stillValid = Some False then (([], False), r)
         else if appOwnerRevokedLocked owner r then (([], False), r)
         else let r1 = r\<lparr>cr_apps := gm_put peer
                    \<lparr>la_owner = owner, la_peer = peer, la_connectedAt = clk 0\<rparr> (cr_apps r)\<rparr>
              in ((visibleDaemonsLocked owner r1, True), r1))"

definition RegisterApp ::
    "clock \<Rightarrow> AppOwner \<Rightarrow> peer \<Rightarrow> connRegistry \<Rightarrow> ConnectivityDaemonInfo list \<times> connRegistry" where
  "RegisterApp clk owner peer r =
     (let ((snapshot, _), r1) = RegisterAppIfValid clk owner peer None r in (snapshot, r1))"

definition DisconnectApp ::
    "(jsonPeer \<Rightarrow> ConnectivityFrame \<Rightarrow> bool) \<Rightarrow> peer \<Rightarrow> connRegistry
      \<Rightarrow> bool \<times> ceffect list \<times> connRegistry" where
  "DisconnectApp ok peer r =
     (case gm_get (cr_apps r) peer of
        None \<Rightarrow> (False, [], r)
      | Some app \<Rightarrow>
          let r1 = r\<lparr>cr_apps := gm_del peer (cr_apps r)\<rparr>;
              (notifications, r2) = removeRendezvousLocked
                (\<lambda>a. rv_appPeer a = peer \<or> sameAppOwner (rv_appOwner a) (la_owner app)) r1
          in (True, sendRendezvousCloseNotifications ok notifications @ [ClosePeer (AppPeer peer)], r2))"

section \<open>Daemons\<close>

definition reconcileReport ::
    "DaemonOwner \<Rightarrow> ConnectivityDaemonInfo \<Rightarrow> (string, ConnectivityTrustedAndroid) gomap \<Rightarrow> peer
      \<Rightarrow> ConnectivityDirectSession
      \<Rightarrow> string set \<times> rendezvousCloseNotification list \<times> connRegistry
      \<Rightarrow> string set \<times> rendezvousCloseNotification list \<times> connRegistry" where
  "reconcileReport owner info trusted peer session st =
     (case st of (reportedKeys, notifications, r) \<Rightarrow>
        let attemptID = TrimSpace (ds_AttemptID session);
            androidFingerprint = normalizeFingerprint (ds_AndroidFingerprint session)
        in if attemptID = [] \<or> androidFingerprint = [] then st
           else
             let keys = insert (directSessionReportKey attemptID androidFingerprint) reportedKeys;
                 close = \<lparr>cn_peer = DaemonPeer peer,
                          cn_frame = ConnectivityDirectSessionCloseFrame [] attemptID
                            (di_DeviceID info) androidFingerprint,
                          cn_closeOnFailure = False\<rparr>
             in case find (\<lambda>(_, c). dr_id c = attemptID \<and> dr_daemonOwner c = owner \<and>
                         dr_daemonDeviceID c = di_DeviceID info \<and>
                         dr_androidFingerprint c = androidFingerprint) (cr_activeDirect r) of
                  None \<Rightarrow> (keys, notifications @ [close], r)
                | Some (key, active) \<Rightarrow>
                    if appOwnerRevokedLocked (dr_appOwner active) r \<or>
                       trustedFingerprint trusted androidFingerprint = []
                    then (keys, notifications @ [close], r)
                    else (keys, notifications,
                          r\<lparr>cr_activeDirect := gm_put key (active\<lparr>dr_daemonPeer := peer,
                              dr_daemonFingerprint := di_DaemonFingerprint info\<rparr>) (cr_activeDirect r)\<rparr>))"

definition reconcileDirectSessionsLocked ::
    "DaemonOwner \<Rightarrow> ConnectivityDaemonInfo \<Rightarrow> (string, ConnectivityTrustedAndroid) gomap
      \<Rightarrow> ConnectivityDirectSession list \<Rightarrow> peer \<Rightarrow> connRegistry
      \<Rightarrow> rendezvousCloseNotification list \<times> connRegistry" where
  "reconcileDirectSessionsLocked owner info trusted reported peer r =
     (let (reportedKeys, notifications, r1) =
            fold (reconcileReport owner info trusted peer) reported ({}, [], r)
      in (notifications,
          r1\<lparr>cr_activeDirect := gm_drop
               (\<lambda>s. dr_daemonOwner s = owner \<and> dr_daemonDeviceID s = di_DeviceID info \<and>
                    directSessionReportKey (dr_id s) (dr_androidFingerprint s) \<notin> reportedKeys)
               (cr_activeDirect r1)\<rparr>))"

text \<open>
  The removal of the daemon a registration replaces: the old daemon, its correlations,
  rendezvous attempts and tunnel attempts.
\<close>

definition dropDaemonLocked ::
    "string \<Rightarrow> peer \<Rightarrow> connRegistry
      \<Rightarrow> rendezvousCloseNotification list \<times> closer list \<times> connRegistry" where
  "dropDaemonLocked key peer r =
     (let r1 = r\<lparr>cr_daemons := gm_del key (cr_daemons r)\<rparr>;
          r2 = removeCorrelationsForDaemonLocked key peer r1;
          (notifications, r3) = removeRendezvousLocked (\<lambda>a. rv_daemonPeer a = peer) r2;
          (closers, r4) = removeTunnelAttemptsLocked (\<lambda>a. tu_daemonPeer a = peer) r3
      in (notifications, closers, r4))"

definition RegisterDaemonIfValidWithDirectSessions ::
    "(jsonPeer \<Rightarrow> ConnectivityFrame \<Rightarrow> bool) \<Rightarrow> clock \<Rightarrow> DaemonOwner \<Rightarrow> ConnectivityDaemonInfo
      \<Rightarrow> ConnectivityTrustedAndroid list \<Rightarrow> ConnectivityDirectSession list \<Rightarrow> peer \<Rightarrow> bool option
      \<Rightarrow> connRegistry \<Rightarrow> (peer list \<times> bool) \<times> ceffect list \<times> connRegistry" where
  "RegisterDaemonIfValidWithDirectSessions ok clk owner info0 trusted directSessions peer stillValid r =
     (let info = info0\<lparr>di_DeviceID := TrimSpace (di_DeviceID info0),
                        di_DaemonFingerprint := normalizeFingerprint (di_DaemonFingerprint info0)\<rparr>;
          trustedMap = trustedMapFromSlice trusted;
          key = daemonMapKey (do_UserID owner) (di_DeviceID info)
      in if stillValid = Some False then (([], False), [], r)
         else if do_AgentTokenID owner \<in> cr_revokedAgents r then (([], False), [], r)
         else
           let (replaced, notifications1, closers, removed, r1) =
                 (case gm_get (cr_daemons r) key of
                    None \<Rightarrow> (None, [], [], [], r)
                  | Some old \<Rightarrow>
                      if ld_peer old = peer then (None, [], [], [], r)
                      else let (ns, cs, r') = dropDaemonLocked key (ld_peer old) r
                           in (Some old, ns, cs,
                               lostAppPeersLocked (do_UserID (ld_owner old)) (ld_trusted old) trustedMap r', r'));
               r2 = r1\<lparr>cr_daemons := gm_put key \<lparr>ld_info = info, ld_owner = owner, ld_peer = peer,
                       ld_trusted = trustedMap, ld_connectedAt = clk 0\<rparr> (cr_daemons r1)\<rparr>;
               appPeers = matchingAppPeersLocked (do_UserID owner) trustedMap r2;
               (notifications2, r3) =
                 reconcileDirectSessionsLocked owner info trustedMap directSessions peer r2
           in ((appPeers, True),
               sendRendezvousCloseNotifications ok (notifications1 @ notifications2) @
               closeTunnelClosers closers @
               (case replaced of
                  None \<Rightarrow> []
                | Some old \<Rightarrow> ClosePeer (DaemonPeer (ld_peer old)) #
                    map (\<lambda>p. Send (AppPeer p) (ConnectivityDaemonRemovedFrame
                       (di_DeviceID (ld_info old)) (di_DaemonFingerprint (ld_info old)))) removed) @
               map (\<lambda>p. Send (AppPeer p) (ConnectivityDaemonUpsertFrame info)) appPeers,
               r3))"

definition RegisterDaemonIfValid ::
    "(jsonPeer \<Rightarrow> ConnectivityFrame \<Rightarrow> bool) \<Rightarrow> clock \<Rightarrow> DaemonOwner \<Rightarrow> ConnectivityDaemonInfo
      \<Rightarrow> ConnectivityTrustedAndroid list \<Rightarrow> peer \<Rightarrow> bool option
      \<Rightarrow> connRegistry \<Rightarrow> (peer list \<times> bool) \<times> ceffect list \<times> connRegistry" where
  "RegisterDaemonIfValid ok clk owner info trusted peer stillValid r =
     RegisterDaemonIfValidWithDirectSessions ok clk owner info trusted [] peer stillValid r"

definition RegisterDaemon ::
    "(jsonPeer \<Rightarrow> ConnectivityFrame \<Rightarrow> bool) \<Rightarrow> clock \<Rightarrow> DaemonOwner \<Rightarrow> ConnectivityDaemonInfo
      \<Rightarrow> ConnectivityTrustedAndroid list \<Rightarrow> peer
      \<Rightarrow> connRegistry \<Rightarrow> peer list \<times> ceffect list \<times> connRegistry" where
  "RegisterDaemon ok clk owner info trusted peer r =
     (let ((appPeers, _), es, r1) = RegisterDaemonIfValid ok clk owner info trusted peer None r
      in (appPeers, es, r1))"

definition DisconnectDaemon ::
    "(jsonPeer \<Rightarrow> ConnectivityFrame \<Rightarrow> bool) \<Rightarrow> string \<Rightarrow> peer \<Rightarrow> connRegistry
      \<Rightarrow> bool \<times> ceffect list \<times> connRegistry" where
  "DisconnectDaemon ok deviceID peer r =
     (case daemonByDevicePeerLocked deviceID peer r of
        None \<Rightarrow> (False, [], r)
      | Some (key, live) \<Rightarrow>
          let (notifications, closers, r1) = dropDaemonLocked key peer r;
              appPeers = matchingAppPeersLocked (do_UserID (ld_owner live)) (ld_trusted live) r1;
              info = ld_info live
          in (True,
              sendRendezvousCloseNotifications ok notifications @ closeTunnelClosers closers @
              map (\<lambda>p. Send (AppPeer p) (ConnectivityDaemonRemovedFrame (di_DeviceID info)
                (di_DaemonFingerprint info))) appPeers @
              [ClosePeer (DaemonPeer peer)],
              r1))"

section \<open>Trust and pairing\<close>

definition RevokeTrustedAndroid ::
    "(jsonPeer \<Rightarrow> ConnectivityFrame \<Rightarrow> bool) \<Rightarrow> string \<Rightarrow> peer \<Rightarrow> string \<Rightarrow> connRegistry
      \<Rightarrow> bool \<times> ceffect list \<times> connRegistry" where
  "RevokeTrustedAndroid ok deviceID peer fingerprint0 r =
     (let fingerprint = normalizeFingerprint fingerprint0
      in case daemonByDevicePeerLocked deviceID peer r of
           None \<Rightarrow> (False, [], r)
         | Some (key, live) \<Rightarrow>
             let r1 = r\<lparr>cr_daemons := gm_put key
                        (live\<lparr>ld_trusted := gm_del fingerprint (ld_trusted live)\<rparr>) (cr_daemons r)\<rparr>;
                 (ns1, r2) = removeRendezvousLocked (\<lambda>a. rv_daemonPeer a = peer \<and>
                   ao_DeviceFingerprint (rv_appOwner a) = fingerprint) r1;
                 (ns2, r3) = removeActiveDirectLocked (\<lambda>s. dr_daemonPeer s = peer \<and>
                   dr_androidFingerprint s = fingerprint) r2;
                 (closers, r4) = removeTunnelAttemptsLocked (\<lambda>a. tu_daemonPeer a = peer \<and>
                   ao_DeviceFingerprint (tu_appOwner a) = fingerprint) r3;
                 appPeers = matchingSingleAppPeerLocked (do_UserID (ld_owner live)) fingerprint r4;
                 info = ld_info live
             in (True,
                 sendRendezvousCloseNotifications ok (ns1 @ ns2) @ closeTunnelClosers closers @
                 map (\<lambda>p. Send (AppPeer p) (ConnectivityPairedDeviceRevokedFrame
                   (di_DeviceID info) (di_DaemonFingerprint info))) appPeers,
                 r4))"

definition CompletePairing ::
    "string \<Rightarrow> peer \<Rightarrow> ConnectivityTrustedAndroid \<Rightarrow> connRegistry
      \<Rightarrow> bool \<times> ceffect list \<times> connRegistry" where
  "CompletePairing deviceID peer trusted0 r =
     (let trusted = trusted0\<lparr>ta_Fingerprint := normalizeFingerprint (ta_Fingerprint trusted0)\<rparr>
      in if ta_Fingerprint trusted = [] then (False, [], r)
         else case daemonByDevicePeerLocked deviceID peer r of
           None \<Rightarrow> (False, [], r)
         | Some (key, live) \<Rightarrow>
             let r1 = r\<lparr>cr_daemons := gm_put key (live\<lparr>ld_trusted :=
                        gm_put (ta_Fingerprint trusted) trusted (ld_trusted live)\<rparr>) (cr_daemons r)\<rparr>;
                 appPeers = matchingSingleAppPeerLocked (do_UserID (ld_owner live))
                   (ta_Fingerprint trusted) r1
             in (True,
                 map (\<lambda>p. Send (AppPeer p) (ConnectivityDaemonUpsertFrame (ld_info live))) appPeers,
                 r1))"

definition ReservePairing ::
    "clock \<Rightarrow> string \<Rightarrow> DaemonOwner \<Rightarrow> peer \<Rightarrow> string \<Rightarrow> duration \<Rightarrow> connRegistry
      \<Rightarrow> bool \<times> connRegistry" where
  "ReservePairing clk deviceID owner peer correlationID0 ttl0 r =
     (let ttl = (if ttl0 \<le> 0 then 5 * minute else ttl0);
          correlationID = TrimSpace correlationID0
      in if correlationID = [] then (False, r)
         else
           let r1 = sweepExpiredPairCorrelationsLocked (clk 0) r;
               key = daemonMapKey (do_UserID owner) deviceID
           in case gm_get (cr_daemons r1) key of
                None \<Rightarrow> (False, r1)
              | Some live \<Rightarrow>
                  if ld_owner live \<noteq> owner \<or> ld_peer live \<noteq> peer then (False, r1)
                  else (True, r1\<lparr>cr_correlations :=
                         gm_put (pairCorrelationKey (do_UserID owner) correlationID)
                           \<lparr>pc_id = correlationID, pc_owner = owner, pc_deviceID = key,
                            pc_peer = peer, pc_expiresAt = clk 1 + ttl\<rparr> (cr_correlations r1)\<rparr>))"

text \<open>The two locked sections of \<open>forwardPairingResponse\<close> and their composition.\<close>

definition forwardPairing_begin ::
    "clock \<Rightarrow> int \<Rightarrow> peer option \<Rightarrow> AppOwner \<Rightarrow> string \<Rightarrow> connRegistry
      \<Rightarrow> (connError + string \<times> peer) \<times> connRegistry" where
  "forwardPairing_begin clk userID appPeer owner correlationID0 r =
     (let correlationID = TrimSpace correlationID0
      in if ao_AppSessionID owner \<noteq> [] \<and> appOwnerRevokedLocked owner r
         then (Inl ErrPairingCorrelationNotFound, r)
         else if (case appPeer of None \<Rightarrow> False | Some p \<Rightarrow> \<not> appPeerActiveLocked owner p r)
         then (Inl ErrPairingCorrelationNotFound, r)
         else
           let key = pairCorrelationKey userID correlationID
           in case gm_get (cr_correlations r) key of
                None \<Rightarrow> (Inl ErrPairingCorrelationNotFound, r)
              | Some correlation \<Rightarrow>
                  if \<not> clk 0 < pc_expiresAt correlation
                  then (Inl ErrPairingCorrelationNotFound,
                        r\<lparr>cr_correlations := gm_del key (cr_correlations r)\<rparr>)
                  else (Inr (key, pc_peer correlation), r))"

definition forwardPairing_finish :: "int \<Rightarrow> string \<Rightarrow> peer \<Rightarrow> connRegistry \<Rightarrow> connRegistry" where
  "forwardPairing_finish userID key peer r =
     (case gm_get (cr_correlations r) key of
        None \<Rightarrow> r
      | Some current \<Rightarrow>
          if pc_peer current = peer \<and> do_UserID (pc_owner current) = userID
          then r\<lparr>cr_correlations := gm_del key (cr_correlations r)\<rparr> else r)"

definition forwardPairingResponse ::
    "(jsonPeer \<Rightarrow> ConnectivityFrame \<Rightarrow> bool) \<Rightarrow> clock \<Rightarrow> int \<Rightarrow> peer option \<Rightarrow> AppOwner \<Rightarrow> string
      \<Rightarrow> ConnectivityPairingResponse \<Rightarrow> connRegistry
      \<Rightarrow> connError option \<times> ceffect list \<times> connRegistry" where
  "forwardPairingResponse ok clk userID appPeer owner correlationID response r =
     (case forwardPairing_begin clk userID appPeer owner correlationID r of
        (Inl e, r1) \<Rightarrow> (Some e, [], r1)
      | (Inr (key, peer), r1) \<Rightarrow>
          let frame = ConnectivityPairResponseForwardFrame response
          in if \<not> ok (DaemonPeer peer) frame
             then (Some ErrConnectivityPeerInactive, [Send (DaemonPeer peer) frame], r1)
             else (None, [Send (DaemonPeer peer) frame], forwardPairing_finish userID key peer r1))"

definition zeroAppOwner :: AppOwner where
  "zeroAppOwner = \<lparr>ao_UserID = 0, ao_AppSessionID = [], ao_DeviceFingerprint = [],
     ao_SessionCreatedAt = 0\<rparr>"

definition ForwardPairingResponse ::
    "(jsonPeer \<Rightarrow> ConnectivityFrame \<Rightarrow> bool) \<Rightarrow> clock \<Rightarrow> int \<Rightarrow> string
      \<Rightarrow> ConnectivityPairingResponse \<Rightarrow> connRegistry
      \<Rightarrow> connError option \<times> ceffect list \<times> connRegistry" where
  "ForwardPairingResponse ok clk userID correlationID response r =
     forwardPairingResponse ok clk userID None zeroAppOwner correlationID response r"

definition ForwardPairingResponseFromApp ::
    "(jsonPeer \<Rightarrow> ConnectivityFrame \<Rightarrow> bool) \<Rightarrow> clock \<Rightarrow> AppOwner \<Rightarrow> peer option \<Rightarrow> string
      \<Rightarrow> ConnectivityPairingResponse \<Rightarrow> connRegistry
      \<Rightarrow> connError option \<times> ceffect list \<times> connRegistry" where
  "ForwardPairingResponseFromApp ok clk owner0 peer correlationID response r =
     (let owner = normOwner owner0
      in forwardPairingResponse ok clk (ao_UserID owner) peer owner correlationID response r)"

section \<open>Revocation and disconnection in bulk\<close>

definition DisconnectAppSession ::
    "(jsonPeer \<Rightarrow> ConnectivityFrame \<Rightarrow> bool) \<Rightarrow> string \<Rightarrow> connRegistry
      \<Rightarrow> nat \<times> ceffect list \<times> connRegistry" where
  "DisconnectAppSession ok appSessionID r =
     (let r1 = r\<lparr>cr_revokedApps := insert (TrimSpace appSessionID) (cr_revokedApps r)\<rparr>;
          peers = map fst (filter (\<lambda>(_, app). ao_AppSessionID (la_owner app) = appSessionID) (cr_apps r1));
          r2 = r1\<lparr>cr_apps := gm_drop (\<lambda>app. ao_AppSessionID (la_owner app) = appSessionID) (cr_apps r1)\<rparr>;
          (ns1, r3) = removeRendezvousLocked
            (\<lambda>a. ao_AppSessionID (rv_appOwner a) = appSessionID) r2;
          (ns2, r4) = removeActiveDirectLocked
            (\<lambda>s. ao_AppSessionID (dr_appOwner s) = appSessionID) r3;
          (closers, r5) = removeTunnelAttemptsLocked
            (\<lambda>a. ao_AppSessionID (tu_appOwner a) = appSessionID) r4
      in (length peers,
          sendRendezvousCloseNotifications ok (ns1 @ ns2) @ closeTunnelClosers closers @
          map (\<lambda>p. ClosePeer (AppPeer p)) peers,
          r5))"

text \<open>
  The body of the loops over \<open>r.daemons\<close> in \<open>DisconnectUser\<close> and \<open>DisconnectAgentToken\<close>:
  the daemon's entry, its correlations, rendezvous attempts and direct sessions.
\<close>

fun dropDaemonsLocked ::
    "(string \<times> liveDaemon) list \<Rightarrow> connRegistry
      \<Rightarrow> rendezvousCloseNotification list \<times> peer list \<times> connRegistry" where
  "dropDaemonsLocked [] r = ([], [], r)"
| "dropDaemonsLocked ((key, live) # ds) r =
     (let r1 = r\<lparr>cr_daemons := gm_del key (cr_daemons r)\<rparr>;
          r2 = removeCorrelationsForDaemonLocked key (ld_peer live) r1;
          (ns1, r3) = removeRendezvousLocked (\<lambda>a. rv_daemonPeer a = ld_peer live) r2;
          (ns2, r4) = removeActiveDirectLocked (\<lambda>s. dr_daemonPeer s = ld_peer live) r3;
          (ns3, peers, r5) = dropDaemonsLocked ds r4
      in (ns1 @ ns2 @ ns3, ld_peer live # peers, r5))"

definition DisconnectUser ::
    "(jsonPeer \<Rightarrow> ConnectivityFrame \<Rightarrow> bool) \<Rightarrow> clock \<Rightarrow> int \<Rightarrow> connRegistry
      \<Rightarrow> nat \<times> ceffect list \<times> connRegistry" where
  "DisconnectUser ok clk userID r =
     (let r1 = r\<lparr>cr_userAppCutoff := gm_put userID (clk 0) (cr_userAppCutoff r)\<rparr>;
          apps = filter (\<lambda>(_, app). ao_UserID (la_owner app) = userID) (cr_apps r1);
          r2 = r1\<lparr>cr_apps := gm_drop (\<lambda>app. ao_UserID (la_owner app) = userID) (cr_apps r1),
                  cr_revokedApps := cr_revokedApps r1 \<union>
                    set (map (\<lambda>(_, app). ao_AppSessionID (la_owner app)) apps)\<rparr>;
          appPeers = map fst apps;
          (ns1, daemonPeers, r3) = dropDaemonsLocked
            (filter (\<lambda>(_, live). do_UserID (ld_owner live) = userID) (cr_daemons r2)) r2;
          (ns2, r4) = removeRendezvousLocked
            (\<lambda>a. ao_UserID (rv_appOwner a) = userID \<or> do_UserID (rv_daemonOwner a) = userID) r3;
          (ns3, r5) = removeActiveDirectLocked
            (\<lambda>s. ao_UserID (dr_appOwner s) = userID \<or> do_UserID (dr_daemonOwner s) = userID) r4;
          (closers, r6) = removeTunnelAttemptsLocked
            (\<lambda>a. ao_UserID (tu_appOwner a) = userID \<or> do_UserID (tu_daemonOwner a) = userID) r5
      in (length appPeers + length daemonPeers,
          sendRendezvousCloseNotifications ok (ns1 @ ns2 @ ns3) @ closeTunnelClosers closers @
          map (\<lambda>p. ClosePeer (AppPeer p)) appPeers @ map (\<lambda>p. ClosePeer (DaemonPeer p)) daemonPeers,
          r6))"

definition DisconnectAgentToken ::
    "(jsonPeer \<Rightarrow> ConnectivityFrame \<Rightarrow> bool) \<Rightarrow> string \<Rightarrow> connRegistry
      \<Rightarrow> nat \<times> ceffect list \<times> connRegistry" where
  "DisconnectAgentToken ok agentTokenID r =
     (let r1 = r\<lparr>cr_revokedAgents := insert (TrimSpace agentTokenID) (cr_revokedAgents r)\<rparr>;
          (ns1, peers, r2) = dropDaemonsLocked
            (filter (\<lambda>(_, live). do_AgentTokenID (ld_owner live) = agentTokenID) (cr_daemons r1)) r1;
          (ns2, r3) = removeRendezvousLocked
            (\<lambda>a. do_AgentTokenID (rv_daemonOwner a) = agentTokenID) r2;
          (ns3, r4) = removeActiveDirectLocked
            (\<lambda>s. do_AgentTokenID (dr_daemonOwner s) = agentTokenID) r3;
          (closers, r5) = removeTunnelAttemptsLocked
            (\<lambda>a. do_AgentTokenID (tu_daemonOwner a) = agentTokenID) r4
      in (length peers,
          sendRendezvousCloseNotifications ok (ns1 @ ns2 @ ns3) @ closeTunnelClosers closers @
          map (\<lambda>p. ClosePeer (DaemonPeer p)) peers,
          r5))"

section \<open>Rendezvous\<close>

record openPlan =
  op_key :: string
  op_ptr :: nat
  op_notifications :: "rendezvousCloseNotification list"
  op_daemonPeer :: peer
  op_daemonFrame :: ConnectivityFrame
  op_ttl :: duration

definition openRendezvous_begin ::
    "clock \<Rightarrow> AppOwner \<Rightarrow> peer \<Rightarrow> string \<Rightarrow> string \<Rightarrow> string \<Rightarrow> string \<Rightarrow> string list \<Rightarrow> duration
      \<Rightarrow> connRegistry \<Rightarrow> (connError + openPlan) \<times> connRegistry" where
  "openRendezvous_begin clk owner0 peer daemonID0 attemptID0 requestID publicUDPAddr0
       privateUDPAddrs0 ttl0 r =
     (let owner = normOwner owner0;
          daemonID = TrimSpace daemonID0;
          attemptID = TrimSpace attemptID0;
          publicUDPAddr = TrimSpace publicUDPAddr0;
          privateUDPAddrs = normalizeCandidateList privateUDPAddrs0;
          ttl = (if ttl0 \<le> 0 then 30 * second else ttl0)
      in if ao_DeviceFingerprint owner = [] \<or> daemonID = [] \<or> attemptID = [] \<or>
            \<not> validCandidatePayload publicUDPAddr privateUDPAddrs
         then (Inl ErrRendezvousUnavailable, r)
         else
           let r1 = sweepExpiredRendezvousLocked (clk 0) r;
               now = clk 1
           in if \<not> appPeerActiveLocked owner peer r1 then (Inl ErrRendezvousUnavailable, r1)
              else case gm_get (cr_daemons r1) (daemonMapKey (ao_UserID owner) daemonID) of
                None \<Rightarrow> (Inl ErrRendezvousUnavailable, r1)
              | Some live \<Rightarrow>
                  if trustedFingerprint (ld_trusted live) (ao_DeviceFingerprint owner) = []
                  then (Inl ErrRendezvousUnavailable, r1)
                  else
                    let (allowed, r2) = allowRendezvousRequestLocked (ao_UserID owner) now r1
                    in if \<not> allowed then (Inl ErrRendezvousRateLimited, r2)
                       else
                         let r3 = recordRendezvousRequestLocked (ao_UserID owner) now r2;
                             attemptKey = tunnelAttemptKey owner daemonID attemptID;
                             (notifications, r4) = removeRendezvousLocked
                               (\<lambda>a. sameAppOwner (rv_appOwner a) owner \<and>
                                    rv_daemonDeviceID a = daemonID) r3;
                             expiresAt = now + ttl;
                             attempt = \<lparr>rv_ptr = cr_nextPtr r4, rv_key = attemptKey,
                               rv_id = attemptID, rv_appOwner = owner, rv_appPeer = peer,
                               rv_daemonOwner = ld_owner live,
                               rv_daemonDeviceID = di_DeviceID (ld_info live),
                               rv_daemonFingerprint = di_DaemonFingerprint (ld_info live),
                               rv_daemonPeer = ld_peer live, rv_expiresAt = expiresAt\<rparr>;
                             daemonFrame = ConnectivityRendezvousHintFrame requestID attemptID
                               TunnelActorClient (di_DeviceID (ld_info live))
                               (ao_DeviceFingerprint owner) publicUDPAddr privateUDPAddrs
                               (time_Unix expiresAt)
                         in (Inr \<lparr>op_key = attemptKey, op_ptr = cr_nextPtr r4,
                                  op_notifications = notifications, op_daemonPeer = ld_peer live,
                                  op_daemonFrame = daemonFrame, op_ttl = ttl\<rparr>,
                             r4\<lparr>cr_rendezvous := gm_put attemptKey attempt (cr_rendezvous r4),
                                cr_nextPtr := Suc (cr_nextPtr r4)\<rparr>))"

definition openRendezvous_abort :: "string \<Rightarrow> nat \<Rightarrow> connRegistry \<Rightarrow> connRegistry" where
  "openRendezvous_abort attemptKey ptr r =
     (case gm_get (cr_rendezvous r) attemptKey of
        None \<Rightarrow> r
      | Some current \<Rightarrow>
          if rv_ptr current = ptr
          then r\<lparr>cr_rendezvous := gm_del attemptKey (cr_rendezvous r)\<rparr> else r)"

definition OpenRendezvousFromApp ::
    "(jsonPeer \<Rightarrow> ConnectivityFrame \<Rightarrow> bool) \<Rightarrow> clock \<Rightarrow> AppOwner \<Rightarrow> peer \<Rightarrow> string \<Rightarrow> string \<Rightarrow> string
      \<Rightarrow> string \<Rightarrow> string list \<Rightarrow> duration \<Rightarrow> connRegistry
      \<Rightarrow> (connError + ConnectivityFrame) \<times> ceffect list \<times> connRegistry" where
  "OpenRendezvousFromApp ok clk owner peer daemonID attemptID requestID publicUDPAddr
       privateUDPAddrs ttl r =
     (case openRendezvous_begin clk owner peer daemonID attemptID requestID publicUDPAddr
             privateUDPAddrs ttl r of
        (Inl e, r1) \<Rightarrow> (Inl e, [], r1)
      | (Inr plan, r1) \<Rightarrow>
          let effects = sendRendezvousCloseNotifications ok (op_notifications plan) @
                [ExpireRendezvousLater (op_key plan) (op_ttl plan),
                 Send (DaemonPeer (op_daemonPeer plan)) (op_daemonFrame plan)]
          in if \<not> ok (DaemonPeer (op_daemonPeer plan)) (op_daemonFrame plan)
             then (Inl ErrConnectivityPeerInactive, effects,
                   openRendezvous_abort (op_key plan) (op_ptr plan) r1)
             else (Inr (op_daemonFrame plan), effects, r1))"

definition rendezvousMatch ::
    "DaemonOwner \<Rightarrow> string \<Rightarrow> peer \<Rightarrow> string \<Rightarrow> string \<Rightarrow> rendezvousAttempt \<Rightarrow> bool" where
  "rendezvousMatch owner deviceID peer attemptID androidFingerprint a \<longleftrightarrow>
     rv_id a = attemptID \<and> rv_daemonPeer a = peer \<and> rv_daemonOwner a = owner \<and>
     rv_daemonDeviceID a = deviceID \<and> ao_DeviceFingerprint (rv_appOwner a) = androidFingerprint"

definition daemonOwnedBy :: "DaemonOwner \<Rightarrow> string \<Rightarrow> peer \<Rightarrow> connRegistry \<Rightarrow> bool" where
  "daemonOwnedBy owner deviceID peer r =
     (case daemonByDevicePeerLocked deviceID peer r of
        None \<Rightarrow> False | Some (_, live) \<Rightarrow> ld_owner live = owner)"

definition ForwardRendezvousHintFromDaemon ::
    "(jsonPeer \<Rightarrow> ConnectivityFrame \<Rightarrow> bool) \<Rightarrow> clock \<Rightarrow> DaemonOwner \<Rightarrow> string \<Rightarrow> peer \<Rightarrow> string \<Rightarrow> string
      \<Rightarrow> string \<Rightarrow> string \<Rightarrow> string list \<Rightarrow> connRegistry
      \<Rightarrow> connError option \<times> ceffect list \<times> connRegistry" where
  "ForwardRendezvousHintFromDaemon ok clk owner deviceID0 peer attemptID0 requestID
       androidFingerprint0 publicUDPAddr0 privateUDPAddrs0 r =
     (let deviceID = TrimSpace deviceID0;
          attemptID = TrimSpace attemptID0;
          androidFingerprint = normalizeFingerprint androidFingerprint0;
          publicUDPAddr = TrimSpace publicUDPAddr0;
          privateUDPAddrs = normalizeCandidateList privateUDPAddrs0
      in if deviceID = [] \<or> attemptID = [] \<or> androidFingerprint = [] \<or>
            \<not> validCandidatePayload publicUDPAddr privateUDPAddrs
         then (Some ErrRendezvousUnavailable, [], r)
         else
           let r1 = sweepExpiredRendezvousLocked (clk 0) r
           in if \<not> daemonOwnedBy owner deviceID peer r1
              then (Some ErrRendezvousUnavailable, [], r1)
              else case find (rendezvousMatch owner deviceID peer attemptID androidFingerprint)
                          (map snd (cr_rendezvous r1)) of
                None \<Rightarrow> (Some ErrRendezvousUnavailable, [], r1)
              | Some attempt \<Rightarrow>
                  if \<not> clk 1 < rv_expiresAt attempt
                  then (Some ErrRendezvousUnavailable, [], r1)
                  else
                    let appFrame = ConnectivityRendezvousHintFrame requestID attemptID
                          TunnelActorDaemon (rv_daemonDeviceID attempt)
                          (ao_DeviceFingerprint (rv_appOwner attempt)) publicUDPAddr
                          privateUDPAddrs (time_Unix (rv_expiresAt attempt));
                        target = AppPeer (rv_appPeer attempt)
                    in (if ok target appFrame then None else Some ErrConnectivityPeerInactive,
                        [Send target appFrame], r1))"

definition CloseRendezvousFromApp ::
    "(jsonPeer \<Rightarrow> ConnectivityFrame \<Rightarrow> bool) \<Rightarrow> AppOwner \<Rightarrow> peer \<Rightarrow> string \<Rightarrow> string \<Rightarrow> connRegistry
      \<Rightarrow> bool \<times> ceffect list \<times> connRegistry" where
  "CloseRendezvousFromApp ok owner0 peer daemonID0 attemptID0 r =
     (let owner = normOwner owner0;
          daemonID = TrimSpace daemonID0;
          attemptID = TrimSpace attemptID0
      in if \<not> appPeerActiveLocked owner peer r then (False, [], r)
         else
           let (notifications, r1) = removeRendezvousLocked
                 (\<lambda>a. rv_appPeer a = peer \<and> sameAppOwner (rv_appOwner a) owner \<and>
                      rv_id a = attemptID \<and> (daemonID = [] \<or> rv_daemonDeviceID a = daemonID)) r
           in if notifications = [] then (False, [], r1)
              else (True, sendRendezvousCloseNotifications ok notifications, r1))"

definition CloseRendezvousFromDaemon ::
    "(jsonPeer \<Rightarrow> ConnectivityFrame \<Rightarrow> bool) \<Rightarrow> DaemonOwner \<Rightarrow> string \<Rightarrow> peer \<Rightarrow> string \<Rightarrow> string
      \<Rightarrow> connRegistry \<Rightarrow> bool \<times> ceffect list \<times> connRegistry" where
  "CloseRendezvousFromDaemon ok owner deviceID0 peer attemptID0 androidFingerprint0 r =
     (let deviceID = TrimSpace deviceID0;
          attemptID = TrimSpace attemptID0;
          androidFingerprint = normalizeFingerprint androidFingerprint0
      in if \<not> daemonOwnedBy owner deviceID peer r then (False, [], r)
         else case find (\<lambda>(_, a). rendezvousMatch owner deviceID peer attemptID androidFingerprint a)
                     (cr_rendezvous r) of
             None \<Rightarrow> (False, [], r)
           | Some (key, attempt) \<Rightarrow>
               (True,
                sendRendezvousCloseNotifications ok
                  [\<lparr>cn_peer = AppPeer (rv_appPeer attempt),
                    cn_frame = ConnectivityRendezvousCloseFrame [] (rv_id attempt) TunnelActorDaemon
                      (rv_daemonDeviceID attempt) (ao_DeviceFingerprint (rv_appOwner attempt)),
                    cn_closeOnFailure = False\<rparr>],
                r\<lparr>cr_rendezvous := gm_del key (cr_rendezvous r)\<rparr>))"

section \<open>Direct sessions\<close>

definition OpenDirectSessionFromDaemon ::
    "clock \<Rightarrow> DaemonOwner \<Rightarrow> string \<Rightarrow> peer \<Rightarrow> string \<Rightarrow> string \<Rightarrow> connRegistry
      \<Rightarrow> bool \<times> connRegistry" where
  "OpenDirectSessionFromDaemon clk owner deviceID0 peer attemptID0 androidFingerprint0 r =
     (let deviceID = TrimSpace deviceID0;
          attemptID = TrimSpace attemptID0;
          androidFingerprint = normalizeFingerprint androidFingerprint0
      in if deviceID = [] \<or> attemptID = [] \<or> androidFingerprint = [] then (False, r)
         else
           let r1 = sweepExpiredRendezvousLocked (clk 0) r
           in if \<not> daemonOwnedBy owner deviceID peer r1 then (False, r1)
              else case find (\<lambda>(_, a). rendezvousMatch owner deviceID peer attemptID androidFingerprint a)
                          (cr_rendezvous r1) of
                None \<Rightarrow> (False, r1)
              | Some (key, attempt) \<Rightarrow>
                  let tunnelKey = tunnelAttemptKey (rv_appOwner attempt) deviceID attemptID
                  in if gm_get (cr_attempts r1) tunnelKey \<noteq> None \<or>
                        gm_get (cr_activeDirect r1) tunnelKey \<noteq> None \<or>
                        appOwnerRevokedLocked (rv_appOwner attempt) r1
                     then (False, r1)
                     else (True, r1\<lparr>cr_rendezvous := gm_del key (cr_rendezvous r1),
                       cr_activeDirect := gm_put tunnelKey
                         \<lparr>dr_key = tunnelKey, dr_id = attemptID, dr_appOwner = rv_appOwner attempt,
                          dr_daemonOwner = rv_daemonOwner attempt,
                          dr_daemonDeviceID = rv_daemonDeviceID attempt,
                          dr_daemonFingerprint = rv_daemonFingerprint attempt,
                          dr_daemonPeer = peer,
                          dr_androidFingerprint = ao_DeviceFingerprint (rv_appOwner attempt)\<rparr>
                         (cr_activeDirect r1)\<rparr>))"

definition CloseDirectSessionFromDaemon ::
    "DaemonOwner \<Rightarrow> string \<Rightarrow> peer \<Rightarrow> string \<Rightarrow> string \<Rightarrow> connRegistry \<Rightarrow> bool \<times> connRegistry" where
  "CloseDirectSessionFromDaemon owner deviceID0 peer attemptID0 androidFingerprint0 r =
     (let deviceID = TrimSpace deviceID0;
          attemptID = TrimSpace attemptID0;
          androidFingerprint = normalizeFingerprint androidFingerprint0
      in case find (\<lambda>(_, s). dr_id s = attemptID \<and> dr_daemonPeer s = peer \<and>
                  dr_daemonOwner s = owner \<and> dr_daemonDeviceID s = deviceID \<and>
                  dr_androidFingerprint s = androidFingerprint) (cr_activeDirect r) of
           None \<Rightarrow> (False, r)
         | Some (key, _) \<Rightarrow> (True, r\<lparr>cr_activeDirect := gm_del key (cr_activeDirect r)\<rparr>))"

end
