(* ===== verification/Conn_Tunnels.thy ===== *)
theory Conn_Tunnels
  imports Conn_Ops
begin

text \<open>
  Relay tunnels of the connectivity registry: requesting a tunnel, redeeming its two tokens,
  activation, expiry, closers and closing.
\<close>

section \<open>Requesting a tunnel\<close>

text \<open>
  \<open>rnd\<close> holds what the two calls of \<open>randomToken\<close> return, \<open>None\<close> for an error of the random
  source.
\<close>

record tunnelPlan =
  tp_key :: string
  tp_ptr :: nat
  tp_notifications :: "rendezvousCloseNotification list"
  tp_closers :: "closer list"
  tp_daemonPeer :: peer
  tp_daemonFrame :: ConnectivityFrame
  tp_appFrame :: ConnectivityFrame
  tp_ttl :: duration

definition tunnelRequesterActive :: "AppOwner \<Rightarrow> peer option \<Rightarrow> connRegistry \<Rightarrow> bool" where
  "tunnelRequesterActive owner appPeer r =
     (case appPeer of
        None \<Rightarrow> appOwnerActiveLocked owner r
      | Some p \<Rightarrow> appPeerActiveLocked owner p r)"

text \<open>
  The part of the first section behind its guards: the request is recorded, a previous attempt of
  the same key and the matching rendezvous attempts go, the new attempt and its tokens come.
\<close>

definition installTunnelAttempt ::
    "AppOwner \<Rightarrow> string \<Rightarrow> string \<Rightarrow> string \<Rightarrow> string \<Rightarrow> int \<Rightarrow> int \<Rightarrow> duration \<Rightarrow> gotime \<Rightarrow> gotime
      \<Rightarrow> liveDaemon \<Rightarrow> string \<Rightarrow> string \<Rightarrow> connRegistry \<Rightarrow> tunnelPlan \<times> connRegistry" where
  "installTunnelAttempt owner daemonID attemptID requestID fallbackReason directLatencyMS
       relayLatencyMS ttl now expiryBase live appToken daemonToken r =
     (let tunnelKey = tunnelAttemptKey owner daemonID attemptID;
          r1 = recordRelayTunnelRequestLocked (ao_UserID owner) now r;
          (closers, r2) = (case gm_get (cr_attempts r1) tunnelKey of
             None \<Rightarrow> ([], r1) | Some old \<Rightarrow> removeTunnelAttemptLocked old r1);
          (notifications, r3) = removeRendezvousLocked
             (\<lambda>a. sameAppOwner (rv_appOwner a) owner \<and> rv_daemonDeviceID a = daemonID \<and>
                  rv_id a = attemptID) r2;
          attempt = \<lparr>tu_ptr = cr_nextPtr r3, tu_key = tunnelKey, tu_id = attemptID,
             tu_appOwner = owner, tu_daemonOwner = ld_owner live,
             tu_daemonDeviceID = di_DeviceID (ld_info live),
             tu_daemonFingerprint = di_DaemonFingerprint (ld_info live),
             tu_daemonPeer = ld_peer live, tu_appToken = appToken, tu_daemonToken = daemonToken,
             tu_fallbackReason = TrimSpace fallbackReason,
             tu_directLatencyMS = nonNegativeInt directLatencyMS,
             tu_relayLatencyMS = nonNegativeInt relayLatencyMS,
             tu_appRedeemed = False, tu_daemonRedeemed = False, tu_active = False,
             tu_expiresAt = expiryBase + ttl, tu_closers = []\<rparr>;
          ready = (\<lambda>actor token. ConnectivityRelayTunnelReadyFrameWithDiagnostics requestID attemptID
             actor (di_DeviceID (ld_info live)) (ao_DeviceFingerprint owner) token
             (tu_fallbackReason attempt) (tu_directLatencyMS attempt) (tu_relayLatencyMS attempt))
      in (\<lparr>tp_key = tunnelKey, tp_ptr = cr_nextPtr r3, tp_notifications = notifications,
           tp_closers = closers, tp_daemonPeer = ld_peer live,
           tp_daemonFrame = ready TunnelActorDaemon daemonToken,
           tp_appFrame = ready TunnelActorClient appToken, tp_ttl = ttl\<rparr>,
          r3\<lparr>cr_attempts := gm_put tunnelKey attempt (cr_attempts r3),
             cr_tokens := gm_put daemonToken \<lparr>tk_attemptID = tunnelKey, tk_actor = TunnelActorDaemon\<rparr>
               (gm_put appToken \<lparr>tk_attemptID = tunnelKey, tk_actor = TunnelActorClient\<rparr>
                 (cr_tokens r3)),
             cr_nextPtr := Suc (cr_nextPtr r3)\<rparr>))"

definition requestRelayTunnel_begin ::
    "clock \<Rightarrow> string option \<times> string option \<Rightarrow> AppOwner \<Rightarrow> peer option \<Rightarrow> string \<Rightarrow> string \<Rightarrow> string
      \<Rightarrow> string \<Rightarrow> int \<Rightarrow> int \<Rightarrow> duration \<Rightarrow> connRegistry
      \<Rightarrow> (connError + tunnelPlan) \<times> closer list \<times> connRegistry" where
  "requestRelayTunnel_begin clk rnd owner0 appPeer daemonID0 attemptID0 requestID fallbackReason
       directLatencyMS relayLatencyMS ttl0 r =
     (let owner = normOwner owner0;
          daemonID = TrimSpace daemonID0;
          attemptID = TrimSpace attemptID0;
          ttl = (if ttl0 \<le> 0 then 30 * second else ttl0)
      in if ao_DeviceFingerprint owner = [] \<or> daemonID = [] \<or> attemptID = []
         then (Inl ErrRelayTunnelUnavailable, [], r)
         else
           let (_, sweepClosers, r1) = sweepExpiredTunnelAttemptsLocked (clk 0) r;
               now = clk 1;
               tunnelKey = tunnelAttemptKey owner daemonID attemptID
           in if \<not> tunnelRequesterActive owner appPeer r1
              then (Inl ErrRelayTunnelUnavailable, sweepClosers, r1)
              else case gm_get (cr_daemons r1) (daemonMapKey (ao_UserID owner) daemonID) of
                None \<Rightarrow> (Inl ErrRelayTunnelUnavailable, sweepClosers, r1)
              | Some live \<Rightarrow>
                  if trustedFingerprint (ld_trusted live) (ao_DeviceFingerprint owner) = []
                  then (Inl ErrRelayTunnelUnavailable, sweepClosers, r1)
                  else if gm_get (cr_activeDirect r1) tunnelKey \<noteq> None
                  then (Inl ErrRelayTunnelUnavailable, sweepClosers, r1)
                  else
                    let (allowed, r2) = allowRelayTunnelRequestLocked (ao_UserID owner) now r1
                    in if \<not> allowed then (Inl ErrRelayTunnelRateLimited, sweepClosers, r2)
                       else if countRelayTunnelAttemptsLocked owner tunnelKey r2
                                 \<ge> RelayTunnelInFlightPerAppSessionLimit
                       then (Inl ErrRelayTunnelRateLimited, sweepClosers, r2)
                       else case rnd of
                           (Some appToken, Some daemonToken) \<Rightarrow>
                             let (plan, r3) = installTunnelAttempt owner daemonID attemptID requestID
                                   fallbackReason directLatencyMS relayLatencyMS ttl now (clk 2) live
                                   appToken daemonToken r2
                             in (Inr plan, sweepClosers, r3)
                         | _ \<Rightarrow> (Inl ErrRandomSource, sweepClosers, r2))"

definition requestRelayTunnel_abort ::
    "string \<Rightarrow> nat \<Rightarrow> connRegistry \<Rightarrow> closer list \<times> connRegistry" where
  "requestRelayTunnel_abort tunnelKey ptr r =
     (case gm_get (cr_attempts r) tunnelKey of
        None \<Rightarrow> ([], r)
      | Some current \<Rightarrow>
          if tu_ptr current = ptr then removeTunnelAttemptLocked current r else ([], r))"

definition requestRelayTunnel ::
    "(jsonPeer \<Rightarrow> ConnectivityFrame \<Rightarrow> bool) \<Rightarrow> clock \<Rightarrow> string option \<times> string option \<Rightarrow> AppOwner
      \<Rightarrow> peer option \<Rightarrow> string \<Rightarrow> string \<Rightarrow> string \<Rightarrow> string \<Rightarrow> int \<Rightarrow> int \<Rightarrow> duration \<Rightarrow> connRegistry
      \<Rightarrow> (connError + ConnectivityFrame) \<times> ceffect list \<times> connRegistry" where
  "requestRelayTunnel ok clk rnd owner appPeer daemonID attemptID requestID fallbackReason
       directLatencyMS relayLatencyMS ttl r =
     (case requestRelayTunnel_begin clk rnd owner appPeer daemonID attemptID requestID fallbackReason
             directLatencyMS relayLatencyMS ttl r of
        (Inl e, sweepClosers, r1) \<Rightarrow> (Inl e, closeTunnelClosers sweepClosers, r1)
      | (Inr plan, sweepClosers, r1) \<Rightarrow>
          let effects = sendRendezvousCloseNotifications ok (tp_notifications plan) @
                closeTunnelClosers sweepClosers @ closeTunnelClosers (tp_closers plan) @
                [ExpireTunnelLater (tp_key plan) (tp_ttl plan),
                 Send (DaemonPeer (tp_daemonPeer plan)) (tp_daemonFrame plan)]
          in if \<not> ok (DaemonPeer (tp_daemonPeer plan)) (tp_daemonFrame plan)
             then let (cs, r2) = requestRelayTunnel_abort (tp_key plan) (tp_ptr plan) r1
                  in (Inl ErrConnectivityPeerInactive, effects @ closeTunnelClosers cs, r2)
             else (Inr (tp_appFrame plan), effects, r1))"

definition RequestRelayTunnel ::
    "(jsonPeer \<Rightarrow> ConnectivityFrame \<Rightarrow> bool) \<Rightarrow> clock \<Rightarrow> string option \<times> string option \<Rightarrow> AppOwner
      \<Rightarrow> string \<Rightarrow> string \<Rightarrow> string \<Rightarrow> duration \<Rightarrow> connRegistry
      \<Rightarrow> (connError + ConnectivityFrame) \<times> ceffect list \<times> connRegistry" where
  "RequestRelayTunnel ok clk rnd owner daemonID attemptID requestID ttl r =
     requestRelayTunnel ok clk rnd owner None daemonID attemptID requestID [] 0 0 ttl r"

definition RequestRelayTunnelFromAppWithDiagnostics ::
    "(jsonPeer \<Rightarrow> ConnectivityFrame \<Rightarrow> bool) \<Rightarrow> clock \<Rightarrow> string option \<times> string option \<Rightarrow> AppOwner
      \<Rightarrow> peer \<Rightarrow> string \<Rightarrow> string \<Rightarrow> string \<Rightarrow> string \<Rightarrow> int \<Rightarrow> int \<Rightarrow> duration \<Rightarrow> connRegistry
      \<Rightarrow> (connError + ConnectivityFrame) \<times> ceffect list \<times> connRegistry" where
  "RequestRelayTunnelFromAppWithDiagnostics ok clk rnd owner peer daemonID attemptID requestID
       fallbackReason directLatencyMS relayLatencyMS ttl r =
     requestRelayTunnel ok clk rnd owner (Some peer) daemonID attemptID requestID fallbackReason
       directLatencyMS relayLatencyMS ttl r"

definition RequestRelayTunnelFromApp ::
    "(jsonPeer \<Rightarrow> ConnectivityFrame \<Rightarrow> bool) \<Rightarrow> clock \<Rightarrow> string option \<times> string option \<Rightarrow> AppOwner
      \<Rightarrow> peer \<Rightarrow> string \<Rightarrow> string \<Rightarrow> string \<Rightarrow> duration \<Rightarrow> connRegistry
      \<Rightarrow> (connError + ConnectivityFrame) \<times> ceffect list \<times> connRegistry" where
  "RequestRelayTunnelFromApp ok clk rnd owner peer daemonID attemptID requestID ttl r =
     RequestRelayTunnelFromAppWithDiagnostics ok clk rnd owner peer daemonID attemptID requestID
       [] 0 0 ttl r"

section \<open>Redeeming tokens\<close>

definition redemptionOf :: "tunnelAttempt \<Rightarrow> string \<Rightarrow> TunnelRedemption" where
  "redemptionOf attempt actor =
     \<lparr>tr_TunnelKey = tu_key attempt, tr_AttemptID = tu_id attempt, tr_Actor = actor,
      tr_UserID = ao_UserID (tu_appOwner attempt),
      tr_AppSessionID = ao_AppSessionID (tu_appOwner attempt),
      tr_DeviceFingerprint = ao_DeviceFingerprint (tu_appOwner attempt),
      tr_DaemonDeviceID = tu_daemonDeviceID attempt,
      tr_DaemonFingerprint = tu_daemonFingerprint attempt\<rparr>"

definition markRedeemed :: "string \<Rightarrow> tunnelAttempt \<Rightarrow> tunnelAttempt option" where
  "markRedeemed actor attempt =
     (if actor = TunnelActorClient then
        (if tu_appRedeemed attempt then None else Some (attempt\<lparr>tu_appRedeemed := True\<rparr>))
      else if actor = TunnelActorDaemon then
        (if tu_daemonRedeemed attempt then None else Some (attempt\<lparr>tu_daemonRedeemed := True\<rparr>))
      else None)"

definition RedeemRelayTunnelToken ::
    "clock \<Rightarrow> string \<Rightarrow> connRegistry
      \<Rightarrow> (connError + TunnelRedemption) \<times> ceffect list \<times> connRegistry" where
  "RedeemRelayTunnelToken clk token0 r =
     (let token = TrimSpace token0
      in if token = [] then (Inl ErrRelayTunnelTokenInvalid, [], r)
         else
           let (_, sweepClosers, r1) = sweepExpiredTunnelAttemptsLocked (clk 0) r;
               swept = closeTunnelClosers sweepClosers
           in case gm_get (cr_tokens r1) token of
                None \<Rightarrow> (Inl ErrRelayTunnelTokenInvalid, swept, r1)
              | Some stored \<Rightarrow>
                  (case gm_get (cr_attempts r1) (tk_attemptID stored) of
                     None \<Rightarrow> (Inl ErrRelayTunnelTokenInvalid, swept,
                             r1\<lparr>cr_tokens := gm_del token (cr_tokens r1)\<rparr>)
                   | Some attempt \<Rightarrow>
                       if \<not> clk 1 < tu_expiresAt attempt
                       then let (closers, r2) = removeTunnelAttemptLocked attempt r1
                            in (Inl ErrRelayTunnelTokenInvalid, swept @ closeTunnelClosers closers, r2)
                       else case markRedeemed (tk_actor stored) attempt of
                           None \<Rightarrow> (Inl ErrRelayTunnelTokenInvalid, swept, r1)
                         | Some attempt' \<Rightarrow>
                             (Inr (redemptionOf attempt' (tk_actor stored)), swept,
                              r1\<lparr>cr_attempts := gm_put (tk_attemptID stored) attempt' (cr_attempts r1),
                                 cr_tokens := gm_del token (cr_tokens r1)\<rparr>)))"

section \<open>Activation, closing and closers\<close>

definition MarkRelayTunnelActive :: "string \<Rightarrow> connRegistry \<Rightarrow> bool \<times> connRegistry" where
  "MarkRelayTunnelActive tunnelKey0 r =
     (let tunnelKey = TrimSpace tunnelKey0
      in if tunnelKey = [] then (False, r)
         else case gm_get (cr_attempts r) tunnelKey of
             None \<Rightarrow> (False, r)
           | Some attempt \<Rightarrow>
               (True, r\<lparr>cr_attempts := gm_put tunnelKey (attempt\<lparr>tu_active := True\<rparr>) (cr_attempts r)\<rparr>))"

definition CloseRelayTunnel :: "string \<Rightarrow> connRegistry \<Rightarrow> bool \<times> ceffect list \<times> connRegistry" where
  "CloseRelayTunnel tunnelKey0 r =
     (let tunnelKey = TrimSpace tunnelKey0
      in if tunnelKey = [] then (False, [], r)
         else case gm_get (cr_attempts r) tunnelKey of
             None \<Rightarrow> (False, [], r)
           | Some attempt \<Rightarrow>
               let (closers, r1) = removeTunnelAttemptLocked attempt r
               in (True, closeTunnelClosers closers, r1))"

definition SweepExpiredRelayTunnelAttempts ::
    "clock \<Rightarrow> connRegistry \<Rightarrow> nat \<times> ceffect list \<times> connRegistry" where
  "SweepExpiredRelayTunnelAttempts clk r =
     (let (removed, closers, r1) = sweepExpiredTunnelAttemptsLocked (clk 0) r
      in (removed, closeTunnelClosers closers, r1))"

text \<open>
  \<open>AddTunnelCloser\<close> returns the function that takes the closer out again: its key and number
  here, \<open>None\<close> for the function that does nothing.
\<close>

definition AddTunnelCloser ::
    "string \<Rightarrow> closer option \<Rightarrow> connRegistry
      \<Rightarrow> (string \<times> int) option \<times> ceffect list \<times> connRegistry" where
  "AddTunnelCloser tunnelKey0 close r =
     (case close of
        None \<Rightarrow> (None, [], r)
      | Some c \<Rightarrow>
          let tunnelKey = TrimSpace tunnelKey0
          in case gm_get (cr_attempts r) tunnelKey of
               None \<Rightarrow> (None, [RunCloser c], r)
             | Some attempt \<Rightarrow>
                 let cid = cr_nextCloserID r + 1
                 in (Some (tunnelKey, cid), [],
                     r\<lparr>cr_nextCloserID := cid,
                       cr_attempts := gm_put tunnelKey
                         (attempt\<lparr>tu_closers := gm_put cid c (tu_closers attempt)\<rparr>) (cr_attempts r)\<rparr>))"

definition removeTunnelCloser :: "string \<Rightarrow> int \<Rightarrow> connRegistry \<Rightarrow> connRegistry" where
  "removeTunnelCloser tunnelKey cid r =
     (case gm_get (cr_attempts r) tunnelKey of
        None \<Rightarrow> r
      | Some current \<Rightarrow> r\<lparr>cr_attempts := gm_put tunnelKey
          (current\<lparr>tu_closers := gm_del cid (tu_closers current)\<rparr>) (cr_attempts r)\<rparr>)"

end
