(* ===== verification/Conn_Inv.thy ===== *)
theory Conn_Inv
  imports Conn_Tunnels
begin

text \<open>
  The invariant of the connectivity registry and the lemmas by which every atomic section keeps
  it. Sections that only remove entries are compared with the state before by \<open>shrinks\<close>; what a
  removal owes beyond that is the agreement of tokens with attempts (\<open>inv_tokens\<close>) and of attempts
  with live daemons (\<open>inv_live\<close>).
\<close>

named_theorems conn_ops \<open>definitions of the registry's operations\<close>

section \<open>Closed forms of the removal helpers\<close>

definition dropTokens :: "tunnelAttempt list \<Rightarrow> (string, tunnelToken) gomap \<Rightarrow> (string, tunnelToken) gomap" where
  "dropTokens as m =
     filter (\<lambda>e. \<forall>a \<in> set as. fst e \<noteq> tu_appToken a \<and> fst e \<noteq> tu_daemonToken a) m"

definition dropAttempts :: "tunnelAttempt list \<Rightarrow> (string, tunnelAttempt) gomap \<Rightarrow> (string, tunnelAttempt) gomap" where
  "dropAttempts as m = filter (\<lambda>e. \<forall>a \<in> set as. fst e \<noteq> tu_key a) m"

lemma removeTunnelAttemptList_eq:
  "removeTunnelAttemptList as r =
     (concat (map (\<lambda>a. map snd (tu_closers a)) as),
      r\<lparr>cr_attempts := dropAttempts as (cr_attempts r),
        cr_tokens := dropTokens as (cr_tokens r)\<rparr>)"
proof (induction as arbitrary: r)
  case (Cons a as)
  have "dropAttempts as (gm_del (tu_key a) m) = dropAttempts (a # as) m" for m
    by (auto simp: dropAttempts_def gm_del_def intro: filter_cong)
  moreover have "dropTokens as (gm_del (tu_daemonToken a) (gm_del (tu_appToken a) m))
      = dropTokens (a # as) m" for m
    by (auto simp: dropTokens_def gm_del_def intro: filter_cong)
  ultimately show ?case
    by (simp add: Cons removeTunnelAttemptLocked_def)
qed (simp add: dropAttempts_def dropTokens_def)

lemma removeTunnelAttemptLocked_eq:
  "removeTunnelAttemptLocked a r =
     (map snd (tu_closers a),
      r\<lparr>cr_attempts := dropAttempts [a] (cr_attempts r), cr_tokens := dropTokens [a] (cr_tokens r)\<rparr>)"
  using removeTunnelAttemptList_eq [of "[a]" r]
  by (simp add: removeTunnelAttemptLocked_def)

lemma removeTunnelAttemptsLocked_eq:
  "removeTunnelAttemptsLocked p r =
     (concat (map (\<lambda>a. map snd (tu_closers a)) (gm_vals p (cr_attempts r))),
      r\<lparr>cr_attempts := dropAttempts (gm_vals p (cr_attempts r)) (cr_attempts r),
        cr_tokens := dropTokens (gm_vals p (cr_attempts r)) (cr_tokens r)\<rparr>)"
  by (simp add: removeTunnelAttemptsLocked_def removeTunnelAttemptList_eq)

lemmas remove_eqs =
  removeTunnelAttemptLocked_eq removeTunnelAttemptsLocked_eq removeRendezvousLocked_def
  removeActiveDirectLocked_def removeCorrelationsForDaemonLocked_def

lemma set_dropAttempts:
  assumes "gm_all (\<lambda>k a. tu_key a = k) m"
  shows "set (dropAttempts (gm_vals p m) m) \<subseteq> {(k, a). (k, a) \<in> set m \<and> \<not> p a}"
proof -
  have "\<not> p a" if "(k, a) \<in> set m" "\<forall>b \<in> set (gm_vals p m). k \<noteq> tu_key b" for k a
  proof
    assume "p a"
    then have "a \<in> set (gm_vals p m)" using that(1) by (auto simp: set_gm_vals)
    then show False using that assms by (auto simp: gm_all_iff)
  qed
  then show ?thesis by (auto simp: dropAttempts_def)
qed

section \<open>The invariant\<close>

definition trusted_ok :: "(string, ConnectivityTrustedAndroid) gomap \<Rightarrow> bool" where
  "trusted_ok m \<longleftrightarrow> gm_wf m \<and>
     gm_all (\<lambda>k t. ta_Fingerprint t = k \<and> k \<noteq> [] \<and> normalizeFingerprint k = k) m"

definition app_ok :: "peer \<Rightarrow> liveApp \<Rightarrow> bool" where
  "app_ok p app \<longleftrightarrow> la_peer app = p \<and> normOwner (la_owner app) = la_owner app"

definition daemon_ok :: "string \<Rightarrow> liveDaemon \<Rightarrow> bool" where
  "daemon_ok k live \<longleftrightarrow>
     k = daemonMapKey (do_UserID (ld_owner live)) (di_DeviceID (ld_info live)) \<and>
     TrimSpace (di_DeviceID (ld_info live)) = di_DeviceID (ld_info live) \<and>
     trusted_ok (ld_trusted live)"

text \<open>
  Attempts, rendezvous attempts and direct sessions are filed under the key of their app owner,
  device and attempt, and the app and the daemon belong to one user.
\<close>

definition linked :: "string \<Rightarrow> AppOwner \<Rightarrow> DaemonOwner \<Rightarrow> string \<Rightarrow> string \<Rightarrow> bool" where
  "linked k owner daemonOwner deviceID attemptID \<longleftrightarrow>
     k = tunnelAttemptKey owner deviceID attemptID \<and>
     ao_UserID owner = do_UserID daemonOwner \<and> normOwner owner = owner \<and>
     TrimSpace deviceID = deviceID \<and> TrimSpace attemptID = attemptID"

definition attempt_ok :: "nat \<Rightarrow> string \<Rightarrow> tunnelAttempt \<Rightarrow> bool" where
  "attempt_ok n k a \<longleftrightarrow> tu_key a = k \<and> tu_ptr a < n \<and>
     linked k (tu_appOwner a) (tu_daemonOwner a) (tu_daemonDeviceID a) (tu_id a)"

definition rendezvous_ok :: "nat \<Rightarrow> string \<Rightarrow> rendezvousAttempt \<Rightarrow> bool" where
  "rendezvous_ok n k a \<longleftrightarrow> rv_key a = k \<and> rv_ptr a < n \<and>
     linked k (rv_appOwner a) (rv_daemonOwner a) (rv_daemonDeviceID a) (rv_id a)"

definition direct_ok :: "string \<Rightarrow> directSession \<Rightarrow> bool" where
  "direct_ok k s \<longleftrightarrow> dr_key s = k \<and> dr_androidFingerprint s = ao_DeviceFingerprint (dr_appOwner s) \<and>
     linked k (dr_appOwner s) (dr_daemonOwner s) (dr_daemonDeviceID s) (dr_id s)"

definition rate_ok :: "(int, gotime list) gomap \<Rightarrow> bool" where
  "rate_ok m \<longleftrightarrow> gm_wf m \<and> gm_all (\<lambda>_ ts. ts \<noteq> [] \<and> length ts \<le> RelayTunnelRequestLimit) m"

definition inv_wf :: "connRegistry \<Rightarrow> bool" where
  "inv_wf r \<longleftrightarrow> gm_wf (cr_apps r) \<and> gm_wf (cr_daemons r) \<and> gm_wf (cr_correlations r) \<and>
     gm_wf (cr_attempts r) \<and> gm_wf (cr_activeDirect r) \<and> gm_wf (cr_rendezvous r) \<and>
     gm_wf (cr_tokens r)"

definition inv_rows :: "connRegistry \<Rightarrow> bool" where
  "inv_rows r \<longleftrightarrow> gm_all app_ok (cr_apps r) \<and> gm_all daemon_ok (cr_daemons r) \<and>
     gm_all (attempt_ok (cr_nextPtr r)) (cr_attempts r) \<and>
     gm_all (rendezvous_ok (cr_nextPtr r)) (cr_rendezvous r) \<and>
     gm_all direct_ok (cr_activeDirect r) \<and>
     rate_ok (cr_tunnelRequests r) \<and> rate_ok (cr_rendezvousReqs r)"

definition attemptsOf :: "AppOwner \<Rightarrow> connRegistry \<Rightarrow> tunnelAttempt list" where
  "attemptsOf owner r = gm_vals (\<lambda>a. sameAppOwner (tu_appOwner a) owner) (cr_attempts r)"

definition inv_inflight :: "connRegistry \<Rightarrow> bool" where
  "inv_inflight r \<longleftrightarrow>
     (\<forall>owner. length (attemptsOf owner r) \<le> RelayTunnelInFlightPerAppSessionLimit)"

text \<open>A token that can still be redeemed names an attempt that has not seen it redeemed.\<close>

definition token_ok :: "(string, tunnelAttempt) gomap \<Rightarrow> string \<Rightarrow> tunnelToken \<Rightarrow> bool" where
  "token_ok attempts t s =
     (case gm_get attempts (tk_attemptID s) of
        None \<Rightarrow> False
      | Some a \<Rightarrow>
          tk_actor s = TunnelActorClient \<and> tu_appToken a = t \<and> \<not> tu_appRedeemed a \<or>
          tk_actor s = TunnelActorDaemon \<and> tu_daemonToken a = t \<and> \<not> tu_daemonRedeemed a)"

definition inv_tokens :: "connRegistry \<Rightarrow> bool" where
  "inv_tokens r \<longleftrightarrow> gm_all (token_ok (cr_attempts r)) (cr_tokens r)"

text \<open>
  \<open>serving\<close>: the daemon an attempt names is registered now, over the same connection and by the
  same owner, and trusts the app's device now.
\<close>

definition serving ::
    "(string, liveDaemon) gomap \<Rightarrow> AppOwner \<Rightarrow> string \<Rightarrow> DaemonOwner \<Rightarrow> peer \<Rightarrow> bool" where
  "serving daemons owner deviceID daemonOwner peer =
     (case gm_get daemons (daemonMapKey (ao_UserID owner) deviceID) of
        None \<Rightarrow> False
      | Some live \<Rightarrow> ld_peer live = peer \<and> ld_owner live = daemonOwner \<and>
          gm_get (ld_trusted live) (ao_DeviceFingerprint owner) \<noteq> None)"

definition inv_live :: "connRegistry \<Rightarrow> bool" where
  "inv_live r \<longleftrightarrow>
     gm_all (\<lambda>_ a. serving (cr_daemons r) (tu_appOwner a) (tu_daemonDeviceID a) (tu_daemonOwner a)
       (tu_daemonPeer a)) (cr_attempts r) \<and>
     gm_all (\<lambda>_ a. serving (cr_daemons r) (rv_appOwner a) (rv_daemonDeviceID a) (rv_daemonOwner a)
       (rv_daemonPeer a)) (cr_rendezvous r)"

definition conn_inv :: "connRegistry \<Rightarrow> bool" where
  "conn_inv r \<longleftrightarrow> inv_wf r \<and> inv_rows r \<and> inv_inflight r \<and> inv_tokens r \<and> inv_live r"

lemma conn_invI:
  "\<lbrakk>inv_wf r; inv_rows r; inv_inflight r; inv_tokens r; inv_live r\<rbrakk> \<Longrightarrow> conn_inv r"
  by (simp add: conn_inv_def)

lemma conn_inv_NewRegistry: "conn_inv NewRegistry"
  by (simp add: conn_inv_def inv_wf_def inv_rows_def inv_inflight_def inv_tokens_def inv_live_def
      rate_ok_def attemptsOf_def gm_vals_def NewRegistry_def)

section \<open>Removal keeps the invariant\<close>

definition shrinks :: "connRegistry \<Rightarrow> connRegistry \<Rightarrow> bool" where
  "shrinks r r' \<longleftrightarrow>
     subseq (cr_apps r') (cr_apps r) \<and> subseq (cr_daemons r') (cr_daemons r) \<and>
     subseq (cr_correlations r') (cr_correlations r) \<and> subseq (cr_attempts r') (cr_attempts r) \<and>
     subseq (cr_activeDirect r') (cr_activeDirect r) \<and> subseq (cr_rendezvous r') (cr_rendezvous r) \<and>
     subseq (cr_tokens r') (cr_tokens r) \<and> cr_tunnelRequests r' = cr_tunnelRequests r \<and>
     cr_rendezvousReqs r' = cr_rendezvousReqs r \<and> cr_nextPtr r' = cr_nextPtr r"

lemma subseq_set: "subseq xs ys \<Longrightarrow> x \<in> set xs \<Longrightarrow> x \<in> set ys"
  by (induction rule: list_emb.induct) auto

lemma subseq_distinct: "subseq xs ys \<Longrightarrow> distinct ys \<Longrightarrow> distinct xs"
  by (induction rule: list_emb.induct) (auto dest: subseq_set)

lemma subseq_gm_wf: "subseq m' m \<Longrightarrow> gm_wf m \<Longrightarrow> gm_wf m'"
  unfolding gm_wf_def by (rule subseq_distinct [OF subseq_map])

lemma subseq_gm_all: "subseq m' m \<Longrightarrow> gm_all P m \<Longrightarrow> gm_all P m'"
  by (auto simp: gm_all_iff dest: subseq_set)

lemma subseq_gm_get:
  "subseq m' m \<Longrightarrow> gm_wf m \<Longrightarrow> gm_get m' k = Some v \<Longrightarrow> gm_get m k = Some v"
  by (meson gm_get_in gm_in_get subseq_set)

lemma shrinks_refl [simp, intro]: "shrinks r r"
  by (simp add: shrinks_def)

lemma shrinks_trans: "shrinks r r' \<Longrightarrow> shrinks r' r'' \<Longrightarrow> shrinks r r''"
  unfolding shrinks_def by (auto intro: subseq_order.trans)

lemma subseq_gm_drop [simp, intro]: "subseq (gm_drop p m) m"
  by (simp add: gm_drop_def)

lemma subseq_gm_del [simp, intro]: "subseq (gm_del k m) m"
  by (simp add: gm_del_def)

lemma subseq_dropAttempts [simp, intro]: "subseq (dropAttempts as m) m"
  by (simp add: dropAttempts_def)

lemma subseq_dropTokens [simp, intro]: "subseq (dropTokens as m) m"
  by (simp add: dropTokens_def)

lemma shrinks_inv_wf: "shrinks r r' \<Longrightarrow> inv_wf r \<Longrightarrow> inv_wf r'"
  unfolding shrinks_def inv_wf_def by (auto intro: subseq_gm_wf)

lemma shrinks_inv_rows: "shrinks r r' \<Longrightarrow> inv_rows r \<Longrightarrow> inv_rows r'"
  unfolding shrinks_def inv_rows_def by (auto intro: subseq_gm_all)

lemma length_gm_vals_mono: "subseq m' m \<Longrightarrow> length (gm_vals p m') \<le> length (gm_vals p m)"
  unfolding gm_vals_def by (rule list_emb_length [OF subseq_filter [OF subseq_map]])

lemma shrinks_inv_inflight: "shrinks r r' \<Longrightarrow> inv_inflight r \<Longrightarrow> inv_inflight r'"
  unfolding shrinks_def inv_inflight_def attemptsOf_def
  by (meson length_gm_vals_mono order_trans)

lemma shrink_conn_inv:
  "\<lbrakk>conn_inv r; shrinks r r'; inv_tokens r'; inv_live r'\<rbrakk> \<Longrightarrow> conn_inv r'"
  by (simp add: conn_inv_def shrinks_inv_wf shrinks_inv_rows shrinks_inv_inflight)

lemma inv_rows_attempts: "inv_rows r \<Longrightarrow> gm_all (\<lambda>k a. tu_key a = k) (cr_attempts r)"
  by (auto simp: inv_rows_def gm_all_iff attempt_ok_def)

lemma attempt_filed:
  "conn_inv r \<Longrightarrow> gm_get (cr_attempts r) k = Some a \<Longrightarrow> tu_key a = k"
  by (auto simp: conn_inv_def dest: inv_rows_attempts gm_allD)

lemma dropped_attempt:
  assumes "conn_inv r" "(k, a) \<in> set (dropAttempts (gm_vals p (cr_attempts r)) (cr_attempts r))"
  shows "\<not> p a"
  using set_dropAttempts [OF inv_rows_attempts] assms unfolding conn_inv_def by blast

lemma conn_inv_wfs:
  assumes "conn_inv r"
  shows "gm_wf (cr_apps r)" "gm_wf (cr_daemons r)" "gm_wf (cr_correlations r)"
    "gm_wf (cr_attempts r)" "gm_wf (cr_activeDirect r)" "gm_wf (cr_rendezvous r)"
    "gm_wf (cr_tokens r)"
  using assms by (auto simp: conn_inv_def inv_wf_def)

lemma attempt_vals_filed:
  assumes inv: "conn_inv r" and a: "a \<in> set (gm_vals p (cr_attempts r))"
  shows "gm_get (cr_attempts r) (tu_key a) = Some a"
proof -
  obtain k where k: "(k, a) \<in> set (cr_attempts r)" using a by (auto simp: set_gm_vals)
  then have "gm_get (cr_attempts r) k = Some a" by (rule gm_in_get [OF conn_inv_wfs(4) [OF inv]])
  then show ?thesis using attempt_filed [OF inv] by simp
qed

lemma gm_get_dropAttempts:
  "gm_get (dropAttempts as m) k = (if k \<in> tu_key ` set as then None else gm_get m k)"
  by (induction m) (auto simp: gm_get_def dropAttempts_def)

lemma inv_tokens_drop:
  assumes inv: "inv_tokens r"
    and filed: "\<And>a. a \<in> set as \<Longrightarrow> gm_get (cr_attempts r) (tu_key a) = Some a"
  shows "gm_all (token_ok (dropAttempts as (cr_attempts r))) (dropTokens as (cr_tokens r))"
  unfolding gm_all_iff
proof (intro ballI, clarify)
  fix t s
  assume "(t, s) \<in> set (dropTokens as (cr_tokens r))"
  then have ts: "(t, s) \<in> set (cr_tokens r)"
    and fresh: "\<And>a. a \<in> set as \<Longrightarrow> t \<noteq> tu_appToken a \<and> t \<noteq> tu_daemonToken a"
    by (auto simp: dropTokens_def)
  then have ok: "token_ok (cr_attempts r) t s"
    using inv by (auto simp: inv_tokens_def gm_all_iff)
  have "tk_attemptID s \<noteq> tu_key a" if "a \<in> set as" for a
    using ok fresh [OF that] filed [OF that] by (auto simp: token_ok_def)
  then have "gm_get (dropAttempts as (cr_attempts r)) (tk_attemptID s)
      = gm_get (cr_attempts r) (tk_attemptID s)"
    by (auto simp: gm_get_dropAttempts)
  with ok show "token_ok (dropAttempts as (cr_attempts r)) t s"
    by (simp add: token_ok_def)
qed

lemma inv_live_shrink:
  assumes "inv_live r" "subseq (cr_attempts r') (cr_attempts r)"
    "subseq (cr_rendezvous r') (cr_rendezvous r)" "cr_daemons r' = cr_daemons r"
  shows "inv_live r'"
  using assms by (auto simp: inv_live_def intro: subseq_gm_all)

text \<open>The common case: attempts, rendezvous attempts and direct sessions go, daemons stay.\<close>

definition prune ::
    "(tunnelAttempt \<Rightarrow> bool) \<Rightarrow> (rendezvousAttempt \<Rightarrow> bool) \<Rightarrow> (directSession \<Rightarrow> bool) \<Rightarrow> connRegistry
      \<Rightarrow> connRegistry" where
  "prune p q d r =
     r\<lparr>cr_attempts := dropAttempts (gm_vals p (cr_attempts r)) (cr_attempts r),
       cr_tokens := dropTokens (gm_vals p (cr_attempts r)) (cr_tokens r),
       cr_rendezvous := gm_drop q (cr_rendezvous r),
       cr_activeDirect := gm_drop d (cr_activeDirect r)\<rparr>"

lemma conn_inv_prune: "conn_inv r \<Longrightarrow> conn_inv (prune p q d r)"
  apply (rule shrink_conn_inv [of r])
     apply assumption
    apply (simp add: shrinks_def prune_def)
   apply (simp add: prune_def inv_tokens_def inv_tokens_drop conn_inv_def attempt_vals_filed)
  apply (rule inv_live_shrink [of r])
     apply (simp_all add: prune_def conn_inv_def)
  done

end
