(* ===== verification/Conn_Rate.thy ===== *)
theory Conn_Rate
  imports Conn_Ops
begin

text \<open>
  The sliding window rate limit of the connectivity registry. The locale states what the two
  limiters of the registry (relay tunnel requests, rendezvous requests) promise of their
  \<open>allow\<close> and \<open>record\<close> calls (the latter is \<open>mark\<close> here) and proves the limit once; the interpretations discharge the laws
  for both maps.
\<close>

section \<open>The contract\<close>

text \<open>
  \<open>hist s u\<close> is the list of times recorded for user \<open>u\<close>. \<open>attempt\<close> is the use the
  registry makes of the pair: ask, and record when allowed. \<open>served\<close> runs it over a sequence of
  requests and returns the times at which requests of \<open>u\<close> were let through.
\<close>

locale sliding_window =
  fixes allow :: "'u \<Rightarrow> gotime \<Rightarrow> 's \<Rightarrow> bool \<times> 's"
    and mark :: "'u \<Rightarrow> gotime \<Rightarrow> 's \<Rightarrow> 's"
    and hist :: "'s \<Rightarrow> 'u \<Rightarrow> gotime list"
    and limit :: nat
    and window :: duration
  assumes allow_iff: "fst (allow u t s) \<longleftrightarrow> length (filter (\<lambda>x. t - window < x) (hist s u)) < limit"
    and hist_allow: "hist (snd (allow u t s)) v =
          (if v = u then filter (\<lambda>x. t - window < x) (hist s u) else hist s v)"
    and hist_record: "hist (mark u t s) v =
          (if v = u then filter (\<lambda>x. t - window < x) (hist s u) @ [t] else hist s v)"
    and window_pos: "0 < window"
begin

definition attempt :: "'u \<Rightarrow> gotime \<Rightarrow> 's \<Rightarrow> bool \<times> 's" where
  "attempt u t s =
     (let (b, s') = allow u t s in if b then (True, mark u t s') else (False, s'))"

fun served :: "('u \<times> gotime) list \<Rightarrow> 's \<Rightarrow> ('u \<times> gotime) list" where
  "served [] s = []"
| "served ((u, t) # reqs) s =
     (let (b, s') = attempt u t s in if b then (u, t) # served reqs s' else served reqs s')"

lemma hist_attempt:
  "hist (snd (attempt u t s)) v =
     (if v = u then filter (\<lambda>x. t - window < x) (hist s u) @ (if fst (attempt u t s) then [t] else [])
      else hist s v)"
  by (auto simp: attempt_def split_def Let_def hist_allow hist_record)

lemma attempt_iff:
  "fst (attempt u t s) \<longleftrightarrow> length (filter (\<lambda>x. t - window < x) (hist s u)) < limit"
  using allow_iff [of u t s] by (auto simp: attempt_def split_def Let_def)

text \<open>
  The run with the requests of \<open>u\<close> already let through, \<open>acc\<close>, at hand: they are an old part
  outside the window, followed by the recorded times.
\<close>

definition covers :: "gotime \<Rightarrow> gotime list \<Rightarrow> gotime list \<Rightarrow> bool" where
  "covers now acc h \<longleftrightarrow> (\<exists>old. acc = old @ h \<and> (\<forall>x \<in> set old. x \<le> now - window)) \<and>
     sorted acc \<and> (\<forall>x \<in> set acc. x \<le> now)"

definition spaced :: "gotime list \<Rightarrow> bool" where
  "spaced acc \<longleftrightarrow> (\<forall>i. i + limit < length acc \<longrightarrow> window \<le> acc ! (i + limit) - acc ! i)"

lemma covers_later:
  assumes "covers now acc h" "now \<le> t"
  shows "covers t acc (filter (\<lambda>x. t - window < x) h)"
proof -
  obtain old where acc: "acc = old @ h" and old: "\<forall>x \<in> set old. x \<le> now - window"
    and so: "sorted acc" and le: "\<forall>x \<in> set acc. x \<le> now"
    using assms(1) by (auto simp: covers_def)
  have "sorted h" using so acc by (simp add: sorted_append)
  then have h: "h = filter (\<lambda>x. x \<le> t - window) h @ filter (\<lambda>x. t - window < x) h"
  proof (induction h)
    case (Cons a h)
    show ?case
    proof (cases "a \<le> t - window")
      case False
      with Cons.prems have "\<forall>x \<in> set h. t - window < x" by auto
      then show ?thesis using False by (auto simp: filter_empty_conv filter_id_conv not_le)
    qed (use Cons in auto)
  qed simp
  have "\<exists>old'. acc = old' @ filter (\<lambda>x. t - window < x) h \<and> (\<forall>x \<in> set old'. x \<le> t - window)"
    using h acc old assms(2)
    by (intro exI [of _ "old @ filter (\<lambda>x. x \<le> t - window) h"]) fastforce
  then show ?thesis using so le assms(2) unfolding covers_def by fastforce
qed

lemma covers_record:
  assumes c: "covers t acc h" and sp: "spaced acc" and lt: "length h < limit"
  shows "covers t (acc @ [t]) (h @ [t]) \<and> spaced (acc @ [t])"
proof
  obtain old where acc: "acc = old @ h" and old: "\<forall>x \<in> set old. x \<le> t - window"
    using c by (auto simp: covers_def)
  show "covers t (acc @ [t]) (h @ [t])"
    using c by (auto simp: covers_def sorted_append)
  show "spaced (acc @ [t])"
    unfolding spaced_def
  proof (intro allI impI)
    fix i
    assume i: "i + limit < length (acc @ [t])"
    show "window \<le> (acc @ [t]) ! (i + limit) - (acc @ [t]) ! i"
    proof (cases "i + limit < length acc")
      case True
      then show ?thesis using sp by (simp add: spaced_def nth_append)
    next
      case False
      with i lt acc have i': "i + limit = length acc" "i < length old" by auto
      then have "old ! i \<le> t - window" using old by simp
      then show ?thesis using i' acc by (simp add: nth_append)
    qed
  qed
qed

lemma served_spaced_aux:
  assumes "sorted (now # map snd reqs)" "covers now acc (hist s u)" "spaced acc"
  shows "spaced (acc @ map snd (filter (\<lambda>e. fst e = u) (served reqs s)))"
  using assms
proof (induction reqs arbitrary: now acc s)
  case (Cons e reqs)
  obtain v t where e: "e = (v, t)" by (cases e)
  let ?s' = "snd (attempt v t s)"
  have now: "now \<le> t" and so: "sorted (t # map snd reqs)" using Cons.prems(1) e by auto
  note c = covers_later [OF Cons.prems(2) now]
  show ?case
  proof (cases "v = u")
    case True
    show ?thesis
    proof (cases "fst (attempt v t s)")
      case b: True
      from b True have lt: "length (filter (\<lambda>x. t - window < x) (hist s u)) < limit"
        by (simp add: attempt_iff)
      have "spaced ((acc @ [t]) @ map snd (filter (\<lambda>e. fst e = u) (served reqs ?s')))"
        using covers_record [OF c Cons.prems(3) lt] b True
        by (intro Cons.IH [OF so]) (auto simp: hist_attempt)
      then show ?thesis using b e True by (simp add: split_def)
    next
      case b: False
      have "spaced (acc @ map snd (filter (\<lambda>e. fst e = u) (served reqs ?s')))"
        using c Cons.prems(3) b True by (intro Cons.IH [OF so]) (auto simp: hist_attempt)
      then show ?thesis using b e by (simp add: split_def)
    qed
  next
    case False
    have "covers t acc (hist ?s' u)"
      using Cons.prems(2) now False by (fastforce simp: hist_attempt covers_def)
    then have "spaced (acc @ map snd (filter (\<lambda>e. fst e = u) (served reqs ?s')))"
      using Cons.prems(3) by (intro Cons.IH [OF so])
    then show ?thesis using e False by (simp add: split_def Let_def)
  qed
qed simp

text \<open>
  Of the requests of one user let through in a run over a clock that does not go back, the one
  \<open>limit\<close> places later comes at least a window later.
\<close>

lemma served_spaced:
  assumes so: "sorted (map snd reqs)" and empty: "hist s u = []"
  shows "spaced (map snd (filter (\<lambda>e. fst e = u) (served reqs s)))"
proof (cases reqs)
  case Nil
  then show ?thesis by (simp add: spaced_def)
next
  case (Cons e reqs')
  have "spaced ([] @ map snd (filter (\<lambda>e. fst e = u) (served reqs s)))"
    by (rule served_spaced_aux [of "snd e"])
      (use so Cons empty in \<open>auto simp: covers_def spaced_def\<close>)
  then show ?thesis by simp
qed

end

section \<open>The two limiters of the registry\<close>

definition requestsOf :: "(int, gotime list) gomap \<Rightarrow> int \<Rightarrow> gotime list" where
  "requestsOf m u = (case gm_get m u of None \<Rightarrow> [] | Some ts \<Rightarrow> ts)"

lemma fst_recentRequests:
  "fst (recentRequestsLocked u now m) =
     filter (\<lambda>t. now - RelayTunnelRequestWindow < t) (requestsOf m u)"
  by (auto simp: recentRequestsLocked_def requestsOf_def Let_def)

lemma requestsOf_recent:
  "requestsOf (snd (recentRequestsLocked u now m)) v =
     (if v = u then filter (\<lambda>t. now - RelayTunnelRequestWindow < t) (requestsOf m u)
      else requestsOf m v)"
  by (auto simp: recentRequestsLocked_def requestsOf_def Let_def split: option.splits)

lemma window_pos [simp]: "0 < RelayTunnelRequestWindow"
  by (simp add: RelayTunnelRequestWindow_def minute_def second_def)

interpretation tunnel_limit: sliding_window allowRelayTunnelRequestLocked
  recordRelayTunnelRequestLocked "\<lambda>r u. requestsOf (cr_tunnelRequests r) u"
  RelayTunnelRequestLimit RelayTunnelRequestWindow
proof unfold_locales
  fix u t v and s :: connRegistry
  show "fst (allowRelayTunnelRequestLocked u t s) =
      (length (filter (\<lambda>x. t - RelayTunnelRequestWindow < x) (requestsOf (cr_tunnelRequests s) u))
        < RelayTunnelRequestLimit)"
    by (simp add: allowRelayTunnelRequestLocked_def allowRequestLocked_def split_def Let_def
        fst_recentRequests)
  show "requestsOf (cr_tunnelRequests (snd (allowRelayTunnelRequestLocked u t s))) v =
      (if v = u then filter (\<lambda>x. t - RelayTunnelRequestWindow < x) (requestsOf (cr_tunnelRequests s) u)
       else requestsOf (cr_tunnelRequests s) v)"
    by (simp add: allowRelayTunnelRequestLocked_def allowRequestLocked_def split_def Let_def
        requestsOf_recent)
  show "requestsOf (cr_tunnelRequests (recordRelayTunnelRequestLocked u t s)) v =
      (if v = u then filter (\<lambda>x. t - RelayTunnelRequestWindow < x) (requestsOf (cr_tunnelRequests s) u)
         @ [t] else requestsOf (cr_tunnelRequests s) v)"
    using requestsOf_recent [of u t "cr_tunnelRequests s" v]
    by (auto simp: recordRelayTunnelRequestLocked_def recordRequestLocked_def split_def Let_def
        fst_recentRequests requestsOf_def)
qed simp

interpretation rendezvous_limit: sliding_window allowRendezvousRequestLocked
  recordRendezvousRequestLocked "\<lambda>r u. requestsOf (cr_rendezvousReqs r) u"
  RelayTunnelRequestLimit RelayTunnelRequestWindow
proof unfold_locales
  fix u t v and s :: connRegistry
  show "fst (allowRendezvousRequestLocked u t s) =
      (length (filter (\<lambda>x. t - RelayTunnelRequestWindow < x) (requestsOf (cr_rendezvousReqs s) u))
        < RelayTunnelRequestLimit)"
    by (simp add: allowRendezvousRequestLocked_def allowRequestLocked_def split_def Let_def
        fst_recentRequests)
  show "requestsOf (cr_rendezvousReqs (snd (allowRendezvousRequestLocked u t s))) v =
      (if v = u then filter (\<lambda>x. t - RelayTunnelRequestWindow < x) (requestsOf (cr_rendezvousReqs s) u)
       else requestsOf (cr_rendezvousReqs s) v)"
    by (simp add: allowRendezvousRequestLocked_def allowRequestLocked_def split_def Let_def
        requestsOf_recent)
  show "requestsOf (cr_rendezvousReqs (recordRendezvousRequestLocked u t s)) v =
      (if v = u then filter (\<lambda>x. t - RelayTunnelRequestWindow < x) (requestsOf (cr_rendezvousReqs s) u)
         @ [t] else requestsOf (cr_rendezvousReqs s) v)"
    using requestsOf_recent [of u t "cr_rendezvousReqs s" v]
    by (auto simp: recordRendezvousRequestLocked_def recordRequestLocked_def split_def Let_def
        fst_recentRequests requestsOf_def)
qed simp

text \<open>
  The requests of a sequence that the tunnel limiter and the rendezvous limiter let through,
  asking and recording as \<open>requestRelayTunnel\<close> and \<open>OpenRendezvousFromApp\<close> do.
\<close>

fun servedTunnelRequests :: "(int \<times> gotime) list \<Rightarrow> connRegistry \<Rightarrow> (int \<times> gotime) list" where
  "servedTunnelRequests [] r = []"
| "servedTunnelRequests ((u, t) # reqs) r =
     (let (allowed, r1) = allowRelayTunnelRequestLocked u t r
      in if allowed then (u, t) # servedTunnelRequests reqs (recordRelayTunnelRequestLocked u t r1)
         else servedTunnelRequests reqs r1)"

fun servedRendezvousRequests :: "(int \<times> gotime) list \<Rightarrow> connRegistry \<Rightarrow> (int \<times> gotime) list" where
  "servedRendezvousRequests [] r = []"
| "servedRendezvousRequests ((u, t) # reqs) r =
     (let (allowed, r1) = allowRendezvousRequestLocked u t r
      in if allowed then (u, t) # servedRendezvousRequests reqs (recordRendezvousRequestLocked u t r1)
         else servedRendezvousRequests reqs r1)"

lemma servedTunnelRequests_eq: "servedTunnelRequests reqs r = tunnel_limit.served reqs r"
  by (induction reqs arbitrary: r)
    (auto simp: tunnel_limit.attempt_def split_def Let_def)

lemma servedRendezvousRequests_eq:
  "servedRendezvousRequests reqs r = rendezvous_limit.served reqs r"
  by (induction reqs arbitrary: r)
    (auto simp: rendezvous_limit.attempt_def split_def Let_def)



lemma rendezvous_requests_spaced:
  fixes reqs :: "(int \<times> gotime) list"
  assumes "sorted (map snd reqs)" "requestsOf (cr_rendezvousReqs r) u = []"
    "i + RelayTunnelRequestLimit < length (filter (\<lambda>e. fst e = u) (servedRendezvousRequests reqs r))"
  shows "RelayTunnelRequestWindow \<le>
    snd (filter (\<lambda>e. fst e = u) (servedRendezvousRequests reqs r) ! (i + RelayTunnelRequestLimit)) -
    snd (filter (\<lambda>e. fst e = u) (servedRendezvousRequests reqs r) ! i)"
  using rendezvous_limit.served_spaced [OF assms(1,2)] assms(3)
  by (simp add: rendezvous_limit.spaced_def servedRendezvousRequests_eq)

end
