(* ===== verification/Conn_Steps.thy ===== *)
theory Conn_Steps
  imports Conn_Inv Conn_Rate
begin

text \<open>
  Every atomic section of the connectivity registry keeps \<open>conn_inv\<close>. The collection
  \<open>conn_inv_intros\<close> holds the rules by which the sections' proofs go through their helper calls.
\<close>

named_theorems conn_inv_intros \<open>preservation of the registry invariant\<close>

lemmas conn_inv_defs = conn_inv_def inv_wf_def inv_rows_def inv_inflight_def inv_tokens_def
  inv_live_def attemptsOf_def

section \<open>Updates of single components\<close>

lemma conn_inv_bookkeeping [simp]:
  "conn_inv (r\<lparr>cr_revokedApps := a\<rparr>) = conn_inv r"
  "conn_inv (r\<lparr>cr_revokedAgents := b\<rparr>) = conn_inv r"
  "conn_inv (r\<lparr>cr_userAppCutoff := c\<rparr>) = conn_inv r"
  "conn_inv (r\<lparr>cr_nextCloserID := d\<rparr>) = conn_inv r"
  by (simp_all add: conn_inv_defs)

lemma conn_inv_apps [conn_inv_intros]:
  "conn_inv r \<Longrightarrow> gm_wf m \<Longrightarrow> gm_all app_ok m \<Longrightarrow> conn_inv (r\<lparr>cr_apps := m\<rparr>)"
  by (simp add: conn_inv_defs)

lemma conn_inv_correlations [conn_inv_intros]:
  "conn_inv r \<Longrightarrow> gm_wf m \<Longrightarrow> conn_inv (r\<lparr>cr_correlations := m\<rparr>)"
  by (simp add: conn_inv_defs)

lemma conn_inv_rendezvous [conn_inv_intros]:
  "conn_inv r \<Longrightarrow> subseq m (cr_rendezvous r) \<Longrightarrow> conn_inv (r\<lparr>cr_rendezvous := m\<rparr>)"
  by (auto simp: conn_inv_defs intro: subseq_gm_wf subseq_gm_all)

lemma conn_inv_direct [conn_inv_intros]:
  "conn_inv r \<Longrightarrow> gm_wf m \<Longrightarrow> gm_all direct_ok m \<Longrightarrow> conn_inv (r\<lparr>cr_activeDirect := m\<rparr>)"
  by (simp add: conn_inv_defs)

lemma conn_inv_rates:
  "conn_inv r \<Longrightarrow> rate_ok m \<Longrightarrow> conn_inv (r\<lparr>cr_tunnelRequests := m\<rparr>)"
  "conn_inv r \<Longrightarrow> rate_ok m \<Longrightarrow> conn_inv (r\<lparr>cr_rendezvousReqs := m\<rparr>)"
  by (simp_all add: conn_inv_defs)

lemma conn_inv_rows:
  assumes "conn_inv r"
  shows "gm_all app_ok (cr_apps r)" "gm_all daemon_ok (cr_daemons r)"
    "gm_all (attempt_ok (cr_nextPtr r)) (cr_attempts r)"
    "gm_all (rendezvous_ok (cr_nextPtr r)) (cr_rendezvous r)"
    "gm_all direct_ok (cr_activeDirect r)"
    "rate_ok (cr_tunnelRequests r)" "rate_ok (cr_rendezvousReqs r)"
  using assms by (simp_all add: conn_inv_def inv_rows_def)

section \<open>The helpers\<close>

lemma conn_inv_removeRendezvous [conn_inv_intros]:
  "conn_inv r \<Longrightarrow> conn_inv (snd (removeRendezvousLocked q r))"
  by (simp add: removeRendezvousLocked_def conn_inv_rendezvous)

lemma conn_inv_removeDirect [conn_inv_intros]:
  "conn_inv r \<Longrightarrow> conn_inv (snd (removeActiveDirectLocked d r))"
  by (simp add: removeActiveDirectLocked_def conn_inv_direct conn_inv_wfs conn_inv_rows gm_all_drop)

lemma conn_inv_drop:
  assumes "conn_inv r" "\<And>a. a \<in> set as \<Longrightarrow> gm_get (cr_attempts r) (tu_key a) = Some a"
  shows "conn_inv (r\<lparr>cr_attempts := dropAttempts as (cr_attempts r),
    cr_tokens := dropTokens as (cr_tokens r)\<rparr>)" (is "conn_inv ?r")
proof (rule shrink_conn_inv [OF assms(1)])
  show "shrinks r ?r" by (simp add: shrinks_def)
  show "inv_tokens ?r" using assms by (simp add: inv_tokens_def inv_tokens_drop conn_inv_def)
  show "inv_live ?r"
    by (rule inv_live_shrink [of r]) (use assms(1) in \<open>simp_all add: conn_inv_def\<close>)
qed

lemma conn_inv_removeAttempts [conn_inv_intros]:
  "conn_inv r \<Longrightarrow> conn_inv (snd (removeTunnelAttemptsLocked p r))"
  by (simp add: removeTunnelAttemptsLocked_eq conn_inv_drop attempt_vals_filed)

lemma conn_inv_removeAttempt [conn_inv_intros]:
  assumes "conn_inv r" "gm_get (cr_attempts r) k = Some a"
  shows "conn_inv (snd (removeTunnelAttemptLocked a r))"
  using conn_inv_drop [of r "[a]"] attempt_filed [OF assms] assms
  by (simp add: removeTunnelAttemptLocked_eq)

lemma conn_inv_sweepTunnels [conn_inv_intros]:
  "conn_inv r \<Longrightarrow> conn_inv (snd (snd (sweepExpiredTunnelAttemptsLocked now r)))"
  by (simp add: sweepExpiredTunnelAttemptsLocked_def conn_inv_removeAttempts)

lemma conn_inv_sweepRendezvous [conn_inv_intros]:
  "conn_inv r \<Longrightarrow> conn_inv (sweepExpiredRendezvousLocked now r)"
  by (simp add: sweepExpiredRendezvousLocked_def conn_inv_rendezvous)

lemma conn_inv_sweepCorrelations [conn_inv_intros]:
  "conn_inv r \<Longrightarrow> conn_inv (sweepExpiredPairCorrelationsLocked now r)"
  by (simp add: sweepExpiredPairCorrelationsLocked_def conn_inv_correlations conn_inv_wfs)

section \<open>Apps and bulk disconnection of app sessions\<close>

lemma app_ok_normOwner [simp]: "app_ok p \<lparr>la_owner = normOwner owner, la_peer = p, la_connectedAt = t\<rparr>"
  by (simp add: app_ok_def normOwner_def)

lemma conn_inv_RegisterAppIfValid:
  "conn_inv r \<Longrightarrow> conn_inv (snd (RegisterAppIfValid clk owner peer sv r))"
  by (simp add: RegisterAppIfValid_def Let_def conn_inv_apps conn_inv_wfs conn_inv_rows gm_all_put)

lemma conn_inv_DisconnectApp:
  "conn_inv r \<Longrightarrow> conn_inv (snd (snd (DisconnectApp ok peer r)))"
  by (auto simp: DisconnectApp_def Let_def split_def conn_inv_wfs conn_inv_rows gm_all_del
      intro!: conn_inv_removeRendezvous conn_inv_apps split: option.split)

lemma conn_inv_DisconnectAppSession:
  "conn_inv r \<Longrightarrow> conn_inv (snd (snd (DisconnectAppSession ok sid r)))"
  by (auto simp: DisconnectAppSession_def Let_def split_def conn_inv_wfs conn_inv_rows
      intro!: conn_inv_removeAttempts conn_inv_removeDirect conn_inv_removeRendezvous conn_inv_apps)

section \<open>Tunnels\<close>

lemma conn_inv_Close:
  "conn_inv r \<Longrightarrow> conn_inv (snd (snd (CloseRelayTunnel k r)))"
  by (auto simp: CloseRelayTunnel_def Let_def split_def intro: conn_inv_removeAttempt
      split: option.split)

lemma conn_inv_expireTunnel:
  "conn_inv r \<Longrightarrow> conn_inv (snd (expireUnpairedRelayTunnelLater clk k r))"
  by (auto simp: expireUnpairedRelayTunnelLater_def Let_def split_def intro: conn_inv_removeAttempt
      split: option.split)

lemma conn_inv_expireRendezvous:
  "conn_inv r \<Longrightarrow> conn_inv (expireRendezvousLater clk k r)"
  by (auto simp: expireRendezvousLater_def intro: conn_inv_rendezvous split: option.split)

lemma conn_inv_Sweep:
  "conn_inv r \<Longrightarrow> conn_inv (snd (snd (SweepExpiredRelayTunnelAttempts clk r)))"
  by (simp add: SweepExpiredRelayTunnelAttempts_def Let_def split_def conn_inv_sweepTunnels)

lemma conn_inv_request_abort:
  "conn_inv r \<Longrightarrow> conn_inv (snd (requestRelayTunnel_abort k n r))"
  by (auto simp: requestRelayTunnel_abort_def intro: conn_inv_removeAttempt split: option.split)

lemma conn_inv_open_abort:
  "conn_inv r \<Longrightarrow> conn_inv (openRendezvous_abort k n r)"
  by (auto simp: openRendezvous_abort_def intro: conn_inv_rendezvous split: option.split)

text \<open>An attempt changed in place keeps its identity, owners and tokens.\<close>

lemma conn_inv_touch:
  assumes inv: "conn_inv r" and k: "gm_get (cr_attempts r) k = Some a"
    and same: "tu_key a' = tu_key a" "tu_ptr a' = tu_ptr a" "tu_appOwner a' = tu_appOwner a"
      "tu_daemonOwner a' = tu_daemonOwner a" "tu_daemonDeviceID a' = tu_daemonDeviceID a"
      "tu_id a' = tu_id a" "tu_daemonPeer a' = tu_daemonPeer a"
    and tokens: "subseq m (cr_tokens r)" "gm_all (token_ok (gm_put k a' (cr_attempts r))) m"
  shows "conn_inv (r\<lparr>cr_attempts := gm_put k a' (cr_attempts r), cr_tokens := m\<rparr>)"
proof -
  have "attempt_ok (cr_nextPtr r) k a" using conn_inv_rows(3) [OF inv] k by (rule gm_allD)
  then have "attempt_ok (cr_nextPtr r) k a'" using same by (simp add: attempt_ok_def)
  moreover have "serving (cr_daemons r) (tu_appOwner a') (tu_daemonDeviceID a') (tu_daemonOwner a')
      (tu_daemonPeer a')"
    using inv k same by (auto simp: conn_inv_def inv_live_def dest: gm_allD)
  moreover have "length (gm_vals (\<lambda>a. sameAppOwner (tu_appOwner a) owner) (gm_put k a' m'))
      = length (gm_vals (\<lambda>a. sameAppOwner (tu_appOwner a) owner) m')"
    if "gm_get m' k = Some a" for m' owner
    using that same by (induction m') (auto simp: gm_vals_def gm_put_def gm_get_def split: if_splits)
  ultimately show ?thesis
    using inv k tokens by (auto simp: conn_inv_defs intro: gm_all_put subseq_gm_wf)
qed

lemma token_ok_touch:
  assumes "token_ok m t s" "gm_get m k = Some a"
    "tu_appToken a' = tu_appToken a" "tu_daemonToken a' = tu_daemonToken a"
    "tu_appRedeemed a' \<Longrightarrow> tu_appRedeemed a \<or> (tk_actor s = TunnelActorClient \<longrightarrow> t \<noteq> tu_appToken a)"
    "tu_daemonRedeemed a' \<Longrightarrow>
       tu_daemonRedeemed a \<or> (tk_actor s = TunnelActorDaemon \<longrightarrow> t \<noteq> tu_daemonToken a)"
  shows "token_ok (gm_put k a' m) t s"
  using assms by (auto simp: token_ok_def split: option.splits if_splits)

lemma conn_inv_touch_same:
  assumes inv: "conn_inv r" and k: "gm_get (cr_attempts r) k = Some a"
    and same: "tu_key a' = tu_key a" "tu_ptr a' = tu_ptr a" "tu_appOwner a' = tu_appOwner a"
      "tu_daemonOwner a' = tu_daemonOwner a" "tu_daemonDeviceID a' = tu_daemonDeviceID a"
      "tu_id a' = tu_id a" "tu_daemonPeer a' = tu_daemonPeer a"
      "tu_appToken a' = tu_appToken a" "tu_daemonToken a' = tu_daemonToken a"
      "tu_appRedeemed a' = tu_appRedeemed a" "tu_daemonRedeemed a' = tu_daemonRedeemed a"
  shows "conn_inv (r\<lparr>cr_attempts := gm_put k a' (cr_attempts r)\<rparr>)"
proof -
  have "gm_all (token_ok (gm_put k a' (cr_attempts r))) (cr_tokens r)"
    using inv k same
    by (auto simp: conn_inv_def inv_tokens_def gm_all_iff intro!: token_ok_touch [OF _ k])
  from conn_inv_touch [OF inv k same(1-7) subseq_order.refl this] show ?thesis by simp
qed

lemma conn_inv_MarkActive:
  "conn_inv r \<Longrightarrow> conn_inv (snd (MarkRelayTunnelActive k r))"
  by (auto simp: MarkRelayTunnelActive_def Let_def intro: conn_inv_touch_same split: option.split)

lemma conn_inv_AddCloser:
  "conn_inv r \<Longrightarrow> conn_inv (snd (snd (AddTunnelCloser k c r)))"
  using conn_inv_touch_same [of "r\<lparr>cr_nextCloserID := _\<rparr>"]
  by (auto simp: AddTunnelCloser_def Let_def intro: conn_inv_touch_same split: option.split)

lemma conn_inv_removeCloser:
  "conn_inv r \<Longrightarrow> conn_inv (removeTunnelCloser k n r)"
  by (auto simp: removeTunnelCloser_def intro: conn_inv_touch_same split: option.split)

lemma markRedeemed_same:
  assumes "markRedeemed actor a = Some a'"
  shows "tu_key a' = tu_key a" "tu_ptr a' = tu_ptr a" "tu_appOwner a' = tu_appOwner a"
    "tu_daemonOwner a' = tu_daemonOwner a" "tu_daemonDeviceID a' = tu_daemonDeviceID a"
    "tu_id a' = tu_id a" "tu_daemonPeer a' = tu_daemonPeer a"
    "tu_appToken a' = tu_appToken a" "tu_daemonToken a' = tu_daemonToken a"
    "tu_expiresAt a' = tu_expiresAt a" "tu_daemonFingerprint a' = tu_daemonFingerprint a"
  using assms by (auto simp: markRedeemed_def split: if_splits)

lemma conn_inv_redeem:
  assumes inv: "conn_inv r" and t: "gm_get (cr_tokens r) t = Some s"
    and k: "gm_get (cr_attempts r) (tk_attemptID s) = Some a"
    and m: "markRedeemed (tk_actor s) a = Some a'"
  shows "conn_inv (r\<lparr>cr_attempts := gm_put (tk_attemptID s) a' (cr_attempts r),
    cr_tokens := gm_del t (cr_tokens r)\<rparr>)"
proof (rule conn_inv_touch [OF inv k markRedeemed_same(1-7) [OF m]])
  show "gm_all (token_ok (gm_put (tk_attemptID s) a' (cr_attempts r))) (gm_del t (cr_tokens r))"
    unfolding gm_all_iff
  proof (intro ballI, clarify)
    fix t' s'
    assume "(t', s') \<in> set (gm_del t (cr_tokens r))"
    then have "(t', s') \<in> set (cr_tokens r)" "t' \<noteq> t" by (auto simp: set_gm_del)
    moreover have "token_ok (cr_attempts r) t s"
      using inv t by (auto simp: conn_inv_def inv_tokens_def dest: gm_allD)
    ultimately show "token_ok (gm_put (tk_attemptID s) a' (cr_attempts r)) t' s'"
      using inv m k
      by (intro token_ok_touch [OF _ k])
        (auto simp: conn_inv_def inv_tokens_def gm_all_iff token_ok_def markRedeemed_def
          split: if_splits)
  qed
qed simp

lemma conn_inv_delToken:
  "conn_inv r \<Longrightarrow> conn_inv (r\<lparr>cr_tokens := gm_del t (cr_tokens r)\<rparr>)"
  by (simp add: conn_inv_defs gm_all_del)

lemma conn_inv_Redeem:
  assumes "conn_inv r"
  shows "conn_inv (snd (snd (RedeemRelayTunnelToken clk t r)))"
proof -
  define r1 where "r1 = snd (snd (sweepExpiredTunnelAttemptsLocked (clk 0) r))"
  have inv: "conn_inv r1" unfolding r1_def by (rule conn_inv_sweepTunnels [OF assms])
  show ?thesis
    unfolding RedeemRelayTunnelToken_def Let_def split_def r1_def [symmetric]
    by (auto simp: assms inv conn_inv_delToken intro: conn_inv_redeem conn_inv_removeAttempt
        split: option.split)
qed

end
