(* ===== verification/Conn_Steps2.thy ===== *)
theory Conn_Steps2
  imports Conn_Steps
begin

text \<open>
  The sections that add entries keep the invariant: rate records, tunnel attempts, rendezvous
  attempts, direct sessions, daemons and their trust.
\<close>

section \<open>Rate records\<close>

lemma rate_ok_recent: "rate_ok m \<Longrightarrow> rate_ok (snd (recentRequestsLocked u now m))"
proof -
  assume ok: "rate_ok m"
  let ?f = "filter (\<lambda>t. now - RelayTunnelRequestWindow < t)"
  have "length (?f ts) \<le> RelayTunnelRequestLimit" if "gm_get m u = Some ts" for ts
  proof -
    have "length ts \<le> RelayTunnelRequestLimit"
      using ok that by (auto simp: rate_ok_def dest: gm_allD)
    then show ?thesis using length_filter_le order_trans by blast
  qed
  then show ?thesis
    using ok by (auto simp: recentRequestsLocked_def rate_ok_def Let_def split: option.split)
qed

lemma rate_ok_record:
  assumes "rate_ok m"
    "length (filter (\<lambda>t. now - RelayTunnelRequestWindow < t) (requestsOf m u)) < RelayTunnelRequestLimit"
  shows "rate_ok (recordRequestLocked u now m)"
proof -
  have "rate_ok (snd (recentRequestsLocked u now m))" by (rule rate_ok_recent [OF assms(1)])
  then show ?thesis
    using assms(2)
    by (auto simp: recordRequestLocked_def split_def Let_def rate_ok_def fst_recentRequests)
qed

lemma conn_inv_allowTunnel:
  "conn_inv r \<Longrightarrow> conn_inv (snd (allowRelayTunnelRequestLocked u t r))"
  by (simp add: allowRelayTunnelRequestLocked_def allowRequestLocked_def split_def Let_def
      conn_inv_rates conn_inv_rows rate_ok_recent)

lemma conn_inv_allowRendezvous:
  "conn_inv r \<Longrightarrow> conn_inv (snd (allowRendezvousRequestLocked u t r))"
  by (simp add: allowRendezvousRequestLocked_def allowRequestLocked_def split_def Let_def
      conn_inv_rates conn_inv_rows rate_ok_recent)

lemma allow_record_small:
  assumes "fst (allowRelayTunnelRequestLocked u t r)"
  shows "length (filter (\<lambda>x. t - RelayTunnelRequestWindow < x)
    (requestsOf (cr_tunnelRequests (snd (allowRelayTunnelRequestLocked u t r))) u))
      < RelayTunnelRequestLimit"
  using assms by (simp add: tunnel_limit.allow_iff tunnel_limit.hist_allow)

lemma allow_record_small':
  assumes "fst (allowRendezvousRequestLocked u t r)"
  shows "length (filter (\<lambda>x. t - RelayTunnelRequestWindow < x)
    (requestsOf (cr_rendezvousReqs (snd (allowRendezvousRequestLocked u t r))) u))
      < RelayTunnelRequestLimit"
  using assms by (simp add: rendezvous_limit.allow_iff rendezvous_limit.hist_allow)

section \<open>Keys\<close>

lemma daemonMapKey_inj:
  "daemonMapKey u d = daemonMapKey v e \<longleftrightarrow> u = v \<and> TrimSpace d = TrimSpace e"
  unfolding daemonMapKey_def by (rule itoa_key_inj)

text \<open>The daemon found under the key of a user and a device is that user's daemon of that device.\<close>

lemma daemon_found:
  assumes "conn_inv r" "gm_get (cr_daemons r) (daemonMapKey u d) = Some live"
  shows "do_UserID (ld_owner live) = u" "di_DeviceID (ld_info live) = TrimSpace d"
    "trusted_ok (ld_trusted live)"
proof -
  have ok: "daemon_ok (daemonMapKey u d) live"
    using gm_allD [OF conn_inv_rows(2) [OF assms(1)] assms(2)] .
  then show "do_UserID (ld_owner live) = u" "di_DeviceID (ld_info live) = TrimSpace d"
    "trusted_ok (ld_trusted live)"
    by (auto simp: daemon_ok_def daemonMapKey_inj)
qed

lemma trustedFingerprint_get:
  "trusted_ok m \<Longrightarrow> trustedFingerprint m fp \<noteq> [] \<longleftrightarrow> gm_get m fp \<noteq> None"
  by (auto simp: trustedFingerprint_def trusted_ok_def split: option.splits dest: gm_allD)

lemma normOwner_idem [simp]: "normOwner (normOwner owner) = normOwner owner"
  by (simp add: normOwner_def)

lemma normOwner_UserID [simp]: "ao_UserID (normOwner owner) = ao_UserID owner"
  by (simp add: normOwner_def)

lemma normOwner_SessionID [simp]: "ao_AppSessionID (normOwner owner) = ao_AppSessionID owner"
  by (simp add: normOwner_def)

section \<open>Installing a tunnel attempt\<close>

lemma attemptsOf_put:
  assumes "gm_get m k = None"
  shows "gm_vals p (gm_put k a m) = gm_vals p m @ (if p a then [a] else [])"
  using assms by (induction m) (auto simp: gm_vals_def gm_put_def gm_get_def split: if_splits)

lemma token_ok_install:
  assumes inv: "gm_all (token_ok m) tokens" and k: "gm_get m k = None"
    and new: "\<not> tu_appRedeemed a" "\<not> tu_daemonRedeemed a"
  shows "gm_all (token_ok (gm_put k a m))
    (gm_put (tu_daemonToken a) \<lparr>tk_attemptID = k, tk_actor = TunnelActorDaemon\<rparr>
      (gm_put (tu_appToken a) \<lparr>tk_attemptID = k, tk_actor = TunnelActorClient\<rparr> tokens))"
proof -
  have "gm_all (token_ok (gm_put k a m)) tokens"
    using inv by (rule gm_all_mono) (use k in \<open>auto simp: token_ok_def split: option.splits\<close>)
  then show ?thesis using new by (intro gm_all_put) (auto simp: token_ok_def)
qed

lemma conn_inv_addAttempt:
  assumes inv: "conn_inv r" and k: "gm_get (cr_attempts r) (tu_key a) = None"
    and ok: "linked (tu_key a) (tu_appOwner a) (tu_daemonOwner a) (tu_daemonDeviceID a) (tu_id a)"
    and ptr: "tu_ptr a = cr_nextPtr r" and new: "\<not> tu_appRedeemed a" "\<not> tu_daemonRedeemed a"
    and few: "length (attemptsOf (tu_appOwner a) r) < RelayTunnelInFlightPerAppSessionLimit"
    and live: "serving (cr_daemons r) (tu_appOwner a) (tu_daemonDeviceID a) (tu_daemonOwner a)
      (tu_daemonPeer a)"
  shows "conn_inv (r\<lparr>cr_attempts := gm_put (tu_key a) a (cr_attempts r),
     cr_tokens := gm_put (tu_daemonToken a) \<lparr>tk_attemptID = tu_key a, tk_actor = TunnelActorDaemon\<rparr>
       (gm_put (tu_appToken a) \<lparr>tk_attemptID = tu_key a, tk_actor = TunnelActorClient\<rparr> (cr_tokens r)),
     cr_nextPtr := Suc (cr_nextPtr r)\<rparr>)"
proof -
  have "length (gm_vals (\<lambda>b. sameAppOwner (tu_appOwner b) owner) (gm_put (tu_key a) a (cr_attempts r)))
      \<le> RelayTunnelInFlightPerAppSessionLimit" for owner
  proof (cases "sameAppOwner (tu_appOwner a) owner")
    case True
    then have "sameAppOwner b owner = sameAppOwner b (tu_appOwner a)" for b
      by (auto simp: sameAppOwner_def)
    then show ?thesis using few True by (simp add: attemptsOf_put [OF k] attemptsOf_def)
  next
    case False
    then show ?thesis using inv by (simp add: attemptsOf_put [OF k] conn_inv_defs)
  qed
  moreover have "gm_all (attempt_ok (Suc (cr_nextPtr r))) (cr_attempts r)"
    "gm_all (rendezvous_ok (Suc (cr_nextPtr r))) (cr_rendezvous r)"
    using conn_inv_rows(3,4) [OF inv]
    by (auto simp: attempt_ok_def rendezvous_ok_def elim!: gm_all_mono)
  ultimately show ?thesis
    using inv ok ptr live token_ok_install [OF _ k new]
    by (auto simp: conn_inv_defs attempt_ok_def intro!: gm_all_put)
qed

lemma count_attempts:
  "countRelayTunnelAttemptsLocked owner k r =
     length (gm_vals (\<lambda>a. sameAppOwner (tu_appOwner a) owner) (gm_del k (cr_attempts r)))"
proof -
  have "length (filter (\<lambda>(key, a). key \<noteq> k \<and> sameAppOwner (tu_appOwner a) owner) m)
      = length (gm_vals (\<lambda>a. sameAppOwner (tu_appOwner a) owner) (gm_del k m))"
    for m :: "(string, tunnelAttempt) gomap"
    by (induction m) (auto simp: gm_vals_def gm_del_def)
  then show ?thesis by (simp add: countRelayTunnelAttemptsLocked_def)
qed

text \<open>The state between the removal of the old attempt and the insertion of the new one.\<close>

definition clearedFor :: "AppOwner \<Rightarrow> string \<Rightarrow> string \<Rightarrow> gotime \<Rightarrow> connRegistry \<Rightarrow> connRegistry" where
  "clearedFor owner daemonID attemptID now r =
     (let k = tunnelAttemptKey owner daemonID attemptID;
          r1 = recordRelayTunnelRequestLocked (ao_UserID owner) now r;
          r2 = (case gm_get (cr_attempts r1) k of
             None \<Rightarrow> r1 | Some old \<Rightarrow> snd (removeTunnelAttemptLocked old r1))
      in snd (removeRendezvousLocked (\<lambda>a. sameAppOwner (rv_appOwner a) owner \<and>
           rv_daemonDeviceID a = daemonID \<and> rv_id a = attemptID) r2))"

lemma clearedFor_fields:
  assumes "conn_inv r"
  shows "cr_attempts (clearedFor owner daemonID attemptID now r) =
       gm_del (tunnelAttemptKey owner daemonID attemptID) (cr_attempts r)"
    "cr_daemons (clearedFor owner daemonID attemptID now r) = cr_daemons r"
    "cr_nextPtr (clearedFor owner daemonID attemptID now r) = cr_nextPtr r"
    "cr_tunnelRequests (clearedFor owner daemonID attemptID now r) =
       recordRequestLocked (ao_UserID owner) now (cr_tunnelRequests r)"
  using attempt_filed [OF assms(1), of "tunnelAttemptKey owner daemonID attemptID"]
  by (auto simp: clearedFor_def Let_def recordRelayTunnelRequestLocked_def removeRendezvousLocked_def
      removeTunnelAttemptLocked_def gm_del_absent split: option.split)

lemma conn_inv_clearedFor:
  assumes "conn_inv r"
    "length (filter (\<lambda>t. now - RelayTunnelRequestWindow < t)
       (requestsOf (cr_tunnelRequests r) (ao_UserID owner))) < RelayTunnelRequestLimit"
  shows "conn_inv (clearedFor owner daemonID attemptID now r)"
  using assms conn_inv_rates(1) [OF assms(1)] rate_ok_record [OF conn_inv_rows(6) [OF assms(1)] assms(2)]
  by (auto simp: clearedFor_def Let_def recordRelayTunnelRequestLocked_def
      intro!: conn_inv_removeRendezvous split: option.split intro: conn_inv_removeAttempt)

lemma conn_inv_install:
  assumes inv: "conn_inv r"
    and owner: "normOwner owner = owner"
    and trims: "TrimSpace daemonID = daemonID" "TrimSpace attemptID = attemptID"
    and found: "gm_get (cr_daemons r) (daemonMapKey (ao_UserID owner) daemonID) = Some live"
    and trust: "gm_get (ld_trusted live) (ao_DeviceFingerprint owner) \<noteq> None"
    and rate: "length (filter (\<lambda>t. now - RelayTunnelRequestWindow < t)
       (requestsOf (cr_tunnelRequests r) (ao_UserID owner))) < RelayTunnelRequestLimit"
    and few: "countRelayTunnelAttemptsLocked owner (tunnelAttemptKey owner daemonID attemptID) r
       < RelayTunnelInFlightPerAppSessionLimit"
  shows "conn_inv (snd (installTunnelAttempt owner daemonID attemptID requestID reason dl rl ttl now
    base live appToken daemonToken r))"
proof -
  define k where "k = tunnelAttemptKey owner daemonID attemptID"
  define r3 where "r3 = clearedFor owner daemonID attemptID now r"
  note fields = clearedFor_fields [OF inv, of owner daemonID attemptID now]
  have r3: "conn_inv r3" unfolding r3_def by (rule conn_inv_clearedFor [OF inv rate])
  define a where "a = \<lparr>tu_ptr = cr_nextPtr r3, tu_key = k, tu_id = attemptID,
             tu_appOwner = owner, tu_daemonOwner = ld_owner live,
             tu_daemonDeviceID = di_DeviceID (ld_info live),
             tu_daemonFingerprint = di_DaemonFingerprint (ld_info live),
             tu_daemonPeer = ld_peer live, tu_appToken = appToken, tu_daemonToken = daemonToken,
             tu_fallbackReason = TrimSpace reason,
             tu_directLatencyMS = nonNegativeInt dl,
             tu_relayLatencyMS = nonNegativeInt rl,
             tu_appRedeemed = False, tu_daemonRedeemed = False, tu_active = False,
             tu_expiresAt = base + ttl, tu_closers = []\<rparr>"
  note f = daemon_found [OF inv found]
  have "conn_inv (r3\<lparr>cr_attempts := gm_put (tu_key a) a (cr_attempts r3),
     cr_tokens := gm_put (tu_daemonToken a) \<lparr>tk_attemptID = tu_key a, tk_actor = TunnelActorDaemon\<rparr>
       (gm_put (tu_appToken a) \<lparr>tk_attemptID = tu_key a, tk_actor = TunnelActorClient\<rparr> (cr_tokens r3)),
     cr_nextPtr := Suc (cr_nextPtr r3)\<rparr>)"
    using few fields found trust f owner trims
    by (intro conn_inv_addAttempt [OF r3])
      (auto simp: a_def k_def r3_def linked_def attemptsOf_def count_attempts serving_def)
  then show ?thesis
    by (simp add: installTunnelAttempt_def Let_def a_def k_def r3_def clearedFor_def split_def
        split: option.split_asm option.split)
qed

lemma allow_frame [simp]:
  "cr_daemons (snd (allowRelayTunnelRequestLocked u t r)) = cr_daemons r"
  "cr_daemons (snd (allowRendezvousRequestLocked u t r)) = cr_daemons r"
  "cr_apps (snd (allowRelayTunnelRequestLocked u t r)) = cr_apps r"
  "cr_apps (snd (allowRendezvousRequestLocked u t r)) = cr_apps r"
  "cr_attempts (snd (allowRelayTunnelRequestLocked u t r)) = cr_attempts r"
  "cr_rendezvous (snd (allowRendezvousRequestLocked u t r)) = cr_rendezvous r"
  by (simp_all add: allowRelayTunnelRequestLocked_def allowRendezvousRequestLocked_def split_def Let_def)

lemma conn_inv_request_begin:
  assumes "conn_inv r"
  shows "conn_inv (snd (snd (requestRelayTunnel_begin clk rnd owner appPeer daemonID attemptID
    requestID reason dl rl ttl r)))"
proof -
  define r1 where "r1 = snd (snd (sweepExpiredTunnelAttemptsLocked (clk 0) r))"
  have inv: "conn_inv r1" unfolding r1_def by (rule conn_inv_sweepTunnels [OF assms])
  note inv2 = conn_inv_allowTunnel [OF inv]
  have trust: "gm_get (ld_trusted live) (ao_DeviceFingerprint (normOwner owner)) \<noteq> None"
    if "gm_get (cr_daemons r1) (daemonMapKey (ao_UserID owner) (TrimSpace daemonID)) = Some live"
      "trustedFingerprint (ld_trusted live) (ao_DeviceFingerprint (normOwner owner)) \<noteq> []" for live
    using that trustedFingerprint_get [OF daemon_found(3) [OF inv that(1)]] by simp
  show ?thesis
    unfolding requestRelayTunnel_begin_def Let_def split_def r1_def [symmetric]
    using trust
    by (auto simp: assms inv inv2 not_le allow_record_small
        intro!: conn_inv_install split: option.split prod.split)
qed

section \<open>Rendezvous attempts and direct sessions\<close>

lemma conn_inv_addRendezvous:
  assumes inv: "conn_inv r" and ptr: "rv_ptr a = cr_nextPtr r"
    and ok: "linked (rv_key a) (rv_appOwner a) (rv_daemonOwner a) (rv_daemonDeviceID a) (rv_id a)"
    and live: "serving (cr_daemons r) (rv_appOwner a) (rv_daemonDeviceID a) (rv_daemonOwner a)
      (rv_daemonPeer a)"
  shows "conn_inv (r\<lparr>cr_rendezvous := gm_put (rv_key a) a (cr_rendezvous r),
    cr_nextPtr := Suc (cr_nextPtr r)\<rparr>)"
proof -
  have "gm_all (attempt_ok (Suc (cr_nextPtr r))) (cr_attempts r)"
    "gm_all (rendezvous_ok (Suc (cr_nextPtr r))) (cr_rendezvous r)"
    using conn_inv_rows(3,4) [OF inv]
    by (auto simp: attempt_ok_def rendezvous_ok_def elim!: gm_all_mono)
  then show ?thesis
    using inv ok ptr live by (auto simp: conn_inv_defs rendezvous_ok_def intro!: gm_all_put)
qed

lemma conn_inv_open_begin:
  assumes "conn_inv r"
  shows "conn_inv (snd (openRendezvous_begin clk owner peer daemonID attemptID requestID pub priv ttl r))"
proof -
  define r1 where "r1 = sweepExpiredRendezvousLocked (clk 0) r"
  define r2 where "r2 = snd (allowRendezvousRequestLocked (ao_UserID owner) (clk 1) r1)"
  define r3 where "r3 = recordRendezvousRequestLocked (ao_UserID owner) (clk 1) r2"
  have inv1: "conn_inv r1" unfolding r1_def by (rule conn_inv_sweepRendezvous [OF assms])
  have inv2: "conn_inv r2" unfolding r2_def by (rule conn_inv_allowRendezvous [OF inv1])
  have inv3: "conn_inv r3" if "fst (allowRendezvousRequestLocked (ao_UserID owner) (clk 1) r1)"
    unfolding r3_def recordRendezvousRequestLocked_def
    using conn_inv_rates(2) [OF inv2 rate_ok_record [OF conn_inv_rows(7) [OF inv2]]]
      allow_record_small' [OF that] by (simp add: r2_def)
  have same: "cr_daemons (snd (removeRendezvousLocked q r3)) = cr_daemons r1" for q
    by (simp add: removeRendezvousLocked_def r3_def r2_def recordRendezvousRequestLocked_def)
  have added: "conn_inv (r4\<lparr>cr_rendezvous := gm_put (tunnelAttemptKey (normOwner owner)
        (TrimSpace daemonID) (TrimSpace attemptID))
      \<lparr>rv_ptr = cr_nextPtr r4,
       rv_key = tunnelAttemptKey (normOwner owner) (TrimSpace daemonID) (TrimSpace attemptID),
       rv_id = TrimSpace attemptID, rv_appOwner = normOwner owner, rv_appPeer = peer,
       rv_daemonOwner = ld_owner live, rv_daemonDeviceID = di_DeviceID (ld_info live),
       rv_daemonFingerprint = di_DaemonFingerprint (ld_info live), rv_daemonPeer = ld_peer live,
       rv_expiresAt = e\<rparr> (cr_rendezvous r4), cr_nextPtr := Suc (cr_nextPtr r4)\<rparr>)"
    if r4: "r4 = snd (removeRendezvousLocked q r3)"
      and allowed: "fst (allowRendezvousRequestLocked (ao_UserID owner) (clk 1) r1)"
      and found: "gm_get (cr_daemons r1) (daemonMapKey (ao_UserID owner) (TrimSpace daemonID)) = Some live"
      and trust: "trustedFingerprint (ld_trusted live) (ao_DeviceFingerprint (normOwner owner)) \<noteq> []"
    for r4 q live e
  proof -
    note f = daemon_found [OF inv1 found]
    have "conn_inv r4" unfolding r4 by (rule conn_inv_removeRendezvous [OF inv3 [OF allowed]])
    note add = conn_inv_addRendezvous [OF this, where a = "\<lparr>rv_ptr = cr_nextPtr r4,
       rv_key = tunnelAttemptKey (normOwner owner) (TrimSpace daemonID) (TrimSpace attemptID),
       rv_id = TrimSpace attemptID, rv_appOwner = normOwner owner, rv_appPeer = peer,
       rv_daemonOwner = ld_owner live, rv_daemonDeviceID = di_DeviceID (ld_info live),
       rv_daemonFingerprint = di_DaemonFingerprint (ld_info live), rv_daemonPeer = ld_peer live,
       rv_expiresAt = e\<rparr>"]
    show ?thesis
      using add f found trust trustedFingerprint_get [OF f(3)]
      by (simp add: linked_def serving_def r4 same)
  qed
  show ?thesis
    unfolding openRendezvous_begin_def Let_def split_def r1_def [symmetric] normOwner_UserID
      r2_def [symmetric] r3_def [symmetric]
    by (auto simp: assms inv1 inv2 intro!: added split: option.split)
qed

lemma conn_inv_ForwardHint:
  "conn_inv r \<Longrightarrow> conn_inv (snd (snd (ForwardRendezvousHintFromDaemon ok clk owner deviceID peer
     attemptID requestID fp pub priv r)))"
  by (auto simp: ForwardRendezvousHintFromDaemon_def Let_def conn_inv_sweepRendezvous split: option.split)

lemma conn_inv_CloseRendezvousApp:
  "conn_inv r \<Longrightarrow> conn_inv (snd (snd (CloseRendezvousFromApp ok owner peer daemonID attemptID r)))"
  by (simp add: CloseRendezvousFromApp_def Let_def split_def conn_inv_removeRendezvous)

lemma conn_inv_CloseRendezvousDaemon:
  "conn_inv r \<Longrightarrow> conn_inv (snd (snd (CloseRendezvousFromDaemon ok owner deviceID peer attemptID fp r)))"
  by (auto simp: CloseRendezvousFromDaemon_def Let_def intro: conn_inv_rendezvous split: option.split)

lemma conn_inv_CloseDirect:
  "conn_inv r \<Longrightarrow> conn_inv (snd (CloseDirectSessionFromDaemon owner deviceID peer attemptID fp r))"
  by (auto simp: CloseDirectSessionFromDaemon_def Let_def conn_inv_wfs conn_inv_rows
      intro!: conn_inv_direct split: option.split)

lemma find_in: "find p xs = Some x \<Longrightarrow> x \<in> set xs \<and> p x"
  by (induction xs) (auto split: if_splits)

lemma conn_inv_OpenDirect:
  assumes "conn_inv r"
  shows "conn_inv (snd (OpenDirectSessionFromDaemon clk owner deviceID peer attemptID fp r))"
proof -
  define r1 where "r1 = sweepExpiredRendezvousLocked (clk 0) r"
  have inv: "conn_inv r1" unfolding r1_def by (rule conn_inv_sweepRendezvous [OF assms])
  have added: "conn_inv (r1\<lparr>cr_rendezvous := gm_del key (cr_rendezvous r1),
      cr_activeDirect := gm_put (tunnelAttemptKey (rv_appOwner a) (TrimSpace deviceID) (TrimSpace attemptID))
       \<lparr>dr_key = tunnelAttemptKey (rv_appOwner a) (TrimSpace deviceID) (TrimSpace attemptID),
        dr_id = TrimSpace attemptID, dr_appOwner = rv_appOwner a,
        dr_daemonOwner = rv_daemonOwner a, dr_daemonDeviceID = rv_daemonDeviceID a,
        dr_daemonFingerprint = rv_daemonFingerprint a, dr_daemonPeer = peer,
        dr_androidFingerprint = ao_DeviceFingerprint (rv_appOwner a)\<rparr> (cr_activeDirect r1)\<rparr>)"
    if "find (\<lambda>(_, a). rendezvousMatch owner (TrimSpace deviceID) peer (TrimSpace attemptID)
          (normalizeFingerprint fp) a) (cr_rendezvous r1) = Some (key, a)" for key a
  proof -
    from find_in [OF that] have a: "(key, a) \<in> set (cr_rendezvous r1)"
      "rendezvousMatch owner (TrimSpace deviceID) peer (TrimSpace attemptID) (normalizeFingerprint fp) a"
      by auto
    then have "linked key (rv_appOwner a) (rv_daemonOwner a) (rv_daemonDeviceID a) (rv_id a)"
      using conn_inv_rows(4) [OF inv] by (auto simp: gm_all_iff rendezvous_ok_def)
    then show ?thesis
      using a inv conn_inv_rows(5) [OF inv] conn_inv_wfs [OF inv]
      by (intro conn_inv_direct conn_inv_rendezvous gm_all_put)
        (simp_all add: direct_ok_def rendezvousMatch_def linked_def)
  qed
  show ?thesis
    unfolding OpenDirectSessionFromDaemon_def Let_def r1_def [symmetric]
    by (auto simp: assms inv intro!: added split: option.split)
qed

end
