(* ===== verification/Conn_Steps3.thy ===== *)
theory Conn_Steps3
  imports Conn_Steps2
begin

text \<open>
  The sections that change the daemons, their trust and the pairing correlations keep the
  invariant.
\<close>

section \<open>Changing the daemons\<close>

text \<open>\<open>served_by m r\<close>: the attempts and rendezvous attempts of \<open>r\<close> are served by daemons of \<open>m\<close>.\<close>

definition served_by :: "(string, liveDaemon) gomap \<Rightarrow> connRegistry \<Rightarrow> bool" where
  "served_by m r \<longleftrightarrow> inv_live (r\<lparr>cr_daemons := m\<rparr>)"

lemma served_byI:
  assumes "\<And>k a. (k, a) \<in> set (cr_attempts r) \<Longrightarrow>
      serving m (tu_appOwner a) (tu_daemonDeviceID a) (tu_daemonOwner a) (tu_daemonPeer a)"
    "\<And>k a. (k, a) \<in> set (cr_rendezvous r) \<Longrightarrow>
      serving m (rv_appOwner a) (rv_daemonDeviceID a) (rv_daemonOwner a) (rv_daemonPeer a)"
  shows "served_by m r"
  using assms by (auto simp: served_by_def inv_live_def gm_all_iff)

lemma conn_inv_daemons:
  "\<lbrakk>conn_inv r; gm_wf m; gm_all daemon_ok m; served_by m r\<rbrakk> \<Longrightarrow> conn_inv (r\<lparr>cr_daemons := m\<rparr>)"
  by (simp add: conn_inv_def inv_wf_def inv_rows_def inv_inflight_def inv_tokens_def attemptsOf_def
      served_by_def)

lemma conn_inv_serving:
  assumes "conn_inv r"
  shows "(k, a) \<in> set (cr_attempts r) \<Longrightarrow>
      serving (cr_daemons r) (tu_appOwner a) (tu_daemonDeviceID a) (tu_daemonOwner a) (tu_daemonPeer a)"
    "(k, b) \<in> set (cr_rendezvous r) \<Longrightarrow>
      serving (cr_daemons r) (rv_appOwner b) (rv_daemonDeviceID b) (rv_daemonOwner b) (rv_daemonPeer b)"
  using assms by (auto simp: conn_inv_def inv_live_def gm_all_iff)

lemma serving_del:
  assumes "serving m owner d down p" "gm_get m key = Some live" "ld_peer live \<noteq> p"
  shows "serving (gm_del key m) owner d down p"
  using assms by (auto simp: serving_def split: option.splits)

lemma serving_put_other:
  assumes "serving m owner d down p" "case gm_get m key of None \<Rightarrow> True | Some live \<Rightarrow> ld_peer live \<noteq> p"
  shows "serving (gm_put key x m) owner d down p"
  using assms by (auto simp: serving_def split: option.splits)

lemma serving_put_trust:
  assumes "serving m owner d down p" "gm_get m key = Some live"
    "p = ld_peer live \<Longrightarrow> gm_get (ld_trusted live) (ao_DeviceFingerprint owner) \<noteq> None \<Longrightarrow>
       gm_get t (ao_DeviceFingerprint owner) \<noteq> None"
  shows "serving (gm_put key (live\<lparr>ld_trusted := t\<rparr>) m) owner d down p"
  using assms by (auto simp: serving_def split: option.splits)

lemma daemonByDevicePeer_found:
  assumes "conn_inv r" "daemonByDevicePeerLocked d p r = Some (key, live)"
  shows "gm_get (cr_daemons r) key = Some live" "di_DeviceID (ld_info live) = d" "ld_peer live = p"
    "daemon_ok key live"
proof -
  have "(key, live) \<in> set (cr_daemons r) \<and> di_DeviceID (ld_info live) = d \<and> ld_peer live = p"
    using assms(2) by (auto simp: daemonByDevicePeerLocked_def dest: find_in)
  then show "gm_get (cr_daemons r) key = Some live" "di_DeviceID (ld_info live) = d" "ld_peer live = p"
    "daemon_ok key live"
    using conn_inv_wfs(2) [OF assms(1)] conn_inv_rows(2) [OF assms(1)]
    by (auto simp: gm_all_iff intro: gm_in_get)
qed

lemma trusted_ok_del [simp]: "trusted_ok m \<Longrightarrow> trusted_ok (gm_del fp m)"
  by (simp add: trusted_ok_def gm_all_del)

lemma trusted_ok_put [simp]:
  "trusted_ok m \<Longrightarrow> ta_Fingerprint t = fp \<Longrightarrow> fp \<noteq> [] \<Longrightarrow> normalizeFingerprint fp = fp
    \<Longrightarrow> trusted_ok (gm_put fp t m)"
  by (simp add: trusted_ok_def gm_all_put)

lemma trusted_ok_slice [simp]: "trusted_ok (trustedMapFromSlice ts)"
proof -
  have "trusted_ok (fold (\<lambda>device out.
        let device = device\<lparr>ta_Fingerprint := normalizeFingerprint (ta_Fingerprint device)\<rparr>
        in if ta_Fingerprint device = [] then out
           else gm_put (ta_Fingerprint device) device out) ts m)" if "trusted_ok m" for m
    using that by (induction ts arbitrary: m) (auto simp: Let_def)
  moreover have "trusted_ok []" by (simp add: trusted_ok_def)
  ultimately show ?thesis unfolding trustedMapFromSlice_def by blast
qed

lemma daemon_ok_trust:
  "daemon_ok key live \<Longrightarrow> trusted_ok t \<Longrightarrow> daemon_ok key (live\<lparr>ld_trusted := t\<rparr>)"
  by (simp add: daemon_ok_def)

section \<open>Pairing and trust\<close>

lemma conn_inv_CompletePairing:
  assumes "conn_inv r"
  shows "conn_inv (snd (snd (CompletePairing d p t r)))"
proof -
  have "conn_inv (r\<lparr>cr_daemons := gm_put key (live\<lparr>ld_trusted := gm_put fp x (ld_trusted live)\<rparr>)
      (cr_daemons r)\<rparr>)"
    if "daemonByDevicePeerLocked d p r = Some (key, live)" "ta_Fingerprint x = fp" "fp \<noteq> []"
      "normalizeFingerprint fp = fp" for key live fp x
  proof -
    note f = daemonByDevicePeer_found [OF assms that(1)]
    have "daemon_ok key (live\<lparr>ld_trusted := gm_put fp x (ld_trusted live)\<rparr>)"
      using f(4) that by (simp add: daemon_ok_def)
    then show ?thesis
      using assms f(1)
      by (intro conn_inv_daemons served_byI)
        (auto simp: conn_inv_wfs conn_inv_rows intro!: serving_put_trust dest: conn_inv_serving)
  qed
  then show ?thesis
    by (auto simp: CompletePairing_def Let_def assms split: option.split)
qed

lemma conn_inv_Revoke:
  assumes "conn_inv r"
  shows "conn_inv (snd (snd (RevokeTrustedAndroid ok d p fp0 r)))"
proof (cases "daemonByDevicePeerLocked d p r")
  case None
  then show ?thesis by (simp add: RevokeTrustedAndroid_def assms)
next
  case (Some e)
  obtain key live where e: "e = (key, live)" by (cases e)
  define fp where "fp = normalizeFingerprint fp0"
  note f = daemonByDevicePeer_found [OF assms Some [unfolded e]]
  define r' where "r' = prune (\<lambda>a. tu_daemonPeer a = p \<and> ao_DeviceFingerprint (tu_appOwner a) = fp)
    (\<lambda>a. rv_daemonPeer a = p \<and> ao_DeviceFingerprint (rv_appOwner a) = fp)
    (\<lambda>s. dr_daemonPeer s = p \<and> dr_androidFingerprint s = fp) r"
  define m where "m = gm_put key (live\<lparr>ld_trusted := gm_del fp (ld_trusted live)\<rparr>) (cr_daemons r)"
  have same: "cr_daemons r' = cr_daemons r" by (simp add: r'_def prune_def)
  have inv': "conn_inv r'" unfolding r'_def by (rule conn_inv_prune [OF assms])
  have "daemon_ok key (live\<lparr>ld_trusted := gm_del fp (ld_trusted live)\<rparr>)"
    using f(4) by (simp add: daemon_ok_def)
  then have ok: "gm_wf m" "gm_all daemon_ok m"
    using assms by (auto simp: m_def conn_inv_wfs conn_inv_rows)
  have "tu_daemonPeer a = p \<Longrightarrow> ao_DeviceFingerprint (tu_appOwner a) \<noteq> fp"
    if "(k, a) \<in> set (cr_attempts r')" for k a
    using that dropped_attempt [OF assms] by (auto simp: r'_def prune_def)
  moreover have "rv_daemonPeer a = p \<Longrightarrow> ao_DeviceFingerprint (rv_appOwner a) \<noteq> fp"
    if "(k, a) \<in> set (cr_rendezvous r')" for k a
    using that by (auto simp: r'_def prune_def set_gm_drop)
  ultimately have "served_by m r'"
    using f conn_inv_serving [OF inv']
    by (intro served_byI) (auto simp: m_def same intro!: serving_put_trust)
  then have "conn_inv (r'\<lparr>cr_daemons := m\<rparr>)" by (rule conn_inv_daemons [OF inv' ok])
  moreover have "snd (snd (RevokeTrustedAndroid ok d p fp0 r)) = r'\<lparr>cr_daemons := m\<rparr>"
    by (rule connRegistry.equality)
      (simp_all add: RevokeTrustedAndroid_def Let_def split_def Some e r'_def prune_def m_def fp_def
        remove_eqs)
  ultimately show ?thesis by simp
qed

lemma conn_inv_Reserve:
  "conn_inv r \<Longrightarrow> conn_inv (snd (ReservePairing clk d owner p c ttl r))"
  by (auto simp: ReservePairing_def Let_def conn_inv_wfs conn_inv_sweepCorrelations
      intro!: conn_inv_correlations split: option.split)

lemma conn_inv_forward_begin:
  "conn_inv r \<Longrightarrow> conn_inv (snd (forwardPairing_begin clk u ap owner c r))"
  by (auto simp: forwardPairing_begin_def Let_def conn_inv_wfs
      intro!: conn_inv_correlations split: option.split)

lemma conn_inv_forward_finish:
  "conn_inv r \<Longrightarrow> conn_inv (forwardPairing_finish u k p r)"
  by (auto simp: forwardPairing_finish_def conn_inv_wfs
      intro!: conn_inv_correlations split: option.split)

section \<open>Removing daemons\<close>

lemma conn_inv_dropDaemon:
  assumes inv: "conn_inv r" and found: "gm_get (cr_daemons r) key = Some live" "ld_peer live = p"
  shows "conn_inv (snd (snd (dropDaemonLocked key p r)))"
proof -
  define r' where "r' = prune (\<lambda>a. tu_daemonPeer a = p) (\<lambda>a. rv_daemonPeer a = p) (\<lambda>_. False)
    (removeCorrelationsForDaemonLocked key p r)"
  have fields: "cr_daemons r' = cr_daemons r"
    "cr_attempts r' = dropAttempts (gm_vals (\<lambda>a. tu_daemonPeer a = p) (cr_attempts r)) (cr_attempts r)"
    "cr_rendezvous r' = gm_drop (\<lambda>a. rv_daemonPeer a = p) (cr_rendezvous r)"
    by (simp_all add: r'_def prune_def removeCorrelationsForDaemonLocked_def)
  have inv': "conn_inv r'"
    unfolding r'_def removeCorrelationsForDaemonLocked_def
    using inv by (intro conn_inv_prune conn_inv_correlations) (auto simp: conn_inv_wfs)
  have "tu_daemonPeer a \<noteq> p" if "(k, a) \<in> set (cr_attempts r')" for k a
    using that dropped_attempt [OF inv] by (auto simp: fields)
  moreover have "rv_daemonPeer a \<noteq> p" if "(k, a) \<in> set (cr_rendezvous r')" for k a
    using that by (auto simp: fields set_gm_drop)
  ultimately have "served_by (gm_del key (cr_daemons r)) r'"
    using found conn_inv_serving [OF inv'] unfolding fields(1)
    by (intro served_byI) (metis serving_del)+
  then have "conn_inv (r'\<lparr>cr_daemons := gm_del key (cr_daemons r)\<rparr>)"
    using inv by (intro conn_inv_daemons [OF inv']) (auto simp: conn_inv_wfs conn_inv_rows)
  moreover have "snd (snd (dropDaemonLocked key p r)) = r'\<lparr>cr_daemons := gm_del key (cr_daemons r)\<rparr>"
    by (rule connRegistry.equality)
      (simp_all add: dropDaemonLocked_def Let_def split_def remove_eqs r'_def prune_def gm_drop_def)
  ultimately show ?thesis by simp
qed

lemma conn_inv_DisconnectDaemon:
  assumes "conn_inv r"
  shows "conn_inv (snd (snd (DisconnectDaemon ok d p r)))"
  using daemonByDevicePeer_found [OF assms]
  by (auto simp: DisconnectDaemon_def Let_def split_def assms intro: conn_inv_dropDaemon
      split: option.split)

lemma dropDaemonsLocked_eq:
  "snd (snd (dropDaemonsLocked ds r)) =
     r\<lparr>cr_daemons := filter (\<lambda>e. fst e \<notin> fst ` set ds) (cr_daemons r),
       cr_correlations := filter (\<lambda>e. (pc_deviceID (snd e), pc_peer (snd e))
         \<notin> (\<lambda>d. (fst d, ld_peer (snd d))) ` set ds) (cr_correlations r),
       cr_rendezvous := gm_drop (\<lambda>a. rv_daemonPeer a \<in> (ld_peer \<circ> snd) ` set ds) (cr_rendezvous r),
       cr_activeDirect := gm_drop (\<lambda>s. dr_daemonPeer s \<in> (ld_peer \<circ> snd) ` set ds) (cr_activeDirect r)\<rparr>"
proof (induction ds arbitrary: r)
  case Nil
  show ?case by (rule connRegistry.equality) (simp_all add: gm_drop_def)
next
  case (Cons d ds)
  show ?case
    by (cases d, rule connRegistry.equality)
      (auto simp: Let_def split_def Cons removeCorrelationsForDaemonLocked_def
        removeRendezvousLocked_def removeActiveDirectLocked_def gm_drop_def gm_del_def
        intro!: filter_cong)
qed

lemma dropDaemonsLocked_peers: "fst (snd (dropDaemonsLocked ds r)) = map (ld_peer \<circ> snd) ds"
proof (induction ds arbitrary: r)
  case (Cons d ds)
  show ?case by (cases d) (simp add: Let_def split_def Cons)
qed simp

text \<open>
  The bulk removals: daemons of a class of owners go, then every attempt of an owner of that class.
\<close>

lemma conn_inv_dropDaemons:
  assumes inv: "conn_inv r"
    and ds: "ds = filter (\<lambda>(_, live). c (ld_owner live)) (cr_daemons r)"
    and rv: "\<And>a. c (rv_daemonOwner a) \<Longrightarrow> q a"
    and tu: "\<And>a. c (tu_daemonOwner a) \<Longrightarrow> t a"
  shows "conn_inv (snd (removeTunnelAttemptsLocked t (snd (removeActiveDirectLocked d
    (snd (removeRendezvousLocked q (snd (snd (dropDaemonsLocked ds r)))))))))"
    (is "conn_inv ?r")
proof -
  define m where "m = filter (\<lambda>e. fst e \<notin> fst ` set ds) (cr_daemons r)"
  define P where "P = (\<lambda>p. p \<in> (ld_peer \<circ> snd) ` set ds)"
  define r' where "r' = prune t (\<lambda>a. P (rv_daemonPeer a) \<or> q a) (\<lambda>s. P (dr_daemonPeer s) \<or> d s)
    (r\<lparr>cr_correlations := filter (\<lambda>e. (pc_deviceID (snd e), pc_peer (snd e))
         \<notin> (\<lambda>d. (fst d, ld_peer (snd d))) ` set ds) (cr_correlations r)\<rparr>)"
  have fields: "cr_daemons r' = cr_daemons r"
    "cr_attempts r' = dropAttempts (gm_vals t (cr_attempts r)) (cr_attempts r)"
    "cr_rendezvous r' = gm_drop (\<lambda>a. P (rv_daemonPeer a) \<or> q a) (cr_rendezvous r)"
    by (simp_all add: r'_def prune_def)
  have inv': "conn_inv r'"
    unfolding r'_def using inv
    by (intro conn_inv_prune conn_inv_correlations)
      (auto simp: conn_inv_def inv_wf_def gm_wf_def intro: distinct_map_filter)
  have kept: "serving m owner dev down p"
    if s: "serving (cr_daemons r) owner dev down p" and "\<not> c down" for owner dev down p
  proof -
    obtain live where live: "gm_get (cr_daemons r) (daemonMapKey (ao_UserID owner) dev) = Some live"
      "ld_peer live = p" "ld_owner live = down" "gm_get (ld_trusted live) (ao_DeviceFingerprint owner) \<noteq> None"
      using s by (auto simp: serving_def split: option.splits)
    have "(daemonMapKey (ao_UserID owner) dev, live) \<in> set m"
      using live \<open>\<not> c down\<close> gm_in_get [OF conn_inv_wfs(2) [OF inv]]
      by (fastforce simp: m_def ds dest: gm_get_in)
    moreover have "gm_wf m"
      using conn_inv_wfs(2) [OF inv] by (auto simp: m_def gm_wf_def intro: distinct_map_filter)
    ultimately show ?thesis using live by (simp add: serving_def gm_in_get)
  qed
  have "\<not> t a" if "(k, a) \<in> set (cr_attempts r')" for k a
    using that dropped_attempt [OF inv] by (auto simp: fields)
  moreover have "\<not> q a" if "(k, a) \<in> set (cr_rendezvous r')" for k a
    using that by (auto simp: fields set_gm_drop)
  ultimately have "served_by m r'"
    using conn_inv_serving [OF inv'] rv tu unfolding fields(1)
    by (intro served_byI kept) blast+
  then have "conn_inv (r'\<lparr>cr_daemons := m\<rparr>)"
    using inv by (intro conn_inv_daemons [OF inv'])
      (auto simp: m_def conn_inv_def inv_wf_def inv_rows_def gm_wf_def gm_all_iff
        intro: distinct_map_filter)
  moreover have "?r = r'\<lparr>cr_daemons := m\<rparr>"
    by (rule connRegistry.equality)
      (simp_all add: dropDaemonsLocked_eq remove_eqs r'_def prune_def m_def gm_drop_def P_def)
  ultimately show ?thesis by simp
qed

lemma conn_inv_DisconnectAgentToken:
  "conn_inv r \<Longrightarrow> conn_inv (snd (snd (DisconnectAgentToken ok tok r)))"
  unfolding DisconnectAgentToken_def Let_def split_def snd_conv
  by (rule conn_inv_dropDaemons [where c = "\<lambda>o'. do_AgentTokenID o' = tok"])
    (simp_all add: split_def)

lemma conn_inv_DisconnectUser:
  "conn_inv r \<Longrightarrow> conn_inv (snd (snd (DisconnectUser ok clk u r)))"
  unfolding DisconnectUser_def Let_def split_def snd_conv
  by (rule conn_inv_dropDaemons [where c = "\<lambda>o'. do_UserID o' = u"])
    (auto simp: split_def conn_inv_wfs conn_inv_rows intro!: conn_inv_apps)

section \<open>Registering a daemon\<close>

definition reconciles :: "connRegistry \<Rightarrow> connRegistry \<Rightarrow> bool" where
  "reconciles r r' \<longleftrightarrow> (\<exists>m. r' = r\<lparr>cr_activeDirect := m\<rparr> \<and> gm_wf m \<and> gm_all direct_ok m)"

lemma reconcilesI: "gm_wf m \<Longrightarrow> gm_all direct_ok m \<Longrightarrow> reconciles r (r\<lparr>cr_activeDirect := m\<rparr>)"
  by (auto simp: reconciles_def)

lemma reconcileReport_ok:
  assumes "reconciles r (snd (snd st))"
  shows "reconciles r (snd (snd (reconcileReport owner info trusted peer session st)))"
proof -
  obtain keys ns r1 where st: "st = (keys, ns, r1)" by (cases st)
  from assms obtain m where m: "r1 = r\<lparr>cr_activeDirect := m\<rparr>" "gm_wf m" "gm_all direct_ok m"
    by (auto simp: reconciles_def st)
  have "reconciles r (r1\<lparr>cr_activeDirect := gm_put key
      (s\<lparr>dr_daemonPeer := peer, dr_daemonFingerprint := fp\<rparr>) (cr_activeDirect r1)\<rparr>)"
    if "find P (cr_activeDirect r1) = Some (key, s)" for P key s fp
  proof -
    have "direct_ok key s" using find_in [OF that] m by (auto simp: gm_all_iff)
    then have "direct_ok key (s\<lparr>dr_daemonPeer := peer, dr_daemonFingerprint := fp\<rparr>)"
      by (simp add: direct_ok_def)
    then show ?thesis using m by (auto simp: reconciles_def intro!: exI gm_all_put)
  qed
  then show ?thesis
    using assms by (auto simp: reconcileReport_def st Let_def split: option.split)
qed

lemma reconciles_fold:
  "reconciles r (snd (snd st)) \<Longrightarrow>
     reconciles r (snd (snd (fold (reconcileReport owner info trusted peer) reported st)))"
  by (induction reported arbitrary: st) (simp_all add: reconcileReport_ok)

lemma reconcile_ok:
  assumes "gm_wf (cr_activeDirect r)" "gm_all direct_ok (cr_activeDirect r)"
  shows "reconciles r (snd (reconcileDirectSessionsLocked owner info trusted reported peer r))"
proof -
  have "reconciles r (snd (snd ({} :: string set, [] :: rendezvousCloseNotification list, r)))"
    using assms by (auto simp: reconciles_def intro!: exI [of _ "cr_activeDirect r"])
  from reconciles_fold [OF this, of owner info trusted peer reported]
  obtain m where m: "snd (snd (fold (reconcileReport owner info trusted peer) reported ({}, [], r)))
      = r\<lparr>cr_activeDirect := m\<rparr>" "gm_wf m" "gm_all direct_ok m"
    unfolding reconciles_def by blast
  then show ?thesis
    by (simp add: reconcileDirectSessionsLocked_def split_def Let_def reconcilesI gm_all_drop)
qed

lemma conn_inv_reconcile:
  assumes "conn_inv r"
  shows "conn_inv (snd (reconcileDirectSessionsLocked owner info trusted reported peer r))"
proof -
  obtain m where "snd (reconcileDirectSessionsLocked owner info trusted reported peer r)
      = r\<lparr>cr_activeDirect := m\<rparr>" "gm_wf m" "gm_all direct_ok m"
    using reconcile_ok [OF conn_inv_wfs(5) [OF assms] conn_inv_rows(5) [OF assms]]
    unfolding reconciles_def by blast
  then show ?thesis using assms by (simp add: conn_inv_direct)
qed

text \<open>
  The registration of a daemon over a connection that does not serve the same key already: what a
  handler does once per connection.
\<close>

definition freshDaemonPeer :: "peer \<Rightarrow> connRegistry \<Rightarrow> bool" where
  "freshDaemonPeer p r \<longleftrightarrow> list_all (\<lambda>e. ld_peer (snd e) \<noteq> p) (cr_daemons r)"

lemma conn_inv_putDaemon:
  assumes "conn_inv r" "gm_get (cr_daemons r) key = None" "daemon_ok key live"
  shows "conn_inv (r\<lparr>cr_daemons := gm_put key live (cr_daemons r)\<rparr>)"
  using assms conn_inv_serving [OF assms(1)]
  by (intro conn_inv_daemons served_byI)
    (auto simp: conn_inv_wfs conn_inv_rows intro!: serving_put_other)

lemma conn_inv_RegisterDaemon:
  assumes inv: "conn_inv r" and fresh: "freshDaemonPeer peer r"
  shows "conn_inv (snd (snd (RegisterDaemonIfValidWithDirectSessions ok clk owner info trusted
    directSessions peer sv r)))"
proof -
  define key where "key = daemonMapKey (do_UserID owner) (TrimSpace (di_DeviceID info))"
  define live where "live = \<lparr>ld_info = info\<lparr>di_DeviceID := TrimSpace (di_DeviceID info),
      di_DaemonFingerprint := normalizeFingerprint (di_DaemonFingerprint info)\<rparr>,
    ld_owner = owner, ld_peer = peer, ld_trusted = trustedMapFromSlice trusted,
    ld_connectedAt = clk 0\<rparr>"
  have ok: "daemon_ok key live" by (simp add: daemon_ok_def live_def key_def)
  have put: "conn_inv (r1\<lparr>cr_daemons := gm_put key live (cr_daemons r1)\<rparr>)"
    if "conn_inv r1" "gm_get (cr_daemons r1) key = None" for r1
    by (rule conn_inv_putDaemon [OF that ok])
  have gone: "gm_get (cr_daemons (snd (snd (dropDaemonLocked key p r)))) key = None" for p
    by (simp add: dropDaemonLocked_def Let_def split_def remove_eqs)
  have "ld_peer old \<noteq> peer" if "gm_get (cr_daemons r) key = Some old" for old
    using fresh gm_get_in [OF that] by (auto simp: freshDaemonPeer_def list_all_iff)
  then show ?thesis
    using put [OF inv] put [OF conn_inv_dropDaemon [OF inv] gone]
    by (auto simp: RegisterDaemonIfValidWithDirectSessions_def Let_def split_def inv
        key_def [symmetric] live_def [symmetric] intro!: conn_inv_reconcile split: option.split)
qed

end
