(* ===== verification/Conn_Footprint.thy ===== *)
theory Conn_Footprint
  imports Conn_Steps3
begin

text \<open>
  What the sections of the connectivity registry can bring in. The app sessions and agent tokens
  a state mentions and the tunnel tokens it accepts come from the state before, except for the
  session of a registering app and the agent token of a registering daemon, which are not revoked,
  and for the tokens drawn by the section. Revocations are never taken back.
\<close>

section \<open>Footprints\<close>

definition appSessions :: "connRegistry \<Rightarrow> string set" where
  "appSessions r =
     (\<lambda>e. ao_AppSessionID (la_owner (snd e))) ` set (cr_apps r) \<union>
     (\<lambda>e. ao_AppSessionID (tu_appOwner (snd e))) ` set (cr_attempts r) \<union>
     (\<lambda>e. ao_AppSessionID (rv_appOwner (snd e))) ` set (cr_rendezvous r) \<union>
     (\<lambda>e. ao_AppSessionID (dr_appOwner (snd e))) ` set (cr_activeDirect r)"

definition agentTokens :: "connRegistry \<Rightarrow> string set" where
  "agentTokens r =
     (\<lambda>e. do_AgentTokenID (ld_owner (snd e))) ` set (cr_daemons r) \<union>
     (\<lambda>e. do_AgentTokenID (tu_daemonOwner (snd e))) ` set (cr_attempts r) \<union>
     (\<lambda>e. do_AgentTokenID (rv_daemonOwner (snd e))) ` set (cr_rendezvous r) \<union>
     (\<lambda>e. do_AgentTokenID (dr_daemonOwner (snd e))) ` set (cr_activeDirect r)"

definition tunnelTokens :: "connRegistry \<Rightarrow> string set" where
  "tunnelTokens r = fst ` set (cr_tokens r)"

definition footprint :: "connRegistry \<Rightarrow> string set \<Rightarrow> connRegistry \<Rightarrow> bool" where
  "footprint r T r' \<longleftrightarrow>
     appSessions r' \<subseteq> appSessions r \<union> {s. TrimSpace s \<notin> cr_revokedApps r} \<and>
     agentTokens r' \<subseteq> agentTokens r \<union> {t. t \<notin> cr_revokedAgents r} \<and>
     tunnelTokens r' \<subseteq> tunnelTokens r \<union> T \<and>
     cr_revokedApps r \<subseteq> cr_revokedApps r' \<and> cr_revokedAgents r \<subseteq> cr_revokedAgents r'"

lemmas footprint_defs = footprint_def appSessions_def agentTokens_def tunnelTokens_def

lemma footprint_refl [simp, intro]: "footprint r T r"
  by (auto simp: footprint_def)

lemma footprint_trans:
  "footprint r T r1 \<Longrightarrow> footprint r1 T' r2 \<Longrightarrow> footprint r (T \<union> T') r2"
  unfolding footprint_def by fast

lemma footprint_trans_same: "footprint r T r1 \<Longrightarrow> footprint r1 T r2 \<Longrightarrow> footprint r T r2"
  using footprint_trans [of r T r1 T r2] by simp

lemma footprint_mono: "footprint r {} r' \<Longrightarrow> footprint r T r'"
  by (auto simp: footprint_def)

lemma footprint_bookkeeping [simp]:
  "footprint r T (r'\<lparr>cr_correlations := a\<rparr>) = footprint r T r'"
  "footprint r T (r'\<lparr>cr_tunnelRequests := b\<rparr>) = footprint r T r'"
  "footprint r T (r'\<lparr>cr_rendezvousReqs := c\<rparr>) = footprint r T r'"
  "footprint r T (r'\<lparr>cr_userAppCutoff := d\<rparr>) = footprint r T r'"
  "footprint r T (r'\<lparr>cr_nextCloserID := e\<rparr>) = footprint r T r'"
  "footprint r T (r'\<lparr>cr_nextPtr := f\<rparr>) = footprint r T r'"
  by (simp_all add: footprint_defs)

lemma footprint_sub:
  assumes "footprint r T r'" "appSessions r'' \<subseteq> appSessions r' \<union> {s. TrimSpace s \<notin> cr_revokedApps r'}"
    "agentTokens r'' \<subseteq> agentTokens r' \<union> {t. t \<notin> cr_revokedAgents r'}"
    "tunnelTokens r'' \<subseteq> tunnelTokens r' \<union> T"
    "cr_revokedApps r' \<subseteq> cr_revokedApps r''" "cr_revokedAgents r' \<subseteq> cr_revokedAgents r''"
  shows "footprint r T r''"
  using assms by (intro footprint_trans_same [OF assms(1)]) (simp add: footprint_def)

lemma footprint_subsets:
  assumes "set (cr_apps r') \<subseteq> set (cr_apps r)" "set (cr_attempts r') \<subseteq> set (cr_attempts r)"
    "set (cr_rendezvous r') \<subseteq> set (cr_rendezvous r)" "set (cr_activeDirect r') \<subseteq> set (cr_activeDirect r)"
    "set (cr_daemons r') \<subseteq> set (cr_daemons r)" "set (cr_tokens r') \<subseteq> set (cr_tokens r)"
    "cr_revokedApps r \<subseteq> cr_revokedApps r'" "cr_revokedAgents r \<subseteq> cr_revokedAgents r'"
  shows "footprint r T r'"
proof -
  have "appSessions r' \<subseteq> appSessions r" "agentTokens r' \<subseteq> agentTokens r" "tunnelTokens r' \<subseteq> tunnelTokens r"
    unfolding appSessions_def agentTokens_def tunnelTokens_def
    by (intro Un_mono image_mono assms)+
  then show ?thesis using assms(7,8) by (auto simp: footprint_def)
qed

lemma footprint_shrink:
  "footprint r T r' \<Longrightarrow> set m \<subseteq> set (cr_apps r') \<Longrightarrow> footprint r T (r'\<lparr>cr_apps := m\<rparr>)"
  "footprint r T r' \<Longrightarrow> set m1 \<subseteq> set (cr_attempts r') \<Longrightarrow> footprint r T (r'\<lparr>cr_attempts := m1\<rparr>)"
  "footprint r T r' \<Longrightarrow> set m2 \<subseteq> set (cr_rendezvous r') \<Longrightarrow> footprint r T (r'\<lparr>cr_rendezvous := m2\<rparr>)"
  "footprint r T r' \<Longrightarrow> set m3 \<subseteq> set (cr_activeDirect r') \<Longrightarrow> footprint r T (r'\<lparr>cr_activeDirect := m3\<rparr>)"
  "footprint r T r' \<Longrightarrow> set m4 \<subseteq> set (cr_daemons r') \<Longrightarrow> footprint r T (r'\<lparr>cr_daemons := m4\<rparr>)"
  "footprint r T r' \<Longrightarrow> set m5 \<subseteq> set (cr_tokens r') \<Longrightarrow> footprint r T (r'\<lparr>cr_tokens := m5\<rparr>)"
  "footprint r T r' \<Longrightarrow> cr_revokedApps r' \<subseteq> A \<Longrightarrow> footprint r T (r'\<lparr>cr_revokedApps := A\<rparr>)"
  "footprint r T r' \<Longrightarrow> cr_revokedAgents r' \<subseteq> B \<Longrightarrow> footprint r T (r'\<lparr>cr_revokedAgents := B\<rparr>)"
  by (erule footprint_trans_same, rule footprint_subsets, simp_all)+

lemma image_gm_put: "f ` set (gm_put k v m) \<subseteq> insert (f (k, v)) (f ` set m)"
  using image_mono [OF set_gm_put [of k v m], of f] by simp

lemma put_unchanged [simp]:
  "tunnelTokens (r\<lparr>cr_attempts := a\<rparr>) = tunnelTokens r"
  "tunnelTokens (r\<lparr>cr_rendezvous := b\<rparr>) = tunnelTokens r"
  "tunnelTokens (r\<lparr>cr_activeDirect := c\<rparr>) = tunnelTokens r"
  "tunnelTokens (r\<lparr>cr_daemons := d\<rparr>) = tunnelTokens r"
  "tunnelTokens (r\<lparr>cr_apps := e\<rparr>) = tunnelTokens r"
  "appSessions (r\<lparr>cr_tokens := f\<rparr>) = appSessions r"
  "agentTokens (r\<lparr>cr_tokens := f\<rparr>) = agentTokens r"
  "appSessions (r\<lparr>cr_daemons := d\<rparr>) = appSessions r"
  "agentTokens (r\<lparr>cr_apps := e\<rparr>) = agentTokens r"
  by (simp_all add: appSessions_def agentTokens_def tunnelTokens_def)

lemma un_put:
  assumes "X' \<subseteq> insert x X"
  shows "X' \<union> B \<union> C \<union> D \<subseteq> insert x (X \<union> B \<union> C \<union> D)"
    "A \<union> X' \<union> C \<union> D \<subseteq> insert x (A \<union> X \<union> C \<union> D)"
    "A \<union> B \<union> X' \<union> D \<subseteq> insert x (A \<union> B \<union> X \<union> D)"
    "A \<union> B \<union> C \<union> X' \<subseteq> insert x (A \<union> B \<union> C \<union> X)"
  using assms by blast+

lemma put_sets:
  "appSessions (r\<lparr>cr_attempts := gm_put k a (cr_attempts r)\<rparr>)
     \<subseteq> insert (ao_AppSessionID (tu_appOwner a)) (appSessions r)"
  "agentTokens (r\<lparr>cr_attempts := gm_put k a (cr_attempts r)\<rparr>)
     \<subseteq> insert (do_AgentTokenID (tu_daemonOwner a)) (agentTokens r)"
  "appSessions (r\<lparr>cr_rendezvous := gm_put k b (cr_rendezvous r)\<rparr>)
     \<subseteq> insert (ao_AppSessionID (rv_appOwner b)) (appSessions r)"
  "agentTokens (r\<lparr>cr_rendezvous := gm_put k b (cr_rendezvous r)\<rparr>)
     \<subseteq> insert (do_AgentTokenID (rv_daemonOwner b)) (agentTokens r)"
  "appSessions (r\<lparr>cr_activeDirect := gm_put k s (cr_activeDirect r)\<rparr>)
     \<subseteq> insert (ao_AppSessionID (dr_appOwner s)) (appSessions r)"
  "agentTokens (r\<lparr>cr_activeDirect := gm_put k s (cr_activeDirect r)\<rparr>)
     \<subseteq> insert (do_AgentTokenID (dr_daemonOwner s)) (agentTokens r)"
  "appSessions (r\<lparr>cr_apps := gm_put p app (cr_apps r)\<rparr>)
     \<subseteq> insert (ao_AppSessionID (la_owner app)) (appSessions r)"
  "agentTokens (r\<lparr>cr_daemons := gm_put k l (cr_daemons r)\<rparr>)
     \<subseteq> insert (do_AgentTokenID (ld_owner l)) (agentTokens r)"
  "tunnelTokens (r\<lparr>cr_tokens := gm_put t x (cr_tokens r)\<rparr>) \<subseteq> insert t (tunnelTokens r)"
proof -
  show "appSessions (r\<lparr>cr_attempts := gm_put k a (cr_attempts r)\<rparr>)
     \<subseteq> insert (ao_AppSessionID (tu_appOwner a)) (appSessions r)"
    using image_gm_put [of "\<lambda>e. ao_AppSessionID (tu_appOwner (snd e))" k a "cr_attempts r"]
    unfolding appSessions_def by (simp add: un_put del: Un_subset_iff le_sup_iff sup.bounded_iff)
  show "agentTokens (r\<lparr>cr_attempts := gm_put k a (cr_attempts r)\<rparr>)
     \<subseteq> insert (do_AgentTokenID (tu_daemonOwner a)) (agentTokens r)"
    using image_gm_put [of "\<lambda>e. do_AgentTokenID (tu_daemonOwner (snd e))" k a "cr_attempts r"]
    unfolding agentTokens_def by (simp add: un_put del: Un_subset_iff le_sup_iff sup.bounded_iff)
  show "appSessions (r\<lparr>cr_rendezvous := gm_put k b (cr_rendezvous r)\<rparr>)
     \<subseteq> insert (ao_AppSessionID (rv_appOwner b)) (appSessions r)"
    using image_gm_put [of "\<lambda>e. ao_AppSessionID (rv_appOwner (snd e))" k b "cr_rendezvous r"]
    unfolding appSessions_def by (simp add: un_put del: Un_subset_iff le_sup_iff sup.bounded_iff)
  show "agentTokens (r\<lparr>cr_rendezvous := gm_put k b (cr_rendezvous r)\<rparr>)
     \<subseteq> insert (do_AgentTokenID (rv_daemonOwner b)) (agentTokens r)"
    using image_gm_put [of "\<lambda>e. do_AgentTokenID (rv_daemonOwner (snd e))" k b "cr_rendezvous r"]
    unfolding agentTokens_def by (simp add: un_put del: Un_subset_iff le_sup_iff sup.bounded_iff)
  show "appSessions (r\<lparr>cr_activeDirect := gm_put k s (cr_activeDirect r)\<rparr>)
     \<subseteq> insert (ao_AppSessionID (dr_appOwner s)) (appSessions r)"
    using image_gm_put [of "\<lambda>e. ao_AppSessionID (dr_appOwner (snd e))" k s "cr_activeDirect r"]
    unfolding appSessions_def by (simp add: un_put del: Un_subset_iff le_sup_iff sup.bounded_iff)
  show "agentTokens (r\<lparr>cr_activeDirect := gm_put k s (cr_activeDirect r)\<rparr>)
     \<subseteq> insert (do_AgentTokenID (dr_daemonOwner s)) (agentTokens r)"
    using image_gm_put [of "\<lambda>e. do_AgentTokenID (dr_daemonOwner (snd e))" k s "cr_activeDirect r"]
    unfolding agentTokens_def by (simp add: un_put del: Un_subset_iff le_sup_iff sup.bounded_iff)
  show "appSessions (r\<lparr>cr_apps := gm_put p app (cr_apps r)\<rparr>)
     \<subseteq> insert (ao_AppSessionID (la_owner app)) (appSessions r)"
    using image_gm_put [of "\<lambda>e. ao_AppSessionID (la_owner (snd e))" p app "cr_apps r"]
    unfolding appSessions_def by (simp add: un_put del: Un_subset_iff le_sup_iff sup.bounded_iff)
  show "agentTokens (r\<lparr>cr_daemons := gm_put k l (cr_daemons r)\<rparr>)
     \<subseteq> insert (do_AgentTokenID (ld_owner l)) (agentTokens r)"
    using image_gm_put [of "\<lambda>e. do_AgentTokenID (ld_owner (snd e))" k l "cr_daemons r"]
    unfolding agentTokens_def by (simp add: un_put del: Un_subset_iff le_sup_iff sup.bounded_iff)
  show "tunnelTokens (r\<lparr>cr_tokens := gm_put t x (cr_tokens r)\<rparr>) \<subseteq> insert t (tunnelTokens r)"
    using image_gm_put [of fst t x "cr_tokens r"] by (simp add: tunnelTokens_def)
qed

lemma footprint_put:
  "footprint r T r' \<Longrightarrow> ao_AppSessionID (tu_appOwner a) \<in> appSessions r' \<Longrightarrow>
     do_AgentTokenID (tu_daemonOwner a) \<in> agentTokens r' \<Longrightarrow>
     footprint r T (r'\<lparr>cr_attempts := gm_put k a (cr_attempts r')\<rparr>)"
  "footprint r T r' \<Longrightarrow> ao_AppSessionID (rv_appOwner b) \<in> appSessions r' \<Longrightarrow>
     do_AgentTokenID (rv_daemonOwner b) \<in> agentTokens r' \<Longrightarrow>
     footprint r T (r'\<lparr>cr_rendezvous := gm_put k b (cr_rendezvous r')\<rparr>)"
  "footprint r T r' \<Longrightarrow> ao_AppSessionID (dr_appOwner s) \<in> appSessions r' \<Longrightarrow>
     do_AgentTokenID (dr_daemonOwner s) \<in> agentTokens r' \<Longrightarrow>
     footprint r T (r'\<lparr>cr_activeDirect := gm_put k s (cr_activeDirect r')\<rparr>)"
  "footprint r T r' \<Longrightarrow> do_AgentTokenID (ld_owner l) \<in> agentTokens r' \<union> {t. t \<notin> cr_revokedAgents r'} \<Longrightarrow>
     footprint r T (r'\<lparr>cr_daemons := gm_put k l (cr_daemons r')\<rparr>)"
  "footprint r T r' \<Longrightarrow> TrimSpace (ao_AppSessionID (la_owner app)) \<notin> cr_revokedApps r' \<Longrightarrow>
     footprint r T (r'\<lparr>cr_apps := gm_put p app (cr_apps r')\<rparr>)"
  "footprint r T r' \<Longrightarrow> t \<in> T \<Longrightarrow> footprint r T (r'\<lparr>cr_tokens := gm_put t x (cr_tokens r')\<rparr>)"
proof -
  show "footprint r T (r'\<lparr>cr_attempts := gm_put k a (cr_attempts r')\<rparr>)"
    if "footprint r T r'" "ao_AppSessionID (tu_appOwner a) \<in> appSessions r'"
      "do_AgentTokenID (tu_daemonOwner a) \<in> agentTokens r'"
    using that(2,3) put_sets(1,2) [where r = r' and k = k and a = a] by (intro footprint_sub [OF that(1)]) auto
  show "footprint r T (r'\<lparr>cr_rendezvous := gm_put k b (cr_rendezvous r')\<rparr>)"
    if "footprint r T r'" "ao_AppSessionID (rv_appOwner b) \<in> appSessions r'"
      "do_AgentTokenID (rv_daemonOwner b) \<in> agentTokens r'"
    using that(2,3) put_sets(3,4) [where r = r' and k = k and b = b] by (intro footprint_sub [OF that(1)]) auto
  show "footprint r T (r'\<lparr>cr_activeDirect := gm_put k s (cr_activeDirect r')\<rparr>)"
    if "footprint r T r'" "ao_AppSessionID (dr_appOwner s) \<in> appSessions r'"
      "do_AgentTokenID (dr_daemonOwner s) \<in> agentTokens r'"
    using that(2,3) put_sets(5,6) [where r = r' and k = k and s = s] by (intro footprint_sub [OF that(1)]) auto
  show "footprint r T (r'\<lparr>cr_daemons := gm_put k l (cr_daemons r')\<rparr>)"
    if "footprint r T r'" "do_AgentTokenID (ld_owner l) \<in> agentTokens r' \<union> {t. t \<notin> cr_revokedAgents r'}"
    using that(2) put_sets(8) [where r = r' and k = k and l = l] by (intro footprint_sub [OF that(1)]) auto
  show "footprint r T (r'\<lparr>cr_apps := gm_put p app (cr_apps r')\<rparr>)"
    if "footprint r T r'" "TrimSpace (ao_AppSessionID (la_owner app)) \<notin> cr_revokedApps r'"
    using that(2) put_sets(7) [where r = r' and p = p and app = app] by (intro footprint_sub [OF that(1)]) auto
  show "footprint r T (r'\<lparr>cr_tokens := gm_put t x (cr_tokens r')\<rparr>)"
    if "footprint r T r'" "t \<in> T"
    using that(2) put_sets(9) [where r = r' and t = t and x = x] by (intro footprint_sub [OF that(1)]) auto
qed

section \<open>Footprints of the helpers\<close>

lemma footprint_removeRendezvous:
  "footprint r T r' \<Longrightarrow> footprint r T (snd (removeRendezvousLocked q r'))"
  by (auto simp: removeRendezvousLocked_def gm_drop_def intro: footprint_shrink)

lemma footprint_removeDirect:
  "footprint r T r' \<Longrightarrow> footprint r T (snd (removeActiveDirectLocked q r'))"
  by (auto simp: removeActiveDirectLocked_def gm_drop_def intro: footprint_shrink)

lemma footprint_drop:
  "footprint r T r' \<Longrightarrow> footprint r T (r'\<lparr>cr_attempts := dropAttempts as (cr_attempts r'),
     cr_tokens := dropTokens as (cr_tokens r')\<rparr>)"
  by (intro footprint_shrink) (auto simp: dropAttempts_def dropTokens_def)

lemma footprint_removeAttempts:
  "footprint r T r' \<Longrightarrow> footprint r T (snd (removeTunnelAttemptsLocked p r'))"
  by (simp add: removeTunnelAttemptsLocked_eq footprint_drop)

lemma footprint_removeAttempt:
  "footprint r T r' \<Longrightarrow> footprint r T (snd (removeTunnelAttemptLocked a r'))"
  by (simp add: removeTunnelAttemptLocked_eq footprint_drop)

lemma footprint_sweepTunnels:
  "footprint r T r' \<Longrightarrow> footprint r T (snd (snd (sweepExpiredTunnelAttemptsLocked t r')))"
  by (simp add: sweepExpiredTunnelAttemptsLocked_def footprint_removeAttempts)

lemma footprint_sweepRendezvous:
  "footprint r T r' \<Longrightarrow> footprint r T (sweepExpiredRendezvousLocked t r')"
  by (auto simp: sweepExpiredRendezvousLocked_def gm_drop_def intro: footprint_shrink)

lemma footprint_rates [simp]:
  "footprint r T (snd (allowRelayTunnelRequestLocked u t r')) = footprint r T r'"
  "footprint r T (snd (allowRendezvousRequestLocked u t r')) = footprint r T r'"
  "footprint r T (recordRelayTunnelRequestLocked u t r') = footprint r T r'"
  "footprint r T (recordRendezvousRequestLocked u t r') = footprint r T r'"
  by (simp_all add: allowRelayTunnelRequestLocked_def allowRendezvousRequestLocked_def
      recordRelayTunnelRequestLocked_def recordRendezvousRequestLocked_def split_def Let_def)

lemmas footprint_intros = footprint_removeRendezvous footprint_removeDirect footprint_removeAttempts
  footprint_removeAttempt footprint_sweepTunnels footprint_sweepRendezvous footprint_shrink

lemma footprint_dropDaemon:
  "footprint r T r' \<Longrightarrow> footprint r T (snd (snd (dropDaemonLocked k p r')))"
  by (auto simp: dropDaemonLocked_def Let_def split_def removeCorrelationsForDaemonLocked_def gm_del_def
      intro!: footprint_intros)

lemma footprint_dropDaemons:
  "footprint r T r' \<Longrightarrow> footprint r T (snd (snd (dropDaemonsLocked ds r')))"
  unfolding dropDaemonsLocked_eq
  by (intro footprint_shrink) (auto simp: gm_drop_def intro: footprint_shrink)

text \<open>Sessions and agent tokens that a state is known to mention.\<close>

lemma appSessions_apps: "(p, app) \<in> set (cr_apps r) \<Longrightarrow> ao_AppSessionID (la_owner app) \<in> appSessions r"
  unfolding appSessions_def by force

lemma agentTokens_daemons: "(k, l) \<in> set (cr_daemons r) \<Longrightarrow> do_AgentTokenID (ld_owner l) \<in> agentTokens r"
  unfolding agentTokens_def by force

lemma mentions_attempts:
  "(k, a) \<in> set (cr_attempts r) \<Longrightarrow> ao_AppSessionID (tu_appOwner a) \<in> appSessions r"
  "(k, a) \<in> set (cr_attempts r) \<Longrightarrow> do_AgentTokenID (tu_daemonOwner a) \<in> agentTokens r"
  unfolding appSessions_def agentTokens_def by force+

lemma mentions_rendezvous:
  "(k, a) \<in> set (cr_rendezvous r) \<Longrightarrow> ao_AppSessionID (rv_appOwner a) \<in> appSessions r"
  "(k, a) \<in> set (cr_rendezvous r) \<Longrightarrow> do_AgentTokenID (rv_daemonOwner a) \<in> agentTokens r"
  unfolding appSessions_def agentTokens_def by force+

lemma mentions_direct:
  "(k, s) \<in> set (cr_activeDirect r) \<Longrightarrow> ao_AppSessionID (dr_appOwner s) \<in> appSessions r"
  "(k, s) \<in> set (cr_activeDirect r) \<Longrightarrow> do_AgentTokenID (dr_daemonOwner s) \<in> agentTokens r"
  unfolding appSessions_def agentTokens_def by force+

section \<open>Footprints of the sections\<close>

lemma footprint_RegisterApp: "footprint r {} (snd (RegisterAppIfValid clk owner p sv r))"
  by (auto simp: RegisterAppIfValid_def Let_def appOwnerRevokedLocked_def intro!: footprint_put
      split: if_splits)

lemma footprint_DisconnectApp: "footprint r {} (snd (snd (DisconnectApp ok p r)))"
  by (auto simp: DisconnectApp_def Let_def split_def gm_del_def intro!: footprint_intros
      split: option.split)

lemma footprint_DisconnectAppSession: "footprint r {} (snd (snd (DisconnectAppSession ok sid r)))"
  by (auto simp: DisconnectAppSession_def Let_def split_def gm_drop_def intro!: footprint_intros)

lemma footprint_DisconnectUser: "footprint r {} (snd (snd (DisconnectUser ok clk u r)))"
  by (auto simp: DisconnectUser_def Let_def split_def gm_drop_def
      intro!: footprint_intros footprint_dropDaemons)

lemma footprint_DisconnectAgentToken: "footprint r {} (snd (snd (DisconnectAgentToken ok tok r)))"
  by (auto simp: DisconnectAgentToken_def Let_def split_def
      intro!: footprint_intros footprint_dropDaemons)

lemma footprint_DisconnectDaemon: "footprint r {} (snd (snd (DisconnectDaemon ok d p r)))"
  by (auto simp: DisconnectDaemon_def Let_def split_def intro!: footprint_dropDaemon
      split: option.split)

lemma footprint_retrust:
  assumes "daemonByDevicePeerLocked d p r = Some (k, live)"
  shows "footprint r T (r\<lparr>cr_daemons := gm_put k (live\<lparr>ld_trusted := t\<rparr>) (cr_daemons r)\<rparr>)"
proof -
  have "(k, live) \<in> set (cr_daemons r)"
    using assms by (auto simp: daemonByDevicePeerLocked_def dest: find_in)
  then show ?thesis by (intro footprint_put) (auto dest: agentTokens_daemons)
qed

lemma footprint_Revoke: "footprint r {} (snd (snd (RevokeTrustedAndroid ok d p fp r)))"
  by (auto simp: RevokeTrustedAndroid_def Let_def split_def
      intro!: footprint_removeRendezvous footprint_removeDirect footprint_removeAttempts
        footprint_retrust split: option.split)

lemma footprint_CompletePairing: "footprint r {} (snd (snd (CompletePairing d p t r)))"
  by (auto simp: CompletePairing_def Let_def split_def intro!: footprint_retrust split: option.split)

lemma footprint_Reserve: "footprint r {} (snd (ReservePairing clk d owner p c ttl r))"
  by (auto simp: ReservePairing_def Let_def sweepExpiredPairCorrelationsLocked_def split: option.split)

lemma footprint_forward_begin: "footprint r {} (snd (forwardPairing_begin clk u ap owner c r))"
  by (auto simp: forwardPairing_begin_def Let_def split: option.split)

lemma footprint_forward_finish: "footprint r {} (forwardPairing_finish u k p r)"
  by (auto simp: forwardPairing_finish_def split: option.split)

lemma footprint_expireRendezvous: "footprint r {} (expireRendezvousLater clk k r)"
  by (auto simp: expireRendezvousLater_def gm_del_def intro!: footprint_shrink split: option.split)

lemma footprint_expireTunnel: "footprint r {} (snd (expireUnpairedRelayTunnelLater clk k r))"
  by (auto simp: expireUnpairedRelayTunnelLater_def Let_def split_def intro!: footprint_removeAttempt
      split: option.split)

lemma footprint_Close: "footprint r {} (snd (snd (CloseRelayTunnel k r)))"
  by (auto simp: CloseRelayTunnel_def Let_def split_def intro!: footprint_removeAttempt
      split: option.split)

lemma footprint_Sweep: "footprint r {} (snd (snd (SweepExpiredRelayTunnelAttempts clk r)))"
  by (simp add: SweepExpiredRelayTunnelAttempts_def Let_def split_def footprint_sweepTunnels)

lemma footprint_request_abort: "footprint r {} (snd (requestRelayTunnel_abort k n r))"
  by (auto simp: requestRelayTunnel_abort_def intro!: footprint_removeAttempt split: option.split)

lemma footprint_open_abort: "footprint r {} (openRendezvous_abort k n r)"
  by (auto simp: openRendezvous_abort_def gm_del_def intro!: footprint_shrink split: option.split)

lemma footprint_touch:
  assumes "gm_get (cr_attempts r) k = Some a" "tu_appOwner a' = tu_appOwner a"
    "tu_daemonOwner a' = tu_daemonOwner a"
  shows "footprint r T (r\<lparr>cr_attempts := gm_put k a' (cr_attempts r)\<rparr>)"
  using assms by (intro footprint_put) (auto dest: gm_get_in intro: mentions_attempts)

lemma footprint_MarkActive: "footprint r {} (snd (MarkRelayTunnelActive k r))"
  by (auto simp: MarkRelayTunnelActive_def Let_def intro!: footprint_touch split: option.split)

lemma footprint_AddCloser: "footprint r {} (snd (snd (AddTunnelCloser k c r)))"
proof -
  have "footprint r {} (r\<lparr>cr_nextCloserID := n, cr_attempts := m\<rparr>) =
      footprint r {} (r\<lparr>cr_attempts := m\<rparr>)" for n m
    by (simp add: footprint_defs)
  then show ?thesis
    by (auto simp: AddTunnelCloser_def Let_def intro!: footprint_touch split: option.split)
qed

lemma footprint_removeCloser: "footprint r {} (removeTunnelCloser k n r)"
  by (auto simp: removeTunnelCloser_def intro!: footprint_touch split: option.split)

lemma footprint_Redeem: "footprint r {} (snd (snd (RedeemRelayTunnelToken clk t r)))"
proof -
  define r1 where "r1 = snd (snd (sweepExpiredTunnelAttemptsLocked (clk 0) r))"
  have r1: "footprint r {} r1" unfolding r1_def by (intro footprint_sweepTunnels) simp
  have "footprint r {} (r1\<lparr>cr_attempts := gm_put k a' (cr_attempts r1), cr_tokens := gm_del x (cr_tokens r1)\<rparr>)"
    if "gm_get (cr_attempts r1) k = Some a" "markRedeemed actor a = Some a'" for k a a' actor x
    using markRedeemed_same(3,4) [OF that(2)] that(1)
    by (intro footprint_trans_same [OF r1] footprint_shrink(6) footprint_touch) (auto simp: gm_del_def)
  then show ?thesis
    unfolding RedeemRelayTunnelToken_def Let_def split_def r1_def [symmetric]
    by (auto simp: r1 gm_del_def intro!: footprint_removeAttempt footprint_shrink(6)
        split: option.split)
qed

lemma footprint_CloseRendezvousApp: "footprint r {} (snd (snd (CloseRendezvousFromApp ok owner p d a r)))"
  by (auto simp: CloseRendezvousFromApp_def Let_def split_def intro!: footprint_removeRendezvous)

lemma footprint_CloseRendezvousDaemon:
  "footprint r {} (snd (snd (CloseRendezvousFromDaemon ok owner d p a fp r)))"
  by (auto simp: CloseRendezvousFromDaemon_def Let_def gm_del_def intro!: footprint_shrink
      split: option.split)

lemma footprint_ForwardHint:
  "footprint r {} (snd (snd (ForwardRendezvousHintFromDaemon ok clk owner d p a q fp pub priv r)))"
  by (auto simp: ForwardRendezvousHintFromDaemon_def Let_def intro!: footprint_sweepRendezvous
      split: option.split)

lemma footprint_CloseDirect: "footprint r {} (snd (CloseDirectSessionFromDaemon owner d p a fp r))"
  by (auto simp: CloseDirectSessionFromDaemon_def Let_def gm_del_def intro!: footprint_shrink
      split: option.split)

section \<open>Sections that add entries\<close>

lemma footprint_RegisterDaemon_put:
  assumes "footprint r T r'" "do_AgentTokenID (ld_owner l) \<notin> cr_revokedAgents r'"
  shows "footprint r T (r'\<lparr>cr_daemons := gm_put k l (cr_daemons r')\<rparr>)"
  using assms by (intro footprint_put) simp_all

lemma footprint_reconcileReport:
  assumes "footprint r T (snd (snd st))"
  shows "footprint r T (snd (snd (reconcileReport owner info trusted p s st)))"
proof -
  obtain keys ns r1 where st: "st = (keys, ns, r1)" by (cases st)
  have "footprint r T (r1\<lparr>cr_activeDirect := gm_put k (c\<lparr>dr_daemonPeer := p, dr_daemonFingerprint := fp\<rparr>)
      (cr_activeDirect r1)\<rparr>)" if "find P (cr_activeDirect r1) = Some (k, c)" for P k c fp
    using assms find_in [OF that]
    by (intro footprint_put) (auto simp: st intro: mentions_direct)
  then show ?thesis
    using assms by (auto simp: st reconcileReport_def Let_def split: option.split)
qed

lemma footprint_reconcile:
  assumes "footprint r T r'"
  shows "footprint r T (snd (reconcileDirectSessionsLocked owner info trusted reported p r'))"
proof -
  have "footprint r T (snd (snd (fold (reconcileReport owner info trusted p) reported st)))"
    if "footprint r T (snd (snd st))" for st
    using that by (induction reported arbitrary: st) (simp_all add: footprint_reconcileReport)
  from this [of "({}, [], r')"] assms show ?thesis
    by (auto simp: reconcileDirectSessionsLocked_def split_def Let_def gm_drop_def
        intro!: footprint_shrink)
qed

lemma revoked_dropDaemon [simp]:
  "cr_revokedAgents (snd (snd (dropDaemonLocked k p r))) = cr_revokedAgents r"
  by (simp add: dropDaemonLocked_def Let_def split_def remove_eqs)

lemma footprint_RegisterDaemon:
  "footprint r {} (snd (snd (RegisterDaemonIfValidWithDirectSessions ok clk owner info trusted ds p sv r)))"
  by (auto simp: RegisterDaemonIfValidWithDirectSessions_def Let_def split_def
      intro!: footprint_reconcile footprint_RegisterDaemon_put footprint_dropDaemon
      split: option.split)

text \<open>A new attempt: its owners are those of a connected app and a registered daemon.\<close>

lemma footprint_newAttempt:
  assumes "footprint r T r'" "ao_AppSessionID (tu_appOwner a) \<in> appSessions r'"
    "do_AgentTokenID (tu_daemonOwner a) \<in> agentTokens r'" "t1 \<in> T" "t2 \<in> T"
  shows "footprint r T (r'\<lparr>cr_attempts := gm_put k a (cr_attempts r'),
    cr_tokens := gm_put t2 x2 (gm_put t1 x1 (cr_tokens r')), cr_nextPtr := n\<rparr>)"
proof -
  define r1 where "r1 = r'\<lparr>cr_attempts := gm_put k a (cr_attempts r')\<rparr>"
  define r2 where "r2 = r1\<lparr>cr_tokens := gm_put t1 x1 (cr_tokens r1)\<rparr>"
  have "footprint r T r1" unfolding r1_def by (rule footprint_put(1) [OF assms(1-3)])
  then have "footprint r T r2" unfolding r2_def by (rule footprint_put(6) [OF _ assms(4)])
  then have "footprint r T (r2\<lparr>cr_tokens := gm_put t2 x2 (cr_tokens r2)\<rparr>)"
    by (rule footprint_put(6) [OF _ assms(5)])
  then show ?thesis by (simp add: r1_def r2_def)
qed

lemma agentTokens_mono:
  "cr_daemons r' = cr_daemons r \<Longrightarrow> gm_get (cr_daemons r) k = Some l \<Longrightarrow>
     do_AgentTokenID (ld_owner l) \<in> agentTokens r'"
  by (auto dest!: gm_get_in intro: agentTokens_daemons)

text \<open>The helpers leave the connected apps and the daemons alone.\<close>

lemma helpers_frame [simp]:
  "cr_apps (snd (removeTunnelAttemptLocked a r)) = cr_apps r"
  "cr_daemons (snd (removeTunnelAttemptLocked a r)) = cr_daemons r"
  "cr_apps (snd (removeTunnelAttemptsLocked p r)) = cr_apps r"
  "cr_daemons (snd (removeTunnelAttemptsLocked p r)) = cr_daemons r"
  "cr_apps (snd (removeRendezvousLocked q r)) = cr_apps r"
  "cr_daemons (snd (removeRendezvousLocked q r)) = cr_daemons r"
  "cr_apps (recordRelayTunnelRequestLocked u t r) = cr_apps r"
  "cr_daemons (recordRelayTunnelRequestLocked u t r) = cr_daemons r"
  "cr_apps (recordRendezvousRequestLocked u t r) = cr_apps r"
  "cr_daemons (recordRendezvousRequestLocked u t r) = cr_daemons r"
  by (simp_all add: remove_eqs recordRelayTunnelRequestLocked_def recordRendezvousRequestLocked_def)

text \<open>\<open>appSessions\<close> of the connected apps alone: what survives the removal of attempts.\<close>

definition connectedSession :: "string \<Rightarrow> connRegistry \<Rightarrow> bool" where
  "connectedSession sid r \<longleftrightarrow> list_ex (\<lambda>(_, app). ao_AppSessionID (la_owner app) = sid) (cr_apps r)"

lemma connectedSession_in: "connectedSession sid r \<Longrightarrow> cr_apps r' = cr_apps r \<Longrightarrow> sid \<in> appSessions r'"
  by (auto simp: connectedSession_def list_ex_iff intro: appSessions_apps)

lemma active_session:
  assumes "appPeerActiveLocked owner p r"
  shows "connectedSession (ao_AppSessionID owner) r"
proof -
  from assms obtain app where "gm_get (cr_apps r) p = Some app"
    "ao_AppSessionID (la_owner app) = ao_AppSessionID owner"
    by (auto simp: appPeerActiveLocked_def sameAppOwner_def split: option.splits)
  then show ?thesis by (auto simp: connectedSession_def list_ex_iff dest!: gm_get_in)
qed

lemma requester_session:
  assumes "tunnelRequesterActive owner p r"
  shows "connectedSession (ao_AppSessionID owner) r"
  using assms active_session
  by (auto simp: tunnelRequesterActive_def appOwnerActiveLocked_def connectedSession_def list_ex_iff
      sameAppOwner_def split: option.splits if_splits)

lemma footprint_install:
  assumes "footprint r T r'" "connectedSession (ao_AppSessionID owner) r'"
    "gm_get (cr_daemons r') k = Some live" "t1 \<in> T" "t2 \<in> T"
  shows "footprint r T (snd (installTunnelAttempt owner d a q reason dl rl ttl now base live t1 t2 r'))"
proof -
  define r1 where "r1 = recordRelayTunnelRequestLocked (ao_UserID owner) now r'"
  define r2 where "r2 = (case gm_get (cr_attempts r1) (tunnelAttemptKey owner d a) of
     None \<Rightarrow> ([], r1) | Some old \<Rightarrow> removeTunnelAttemptLocked old r1)"
  define r3 where "r3 = snd (removeRendezvousLocked (\<lambda>b. sameAppOwner (rv_appOwner b) owner \<and>
     rv_daemonDeviceID b = d \<and> rv_id b = a) (snd r2))"
  have same: "cr_apps r3 = cr_apps r'" "cr_daemons r3 = cr_daemons r'"
    by (simp_all add: r3_def r2_def r1_def split: option.split)
  have "footprint r T (snd r2)"
    using assms(1) by (auto simp: r2_def r1_def intro: footprint_removeAttempt split: option.split)
  then have "footprint r T r3" unfolding r3_def by (rule footprint_removeRendezvous)
  then show ?thesis
    unfolding installTunnelAttempt_def Let_def split_def r1_def [symmetric] r2_def [symmetric]
      r3_def [symmetric] snd_conv
    using assms(2-5) same
    by (intro footprint_newAttempt) (simp_all add: connectedSession_in agentTokens_mono)
qed

definition drawn :: "string option \<times> string option \<Rightarrow> string set" where
  "drawn rnd = set_option (fst rnd) \<union> set_option (snd rnd)"

lemma footprint_request_begin:
  "footprint r (drawn rnd) (snd (snd (requestRelayTunnel_begin clk rnd owner ap d a q reason dl rl ttl r)))"
proof -
  define r1 where "r1 = snd (snd (sweepExpiredTunnelAttemptsLocked (clk 0) r))"
  have r1: "footprint r (drawn rnd) r1" unfolding r1_def by (intro footprint_sweepTunnels) simp
  define r2 where "r2 = snd (allowRelayTunnelRequestLocked (ao_UserID owner) (clk 1) r1)"
  have r2: "footprint r (drawn rnd) r2" using r1 by (simp add: r2_def)
  have same: "cr_apps r2 = cr_apps r1" "cr_daemons r2 = cr_daemons r1" by (simp_all add: r2_def)
  have inst: "footprint r (drawn rnd) (snd (installTunnelAttempt (normOwner owner) (TrimSpace d) (TrimSpace a) q
      reason dl rl ttl' now base live t1 t2 r2))"
    if "tunnelRequesterActive (normOwner owner) ap r1" "gm_get (cr_daemons r1) k = Some live"
      "fst rnd = Some t1" "snd rnd = Some t2" for ttl' now base live t1 t2 k
    using that requester_session [OF that(1)]
    by (intro footprint_install [OF r2]) (auto simp: connectedSession_def same drawn_def)
  show ?thesis
    unfolding requestRelayTunnel_begin_def Let_def split_def r1_def [symmetric] normOwner_UserID
      r2_def [symmetric]
    by (auto simp: r1 r2 intro!: inst split: option.split prod.split)
qed

lemma footprint_newRendezvous:
  assumes "footprint r T r'" "ao_AppSessionID (rv_appOwner a) \<in> appSessions r'"
    "do_AgentTokenID (rv_daemonOwner a) \<in> agentTokens r'"
  shows "footprint r T (r'\<lparr>cr_rendezvous := gm_put k a (cr_rendezvous r'), cr_nextPtr := n\<rparr>)"
  using footprint_put(2) [OF assms] by simp

lemma footprint_open_begin:
  "footprint r {} (snd (openRendezvous_begin clk owner p d a q pub priv ttl r))"
proof -
  define r1 where "r1 = sweepExpiredRendezvousLocked (clk 0) r"
  have r1: "footprint r {} r1" unfolding r1_def by (intro footprint_sweepRendezvous) simp
  define r4 where "r4 q = snd (removeRendezvousLocked q (recordRendezvousRequestLocked (ao_UserID owner) (clk 1)
    (snd (allowRendezvousRequestLocked (ao_UserID owner) (clk 1) r1))))" for q
  have r4: "footprint r {} (r4 q)" for q
    using r1 unfolding r4_def by (intro footprint_removeRendezvous) simp
  have same: "cr_apps (r4 q) = cr_apps r1" "cr_daemons (r4 q) = cr_daemons r1" for q
    by (simp_all add: r4_def)
  have new: "footprint r {} ((r4 q)\<lparr>cr_rendezvous := gm_put k a (cr_rendezvous (r4 q)), cr_nextPtr := n\<rparr>)"
    if "appPeerActiveLocked (normOwner owner) p r1" "gm_get (cr_daemons r1) k' = Some live"
      "rv_appOwner a = normOwner owner" "rv_daemonOwner a = ld_owner live" for q k a n k' live
    using that connectedSession_in [OF active_session [OF that(1)] same(1)]
      agentTokens_mono [OF same(2) that(2)]
    by (intro footprint_newRendezvous r4) simp_all
  show ?thesis
    unfolding openRendezvous_begin_def Let_def split_def r1_def [symmetric] normOwner_UserID
      r4_def [symmetric]
    using new by (auto simp: r1 r4 split: option.split)
qed

lemma footprint_OpenDirect:
  "footprint r {} (snd (OpenDirectSessionFromDaemon clk owner d p a fp r))"
proof -
  define r1 where "r1 = sweepExpiredRendezvousLocked (clk 0) r"
  have r1: "footprint r {} r1" unfolding r1_def by (intro footprint_sweepRendezvous) simp
  have "footprint r {} (r1\<lparr>cr_rendezvous := gm_del k (cr_rendezvous r1),
      cr_activeDirect := gm_put k' s (cr_activeDirect r1)\<rparr>)"
    if f: "find P (cr_rendezvous r1) = Some (k, b)" and s: "dr_appOwner s = rv_appOwner b"
      "dr_daemonOwner s = rv_daemonOwner b" for P k b k' s
  proof -
    have "footprint r {} (r1\<lparr>cr_activeDirect := gm_put k' s (cr_activeDirect r1)\<rparr>)"
      using r1 find_in [OF f] s by (intro footprint_put) (auto intro: mentions_rendezvous)
    from footprint_shrink(3) [OF this, of "gm_del k (cr_rendezvous r1)"]
    have "footprint r {} (r1\<lparr>cr_activeDirect := gm_put k' s (cr_activeDirect r1),
        cr_rendezvous := gm_del k (cr_rendezvous r1)\<rparr>)"
      by (auto simp: gm_del_def)
    then show ?thesis by (simp add: footprint_defs)
  qed
  then show ?thesis
    unfolding OpenDirectSessionFromDaemon_def Let_def r1_def [symmetric]
    by (auto simp: r1 split: option.split)
qed

end
