(* ===== verification/Conn_System.thy ===== *)
theory Conn_System
  imports Conn_Footprint
begin

text \<open>
  The connectivity registry as a transition system. A step is one atomic section (the text between
  \<open>Lock\<close> and \<open>Unlock\<close>) of one operation with any arguments, so a run is any interleaving of the
  handlers' calls and of the timers. A step is labelled with the tunnel tokens it draws. The second
  section of an operation that came back from a failed send (\<open>openRendezvous_abort\<close>,
  \<open>requestRelayTunnel_abort\<close>, \<open>forwardPairing_finish\<close>, \<open>removeTunnelCloser\<close>) is a step with any
  arguments. A daemon registers over a connection that no registered daemon uses: the websocket
  handler registers once, at the start of the connection.
\<close>

section \<open>Steps and runs\<close>

inductive conn_step :: "connRegistry \<Rightarrow> string set \<Rightarrow> connRegistry \<Rightarrow> bool" where
  step_RegisterApp: "conn_step r {} (snd (RegisterAppIfValid clk owner peer sv r))"
| step_DisconnectApp: "conn_step r {} (snd (snd (DisconnectApp ok peer r)))"
| step_RegisterDaemon: "freshDaemonPeer peer r \<Longrightarrow>
    conn_step r {} (snd (snd (RegisterDaemonIfValidWithDirectSessions ok clk down info trusted
      directSessions peer sv r)))"
| step_DisconnectDaemon: "conn_step r {} (snd (snd (DisconnectDaemon ok deviceID peer r)))"
| step_Revoke: "conn_step r {} (snd (snd (RevokeTrustedAndroid ok deviceID peer fp r)))"
| step_CompletePairing: "conn_step r {} (snd (snd (CompletePairing deviceID peer trustedAndroid r)))"
| step_Reserve: "conn_step r {} (snd (ReservePairing clk deviceID down peer correlationID ttl r))"
| step_forward_begin: "conn_step r {} (snd (forwardPairing_begin clk userID appPeer owner correlationID r))"
| step_forward_finish: "conn_step r {} (forwardPairing_finish userID key peer r)"
| step_DisconnectAppSession: "conn_step r {} (snd (snd (DisconnectAppSession ok sid r)))"
| step_DisconnectUser: "conn_step r {} (snd (snd (DisconnectUser ok clk userID r)))"
| step_DisconnectAgentToken: "conn_step r {} (snd (snd (DisconnectAgentToken ok tok r)))"
| step_open_begin: "conn_step r {} (snd (openRendezvous_begin clk owner peer deviceID attemptID
      requestID pub priv ttl r))"
| step_open_abort: "conn_step r {} (openRendezvous_abort key ptr r)"
| step_ForwardHint: "conn_step r {} (snd (snd (ForwardRendezvousHintFromDaemon ok clk down deviceID
      peer attemptID requestID fp pub priv r)))"
| step_CloseRendezvousApp: "conn_step r {} (snd (snd (CloseRendezvousFromApp ok owner peer deviceID attemptID r)))"
| step_CloseRendezvousDaemon: "conn_step r {} (snd (snd (CloseRendezvousFromDaemon ok down deviceID
      peer attemptID fp r)))"
| step_OpenDirect: "conn_step r {} (snd (OpenDirectSessionFromDaemon clk down deviceID peer attemptID fp r))"
| step_CloseDirect: "conn_step r {} (snd (CloseDirectSessionFromDaemon down deviceID peer attemptID fp r))"
| step_request_begin: "conn_step r (drawn rnd) (snd (snd (requestRelayTunnel_begin clk rnd owner
      appPeer deviceID attemptID requestID reason dl rl ttl r)))"
| step_request_abort: "conn_step r {} (snd (requestRelayTunnel_abort key ptr r))"
| step_Redeem: "conn_step r {} (snd (snd (RedeemRelayTunnelToken clk token r)))"
| step_MarkActive: "conn_step r {} (snd (MarkRelayTunnelActive key r))"
| step_Close: "conn_step r {} (snd (snd (CloseRelayTunnel key r)))"
| step_Sweep: "conn_step r {} (snd (snd (SweepExpiredRelayTunnelAttempts clk r)))"
| step_AddCloser: "conn_step r {} (snd (snd (AddTunnelCloser key close r)))"
| step_removeCloser: "conn_step r {} (removeTunnelCloser key cid r)"
| step_expireRendezvous: "conn_step r {} (expireRendezvousLater clk key r)"
| step_expireTunnel: "conn_step r {} (snd (expireUnpairedRelayTunnelLater clk key r))"

inductive conn_run :: "connRegistry \<Rightarrow> string set \<Rightarrow> connRegistry \<Rightarrow> bool" where
  run_refl: "conn_run r {} r"
| run_step: "conn_run r T r1 \<Longrightarrow> conn_step r1 T' r2 \<Longrightarrow> conn_run r (T \<union> T') r2"

definition conn_reachable :: "connRegistry \<Rightarrow> bool" where
  "conn_reachable r \<longleftrightarrow> (\<exists>T. conn_run NewRegistry T r)"

inductive_cases conn_run_emptyE: "conn_run r {} r'"

lemma run_one: "conn_step r T r' \<Longrightarrow> conn_run r T r'"
  using run_step [OF run_refl] by simp

lemma run_trans: "conn_run r1 T' r2 \<Longrightarrow> conn_run r T r1 \<Longrightarrow> conn_run r (T \<union> T') r2"
  by (induction r1 T' r2 rule: conn_run.induct) (auto simp: Un_assoc [symmetric] intro: run_step)

section \<open>Invariant and footprint of every run\<close>

lemma step_conn_inv: "conn_step r T r' \<Longrightarrow> conn_inv r \<Longrightarrow> conn_inv r'"
  by (induction rule: conn_step.induct)
    (simp_all add: conn_inv_RegisterAppIfValid conn_inv_DisconnectApp conn_inv_RegisterDaemon
      conn_inv_DisconnectDaemon conn_inv_Revoke conn_inv_CompletePairing conn_inv_Reserve
      conn_inv_forward_begin conn_inv_forward_finish conn_inv_DisconnectAppSession
      conn_inv_DisconnectUser conn_inv_DisconnectAgentToken conn_inv_open_begin conn_inv_open_abort
      conn_inv_ForwardHint conn_inv_CloseRendezvousApp conn_inv_CloseRendezvousDaemon
      conn_inv_OpenDirect conn_inv_CloseDirect conn_inv_request_begin conn_inv_request_abort
      conn_inv_Redeem conn_inv_MarkActive conn_inv_Close conn_inv_Sweep conn_inv_AddCloser
      conn_inv_removeCloser conn_inv_expireRendezvous conn_inv_expireTunnel)

lemma step_footprint: "conn_step r T r' \<Longrightarrow> footprint r T r'"
  by (induction rule: conn_step.induct)
    (simp_all add: footprint_RegisterApp footprint_DisconnectApp footprint_RegisterDaemon
      footprint_DisconnectDaemon footprint_Revoke footprint_CompletePairing footprint_Reserve
      footprint_forward_begin footprint_forward_finish footprint_DisconnectAppSession
      footprint_DisconnectUser footprint_DisconnectAgentToken footprint_open_begin footprint_open_abort
      footprint_ForwardHint footprint_CloseRendezvousApp footprint_CloseRendezvousDaemon
      footprint_OpenDirect footprint_CloseDirect footprint_request_begin footprint_request_abort
      footprint_Redeem footprint_MarkActive footprint_Close footprint_Sweep footprint_AddCloser
      footprint_removeCloser footprint_expireRendezvous footprint_expireTunnel)

lemma run_conn_inv: "conn_run r T r' \<Longrightarrow> conn_inv r \<Longrightarrow> conn_inv r'"
  by (induction rule: conn_run.induct) (auto intro: step_conn_inv)

lemma run_footprint: "conn_run r T r' \<Longrightarrow> footprint r T r'"
  by (induction rule: conn_run.induct) (auto intro: step_footprint footprint_trans)

lemma reachable_inv: "conn_reachable r \<Longrightarrow> conn_inv r"
  unfolding conn_reachable_def using run_conn_inv conn_inv_NewRegistry by blast

lemma reachable_run: "conn_reachable r \<Longrightarrow> conn_run r T r' \<Longrightarrow> conn_reachable r'"
  unfolding conn_reachable_def using run_trans by blast

section \<open>Operations of several sections\<close>

lemma run_requestRelayTunnel:
  "conn_run r (drawn rnd) (snd (snd (requestRelayTunnel ok clk rnd owner ap d aid q reason dl rl ttl r)))"
proof -
  let ?b = "requestRelayTunnel_begin clk rnd owner ap d aid q reason dl rl ttl r"
  have b: "conn_run r (drawn rnd) (snd (snd ?b))" by (rule run_one [OF step_request_begin])
  then have "conn_run r (drawn rnd) (snd (requestRelayTunnel_abort k n (snd (snd ?b))))" for k n
    using run_step [OF b step_request_abort] by simp
  with b show ?thesis by (cases ?b) (auto simp: requestRelayTunnel_def Let_def split_def split: sum.split)
qed

lemma run_OpenRendezvous: "conn_run r {} (snd (snd (OpenRendezvousFromApp ok clk owner peer d aid q pub priv ttl r)))"
proof -
  let ?o = "openRendezvous_begin clk owner peer d aid q pub priv ttl r"
  have o: "conn_run r {} (snd ?o)" by (rule run_one [OF step_open_begin])
  then have "conn_run r {} (openRendezvous_abort k n (snd ?o))" for k n
    using run_step [OF o step_open_abort] by simp
  with o show ?thesis by (cases ?o) (auto simp: OpenRendezvousFromApp_def Let_def split: sum.split)
qed

lemma run_forwardPairing: "conn_run r {} (snd (snd (forwardPairingResponse ok clk u ap owner cid response r)))"
proof -
  let ?f = "forwardPairing_begin clk u ap owner cid r"
  have f: "conn_run r {} (snd ?f)" by (rule run_one [OF step_forward_begin])
  then have "conn_run r {} (forwardPairing_finish u k p (snd ?f))" for k p
    using run_step [OF f step_forward_finish] by simp
  with f show ?thesis by (cases ?f) (auto simp: forwardPairingResponse_def Let_def split: sum.split)
qed

end
