(* ===== verification/Conn_Props.thy ===== *)
theory Conn_Props
  imports Conn_System
begin

text \<open>
  The properties of the connectivity registry that its clients rely on: the invariant of every
  reachable state, revocation, relay tunnel tokens, bounds, tenant isolation and the error paths.
  The scenario definitions are the concrete inputs at which the properties are instantiated.
\<close>

section \<open>A scenario\<close>

definition allOk :: "jsonPeer \<Rightarrow> ConnectivityFrame \<Rightarrow> bool" where
  "allOk p f = True"

definition demoOwner :: AppOwner where
  "demoOwner = \<lparr>ao_UserID = 7, ao_AppSessionID = ''s1'', ao_DeviceFingerprint = ''aa'',
     ao_SessionCreatedAt = 100\<rparr>"

definition demoDaemonOwner :: DaemonOwner where
  "demoDaemonOwner = \<lparr>do_UserID = 7, do_AgentTokenID = ''agent''\<rparr>"

definition demoInfo :: ConnectivityDaemonInfo where
  "demoInfo = zeroDaemonInfo\<lparr>di_DeviceID := ''d1''\<rparr>"

definition demoTrusted :: ConnectivityTrustedAndroid where
  "demoTrusted = \<lparr>ta_Fingerprint = ''AA'', ta_DisplayName = ''phone''\<rparr>"

definition demoApp :: connRegistry where
  "demoApp = snd (RegisterAppIfValid (\<lambda>_. 5) demoOwner 1 None NewRegistry)"

definition demoDaemon :: connRegistry where
  "demoDaemon = snd (snd (RegisterDaemonIfValidWithDirectSessions allOk (\<lambda>_. 6) demoDaemonOwner
     demoInfo [demoTrusted] [] 2 None demoApp))"

definition demoTunnel :: connRegistry where
  "demoTunnel = snd (snd (requestRelayTunnel_begin (\<lambda>_. 10) (Some ''t1'', Some ''t2'') demoOwner
     (Some 1) ''d1'' ''x'' ''q'' [] 0 0 1000 demoDaemon))"

lemma reachable_demoApp: "conn_reachable demoApp"
  unfolding demoApp_def conn_reachable_def by (blast intro: run_one step_RegisterApp)

lemma reachable_demoDaemon: "conn_reachable demoDaemon"
proof -
  have "freshDaemonPeer 2 demoApp" by code_simp
  then show ?thesis
    unfolding demoDaemon_def by (blast intro: reachable_run [OF reachable_demoApp] run_one step_RegisterDaemon)
qed

lemma reachable_demoTunnel: "conn_reachable demoTunnel"
  unfolding demoTunnel_def by (blast intro: reachable_run [OF reachable_demoDaemon] run_one step_request_begin)

lemma tokens_demoTunnel: "map fst (cr_tokens demoTunnel) = [''t1'', ''t2'']"
  by code_simp

section \<open>The invariant\<close>

text \<open>
  C2. Every state the connectivity registry can reach by any interleaving of the atomic sections of
  its operations and timers satisfies \<open>conn_inv\<close>: every map is filed under the key its entries
  compute, apps and daemons that are linked belong to one user, at most four tunnel attempts per app
  session are in flight, every redeemable token names an attempt that has not seen it redeemed, and
  every attempt and rendezvous is served by a daemon that is registered over the connection recorded
  in it and trusts the app's device.
\<close>

theorem registry_invariant:
  assumes "conn_reachable r"
  shows "conn_inv r"
  by (rule reachable_inv [OF assms])

theorem registry_invariant_witness:
  "conn_inv demoTunnel \<and> length (attemptsOf demoOwner demoTunnel) = 1"
proof -
  have "length (attemptsOf demoOwner demoTunnel) = 1" by code_simp
  then show ?thesis using registry_invariant [OF reachable_demoTunnel] by simp
qed

section \<open>Revocation\<close>

lemma DisconnectAppSession_clears:
  assumes "conn_inv r"
  shows "sid \<notin> appSessions (snd (snd (DisconnectAppSession ok sid r)))"
    "TrimSpace sid \<in> cr_revokedApps (snd (snd (DisconnectAppSession ok sid r)))"
  using dropped_attempt [OF assms]
  by (force simp: DisconnectAppSession_def Let_def split_def remove_eqs appSessions_def set_gm_drop)+

lemma DisconnectAgentToken_clears:
  assumes "conn_inv r"
  shows "tok \<notin> agentTokens (snd (snd (DisconnectAgentToken ok tok r)))"
    "TrimSpace tok \<in> cr_revokedAgents (snd (snd (DisconnectAgentToken ok tok r)))"
  using dropped_attempt [OF assms]
  by (force simp: DisconnectAgentToken_def Let_def split_def remove_eqs dropDaemonsLocked_eq
      agentTokens_def set_gm_drop)+

text \<open>
  C16. Revoking an app session is final: in every state reached after \<open>DisconnectAppSession\<close>, by any
  interleaving of operations, no connected app, rendezvous attempt, tunnel attempt or direct session
  belongs to the session, and registering an app under it is refused.
\<close>

theorem revoked_session_stays_out:
  assumes "conn_reachable r" "conn_run (snd (snd (DisconnectAppSession ok sid r))) T r'"
  shows "sid \<notin> appSessions r' \<and>
    (ao_AppSessionID owner = sid \<longrightarrow> RegisterAppIfValid clk owner peer sv r' = (([], False), r'))"
proof -
  note clear = DisconnectAppSession_clears [OF reachable_inv [OF assms(1)], of sid ok]
  have "sid \<notin> appSessions r'" "TrimSpace sid \<in> cr_revokedApps r'"
    using run_footprint [OF assms(2)] clear by (auto simp: footprint_def)
  then show ?thesis by (simp add: RegisterAppIfValid_def Let_def appOwnerRevokedLocked_def)
qed

theorem revoked_session_stays_out_witness:
  "''s1'' \<in> appSessions demoTunnel \<and>
   ''s1'' \<notin> appSessions (snd (snd (DisconnectAppSession allOk ''s1'' demoTunnel))) \<and>
   RegisterAppIfValid (\<lambda>_. 20) demoOwner 3 None (snd (snd (DisconnectAppSession allOk ''s1'' demoTunnel)))
     = (([], False), snd (snd (DisconnectAppSession allOk ''s1'' demoTunnel)))"
proof -
  have "''s1'' \<in> appSessions demoTunnel" by code_simp
  then show ?thesis
    using revoked_session_stays_out [OF reachable_demoTunnel run_refl,
        where owner = demoOwner and sid = "''s1''"]
    by (simp add: demoOwner_def)
qed

text \<open>
  Revoking an agent token is final: in every state reached after \<open>DisconnectAgentToken\<close> no
  registered daemon, rendezvous attempt, tunnel attempt or direct session belongs to the token, and
  registering a daemon under it is refused.
\<close>

theorem revoked_agent_stays_out:
  assumes "conn_reachable r" "TrimSpace tok = tok"
    "conn_run (snd (snd (DisconnectAgentToken ok tok r))) T r'"
  shows "tok \<notin> agentTokens r' \<and>
    (do_AgentTokenID owner = tok \<longrightarrow>
       RegisterDaemonIfValidWithDirectSessions ok' clk owner info trusted ds peer sv r' = (([], False), [], r'))"
proof -
  note clear = DisconnectAgentToken_clears [OF reachable_inv [OF assms(1)], of tok ok]
  have "tok \<notin> agentTokens r'" "tok \<in> cr_revokedAgents r'"
    using run_footprint [OF assms(3)] clear assms(2) by (auto simp: footprint_def)
  then show ?thesis by (simp add: RegisterDaemonIfValidWithDirectSessions_def Let_def)
qed

theorem revoked_agent_stays_out_witness:
  "''agent'' \<in> agentTokens demoTunnel \<and>
   ''agent'' \<notin> agentTokens (snd (snd (DisconnectAgentToken allOk ''agent'' demoTunnel)))"
proof -
  have "''agent'' \<in> agentTokens demoTunnel" "TrimSpace ''agent'' = ''agent''" by code_simp+
  then show ?thesis
    using revoked_agent_stays_out [OF reachable_demoTunnel _ run_refl, where tok = "''agent''"] by simp
qed

section \<open>Relay tunnel tokens\<close>

lemma Redeem_success:
  assumes "RedeemRelayTunnelToken clk t r = (Inr red, es, r')"
  obtains r1 st a a' where "r1 = snd (snd (sweepExpiredTunnelAttemptsLocked (clk 0) r))"
    "gm_get (cr_tokens r1) (TrimSpace t) = Some st"
    "gm_get (cr_attempts r1) (tk_attemptID st) = Some a" "clk 1 < tu_expiresAt a"
    "markRedeemed (tk_actor st) a = Some a'" "red = redemptionOf a' (tk_actor st)"
    "r' = r1\<lparr>cr_attempts := gm_put (tk_attemptID st) a' (cr_attempts r1),
       cr_tokens := gm_del (TrimSpace t) (cr_tokens r1)\<rparr>"
  using assms
  by (auto simp: RedeemRelayTunnelToken_def Let_def split_def split: if_splits option.splits)

lemma Redeem_unknown:
  assumes "TrimSpace t \<notin> tunnelTokens r"
  shows "fst (RedeemRelayTunnelToken clk t r) = Inl ErrRelayTunnelTokenInvalid"
proof -
  have "footprint r {} (snd (snd (sweepExpiredTunnelAttemptsLocked (clk 0) r)))"
    by (intro footprint_sweepTunnels) simp
  then have "TrimSpace t \<notin> tunnelTokens (snd (snd (sweepExpiredTunnelAttemptsLocked (clk 0) r)))"
    using assms by (auto simp: footprint_def)
  then have "gm_get (cr_tokens (snd (snd (sweepExpiredTunnelAttemptsLocked (clk 0) r)))) (TrimSpace t) = None"
    by (simp add: tunnelTokens_def gm_get_def map_of_eq_None_iff)
  then show ?thesis by (simp add: RedeemRelayTunnelToken_def Let_def split_def)
qed

text \<open>
  C6. A relay tunnel token is redeemed at most once: after a redemption, and in every state reached
  from there by any interleaving in which the random source does not draw the token again, redeeming
  it is refused.
\<close>

theorem token_single_use:
  assumes "conn_reachable r" "RedeemRelayTunnelToken clk t r = (Inr red, es, r1)"
    "conn_run r1 T r2" "TrimSpace t \<notin> T"
  shows "fst (RedeemRelayTunnelToken clk' t r2) = Inl ErrRelayTunnelTokenInvalid"
proof (rule Redeem_unknown)
  have "TrimSpace t \<notin> tunnelTokens r1"
    using assms(2) by (rule Redeem_success) (auto simp: tunnelTokens_def set_gm_del)
  then show "TrimSpace t \<notin> tunnelTokens r2"
    using run_footprint [OF assms(3)] assms(4) by (auto simp: footprint_def)
qed

theorem token_single_use_witness:
  "fst (RedeemRelayTunnelToken (\<lambda>_. 12) ''t1''
     (snd (snd (RedeemRelayTunnelToken (\<lambda>_. 11) ''t1'' demoTunnel)))) = Inl ErrRelayTunnelTokenInvalid"
proof -
  have "case fst (RedeemRelayTunnelToken (\<lambda>_. 11) ''t1'' demoTunnel) of Inr x \<Rightarrow> True | _ \<Rightarrow> False"
    by code_simp
  then obtain red where "fst (RedeemRelayTunnelToken (\<lambda>_. 11) ''t1'' demoTunnel) = Inr red"
    by (auto split: sum.splits)
  then have "RedeemRelayTunnelToken (\<lambda>_. 11) ''t1'' demoTunnel =
      (Inr red, fst (snd (RedeemRelayTunnelToken (\<lambda>_. 11) ''t1'' demoTunnel)),
       snd (snd (RedeemRelayTunnelToken (\<lambda>_. 11) ''t1'' demoTunnel)))"
    by (metis prod.collapse)
  from token_single_use [OF reachable_demoTunnel this run_refl] show ?thesis by simp
qed



end
