(* ===== verification/Conn_Props2.thy ===== *)
theory Conn_Props2
  imports Conn_Props
begin

text \<open>
  Relay tunnels of the connectivity registry from the request to the redemption of both tokens,
  expiry, the rollback of a request whose notification failed, and the composition of operations
  from their atomic sections.
\<close>

section \<open>Redeeming a live token\<close>

lemma gm_get_dropTokens:
  "gm_get (dropTokens as m) t =
     (if \<exists>a \<in> set as. t = tu_appToken a \<or> t = tu_daemonToken a then None else gm_get m t)"
  by (induction m) (auto simp: gm_get_def dropTokens_def)

definition ownToken :: "string \<Rightarrow> string \<Rightarrow> connRegistry \<Rightarrow> bool" where
  "ownToken t k r \<longleftrightarrow>
     list_all (\<lambda>(k', a). k' \<noteq> k \<longrightarrow> tu_appToken a \<noteq> t \<and> tu_daemonToken a \<noteq> t) (cr_attempts r)"

lemma sweep_keeps:
  assumes inv: "conn_inv r" and own: "ownToken t k r"
    and a: "gm_get (cr_attempts r) k = Some a" "now < tu_expiresAt a"
  shows "gm_get (cr_attempts (snd (snd (sweepExpiredTunnelAttemptsLocked now r)))) k = Some a"
    "gm_get (cr_tokens (snd (snd (sweepExpiredTunnelAttemptsLocked now r)))) t = gm_get (cr_tokens r) t"
proof -
  have gone: "tu_key b \<noteq> k \<and> tu_appToken b \<noteq> t \<and> tu_daemonToken b \<noteq> t"
    if "b \<in> set (gm_vals (tunnelAttemptExpired now) (cr_attempts r))" for b
  proof -
    have "gm_get (cr_attempts r) (tu_key b) = Some b" by (rule attempt_vals_filed [OF inv that])
    moreover have "tunnelAttemptExpired now b" using that by (auto simp: set_gm_vals)
    ultimately have "tu_key b \<noteq> k" using a by (auto simp: tunnelAttemptExpired_def)
    then show ?thesis
      using own gm_get_in [OF \<open>gm_get (cr_attempts r) (tu_key b) = Some b\<close>]
      by (auto simp: ownToken_def list_all_iff)
  qed
  show "gm_get (cr_attempts (snd (snd (sweepExpiredTunnelAttemptsLocked now r)))) k = Some a"
    "gm_get (cr_tokens (snd (snd (sweepExpiredTunnelAttemptsLocked now r)))) t = gm_get (cr_tokens r) t"
    using gone a(1)
    by (auto simp: sweepExpiredTunnelAttemptsLocked_def removeTunnelAttemptsLocked_eq
        gm_get_dropAttempts gm_get_dropTokens)
qed

lemma Redeem_live:
  assumes inv: "conn_inv r" and own: "ownToken t k r"
    and t: "TrimSpace t = t" "t \<noteq> []" "gm_get (cr_tokens r) t = Some \<lparr>tk_attemptID = k, tk_actor = actor\<rparr>"
    and a: "gm_get (cr_attempts r) k = Some a" "clk 0 < tu_expiresAt a" "clk 1 < tu_expiresAt a"
    and a': "markRedeemed actor a = Some a'"
  obtains es r' where "RedeemRelayTunnelToken clk t r = (Inr (redemptionOf a' actor), es, r')"
    "gm_get (cr_attempts r') k = Some a'"
    "\<And>t'. ownToken t' k r \<Longrightarrow> ownToken t' k r'"
    "\<And>t'. t' \<noteq> t \<Longrightarrow> ownToken t' k r \<Longrightarrow> gm_get (cr_tokens r') t' = gm_get (cr_tokens r) t'"
proof -
  define r1 where "r1 = snd (snd (sweepExpiredTunnelAttemptsLocked (clk 0) r))"
  define r' where "r' = r1\<lparr>cr_attempts := gm_put k a' (cr_attempts r1), cr_tokens := gm_del t (cr_tokens r1)\<rparr>"
  note keep = sweep_keeps [OF inv _ a(1,2), folded r1_def]
  have sub: "set (cr_attempts r1) \<subseteq> set (cr_attempts r)"
    by (auto simp: r1_def sweepExpiredTunnelAttemptsLocked_def removeTunnelAttemptsLocked_eq dropAttempts_def)
  have "RedeemRelayTunnelToken clk t r = (Inr (redemptionOf a' actor),
      closeTunnelClosers (fst (snd (sweepExpiredTunnelAttemptsLocked (clk 0) r))), r')"
    using keep [OF own] t a a'
    by (simp add: RedeemRelayTunnelToken_def Let_def split_def r1_def [symmetric] r'_def)
  moreover have "gm_get (cr_attempts r') k = Some a'" by (simp add: r'_def)
  moreover have "ownToken t' k r'" if "ownToken t' k r" for t'
    using that set_gm_put [of k a' "cr_attempts r1"] sub
    by (fastforce simp: ownToken_def list_all_iff r'_def)
  moreover have "gm_get (cr_tokens r') t' = gm_get (cr_tokens r) t'" if "t' \<noteq> t" "ownToken t' k r" for t'
    using keep(2) [OF that(2)] that(1) by (simp add: r'_def)
  ultimately show ?thesis using that by blast
qed

section \<open>From request to redemption\<close>

definition effectiveTTL :: "duration \<Rightarrow> duration" where
  "effectiveTTL ttl = (if ttl \<le> 0 then 30 * second else ttl)"

lemma request_begin_success:
  assumes "requestRelayTunnel_begin clk rnd owner ap d aid q reason dl rl ttl r = (Inr plan, cs, r')"
  obtains r1 r2 live t1 t2 where "r1 = snd (snd (sweepExpiredTunnelAttemptsLocked (clk 0) r))"
    "(True, r2) = allowRelayTunnelRequestLocked (ao_UserID owner) (clk 1) r1"
    "tunnelRequesterActive (normOwner owner) ap r1"
    "gm_get (cr_daemons r1) (daemonMapKey (ao_UserID owner) (TrimSpace d)) = Some live"
    "trustedFingerprint (ld_trusted live) (ao_DeviceFingerprint (normOwner owner)) \<noteq> []"
    "rnd = (Some t1, Some t2)"
    "(plan, r') = installTunnelAttempt (normOwner owner) (TrimSpace d) (TrimSpace aid) q reason dl rl
       (effectiveTTL ttl) (clk 1) (clk 2) live t1 t2 r2"
proof -
  define r1 where "r1 = snd (snd (sweepExpiredTunnelAttemptsLocked (clk 0) r))"
  define r2 where "r2 = snd (allowRelayTunnelRequestLocked (ao_UserID owner) (clk 1) r1)"
  show ?thesis
    using assms that [of r1 r2]
    by (auto simp: requestRelayTunnel_begin_def Let_def split_def r1_def [symmetric] r2_def
        effectiveTTL_def prod_eq_iff split: if_splits option.splits prod.splits)
qed

lemma install_result:
  assumes "(plan, r') = installTunnelAttempt owner d aid q reason dl rl ttl now base live t1 t2 r"
  obtains a where "gm_get (cr_attempts r') (tp_key plan) = Some a"
    "tp_key plan = tunnelAttemptKey owner d aid" "tp_ptr plan = tu_ptr a"
    "tu_key a = tp_key plan" "tu_id a = aid" "tu_appOwner a = owner"
    "tu_daemonDeviceID a = di_DeviceID (ld_info live)" "tu_appToken a = t1" "tu_daemonToken a = t2"
    "\<not> tu_appRedeemed a" "\<not> tu_daemonRedeemed a" "tu_expiresAt a = base + ttl"
    "gm_get (cr_tokens r') t2 = Some \<lparr>tk_attemptID = tp_key plan, tk_actor = TunnelActorDaemon\<rparr>"
    "t1 \<noteq> t2 \<Longrightarrow> gm_get (cr_tokens r') t1 = Some \<lparr>tk_attemptID = tp_key plan, tk_actor = TunnelActorClient\<rparr>"
    "cf_TunnelToken (tp_appFrame plan) = t1" "cf_TunnelToken (tp_daemonFrame plan) = t2"
proof -
  have e: "plan = fst (installTunnelAttempt owner d aid q reason dl rl ttl now base live t1 t2 r)"
    "r' = snd (installTunnelAttempt owner d aid q reason dl rl ttl now base live t1 t2 r)"
    using assms by (metis fst_conv, metis snd_conv)
  show ?thesis
    by (rule that [of "the (gm_get (cr_attempts r') (tp_key plan))"])
      (simp_all add: e installTunnelAttempt_def Let_def split_def connectivity_frame_defs)
qed

lemma install_attempts:
  assumes "(plan, r') = installTunnelAttempt owner d aid q reason dl rl ttl now base live t1 t2 r"
    "(k, b) \<in> set (cr_attempts r')" "k \<noteq> tp_key plan"
  shows "(k, b) \<in> set (cr_attempts r)"
  using assms set_gm_put
  by (fastforce simp: installTunnelAttempt_def Let_def split_def recordRelayTunnelRequestLocked_def
      removeRendezvousLocked_def removeTunnelAttemptLocked_def set_gm_del split: option.splits)

lemma sweep_attempts:
  "set (cr_attempts (snd (snd (sweepExpiredTunnelAttemptsLocked now r)))) \<subseteq> set (cr_attempts r)"
  by (auto simp: sweepExpiredTunnelAttemptsLocked_def removeTunnelAttemptsLocked_eq dropAttempts_def)

lemma request_success:
  assumes inv: "conn_inv r"
    and ok: "requestRelayTunnel ok clk (Some t1, Some t2) owner ap d aid q reason dl rl ttl r = (Inr frame, es, r')"
  obtains plan r1 r2 live where
    "r1 = snd (snd (sweepExpiredTunnelAttemptsLocked (clk 0) r))"
    "(True, r2) = allowRelayTunnelRequestLocked (ao_UserID owner) (clk 1) r1"
    "tunnelRequesterActive (normOwner owner) ap r1"
    "gm_get (cr_daemons r1) (daemonMapKey (ao_UserID owner) (TrimSpace d)) = Some live"
    "trustedFingerprint (ld_trusted live) (ao_DeviceFingerprint (normOwner owner)) \<noteq> []"
    "frame = tp_appFrame plan"
    "(plan, r') = installTunnelAttempt (normOwner owner) (TrimSpace d) (TrimSpace aid) q reason dl rl
       (effectiveTTL ttl) (clk 1) (clk 2) live t1 t2 r2"
    "conn_inv r'"
proof -
  obtain plan cs where b: "requestRelayTunnel_begin clk (Some t1, Some t2) owner ap d aid q reason dl rl ttl r
      = (Inr plan, cs, r')" and f: "frame = tp_appFrame plan"
    using ok
    by (cases "requestRelayTunnel_begin clk (Some t1, Some t2) owner ap d aid q reason dl rl ttl r")
      (auto simp: requestRelayTunnel_def Let_def split_def split: sum.splits if_splits)
  have inv': "conn_inv r'"
    using conn_inv_request_begin [OF inv, of clk "(Some t1, Some t2)" owner ap d aid q reason dl rl ttl] b
    by simp
  from b show ?thesis
  proof (rule request_begin_success)
    fix r1 r2 live u1 u2
    assume "r1 = snd (snd (sweepExpiredTunnelAttemptsLocked (clk 0) r))"
      "(True, r2) = allowRelayTunnelRequestLocked (ao_UserID owner) (clk 1) r1"
      "tunnelRequesterActive (normOwner owner) ap r1"
      "gm_get (cr_daemons r1) (daemonMapKey (ao_UserID owner) (TrimSpace d)) = Some live"
      "trustedFingerprint (ld_trusted live) (ao_DeviceFingerprint (normOwner owner)) \<noteq> []"
      "(Some t1, Some t2) = (Some u1, Some u2)"
      "(plan, r') = installTunnelAttempt (normOwner owner) (TrimSpace d) (TrimSpace aid) q reason dl rl
         (effectiveTTL ttl) (clk 1) (clk 2) live u1 u2 r2"
    then show ?thesis using that [of r1 r2 live plan] f inv' by simp
  qed
qed

definition tokensUnused :: "string set \<Rightarrow> connRegistry \<Rightarrow> bool" where
  "tokensUnused T r \<longleftrightarrow>
     list_all (\<lambda>(_, b). tu_appToken b \<notin> T \<and> tu_daemonToken b \<notin> T) (cr_attempts r)"

text \<open>
  C20. A relay tunnel that was requested successfully can be taken up by both sides: while it has not
  expired, redeeming the token of the app's frame yields the app's side of the attempt, redeeming
  the daemon's token after it yields the daemon's side, and both redemptions name the same tunnel,
  attempt, user, device and daemon. (The two tokens drawn are distinct, not blank and in no other
  attempt.)
\<close>

theorem tunnel_request_redeem:
  assumes r: "conn_reachable r"
    and ok: "requestRelayTunnel ok clk (Some t1, Some t2) owner ap d aid q reason dl rl ttl r = (Inr frame, es, r')"
    and t: "t1 \<noteq> t2" "t1 \<noteq> []" "t2 \<noteq> []" "TrimSpace t1 = t1" "TrimSpace t2 = t2" "tokensUnused {t1, t2} r"
    and c1: "clk1 0 < clk 2 + effectiveTTL ttl" "clk1 1 < clk 2 + effectiveTTL ttl"
    and c2: "clk2 0 < clk 2 + effectiveTTL ttl" "clk2 1 < clk 2 + effectiveTTL ttl"
  shows "\<exists>red1 es1 r1 red2 es2 r2. cf_TunnelToken frame = t1 \<and>
    RedeemRelayTunnelToken clk1 t1 r' = (Inr red1, es1, r1) \<and>
    RedeemRelayTunnelToken clk2 t2 r1 = (Inr red2, es2, r2) \<and>
    tr_Actor red1 = TunnelActorClient \<and> red2 = red1\<lparr>tr_Actor := TunnelActorDaemon\<rparr> \<and>
    tr_AttemptID red1 = TrimSpace aid \<and> tr_UserID red1 = ao_UserID owner \<and>
    tr_AppSessionID red1 = ao_AppSessionID owner \<and>
    tr_DeviceFingerprint red1 = normalizeFingerprint (ao_DeviceFingerprint owner) \<and>
    tr_DaemonDeviceID red1 = TrimSpace d"
proof -
  note inv = reachable_inv [OF r]
  from request_success [OF inv ok] obtain plan s1 s2 live where
    s1: "s1 = snd (snd (sweepExpiredTunnelAttemptsLocked (clk 0) r))"
    and s2: "(True, s2) = allowRelayTunnelRequestLocked (ao_UserID owner) (clk 1) s1"
    and live: "gm_get (cr_daemons s1) (daemonMapKey (ao_UserID owner) (TrimSpace d)) = Some live"
    and f: "frame = tp_appFrame plan" and inv': "conn_inv r'"
    and inst: "(plan, r') = installTunnelAttempt (normOwner owner) (TrimSpace d) (TrimSpace aid) q reason dl rl
       (effectiveTTL ttl) (clk 1) (clk 2) live t1 t2 s2" .
  have dev: "di_DeviceID (ld_info live) = TrimSpace d"
    using daemon_found(2) [OF conn_inv_sweepTunnels [OF inv] live [unfolded s1]] by simp
  let ?k = "tp_key plan"
  from install_result [OF inst] obtain a where
    a: "gm_get (cr_attempts r') ?k = Some a" "tu_key a = ?k" "tu_id a = TrimSpace aid"
      "tu_appOwner a = normOwner owner" "tu_daemonDeviceID a = TrimSpace d"
      "\<not> tu_appRedeemed a" "\<not> tu_daemonRedeemed a" "tu_expiresAt a = clk 2 + effectiveTTL ttl"
    and tok: "gm_get (cr_tokens r') t2 = Some \<lparr>tk_attemptID = ?k, tk_actor = TunnelActorDaemon\<rparr>"
      "gm_get (cr_tokens r') t1 = Some \<lparr>tk_attemptID = ?k, tk_actor = TunnelActorClient\<rparr>"
    and fr: "cf_TunnelToken frame = t1"
    using t(1) dev f by metis
  have "set (cr_attempts s2) \<subseteq> set (cr_attempts r)"
    using sweep_attempts [of "clk 0" r] arg_cong [OF s2, of snd] by (simp add: s1)
  then have own: "ownToken t1 ?k r'" "ownToken t2 ?k r'"
    using t(6) install_attempts [OF inst] by (fastforce simp: ownToken_def tokensUnused_def list_all_iff)+
  define a1 where "a1 = a\<lparr>tu_appRedeemed := True\<rparr>"
  define a2 where "a2 = a1\<lparr>tu_daemonRedeemed := True\<rparr>"
  have m: "markRedeemed TunnelActorClient a = Some a1" "markRedeemed TunnelActorDaemon a1 = Some a2"
    using a by (simp_all add: markRedeemed_def a1_def a2_def)
  obtain es1 r1 where one: "RedeemRelayTunnelToken clk1 t1 r' = (Inr (redemptionOf a1 TunnelActorClient), es1, r1)"
    "gm_get (cr_attempts r1) ?k = Some a1" "ownToken t2 ?k r1"
    "gm_get (cr_tokens r1) t2 = Some \<lparr>tk_attemptID = ?k, tk_actor = TunnelActorDaemon\<rparr>"
    using Redeem_live [OF inv' own(1) t(4) t(2) tok(2) a(1) _ _ m(1)] a(8) c1 own(2) t(1) tok(1) by metis
  have inv1: "conn_inv r1" using conn_inv_Redeem [OF inv', of clk1 t1] one(1) by simp
  obtain es2 r2 where two: "RedeemRelayTunnelToken clk2 t2 r1 = (Inr (redemptionOf a2 TunnelActorDaemon), es2, r2)"
  proof (rule Redeem_live [OF inv1 one(3) t(5) t(3) one(4) one(2) _ _ m(2), of clk2])
    show "clk2 0 < tu_expiresAt a1" "clk2 1 < tu_expiresAt a1" using a(8) c2 by (simp_all add: a1_def)
  qed
  show ?thesis
    using one(1) two fr a by (intro exI conjI) (auto simp: redemptionOf_def a1_def a2_def normOwner_def)
qed

theorem tunnel_request_redeem_witness:
  "case requestRelayTunnel allOk (\<lambda>_. 10) (Some ''t1'', Some ''t2'') demoOwner (Some 1) ''d1'' ''x'' ''q'' [] 0 0
      1000 demoDaemon of
     (Inr frame, es, r') \<Rightarrow> \<exists>red1 es1 r1 red2 es2 r2.
        RedeemRelayTunnelToken (\<lambda>_. 11) ''t1'' r' = (Inr red1, es1, r1) \<and>
        RedeemRelayTunnelToken (\<lambda>_. 12) ''t2'' r1 = (Inr red2, es2, r2) \<and>
        red2 = red1\<lparr>tr_Actor := TunnelActorDaemon\<rparr>
   | _ \<Rightarrow> False"
proof -
  let ?q = "requestRelayTunnel allOk (\<lambda>_. 10) (Some ''t1'', Some ''t2'') demoOwner (Some 1) ''d1'' ''x'' ''q''
    [] 0 0 1000 demoDaemon"
  have "case fst ?q of Inr x \<Rightarrow> True | _ \<Rightarrow> False" by code_simp
  then obtain frame es r' where q: "?q = (Inr frame, es, r')" by (cases ?q) (auto split: sum.splits)
  have side: "''t1'' \<noteq> ''t2''" "''t1'' \<noteq> []" "''t2'' \<noteq> []" "TrimSpace ''t1'' = ''t1''"
    "TrimSpace ''t2'' = ''t2''" "tokensUnused {''t1'', ''t2''} demoDaemon" by code_simp+
  have c: "(11 :: int) < 10 + effectiveTTL 1000" "(12 :: int) < 10 + effectiveTTL 1000" by code_simp+
  from tunnel_request_redeem [OF reachable_demoDaemon q side c(1) c(1) c(2) c(2)] q
  show ?thesis by auto
qed

section \<open>Expiry\<close>

text \<open>
  A token of an attempt whose expiry has passed is refused, also when the tunnel is active, and an
  expired attempt that never became active is gone afterwards, its closers run.
\<close>

theorem expired_token_refused:
  assumes "conn_reachable r" "gm_get (cr_tokens r) (TrimSpace t) = Some st"
    "gm_get (cr_attempts r) (tk_attemptID st) = Some a" "tu_expiresAt a \<le> clk 0" "clk 0 \<le> clk 1"
    "TrimSpace t \<noteq> []"
  shows "fst (RedeemRelayTunnelToken clk t r) = Inl ErrRelayTunnelTokenInvalid \<and>
    (\<not> tu_active a \<longrightarrow>
       gm_get (cr_attempts (snd (snd (RedeemRelayTunnelToken clk t r)))) (tk_attemptID st) = None \<and>
       RunCloser ` set (map snd (tu_closers a)) \<subseteq> set (fst (snd (RedeemRelayTunnelToken clk t r))))"
proof -
  note inv = reachable_inv [OF assms(1)]
  define as where "as = gm_vals (tunnelAttemptExpired (clk 0)) (cr_attempts r)"
  have key: "tu_key a = tk_attemptID st" by (rule attempt_filed [OF inv assms(3)])
  have ok: "token_ok (cr_attempts r) (TrimSpace t) st"
    using inv assms(2) by (auto simp: conn_inv_def inv_tokens_def dest: gm_allD)
  note defs = RedeemRelayTunnelToken_def Let_def split_def sweepExpiredTunnelAttemptsLocked_def
    removeTunnelAttemptsLocked_eq gm_get_dropTokens gm_get_dropAttempts as_def [symmetric]
    closeTunnelClosers_def removeTunnelAttemptLocked_def
  show ?thesis
  proof (cases "tu_active a")
    case False
    then have a: "a \<in> set as"
      using gm_get_in [OF assms(3)] assms(4) by (auto simp: as_def set_gm_vals tunnelAttemptExpired_def)
    then have "\<exists>b \<in> set as. TrimSpace t = tu_appToken b \<or> TrimSpace t = tu_daemonToken b"
      using ok assms(3) by (auto simp: token_ok_def intro!: bexI [of _ a])
    moreover have "tk_attemptID st \<in> tu_key ` set as" using a key by (metis imageI)
    ultimately show ?thesis using a assms(6) by (auto simp: defs)
  next
    case True
    then show ?thesis using assms(2-6) by (auto simp: defs split: option.split)
  qed
qed

definition demoClosing :: connRegistry where
  "demoClosing = snd (snd (AddTunnelCloser ''7:s1:aa:d1:x'' (Some 9) demoTunnel))"

theorem expired_token_refused_witness:
  "fst (RedeemRelayTunnelToken (\<lambda>_. 2000) ''t1'' demoClosing) = Inl ErrRelayTunnelTokenInvalid \<and>
   RunCloser 9 \<in> set (fst (snd (RedeemRelayTunnelToken (\<lambda>_. 2000) ''t1'' demoClosing)))"
proof -
  have r: "conn_reachable demoClosing"
    unfolding demoClosing_def by (blast intro: reachable_run [OF reachable_demoTunnel] run_one step_AddCloser)
  define st where "st = \<lparr>tk_attemptID = ''7:s1:aa:d1:x'', tk_actor = TunnelActorClient\<rparr>"
  define a where "a = the (gm_get (cr_attempts demoClosing) ''7:s1:aa:d1:x'')"
  have "gm_get (cr_tokens demoClosing) (TrimSpace ''t1'') = Some st" unfolding st_def by code_simp
  moreover have "gm_get (cr_attempts demoClosing) ''7:s1:aa:d1:x'' \<noteq> None" by code_simp
  then have "gm_get (cr_attempts demoClosing) (tk_attemptID st) = Some a" by (auto simp: a_def st_def)
  moreover have "tu_expiresAt a \<le> 2000" "\<not> tu_active a" "map snd (tu_closers a) = [9]" "TrimSpace ''t1'' \<noteq> []"
    unfolding a_def by code_simp+
  ultimately show ?thesis
    using expired_token_refused [OF r, of "''t1''" st a "\<lambda>_. 2000"] by simp
qed

section \<open>Whole operations\<close>

lemma request_failed:
  assumes "requestRelayTunnel ok clk (Some t1, Some t2) owner ap d aid q reason dl rl ttl r
      = (Inl ErrConnectivityPeerInactive, es, r')"
  obtains plan cs r1 where
    "requestRelayTunnel_begin clk (Some t1, Some t2) owner ap d aid q reason dl rl ttl r = (Inr plan, cs, r1)"
    "r' = snd (requestRelayTunnel_abort (tp_key plan) (tp_ptr plan) r1)"
proof -
  have no: "fst (requestRelayTunnel_begin clk (Some t1, Some t2) owner ap d aid q reason dl rl ttl r)
      \<noteq> Inl ErrConnectivityPeerInactive"
    by (auto simp: requestRelayTunnel_begin_def Let_def split_def split: option.split)
  obtain x cs r1 where b: "requestRelayTunnel_begin clk (Some t1, Some t2) owner ap d aid q reason dl rl ttl r
      = (x, cs, r1)" by (cases "requestRelayTunnel_begin clk (Some t1, Some t2) owner ap d aid q reason dl rl ttl r")
  show ?thesis
    using assms no that b
    by (cases x) (auto simp: requestRelayTunnel_def Let_def split_def split: if_splits)
qed

text \<open>
  A relay tunnel request whose notification to the daemon fails leaves nothing behind: the
  attempt is taken out again and both tokens drawn for it are refused. The caller gets
  \<open>ErrConnectivityPeerInactive\<close>.
\<close>

theorem failed_request_rolls_back:
  assumes "conn_reachable r"
    "requestRelayTunnel ok clk (Some t1, Some t2) owner ap d aid q reason dl rl ttl r
      = (Inl ErrConnectivityPeerInactive, es, r')"
  shows "gm_get (cr_attempts r') (tunnelAttemptKey (normOwner owner) (TrimSpace d) (TrimSpace aid)) = None \<and>
    t1 \<notin> tunnelTokens r' \<and> t2 \<notin> tunnelTokens r'"
proof -
  from assms(2) show ?thesis
  proof (rule request_failed)
    fix plan cs r1
    assume b: "requestRelayTunnel_begin clk (Some t1, Some t2) owner ap d aid q reason dl rl ttl r = (Inr plan, cs, r1)"
      and r': "r' = snd (requestRelayTunnel_abort (tp_key plan) (tp_ptr plan) r1)"
    obtain s2 live where inst: "(plan, r1) = installTunnelAttempt (normOwner owner) (TrimSpace d) (TrimSpace aid)
        q reason dl rl (effectiveTTL ttl) (clk 1) (clk 2) live t1 t2 s2"
      using request_begin_success [OF b] by (metis option.inject prod.inject)
    from install_result [OF inst] obtain a where a: "gm_get (cr_attempts r1) (tp_key plan) = Some a"
      "tp_key plan = tunnelAttemptKey (normOwner owner) (TrimSpace d) (TrimSpace aid)"
      "tp_ptr plan = tu_ptr a" "tu_key a = tp_key plan" "tu_appToken a = t1" "tu_daemonToken a = t2" .
    then show ?thesis
      by (auto simp: r' requestRelayTunnel_abort_def removeTunnelAttemptLocked_def tunnelTokens_def
          set_gm_del)
  qed
qed

definition refusesDaemon :: "jsonPeer \<Rightarrow> ConnectivityFrame \<Rightarrow> bool" where
  "refusesDaemon p f \<longleftrightarrow> p \<noteq> DaemonPeer 2"

theorem failed_request_rolls_back_witness:
  "''t1'' \<notin> tunnelTokens (snd (snd (requestRelayTunnel refusesDaemon (\<lambda>_. 10) (Some ''t1'', Some ''t2'')
     demoOwner (Some 1) ''d1'' ''x'' ''q'' [] 0 0 1000 demoDaemon)))"
proof -
  let ?q = "requestRelayTunnel refusesDaemon (\<lambda>_. 10) (Some ''t1'', Some ''t2'') demoOwner (Some 1) ''d1''
    ''x'' ''q'' [] 0 0 1000 demoDaemon"
  have "fst ?q = Inl ErrConnectivityPeerInactive" by code_simp
  then have "?q = (Inl ErrConnectivityPeerInactive, fst (snd ?q), snd (snd ?q))" by (metis prod.collapse)
  from failed_request_rolls_back [OF reachable_demoDaemon this] show ?thesis by simp
qed

text \<open>
  The operations that take the lock twice are interleavings of the atomic sections: the final
  states of \<open>requestRelayTunnel\<close>, \<open>OpenRendezvousFromApp\<close> and \<open>forwardPairingResponse\<close> are reached by
  a run of the transition system, drawing only the tokens the random source gave.
\<close>

theorem operations_are_runs:
  "(\<exists>T \<subseteq> drawn rnd. conn_run r T (snd (snd (requestRelayTunnel ok clk rnd owner ap d aid q reason dl rl ttl r)))) \<and>
   conn_run r {} (snd (snd (OpenRendezvousFromApp ok clk owner peer d aid q pub priv ttl r))) \<and>
   conn_run r {} (snd (snd (forwardPairingResponse ok clk u ap owner cid response r)))"
  by (intro conjI exI [of _ "drawn rnd"] subset_refl run_requestRelayTunnel run_OpenRendezvous run_forwardPairing)

theorem operations_are_runs_witness:
  "\<exists>T \<subseteq> {''t1'', ''t2''}. conn_run demoDaemon T (snd (snd (requestRelayTunnel refusesDaemon (\<lambda>_. 10)
     (Some ''t1'', Some ''t2'') demoOwner (Some 1) ''d1'' ''x'' ''q'' [] 0 0 1000 demoDaemon)))"
proof -
  have "drawn (Some ''t1'', Some ''t2'') = {''t1'', ''t2''}" by (auto simp: drawn_def)
  with operations_are_runs [where rnd = "(Some ''t1'', Some ''t2'')"] show ?thesis by metis
qed

end
