(* ===== verification/Go_Bytes.thy ===== *)
theory Go_Bytes
  imports Go_Strings "HOL-Library.Word"
begin

text \<open>
  Bytes as the codecs use them: \<open>encoding/binary\<close>'s big endian integers at their widths,
  \<open>encoding/hex\<close>, the conversion \<open>[]byte(s)\<close> of a string, and the interface of prefix-free
  encodings with what follows from it for sequences of encoded values.
\<close>

unbundle bit_operations_syntax

type_synonym byte = "8 word"

section \<open>Big endian integers\<close>

definition PutUint16 :: "16 word \<Rightarrow> byte list" where
  "PutUint16 v = [ucast (drop_bit 8 v), ucast v]"

definition PutUint32 :: "32 word \<Rightarrow> byte list" where
  "PutUint32 v = [ucast (drop_bit 24 v), ucast (drop_bit 16 v), ucast (drop_bit 8 v), ucast v]"

definition PutUint64 :: "64 word \<Rightarrow> byte list" where
  "PutUint64 v =
     [ucast (drop_bit 56 v), ucast (drop_bit 48 v), ucast (drop_bit 40 v), ucast (drop_bit 32 v),
      ucast (drop_bit 24 v), ucast (drop_bit 16 v), ucast (drop_bit 8 v), ucast v]"

text \<open>The readers take what a slice of the right length holds; \<open>bs ! i\<close> is only read in range.\<close>

definition Uint16 :: "byte list \<Rightarrow> 16 word" where
  "Uint16 bs = (ucast (bs ! 1)) OR push_bit 8 (ucast (bs ! 0))"

definition Uint32 :: "byte list \<Rightarrow> 32 word" where
  "Uint32 bs = ucast (bs ! 3) OR push_bit 8 (ucast (bs ! 2)) OR push_bit 16 (ucast (bs ! 1)) OR
     push_bit 24 (ucast (bs ! 0))"

definition Uint64 :: "byte list \<Rightarrow> 64 word" where
  "Uint64 bs =
     ucast (bs ! 7) OR push_bit 8 (ucast (bs ! 6)) OR push_bit 16 (ucast (bs ! 5)) OR
     push_bit 24 (ucast (bs ! 4)) OR push_bit 32 (ucast (bs ! 3)) OR push_bit 40 (ucast (bs ! 2)) OR
     push_bit 48 (ucast (bs ! 1)) OR push_bit 56 (ucast (bs ! 0))"

lemma length_Put [simp]:
  "length (PutUint16 v) = 2" "length (PutUint32 w) = 4" "length (PutUint64 x) = 8"
  by (simp_all add: PutUint16_def PutUint32_def PutUint64_def)

lemma byte_low:
  fixes v :: "'a :: len word"
  shows "ucast (ucast v :: byte) = v AND mask 8"
  by (rule bit_word_eqI) (auto simp: bit_and_iff bit_ucast_iff bit_mask_iff)

lemma byte_part:
  fixes v :: "'a :: len word"
  shows "push_bit k (drop_bit k v AND mask 8) = v AND push_bit k (mask 8)"
  by (rule bit_word_eqI)
    (auto simp: bit_and_iff bit_push_bit_iff bit_drop_bit_eq bit_mask_iff)

lemmas byte_parts = byte_low byte_part [of 8] byte_part [of 16] byte_part [of 24] byte_part [of 32]
  byte_part [of 40] byte_part [of 48] byte_part [of 56]

lemma Uint16_Put [simp]: "Uint16 (PutUint16 v @ r) = v"
proof -
  have "Uint16 (PutUint16 v @ r) = ucast (ucast v :: byte) OR
      push_bit 8 (ucast (ucast (drop_bit 8 v) :: byte))"
    by (simp add: Uint16_def PutUint16_def)
  also have "\<dots> = v AND (mask 8 OR push_bit 8 (mask 8))"
    by (simp only: byte_parts bit.conj_disj_distrib)
  also have "(mask 8 OR push_bit 8 (mask 8)) = (- 1 :: 16 word)"
    by (simp add: mask_eq_exp_minus_1)
  finally show ?thesis by simp
qed

lemma Uint32_Put [simp]: "Uint32 (PutUint32 v @ r) = v"
proof -
  have "Uint32 (PutUint32 v @ r) = ucast (ucast v :: byte) OR
      push_bit 8 (ucast (ucast (drop_bit 8 v) :: byte)) OR
      push_bit 16 (ucast (ucast (drop_bit 16 v) :: byte)) OR
      push_bit 24 (ucast (ucast (drop_bit 24 v) :: byte))"
    by (simp add: Uint32_def PutUint32_def)
  also have "\<dots> = v AND (mask 8 OR push_bit 8 (mask 8) OR push_bit 16 (mask 8) OR push_bit 24 (mask 8))"
    by (simp only: byte_parts bit.conj_disj_distrib)
  also have "(mask 8 OR push_bit 8 (mask 8) OR push_bit 16 (mask 8) OR push_bit 24 (mask 8)) = (- 1 :: 32 word)"
    by (simp add: mask_eq_exp_minus_1)
  finally show ?thesis by simp
qed

lemma Uint64_Put [simp]: "Uint64 (PutUint64 v @ r) = v"
proof -
  have "Uint64 (PutUint64 v @ r) = ucast (ucast v :: byte) OR
      push_bit 8 (ucast (ucast (drop_bit 8 v) :: byte)) OR
      push_bit 16 (ucast (ucast (drop_bit 16 v) :: byte)) OR
      push_bit 24 (ucast (ucast (drop_bit 24 v) :: byte)) OR
      push_bit 32 (ucast (ucast (drop_bit 32 v) :: byte)) OR
      push_bit 40 (ucast (ucast (drop_bit 40 v) :: byte)) OR
      push_bit 48 (ucast (ucast (drop_bit 48 v) :: byte)) OR
      push_bit 56 (ucast (ucast (drop_bit 56 v) :: byte))"
    by (simp add: Uint64_def PutUint64_def)
  also have "\<dots> = v AND (mask 8 OR push_bit 8 (mask 8) OR push_bit 16 (mask 8) OR push_bit 24 (mask 8) OR push_bit 32 (mask 8) OR push_bit 40 (mask 8) OR push_bit 48 (mask 8) OR push_bit 56 (mask 8))"
    by (simp only: byte_parts bit.conj_disj_distrib)
  also have "(mask 8 OR push_bit 8 (mask 8) OR push_bit 16 (mask 8) OR push_bit 24 (mask 8) OR push_bit 32 (mask 8) OR push_bit 40 (mask 8) OR push_bit 48 (mask 8) OR push_bit 56 (mask 8)) = (- 1 :: 64 word)"
    by (simp add: mask_eq_exp_minus_1)
  finally show ?thesis by simp
qed

lemma PutUint16_inj: "PutUint16 v = PutUint16 w \<longleftrightarrow> v = w"
  using Uint16_Put [of v "[]"] Uint16_Put [of w "[]"] by metis

section \<open>Strings as bytes\<close>

definition bytes_of :: "string \<Rightarrow> byte list" where
  "bytes_of s = map (\<lambda>c. word_of_int (of_char c)) s"

lemma bytes_of_inj [simp]: "bytes_of s = bytes_of t \<longleftrightarrow> s = t"
proof -
  have "inj (\<lambda>c. word_of_int (of_char c) :: byte)"
  proof (rule injI)
    fix c d :: char
    assume "(word_of_int (of_char c) :: byte) = word_of_int (of_char d)"
    then have "take_bit 8 (of_char c :: int) = take_bit 8 (of_char d)"
      by (simp add: word_of_int_eq_iff)
    then show "c = d" by (simp add: take_bit_eq_mod)
  qed
  then show ?thesis by (simp add: bytes_of_def inj_map_eq_map)
qed

lemma length_bytes_of [simp]: "length (bytes_of s) = length s"
  by (simp add: bytes_of_def)

section \<open>Hexadecimal text\<close>

definition hexDigit :: "byte \<Rightarrow> char" where
  "hexDigit b = ''0123456789abcdef'' ! unat b"

definition fromHexChar :: "char \<Rightarrow> byte option" where
  "fromHexChar c =
     (let n = of_char c :: int
      in if 48 \<le> n \<and> n \<le> 57 then Some (word_of_int (n - 48))
         else if 97 \<le> n \<and> n \<le> 102 then Some (word_of_int (n - 87))
         else if 65 \<le> n \<and> n \<le> 70 then Some (word_of_int (n - 55))
         else None)"

definition hex_EncodeToString :: "byte list \<Rightarrow> string" where
  "hex_EncodeToString bs = concat (map (\<lambda>b. [hexDigit (drop_bit 4 b), hexDigit (b AND 15)]) bs)"

text \<open>\<open>None\<close> for both errors of \<open>hex.DecodeString\<close> (an invalid character, an odd length).\<close>

fun hex_DecodeString :: "string \<Rightarrow> byte list option" where
  "hex_DecodeString [] = Some []"
| "hex_DecodeString [c] = None"
| "hex_DecodeString (c # d # s) =
     (case (fromHexChar c, fromHexChar d) of
        (Some a, Some b) \<Rightarrow> map_option (Cons (push_bit 4 a OR b)) (hex_DecodeString s)
      | _ \<Rightarrow> None)"

lemma fromHex_digit: "unat b < 16 \<Longrightarrow> fromHexChar (hexDigit b) = Some b"
proof -
  have "\<forall>n \<in> set [0..<16]. fromHexChar (''0123456789abcdef'' ! n) = Some (word_of_nat n)" by code_simp
  moreover assume "unat b < 16"
  ultimately have "fromHexChar (''0123456789abcdef'' ! unat b) = Some (word_of_nat (unat b))" by simp
  then show ?thesis by (simp add: hexDigit_def)
qed

lemma nibbles: "unat (drop_bit 4 b) < 16" "unat (b AND 15) < 16" "push_bit 4 (drop_bit 4 b) OR (b AND 15) = b"
  for b :: byte
proof -
  have "unat b < 256" using unsigned_less [of b, where ?'a = nat] by simp
  then show "unat (drop_bit 4 b) < 16" by (simp only: unat_drop_bit_eq) (simp add: drop_bit_eq_div)
  have m: "b AND 15 = take_bit 4 b" by (simp add: take_bit_eq_mask mask_eq_exp_minus_1)
  show "unat (b AND 15) < 16" unfolding m by (simp only: unsigned_take_bit_eq) (simp add: take_bit_eq_mod)
  show "push_bit 4 (drop_bit 4 b) OR (b AND 15) = b"
    unfolding m by (rule bit_word_eqI) (auto simp: bit_or_iff bit_push_bit_iff bit_drop_bit_eq bit_take_bit_iff)
qed

lemma hex_roundtrip [simp]: "hex_DecodeString (hex_EncodeToString bs) = Some bs"
  by (induction bs) (simp_all add: hex_EncodeToString_def fromHex_digit nibbles)

lemma length_hex_Encode [simp]: "length (hex_EncodeToString bs) = 2 * length bs"
  by (induction bs) (simp_all add: hex_EncodeToString_def)

lemma length_hex_Decode: "hex_DecodeString s = Some bs \<Longrightarrow> length s = 2 * length bs"
  by (induction s arbitrary: bs rule: hex_DecodeString.induct) (auto split: option.splits)

text \<open>Printable ASCII text and hexadecimal text are left alone by the normalisations.\<close>

definition plainChar :: "char \<Rightarrow> bool" where
  "plainChar c \<longleftrightarrow> 0x21 \<le> (of_char c :: int) \<and> (of_char c :: int) \<le> 0x7e"

lemma plain_no_space:
  assumes "plainChar c"
  shows "\<not> ascii_space c" "\<not> space2 c b" "\<not> space2 b c" "\<not> space3 c b d" "\<not> space3 b d c"
  using assms by (auto simp: plainChar_def ascii_space_def space2_def space3_def)

lemma TrimSpace_plain:
  assumes "list_all plainChar s"
  shows "TrimSpace s = s"
proof -
  have "space_len s = 0" using assms by (cases s rule: space_len.cases) (simp_all add: plain_no_space)
  then have l: "trim_left s = s" by (simp add: trim_left_def strip_id)
  have "list_all plainChar (rev s)" using assms by (simp add: list_all_iff)
  then have "space_len_rev (rev s) = 0"
    by (cases "rev s" rule: space_len_rev.cases) (simp_all add: plain_no_space)
  then show ?thesis by (simp add: TrimSpace_def trim_right_def l strip_id)
qed

lemma hexDigit_in: "unat b < 16 \<Longrightarrow> hexDigit b \<in> set ''0123456789abcdef''"
  unfolding hexDigit_def by (rule nth_mem) simp

lemma hex_chars: "set (hex_EncodeToString bs) \<subseteq> set ''0123456789abcdef''"
proof -
  have "hexDigit (drop_bit 4 b) \<in> set ''0123456789abcdef''" "hexDigit (b AND 15) \<in> set ''0123456789abcdef''"
    for b :: byte by (rule hexDigit_in, rule nibbles)+
  then show ?thesis unfolding hex_EncodeToString_def by fastforce
qed

lemma hex_chars_ok: "\<forall>c \<in> set ''0123456789abcdef''. plainChar c \<and> lower_char c = c"
  by code_simp

lemma hex_trim [simp]: "TrimSpace (hex_EncodeToString bs) = hex_EncodeToString bs"
  by (rule TrimSpace_plain) (use hex_chars [of bs] hex_chars_ok in \<open>auto simp: list_all_iff\<close>)

lemma hex_normalized [simp]: "normalizeFingerprint (hex_EncodeToString bs) = hex_EncodeToString bs"
  unfolding normalizeFingerprint_def hex_trim ToLower_def
  by (rule map_idI) (use hex_chars [of bs] hex_chars_ok in blast)

section \<open>Prefix-free encodings\<close>

text \<open>
  An encoding whose values can be told apart from the front of a byte sequence, and one that comes
  with a decoder that does so.
\<close>

locale prefix_code =
  fixes enc :: "'a \<Rightarrow> byte list" and ok :: "'a \<Rightarrow> bool"
  assumes prefix_free: "ok x \<Longrightarrow> ok y \<Longrightarrow> enc x @ s = enc y @ t \<Longrightarrow> x = y \<and> s = t"
begin

lemma enc_inj: "ok x \<Longrightarrow> ok y \<Longrightarrow> enc x = enc y \<Longrightarrow> x = y"
  using prefix_free [of x y "[]" "[]"] by simp

lemma sequence_inj:
  "list_all ok xs \<Longrightarrow> list_all ok ys \<Longrightarrow> length xs = length ys \<Longrightarrow>
     concat (map enc xs) @ s = concat (map enc ys) @ t \<Longrightarrow> xs = ys \<and> s = t"
proof (induction xs arbitrary: ys)
  case (Cons x xs)
  then obtain y ys' where ys: "ys = y # ys'" by (cases ys) auto
  with Cons.prems have "enc x @ (concat (map enc xs) @ s) = enc y @ (concat (map enc ys') @ t)"
    "ok x" "ok y" by auto
  with prefix_free have "x = y" "concat (map enc xs) @ s = concat (map enc ys') @ t" by blast+
  with Cons.IH [of ys'] Cons.prems show ?case by (simp add: ys)
qed simp

end

locale stream_code =
  fixes enc :: "'a \<Rightarrow> byte list" and ok :: "'a \<Rightarrow> bool"
    and dec :: "byte list \<Rightarrow> ('a \<times> byte list) option"
  assumes dec_enc: "ok x \<Longrightarrow> dec (enc x @ s) = Some (x, s)"
begin

fun dec_seq :: "nat \<Rightarrow> byte list \<Rightarrow> ('a list \<times> byte list) option" where
  "dec_seq 0 bs = Some ([], bs)"
| "dec_seq (Suc n) bs =
     (case dec bs of
        None \<Rightarrow> None
      | Some (x, r) \<Rightarrow> (case dec_seq n r of None \<Rightarrow> None | Some (xs, r') \<Rightarrow> Some (x # xs, r')))"

lemma dec_seq_enc: "list_all ok xs \<Longrightarrow> dec_seq (length xs) (concat (map enc xs) @ s) = Some (xs, s)"
  by (induction xs) (simp_all add: dec_enc)

end

sublocale stream_code \<subseteq> prefix_code enc ok
proof
  fix x y s t
  assume "ok x" "ok y" "enc x @ s = enc y @ t"
  then have "dec (enc x @ s) = Some (x, s)" "dec (enc x @ s) = Some (y, t)" using dec_enc by metis+
  then show "x = y \<and> s = t" by simp
qed

end
