(* ===== verification/Frame_Codec.thy ===== *)
theory Frame_Codec
  imports Go_Bytes
begin

text \<open>
  The frames of the terminal protocol (\<open>internal/connectivity/frame/frame.go\<close>): QUIC-style
  variable length integers, encoding and decoding of a frame in memory, and reading one from a
  stream. Lengths are 64 bit words as in the source. A reader is the bytes it still delivers and the
  error it ends with.
\<close>

unbundle bit_operations_syntax

datatype frameError = ErrTruncatedVarint | ErrPayloadTooLarge | ErrInvalidVarint | ErrUnexpectedEOF
  | ErrReader

record Frame =
  fr_Type :: byte
  fr_Payload :: "byte list"

section \<open>Variable length integers\<close>

definition encodeVarint :: "64 word \<Rightarrow> frameError + byte list" where
  "encodeVarint v =
     (if v \<le> 63 then Inr [ucast v]
      else if v \<le> 16383 then Inr (PutUint16 (ucast v OR 0x4000))
      else if v \<le> 1073741823 then Inr (PutUint32 (ucast v OR 0x80000000))
      else if v \<le> 4611686018427387903 then Inr (PutUint64 (v OR 0xc000000000000000))
      else Inl ErrInvalidVarint)"

definition varintEncodedLen :: "byte \<Rightarrow> nat" where
  "varintEncodedLen b = 2 ^ unat (drop_bit 6 b)"

definition decodeVarint :: "byte list \<Rightarrow> frameError + 64 word \<times> nat" where
  "decodeVarint raw =
     (if raw = [] then Inl ErrTruncatedVarint
      else let encodedLen = varintEncodedLen (raw ! 0)
           in if length raw < encodedLen then Inl ErrTruncatedVarint
              else if encodedLen = 1 then Inr (ucast (raw ! 0 AND 0x3f), 1)
              else if encodedLen = 2 then Inr (ucast (Uint16 (take 2 raw) AND 0x3fff), 2)
              else if encodedLen = 4 then Inr (ucast (Uint32 (take 4 raw) AND 0x3fffffff), 4)
              else if encodedLen = 8 then Inr (Uint64 (take 8 raw) AND 0x3fffffffffffffff, 8)
              else Inl ErrInvalidVarint)"

section \<open>Frames in memory\<close>

definition Encode :: "Frame \<Rightarrow> frameError + byte list" where
  "Encode frame =
     (case encodeVarint (word_of_nat (length (fr_Payload frame))) of
        Inl e \<Rightarrow> Inl e
      | Inr len \<Rightarrow> Inr ([fr_Type frame] @ len @ fr_Payload frame))"

definition Decode :: "byte list \<Rightarrow> int \<Rightarrow> frameError + Frame \<times> nat" where
  "Decode raw maxPayload =
     (if length raw < 2 then Inl ErrTruncatedVarint
      else case decodeVarint (drop 1 raw) of
          Inl e \<Rightarrow> Inl e
        | Inr (payloadLen, varintLen) \<Rightarrow>
            if payloadLen > word_of_int maxPayload then Inl ErrPayloadTooLarge
            else let headerLen = 1 + varintLen;
                     totalLen = headerLen + unat payloadLen
                 in if length raw < totalLen then Inl ErrUnexpectedEOF
                    else Inr (\<lparr>fr_Type = raw ! 0,
                               fr_Payload = drop headerLen (take totalLen raw)\<rparr>, totalLen))"

section \<open>Frames on a stream\<close>

datatype ioError = EOF | UnexpectedEOF | OtherError

record reader =
  rd_data :: "byte list"
  rd_end :: ioError

definition ReadFull :: "nat \<Rightarrow> reader \<Rightarrow> (ioError + byte list) \<times> reader" where
  "ReadFull n r =
     (if n \<le> length (rd_data r) then (Inr (take n (rd_data r)), r\<lparr>rd_data := drop n (rd_data r)\<rparr>)
      else (Inl (if rd_end r = EOF \<and> rd_data r \<noteq> [] then UnexpectedEOF else rd_end r),
            r\<lparr>rd_data := []\<rparr>))"

definition readError :: "frameError \<Rightarrow> ioError \<Rightarrow> frameError" where
  "readError short e = (if e = EOF \<or> e = UnexpectedEOF then short else ErrReader)"

definition Read :: "reader \<Rightarrow> int \<Rightarrow> (frameError + Frame) \<times> reader" where
  "Read r maxPayload =
     (case ReadFull 2 r of
        (Inl e, r1) \<Rightarrow> (Inl (readError ErrTruncatedVarint e), r1)
      | (Inr header, r1) \<Rightarrow>
          let varintLen = varintEncodedLen (header ! 1);
              (more, r2) = (if varintLen > 1 then ReadFull (varintLen - 1) r1 else (Inr [], r1))
          in case more of
               Inl e \<Rightarrow> (Inl (readError ErrTruncatedVarint e), r2)
             | Inr rest \<Rightarrow>
                 (case decodeVarint (drop 1 header @ rest) of
                    Inl e \<Rightarrow> (Inl e, r2)
                  | Inr (payloadLen, _) \<Rightarrow>
                      if payloadLen > word_of_int maxPayload then (Inl ErrPayloadTooLarge, r2)
                      else case ReadFull (unat payloadLen) r2 of
                          (Inl e, r3) \<Rightarrow> (Inl (readError ErrUnexpectedEOF e), r3)
                        | (Inr payload, r3) \<Rightarrow>
                            (Inr \<lparr>fr_Type = header ! 0, fr_Payload = payload\<rparr>, r3)))"

definition frame_Write :: "Frame \<Rightarrow> (byte list \<Rightarrow> frameError option) \<Rightarrow> frameError option \<times> byte list" where
  "frame_Write frame w =
     (case Encode frame of Inl e \<Rightarrow> (Some e, []) | Inr raw \<Rightarrow> (w raw, raw))"

section \<open>Round trip of integers\<close>

lemma small_word:
  fixes v :: "'a :: len word"
  assumes "unat v < 2 ^ n"
  shows "bit v k \<Longrightarrow> k < n"
proof -
  have "take_bit n v = v"
    by (rule unsigned_word_eqI [where ?'a = nat])
      (use assms in \<open>simp add: unsigned_take_bit_eq take_bit_nat_eq_self_iff\<close>)
  then show "bit v k \<Longrightarrow> k < n" by (metis bit_take_bit_iff)
qed

lemmas bit_iffs = bit_or_iff bit_and_iff bit_mask_iff bit_ucast_iff bit_drop_bit_eq bit_take_bit_iff

lemma high_zero:
  fixes v :: "64 word"
  assumes "unat v < 2 ^ n"
  shows "drop_bit n (ucast v :: 'a :: len word) = 0"
  by (rule bit_word_eqI) (use small_word [OF assms] in \<open>fastforce simp: bit_iffs\<close>)

lemma low_same:
  fixes v :: "64 word"
  assumes "unat v < 2 ^ n" "n \<le> LENGTH('a)"
  shows "ucast (take_bit n (ucast v :: 'a :: len word)) = v"
  by (rule bit_word_eqI) (use small_word [OF assms(1)] assms(2) in \<open>fastforce simp: bit_iffs\<close>)

lemma first_byte_tag:
  "drop_bit 6 (ucast (drop_bit 8 a) :: byte) = ucast (drop_bit 14 a)"
  "drop_bit 6 (ucast (drop_bit 24 b) :: byte) = ucast (drop_bit 30 b)"
  "drop_bit 6 (ucast (drop_bit 56 c) :: byte) = ucast (drop_bit 62 c)"
  for a :: "16 word" and b :: "32 word" and c :: "64 word"
proof -
  show "drop_bit 6 (ucast (drop_bit 8 a) :: byte) = ucast (drop_bit 14 a)"
    by (rule bit_word_eqI) (auto simp: bit_iffs dest: bit_imp_le_length)
  show "drop_bit 6 (ucast (drop_bit 24 b) :: byte) = ucast (drop_bit 30 b)"
    by (rule bit_word_eqI) (auto simp: bit_iffs dest: bit_imp_le_length)
  show "drop_bit 6 (ucast (drop_bit 56 c) :: byte) = ucast (drop_bit 62 c)"
    by (rule bit_word_eqI) (auto simp: bit_iffs dest: bit_imp_le_length)
qed

lemma masks:
  "d AND 0x3f = take_bit 6 d" "a AND 0x3fff = take_bit 14 a" "b AND 0x3fffffff = take_bit 30 b"
  "c AND 0x3fffffffffffffff = take_bit 62 c"
  for d :: byte and a :: "16 word" and b :: "32 word" and c :: "64 word"
  by (simp_all add: take_bit_eq_mask mask_eq_exp_minus_1)

lemma varint1:
  assumes "unat (v :: 64 word) < 2 ^ 6"
  shows "drop_bit 6 (ucast v :: byte) = 0" "ucast ((ucast v :: byte) AND 0x3f) = v"
  unfolding masks using high_zero [OF assms] low_same [OF assms, where ?'a = 8] by simp_all

lemma varint2:
  assumes "unat (v :: 64 word) < 2 ^ 14"
  shows "drop_bit 6 (ucast (drop_bit 8 (ucast v OR 0x4000 :: 16 word)) :: byte) = 1"
    "ucast ((ucast v OR 0x4000 :: 16 word) AND 0x3fff) = v"
  unfolding masks first_byte_tag unfolding drop_bit_or take_bit_or high_zero [OF assms]
  using low_same [OF assms, where ?'a = 16] by simp_all

lemma varint4:
  assumes "unat (v :: 64 word) < 2 ^ 30"
  shows "drop_bit 6 (ucast (drop_bit 24 (ucast v OR 0x80000000 :: 32 word)) :: byte) = 2"
    "ucast ((ucast v OR 0x80000000 :: 32 word) AND 0x3fffffff) = v"
  unfolding masks first_byte_tag unfolding drop_bit_or take_bit_or high_zero [OF assms]
  using low_same [OF assms, where ?'a = 32] by simp_all

lemma varint8:
  assumes "unat (v :: 64 word) < 2 ^ 62"
  shows "drop_bit 6 (ucast (drop_bit 56 (v OR 0xc000000000000000)) :: byte) = 3"
    "(v OR 0xc000000000000000) AND 0x3fffffffffffffff = v"
  unfolding masks first_byte_tag unfolding drop_bit_or take_bit_or
  using high_zero [OF assms, where ?'a = 64] low_same [OF assms, where ?'a = 64] by simp_all

lemma le_unat:
  "v \<le> 63 \<longleftrightarrow> unat v < 2 ^ 6" "v \<le> 16383 \<longleftrightarrow> unat v < 2 ^ 14"
  "v \<le> 1073741823 \<longleftrightarrow> unat v < 2 ^ 30" "v \<le> 4611686018427387903 \<longleftrightarrow> unat v < 2 ^ 62" for v :: "64 word"
  by (auto simp: word_le_nat_alt)

lemma take_Put: "take 2 (PutUint16 a @ r) = PutUint16 a" "take 4 (PutUint32 b @ r) = PutUint32 b"
  "take 8 (PutUint64 c @ r) = PutUint64 c"
  by simp_all

lemma nth0_Put: "(PutUint16 a @ r) ! 0 = ucast (drop_bit 8 a)" "(PutUint32 b @ r) ! 0 = ucast (drop_bit 24 b)"
  "(PutUint64 c @ r) ! 0 = ucast (drop_bit 56 c)"
  by (simp_all add: PutUint16_def PutUint32_def PutUint64_def)

lemma Uint_Put_exact: "Uint16 (PutUint16 a) = a" "Uint32 (PutUint32 b) = b" "Uint64 (PutUint64 c) = c"
  using Uint16_Put [of a "[]"] Uint32_Put [of b "[]"] Uint64_Put [of c "[]"] by (simp_all only: append_Nil2)

lemma Put_nonempty: "PutUint16 a \<noteq> []" "PutUint32 b \<noteq> []" "PutUint64 c \<noteq> []"
  by (simp_all add: PutUint16_def PutUint32_def PutUint64_def)

lemma decode_encode_varint:
  assumes "encodeVarint v = Inr bs"
  shows "decodeVarint (bs @ r) = Inr (v, length bs)"
proof -
  consider "unat v < 2 ^ 6" "bs = [ucast v]"
    | "unat v < 2 ^ 14" "bs = PutUint16 (ucast v OR 0x4000)"
    | "unat v < 2 ^ 30" "bs = PutUint32 (ucast v OR 0x80000000)"
    | "unat v < 2 ^ 62" "bs = PutUint64 (v OR 0xc000000000000000)"
    using assms by (auto simp only: encodeVarint_def le_unat split: if_splits)
  then show ?thesis
  proof cases
    case 1
    then show ?thesis
      by (simp add: decodeVarint_def varintEncodedLen_def Let_def varint1 [OF 1(1)])
  next
    case 2
    note v = varint2 [OF 2(1)]
    show ?thesis
      unfolding 2(2) decodeVarint_def varintEncodedLen_def Let_def nth0_Put take_Put Uint_Put_exact v
      by (simp add: Put_nonempty)
  next
    case 3
    note v = varint4 [OF 3(1)]
    show ?thesis
      unfolding 3(2) decodeVarint_def varintEncodedLen_def Let_def nth0_Put take_Put Uint_Put_exact v
      by (simp add: Put_nonempty)
  next
    case 4
    note v = varint8 [OF 4(1)]
    show ?thesis
      unfolding 4(2) decodeVarint_def varintEncodedLen_def Let_def nth0_Put take_Put Uint_Put_exact v
      by (simp add: Put_nonempty)
  qed
qed

lemma encodeVarint_total: "unat v < 2 ^ 62 \<Longrightarrow> \<exists>bs. encodeVarint v = Inr bs \<and> length bs \<in> {1, 2, 4, 8}"
  by (simp only: encodeVarint_def le_unat) simp

lemma encodeVarint_error: "\<not> unat v < 2 ^ 62 \<Longrightarrow> encodeVarint v = Inl ErrInvalidVarint"
  by (simp only: encodeVarint_def le_unat) simp

section \<open>Bounds of the decoders\<close>

lemma unat_ucast_take:
  "unat (ucast (take_bit n w) :: 64 word) < 2 ^ n" for w :: "'a :: len word"
proof -
  have "unat (ucast (take_bit n w) :: 64 word) = take_bit 64 (take_bit n (unat w))"
    by (simp add: unsigned_ucast_eq unsigned_take_bit_eq min.commute)
  also have "\<dots> \<le> take_bit n (unat w)" by (rule take_bit_nat_less_eq_self)
  also have "\<dots> < 2 ^ n" by simp
  finally show ?thesis .
qed

lemma decodeVarint_bound:
  assumes "decodeVarint raw = Inr (v, n)"
  shows "unat v < 2 ^ 62" "1 \<le> n" "n \<le> length raw" "n = varintEncodedLen (raw ! 0)"
proof -
  have u: "unat v < 2 ^ 6 \<or> unat v < 2 ^ 14 \<or> unat v < 2 ^ 30 \<or> unat v < 2 ^ 62"
    using assms unat_ucast_take [of 6 "raw ! 0"] unat_ucast_take [of 14 "Uint16 (take 2 raw)"]
      unat_ucast_take [of 30 "Uint32 (take 4 raw)"] unat_ucast_take [of 62 "Uint64 (take 8 raw)"]
    by (auto simp: decodeVarint_def Let_def masks split: if_splits)
  then show "unat v < 2 ^ 62" by auto
  show "1 \<le> n" "n \<le> length raw" "n = varintEncodedLen (raw ! 0)"
    using assms by (cases raw; auto simp: decodeVarint_def Let_def not_less split: if_splits)+
qed

lemma varintEncodedLen_cases: "varintEncodedLen b \<in> {1, 2, 4, 8}"
proof -
  have "unat b < 256" using unsigned_less [of b, where ?'a = nat] by simp
  then have "unat (drop_bit 6 b) < 4" by (simp only: unat_drop_bit_eq) (simp add: drop_bit_eq_div)
  then have "unat (drop_bit 6 b) \<in> {0, 1, 2, 3}" by auto
  then show ?thesis by (auto simp: varintEncodedLen_def)
qed

lemma decodeVarint_local:
  assumes "varintEncodedLen (raw ! 0) \<le> length raw" "raw \<noteq> []"
  shows "decodeVarint (take (varintEncodedLen (raw ! 0)) raw) = decodeVarint raw"
    "decodeVarint raw \<noteq> Inl ErrTruncatedVarint"
  using assms varintEncodedLen_cases [of "raw ! 0"]
  by (auto simp: decodeVarint_def Let_def min_def)

section \<open>Frames\<close>

lemma unat64: "n < 2 ^ 64 \<Longrightarrow> unat (word_of_nat n :: 64 word) = n"
  by (simp add: unsigned_of_nat take_bit_nat_eq_self)

lemma Decode_Encode:
  assumes enc: "Encode f = Inr bs" and len: "int (length (fr_Payload f)) \<le> maxPayload" "maxPayload < 2 ^ 63"
  shows "Decode (bs @ r) maxPayload = Inr (f, length bs)"
proof -
  let ?n = "length (fr_Payload f)"
  let ?w = "word_of_nat ?n :: 64 word"
  obtain vs where vs: "encodeVarint ?w = Inr vs" and bs: "bs = [fr_Type f] @ vs @ fr_Payload f"
    using enc by (auto simp: Encode_def split: sum.splits)
  have n: "?n < 2 ^ 63" using len by (simp flip: of_nat_less_iff)
  then have un: "unat ?w = ?n" by (simp add: unat64)
  have dec: "decodeVarint (vs @ fr_Payload f @ r) = Inr (?w, length vs)"
    by (rule decode_encode_varint [OF vs])
  have "vs \<noteq> []" using decodeVarint_bound(2) [OF decode_encode_varint [OF vs, of "[]"]] by auto
  then have two: "\<not> length (bs @ r) < 2" by (cases vs) (simp_all add: bs)
  have "\<not> (word_of_int maxPayload :: 64 word) < ?w"
  proof -
    have "uint ?w = int ?n" using un by (metis uint_nat)
    moreover have "uint (word_of_int maxPayload :: 64 word) = maxPayload"
      using len by (simp add: uint_word_of_int)
    ultimately show ?thesis using len by (simp add: word_less_def)
  qed
  then show ?thesis
    using two dec un by (simp add: Decode_def bs Let_def)
qed

lemma Encode_total:
  assumes "length (fr_Payload f) < 2 ^ 62"
  shows "\<exists>bs. Encode f = Inr bs \<and> length bs \<le> 9 + length (fr_Payload f)"
proof -
  have "unat (word_of_nat (length (fr_Payload f)) :: 64 word) < 2 ^ 62"
    using assms by (simp add: unat64)
  then obtain vs where "encodeVarint (word_of_nat (length (fr_Payload f))) = Inr vs" "length vs \<in> {1, 2, 4, 8}"
    using encodeVarint_total by blast
  then show ?thesis by (auto simp: Encode_def)
qed

lemma Decode_sound:
  assumes "Decode raw maxPayload = Inr (f, n)" "0 \<le> maxPayload" "maxPayload < 2 ^ 63"
  shows "int (length (fr_Payload f)) \<le> maxPayload" "2 \<le> n" "n \<le> length raw" "fr_Type f = raw ! 0"
proof -
  obtain v k where d: "decodeVarint (drop 1 raw) = Inr (v, k)" "v \<le> word_of_int maxPayload"
    "n = 1 + k + unat v" "n \<le> length raw" "f = \<lparr>fr_Type = raw ! 0, fr_Payload = drop (1 + k) (take n raw)\<rparr>"
    using assms(1) by (auto simp: Decode_def Let_def not_less split: if_splits sum.splits prod.splits)
  have "uint v \<le> maxPayload"
    using d(2) assms(2,3) by (simp add: word_le_def uint_word_of_int)
  moreover have "length (fr_Payload f) = unat v" using d by simp
  ultimately show "int (length (fr_Payload f)) \<le> maxPayload" by (metis uint_nat)
  show "2 \<le> n" "n \<le> length raw" "fr_Type f = raw ! 0"
    using d decodeVarint_bound(2) [OF d(1)] by auto
qed

text \<open>The stream reader computes what the decoder computes on the bytes the stream delivers.\<close>

lemma Read_Decode:
  "Read \<lparr>rd_data = raw, rd_end = EOF\<rparr> maxPayload =
     (case Decode raw maxPayload of
        Inl e \<Rightarrow> (Inl e, snd (Read \<lparr>rd_data = raw, rd_end = EOF\<rparr> maxPayload))
      | Inr (f, n) \<Rightarrow> (Inr f, \<lparr>rd_data = drop n raw, rd_end = EOF\<rparr>))"
proof (cases "length raw < 2")
  case True
  then show ?thesis by (simp add: Read_def Decode_def ReadFull_def readError_def)
next
  case False
  define L where "L = varintEncodedLen (raw ! Suc 0)"
  have ne: "drop 1 raw \<noteq> []" "drop 1 raw ! 0 = raw ! Suc 0" using False by auto
  have L: "1 \<le> L" using varintEncodedLen_cases [of "raw ! Suc 0"] by (auto simp: L_def)
  have hd: "take 2 raw ! Suc 0 = raw ! Suc 0" "take 2 raw ! 0 = raw ! 0" using False by simp_all
  show ?thesis
  proof (cases "length raw - 1 < L")
    case True
    then have "decodeVarint (drop 1 raw) = Inl ErrTruncatedVarint"
      using ne by (simp add: decodeVarint_def Let_def L_def)
    then show ?thesis
      using False True
      by (auto simp: Read_def Decode_def ReadFull_def readError_def Let_def hd L_def [symmetric])
  next
    case long: False
    have rest: "drop 1 (take 2 raw) @ take (L - 1) (drop 2 raw) = take L (drop 1 raw)"
    proof -
      have "take L (drop 1 raw) = take 1 (drop 1 raw) @ take (L - 1) (drop 1 (drop 1 raw))"
        using L take_add [of 1 "L - 1" "drop 1 raw"] by simp
      then show ?thesis by (simp add: drop_take numeral_2_eq_2)
    qed
    define r2 where "r2 = \<lparr>rd_data = drop (Suc L) raw, rd_end = EOF\<rparr>"
    have dec: "decodeVarint (drop 1 (take 2 raw) @ take (L - 1) (drop 2 raw)) = decodeVarint (drop 1 raw)"
      unfolding rest using decodeVarint_local(1) [of "drop 1 raw"] ne long by (simp add: L_def)
    have read: "Read \<lparr>rd_data = raw, rd_end = EOF\<rparr> maxPayload =
      (case decodeVarint (drop 1 raw) of
         Inl e \<Rightarrow> (Inl e, r2)
       | Inr (v, _) \<Rightarrow>
           if v > word_of_int maxPayload then (Inl ErrPayloadTooLarge, r2)
           else case ReadFull (unat v) r2 of
               (Inl e, r3) \<Rightarrow> (Inl (readError ErrUnexpectedEOF e), r3)
             | (Inr payload, r3) \<Rightarrow> (Inr \<lparr>fr_Type = raw ! 0, fr_Payload = payload\<rparr>, r3))"
    proof (cases "L = 1")
      case True
      then have "r2 = \<lparr>rd_data = drop 2 raw, rd_end = EOF\<rparr>" by (simp add: r2_def numeral_2_eq_2)
      then show ?thesis
        using dec False True
        by (auto simp: Read_def ReadFull_def Let_def hd L_def [symmetric] split: sum.split prod.split)
    next
      case False
      then have "L - 1 \<le> length raw - 2" "Suc 0 < L" "drop (L - 1) (drop 2 raw) = drop (Suc L) raw"
        using L long \<open>\<not> length raw < 2\<close> by (simp_all add: add.commute)
      then show ?thesis
        using dec \<open>\<not> length raw < 2\<close>
        by (auto simp: Read_def ReadFull_def Let_def hd L_def [symmetric] r2_def
            split: sum.split prod.split)
    qed
    show ?thesis
    proof (cases "decodeVarint (drop 1 raw)")
      case (Inl e)
      then show ?thesis using False by (simp add: read Decode_def)
    next
      case (Inr p)
      obtain v n where p: "p = (v, n)" by (cases p)
      have "n = L" using decodeVarint_bound(4) [of "drop 1 raw" v n] ne Inr p by (simp add: L_def)
      then show ?thesis
        using False Inr p long
        by (auto simp: read Decode_def Let_def ReadFull_def r2_def readError_def drop_take add.commute)
    qed
  qed
qed

section \<open>The frame code as a stream code\<close>

definition frameBytes :: "Frame \<Rightarrow> byte list" where
  "frameBytes f = (case Encode f of Inl _ \<Rightarrow> [] | Inr bs \<Rightarrow> bs)"

definition frameFits :: "int \<Rightarrow> Frame \<Rightarrow> bool" where
  "frameFits maxPayload f \<longleftrightarrow> int (length (fr_Payload f)) \<le> maxPayload"

definition nextFrame :: "int \<Rightarrow> byte list \<Rightarrow> (Frame \<times> byte list) option" where
  "nextFrame maxPayload raw =
     (case Read \<lparr>rd_data = raw, rd_end = EOF\<rparr> maxPayload of
        (Inr f, r) \<Rightarrow> Some (f, rd_data r) | _ \<Rightarrow> None)"

definition DefaultMaxPayload :: int where
  "DefaultMaxPayload = 1048576"

lemma Read_Encode:
  assumes "int (length (fr_Payload f)) \<le> maxPayload" "maxPayload < 2 ^ 62"
  shows "Read \<lparr>rd_data = frameBytes f @ s, rd_end = EOF\<rparr> maxPayload = (Inr f, \<lparr>rd_data = s, rd_end = EOF\<rparr>)"
proof -
  have "length (fr_Payload f) < 2 ^ 62" using assms by (simp flip: of_nat_less_iff)
  then obtain bs where bs: "Encode f = Inr bs" using Encode_total by blast
  then have "frameBytes f = bs" by (simp add: frameBytes_def)
  with Read_Decode [of "bs @ s" maxPayload] Decode_Encode [OF bs assms(1), of s] assms(2)
  show ?thesis by simp
qed

interpretation frame_stream: stream_code frameBytes "frameFits DefaultMaxPayload" "nextFrame DefaultMaxPayload"
proof
  fix f s
  assume "frameFits DefaultMaxPayload f"
  then show "nextFrame DefaultMaxPayload (frameBytes f @ s) = Some (f, s)"
    using Read_Encode [of f DefaultMaxPayload s] by (simp add: nextFrame_def frameFits_def DefaultMaxPayload_def)
qed

text \<open>Reading a stream frame by frame until it ends or a frame is malformed.\<close>

fun readFrames :: "nat \<Rightarrow> int \<Rightarrow> reader \<Rightarrow> Frame list \<times> reader" where
  "readFrames 0 maxPayload r = ([], r)"
| "readFrames (Suc n) maxPayload r =
     (case Read r maxPayload of
        (Inl e, r1) \<Rightarrow> ([], r1)
      | (Inr f, r1) \<Rightarrow> (let (fs, r2) = readFrames n maxPayload r1 in (f # fs, r2)))"

lemma readFrames_written:
  assumes "maxPayload < 2 ^ 62"
  shows "list_all (frameFits maxPayload) fs \<Longrightarrow>
    readFrames (length fs) maxPayload \<lparr>rd_data = concat (map frameBytes fs) @ s, rd_end = EOF\<rparr>
      = (fs, \<lparr>rd_data = s, rd_end = EOF\<rparr>)"
proof (induction fs)
  case (Cons f fs)
  then show ?case
    using Read_Encode [of f maxPayload "concat (map frameBytes fs) @ s"] assms
    by (simp add: frameFits_def)
qed simp

section \<open>Properties\<close>

text \<open>
  Variable length integers round-trip: every value below \<open>2 ^ 62\<close> has an encoding of 1, 2, 4 or 8
  bytes from which the decoder, whatever follows, returns the value and the number of bytes used; a
  larger value is refused.
\<close>

theorem varint_roundtrip:
  "(if unat v < 2 ^ 62
    then \<exists>bs. encodeVarint v = Inr bs \<and> length bs \<in> {1, 2, 4, 8} \<and>
           decodeVarint (bs @ rest) = Inr (v, length bs)
    else encodeVarint v = Inl ErrInvalidVarint)"
  using encodeVarint_total [of v] encodeVarint_error [of v] decode_encode_varint by auto

text \<open>
  C28. Frames written one after the other are read back in order: after the encodings of frames whose
  payloads fit, the stream reader returns exactly these frames and stands at the byte behind them.
\<close>

theorem frames_roundtrip:
  assumes "list_all (frameFits maxPayload) fs" "maxPayload < 2 ^ 62"
  shows "readFrames (length fs) maxPayload \<lparr>rd_data = concat (map frameBytes fs) @ rest, rd_end = EOF\<rparr>
    = (fs, \<lparr>rd_data = rest, rd_end = EOF\<rparr>)"
  by (rule readFrames_written [OF assms(2,1)])

theorem frames_roundtrip_witness:
  "readFrames 2 DefaultMaxPayload
     \<lparr>rd_data = [1, 2, 7, 8, 3, 0, 9], rd_end = EOF\<rparr>
   = ([\<lparr>fr_Type = 1, fr_Payload = [7, 8]\<rparr>, \<lparr>fr_Type = 3, fr_Payload = []\<rparr>],
      \<lparr>rd_data = [9], rd_end = EOF\<rparr>)"
proof -
  let ?fs = "[\<lparr>fr_Type = 1, fr_Payload = [7, 8]\<rparr>, \<lparr>fr_Type = 3, fr_Payload = []\<rparr>]"
  have bytes: "concat (map frameBytes ?fs) @ [9] = [1, 2, 7, 8, 3, 0, 9]" by code_simp
  have "list_all (frameFits DefaultMaxPayload) ?fs" "DefaultMaxPayload < 2 ^ 62" by code_simp+
  from frames_roundtrip [OF this, of "[9]"] show ?thesis
    unfolding bytes by (simp add: numeral_2_eq_2)
qed

text \<open>
  C29. Reading from a stream agrees with decoding in memory, errors included: on a stream that delivers
  \<open>raw\<close> and ends, the reader returns the frame or the error of the decoder on \<open>raw\<close>, and after
  a frame the stream stands where the decoder says the frame ends.
\<close>

theorem stream_reader_equivalence:
  "Read \<lparr>rd_data = raw, rd_end = EOF\<rparr> maxPayload =
     (case Decode raw maxPayload of
        Inl e \<Rightarrow> (Inl e, snd (Read \<lparr>rd_data = raw, rd_end = EOF\<rparr> maxPayload))
      | Inr (f, n) \<Rightarrow> (Inr f, \<lparr>rd_data = drop n raw, rd_end = EOF\<rparr>))"
  by (rule Read_Decode)

text \<open>
  A decoded frame obeys its bounds: the payload is at most \<open>maxPayload\<close> bytes, the frame lies inside
  the input and takes at least two bytes of it, so a loop over the input makes progress.
\<close>

theorem decoded_frame_bounds:
  assumes "Decode raw maxPayload = Inr (f, n)" "0 \<le> maxPayload" "maxPayload < 2 ^ 63"
  shows "int (length (fr_Payload f)) \<le> maxPayload \<and> 2 \<le> n \<and> n \<le> length raw \<and> fr_Type f = raw ! 0"
  using Decode_sound [OF assms] by simp

theorem decoded_frame_bounds_witness:
  "case Decode [4, 1, 5, 6] 10 of Inr (f, n) \<Rightarrow> int (length (fr_Payload f)) \<le> 10 \<and> n = 3 | _ \<Rightarrow> False"
proof -
  have "Decode [4, 1, 5, 6] 10 = Inr (\<lparr>fr_Type = 4, fr_Payload = [5]\<rparr>, 3)" by code_simp
  from decoded_frame_bounds [OF this] this show ?thesis by simp
qed

end
