(* ===== verification/Stun_Server.thy ===== *)
theory Stun_Server
  imports Go_Bytes
begin

text \<open>
  The STUN binding server and client messages (\<open>internal/connectivity/stun/server.go\<close>): building and
  parsing of binding requests and responses with XOR-MAPPED-ADDRESS, and the server loop over the
  events of its packet connection. A transaction id is a list of 12 bytes, an IP address a byte list.
\<close>

unbundle bit_operations_syntax

definition bindingRequest :: "16 word" where "bindingRequest = 0x0001"
definition bindingResponse :: "16 word" where "bindingResponse = 0x0101"
definition xorMappedAddress :: "16 word" where "xorMappedAddress = 0x0020"
definition magicCookie :: "32 word" where "magicCookie = 0x2112A442"
definition headerLen :: nat where "headerLen = 20"

datatype stunError = errInvalidMessage

record UDPAddr =
  ua_IP :: "byte list"
  ua_Port :: int

definition subslice :: "nat \<Rightarrow> nat \<Rightarrow> 'a list \<Rightarrow> 'a list" where
  "subslice i j xs = drop i (take j xs)"

section \<open>Addresses\<close>

text \<open>\<open>net.IP.To4\<close> and \<open>net.IP.To16\<close>; \<open>None\<close> is \<open>nil\<close>.\<close>

definition v4InV6Prefix :: "byte list" where
  "v4InV6Prefix = replicate 10 0 @ [0xff, 0xff]"

definition To4 :: "byte list \<Rightarrow> byte list option" where
  "To4 ip =
     (if length ip = 4 then Some ip
      else if length ip = 16 \<and> take 12 ip = v4InV6Prefix then Some (drop 12 ip)
      else None)"

definition To16 :: "byte list \<Rightarrow> byte list option" where
  "To16 ip =
     (if length ip = 4 then Some (v4InV6Prefix @ ip)
      else if length ip = 16 then Some ip
      else None)"

definition xorBytes :: "byte list \<Rightarrow> byte list \<Rightarrow> byte list" where
  "xorBytes a b = map (\<lambda>(x, y). x XOR y) (zip a b)"

definition xorPort :: "int \<Rightarrow> 16 word" where
  "xorPort port = word_of_int port XOR ucast (drop_bit 16 magicCookie)"

text \<open>The cookie's bytes from the most significant one: \<open>byte(cookie >> (24 - 8*i))\<close>.\<close>

definition cookieBytes :: "byte list" where
  "cookieBytes = map (\<lambda>i. ucast (drop_bit (24 - 8 * i) magicCookie)) [0, 1, 2, 3]"

definition xorMappedAddressValue :: "UDPAddr \<Rightarrow> byte list \<Rightarrow> byte list option" where
  "xorMappedAddressValue addr transactionID =
     (case To4 (ua_IP addr) of
        Some ip4 \<Rightarrow> Some ([0, 0x01] @ PutUint16 (xorPort (ua_Port addr)) @ xorBytes ip4 cookieBytes)
      | None \<Rightarrow>
          (case To16 (ua_IP addr) of
             Some ip16 \<Rightarrow> Some ([0, 0x02] @ PutUint16 (xorPort (ua_Port addr)) @
                            xorBytes ip16 (PutUint32 magicCookie @ transactionID))
           | None \<Rightarrow> None))"

definition parseXORMappedAddressValue :: "byte list \<Rightarrow> byte list \<Rightarrow> stunError + UDPAddr" where
  "parseXORMappedAddressValue value transactionID =
     (if length value < 4 \<or> value ! 0 \<noteq> 0 then Inl errInvalidMessage
      else
        let port = uint (Uint16 (subslice 2 4 value) XOR ucast (drop_bit 16 magicCookie))
        in if value ! 1 = 0x01 then
             (if length value \<noteq> 8 then Inl errInvalidMessage
              else Inr \<lparr>ua_IP = xorBytes (drop 4 value) cookieBytes, ua_Port = port\<rparr>)
           else if value ! 1 = 0x02 then
             (if length value \<noteq> 20 then Inl errInvalidMessage
              else Inr \<lparr>ua_IP = xorBytes (drop 4 value) (PutUint32 magicCookie @ transactionID),
                        ua_Port = port\<rparr>)
           else Inl errInvalidMessage)"

section \<open>Messages\<close>

definition BuildBindingRequest :: "byte list \<Rightarrow> byte list" where
  "BuildBindingRequest transactionID =
     PutUint16 bindingRequest @ [0, 0] @ PutUint32 magicCookie @ transactionID"

definition messageTransactionID :: "16 word \<Rightarrow> byte list \<Rightarrow> byte list option" where
  "messageTransactionID kind message =
     (if length message < headerLen then None
      else if Uint16 (subslice 0 2 message) \<noteq> kind then None
      else
        let msgLen = unat (Uint16 (subslice 2 4 message))
        in if msgLen \<noteq> length message - headerLen \<or> msgLen mod 4 \<noteq> 0 then None
           else if Uint32 (subslice 4 8 message) \<noteq> magicCookie then None
           else Some (subslice 8 20 message))"

definition bindingTransactionID :: "byte list \<Rightarrow> byte list option" where
  "bindingTransactionID message = messageTransactionID bindingRequest message"

definition responseTransactionID :: "byte list \<Rightarrow> stunError + byte list" where
  "responseTransactionID message =
     (case messageTransactionID bindingResponse message of
        None \<Rightarrow> Inl errInvalidMessage | Some t \<Rightarrow> Inr t)"

definition padding :: "nat \<Rightarrow> nat" where
  "padding n = (let remainder = n mod 4 in if remainder = 0 then 0 else 4 - remainder)"

text \<open>
  \<open>bindingTransactionID\<close> and \<open>responseTransactionID\<close> are the same checks for two message types.
  Below, \<open>from\<close> is \<open>None\<close> for an address that is not a UDP address.
\<close>

definition BuildBindingResponse :: "byte list \<Rightarrow> UDPAddr option \<Rightarrow> byte list option" where
  "BuildBindingResponse request from =
     (case bindingTransactionID request of
        None \<Rightarrow> None
      | Some transactionID \<Rightarrow>
          (case from of
             None \<Rightarrow> None
           | Some udpAddr \<Rightarrow>
               (case xorMappedAddressValue udpAddr transactionID of
                  None \<Rightarrow> None
                | Some value \<Rightarrow>
                    let msgLen = 4 + length value
                    in Some (PutUint16 bindingResponse @ PutUint16 (word_of_nat msgLen) @
                         PutUint32 magicCookie @ transactionID @ PutUint16 xorMappedAddress @
                         PutUint16 (word_of_nat (length value)) @ value))))"

function scanAttributes :: "byte list \<Rightarrow> byte list \<Rightarrow> stunError + UDPAddr" where
  "scanAttributes transactionID attrs =
     (if length attrs < 4 then Inl errInvalidMessage
      else
        let attrType = Uint16 (subslice 0 2 attrs);
            attrLen = unat (Uint16 (subslice 2 4 attrs));
            valueEnd = 4 + attrLen
        in if valueEnd > length attrs then Inl errInvalidMessage
           else if attrType = xorMappedAddress
           then parseXORMappedAddressValue (subslice 4 valueEnd attrs) transactionID
           else
             let padded = valueEnd + padding attrLen
             in if padded > length attrs then Inl errInvalidMessage
                else scanAttributes transactionID (drop padded attrs))"
  by pat_completeness auto
termination
  by (relation "measure (\<lambda>(_, attrs). length attrs)") auto

declare scanAttributes.simps [simp del]

definition ParseBindingSuccess :: "byte list \<Rightarrow> stunError + UDPAddr \<times> byte list" where
  "ParseBindingSuccess message =
     (case responseTransactionID message of
        Inl e \<Rightarrow> Inl e
      | Inr transactionID \<Rightarrow>
          (case scanAttributes transactionID (drop headerLen message) of
             Inl e \<Rightarrow> Inl e
           | Inr addr \<Rightarrow> Inr (addr, transactionID)))"

definition ParseXORMappedAddress :: "byte list \<Rightarrow> stunError + UDPAddr" where
  "ParseXORMappedAddress message =
     (case ParseBindingSuccess message of Inl e \<Rightarrow> Inl e | Inr (addr, _) \<Rightarrow> Inr addr)"

section \<open>The server loop\<close>

text \<open>
  What one round of the loop meets: an error of \<open>SetReadDeadline\<close>, an error of \<open>ReadFrom\<close>, or a
  packet with its sender and the outcome of \<open>WriteTo\<close> should a response be sent. The flag says
  whether the context is done when the error is looked at.
\<close>

datatype netError = Timeout | Closed | OtherNetError

datatype serveEvent =
    DeadlineError
  | ReadError bool netError
  | Packet "byte list" "UDPAddr option" "(bool \<times> netError) option"

datatype serveResult = ServeOk | ServeError

fun Serve :: "serveEvent list \<Rightarrow> (byte list \<times> UDPAddr option) list \<times> serveResult option" where
  "Serve [] = ([], None)"
| "Serve (DeadlineError # es) = ([], Some ServeError)"
| "Serve (ReadError done e # es) =
     (if done then ([], Some ServeOk)
      else if e = Timeout then Serve es
      else if e = Closed then ([], Some ServeOk)
      else ([], Some ServeError))"
| "Serve (Packet request from outcome # es) =
     (case BuildBindingResponse request from of
        None \<Rightarrow> Serve es
      | Some response \<Rightarrow>
          (case outcome of
             None \<Rightarrow> (let (sent, res) = Serve es in ((response, from) # sent, res))
           | Some (done, e) \<Rightarrow>
               ([], Some (if done \<or> e = Closed then ServeOk else ServeError))))"

section \<open>Round trip\<close>

lemma xorBytes_length [simp]: "length (xorBytes a b) = min (length a) (length b)"
  by (simp add: xorBytes_def)

lemma xorBytes_twice: "length a \<le> length b \<Longrightarrow> xorBytes (xorBytes a b) b = a"
  by (induction a b rule: list_induct2') (simp_all add: xorBytes_def xor.assoc)

lemma length_cookieBytes [simp]: "length cookieBytes = 4"
  by (simp add: cookieBytes_def)

lemma xorPort_twice: "uint (xorPort p XOR ucast (drop_bit 16 magicCookie)) = p mod 65536"
  by (simp add: xorPort_def xor.assoc uint_word_of_int)

text \<open>The address as the parser returns it: in its shortest form, the port modulo \<open>2 ^ 16\<close>.\<close>

definition canonicalAddr :: "UDPAddr \<Rightarrow> UDPAddr option" where
  "canonicalAddr addr =
     (case To4 (ua_IP addr) of
        Some ip4 \<Rightarrow> Some \<lparr>ua_IP = ip4, ua_Port = ua_Port addr mod 65536\<rparr>
      | None \<Rightarrow>
          (case To16 (ua_IP addr) of
             Some ip16 \<Rightarrow> Some \<lparr>ua_IP = ip16, ua_Port = ua_Port addr mod 65536\<rparr>
           | None \<Rightarrow> None))"

lemma To_lengths: "To4 ip = Some a \<Longrightarrow> length a = 4" "To16 ip = Some b \<Longrightarrow> length b = 16"
  by (auto simp: To4_def To16_def v4InV6Prefix_def split: if_splits)

lemma value_roundtrip:
  assumes "xorMappedAddressValue addr tid = Some v" "length tid = 12"
  shows "\<exists>a. canonicalAddr addr = Some a \<and> parseXORMappedAddressValue v tid = Inr a"
    "length v = 8 \<or> length v = 20"
proof -
  note lens = To_lengths [of "ua_IP addr"]
  have port: "subslice 2 4 (0 # x # PutUint16 w @ r) = PutUint16 w" for x :: byte and w r
    by (simp add: subslice_def)
  have u: "Uint16 (subslice 2 4 (0 # x # PutUint16 w @ r)) = w" for x :: byte and w r
    unfolding port using Uint16_Put [of w "[]"] by simp
  show "length v = 8 \<or> length v = 20"
    using assms lens by (auto simp: xorMappedAddressValue_def split: option.splits)
  show "\<exists>a. canonicalAddr addr = Some a \<and> parseXORMappedAddressValue v tid = Inr a"
    using assms lens
    by (auto simp: xorMappedAddressValue_def canonicalAddr_def parseXORMappedAddressValue_def Let_def
        u xorPort_twice xorBytes_twice split: option.splits)
qed

lemma responseParts:
  assumes "length tid = 12"
  shows "messageTransactionID k (PutUint16 k @ PutUint16 n @ PutUint32 magicCookie @ tid @ r) =
    (if unat n = length r \<and> unat n mod 4 = 0 then Some tid else None)"
proof -
  have "Uint16 (subslice 0 2 (PutUint16 a @ x)) = a" "Uint16 (subslice 2 4 (PutUint16 a @ PutUint16 b @ x)) = b"
    "Uint32 (subslice 4 8 (PutUint16 a @ PutUint16 b @ PutUint32 c @ x)) = c"
    "subslice 8 20 (PutUint16 a @ PutUint16 b @ PutUint32 c @ tid @ x) = tid" for a b c x
    using assms Uint16_Put [of _ "[]"] Uint32_Put [of _ "[]"] by (simp_all add: subslice_def)
  then show ?thesis using assms by (simp add: messageTransactionID_def headerLen_def Let_def)
qed

lemma transactionID_length: "messageTransactionID k m = Some tid \<Longrightarrow> length tid = 12"
  by (auto simp: messageTransactionID_def headerLen_def Let_def subslice_def split: if_splits)

lemma scan_first:
  assumes "length v < 65536"
  shows "scanAttributes tid (PutUint16 xorMappedAddress @ PutUint16 (word_of_nat (length v)) @ v @ r) =
    parseXORMappedAddressValue v tid"
proof -
  let ?attrs = "PutUint16 xorMappedAddress @ PutUint16 (word_of_nat (length v)) @ v @ r"
  have "unat (word_of_nat (length v) :: 16 word) = length v"
    using assms by (simp add: unsigned_of_nat take_bit_nat_eq_self)
  moreover have "Uint16 (subslice 0 2 ?attrs) = xorMappedAddress"
    "Uint16 (subslice 2 4 ?attrs) = word_of_nat (length v)" "subslice 4 (4 + length v) ?attrs = v"
    using Uint16_Put [of _ "[]"] by (simp_all add: subslice_def)
  ultimately show ?thesis
    by (subst scanAttributes.simps) (simp add: Let_def)
qed

lemma response_parsed:
  assumes req: "bindingTransactionID request = Some tid"
    and resp: "BuildBindingResponse request (Some addr) = Some response"
  shows "\<exists>a. canonicalAddr addr = Some a \<and> ParseBindingSuccess response = Inr (a, tid)"
proof -
  have len: "length tid = 12" using req transactionID_length by (simp add: bindingTransactionID_def)
  obtain v where v: "xorMappedAddressValue addr tid = Some v"
    and r: "response = PutUint16 bindingResponse @ PutUint16 (word_of_nat (4 + length v)) @
      PutUint32 magicCookie @ tid @ PutUint16 xorMappedAddress @ PutUint16 (word_of_nat (length v)) @ v"
    using req resp by (auto simp: BuildBindingResponse_def Let_def split: option.splits)
  have lv: "length v = 8 \<or> length v = 20" by (rule value_roundtrip(2) [OF v len])
  have "unat (word_of_nat (4 + length v) :: 16 word) = 4 + length v"
    using lv by (auto simp: unsigned_of_nat take_bit_nat_eq_self)
  then have "messageTransactionID bindingResponse response = Some tid"
    unfolding r responseParts [OF len] using lv by auto
  moreover have "drop headerLen response =
      PutUint16 xorMappedAddress @ PutUint16 (word_of_nat (length v)) @ v @ []"
    using len by (simp add: r headerLen_def)
  then have "scanAttributes tid (drop headerLen response) = parseXORMappedAddressValue v tid"
    using lv by (simp only:) (rule scan_first, auto)
  ultimately show ?thesis
    using value_roundtrip(1) [OF v len] by (auto simp: ParseBindingSuccess_def responseTransactionID_def)
qed

section \<open>Properties\<close>

text \<open>
  A client reads from the server's response the address its request came from: whenever the server
  answers a request, parsing the answer returns the request's transaction id and the sender's address
  (an IPv4 address in its four byte form). A request built by the client is answered for every IPv4 and
  IPv6 sender.
\<close>

theorem stun_roundtrip:
  assumes "bindingTransactionID request = Some tid"
  shows "case BuildBindingResponse request (Some addr) of
      None \<Rightarrow> length (ua_IP addr) \<notin> {4, 16}
    | Some response \<Rightarrow> (\<exists>a. canonicalAddr addr = Some a \<and> ParseBindingSuccess response = Inr (a, tid))"
proof (cases "BuildBindingResponse request (Some addr)")
  case None
  then show ?thesis
    using assms
    by (auto simp: BuildBindingResponse_def xorMappedAddressValue_def To4_def To16_def Let_def
        split: option.splits if_splits)
next
  case (Some response)
  then show ?thesis using response_parsed [OF assms Some] by simp
qed

theorem stun_roundtrip_witness:
  "case BuildBindingResponse (BuildBindingRequest [1,2,3,4,5,6,7,8,9,10,11,12])
       (Some \<lparr>ua_IP = [192, 0, 2, 7], ua_Port = 4242\<rparr>) of
     None \<Rightarrow> False
   | Some response \<Rightarrow> ParseBindingSuccess response =
       Inr (\<lparr>ua_IP = [192, 0, 2, 7], ua_Port = 4242\<rparr>, [1,2,3,4,5,6,7,8,9,10,11,12])"
proof -
  let ?tid = "[1,2,3,4,5,6,7,8,9,10,11,12] :: byte list"
  have "bindingTransactionID (BuildBindingRequest ?tid) = Some ?tid" by code_simp
  note rt = stun_roundtrip [OF this, of "\<lparr>ua_IP = [192, 0, 2, 7], ua_Port = 4242\<rparr>"]
  have "BuildBindingResponse (BuildBindingRequest ?tid) (Some \<lparr>ua_IP = [192, 0, 2, 7], ua_Port = 4242\<rparr>) \<noteq> None"
    "canonicalAddr \<lparr>ua_IP = [192, 0, 2, 7], ua_Port = 4242\<rparr> = Some \<lparr>ua_IP = [192, 0, 2, 7], ua_Port = 4242\<rparr>"
    by code_simp+
  with rt show ?thesis by (auto split: option.splits)
qed

definition benign :: "serveEvent \<Rightarrow> bool" where
  "benign e = (case e of DeadlineError \<Rightarrow> False | ReadError done k \<Rightarrow> \<not> done \<and> k = Timeout
     | Packet _ _ outcome \<Rightarrow> outcome = None)"

fun answers :: "serveEvent list \<Rightarrow> (byte list \<times> UDPAddr option) list" where
  "answers [] = []"
| "answers (e # es) =
     (case e of
        Packet request from _ \<Rightarrow>
          (case BuildBindingResponse request from of None \<Rightarrow> [] | Some response \<Rightarrow> [(response, from)])
      | _ \<Rightarrow> []) @ answers es"



end
