(* ===== verification/Pairing_Transcript.thy ===== *)
theory Pairing_Transcript
  imports Go_Bytes
begin

text \<open>
  The pairing transcripts (\<open>internal/connectivity/pairing\<close>: \<open>sas.go\<close>, \<open>transcript.go\<close>,
  \<open>invitation.go\<close>): length-prefixed canonical encodings, signed invitations and responses, and the
  short authentication string. SHA-256 and Ed25519 are the parameters \<open>cy_sha256\<close>, \<open>cy_sign\<close> and
  \<open>cy_verify\<close> of a \<open>crypto\<close> record; keys, digests and signatures are byte lists.
\<close>

record crypto =
  cy_sha256 :: "byte list \<Rightarrow> byte list"
  cy_sign :: "byte list \<Rightarrow> byte list \<Rightarrow> byte list"
  cy_verify :: "byte list \<Rightarrow> byte list \<Rightarrow> byte list \<Rightarrow> bool"

datatype pairingError =
    ErrInvalidPublicKeyLength
  | ErrSASInputTooLong
  | ErrInvalidVersion
  | ErrInvalidSignature
  | ErrInvalidHexField string
  | ErrFingerprintMismatch
  | ErrInvitationExpired
  | ErrTranscriptMismatch

definition PublicKeySize :: nat where "PublicKeySize = 32"
definition SignatureSize :: nat where "SignatureSize = 64"
definition SASModulo :: int where "SASModulo = 1000000"
definition Version :: int where "Version = 2"

section \<open>Canonical encoding and the short authentication string\<close>

definition appendLengthPrefixed :: "byte list \<Rightarrow> byte list \<Rightarrow> pairingError + byte list" where
  "appendLengthPrefixed out value =
     (if int (length value) > 0xffff then Inl ErrSASInputTooLong
      else Inr (out @ PutUint16 (word_of_nat (length value)) @ value))"

text \<open>The loop \<open>for _, field := range fields\<close> of the canonical encodings.\<close>

fun appendFields :: "byte list \<Rightarrow> byte list list \<Rightarrow> pairingError + byte list" where
  "appendFields out [] = Inr out"
| "appendFields out (field # rest) =
     (case appendLengthPrefixed out field of
        Inl e \<Rightarrow> Inl e
      | Inr out' \<Rightarrow> appendFields out' rest)"

definition CanonicalSASInput ::
    "byte list \<Rightarrow> byte list \<Rightarrow> string \<Rightarrow> byte list \<Rightarrow> pairingError + byte list" where
  "CanonicalSASInput daemonPub androidPub invitationID nonce =
     appendFields [] [daemonPub, androidPub, bytes_of invitationID, nonce]"

text \<open>\<open>fmt.Sprintf("%06d", n)\<close>.\<close>

definition sprintf06 :: "int \<Rightarrow> string" where
  "sprintf06 n = (let s = itoa n in replicate (6 - length s) CHR ''0'' @ s)"

definition ComputeSAS ::
    "crypto \<Rightarrow> byte list \<Rightarrow> byte list \<Rightarrow> string \<Rightarrow> byte list \<Rightarrow> pairingError + string" where
  "ComputeSAS C daemonPub androidPub invitationID nonce =
     (if length daemonPub \<noteq> PublicKeySize \<or> length androidPub \<noteq> PublicKeySize
      then Inl ErrInvalidPublicKeyLength
      else case CanonicalSASInput daemonPub androidPub invitationID nonce of
          Inl e \<Rightarrow> Inl e
        | Inr canonical \<Rightarrow>
            Inr (sprintf06 (uint (Uint32 (take 4 (cy_sha256 C canonical))) mod SASModulo)))"

section \<open>Keys, fingerprints and expiry\<close>

definition PublicKeyFingerprintHex :: "crypto \<Rightarrow> byte list \<Rightarrow> pairingError + string" where
  "PublicKeyFingerprintHex C publicKey =
     (if length publicKey \<noteq> PublicKeySize then Inl ErrInvalidPublicKeyLength
      else Inr (hex_EncodeToString (cy_sha256 C publicKey)))"

definition decodePublicKeyHex :: "string \<Rightarrow> pairingError + byte list" where
  "decodePublicKeyHex raw =
     (case hex_DecodeString (TrimSpace raw) of
        None \<Rightarrow> Inl (ErrInvalidHexField ''public_key'')
      | Some decoded \<Rightarrow>
          if length decoded \<noteq> PublicKeySize then Inl ErrInvalidPublicKeyLength else Inr decoded)"

definition decodeHexField :: "string \<Rightarrow> string \<Rightarrow> pairingError + byte list" where
  "decodeHexField name raw =
     (case hex_DecodeString (TrimSpace raw) of
        None \<Rightarrow> Inl (ErrInvalidHexField name) | Some decoded \<Rightarrow> Inr decoded)"

definition validateFingerprint :: "crypto \<Rightarrow> byte list \<Rightarrow> string \<Rightarrow> pairingError option" where
  "validateFingerprint C publicKey fingerprint =
     (case PublicKeyFingerprintHex C publicKey of
        Inl e \<Rightarrow> Some e
      | Inr computed \<Rightarrow>
          if computed \<noteq> normalizeFingerprint fingerprint then Some ErrFingerprintMismatch else None)"

definition validateExpiry :: "int \<Rightarrow> gotime \<Rightarrow> pairingError option" where
  "validateExpiry expiresAt now =
     (if expiresAt \<le> 0 then Some ErrInvitationExpired
      else if now = 0 then None
      else if \<not> now < time_of_Unix expiresAt then Some ErrInvitationExpired
      else None)"

section \<open>Invitations and responses\<close>

record Invitation =
  iv_Version :: int
  iv_AccountID :: string
  iv_DaemonID :: string
  iv_DaemonDisplayName :: string
  iv_DaemonPublicKey :: string
  iv_DaemonFingerprint :: string
  iv_InvitationID :: string
  iv_CorrelationID :: string
  iv_Nonce :: string
  iv_ExpiresAt :: int
  iv_RelayBaseURL :: string
  iv_Signature :: string

record AndroidResponse =
  ar_Version :: int
  ar_AccountID :: string
  ar_InvitationID :: string
  ar_CorrelationID :: string
  ar_AndroidPublicKey :: string
  ar_AndroidFingerprint :: string
  ar_AndroidDisplayName :: string
  ar_Signature :: string

record VerifiedPairing =
  vp_DaemonPublicKey :: "byte list"
  vp_AndroidPublicKey :: "byte list"
  vp_InvitationID :: string
  vp_Nonce :: "byte list"
  vp_SAS :: string
  vp_AndroidFingerprint :: string

definition stringInt64 :: "int \<Rightarrow> string" where
  "stringInt64 v = itoa v"

definition invitationFields :: "Invitation \<Rightarrow> byte list list" where
  "invitationFields invitation = map bytes_of
     [iv_AccountID invitation, iv_DaemonID invitation, iv_DaemonDisplayName invitation,
      normalizeFingerprint (iv_DaemonFingerprint invitation), iv_DaemonPublicKey invitation,
      iv_InvitationID invitation, iv_CorrelationID invitation, iv_Nonce invitation,
      iv_RelayBaseURL invitation, stringInt64 (iv_ExpiresAt invitation)]"

definition canonicalInvitation :: "Invitation \<Rightarrow> pairingError + byte list" where
  "canonicalInvitation invitation =
     appendFields (bytes_of ''tunnel-pairing-invitation-v1'') (invitationFields invitation)"

definition responseFields :: "AndroidResponse \<Rightarrow> byte list list" where
  "responseFields response = map bytes_of
     [ar_AccountID response, ar_InvitationID response, ar_CorrelationID response,
      normalizeFingerprint (ar_AndroidFingerprint response), ar_AndroidPublicKey response,
      ar_AndroidDisplayName response]"

definition canonicalAndroidResponse :: "AndroidResponse \<Rightarrow> pairingError + byte list" where
  "canonicalAndroidResponse response =
     appendFields (bytes_of ''tunnel-pairing-android-response-v1'') (responseFields response)"

definition SignInvitation :: "crypto \<Rightarrow> Invitation \<Rightarrow> byte list \<Rightarrow> pairingError + Invitation" where
  "SignInvitation C invitation0 privateKey =
     (let invitation = (if iv_Version invitation0 = 0 then invitation0\<lparr>iv_Version := Version\<rparr>
                        else invitation0)
      in if iv_Version invitation \<noteq> Version then Inl ErrInvalidVersion
         else case decodePublicKeyHex (iv_DaemonPublicKey invitation) of
             Inl e \<Rightarrow> Inl e
           | Inr publicKey \<Rightarrow>
               (case validateFingerprint C publicKey (iv_DaemonFingerprint invitation) of
                  Some e \<Rightarrow> Inl e
                | None \<Rightarrow>
                    (case canonicalInvitation invitation of
                       Inl e \<Rightarrow> Inl e
                     | Inr canonical \<Rightarrow>
                         Inr (invitation\<lparr>iv_Signature :=
                           hex_EncodeToString (cy_sign C privateKey canonical)\<rparr>))))"

definition VerifyInvitation :: "crypto \<Rightarrow> Invitation \<Rightarrow> pairingError option" where
  "VerifyInvitation C invitation =
     (if iv_Version invitation \<noteq> Version then Some ErrInvalidVersion
      else case decodePublicKeyHex (iv_DaemonPublicKey invitation) of
          Inl e \<Rightarrow> Some e
        | Inr publicKey \<Rightarrow>
            (case validateFingerprint C publicKey (iv_DaemonFingerprint invitation) of
               Some e \<Rightarrow> Some e
             | None \<Rightarrow>
                 (case decodeHexField ''signature'' (iv_Signature invitation) of
                    Inl e \<Rightarrow> Some e
                  | Inr signature \<Rightarrow>
                      if length signature \<noteq> SignatureSize then Some ErrInvalidSignature
                      else (case canonicalInvitation invitation of
                              Inl e \<Rightarrow> Some e
                            | Inr canonical \<Rightarrow>
                                if \<not> cy_verify C publicKey canonical signature
                                then Some ErrInvalidSignature else None))))"

definition SignAndroidResponse ::
    "crypto \<Rightarrow> AndroidResponse \<Rightarrow> byte list \<Rightarrow> pairingError + AndroidResponse" where
  "SignAndroidResponse C response0 privateKey =
     (let response = (if ar_Version response0 = 0 then response0\<lparr>ar_Version := Version\<rparr>
                      else response0)
      in if ar_Version response \<noteq> Version then Inl ErrInvalidVersion
         else case decodePublicKeyHex (ar_AndroidPublicKey response) of
             Inl e \<Rightarrow> Inl e
           | Inr publicKey \<Rightarrow>
               (case validateFingerprint C publicKey (ar_AndroidFingerprint response) of
                  Some e \<Rightarrow> Inl e
                | None \<Rightarrow>
                    (case canonicalAndroidResponse response of
                       Inl e \<Rightarrow> Inl e
                     | Inr canonical \<Rightarrow>
                         Inr (response\<lparr>ar_Signature :=
                           hex_EncodeToString (cy_sign C privateKey canonical)\<rparr>))))"

definition VerifyAndroidResponse :: "crypto \<Rightarrow> AndroidResponse \<Rightarrow> pairingError option" where
  "VerifyAndroidResponse C response =
     (if ar_Version response \<noteq> Version then Some ErrInvalidVersion
      else case decodePublicKeyHex (ar_AndroidPublicKey response) of
          Inl e \<Rightarrow> Some e
        | Inr publicKey \<Rightarrow>
            (case validateFingerprint C publicKey (ar_AndroidFingerprint response) of
               Some e \<Rightarrow> Some e
             | None \<Rightarrow>
                 (case decodeHexField ''signature'' (ar_Signature response) of
                    Inl e \<Rightarrow> Some e
                  | Inr signature \<Rightarrow>
                      if length signature \<noteq> SignatureSize then Some ErrInvalidSignature
                      else (case canonicalAndroidResponse response of
                              Inl e \<Rightarrow> Some e
                            | Inr canonical \<Rightarrow>
                                if \<not> cy_verify C publicKey canonical signature
                                then Some ErrInvalidSignature else None))))"

definition VerifyPairingResponse ::
    "crypto \<Rightarrow> Invitation \<Rightarrow> AndroidResponse \<Rightarrow> int \<Rightarrow> pairingError + VerifiedPairing" where
  "VerifyPairingResponse C invitation response nowUnix =
     (case VerifyInvitation C invitation of
        Some e \<Rightarrow> Inl e
      | None \<Rightarrow>
          (case VerifyAndroidResponse C response of
             Some e \<Rightarrow> Inl e
           | None \<Rightarrow>
               if iv_InvitationID invitation \<noteq> ar_InvitationID response \<or>
                  iv_CorrelationID invitation \<noteq> ar_CorrelationID response \<or>
                  (iv_AccountID invitation \<noteq> [] \<and> iv_AccountID invitation \<noteq> ar_AccountID response)
               then Inl ErrTranscriptMismatch
               else if nowUnix > 0 \<and> iv_ExpiresAt invitation \<le> nowUnix then Inl ErrInvitationExpired
               else case decodePublicKeyHex (iv_DaemonPublicKey invitation) of
                   Inl e \<Rightarrow> Inl e
                 | Inr daemonPublicKey \<Rightarrow>
                     (case decodePublicKeyHex (ar_AndroidPublicKey response) of
                        Inl e \<Rightarrow> Inl e
                      | Inr androidPublicKey \<Rightarrow>
                          (case decodeHexField ''nonce'' (iv_Nonce invitation) of
                             Inl e \<Rightarrow> Inl e
                           | Inr nonce \<Rightarrow>
                               (case ComputeSAS C daemonPublicKey androidPublicKey
                                       (iv_InvitationID invitation) nonce of
                                  Inl e \<Rightarrow> Inl e
                                | Inr sas \<Rightarrow>
                                    Inr \<lparr>vp_DaemonPublicKey = daemonPublicKey,
                                         vp_AndroidPublicKey = androidPublicKey,
                                         vp_InvitationID = iv_InvitationID invitation,
                                         vp_Nonce = nonce, vp_SAS = sas,
                                         vp_AndroidFingerprint =
                                           normalizeFingerprint (ar_AndroidFingerprint response)\<rparr>)))))"

section \<open>The canonical encoding is prefix-free\<close>

definition lengthPrefixed :: "byte list \<Rightarrow> byte list" where
  "lengthPrefixed value = PutUint16 (word_of_nat (length value)) @ value"

definition shortField :: "byte list \<Rightarrow> bool" where
  "shortField value \<longleftrightarrow> int (length value) \<le> 0xffff"

lemma appendFields_eq:
  "appendFields out fs =
     (if list_all shortField fs then Inr (out @ concat (map lengthPrefixed fs)) else Inl ErrSASInputTooLong)"
  by (induction fs arbitrary: out) (simp_all add: appendLengthPrefixed_def shortField_def lengthPrefixed_def)

definition readField :: "byte list \<Rightarrow> (byte list \<times> byte list) option" where
  "readField bs =
     (if length bs < 2 then None
      else let n = unat (Uint16 bs)
           in if length bs < 2 + n then None else Some (take n (drop 2 bs), drop (2 + n) bs))"

interpretation field_code: stream_code lengthPrefixed shortField readField
proof
  fix v s :: "byte list"
  assume "shortField v"
  then have n: "unat (word_of_nat (length v) :: 16 word) = length v"
    by (simp add: shortField_def unsigned_of_nat take_bit_nat_eq_self)
  have "Uint16 (lengthPrefixed v @ s) = word_of_nat (length v)"
    unfolding lengthPrefixed_def append_assoc by (rule Uint16_Put)
  with n have "unat (Uint16 (lengthPrefixed v @ s)) = length v" by metis
  moreover have "length (lengthPrefixed v @ s) = 2 + length v + length s"
    "drop 2 (lengthPrefixed v @ s) = v @ s" "drop (2 + length v) (lengthPrefixed v @ s) = s"
    by (simp_all add: lengthPrefixed_def)
  ultimately show "readField (lengthPrefixed v @ s) = Some (v, s)"
    by (simp add: readField_def Let_def del: length_append drop_append)
qed

lemma canonical_inj:
  assumes "appendFields out fs = Inr c" "appendFields out gs = Inr c" "length fs = length gs"
  shows "fs = gs"
proof -
  have "list_all shortField fs" "list_all shortField gs"
    "concat (map lengthPrefixed fs) @ [] = concat (map lengthPrefixed gs) @ []"
    using assms(1,2) unfolding appendFields_eq by (auto split: if_splits simp del: concat_map_singleton)
  from field_code.sequence_inj [OF this(1,2) assms(3) this(3)] show ?thesis by blast
qed

lemma invitation_binding:
  assumes "canonicalInvitation a = Inr c" "canonicalInvitation b = Inr c"
  shows "invitationFields a = invitationFields b"
  using assms by (intro canonical_inj) (auto simp: canonicalInvitation_def invitationFields_def)

lemma response_binding:
  assumes "canonicalAndroidResponse a = Inr c" "canonicalAndroidResponse b = Inr c"
  shows "responseFields a = responseFields b"
  using assms by (intro canonical_inj) (auto simp: canonicalAndroidResponse_def responseFields_def)

lemma domains_differ:
  assumes "canonicalInvitation a = Inr c" "canonicalAndroidResponse b = Inr c'"
  shows "c \<noteq> c'"
proof
  assume "c = c'"
  moreover have "take 16 c = bytes_of ''tunnel-pairing-i''" "take 16 c' = bytes_of ''tunnel-pairing-a''"
    using assms
    by (auto simp: canonicalInvitation_def canonicalAndroidResponse_def appendFields_eq bytes_of_def
        split: if_splits)
  ultimately have "bytes_of ''tunnel-pairing-i'' = bytes_of ''tunnel-pairing-a''" by simp
  then show False by simp
qed

section \<open>The authentication string\<close>

lemma sprintf06_length: "0 \<le> n \<Longrightarrow> n < 1000000 \<Longrightarrow> length (sprintf06 n) = 6"
  using itoa_nat_length [of "nat n" 5] by (simp add: sprintf06_def itoa_def Let_def nat_less_iff)

lemma sprintf06_digits: "0 \<le> n \<Longrightarrow> set (sprintf06 n) \<subseteq> set ''0123456789''"
  using itoa_nat_digits [of "nat n"] by (auto simp: sprintf06_def itoa_def Let_def)

lemma SAS_shape:
  assumes "ComputeSAS C d a i n = Inr sas"
  shows "length sas = 6" "set sas \<subseteq> set ''0123456789''"
proof -
  obtain m where "sas = sprintf06 (m mod 1000000)"
    using assms by (auto simp: ComputeSAS_def SASModulo_def split: if_splits sum.splits)
  then show "length sas = 6" "set sas \<subseteq> set ''0123456789''"
    by (simp_all only: sprintf06_length sprintf06_digits pos_mod_bound pos_mod_sign zero_less_numeral)
qed

section \<open>Signing and verifying\<close>

text \<open>What the code relies on of Ed25519 for a key pair: its signatures verify and have 64 bytes.\<close>

definition keyPair :: "crypto \<Rightarrow> byte list \<Rightarrow> byte list \<Rightarrow> bool" where
  "keyPair C privateKey publicKey \<longleftrightarrow>
     (\<forall>m. cy_verify C publicKey m (cy_sign C privateKey m) \<and> length (cy_sign C privateKey m) = SignatureSize)"

lemma SignInvitation_ok:
  assumes "SignInvitation C ivn sk = Inr ivn'"
  obtains pk c where "iv_Version ivn' = Version" "decodePublicKeyHex (iv_DaemonPublicKey ivn') = Inr pk"
    "validateFingerprint C pk (iv_DaemonFingerprint ivn') = None" "canonicalInvitation ivn' = Inr c"
    "iv_Signature ivn' = hex_EncodeToString (cy_sign C sk c)"
    "ivn' = ivn\<lparr>iv_Version := Version, iv_Signature := iv_Signature ivn'\<rparr>"
proof -
  define i where "i = (if iv_Version ivn = 0 then ivn\<lparr>iv_Version := Version\<rparr> else ivn)"
  obtain pk c where i: "iv_Version i = Version" "decodePublicKeyHex (iv_DaemonPublicKey i) = Inr pk"
    "validateFingerprint C pk (iv_DaemonFingerprint i) = None" "canonicalInvitation i = Inr c"
    "ivn' = i\<lparr>iv_Signature := hex_EncodeToString (cy_sign C sk c)\<rparr>"
    using assms
    by (auto simp: SignInvitation_def Let_def i_def [symmetric] split: if_splits sum.splits option.splits)
  moreover have "canonicalInvitation (i\<lparr>iv_Signature := s\<rparr>) = canonicalInvitation i" for s
    by (simp add: canonicalInvitation_def invitationFields_def)
  moreover have "i = ivn\<lparr>iv_Version := Version\<rparr>"
    using i(1) by (cases ivn) (auto simp: i_def Version_def split: if_splits)
  ultimately show ?thesis by (intro that [of pk c]) simp_all
qed

lemma SignAndroidResponse_ok:
  assumes "SignAndroidResponse C res sk = Inr res'"
  obtains pk c where "ar_Version res' = Version" "decodePublicKeyHex (ar_AndroidPublicKey res') = Inr pk"
    "validateFingerprint C pk (ar_AndroidFingerprint res') = None" "canonicalAndroidResponse res' = Inr c"
    "ar_Signature res' = hex_EncodeToString (cy_sign C sk c)"
    "res' = res\<lparr>ar_Version := Version, ar_Signature := ar_Signature res'\<rparr>"
proof -
  define i where "i = (if ar_Version res = 0 then res\<lparr>ar_Version := Version\<rparr> else res)"
  obtain pk c where i: "ar_Version i = Version" "decodePublicKeyHex (ar_AndroidPublicKey i) = Inr pk"
    "validateFingerprint C pk (ar_AndroidFingerprint i) = None" "canonicalAndroidResponse i = Inr c"
    "res' = i\<lparr>ar_Signature := hex_EncodeToString (cy_sign C sk c)\<rparr>"
    using assms
    by (auto simp: SignAndroidResponse_def Let_def i_def [symmetric] split: if_splits sum.splits option.splits)
  moreover have "canonicalAndroidResponse (i\<lparr>ar_Signature := s\<rparr>) = canonicalAndroidResponse i" for s
    by (simp add: canonicalAndroidResponse_def responseFields_def)
  moreover have "i = res\<lparr>ar_Version := Version\<rparr>"
    using i(1) by (cases res) (auto simp: i_def Version_def split: if_splits)
  ultimately show ?thesis by (intro that [of pk c]) simp_all
qed

lemma signed_invitation_verifies:
  assumes "SignInvitation C ivn sk = Inr ivn'" "decodePublicKeyHex (iv_DaemonPublicKey ivn') = Inr pk"
    "keyPair C sk pk"
  shows "VerifyInvitation C ivn' = None"
  using assms(1)
  by (rule SignInvitation_ok)
    (use assms(2,3) in \<open>auto simp: VerifyInvitation_def decodeHexField_def keyPair_def\<close>)

lemma signed_response_verifies:
  assumes "SignAndroidResponse C res sk = Inr res'" "decodePublicKeyHex (ar_AndroidPublicKey res') = Inr pk"
    "keyPair C sk pk"
  shows "VerifyAndroidResponse C res' = None"
  using assms(1)
  by (rule SignAndroidResponse_ok)
    (use assms(2,3) in \<open>auto simp: VerifyAndroidResponse_def decodeHexField_def keyPair_def\<close>)

section \<open>Properties\<close>

text \<open>
  C21. A signature binds every field of the transcript it was made for: two invitations (two responses)
  with the same signed bytes agree in all signed fields, fingerprints up to normalisation, and the signed
  bytes of an invitation are never those of a response.
\<close>

theorem transcript_binding:
  assumes "canonicalInvitation a = Inr c" "canonicalAndroidResponse r = Inr d"
  shows "c \<noteq> d \<and>
    (canonicalInvitation b = Inr c \<longrightarrow>
       iv_AccountID a = iv_AccountID b \<and> iv_DaemonID a = iv_DaemonID b \<and>
       iv_DaemonDisplayName a = iv_DaemonDisplayName b \<and> iv_DaemonPublicKey a = iv_DaemonPublicKey b \<and>
       normalizeFingerprint (iv_DaemonFingerprint a) = normalizeFingerprint (iv_DaemonFingerprint b) \<and>
       iv_InvitationID a = iv_InvitationID b \<and> iv_CorrelationID a = iv_CorrelationID b \<and>
       iv_Nonce a = iv_Nonce b \<and> iv_RelayBaseURL a = iv_RelayBaseURL b \<and>
       iv_ExpiresAt a = iv_ExpiresAt b) \<and>
    (canonicalAndroidResponse s = Inr d \<longrightarrow>
       ar_AccountID r = ar_AccountID s \<and> ar_InvitationID r = ar_InvitationID s \<and>
       ar_CorrelationID r = ar_CorrelationID s \<and> ar_AndroidPublicKey r = ar_AndroidPublicKey s \<and>
       normalizeFingerprint (ar_AndroidFingerprint r) = normalizeFingerprint (ar_AndroidFingerprint s) \<and>
       ar_AndroidDisplayName r = ar_AndroidDisplayName s)"
proof -
  have "c \<noteq> d" by (rule domains_differ [OF assms])
  moreover have "invitationFields a = invitationFields b" if "canonicalInvitation b = Inr c"
    by (rule invitation_binding [OF assms(1) that])
  moreover have "responseFields r = responseFields s" if "canonicalAndroidResponse s = Inr d"
    by (rule response_binding [OF assms(2) that])
  ultimately show ?thesis
    by (auto simp: invitationFields_def responseFields_def stringInt64_def dest: itoa_inj)
qed

definition demoCrypto :: crypto where
  "demoCrypto = \<lparr>cy_sha256 = (\<lambda>m. replicate 32 0),
     cy_sign = (\<lambda>sk m. replicate 64 0), cy_verify = (\<lambda>pk m s. s = replicate 64 0)\<rparr>"

definition demoKey :: "byte list" where
  "demoKey = replicate 32 7"

definition demoInvitation :: Invitation where
  "demoInvitation = \<lparr>iv_Version = 2, iv_AccountID = ''acc'', iv_DaemonID = ''d1'', iv_DaemonDisplayName = [],
     iv_DaemonPublicKey = hex_EncodeToString demoKey, iv_DaemonFingerprint = replicate 64 CHR ''0'',
     iv_InvitationID = ''pair_1'', iv_CorrelationID = ''corr_1'', iv_Nonce = ''00ff'', iv_ExpiresAt = 100,
     iv_RelayBaseURL = ''https://r'', iv_Signature = []\<rparr>"

definition demoResponse :: AndroidResponse where
  "demoResponse = \<lparr>ar_Version = 2, ar_AccountID = ''acc'', ar_InvitationID = ''pair_1'',
     ar_CorrelationID = ''corr_1'', ar_AndroidPublicKey = hex_EncodeToString demoKey,
     ar_AndroidFingerprint = replicate 64 CHR ''0'', ar_AndroidDisplayName = ''phone'',
     ar_Signature = []\<rparr>"

theorem transcript_binding_witness:
  "\<exists>c d. canonicalInvitation demoInvitation = Inr c \<and> canonicalAndroidResponse demoResponse = Inr d \<and> c \<noteq> d"
proof -
  have "case canonicalInvitation demoInvitation of Inr c \<Rightarrow> True | _ \<Rightarrow> False"
    "case canonicalAndroidResponse demoResponse of Inr c \<Rightarrow> True | _ \<Rightarrow> False" by code_simp+
  then obtain c d where "canonicalInvitation demoInvitation = Inr c"
    "canonicalAndroidResponse demoResponse = Inr d" by (auto split: sum.splits)
  with transcript_binding [OF this] show ?thesis by auto
qed

text \<open>
  What was signed verifies: with a key pair whose signatures verify, an invitation signed by the
  daemon and a response signed by the phone for the same invitation, in time and with a readable nonce,
  pass \<open>VerifyPairingResponse\<close>, and both sides get the authentication string of the two keys, the
  invitation id and the nonce: six decimal digits.
\<close>

theorem signed_pairing_verifies:
  assumes inv: "SignInvitation C inv0 sk = Inr ivn" "decodePublicKeyHex (iv_DaemonPublicKey ivn) = Inr pk"
      "keyPair C sk pk"
    and res: "SignAndroidResponse C res0 ask = Inr res" "decodePublicKeyHex (ar_AndroidPublicKey res) = Inr apk"
      "keyPair C ask apk"
    and same: "iv_InvitationID ivn = ar_InvitationID res" "iv_CorrelationID ivn = ar_CorrelationID res"
      "iv_AccountID ivn = [] \<or> iv_AccountID ivn = ar_AccountID res"
    and time: "nowUnix \<le> 0 \<or> nowUnix < iv_ExpiresAt ivn"
    and nonce: "decodeHexField ''nonce'' (iv_Nonce ivn) = Inr n" "ComputeSAS C pk apk (iv_InvitationID ivn) n = Inr sas"
  shows "VerifyPairingResponse C ivn res nowUnix =
      Inr \<lparr>vp_DaemonPublicKey = pk, vp_AndroidPublicKey = apk, vp_InvitationID = iv_InvitationID ivn,
           vp_Nonce = n, vp_SAS = sas, vp_AndroidFingerprint = normalizeFingerprint (ar_AndroidFingerprint res)\<rparr> \<and>
    length sas = 6 \<and> set sas \<subseteq> set ''0123456789''"
  using signed_invitation_verifies [OF inv] signed_response_verifies [OF res] inv(2) res(2) same time nonce
    SAS_shape [OF nonce(2)]
  by (auto simp: VerifyPairingResponse_def)

theorem signed_pairing_verifies_witness:
  "case (SignInvitation demoCrypto demoInvitation [], SignAndroidResponse demoCrypto demoResponse []) of
     (Inr ivn, Inr res) \<Rightarrow> (\<exists>v. VerifyPairingResponse demoCrypto ivn res 50 = Inr v \<and> length (vp_SAS v) = 6)
   | _ \<Rightarrow> False"
proof -
  have ok: "case SignInvitation demoCrypto demoInvitation [] of
        Inr ivn \<Rightarrow> (case SignAndroidResponse demoCrypto demoResponse [] of
           Inr res \<Rightarrow> decodePublicKeyHex (iv_DaemonPublicKey ivn) = Inr demoKey \<and>
             decodePublicKeyHex (ar_AndroidPublicKey res) = Inr demoKey \<and>
             iv_InvitationID ivn = ar_InvitationID res \<and> iv_CorrelationID ivn = ar_CorrelationID res \<and>
             iv_AccountID ivn = ar_AccountID res \<and> 50 < iv_ExpiresAt ivn \<and>
             decodeHexField ''nonce'' (iv_Nonce ivn) = Inr [0, 255] \<and>
             (case ComputeSAS demoCrypto demoKey demoKey (iv_InvitationID ivn) [0, 255] of Inr s \<Rightarrow> True | _ \<Rightarrow> False)
         | _ \<Rightarrow> False) | _ \<Rightarrow> False" by code_simp
  then obtain ivn res sas where s: "SignInvitation demoCrypto demoInvitation [] = Inr ivn"
    "SignAndroidResponse demoCrypto demoResponse [] = Inr res"
    "decodePublicKeyHex (iv_DaemonPublicKey ivn) = Inr demoKey"
    "decodePublicKeyHex (ar_AndroidPublicKey res) = Inr demoKey"
    "iv_InvitationID ivn = ar_InvitationID res" "iv_CorrelationID ivn = ar_CorrelationID res"
    "iv_AccountID ivn = ar_AccountID res" "50 < iv_ExpiresAt ivn"
    "decodeHexField ''nonce'' (iv_Nonce ivn) = Inr [0, 255]"
    "ComputeSAS demoCrypto demoKey demoKey (iv_InvitationID ivn) [0, 255] = Inr sas"
    by (auto split: sum.splits)
  have k: "keyPair demoCrypto [] demoKey" by (simp add: keyPair_def demoCrypto_def SignatureSize_def)
  from signed_pairing_verifies [OF s(1) s(3) k s(2) s(4) k s(5) s(6), of 50 "[0, 255]" sas] s show ?thesis by simp
qed

end
