(* ===== verification/Pairing_State.thy ===== *)
theory Pairing_State
  imports Pairing_Transcript Go_Net
begin

text \<open>
  The daemon's pairing store (\<open>internal/tunnel/daemon/pairing_state.go\<close>): invitations, pending
  responses and trusted devices in one JSON file. The file is a value (absent, unreadable, or a
  state); every operation runs under the package's mutex and takes the file, what its saves return,
  the clock and the random bytes it draws, and returns its result and the file afterwards. A failed
  save leaves the file as it was: it is written aside and renamed. JSON text is not modelled.
\<close>

definition PairingStateVersion :: int where "PairingStateVersion = 2"
definition PairingInvitationTTL :: duration where "PairingInvitationTTL = 5 * minute"
definition TrustedDeviceStatusTrusted :: string where "TrustedDeviceStatusTrusted = ''trusted''"
definition TrustedDeviceStatusRevoked :: string where "TrustedDeviceStatusRevoked = ''revoked''"

datatype storeError =
    ErrPairingInvitationNotFound
  | ErrPairingInvitationExpired
  | ErrPairingInvitationConsumed
  | ErrPairingSASMismatch
  | ErrTrustedDeviceNotFound
  | ErrInvalidAndroidFingerprint
  | ErrInvalidConnectivityIdentity
  | ErrStateFile
  | ErrIdentityFile
  | ErrRandom
  | ErrPairing pairingError

section \<open>Data\<close>

record PairingInvitationRecord =
  pr_InvitationID :: string
  pr_CorrelationID :: string
  pr_Nonce :: string
  pr_AccountID :: string
  pr_RelayBaseURL :: string
  pr_DeviceID :: string
  pr_DaemonFingerprint :: string
  pr_ExpiresAt :: int
  pr_CreatedAt :: int
  pr_ConsumedAt :: "int option"

record TrustedAndroidDevice =
  td_Fingerprint :: string
  td_PublicKey :: string
  td_DisplayName :: string
  td_AccountID :: string
  td_Status :: string
  td_PairedAt :: int
  td_RevokedAt :: "int option"
  td_Warning :: string

record PendingPairingResponseRecord =
  pp_InvitationID :: string
  pp_CorrelationID :: string
  pp_AccountID :: string
  pp_AndroidPublicKey :: string
  pp_AndroidFingerprint :: string
  pp_AndroidDisplayName :: string
  pp_Signature :: string
  pp_SAS :: string
  pp_ReceivedAt :: int
  pp_ExpiresAt :: int

record PairingState =
  ps_Version :: int
  ps_Invitations :: "PairingInvitationRecord list"
  ps_PendingResponses :: "PendingPairingResponseRecord list"
  ps_TrustedDevices :: "TrustedAndroidDevice list"

record PairInvitation =
  pi_Version :: int
  pi_InvitationID :: string
  pi_CorrelationID :: string
  pi_Nonce :: string
  pi_AccountID :: string
  pi_RelayBaseURL :: string
  pi_DeviceID :: string
  pi_DisplayName :: string
  pi_DaemonPublicKey :: string
  pi_DaemonFingerprint :: string
  pi_ExpiresAt :: int
  pi_Signature :: string

record ConnectivityIdentity =
  ci_PrivateKey :: "byte list"
  ci_PublicKey :: "byte list"
  ci_Fingerprint :: string
  ci_CreatedAt :: int

record PairInvitationOptions =
  po_BaseURL :: string
  po_DeviceID :: string
  po_DisplayName :: string
  po_AccountID :: string
  po_CorrelationID :: string
  po_Now :: gotime
  po_DaemonIdentity :: ConnectivityIdentity

record PairingCompletion =
  cm_Device :: TrustedAndroidDevice
  cm_SAS :: string
  cm_Warning :: string

record PendingPairingResponse =
  pn_InvitationID :: string
  pn_CorrelationID :: string
  pn_AccountID :: string
  pn_AndroidFingerprint :: string
  pn_AndroidDisplayName :: string
  pn_SAS :: string
  pn_ReceivedAt :: int
  pn_ExpiresAt :: int

datatype stateFile = NoFile | Unreadable | StateFile PairingState

definition LoadPairingState :: "stateFile \<Rightarrow> storeError + PairingState" where
  "LoadPairingState file =
     (case file of
        NoFile \<Rightarrow> Inr \<lparr>ps_Version = PairingStateVersion, ps_Invitations = [],
                      ps_PendingResponses = [], ps_TrustedDevices = []\<rparr>
      | Unreadable \<Rightarrow> Inl ErrStateFile
      | StateFile state \<Rightarrow>
          if ps_Version state \<noteq> PairingStateVersion then Inl ErrStateFile else Inr state)"

text \<open>\<open>saveOk\<close> says whether writing the file succeeds.\<close>

definition SavePairingState :: "bool \<Rightarrow> PairingState \<Rightarrow> stateFile \<Rightarrow> storeError option \<times> stateFile" where
  "SavePairingState saveOk state file =
     (if saveOk then (None, StateFile (state\<lparr>ps_Version := PairingStateVersion\<rparr>))
      else (Some ErrStateFile, file))"

section \<open>Helpers\<close>

definition PublicKeyFingerprint :: "crypto \<Rightarrow> byte list \<Rightarrow> string" where
  "PublicKeyFingerprint C publicKey = hex_EncodeToString (cy_sha256 C publicKey)"

text \<open>\<open>PrivateKey.Public()\<close> is the second half of an Ed25519 private key.\<close>

definition validateConnectivityIdentity :: "crypto \<Rightarrow> ConnectivityIdentity \<Rightarrow> storeError option" where
  "validateConnectivityIdentity C identity =
     (if length (ci_PrivateKey identity) \<noteq> 64 then Some ErrInvalidConnectivityIdentity
      else if length (ci_PublicKey identity) \<noteq> PublicKeySize then Some ErrInvalidConnectivityIdentity
      else if drop 32 (ci_PrivateKey identity) \<noteq> ci_PublicKey identity
      then Some ErrInvalidConnectivityIdentity
      else if ci_Fingerprint identity \<noteq> PublicKeyFingerprint C (ci_PublicKey identity)
      then Some ErrInvalidConnectivityIdentity
      else if ci_CreatedAt identity \<le> 0 then Some ErrInvalidConnectivityIdentity
      else None)"

definition randomHex :: "byte list option \<Rightarrow> storeError + string" where
  "randomHex rnd = (case rnd of None \<Rightarrow> Inl ErrRandom | Some bs \<Rightarrow> Inr (hex_EncodeToString bs))"

definition newOpaqueID :: "string \<Rightarrow> byte list option \<Rightarrow> storeError + string" where
  "newOpaqueID pre rnd =
     (case rnd of None \<Rightarrow> Inl ErrRandom | Some bs \<Rightarrow> Inr (pre @ ''_'' @ hex_EncodeToString bs))"

definition normalizeAndroidFingerprint :: "string \<Rightarrow> storeError + string" where
  "normalizeAndroidFingerprint raw =
     (let normalized = ToLower (TrimSpace raw)
      in if length normalized \<noteq> 64 then Inl ErrInvalidAndroidFingerprint
         else if hex_DecodeString normalized = None then Inl ErrInvalidAndroidFingerprint
         else Inr normalized)"

definition sweepExpiredInvitationRecords ::
    "PairingInvitationRecord list \<Rightarrow> gotime \<Rightarrow> PairingInvitationRecord list" where
  "sweepExpiredInvitationRecords recs now = filter (\<lambda>r. now < time_of_Unix (pr_ExpiresAt r)) recs"

fun upsertTrustedDeviceRecord ::
    "TrustedAndroidDevice list \<Rightarrow> TrustedAndroidDevice \<Rightarrow> TrustedAndroidDevice list" where
  "upsertTrustedDeviceRecord [] device = [device]"
| "upsertTrustedDeviceRecord (d # ds) device =
     (if td_Fingerprint d = td_Fingerprint device then device # ds
      else d # upsertTrustedDeviceRecord ds device)"

fun upsertPendingPairingResponseRecord ::
    "PendingPairingResponseRecord list \<Rightarrow> PendingPairingResponseRecord
      \<Rightarrow> PendingPairingResponseRecord list" where
  "upsertPendingPairingResponseRecord [] p = [p]"
| "upsertPendingPairingResponseRecord (q # qs) p =
     (if pp_InvitationID q = pp_InvitationID p then p # qs
      else q # upsertPendingPairingResponseRecord qs p)"

definition removePendingPairingResponseRecords ::
    "PendingPairingResponseRecord list \<Rightarrow> string \<Rightarrow> PendingPairingResponseRecord list" where
  "removePendingPairingResponseRecords recs invitationID =
     filter (\<lambda>p. pp_InvitationID p \<noteq> invitationID) recs"

definition pendingPairingResponseFromRecord ::
    "PendingPairingResponseRecord \<Rightarrow> PendingPairingResponse" where
  "pendingPairingResponseFromRecord p =
     \<lparr>pn_InvitationID = pp_InvitationID p, pn_CorrelationID = pp_CorrelationID p,
      pn_AccountID = pp_AccountID p, pn_AndroidFingerprint = pp_AndroidFingerprint p,
      pn_AndroidDisplayName = pp_AndroidDisplayName p, pn_SAS = pp_SAS p,
      pn_ReceivedAt = pp_ReceivedAt p, pn_ExpiresAt = pp_ExpiresAt p\<rparr>"

definition verifyPairingResponseForRecord ::
    "crypto \<Rightarrow> PairingInvitationRecord \<Rightarrow> ConnectivityIdentity \<Rightarrow> AndroidResponse \<Rightarrow> gotime
      \<Rightarrow> pairingError + VerifiedPairing" where
  "verifyPairingResponseForRecord C r identity response now =
     (case SignInvitation C \<lparr>iv_Version = Version, iv_AccountID = pr_AccountID r,
             iv_DaemonID = pr_DeviceID r, iv_DaemonDisplayName = [],
             iv_DaemonPublicKey = hex_EncodeToString (ci_PublicKey identity),
             iv_DaemonFingerprint = ci_Fingerprint identity, iv_InvitationID = pr_InvitationID r,
             iv_CorrelationID = pr_CorrelationID r, iv_Nonce = pr_Nonce r,
             iv_ExpiresAt = pr_ExpiresAt r, iv_RelayBaseURL = pr_RelayBaseURL r,
             iv_Signature = []\<rparr> (ci_PrivateKey identity) of
        Inl e \<Rightarrow> Inl e
      | Inr invitation \<Rightarrow> VerifyPairingResponse C invitation response (time_Unix now))"

definition effectiveNow :: "gotime \<Rightarrow> clock \<Rightarrow> gotime" where
  "effectiveNow now clk = (if now = 0 then clk 0 else now)"

text \<open>
  The loop over the invitations stops at the first record of the id; \<open>checkInvitation\<close> is what it does
  with that record before it uses it, \<open>consumeInvitation\<close> the write through its pointer.
\<close>

definition checkInvitation ::
    "string \<Rightarrow> gotime \<Rightarrow> PairingState \<Rightarrow> storeError + PairingInvitationRecord" where
  "checkInvitation invitationID now state =
     (case find (\<lambda>r. pr_InvitationID r = invitationID) (ps_Invitations state) of
        None \<Rightarrow> Inl ErrPairingInvitationNotFound
      | Some r \<Rightarrow>
          if pr_ConsumedAt r \<noteq> None then Inl ErrPairingInvitationConsumed
          else if \<not> now < time_of_Unix (pr_ExpiresAt r) then Inl ErrPairingInvitationExpired
          else Inr r)"

fun consumeFirst :: "string \<Rightarrow> int \<Rightarrow> PairingInvitationRecord list \<Rightarrow> PairingInvitationRecord list" where
  "consumeFirst invitationID t [] = []"
| "consumeFirst invitationID t (r # rs) =
     (if pr_InvitationID r = invitationID then r\<lparr>pr_ConsumedAt := Some t\<rparr> # rs
      else r # consumeFirst invitationID t rs)"

definition consumeInvitation :: "string \<Rightarrow> gotime \<Rightarrow> PairingState \<Rightarrow> PairingState" where
  "consumeInvitation invitationID now state =
     state\<lparr>ps_Invitations := consumeFirst invitationID (time_Unix now) (ps_Invitations state)\<rparr>"

section \<open>Operations\<close>

record pairingRandom =
  rn_invitation :: "byte list option"
  rn_correlation :: "byte list option"
  rn_nonce :: "byte list option"

definition CreatePairInvitation ::
    "crypto \<Rightarrow> bool \<Rightarrow> clock \<Rightarrow> pairingRandom \<Rightarrow> PairInvitationOptions \<Rightarrow> stateFile
      \<Rightarrow> (storeError + PairInvitation) \<times> stateFile" where
  "CreatePairInvitation C saveOk clk rnd opts file =
     (case validateConnectivityIdentity C (po_DaemonIdentity opts) of
        Some e \<Rightarrow> (Inl e, file)
      | None \<Rightarrow>
          let now = effectiveNow (po_Now opts) clk
          in case newOpaqueID ''pair'' (rn_invitation rnd) of
               Inl e \<Rightarrow> (Inl e, file)
             | Inr invitationID \<Rightarrow>
                 (case (let c = TrimSpace (po_CorrelationID opts)
                        in if c = [] then newOpaqueID ''corr'' (rn_correlation rnd) else Inr c) of
                    Inl e \<Rightarrow> (Inl e, file)
                  | Inr correlationID \<Rightarrow>
                      (case randomHex (rn_nonce rnd) of
                         Inl e \<Rightarrow> (Inl e, file)
                       | Inr nonce \<Rightarrow>
                           let expiresAt = time_Unix (now + PairingInvitationTTL);
                               identity = po_DaemonIdentity opts
                           in case LoadPairingState file of
                                Inl e \<Rightarrow> (Inl e, file)
                              | Inr state \<Rightarrow>
                                  let r = \<lparr>pr_InvitationID = invitationID, pr_CorrelationID = correlationID,
                                        pr_Nonce = nonce, pr_AccountID = TrimSpace (po_AccountID opts),
                                        pr_RelayBaseURL = TrimSpace (po_BaseURL opts),
                                        pr_DeviceID = TrimSpace (po_DeviceID opts),
                                        pr_DaemonFingerprint = ci_Fingerprint identity,
                                        pr_ExpiresAt = expiresAt, pr_CreatedAt = time_Unix now,
                                        pr_ConsumedAt = None\<rparr>;
                                      state' = state\<lparr>ps_Invitations :=
                                        sweepExpiredInvitationRecords (ps_Invitations state) now @ [r]\<rparr>
                                  in case SavePairingState saveOk state' file of
                                       (Some e, file') \<Rightarrow> (Inl e, file')
                                     | (None, file') \<Rightarrow>
                                         (case SignInvitation C \<lparr>iv_Version = Version,
                                               iv_AccountID = pr_AccountID r, iv_DaemonID = pr_DeviceID r,
                                               iv_DaemonDisplayName = TrimSpace (po_DisplayName opts),
                                               iv_DaemonPublicKey = hex_EncodeToString (ci_PublicKey identity),
                                               iv_DaemonFingerprint = ci_Fingerprint identity,
                                               iv_InvitationID = invitationID,
                                               iv_CorrelationID = correlationID, iv_Nonce = nonce,
                                               iv_ExpiresAt = expiresAt,
                                               iv_RelayBaseURL = pr_RelayBaseURL r, iv_Signature = []\<rparr>
                                             (ci_PrivateKey identity) of
                                            Inl e \<Rightarrow> (Inl (ErrPairing e), file')
                                          | Inr signedInvitation \<Rightarrow>
                                              (Inr \<lparr>pi_Version = PairingStateVersion,
                                                 pi_InvitationID = invitationID,
                                                 pi_CorrelationID = correlationID, pi_Nonce = nonce,
                                                 pi_AccountID = pr_AccountID r,
                                                 pi_RelayBaseURL = pr_RelayBaseURL r,
                                                 pi_DeviceID = pr_DeviceID r,
                                                 pi_DisplayName = TrimSpace (po_DisplayName opts),
                                                 pi_DaemonPublicKey = hex_EncodeToString (ci_PublicKey identity),
                                                 pi_DaemonFingerprint = ci_Fingerprint identity,
                                                 pi_ExpiresAt = expiresAt,
                                                 pi_Signature = iv_Signature signedInvitation\<rparr>, file')))))"

definition ConsumePairInvitation ::
    "bool \<Rightarrow> clock \<Rightarrow> string \<Rightarrow> gotime \<Rightarrow> stateFile
      \<Rightarrow> (storeError + PairingInvitationRecord) \<times> stateFile" where
  "ConsumePairInvitation saveOk clk invitationID now0 file =
     (case LoadPairingState file of
        Inl e \<Rightarrow> (Inl e, file)
      | Inr state \<Rightarrow>
          let now = effectiveNow now0 clk
          in case checkInvitation invitationID now state of
               Inl e \<Rightarrow> (Inl e, file)
             | Inr r \<Rightarrow>
                 (case SavePairingState saveOk (consumeInvitation invitationID now state) file of
                    (Some e, file') \<Rightarrow> (Inl e, file')
                  | (None, file') \<Rightarrow> (Inr (r\<lparr>pr_ConsumedAt := Some (time_Unix now)\<rparr>), file')))"

text \<open>\<open>identity\<close> is what \<open>ReadConnectivityIdentity\<close> returns, \<open>None\<close> for an error.\<close>

definition CompletePairingResponse ::
    "crypto \<Rightarrow> bool \<Rightarrow> clock \<Rightarrow> ConnectivityIdentity option \<Rightarrow> AndroidResponse \<Rightarrow> string \<Rightarrow> gotime
      \<Rightarrow> stateFile \<Rightarrow> (storeError + PairingCompletion) \<times> stateFile" where
  "CompletePairingResponse C saveOk clk identity response expectedSAS now0 file =
     (let now = effectiveNow now0 clk
      in case LoadPairingState file of
           Inl e \<Rightarrow> (Inl e, file)
         | Inr state \<Rightarrow>
             (case identity of
                None \<Rightarrow> (Inl ErrIdentityFile, file)
              | Some ident \<Rightarrow>
                  (case checkInvitation (ar_InvitationID response) now state of
                     Inl e \<Rightarrow> (Inl e, file)
                   | Inr r \<Rightarrow>
                       (case verifyPairingResponseForRecord C r ident response now of
                          Inl e \<Rightarrow> (Inl (ErrPairing e), file)
                        | Inr verified \<Rightarrow>
                            let state1 = consumeInvitation (ar_InvitationID response) now state;
                                state2 = state1\<lparr>ps_PendingResponses :=
                                  removePendingPairingResponseRecords (ps_PendingResponses state1)
                                    (ar_InvitationID response)\<rparr>
                            in if TrimSpace expectedSAS \<noteq> vp_SAS verified
                               then (case SavePairingState saveOk state2 file of
                                       (Some e, file') \<Rightarrow> (Inl e, file')
                                     | (None, file') \<Rightarrow> (Inl ErrPairingSASMismatch, file'))
                               else
                                 let device = \<lparr>td_Fingerprint = vp_AndroidFingerprint verified,
                                       td_PublicKey = ar_AndroidPublicKey response,
                                       td_DisplayName = TrimSpace (ar_AndroidDisplayName response),
                                       td_AccountID = TrimSpace (ar_AccountID response),
                                       td_Status = TrustedDeviceStatusTrusted,
                                       td_PairedAt = time_Unix now, td_RevokedAt = None,
                                       td_Warning = []\<rparr>;
                                     state3 = state2\<lparr>ps_TrustedDevices :=
                                       upsertTrustedDeviceRecord (ps_TrustedDevices state2) device\<rparr>
                                 in case SavePairingState saveOk state3 file of
                                      (Some e, file') \<Rightarrow> (Inl e, file')
                                    | (None, file') \<Rightarrow>
                                        (Inr \<lparr>cm_Device = device, cm_SAS = vp_SAS verified,
                                              cm_Warning = []\<rparr>, file')))))"

definition StorePendingPairingResponse ::
    "crypto \<Rightarrow> bool \<Rightarrow> clock \<Rightarrow> ConnectivityIdentity option \<Rightarrow> AndroidResponse \<Rightarrow> gotime
      \<Rightarrow> stateFile \<Rightarrow> (storeError + PendingPairingResponse) \<times> stateFile" where
  "StorePendingPairingResponse C saveOk clk identity response now0 file =
     (let now = effectiveNow now0 clk
      in case LoadPairingState file of
           Inl e \<Rightarrow> (Inl e, file)
         | Inr state \<Rightarrow>
             (case identity of
                None \<Rightarrow> (Inl ErrIdentityFile, file)
              | Some ident \<Rightarrow>
                  (case checkInvitation (ar_InvitationID response) now state of
                     Inl e \<Rightarrow> (Inl e, file)
                   | Inr r \<Rightarrow>
                       (case verifyPairingResponseForRecord C r ident response now of
                          Inl e \<Rightarrow> (Inl (ErrPairing e), file)
                        | Inr verified \<Rightarrow>
                            let pending = \<lparr>pp_InvitationID = ar_InvitationID response,
                                  pp_CorrelationID = ar_CorrelationID response,
                                  pp_AccountID = TrimSpace (ar_AccountID response),
                                  pp_AndroidPublicKey = TrimSpace (ar_AndroidPublicKey response),
                                  pp_AndroidFingerprint = vp_AndroidFingerprint verified,
                                  pp_AndroidDisplayName = TrimSpace (ar_AndroidDisplayName response),
                                  pp_Signature = TrimSpace (ar_Signature response),
                                  pp_SAS = vp_SAS verified, pp_ReceivedAt = time_Unix now,
                                  pp_ExpiresAt = pr_ExpiresAt r\<rparr>;
                                state' = state\<lparr>ps_PendingResponses :=
                                  upsertPendingPairingResponseRecord (ps_PendingResponses state) pending\<rparr>
                            in case SavePairingState saveOk state' file of
                                 (Some e, file') \<Rightarrow> (Inl e, file')
                               | (None, file') \<Rightarrow>
                                   (Inr (pendingPairingResponseFromRecord pending), file')))))"

definition ListPendingPairingResponses ::
    "clock \<Rightarrow> stateFile \<Rightarrow> storeError + PendingPairingResponse list" where
  "ListPendingPairingResponses clk file =
     (case LoadPairingState file of
        Inl e \<Rightarrow> Inl e
      | Inr state \<Rightarrow>
          Inr (sort_key (\<lambda>p. (- pn_ReceivedAt p, pn_InvitationID p))
            (map pendingPairingResponseFromRecord
              (filter (\<lambda>p. clk 0 < time_of_Unix (pp_ExpiresAt p)) (ps_PendingResponses state)))))"

definition ConfirmPendingPairingResponse ::
    "crypto \<Rightarrow> bool \<Rightarrow> clock \<Rightarrow> ConnectivityIdentity option \<Rightarrow> string \<Rightarrow> string \<Rightarrow> gotime
      \<Rightarrow> stateFile \<Rightarrow> (storeError + PairingCompletion) \<times> stateFile" where
  "ConfirmPendingPairingResponse C saveOk clk identity invitationID expectedSAS now file =
     (case LoadPairingState file of
        Inl e \<Rightarrow> (Inl e, file)
      | Inr state \<Rightarrow>
          (case find (\<lambda>p. pp_InvitationID p = TrimSpace invitationID) (ps_PendingResponses state) of
             None \<Rightarrow> (Inl ErrPairingInvitationNotFound, file)
           | Some p \<Rightarrow>
               CompletePairingResponse C saveOk clk identity
                 \<lparr>ar_Version = Version, ar_AccountID = pp_AccountID p,
                  ar_InvitationID = pp_InvitationID p, ar_CorrelationID = pp_CorrelationID p,
                  ar_AndroidPublicKey = pp_AndroidPublicKey p,
                  ar_AndroidFingerprint = pp_AndroidFingerprint p,
                  ar_AndroidDisplayName = pp_AndroidDisplayName p,
                  ar_Signature = pp_Signature p\<rparr> expectedSAS now file))"

definition UpsertTrustedAndroidDevice ::
    "bool \<Rightarrow> clock \<Rightarrow> TrustedAndroidDevice \<Rightarrow> stateFile \<Rightarrow> storeError option \<times> stateFile" where
  "UpsertTrustedAndroidDevice saveOk clk device file =
     (case normalizeAndroidFingerprint (td_Fingerprint device) of
        Inl e \<Rightarrow> (Some e, file)
      | Inr fingerprint \<Rightarrow>
          (case LoadPairingState file of
             Inl e \<Rightarrow> (Some e, file)
           | Inr state \<Rightarrow>
               let device' = device\<lparr>td_Fingerprint := fingerprint,
                     td_Status := TrustedDeviceStatusTrusted, td_RevokedAt := None,
                     td_PairedAt := if td_PairedAt device = 0 then time_Unix (clk 0)
                                    else td_PairedAt device\<rparr>
               in SavePairingState saveOk (state\<lparr>ps_TrustedDevices :=
                    upsertTrustedDeviceRecord (ps_TrustedDevices state) device'\<rparr>) file))"

definition deviceRevoked :: "TrustedAndroidDevice \<Rightarrow> bool" where
  "deviceRevoked d \<longleftrightarrow> td_Status d = TrustedDeviceStatusRevoked \<or> td_RevokedAt d \<noteq> None"

definition ListTrustedAndroidDevices :: "stateFile \<Rightarrow> storeError + TrustedAndroidDevice list" where
  "ListTrustedAndroidDevices file =
     (case LoadPairingState file of
        Inl e \<Rightarrow> Inl e
      | Inr state \<Rightarrow>
          Inr (sort_key (\<lambda>d. (- td_PairedAt d, td_Fingerprint d))
            (map (\<lambda>d. if td_Status d = [] then d\<lparr>td_Status := TrustedDeviceStatusTrusted\<rparr> else d)
              (filter (\<lambda>d. \<not> deviceRevoked d) (ps_TrustedDevices state)))))"

definition revokeDevice :: "int \<Rightarrow> TrustedAndroidDevice \<Rightarrow> TrustedAndroidDevice" where
  "revokeDevice now d =
     d\<lparr>td_RevokedAt := (if td_RevokedAt d = None then Some now else td_RevokedAt d),
       td_Status := TrustedDeviceStatusRevoked\<rparr>"

fun revokeFirst ::
    "string \<Rightarrow> int \<Rightarrow> TrustedAndroidDevice list \<Rightarrow> (TrustedAndroidDevice \<times> TrustedAndroidDevice list) option" where
  "revokeFirst fp now [] = None"
| "revokeFirst fp now (d # ds) =
     (if td_Fingerprint d = fp then Some (revokeDevice now d, revokeDevice now d # ds)
      else case revokeFirst fp now ds of None \<Rightarrow> None | Some (d', ds') \<Rightarrow> Some (d', d # ds'))"

definition RevokeTrustedAndroidDevice ::
    "bool \<Rightarrow> clock \<Rightarrow> string \<Rightarrow> stateFile \<Rightarrow> (storeError + TrustedAndroidDevice) \<times> stateFile" where
  "RevokeTrustedAndroidDevice saveOk clk fingerprint file =
     (case normalizeAndroidFingerprint fingerprint of
        Inl e \<Rightarrow> (Inl e, file)
      | Inr normalized \<Rightarrow>
          (case LoadPairingState file of
             Inl e \<Rightarrow> (Inl e, file)
           | Inr state \<Rightarrow>
               (case revokeFirst normalized (time_Unix (clk 0)) (ps_TrustedDevices state) of
                  None \<Rightarrow> (Inl ErrTrustedDeviceNotFound, file)
                | Some (d, ds) \<Rightarrow>
                    (case SavePairingState saveOk (state\<lparr>ps_TrustedDevices := ds\<rparr>) file of
                       (Some e, file') \<Rightarrow> (Inl e, file')
                     | (None, file') \<Rightarrow> (Inr d, file')))))"

end
