(* ===== verification/Pairing_Store.thy ===== *)
theory Pairing_Store
  imports Pairing_State
begin

text \<open>
  The pairing store as a state machine: the operations of \<^verbatim>\<open>pairing_state.go\<close> as the letters of a
  run, the well-formedness of the file, and the interface a trust list gives its readers
  (\<^verbatim>\<open>trust_store\<close>), which the store's trusted devices satisfy.
\<close>

section \<open>The interface of a trust list\<close>

text \<open>
  \<open>trusted s\<close> are the keys a reader sees, \<open>grants\<close> and \<open>revokes\<close> what an operation that succeeded
  granted and revoked. The one law: nothing else changes what a reader sees. \<open>happensIn\<close> says that
  some operation of a run grants (revokes) a key.
\<close>

fun happensIn :: "('op \<Rightarrow> 's \<Rightarrow> 'k set) \<Rightarrow> ('op \<Rightarrow> 's \<Rightarrow> 's) \<Rightarrow> 'k \<Rightarrow> 'op list \<Rightarrow> 's \<Rightarrow> bool" where
  "happensIn ev step k [] s \<longleftrightarrow> False"
| "happensIn ev step k (op # ops) s \<longleftrightarrow> k \<in> ev op s \<or> happensIn ev step k ops (step op s)"

locale trust_store =
  fixes ok :: "'s \<Rightarrow> bool" and trusted :: "'s \<Rightarrow> 'k set" and step :: "'op \<Rightarrow> 's \<Rightarrow> 's"
    and grants revokes :: "'op \<Rightarrow> 's \<Rightarrow> 'k set"
  assumes ok_step: "ok s \<Longrightarrow> ok (step op s)"
    and trusted_step: "ok s \<Longrightarrow> trusted (step op s) = (trusted s - revokes op s) \<union> grants op s"
begin

lemma ok_run: "ok s \<Longrightarrow> ok (fold step ops s)"
  by (induction ops arbitrary: s) (auto intro: ok_step)

lemma stays_out:
  "ok s \<Longrightarrow> k \<notin> trusted s \<Longrightarrow> \<not> happensIn grants step k ops s \<Longrightarrow> k \<notin> trusted (fold step ops s)"
proof (induction ops arbitrary: s)
  case (Cons op ops)
  then show ?case using Cons.IH [of "step op s"] ok_step trusted_step by simp
qed simp

lemma stays_in:
  "ok s \<Longrightarrow> k \<in> trusted s \<Longrightarrow> \<not> happensIn revokes step k ops s \<Longrightarrow> k \<in> trusted (fold step ops s)"
proof (induction ops arbitrary: s)
  case (Cons op ops)
  then show ?case using Cons.IH [of "step op s"] ok_step trusted_step by simp
qed simp

lemma revoke_lasts:
  assumes "ok s" "k \<in> revokes op s" "k \<notin> grants op s" "\<not> happensIn grants step k ops (step op s)"
  shows "k \<notin> trusted (fold step ops (step op s))"
  using assms by (intro stays_out) (auto simp: trusted_step intro: ok_step)

end

section \<open>Views of the file\<close>

definition invitationsOf :: "stateFile \<Rightarrow> PairingInvitationRecord list" where
  "invitationsOf file = (case LoadPairingState file of Inl _ \<Rightarrow> [] | Inr st \<Rightarrow> ps_Invitations st)"

definition pendingOf :: "stateFile \<Rightarrow> PendingPairingResponseRecord list" where
  "pendingOf file = (case LoadPairingState file of Inl _ \<Rightarrow> [] | Inr st \<Rightarrow> ps_PendingResponses st)"

definition devicesOf :: "stateFile \<Rightarrow> TrustedAndroidDevice list" where
  "devicesOf file = (case LoadPairingState file of Inl _ \<Rightarrow> [] | Inr st \<Rightarrow> ps_TrustedDevices st)"

definition trustedFingerprints :: "stateFile \<Rightarrow> string set" where
  "trustedFingerprints file =
     td_Fingerprint ` set (filter (\<lambda>d. \<not> deviceRevoked d) (devicesOf file))"

text \<open>An invitation that no further response can use.\<close>

definition invitationClosed :: "string \<Rightarrow> stateFile \<Rightarrow> bool" where
  "invitationClosed i file \<longleftrightarrow>
     (\<forall>r \<in> set (invitationsOf file). pr_InvitationID r = i \<longrightarrow> pr_ConsumedAt r \<noteq> None)"

definition storeInv :: "stateFile \<Rightarrow> bool" where
  "storeInv file \<longleftrightarrow>
     distinct (map td_Fingerprint (devicesOf file)) \<and> distinct (map pp_InvitationID (pendingOf file))"

section \<open>Runs of the store\<close>

datatype pairingOp =
    OpCreate crypto bool clock pairingRandom PairInvitationOptions
  | OpConsume bool clock string gotime
  | OpComplete crypto bool clock "ConnectivityIdentity option" AndroidResponse string gotime
  | OpStorePending crypto bool clock "ConnectivityIdentity option" AndroidResponse gotime
  | OpConfirm crypto bool clock "ConnectivityIdentity option" string string gotime
  | OpUpsert bool clock TrustedAndroidDevice
  | OpRevoke bool clock string

fun storeStep :: "pairingOp \<Rightarrow> stateFile \<Rightarrow> stateFile" where
  "storeStep (OpCreate C ok clk rnd opts) file = snd (CreatePairInvitation C ok clk rnd opts file)"
| "storeStep (OpConsume ok clk i now) file = snd (ConsumePairInvitation ok clk i now file)"
| "storeStep (OpComplete C ok clk ident res sas now) file =
     snd (CompletePairingResponse C ok clk ident res sas now file)"
| "storeStep (OpStorePending C ok clk ident res now) file =
     snd (StorePendingPairingResponse C ok clk ident res now file)"
| "storeStep (OpConfirm C ok clk ident i sas now) file =
     snd (ConfirmPendingPairingResponse C ok clk ident i sas now file)"
| "storeStep (OpUpsert ok clk d) file = snd (UpsertTrustedAndroidDevice ok clk d file)"
| "storeStep (OpRevoke ok clk fp) file = snd (RevokeTrustedAndroidDevice ok clk fp file)"

definition completed :: "(storeError + PairingCompletion) \<times> stateFile \<Rightarrow> string set" where
  "completed res = (case fst res of Inl _ \<Rightarrow> {} | Inr c \<Rightarrow> {td_Fingerprint (cm_Device c)})"

fun storeGrants :: "pairingOp \<Rightarrow> stateFile \<Rightarrow> string set" where
  "storeGrants (OpComplete C ok clk ident res sas now) file =
     completed (CompletePairingResponse C ok clk ident res sas now file)"
| "storeGrants (OpConfirm C ok clk ident i sas now) file =
     completed (ConfirmPendingPairingResponse C ok clk ident i sas now file)"
| "storeGrants (OpUpsert ok clk d) file =
     (case fst (UpsertTrustedAndroidDevice ok clk d file) of
        Some _ \<Rightarrow> {}
      | None \<Rightarrow> {ToLower (TrimSpace (td_Fingerprint d))})"
| "storeGrants _ file = {}"

fun storeRevokes :: "pairingOp \<Rightarrow> stateFile \<Rightarrow> string set" where
  "storeRevokes (OpRevoke ok clk fp) file =
     (case fst (RevokeTrustedAndroidDevice ok clk fp file) of
        Inl _ \<Rightarrow> {}
      | Inr d \<Rightarrow> {td_Fingerprint d})"
| "storeRevokes _ file = {}"

text \<open>The invitation ids an operation writes.\<close>

fun storeDrawn :: "pairingOp \<Rightarrow> string set" where
  "storeDrawn (OpCreate C ok clk rnd opts) =
     (case newOpaqueID ''pair'' (rn_invitation rnd) of Inl _ \<Rightarrow> {} | Inr i \<Rightarrow> {i})"
| "storeDrawn _ = {}"

section \<open>Files and lists\<close>

lemma Load_cases:
  assumes "LoadPairingState file = Inr st"
  obtains "file = NoFile" "ps_Invitations st = []" "ps_PendingResponses st = []" "ps_TrustedDevices st = []"
  | "file = StateFile st" "ps_Version st = PairingStateVersion"
  using assms by (auto simp: LoadPairingState_def split: stateFile.splits if_splits)

lemma Load_views:
  assumes "LoadPairingState file = Inr st"
  shows "invitationsOf file = ps_Invitations st" "pendingOf file = ps_PendingResponses st"
    "devicesOf file = ps_TrustedDevices st"
  using assms by (simp_all add: invitationsOf_def pendingOf_def devicesOf_def)

lemma Save_cases:
  assumes "SavePairingState saveOk st file = (e, file')"
  obtains "saveOk" "e = None" "LoadPairingState file' = Inr (st\<lparr>ps_Version := PairingStateVersion\<rparr>)"
  | "\<not> saveOk" "e = Some ErrStateFile" "file' = file"
  using assms by (auto simp: SavePairingState_def LoadPairingState_def split: if_splits)

lemma saved_views:
  assumes "LoadPairingState file' = Inr (st\<lparr>ps_Version := PairingStateVersion\<rparr>)"
  shows "invitationsOf file' = ps_Invitations st" "pendingOf file' = ps_PendingResponses st"
    "devicesOf file' = ps_TrustedDevices st"
  using Load_views [OF assms] by simp_all

lemma upsert_fingerprints:
  "td_Fingerprint ` set (upsertTrustedDeviceRecord ds d) = insert (td_Fingerprint d) (td_Fingerprint ` set ds)"
  by (induction ds) auto

lemma upsert_distinct:
  "distinct (map td_Fingerprint ds) \<Longrightarrow> distinct (map td_Fingerprint (upsertTrustedDeviceRecord ds d))"
  by (induction ds) (auto simp: upsert_fingerprints)

lemma upsert_set:
  "distinct (map td_Fingerprint ds) \<Longrightarrow>
   set (upsertTrustedDeviceRecord ds d) = insert d {x \<in> set ds. td_Fingerprint x \<noteq> td_Fingerprint d}"
  by (induction ds) (auto simp: rev_image_eqI)

lemma upsertPending_ids:
  "pp_InvitationID ` set (upsertPendingPairingResponseRecord ps p) =
     insert (pp_InvitationID p) (pp_InvitationID ` set ps)"
  by (induction ps) auto

lemma upsertPending_distinct:
  "distinct (map pp_InvitationID ps) \<Longrightarrow> distinct (map pp_InvitationID (upsertPendingPairingResponseRecord ps p))"
  by (induction ps) (auto simp: upsertPending_ids)

lemma removePending_distinct:
  "distinct (map pp_InvitationID ps) \<Longrightarrow>
   distinct (map pp_InvitationID (removePendingPairingResponseRecords ps i))"
  by (simp add: removePendingPairingResponseRecords_def distinct_map_filter)

lemma revokeFirst_spec:
  assumes "revokeFirst fp now ds = Some (d', ds')"
  shows "td_Fingerprint d' = fp" "deviceRevoked d'" "map td_Fingerprint ds' = map td_Fingerprint ds"
    "distinct (map td_Fingerprint ds) \<Longrightarrow> set ds' = insert d' {x \<in> set ds. td_Fingerprint x \<noteq> fp}"
  using assms
  by (induction ds arbitrary: ds')
    (auto simp: revokeDevice_def deviceRevoked_def rev_image_eqI split: if_splits option.splits)

lemma revokeFirst_None: "revokeFirst fp now ds = None \<longleftrightarrow> fp \<notin> td_Fingerprint ` set ds"
  by (induction ds) (auto split: option.splits)

lemma consumeFirst_closed:
  assumes "distinct (map pr_InvitationID rs)" "r \<in> set (consumeFirst i t rs)" "pr_InvitationID r = i"
  shows "pr_ConsumedAt r \<noteq> None"
  using assms
proof (induction rs)
  case (Cons a rs)
  show ?case
  proof (cases "pr_InvitationID a = i")
    case True
    then have "i \<notin> pr_InvitationID ` set rs" using Cons.prems(1) by simp
    then have "r \<notin> set rs" using Cons.prems(3) by (metis imageI)
    then show ?thesis using Cons.prems(2) True by simp
  next
    case False
    then have "r \<in> set (consumeFirst i t rs)" using Cons.prems(2,3) by auto
    then show ?thesis using Cons.IH Cons.prems by simp
  qed
qed simp

lemma consumeFirst_keeps:
  "(\<forall>r \<in> set rs. pr_InvitationID r = j \<longrightarrow> pr_ConsumedAt r \<noteq> None) \<Longrightarrow>
   r \<in> set (consumeFirst i t rs) \<Longrightarrow> pr_InvitationID r = j \<Longrightarrow> pr_ConsumedAt r \<noteq> None"
  by (induction rs) (auto split: if_splits)

section \<open>What each operation does\<close>

lemma Create_cases:
  obtains (same) e where "fst (CreatePairInvitation C saveOk clk rnd opts file) = Inl e"
      "snd (CreatePairInvitation C saveOk clk rnd opts file) = file"
  | (created) file' r where "snd (CreatePairInvitation C saveOk clk rnd opts file) = file'"
      "invitationsOf file' =
         sweepExpiredInvitationRecords (invitationsOf file) (effectiveNow (po_Now opts) clk) @ [r]"
      "newOpaqueID ''pair'' (rn_invitation rnd) = Inr (pr_InvitationID r)" "pr_ConsumedAt r = None"
      "pendingOf file' = pendingOf file" "devicesOf file' = devicesOf file"
proof -
  let ?res = "CreatePairInvitation C saveOk clk rnd opts file"
  let ?now = "effectiveNow (po_Now opts) clk"
  have "(\<exists>e. fst ?res = Inl e \<and> snd ?res = file) \<or>
    (\<exists>r. invitationsOf (snd ?res) = sweepExpiredInvitationRecords (invitationsOf file) ?now @ [r] \<and>
      newOpaqueID ''pair'' (rn_invitation rnd) = Inr (pr_InvitationID r) \<and> pr_ConsumedAt r = None \<and>
      pendingOf (snd ?res) = pendingOf file \<and> devicesOf (snd ?res) = devicesOf file)"
    by (auto simp: CreatePairInvitation_def Let_def SavePairingState_def invitationsOf_def pendingOf_def
        devicesOf_def LoadPairingState_def split: option.split sum.split)
  then show ?thesis using same created by blast
qed

lemma Consume_cases:
  obtains (same) e where "fst (ConsumePairInvitation saveOk clk i now0 file) = Inl e"
      "snd (ConsumePairInvitation saveOk clk i now0 file) = file"
  | (consumed) st r where "fst (ConsumePairInvitation saveOk clk i now0 file) =
        Inr (r\<lparr>pr_ConsumedAt := Some (time_Unix (effectiveNow now0 clk))\<rparr>)"
      "LoadPairingState file = Inr st" "checkInvitation i (effectiveNow now0 clk) st = Inr r"
      "LoadPairingState (snd (ConsumePairInvitation saveOk clk i now0 file)) =
         Inr (consumeInvitation i (effectiveNow now0 clk) st\<lparr>ps_Version := PairingStateVersion\<rparr>)"
proof -
  show ?thesis
  proof (cases "LoadPairingState file")
    case (Inl e)
    then show ?thesis using same by (simp add: ConsumePairInvitation_def)
  next
    case st: (Inr st)
    let ?now = "effectiveNow now0 clk"
    show ?thesis
    proof (cases "checkInvitation i ?now st")
      case (Inl e)
      then show ?thesis using st same by (simp add: ConsumePairInvitation_def)
    next
      case r: (Inr r)
      obtain e file' where sv: "SavePairingState saveOk (consumeInvitation i ?now st) file = (e, file')"
        by (cases "SavePairingState saveOk (consumeInvitation i ?now st) file")
      then show ?thesis
        by (rule Save_cases) (use st r sv same consumed in \<open>simp_all add: ConsumePairInvitation_def Let_def\<close>)
    qed
  qed
qed

definition completeState ::
    "string \<Rightarrow> gotime \<Rightarrow> PairingState \<Rightarrow> PairingState" where
  "completeState i now st = (consumeInvitation i now st)\<lparr>ps_PendingResponses :=
     removePendingPairingResponseRecords (ps_PendingResponses st) i\<rparr>"

definition completedDevice :: "AndroidResponse \<Rightarrow> VerifiedPairing \<Rightarrow> gotime \<Rightarrow> TrustedAndroidDevice" where
  "completedDevice response verified now =
     \<lparr>td_Fingerprint = vp_AndroidFingerprint verified, td_PublicKey = ar_AndroidPublicKey response,
      td_DisplayName = TrimSpace (ar_AndroidDisplayName response),
      td_AccountID = TrimSpace (ar_AccountID response), td_Status = TrustedDeviceStatusTrusted,
      td_PairedAt = time_Unix now, td_RevokedAt = None, td_Warning = []\<rparr>"

lemma consumeInvitation_pending [simp]:
  "ps_PendingResponses (consumeInvitation i now st) = ps_PendingResponses st"
  "ps_TrustedDevices (consumeInvitation i now st) = ps_TrustedDevices st"
  by (simp_all add: consumeInvitation_def)

text \<open>\<open>CompletePairingResponse\<close> past its checks: the file is saved once, with or without the device.\<close>

lemma Complete_checked:
  assumes "LoadPairingState file = Inr st" "identity = Some ident"
    "checkInvitation (ar_InvitationID res) (effectiveNow now0 clk) st = Inr r"
    "verifyPairingResponseForRecord C r ident res (effectiveNow now0 clk) = Inr v"
  shows "CompletePairingResponse C saveOk clk identity res sas now0 file =
    (let now = effectiveNow now0 clk; st1 = completeState (ar_InvitationID res) now st;
         d = completedDevice res v now
     in if TrimSpace sas \<noteq> vp_SAS v
        then (case SavePairingState saveOk st1 file of
                (Some e, file') \<Rightarrow> (Inl e, file')
              | (None, file') \<Rightarrow> (Inl ErrPairingSASMismatch, file'))
        else (case SavePairingState saveOk (st1\<lparr>ps_TrustedDevices :=
                     upsertTrustedDeviceRecord (ps_TrustedDevices st) d\<rparr>) file of
                (Some e, file') \<Rightarrow> (Inl e, file')
              | (None, file') \<Rightarrow> (Inr \<lparr>cm_Device = d, cm_SAS = vp_SAS v, cm_Warning = []\<rparr>, file')))"
  using assms by (simp add: CompletePairingResponse_def Let_def completeState_def completedDevice_def)

lemma Load_error: "LoadPairingState file = Inl e \<Longrightarrow> e = ErrStateFile"
  by (auto simp: LoadPairingState_def split: stateFile.splits if_splits)

lemma check_error: "checkInvitation i now st = Inl e \<Longrightarrow> e \<noteq> ErrPairingSASMismatch"
  by (auto simp: checkInvitation_def split: option.splits if_splits)

lemma Complete_cases:
  assumes "res0 = CompletePairingResponse C saveOk clk identity res sas now0 file"
    and "now = effectiveNow now0 clk"
  obtains (same) e where "fst res0 = Inl e" "snd res0 = file" "e \<noteq> ErrPairingSASMismatch"
  | (mismatch) st ident r v where "fst res0 = Inl ErrPairingSASMismatch"
      "LoadPairingState file = Inr st" "identity = Some ident"
      "checkInvitation (ar_InvitationID res) now st = Inr r"
      "verifyPairingResponseForRecord C r ident res now = Inr v" "TrimSpace sas \<noteq> vp_SAS v"
      "LoadPairingState (snd res0) =
         Inr (completeState (ar_InvitationID res) now st\<lparr>ps_Version := PairingStateVersion\<rparr>)"
  | (paired) st ident r v where
      "fst res0 = Inr \<lparr>cm_Device = completedDevice res v now, cm_SAS = vp_SAS v, cm_Warning = []\<rparr>"
      "LoadPairingState file = Inr st" "identity = Some ident"
      "checkInvitation (ar_InvitationID res) now st = Inr r"
      "verifyPairingResponseForRecord C r ident res now = Inr v" "TrimSpace sas = vp_SAS v"
      "LoadPairingState (snd res0) =
         Inr (completeState (ar_InvitationID res) now st
           \<lparr>ps_TrustedDevices := upsertTrustedDeviceRecord (ps_TrustedDevices st) (completedDevice res v now),
            ps_Version := PairingStateVersion\<rparr>)"
proof -
  note defs = CompletePairingResponse_def assms Let_def
  show ?thesis
  proof (cases "LoadPairingState file")
    case (Inl e)
    then show ?thesis using same Load_error [OF Inl] by (simp add: defs)
  next
    case st: (Inr st)
    show ?thesis
    proof (cases identity)
      case None
      then show ?thesis using st same by (simp add: defs)
    next
      case ident: (Some ident)
      show ?thesis
      proof (cases "checkInvitation (ar_InvitationID res) now st")
        case (Inl e)
        then show ?thesis using st ident same check_error [OF Inl] by (simp add: defs)
      next
        case r: (Inr r)
        show ?thesis
        proof (cases "verifyPairingResponseForRecord C r ident res now")
          case (Inl e)
          then show ?thesis using st ident r same by (simp add: defs)
        next
          case v: (Inr v)
          note eq = Complete_checked [OF st ident r [unfolded assms(2)] v [unfolded assms(2)], of saveOk sas,
              folded assms, unfolded Let_def]
          show ?thesis
            by (cases "TrimSpace sas = vp_SAS v"; cases saveOk)
              (use st ident r v eq same mismatch paired in
                \<open>simp_all add: SavePairingState_def LoadPairingState_def\<close>)
        qed
      qed
    qed
  qed
qed

lemma Confirm_cases:
  obtains (same) e where "fst (ConfirmPendingPairingResponse C saveOk clk identity i sas now0 file) = Inl e"
      "snd (ConfirmPendingPairingResponse C saveOk clk identity i sas now0 file) = file"
  | (complete) res where "ConfirmPendingPairingResponse C saveOk clk identity i sas now0 file =
      CompletePairingResponse C saveOk clk identity res sas now0 file" "ar_InvitationID res = TrimSpace i"
proof (cases "LoadPairingState file")
  case (Inl e)
  then show ?thesis using same by (simp add: ConfirmPendingPairingResponse_def)
next
  case st: (Inr st)
  show ?thesis
  proof (cases "find (\<lambda>p. pp_InvitationID p = TrimSpace i) (ps_PendingResponses st)")
    case None
    then show ?thesis using st same by (simp add: ConfirmPendingPairingResponse_def)
  next
    case (Some p)
    then have "pp_InvitationID p = TrimSpace i" by (auto simp: find_Some_iff)
    with Some st show ?thesis
      by (intro complete [of "\<lparr>ar_Version = Version, ar_AccountID = pp_AccountID p,
            ar_InvitationID = pp_InvitationID p, ar_CorrelationID = pp_CorrelationID p,
            ar_AndroidPublicKey = pp_AndroidPublicKey p, ar_AndroidFingerprint = pp_AndroidFingerprint p,
            ar_AndroidDisplayName = pp_AndroidDisplayName p, ar_Signature = pp_Signature p\<rparr>"])
        (simp_all add: ConfirmPendingPairingResponse_def)
  qed
qed

lemma StorePending_cases:
  obtains (same) e where "fst (StorePendingPairingResponse C saveOk clk identity res now0 file) = Inl e"
      "snd (StorePendingPairingResponse C saveOk clk identity res now0 file) = file"
  | (stored) file' p where "snd (StorePendingPairingResponse C saveOk clk identity res now0 file) = file'"
      "invitationsOf file' = invitationsOf file" "devicesOf file' = devicesOf file"
      "pendingOf file' = upsertPendingPairingResponseRecord (pendingOf file) p"
proof -
  let ?res = "StorePendingPairingResponse C saveOk clk identity res now0 file"
  have "(\<exists>e. fst ?res = Inl e \<and> snd ?res = file) \<or>
    (invitationsOf (snd ?res) = invitationsOf file \<and> devicesOf (snd ?res) = devicesOf file \<and>
     (\<exists>p. pendingOf (snd ?res) = upsertPendingPairingResponseRecord (pendingOf file) p))"
    by (auto simp: StorePendingPairingResponse_def Let_def SavePairingState_def invitationsOf_def pendingOf_def
        devicesOf_def LoadPairingState_def split: option.split sum.split)
  then show ?thesis using same stored by blast
qed

lemma normalize_value: "normalizeAndroidFingerprint raw = Inr fp \<Longrightarrow> fp = ToLower (TrimSpace raw)"
  by (auto simp: normalizeAndroidFingerprint_def Let_def split: if_splits)

lemma Upsert_cases:
  obtains (same) e where "UpsertTrustedAndroidDevice saveOk clk d file = (Some e, file)"
  | (upserted) file' d' where "UpsertTrustedAndroidDevice saveOk clk d file = (None, file')"
      "td_Fingerprint d' = ToLower (TrimSpace (td_Fingerprint d))" "\<not> deviceRevoked d'"
      "invitationsOf file' = invitationsOf file" "pendingOf file' = pendingOf file"
      "devicesOf file' = upsertTrustedDeviceRecord (devicesOf file) d'"
proof -
  let ?res = "UpsertTrustedAndroidDevice saveOk clk d file"
  define d' where "d' = d\<lparr>td_Fingerprint := ToLower (TrimSpace (td_Fingerprint d)),
    td_Status := TrustedDeviceStatusTrusted, td_RevokedAt := None,
    td_PairedAt := if td_PairedAt d = 0 then time_Unix (clk 0) else td_PairedAt d\<rparr>"
  have d': "td_Fingerprint d' = ToLower (TrimSpace (td_Fingerprint d))" "\<not> deviceRevoked d'"
    by (simp_all add: d'_def deviceRevoked_def TrustedDeviceStatusRevoked_def TrustedDeviceStatusTrusted_def)
  have "(\<exists>e. ?res = (Some e, file)) \<or>
    (fst ?res = None \<and> invitationsOf (snd ?res) = invitationsOf file \<and> pendingOf (snd ?res) = pendingOf file \<and>
     devicesOf (snd ?res) = upsertTrustedDeviceRecord (devicesOf file) d')"
    by (auto simp: UpsertTrustedAndroidDevice_def Let_def SavePairingState_def invitationsOf_def pendingOf_def
        devicesOf_def LoadPairingState_def d'_def dest!: normalize_value split: sum.split)
  then show ?thesis using same upserted [OF _ d'] by (cases ?res) auto
qed

lemma Revoke_cases:
  obtains (same) e where "RevokeTrustedAndroidDevice saveOk clk fp file = (Inl e, file)"
  | (revoked) file' d ds where "RevokeTrustedAndroidDevice saveOk clk fp file = (Inr d, file')"
      "revokeFirst (ToLower (TrimSpace fp)) (time_Unix (clk 0)) (devicesOf file) = Some (d, ds)"
      "invitationsOf file' = invitationsOf file" "pendingOf file' = pendingOf file" "devicesOf file' = ds"
proof -
  let ?res = "RevokeTrustedAndroidDevice saveOk clk fp file"
  have "(\<exists>e. ?res = (Inl e, file)) \<or>
    (\<exists>d. fst ?res = Inr d \<and>
      revokeFirst (ToLower (TrimSpace fp)) (time_Unix (clk 0)) (devicesOf file) = Some (d, devicesOf (snd ?res)) \<and>
      invitationsOf (snd ?res) = invitationsOf file \<and> pendingOf (snd ?res) = pendingOf file)"
    by (auto simp: RevokeTrustedAndroidDevice_def Let_def SavePairingState_def invitationsOf_def pendingOf_def
        devicesOf_def LoadPairingState_def dest!: normalize_value split: sum.split option.split)
  then show ?thesis using same revoked by (cases ?res) auto
qed

section \<open>The invariant and the trust list\<close>

definition trustedIn :: "TrustedAndroidDevice list \<Rightarrow> string set" where
  "trustedIn ds = td_Fingerprint ` {d \<in> set ds. \<not> deviceRevoked d}"

lemma trusted_upsert:
  assumes "distinct (map td_Fingerprint ds)" "\<not> deviceRevoked d"
  shows "trustedIn (upsertTrustedDeviceRecord ds d) = insert (td_Fingerprint d) (trustedIn ds)"
  using assms by (auto simp: trustedIn_def upsert_set)

lemma trusted_revoke:
  assumes "distinct (map td_Fingerprint ds)" "revokeFirst fp now ds = Some (d, ds')"
  shows "trustedIn ds' = trustedIn ds - {fp}"
  using revokeFirst_spec [OF assms(2)] assms(1) by (auto simp: trustedIn_def)

lemma trustedFingerprints_eq: "trustedFingerprints file = trustedIn (devicesOf file)"
  by (simp add: trustedFingerprints_def trustedIn_def)

lemma completedDevice_trusted [simp]:
  "\<not> deviceRevoked (completedDevice res v now)"
  "td_Fingerprint (completedDevice res v now) = vp_AndroidFingerprint v"
  by (simp_all add: completedDevice_def deviceRevoked_def TrustedDeviceStatusRevoked_def
      TrustedDeviceStatusTrusted_def)

lemma completeState_views [simp]:
  "ps_Invitations (completeState i now st) = consumeFirst i (time_Unix now) (ps_Invitations st)"
  "ps_PendingResponses (completeState i now st) = removePendingPairingResponseRecords (ps_PendingResponses st) i"
  "ps_TrustedDevices (completeState i now st) = ps_TrustedDevices st"
  by (simp_all add: completeState_def consumeInvitation_def)

lemma Complete_effect:
  assumes "storeInv file" and res0: "res0 = CompletePairingResponse C saveOk clk identity res sas now0 file"
  shows "storeInv (snd res0) \<and>
    trustedFingerprints (snd res0) = trustedFingerprints file \<union> completed res0"
proof -
  have inv: "distinct (map td_Fingerprint (devicesOf file))" "distinct (map pp_InvitationID (pendingOf file))"
    using assms(1) by (auto simp: storeInv_def)
  show ?thesis
    using res0 refl
  proof (cases rule: Complete_cases)
    case (same e)
    then show ?thesis using assms(1) by (simp add: completed_def)
  next
    case (mismatch st ident r v)
    note v = Load_views [OF mismatch(2)] saved_views [OF mismatch(7)]
    from v inv mismatch(1) show ?thesis
      by (simp add: storeInv_def trustedFingerprints_eq completed_def removePending_distinct)
  next
    case (paired st ident r v)
    note v = Load_views [OF paired(2)] saved_views [OF paired(7)]
    from v inv paired(1) show ?thesis
      by (simp add: storeInv_def trustedFingerprints_eq completed_def removePending_distinct upsert_distinct
          trusted_upsert)
  qed
qed

lemma store_step_trust:
  assumes "storeInv file"
  shows "storeInv (storeStep op file) \<and>
    trustedFingerprints (storeStep op file) =
      (trustedFingerprints file - storeRevokes op file) \<union> storeGrants op file"
proof -
  have inv: "distinct (map td_Fingerprint (devicesOf file))" "distinct (map pp_InvitationID (pendingOf file))"
    using assms by (auto simp: storeInv_def)
  show ?thesis
  proof (cases op)
    case (OpCreate C ok clk rnd opts)
    then show ?thesis
      by (cases rule: Create_cases [of C ok clk rnd opts "file"])
        (use assms in \<open>simp_all add: storeInv_def trustedFingerprints_def\<close>)
  next
    case (OpConsume ok clk i now)
    then show ?thesis
    proof (cases rule: Consume_cases [of ok clk i now "file"])
      case (consumed st r)
      then show ?thesis
        using OpConsume inv Load_views [OF consumed(2)] saved_views [OF consumed(4)]
        by (simp add: storeInv_def trustedFingerprints_eq)
    qed (use assms in simp)
  next
    case (OpComplete C ok clk ident res sas now)
    then show ?thesis using Complete_effect [OF assms refl] by simp
  next
    case (OpStorePending C ok clk ident res now)
    then show ?thesis
      by (cases rule: StorePending_cases [of C ok clk ident res now "file"])
        (use assms in \<open>simp_all add: storeInv_def trustedFingerprints_def upsertPending_distinct\<close>)
  next
    case (OpConfirm C ok clk ident i sas now)
    then show ?thesis
    proof (cases rule: Confirm_cases [of C ok clk ident i sas now "file"])
      case (complete res)
      then show ?thesis using OpConfirm Complete_effect [OF assms refl] by simp
    qed (use assms in \<open>simp add: completed_def\<close>)
  next
    case (OpUpsert ok clk d)
    then show ?thesis
      by (cases rule: Upsert_cases [of ok clk d "file"])
        (use inv assms in \<open>simp_all add: storeInv_def trustedFingerprints_eq upsert_distinct trusted_upsert\<close>)
  next
    case (OpRevoke ok clk fp)
    then show ?thesis
    proof (cases rule: Revoke_cases [of ok clk fp "file"])
      case (revoked file' d ds)
      then show ?thesis
        using OpRevoke inv revokeFirst_spec(1,3) [OF revoked(2)] trusted_revoke [OF inv(1) revoked(2)]
        by (simp add: storeInv_def trustedFingerprints_eq)
    qed (use assms in simp)
  qed
qed

interpretation store_trust: trust_store storeInv trustedFingerprints storeStep storeGrants storeRevokes
  by unfold_locales (simp_all add: store_step_trust)

end
