(* ===== verification/Pairing_Props.thy ===== *)
theory Pairing_Props
  imports Pairing_Store
begin

text \<open>
  The properties of the daemon's pairing store: an invitation is used once, a device is trusted only
  after a verified response and a matching authentication string, a revocation lasts, and a stored
  response can be confirmed.
\<close>

section \<open>Closed invitations\<close>

lemma closed_check:
  assumes "invitationClosed i file" "LoadPairingState file = Inr st"
  shows "\<exists>e. checkInvitation i now st = Inl e"
proof (cases "find (\<lambda>r. pr_InvitationID r = i) (ps_Invitations st)")
  case (Some r)
  then have "r \<in> set (ps_Invitations st)" "pr_InvitationID r = i"
    by (auto simp: find_Some_iff)
  then have "pr_ConsumedAt r \<noteq> None" using assms by (simp add: invitationClosed_def Load_views)
  then show ?thesis using Some by (simp add: checkInvitation_def)
qed (simp add: checkInvitation_def)

lemma closed_complete:
  assumes "invitationClosed (ar_InvitationID res) file"
  shows "\<exists>e. e \<noteq> ErrPairingSASMismatch \<and>
    CompletePairingResponse C saveOk clk identity res sas now0 file = (Inl e, file)"
proof (cases "LoadPairingState file")
  case (Inl e)
  then show ?thesis by (auto simp: CompletePairingResponse_def LoadPairingState_def split: stateFile.splits if_splits)
next
  case st: (Inr st)
  obtain e where e: "checkInvitation (ar_InvitationID res) (effectiveNow now0 clk) st = Inl e"
    using closed_check [OF assms st] by blast
  then have "e \<noteq> ErrPairingSASMismatch" by (auto simp: checkInvitation_def split: option.splits if_splits)
  then show ?thesis using st e by (cases identity) (simp_all add: CompletePairingResponse_def)
qed

lemma closed_consume:
  assumes "invitationClosed i file"
  shows "\<exists>e. ConsumePairInvitation saveOk clk i now0 file = (Inl e, file)"
proof (cases "LoadPairingState file")
  case st: (Inr st)
  then show ?thesis
    using closed_check [OF assms st, of "effectiveNow now0 clk"] by (auto simp: ConsumePairInvitation_def)
qed (simp add: ConsumePairInvitation_def)

lemma closed_pending:
  assumes "invitationClosed (ar_InvitationID res) file"
  shows "\<exists>e. StorePendingPairingResponse C saveOk clk identity res now0 file = (Inl e, file)"
proof (cases "LoadPairingState file")
  case st: (Inr st)
  then show ?thesis
    using closed_check [OF assms st, of "effectiveNow now0 clk"]
    by (cases identity) (auto simp: StorePendingPairingResponse_def)
qed (simp add: StorePendingPairingResponse_def)

lemma closed_consumed:
  "(\<forall>r \<in> set (invitationsOf file). pr_InvitationID r = j \<longrightarrow> pr_ConsumedAt r \<noteq> None) \<Longrightarrow>
   invitationsOf file' = consumeFirst i t (invitationsOf file) \<Longrightarrow> invitationClosed j file'"
  unfolding invitationClosed_def by (simp add: consumeFirst_keeps)

lemma closed_Complete:
  assumes "invitationClosed j file"
  shows "invitationClosed j (snd (CompletePairingResponse C ok clk ident res sas now file))"
  using refl refl
proof (cases rule: Complete_cases [of _ C ok clk ident res sas now "file"])
  case (same e)
  then show ?thesis using assms by simp
next
  case (mismatch st ident r v)
  then show ?thesis
    using assms Load_views [OF mismatch(2)] saved_views [OF mismatch(7)]
    by (intro closed_consumed [of "file"]) (simp_all add: invitationClosed_def)
next
  case (paired st ident r v)
  then show ?thesis
    using assms Load_views [OF paired(2)] saved_views [OF paired(7)]
    by (intro closed_consumed [of "file"]) (simp_all add: invitationClosed_def)
qed

lemma closed_step:
  assumes "invitationClosed j file" "j \<notin> storeDrawn op"
  shows "invitationClosed j (storeStep op file)"
proof (cases op)
  case (OpCreate C ok clk rnd opts)
  show ?thesis
    by (cases rule: Create_cases [of C ok clk rnd opts "file"])
      (use assms OpCreate in \<open>auto simp: invitationClosed_def sweepExpiredInvitationRecords_def\<close>)
next
  case (OpConsume ok clk i now)
  show ?thesis
  proof (cases rule: Consume_cases [of ok clk i now "file"])
    case (consumed st r)
    then show ?thesis
      using assms(1) OpConsume Load_views [OF consumed(2)] saved_views [OF consumed(4)]
      by (intro closed_consumed [of "file"]) (simp_all add: invitationClosed_def consumeInvitation_def)
  qed (use assms OpConsume in simp)
next
  case (OpComplete C ok clk ident res sas now)
  then show ?thesis using assms(1) by (simp add: closed_Complete)
next
  case (OpStorePending C ok clk ident res now)
  show ?thesis
    by (cases rule: StorePending_cases [of C ok clk ident res now "file"])
      (use assms(1) OpStorePending in \<open>simp_all add: invitationClosed_def\<close>)
next
  case (OpConfirm C ok clk ident i sas now)
  show ?thesis
    by (cases rule: Confirm_cases [of C ok clk ident i sas now "file"])
      (use assms(1) OpConfirm in \<open>simp_all add: closed_Complete\<close>)
next
  case (OpUpsert ok clk d)
  show ?thesis
    by (cases rule: Upsert_cases [of ok clk d "file"])
      (use assms(1) OpUpsert in \<open>simp_all add: invitationClosed_def\<close>)
next
  case (OpRevoke ok clk fp)
  show ?thesis
    by (cases rule: Revoke_cases [of ok clk fp "file"])
      (use assms(1) OpRevoke in \<open>simp_all add: invitationClosed_def\<close>)
qed

lemma closed_run:
  "invitationClosed j file \<Longrightarrow> \<forall>op \<in> set ops. j \<notin> storeDrawn op \<Longrightarrow>
   invitationClosed j (fold storeStep ops file)"
  by (induction ops arbitrary: "file") (simp_all add: closed_step)

lemma Complete_closes:
  assumes "distinct (map pr_InvitationID (invitationsOf file))"
    and res0: "res0 = CompletePairingResponse C ok clk ident res sas now file"
    and "fst res0 = Inl ErrPairingSASMismatch \<or> (\<exists>c. fst res0 = Inr c)"
  shows "invitationClosed (ar_InvitationID res) (snd res0)"
  using res0 refl
proof (cases rule: Complete_cases)
  case (same e)
  then show ?thesis using assms(3) by auto
next
  case (mismatch st ident r v)
  then show ?thesis
    using assms(1) Load_views [OF mismatch(2)] saved_views [OF mismatch(7)]
    by (auto simp: invitationClosed_def dest: consumeFirst_closed)
next
  case (paired st ident r v)
  then show ?thesis
    using assms(1) Load_views [OF paired(2)] saved_views [OF paired(7)]
    by (auto simp: invitationClosed_def dest: consumeFirst_closed)
qed

section \<open>Grants and listings\<close>

lemma check_record:
  assumes "checkInvitation i now st = Inr r"
  shows "r \<in> set (ps_Invitations st)" "pr_InvitationID r = i" "pr_ConsumedAt r = None"
    "now < time_of_Unix (pr_ExpiresAt r)"
  using assms by (auto simp: checkInvitation_def find_Some_iff split: option.splits if_splits)

lemma Complete_grants:
  assumes "fp \<in> completed (CompletePairingResponse C ok clk identity res sas now0 file)"
  shows "\<exists>ident st r v. identity = Some ident \<and> LoadPairingState file = Inr st \<and>
    r \<in> set (ps_Invitations st) \<and> pr_InvitationID r = ar_InvitationID res \<and> pr_ConsumedAt r = None \<and>
    effectiveNow now0 clk < time_of_Unix (pr_ExpiresAt r) \<and>
    verifyPairingResponseForRecord C r ident res (effectiveNow now0 clk) = Inr v \<and>
    TrimSpace sas = vp_SAS v \<and> fp = vp_AndroidFingerprint v"
  using refl refl
proof (cases rule: Complete_cases [of _ C ok clk identity res sas now0 "file"])
  case (paired st ident r v)
  then show ?thesis using assms check_record [OF paired(4)] by (simp add: completed_def) blast
qed (use assms in \<open>simp_all add: completed_def\<close>)

lemma List_fingerprints:
  "ListTrustedAndroidDevices file = Inr ds \<Longrightarrow> td_Fingerprint ` set ds = trustedFingerprints file"
proof -
  let ?f = "\<lambda>d. if td_Status d = [] then d\<lparr>td_Status := TrustedDeviceStatusTrusted\<rparr> else d"
  have f: "td_Fingerprint ` ?f ` A = td_Fingerprint ` A" for A :: "TrustedAndroidDevice set"
    unfolding image_image by (rule image_cong) auto
  assume "ListTrustedAndroidDevices file = Inr ds"
  then show ?thesis
    by (cases "LoadPairingState file")
      (auto simp: ListTrustedAndroidDevices_def trustedFingerprints_def devicesOf_def f simp del: if_image_distrib)
qed

section \<open>A stored response verifies again\<close>

lemma before_expiry: "now < time_of_Unix e \<Longrightarrow> time_Unix now < e"
  using mult_div_mod_eq [of second now] pos_mod_sign [of second now]
  unfolding time_Unix_def time_of_Unix_def second_def distrib_right by simp

text \<open>The response \<open>ConfirmPendingPairingResponse\<close> rebuilds from its record.\<close>

definition rebuiltResponse :: "PendingPairingResponseRecord \<Rightarrow> AndroidResponse" where
  "rebuiltResponse p =
     \<lparr>ar_Version = Version, ar_AccountID = pp_AccountID p, ar_InvitationID = pp_InvitationID p,
      ar_CorrelationID = pp_CorrelationID p, ar_AndroidPublicKey = pp_AndroidPublicKey p,
      ar_AndroidFingerprint = pp_AndroidFingerprint p, ar_AndroidDisplayName = pp_AndroidDisplayName p,
      ar_Signature = pp_Signature p\<rparr>"

definition pendingRecord ::
    "AndroidResponse \<Rightarrow> VerifiedPairing \<Rightarrow> gotime \<Rightarrow> PairingInvitationRecord \<Rightarrow> PendingPairingResponseRecord" where
  "pendingRecord response verified now r =
     \<lparr>pp_InvitationID = ar_InvitationID response, pp_CorrelationID = ar_CorrelationID response,
      pp_AccountID = TrimSpace (ar_AccountID response),
      pp_AndroidPublicKey = TrimSpace (ar_AndroidPublicKey response),
      pp_AndroidFingerprint = vp_AndroidFingerprint verified,
      pp_AndroidDisplayName = TrimSpace (ar_AndroidDisplayName response),
      pp_Signature = TrimSpace (ar_Signature response), pp_SAS = vp_SAS verified,
      pp_ReceivedAt = time_Unix now, pp_ExpiresAt = pr_ExpiresAt r\<rparr>"

definition trimmedResponse :: "AndroidResponse \<Rightarrow> bool" where
  "trimmedResponse response \<longleftrightarrow>
     TrimSpace (ar_AccountID response) = ar_AccountID response \<and>
     TrimSpace (ar_AndroidPublicKey response) = ar_AndroidPublicKey response \<and>
     TrimSpace (ar_AndroidDisplayName response) = ar_AndroidDisplayName response \<and>
     TrimSpace (ar_InvitationID response) = ar_InvitationID response"

lemma VerifyPairing_parts:
  assumes "VerifyPairingResponse C ivn res t = Inr v"
  shows "VerifyAndroidResponse C res = None" "vp_AndroidFingerprint v = normalizeFingerprint (ar_AndroidFingerprint res)"
  using assms by (auto simp: VerifyPairingResponse_def split: option.splits if_splits sum.splits)

lemma VerifyPairing_again:
  assumes "VerifyPairingResponse C ivn res t = Inr v" "t' < iv_ExpiresAt ivn"
    "VerifyAndroidResponse C res' = None" "ar_InvitationID res' = ar_InvitationID res"
    "ar_CorrelationID res' = ar_CorrelationID res" "ar_AccountID res' = ar_AccountID res"
    "ar_AndroidPublicKey res' = ar_AndroidPublicKey res"
    "normalizeFingerprint (ar_AndroidFingerprint res') = normalizeFingerprint (ar_AndroidFingerprint res)"
  shows "VerifyPairingResponse C ivn res' t' = Inr v"
  using assms by (auto simp: VerifyPairingResponse_def split: option.splits if_splits sum.splits)

lemma rebuilt_verifies:
  assumes "VerifyAndroidResponse C res = None" "trimmedResponse res"
    and fp: "vp_AndroidFingerprint v = normalizeFingerprint (ar_AndroidFingerprint res)"
  shows "VerifyAndroidResponse C (rebuiltResponse (pendingRecord res v now r)) = None"
proof -
  let ?res' = "rebuiltResponse (pendingRecord res v now r)"
  have "canonicalAndroidResponse ?res' = canonicalAndroidResponse res"
    "decodeHexField ''signature'' (ar_Signature ?res') = decodeHexField ''signature'' (ar_Signature res)"
    "validateFingerprint C pk (ar_AndroidFingerprint ?res') = validateFingerprint C pk (ar_AndroidFingerprint res)"
    "ar_AndroidPublicKey ?res' = ar_AndroidPublicKey res" for pk
    using assms(2) fp
    by (simp_all add: canonicalAndroidResponse_def responseFields_def rebuiltResponse_def pendingRecord_def
        trimmedResponse_def decodeHexField_def validateFingerprint_def split: sum.split)
  moreover have "ar_Version ?res' = ar_Version res"
    using assms(1) by (simp add: VerifyAndroidResponse_def rebuiltResponse_def split: if_splits)
  ultimately have "VerifyAndroidResponse C ?res' = VerifyAndroidResponse C res"
    unfolding VerifyAndroidResponse_def by (simp only:)
  then show ?thesis using assms(1) by simp
qed

lemma StorePending_ok:
  assumes "StorePendingPairingResponse C True clk (Some ident) res now0 file = (Inr p, file1)"
    and now: "now = effectiveNow now0 clk"
  obtains st r v where "LoadPairingState file = Inr st" "checkInvitation (ar_InvitationID res) now st = Inr r"
    "verifyPairingResponseForRecord C r ident res now = Inr v"
    "p = pendingPairingResponseFromRecord (pendingRecord res v now r)"
    "LoadPairingState file1 = Inr (st\<lparr>ps_PendingResponses :=
       upsertPendingPairingResponseRecord (ps_PendingResponses st) (pendingRecord res v now r),
       ps_Version := PairingStateVersion\<rparr>)"
proof -
  obtain st where st: "LoadPairingState file = Inr st"
    using assms(1) by (auto simp: StorePendingPairingResponse_def Let_def split: sum.splits)
  then obtain r where r: "checkInvitation (ar_InvitationID res) now st = Inr r"
    using assms(1) by (auto simp: StorePendingPairingResponse_def Let_def now split: sum.splits)
  then obtain v where v: "verifyPairingResponseForRecord C r ident res now = Inr v"
    using assms(1) st by (auto simp: StorePendingPairingResponse_def Let_def now split: sum.splits)
  have "p = pendingPairingResponseFromRecord (pendingRecord res v now r) \<and>
    file1 = StateFile (st\<lparr>ps_PendingResponses :=
       upsertPendingPairingResponseRecord (ps_PendingResponses st) (pendingRecord res v now r),
       ps_Version := PairingStateVersion\<rparr>)"
    using assms(1) st r v
    by (simp add: StorePendingPairingResponse_def Let_def now SavePairingState_def pendingRecord_def)
  then show ?thesis using that [OF st r v] by (simp add: LoadPairingState_def)
qed

lemma upsertPending_find:
  "pp_InvitationID p = i \<Longrightarrow>
   find (\<lambda>q. pp_InvitationID q = i) (upsertPendingPairingResponseRecord ps p) = Some p"
  by (induction ps) auto

lemma check_later:
  assumes "checkInvitation i now st = Inr r" "ps_Invitations st' = ps_Invitations st"
    "now' < time_of_Unix (pr_ExpiresAt r)"
  shows "checkInvitation i now' st' = Inr r"
  using assms by (auto simp: checkInvitation_def split: option.splits if_splits)

lemma record_verifies_again:
  assumes "verifyPairingResponseForRecord C r ident res now = Inr v" "trimmedResponse res"
    "now' < time_of_Unix (pr_ExpiresAt r)"
  shows "verifyPairingResponseForRecord C r ident (rebuiltResponse (pendingRecord res v now r)) now' = Inr v"
proof -
  define ivn where "ivn = \<lparr>iv_Version = Version, iv_AccountID = pr_AccountID r,
             iv_DaemonID = pr_DeviceID r, iv_DaemonDisplayName = [],
             iv_DaemonPublicKey = hex_EncodeToString (ci_PublicKey ident),
             iv_DaemonFingerprint = ci_Fingerprint ident, iv_InvitationID = pr_InvitationID r,
             iv_CorrelationID = pr_CorrelationID r, iv_Nonce = pr_Nonce r,
             iv_ExpiresAt = pr_ExpiresAt r, iv_RelayBaseURL = pr_RelayBaseURL r,
             iv_Signature = []\<rparr>"
  obtain ivn' where s: "SignInvitation C ivn (ci_PrivateKey ident) = Inr ivn'"
    and v: "VerifyPairingResponse C ivn' res (time_Unix now) = Inr v"
    using assms(1) unfolding verifyPairingResponseForRecord_def ivn_def [symmetric] by (auto split: sum.splits)
  have e: "iv_ExpiresAt ivn' = pr_ExpiresAt r"
    using s by (rule SignInvitation_ok) (simp add: ivn_def)
  have "VerifyPairingResponse C ivn' (rebuiltResponse (pendingRecord res v now r)) (time_Unix now') = Inr v"
    by (rule VerifyPairing_again [OF v _ rebuilt_verifies])
      (use assms(2,3) e VerifyPairing_parts [OF v] before_expiry in
        \<open>simp_all add: rebuiltResponse_def pendingRecord_def trimmedResponse_def\<close>)
  then show ?thesis using s unfolding verifyPairingResponseForRecord_def ivn_def [symmetric] by simp
qed

section \<open>Properties\<close>

text \<open>
  C13. An invitation is used once: after a response to it was completed, with the right authentication
  string or with a wrong one, and whatever the store does next short of drawing the same id again, every
  later response, pending response and consumption of that invitation is refused and leaves the file as it
  is.
\<close>

theorem invitation_single_use:
  assumes "distinct (map pr_InvitationID (invitationsOf file))"
    and "res0 = CompletePairingResponse C ok clk ident res sas now file"
    and "fst res0 = Inl ErrPairingSASMismatch \<or> (\<exists>c. fst res0 = Inr c)"
    and "\<forall>op \<in> set ops. ar_InvitationID res \<notin> storeDrawn op"
    and "later = fold storeStep ops (snd res0)" and "ar_InvitationID res' = ar_InvitationID res"
  shows "(\<exists>e. e \<noteq> ErrPairingSASMismatch \<and>
            CompletePairingResponse C' ok' clk' ident' res' sas' now' later = (Inl e, later)) \<and>
    (\<exists>e. StorePendingPairingResponse C' ok' clk' ident' res' now' later = (Inl e, later)) \<and>
    (\<exists>e. ConsumePairInvitation ok' clk' (ar_InvitationID res) now' later = (Inl e, later))"
proof -
  have "invitationClosed (ar_InvitationID res') later"
    using closed_run [OF Complete_closes [OF assms(1-3)] assms(4)] assms(5,6) by simp
  then show ?thesis using closed_complete closed_pending closed_consume assms(6) by metis
qed

text \<open>
  C12. Trust needs a verified pairing: a fingerprint that a store operation makes trusted was put there by
  the explicit upsert, or belongs to a response that answered an unconsumed, unexpired invitation of the file,
  verified against the daemon's identity, and came with the authentication string computed from both keys.
\<close>

theorem trust_needs_verification:
  assumes "storeInv file" "fp \<in> trustedFingerprints (storeStep op file)" "fp \<notin> trustedFingerprints file"
  shows "(\<exists>ok clk d. op = OpUpsert ok clk d \<and> fp = ToLower (TrimSpace (td_Fingerprint d))) \<or>
    (\<exists>C ok clk ident res sas now0 now st r v.
       (op = OpComplete C ok clk (Some ident) res sas now0 \<or>
        (\<exists>i. op = OpConfirm C ok clk (Some ident) i sas now0 \<and> TrimSpace i = ar_InvitationID res)) \<and>
       now = effectiveNow now0 clk \<and> LoadPairingState file = Inr st \<and>
       r \<in> set (ps_Invitations st) \<and> pr_InvitationID r = ar_InvitationID res \<and> pr_ConsumedAt r = None \<and>
       now < time_of_Unix (pr_ExpiresAt r) \<and>
       verifyPairingResponseForRecord C r ident res now = Inr v \<and> TrimSpace sas = vp_SAS v \<and>
       fp = vp_AndroidFingerprint v)"
proof (cases "fp \<in> storeGrants op file")
  case False
  then show ?thesis using store_step_trust [OF assms(1), of op] assms(2,3) by blast
next
  case True
  show ?thesis
  proof (cases op)
    case (OpComplete C ok clk ident res sas now)
    then show ?thesis using True Complete_grants [of fp C ok clk ident res sas now "file"] by auto
  next
    case (OpConfirm C ok clk ident i sas now)
    then show ?thesis
    proof (cases rule: Confirm_cases [of C ok clk ident i sas now "file"])
      case (complete res)
      then obtain ident' st r v where g: "ident = Some ident'" "LoadPairingState file = Inr st"
        "r \<in> set (ps_Invitations st)" "pr_InvitationID r = ar_InvitationID res" "pr_ConsumedAt r = None"
        "effectiveNow now clk < time_of_Unix (pr_ExpiresAt r)"
        "verifyPairingResponseForRecord C r ident' res (effectiveNow now clk) = Inr v"
        "TrimSpace sas = vp_SAS v" "fp = vp_AndroidFingerprint v"
        using True OpConfirm Complete_grants [of fp C ok clk ident res sas now "file"] by auto
      have "op = OpConfirm C ok clk (Some ident') i sas now \<and> TrimSpace i = ar_InvitationID res"
        using OpConfirm g(1) complete(2) by simp
      then show ?thesis using g(2-) by blast
    qed (use True in \<open>simp add: completed_def\<close>)
  next
    case (OpUpsert ok clk d)
    then show ?thesis using True by (auto split: option.splits)
  qed (use True in simp_all)
qed

text \<open>
  A revocation lasts: once \<open>RevokeTrustedAndroidDevice\<close> returned the device, no run of the store
  lists its fingerprint as trusted until one of its operations grants it again.
\<close>

theorem trust_revocation_lasts:
  assumes "storeInv file" "RevokeTrustedAndroidDevice ok clk raw file = (Inr d, file1)"
    and "\<not> happensIn storeGrants storeStep (td_Fingerprint d) ops file1"
    and "ListTrustedAndroidDevices (fold storeStep ops file1) = Inr ds"
  shows "td_Fingerprint d \<notin> td_Fingerprint ` set ds"
proof -
  have "td_Fingerprint d \<notin> trustedFingerprints (fold storeStep ops (storeStep (OpRevoke ok clk raw) file))"
    by (rule store_trust.revoke_lasts) (use assms in simp_all)
  then show ?thesis using assms(2,4) by (simp add: List_fingerprints)
qed

text \<open>
  C31. A stored response can be confirmed: when \<open>StorePendingPairingResponse\<close> accepted a response whose
  account, key and display name carry no surrounding space, then confirming it before the invitation expires with
  the authentication string it returned (typed with or without surrounding space) pairs the device, which is
  listed from then on, and the pending response is gone.
\<close>

theorem pending_then_confirm:
  assumes "StorePendingPairingResponse C True clk (Some ident) res now0 file = (Inr p, file1)"
    and "trimmedResponse res" "storeInv file" "TrimSpace typed = pn_SAS p"
    and "effectiveNow later clk' < time_of_Unix (pn_ExpiresAt p)"
  shows "\<exists>c file2. ConfirmPendingPairingResponse C True clk' (Some ident) (pn_InvitationID p) typed later file1
        = (Inr c, file2) \<and>
      td_Fingerprint (cm_Device c) = pn_AndroidFingerprint p \<and>
      pn_AndroidFingerprint p \<in> trustedFingerprints file2 \<and>
      pn_InvitationID p \<notin> pp_InvitationID ` set (pendingOf file2)"
proof -
  let ?now = "effectiveNow now0 clk" and ?later = "effectiveNow later clk'"
  obtain st r v where s: "LoadPairingState file = Inr st"
    "checkInvitation (ar_InvitationID res) ?now st = Inr r"
    "verifyPairingResponseForRecord C r ident res ?now = Inr v"
    and p: "p = pendingPairingResponseFromRecord (pendingRecord res v ?now r)"
    and f1: "LoadPairingState file1 = Inr (st\<lparr>ps_PendingResponses :=
       upsertPendingPairingResponseRecord (ps_PendingResponses st) (pendingRecord res v ?now r),
       ps_Version := PairingStateVersion\<rparr>)" (is "_ = Inr ?st1")
    using assms(1) refl by (rule StorePending_ok)
  let ?q = "pendingRecord res v ?now r" and ?res' = "rebuiltResponse (pendingRecord res v ?now r)"
  have t: "?later < time_of_Unix (pr_ExpiresAt r)" "TrimSpace typed = vp_SAS v"
    "pn_InvitationID p = ar_InvitationID res" "pn_AndroidFingerprint p = vp_AndroidFingerprint v"
    using assms(4,5) by (simp_all add: p pendingPairingResponseFromRecord_def pendingRecord_def)
  have ids: "ar_InvitationID ?res' = ar_InvitationID res" "TrimSpace (ar_InvitationID res) = pp_InvitationID ?q"
    using assms(2) by (simp_all add: rebuiltResponse_def pendingRecord_def trimmedResponse_def)
  have chk: "checkInvitation (ar_InvitationID ?res') ?later ?st1 = Inr r"
    using check_later [OF s(2) _ t(1)] ids by simp
  have ver: "verifyPairingResponseForRecord C r ident ?res' ?later = Inr v"
    by (rule record_verifies_again [OF s(3) assms(2) t(1)])
  have confirm: "ConfirmPendingPairingResponse C True clk' (Some ident) (pn_InvitationID p) typed later file1 =
      CompletePairingResponse C True clk' (Some ident) ?res' typed later file1"
    using f1 ids t(3) by (simp add: ConfirmPendingPairingResponse_def upsertPending_find rebuiltResponse_def)
  let ?out = "CompletePairingResponse C True clk' (Some ident) ?res' typed later file1"
  have out: "fst ?out = Inr \<lparr>cm_Device = completedDevice ?res' v ?later, cm_SAS = vp_SAS v, cm_Warning = []\<rparr>"
    "pendingOf (snd ?out) = removePendingPairingResponseRecords (ps_PendingResponses ?st1) (ar_InvitationID res)"
    using Complete_checked [OF f1 refl chk ver, of True typed] t(2) ids(1)
    by (simp_all add: Let_def SavePairingState_def pendingOf_def LoadPairingState_def)
  have "storeInv file1" using store_step_trust [OF assms(3), of "OpStorePending C True clk (Some ident) res now0"]
      assms(1) by simp
  then have "pn_AndroidFingerprint p \<in> trustedFingerprints (snd ?out)"
    using Complete_effect [OF _ refl] out(1) t(4) by (simp add: completed_def)
  then show ?thesis
    using out t(3,4) confirm
    by (intro exI [of _ "snd ?out"] exI) (auto simp: prod_eq_iff removePendingPairingResponseRecords_def)
qed

section \<open>A pairing, step by step\<close>

definition demoIdentity :: ConnectivityIdentity where
  "demoIdentity = \<lparr>ci_PrivateKey = replicate 32 1 @ demoKey, ci_PublicKey = demoKey,
     ci_Fingerprint = replicate 64 CHR ''0'', ci_CreatedAt = 1\<rparr>"

definition demoNow :: gotime where
  "demoNow = time_of_Unix 1000"

definition demoInvited :: "crypto \<Rightarrow> stateFile" where
  "demoInvited C = snd (CreatePairInvitation C True (\<lambda>_. 0)
     \<lparr>rn_invitation = Some [1], rn_correlation = Some [2], rn_nonce = Some [3]\<rparr>
     \<lparr>po_BaseURL = ''https://r'', po_DeviceID = ''d1'', po_DisplayName = ''pc'', po_AccountID = ''acc'',
      po_CorrelationID = [], po_Now = demoNow, po_DaemonIdentity = demoIdentity\<rparr> NoFile)"

definition demoAnswer :: "crypto \<Rightarrow> string \<Rightarrow> AndroidResponse" where
  "demoAnswer C name =
     (case SignAndroidResponse C \<lparr>ar_Version = 2, ar_AccountID = ''acc'', ar_InvitationID = ''pair_01'',
             ar_CorrelationID = ''corr_02'', ar_AndroidPublicKey = hex_EncodeToString demoKey,
             ar_AndroidFingerprint = replicate 64 CHR ''0'', ar_AndroidDisplayName = name, ar_Signature = []\<rparr>
             (replicate 32 1 @ demoKey) of
        Inr response \<Rightarrow> response
      | Inl _ \<Rightarrow> undefined)"

definition demoPaired :: "(storeError + PairingCompletion) \<times> stateFile" where
  "demoPaired = CompletePairingResponse demoCrypto True (\<lambda>_. 0) (Some demoIdentity)
     (demoAnswer demoCrypto ''phone'') ''000000'' demoNow (demoInvited demoCrypto)"

definition demoPending :: "(storeError + PendingPairingResponse) \<times> stateFile" where
  "demoPending = StorePendingPairingResponse demoCrypto True (\<lambda>_. 0) (Some demoIdentity)
     (demoAnswer demoCrypto ''phone'') demoNow (demoInvited demoCrypto)"

lemma demo_invited:
  "ar_InvitationID (demoAnswer demoCrypto ''phone'') = ''pair_01'' \<and> trimmedResponse (demoAnswer demoCrypto ''phone'')"
  "map pr_InvitationID (invitationsOf (demoInvited demoCrypto)) = [''pair_01''] \<and>
   devicesOf (demoInvited demoCrypto) = [] \<and> pendingOf (demoInvited demoCrypto) = []"
  by code_simp+

lemma demo_paired:
  "case demoPaired of (Inr c, f) \<Rightarrow> td_Fingerprint (cm_Device c) = replicate 64 CHR ''0'' \<and>
     map td_Fingerprint (devicesOf f) = [replicate 64 CHR ''0''] \<and> pendingOf f = [] | _ \<Rightarrow> False"
  by code_simp

lemma demo_pairedE:
  obtains c where "fst demoPaired = Inr c" "pendingOf (snd demoPaired) = []"
    "map td_Fingerprint (devicesOf (snd demoPaired)) = [replicate 64 CHR ''0'']"
  using demo_paired by (cases "fst demoPaired") (auto simp: case_prod_beta)

lemma demo_pending:
  "case demoPending of (Inr p, f) \<Rightarrow> pn_SAS p = ''000000'' \<and> pn_ExpiresAt p = 1300 | _ \<Rightarrow> False"
  by code_simp

theorem invitation_single_use_witness:
  "\<exists>e. CompletePairingResponse demoCrypto True (\<lambda>_. 0) (Some demoIdentity) (demoAnswer demoCrypto ''phone'')
     ''000000'' demoNow (snd demoPaired) = (Inl e, snd demoPaired)"
proof -
  have "\<exists>c. fst demoPaired = Inr c" by (rule demo_pairedE) simp
  then show ?thesis
    using invitation_single_use [of "demoInvited demoCrypto" demoPaired demoCrypto True "\<lambda>_. 0" "Some demoIdentity"
        "demoAnswer demoCrypto ''phone''" "''000000''" demoNow "[]" "snd demoPaired" "demoAnswer demoCrypto ''phone''"]
      demo_invited by (simp add: demoPaired_def) blast
qed

theorem trust_needs_verification_witness:
  "\<exists>st r. LoadPairingState (demoInvited demoCrypto) = Inr st \<and> r \<in> set (ps_Invitations st) \<and> pr_ConsumedAt r = None"
proof -
  let ?op = "OpComplete demoCrypto True (\<lambda>_. 0) (Some demoIdentity) (demoAnswer demoCrypto ''phone'') ''000000'' demoNow"
  have inv: "storeInv (demoInvited demoCrypto)" using demo_invited by (simp add: storeInv_def)
  have "replicate 64 CHR ''0'' \<in> trustedFingerprints (storeStep ?op (demoInvited demoCrypto))"
    using store_step_trust [OF inv, of ?op] demo_paired
    by (auto simp: completed_def demoPaired_def split: sum.splits prod.splits)
  moreover have "replicate 64 CHR ''0'' \<notin> trustedFingerprints (demoInvited demoCrypto)"
    using demo_invited by (simp add: trustedFingerprints_def)
  ultimately show ?thesis using trust_needs_verification [OF inv] by blast
qed

theorem trust_revocation_lasts_witness:
  "\<exists>d f1 ds. RevokeTrustedAndroidDevice True (\<lambda>_. demoNow) (replicate 64 CHR ''0'') (snd demoPaired) = (Inr d, f1) \<and>
     ListTrustedAndroidDevices f1 = Inr ds \<and> td_Fingerprint d \<notin> td_Fingerprint ` set ds"
proof -
  let ?r = "RevokeTrustedAndroidDevice True (\<lambda>_. demoNow) (replicate 64 CHR ''0'') (snd demoPaired)"
  have inv: "storeInv (snd demoPaired)"
    by (rule demo_pairedE) (simp add: storeInv_def)
  have "case ?r of (Inr d, f) \<Rightarrow> (case ListTrustedAndroidDevices f of Inr ds \<Rightarrow> True | _ \<Rightarrow> False) | _ \<Rightarrow> False"
    by code_simp
  then obtain d f ds where "?r = (Inr d, f)" "ListTrustedAndroidDevices f = Inr ds"
    by (cases ?r; cases "fst ?r"; cases "ListTrustedAndroidDevices (snd ?r)") auto
  with trust_revocation_lasts [OF inv this(1), of "[]"] show ?thesis by auto
qed

theorem pending_then_confirm_witness:
  "\<exists>p f1 c f2. demoPending = (Inr p, f1) \<and>
     ConfirmPendingPairingResponse demoCrypto True (\<lambda>_. 0) (Some demoIdentity) (pn_InvitationID p) ''000000'' demoNow f1
       = (Inr c, f2) \<and> pn_AndroidFingerprint p \<in> trustedFingerprints f2"
proof -
  obtain p f1 where p: "demoPending = (Inr p, f1)" "pn_SAS p = ''000000''" "pn_ExpiresAt p = 1300"
    using demo_pending by (auto split: sum.splits prod.splits)
  have "storeInv (demoInvited demoCrypto)" using demo_invited by (simp add: storeInv_def)
  moreover have "TrimSpace ''000000'' = ''000000''" "effectiveNow demoNow (\<lambda>_. 0) < time_of_Unix 1300"
    by code_simp+
  ultimately show ?thesis
    using pending_then_confirm [of demoCrypto "\<lambda>_. 0" demoIdentity "demoAnswer demoCrypto ''phone''" demoNow
        "demoInvited demoCrypto" p f1 "''000000''" demoNow "\<lambda>_. 0"] p demo_invited(1)
    by (simp add: demoPending_def) blast
qed

section \<open>Responses with surrounding space\<close>

text \<open>A signature scheme whose signatures depend on the end of the message.\<close>

definition tailCrypto :: crypto where
  "tailCrypto = \<lparr>cy_sha256 = (\<lambda>m. replicate 32 0), cy_sign = (\<lambda>sk m. take 64 (rev m @ replicate 64 0)),
     cy_verify = (\<lambda>pk m s. s = take 64 (rev m @ replicate 64 0))\<rparr>"

text \<open>
  A response with surrounding space is accepted as pending and cannot be confirmed: the phone signed a
  display name that ends in a space, the pending record keeps the trimmed name, and the confirmation, which
  verifies the signature again over the record's fields, answers \<open>ErrInvalidSignature\<close>, while completing the
  response directly with the same authentication string pairs the device.
\<close>

theorem untrimmed_response_not_confirmed:
  "case StorePendingPairingResponse tailCrypto True (\<lambda>_. 0) (Some demoIdentity)
          (demoAnswer tailCrypto ''phone '') demoNow (demoInvited tailCrypto) of
     (Inr p, f1) \<Rightarrow> fst (ConfirmPendingPairingResponse tailCrypto True (\<lambda>_. 0) (Some demoIdentity)
         (pn_InvitationID p) (pn_SAS p) demoNow f1) = Inl (ErrPairing ErrInvalidSignature) \<and>
       (case fst (CompletePairingResponse tailCrypto True (\<lambda>_. 0) (Some demoIdentity)
           (demoAnswer tailCrypto ''phone '') (pn_SAS p) demoNow f1) of Inr _ \<Rightarrow> True | Inl _ \<Rightarrow> False)
   | _ \<Rightarrow> False"
  by code_simp

end
