(* ===== verification/Device_Model.thy ===== *)
theory Device_Model
  imports Go_Net Protocol_Frames
begin

text \<open>
  The relay's device registry (\<open>internal/relay/device/registry.go\<close>): devices that can launch
  sessions, the launches and terminations in progress, and the connections that have not registered
  a device yet.

  A request is a heap object shared by the map and the goroutine that waits for it. Its immutable and
  guarded fields are the record kept in the map; \<open>completed\<close>, \<open>result\<close> and the channel \<open>done\<close>, which
  outlive the map entry, are the entry of \<open>dg_results\<close> (\<open>dg_terminated\<close>) under the object's number: the
  entry exists iff \<open>complete\<close> ran, which closes \<open>done\<close>. A \<open>DevicePeer\<close> is an option, \<open>None\<close> for
  \<open>nil\<close>. \<open>Launch\<close> and \<open>Terminate\<close> are written as the sections that hold the registry's mutex, with what
  runs between them, and their composition.
\<close>

type_synonym devPeer = "nat option"

definition LaunchStatusAccepted :: string where "LaunchStatusAccepted = ''accepted''"
definition LaunchStatusFailed :: string where "LaunchStatusFailed = ''failed''"
definition LaunchStatusSessionReady :: string where "LaunchStatusSessionReady = ''session_ready''"
definition TerminateStatusTerminated :: string where "TerminateStatusTerminated = ''terminated''"
definition TerminateStatusFailed :: string where "TerminateStatusFailed = ''failed''"

section \<open>State\<close>

record DeviceOwner =
  ow_UserID :: int
  ow_AgentTokenID :: string

record LaunchResult =
  rs_RequestID :: string
  rs_Status :: string
  rs_SessionID :: string
  rs_Reason :: string

record TerminateResult =
  rt_RequestID :: string
  rt_Status :: string
  rt_Reason :: string

record TerminateTarget =
  tt_DeviceID :: string
  tt_WorkspaceSession :: string

record LaunchCompletion =
  lm_SessionID :: string
  lm_Target :: TerminateTarget

record liveDevice =
  lv_info :: DeviceInfo
  lv_owner :: DeviceOwner
  lv_peer :: devPeer
  lv_connectedAt :: gotime
  lv_inFlight :: bool

record launchRequest =
  lr_ptr :: nat
  lr_id :: string
  lr_deviceID :: string
  lr_owner :: DeviceOwner
  lr_peer :: devPeer
  lr_accepted :: bool
  lr_sessionID :: string
  lr_workspaceSession :: string

record completedLaunch =
  cl_owner :: DeviceOwner
  cl_target :: TerminateTarget

record terminateRequest =
  tq_ptr :: nat
  tq_id :: string
  tq_deviceID :: string
  tq_owner :: DeviceOwner
  tq_peer :: devPeer
  tq_target :: TerminateTarget

record devRegistry =
  dg_devices :: "(string, liveDevice) gomap"
  dg_requests :: "(string, launchRequest) gomap"
  dg_completedLaunches :: "(string, completedLaunch) gomap"
  dg_terminateRequests :: "(string, terminateRequest) gomap"
  dg_pending :: "(devPeer, DeviceOwner) gomap"
  dg_results :: "(nat, LaunchResult) gomap"
  dg_terminated :: "(nat, TerminateResult) gomap"
  dg_nextPtr :: nat

definition NewRegistry_dev :: devRegistry where
  "NewRegistry_dev = \<lparr>dg_devices = [], dg_requests = [], dg_completedLaunches = [],
     dg_terminateRequests = [], dg_pending = [], dg_results = [], dg_terminated = [], dg_nextPtr = 0\<rparr>"

datatype deffect =
    DSend devPeer DeviceFrame
  | DClose devPeer
  | DDeactivate nat

section \<open>Request objects\<close>

definition deactivateDevicePeer :: "devPeer \<Rightarrow> deffect list" where
  "deactivateDevicePeer peer = (case peer of None \<Rightarrow> [] | Some p \<Rightarrow> [DDeactivate p])"

definition launchCompleted :: "launchRequest \<Rightarrow> devRegistry \<Rightarrow> bool" where
  "launchCompleted request r \<longleftrightarrow> gm_get (dg_results r) (lr_ptr request) \<noteq> None"

definition markAccepted :: "string \<Rightarrow> devRegistry \<Rightarrow> launchRequest \<Rightarrow> launchRequest" where
  "markAccepted workspaceSession r request =
     (if launchCompleted request r then request
      else request\<lparr>lr_accepted := True, lr_workspaceSession := TrimSpace workspaceSession\<rparr>)"

definition markSessionReady :: "string \<Rightarrow> devRegistry \<Rightarrow> launchRequest \<Rightarrow> launchRequest" where
  "markSessionReady sessionID r request =
     (if launchCompleted request r then request else request\<lparr>lr_sessionID := TrimSpace sessionID\<rparr>)"

definition isAccepted :: "launchRequest \<Rightarrow> devRegistry \<Rightarrow> bool" where
  "isAccepted request r \<longleftrightarrow> lr_accepted request \<and> \<not> launchCompleted request r"

definition registeredSessionID :: "launchRequest \<Rightarrow> devRegistry \<Rightarrow> string" where
  "registeredSessionID request r =
     (if launchCompleted request r then [] else TrimSpace (lr_sessionID request))"

definition acceptedWorkspaceSession :: "launchRequest \<Rightarrow> devRegistry \<Rightarrow> string" where
  "acceptedWorkspaceSession request r =
     (if launchCompleted request r then [] else TrimSpace (lr_workspaceSession request))"

text \<open>\<open>launchRequest.complete\<close>: the first result stays.\<close>

definition completeLaunchRequest :: "launchRequest option \<Rightarrow> LaunchResult \<Rightarrow> devRegistry \<Rightarrow> devRegistry" where
  "completeLaunchRequest request result r =
     (case request of
        None \<Rightarrow> r
      | Some q \<Rightarrow> if launchCompleted q r then r
                  else r\<lparr>dg_results := gm_put (lr_ptr q) result (dg_results r)\<rparr>)"

definition completeTerminateRequest ::
    "terminateRequest option \<Rightarrow> TerminateResult \<Rightarrow> devRegistry \<Rightarrow> devRegistry" where
  "completeTerminateRequest request result r =
     (case request of
        None \<Rightarrow> r
      | Some q \<Rightarrow> if gm_get (dg_terminated r) (tq_ptr q) \<noteq> None then r
                  else r\<lparr>dg_terminated := gm_put (tq_ptr q) result (dg_terminated r)\<rparr>)"

definition normalizedTerminateTarget :: "TerminateTarget \<Rightarrow> TerminateTarget" where
  "normalizedTerminateTarget target =
     \<lparr>tt_DeviceID = TrimSpace (tt_DeviceID target),
      tt_WorkspaceSession = TrimSpace (tt_WorkspaceSession target)\<rparr>"

definition hasTerminateTarget :: "TerminateTarget \<Rightarrow> bool" where
  "hasTerminateTarget target0 =
     (let target = normalizedTerminateTarget target0
      in tt_DeviceID target \<noteq> [] \<and> tt_WorkspaceSession target \<noteq> [])"

section \<open>Locked helpers\<close>

definition hasPendingRequestLocked :: "string \<Rightarrow> devRegistry \<Rightarrow> bool" where
  "hasPendingRequestLocked deviceID r \<longleftrightarrow> list_ex (\<lambda>(_, q). lr_deviceID q = deviceID) (dg_requests r)"

definition hasOtherPendingRequestLocked :: "string \<Rightarrow> string \<Rightarrow> devRegistry \<Rightarrow> bool" where
  "hasOtherPendingRequestLocked deviceID skipRequestID r \<longleftrightarrow>
     list_ex (\<lambda>(requestID, q). requestID \<noteq> skipRequestID \<and> lr_deviceID q = deviceID) (dg_requests r)"

definition setInFlight :: "string \<Rightarrow> bool \<Rightarrow> devRegistry \<Rightarrow> devRegistry" where
  "setInFlight deviceID b r =
     (case gm_get (dg_devices r) deviceID of
        None \<Rightarrow> r
      | Some live \<Rightarrow> r\<lparr>dg_devices := gm_put deviceID (live\<lparr>lv_inFlight := b\<rparr>) (dg_devices r)\<rparr>)"

definition clearRequestLocked :: "string \<Rightarrow> devRegistry \<Rightarrow> launchRequest option \<times> devRegistry" where
  "clearRequestLocked requestID r =
     (case gm_get (dg_requests r) requestID of
        None \<Rightarrow> (None, r)
      | Some request \<Rightarrow>
          let r1 = setInFlight (lr_deviceID request)
                (hasOtherPendingRequestLocked (lr_deviceID request) requestID r) r
          in (Some request, r1\<lparr>dg_requests := gm_del requestID (dg_requests r1)\<rparr>))"

definition clearRequest :: "string \<Rightarrow> devRegistry \<Rightarrow> devRegistry" where
  "clearRequest requestID r = snd (clearRequestLocked requestID r)"

definition completeRequestLocked :: "string \<Rightarrow> LaunchResult \<Rightarrow> devRegistry \<Rightarrow> devRegistry" where
  "completeRequestLocked requestID result r =
     (let (request, r1) = clearRequestLocked requestID r in completeLaunchRequest request result r1)"

definition clearTerminateRequestLocked ::
    "string \<Rightarrow> devRegistry \<Rightarrow> terminateRequest option \<times> devRegistry" where
  "clearTerminateRequestLocked requestID r =
     (case gm_get (dg_terminateRequests r) requestID of
        None \<Rightarrow> (None, r)
      | Some request \<Rightarrow>
          (Some request, r\<lparr>dg_terminateRequests := gm_del requestID (dg_terminateRequests r)\<rparr>))"

definition clearTerminateRequest :: "string \<Rightarrow> devRegistry \<Rightarrow> devRegistry" where
  "clearTerminateRequest requestID r = snd (clearTerminateRequestLocked requestID r)"

definition completeTerminateRequestLocked :: "string \<Rightarrow> TerminateResult \<Rightarrow> devRegistry \<Rightarrow> devRegistry" where
  "completeTerminateRequestLocked requestID result r =
     (let (request, r1) = clearTerminateRequestLocked requestID r
      in completeTerminateRequest request result r1)"

definition completeDeviceRequestsLocked :: "string \<Rightarrow> LaunchResult \<Rightarrow> devRegistry \<Rightarrow> devRegistry" where
  "completeDeviceRequestsLocked deviceID result r =
     fold (\<lambda>(requestID, request) r.
         if lr_deviceID request \<noteq> deviceID then r
         else if isAccepted request r then setInFlight deviceID True r
         else completeLaunchRequest (Some request) (result\<lparr>rs_RequestID := lr_id request\<rparr>)
                (snd (clearRequestLocked requestID r)))
       (dg_requests r) r"

definition completeDeviceTerminateRequestsLocked ::
    "string \<Rightarrow> TerminateResult \<Rightarrow> devRegistry \<Rightarrow> devRegistry" where
  "completeDeviceTerminateRequestsLocked deviceID result r =
     fold (\<lambda>(requestID, request) r.
         if tq_deviceID request \<noteq> deviceID then r
         else completeTerminateRequest (Some request) (result\<lparr>rt_RequestID := tq_id request\<rparr>)
                (snd (clearTerminateRequestLocked requestID r)))
       (dg_terminateRequests r) r"

definition deleteCompletedLaunchTargetLocked :: "TerminateTarget \<Rightarrow> devRegistry \<Rightarrow> devRegistry" where
  "deleteCompletedLaunchTargetLocked target0 r =
     (let target = normalizedTerminateTarget target0
      in if \<not> hasTerminateTarget target then r
         else r\<lparr>dg_completedLaunches := gm_drop (\<lambda>c. cl_target c = target) (dg_completedLaunches r)\<rparr>)"

definition completeReadyLaunchLocked ::
    "string \<Rightarrow> launchRequest \<Rightarrow> string \<Rightarrow> devRegistry \<Rightarrow> (LaunchCompletion \<times> bool) \<times> devRegistry" where
  "completeReadyLaunchLocked requestID request sessionID r =
     (let target = \<lparr>tt_DeviceID = lr_deviceID request,
                    tt_WorkspaceSession = acceptedWorkspaceSession request r\<rparr>;
          r1 = completeRequestLocked requestID
                 \<lparr>rs_RequestID = requestID, rs_Status = LaunchStatusSessionReady, rs_SessionID = sessionID,
                  rs_Reason = []\<rparr> r;
          completion = \<lparr>lm_SessionID = sessionID, lm_Target = target\<rparr>
      in if hasTerminateTarget target
         then ((completion, True), r1\<lparr>dg_completedLaunches := gm_put requestID
                 \<lparr>cl_owner = lr_owner request, cl_target = target\<rparr> (dg_completedLaunches r1)\<rparr>)
         else ((completion, False), r1))"

section \<open>Connections\<close>

definition offlineLaunch :: LaunchResult where
  "offlineLaunch = \<lparr>rs_RequestID = [], rs_Status = LaunchStatusFailed, rs_SessionID = [],
     rs_Reason = ''device_offline''\<rparr>"

definition offlineTerminate :: TerminateResult where
  "offlineTerminate = \<lparr>rt_RequestID = [], rt_Status = TerminateStatusFailed, rt_Reason = ''device_offline''\<rparr>"

text \<open>What \<open>RegisterOwned\<close> and \<open>ActivatePending\<close> do with the device under its id, and the new entry.\<close>

definition installDevice ::
    "clock \<Rightarrow> DeviceInfo \<Rightarrow> DeviceOwner \<Rightarrow> devPeer \<Rightarrow> devRegistry \<Rightarrow> deffect list \<times> devRegistry" where
  "installDevice clk info owner peer r =
     (let deviceID = dv_DeviceID info;
          (effects, closing, r1) =
            (case gm_get (dg_devices r) deviceID of
               None \<Rightarrow> ([], [], r)
             | Some old \<Rightarrow>
                 if lv_peer old = peer then ([], [], r)
                 else (deactivateDevicePeer (lv_peer old), [DClose (lv_peer old)],
                       completeDeviceTerminateRequestsLocked deviceID offlineTerminate
                         (completeDeviceRequestsLocked deviceID offlineLaunch r)))
      in (effects @ closing,
          r1\<lparr>dg_devices := gm_put deviceID
               \<lparr>lv_info = info, lv_owner = owner, lv_peer = peer, lv_connectedAt = clk 0,
                lv_inFlight = hasPendingRequestLocked deviceID r1\<rparr> (dg_devices r1)\<rparr>))"

definition RegisterOwned_dev ::
    "clock \<Rightarrow> DeviceInfo \<Rightarrow> DeviceOwner \<Rightarrow> devPeer \<Rightarrow> devRegistry \<Rightarrow> deffect list \<times> devRegistry" where
  "RegisterOwned_dev clk info owner peer r = installDevice clk info owner peer r"

definition RegisterPending :: "DeviceOwner \<Rightarrow> devPeer \<Rightarrow> devRegistry \<Rightarrow> devRegistry" where
  "RegisterPending owner peer r = r\<lparr>dg_pending := gm_put peer owner (dg_pending r)\<rparr>"

definition DisconnectPending :: "devPeer \<Rightarrow> devRegistry \<Rightarrow> bool \<times> deffect list \<times> devRegistry" where
  "DisconnectPending peer r =
     (case gm_get (dg_pending r) peer of
        None \<Rightarrow> (False, [], r)
      | Some _ \<Rightarrow> (True, deactivateDevicePeer peer, r\<lparr>dg_pending := gm_del peer (dg_pending r)\<rparr>))"

definition ActivatePending ::
    "clock \<Rightarrow> DeviceInfo \<Rightarrow> DeviceOwner \<Rightarrow> devPeer \<Rightarrow> devRegistry \<Rightarrow> bool \<times> deffect list \<times> devRegistry" where
  "ActivatePending clk info owner peer r =
     (if gm_get (dg_pending r) peer \<noteq> Some owner then (False, [], r)
      else
        let r1 = r\<lparr>dg_pending := gm_del peer (dg_pending r)\<rparr>
        in case gm_get (dg_devices r1) (dv_DeviceID info) of
             Some old \<Rightarrow>
               if ow_UserID (lv_owner old) \<noteq> ow_UserID owner then (False, [], r1)
               else (True, installDevice clk info owner peer r1)
           | None \<Rightarrow> (True, installDevice clk info owner peer r1))"

definition UpdateIfOwner :: "string \<Rightarrow> devPeer \<Rightarrow> DeviceInfo \<Rightarrow> devRegistry \<Rightarrow> bool \<times> devRegistry" where
  "UpdateIfOwner deviceID owner info r =
     (case gm_get (dg_devices r) deviceID of
        None \<Rightarrow> (False, r)
      | Some live \<Rightarrow>
          if lv_peer live \<noteq> owner then (False, r)
          else (True, r\<lparr>dg_devices := gm_put deviceID (live\<lparr>lv_info := info\<rparr>) (dg_devices r)\<rparr>))"

text \<open>The removal of one device: \<open>DisconnectIfOwner\<close> and each round of \<open>DisconnectAgentTokenDevices\<close>.\<close>

definition dropDevice :: "string \<Rightarrow> devRegistry \<Rightarrow> devRegistry" where
  "dropDevice deviceID r =
     completeDeviceTerminateRequestsLocked deviceID offlineTerminate
       (completeDeviceRequestsLocked deviceID offlineLaunch
         (r\<lparr>dg_devices := gm_del deviceID (dg_devices r)\<rparr>))"

definition DisconnectIfOwner_dev :: "string \<Rightarrow> devPeer \<Rightarrow> devRegistry \<Rightarrow> bool \<times> deffect list \<times> devRegistry" where
  "DisconnectIfOwner_dev deviceID owner r =
     (case gm_get (dg_devices r) deviceID of
        None \<Rightarrow> (False, [], r)
      | Some live \<Rightarrow>
          if owner = None \<or> lv_peer live \<noteq> owner then (False, [], r)
          else (True, deactivateDevicePeer owner @ [DClose owner], dropDevice deviceID r))"

definition DisconnectAgentTokenDevices :: "string \<Rightarrow> devRegistry \<Rightarrow> int \<times> deffect list \<times> devRegistry" where
  "DisconnectAgentTokenDevices agentTokenID r =
     (let victims = filter (\<lambda>(_, live). ow_AgentTokenID (lv_owner live) = agentTokenID) (dg_devices r);
          waiting = filter (\<lambda>(_, owner). ow_AgentTokenID owner = agentTokenID) (dg_pending r);
          r1 = fold (\<lambda>(deviceID, _). dropDevice deviceID) victims r
      in (int (length victims) + int (length waiting),
          concat (map (\<lambda>(_, live). deactivateDevicePeer (lv_peer live) @ [DClose (lv_peer live)]) victims) @
          concat (map (\<lambda>(peer, _). deactivateDevicePeer peer @ [DClose peer]) waiting),
          r1\<lparr>dg_pending := gm_drop (\<lambda>owner. ow_AgentTokenID owner = agentTokenID) (dg_pending r1)\<rparr>))"

definition ListForUser :: "int \<Rightarrow> devRegistry \<Rightarrow> DeviceInfo list" where
  "ListForUser userID r =
     map lv_info (sort_key (\<lambda>live. (- lv_connectedAt live, dv_DeviceID (lv_info live)))
       (gm_vals (\<lambda>live. ow_UserID (lv_owner live) = userID) (dg_devices r)))"

end
