(* ===== verification/Device_Ops.thy ===== *)
theory Device_Ops
  imports Device_Model
begin

text \<open>
  Launching and terminating sessions through the device registry: the sections of \<open>Launch\<close> and
  \<open>Terminate\<close>, the answers of the devices, and the two operations as compositions of their sections
  with what other goroutines do in between.
\<close>

section \<open>Request ids\<close>

text \<open>\<open>t.Format("150405.000000000")\<close> of a UTC time: the time of day with nanoseconds.\<close>

definition padLeft :: "nat \<Rightarrow> string \<Rightarrow> string" where
  "padLeft n s = replicate (n - length s) CHR ''0'' @ s"

definition formatClock :: "gotime \<Rightarrow> string" where
  "formatClock t =
     (let s = t div second mod 86400
      in padLeft 2 (itoa (s div 3600)) @ padLeft 2 (itoa (s div 60 mod 60)) @ padLeft 2 (itoa (s mod 60)) @
         ''.'' @ padLeft 9 (itoa (t mod second)))"

section \<open>Launch\<close>

definition launchFailed :: "string \<Rightarrow> string \<Rightarrow> LaunchResult" where
  "launchFailed requestID reason =
     \<lparr>rs_RequestID = requestID, rs_Status = LaunchStatusFailed, rs_SessionID = [], rs_Reason = reason\<rparr>"

definition Launch_begin ::
    "clock \<Rightarrow> string \<Rightarrow> int \<Rightarrow> devRegistry \<Rightarrow> (LaunchResult + launchRequest) \<times> devRegistry" where
  "Launch_begin clk deviceID userID r =
     (let requestID = deviceID @ ''-'' @ formatClock (clk 0)
      in case gm_get (dg_devices r) deviceID of
           None \<Rightarrow> (Inl (launchFailed requestID ''device_offline''), r)
         | Some live \<Rightarrow>
             if ow_UserID (lv_owner live) \<noteq> userID \<or> lv_peer live = None
             then (Inl (launchFailed requestID ''device_offline''), r)
             else if lv_inFlight live then (Inl (launchFailed requestID ''busy''), r)
             else
               let request = \<lparr>lr_ptr = dg_nextPtr r, lr_id = requestID, lr_deviceID = deviceID,
                     lr_owner = lv_owner live, lr_peer = lv_peer live, lr_accepted = False,
                     lr_sessionID = [], lr_workspaceSession = []\<rparr>
               in (Inr request,
                   r\<lparr>dg_devices := gm_put deviceID (live\<lparr>lv_inFlight := True\<rparr>) (dg_devices r),
                     dg_requests := gm_put requestID request (dg_requests r),
                     dg_nextPtr := Suc (dg_nextPtr r)\<rparr>))"

definition timeoutLaunchRequest ::
    "string \<Rightarrow> devRegistry \<Rightarrow> (LaunchResult \<times> TerminateTarget \<times> devPeer) \<times> devRegistry" where
  "timeoutLaunchRequest requestID r =
     (let result = launchFailed requestID ''launch_timeout''
      in case clearRequestLocked requestID r of
           (None, r1) \<Rightarrow> ((result, \<lparr>tt_DeviceID = [], tt_WorkspaceSession = []\<rparr>, None), r1)
         | (Some request, r1) \<Rightarrow>
             ((result, \<lparr>tt_DeviceID = lr_deviceID request,
                        tt_WorkspaceSession = acceptedWorkspaceSession request r1\<rparr>, lr_peer request),
              completeLaunchRequest (Some request) result r1))"

text \<open>
  What the goroutine of a launch meets after its first section: its context is already done, the frame
  cannot be sent, or it waits, other goroutines take the registry to \<open>r'\<close>, and then one case of its
  \<open>select\<close> fires: the closed \<open>done\<close> channel, or the context.
\<close>

datatype 'r waiting = CtxDone | SendFails | WakeDone 'r | WakeCtx 'r

definition Launch_wait ::
    "string \<Rightarrow> nat \<Rightarrow> devRegistry waiting \<Rightarrow> devRegistry
      \<Rightarrow> LaunchResult option \<times> deffect list \<times> devRegistry" where
  "Launch_wait requestID ptr w r =
     (case w of
        CtxDone \<Rightarrow> (Some (launchFailed requestID ''launch_timeout''), [], clearRequest requestID r)
      | SendFails \<Rightarrow> (Some (launchFailed requestID ''device_offline''), [], clearRequest requestID r)
      | WakeDone r' \<Rightarrow> (gm_get (dg_results r') ptr, [], r')
      | WakeCtx r' \<Rightarrow>
          let ((result, target, targetPeer), r2) = timeoutLaunchRequest requestID r'
          in (Some result,
              if hasTerminateTarget target \<and> targetPeer \<noteq> None
              then [DSend targetPeer (DeviceTerminateRequestFrame (requestID @ ''-cleanup'') []
                      (tt_WorkspaceSession target))]
              else [], r2))"

text \<open>
  The operation: \<open>others\<close> is what other goroutines do to the registry from the end of the first section
  on. The result is \<open>None\<close> when the \<open>done\<close> case is asked for while the channel is open: the call waits.
\<close>

definition Launch ::
    "clock \<Rightarrow> (devRegistry \<Rightarrow> devRegistry waiting) \<Rightarrow> string \<Rightarrow> int \<Rightarrow> string \<Rightarrow> string \<Rightarrow> string \<Rightarrow> devRegistry
      \<Rightarrow> LaunchResult option \<times> deffect list \<times> devRegistry" where
  "Launch clk others deviceID userID command cwd label r =
     (case Launch_begin clk deviceID userID r of
        (Inl result, r1) \<Rightarrow> (Some result, [], r1)
      | (Inr request, r1) \<Rightarrow>
          let w = others r1;
              sent = (if w = CtxDone then []
                      else [DSend (lr_peer request)
                              (DeviceLaunchRequestFrame (lr_id request) command cwd label)]);
              (result, effects, r2) = Launch_wait (lr_id request) (lr_ptr request) w r1
          in (result, sent @ effects, r2))"

definition ResolveLaunchIfOwner ::
    "string \<Rightarrow> devPeer \<Rightarrow> string \<Rightarrow> string \<Rightarrow> string \<Rightarrow> string \<Rightarrow> devRegistry
      \<Rightarrow> (LaunchCompletion option \<times> bool) \<times> devRegistry" where
  "ResolveLaunchIfOwner deviceID owner requestID status reason workspaceSession r =
     (case gm_get (dg_requests r) requestID of
        None \<Rightarrow> ((None, False), r)
      | Some request \<Rightarrow>
          if lr_deviceID request \<noteq> deviceID \<or> lr_peer request \<noteq> owner then ((None, False), r)
          else if status = LaunchStatusAccepted then
            let request1 = markAccepted workspaceSession r request;
                r1 = r\<lparr>dg_requests := gm_put requestID request1 (dg_requests r)\<rparr>;
                sessionID = registeredSessionID request1 r1
            in if sessionID = [] then ((None, True), r1)
               else let ((completion, _), r2) = completeReadyLaunchLocked requestID request1 sessionID r1
                    in ((Some completion, True), r2)
          else if status = LaunchStatusFailed then
            let failureReason = (if TrimSpace reason = [] then ''unknown_reason'' else TrimSpace reason)
            in ((None, True), completeRequestLocked requestID (launchFailed requestID failureReason) r)
          else ((None, False), r))"

definition CompleteLaunchIfOwner ::
    "string \<Rightarrow> DeviceOwner \<Rightarrow> string \<Rightarrow> devRegistry \<Rightarrow> (TerminateTarget option \<times> bool) \<times> devRegistry" where
  "CompleteLaunchIfOwner requestID owner sessionID0 r =
     (let sessionID = TrimSpace sessionID0;
          fallback = (case gm_get (dg_completedLaunches r) requestID of
             None \<Rightarrow> ((None, False), r)
           | Some completed \<Rightarrow>
               if cl_owner completed \<noteq> owner then ((None, False), r)
               else ((Some (cl_target completed), True), r))
      in case gm_get (dg_requests r) requestID of
           None \<Rightarrow> fallback
         | Some request \<Rightarrow>
             if lr_owner request \<noteq> owner \<or> sessionID = [] then fallback
             else
               let request1 = markSessionReady sessionID r request;
                   r1 = r\<lparr>dg_requests := gm_put requestID request1 (dg_requests r)\<rparr>
               in if \<not> isAccepted request1 r1 then ((None, False), r1)
                  else let ((completion, _), r2) = completeReadyLaunchLocked requestID request1 sessionID r1
                       in ((Some (lm_Target completion), True), r2))"

section \<open>Terminate\<close>

definition terminateFailed :: "string \<Rightarrow> string \<Rightarrow> TerminateResult" where
  "terminateFailed requestID reason =
     \<lparr>rt_RequestID = requestID, rt_Status = TerminateStatusFailed, rt_Reason = reason\<rparr>"

definition Terminate_begin ::
    "clock \<Rightarrow> int \<Rightarrow> TerminateTarget \<Rightarrow> devRegistry \<Rightarrow> (TerminateResult + terminateRequest) \<times> devRegistry" where
  "Terminate_begin clk userID target r =
     (let requestID = tt_DeviceID target @ ''-terminate-'' @ formatClock (clk 0)
      in if TrimSpace (tt_WorkspaceSession target) = []
         then (Inl (terminateFailed requestID ''session_not_found''), r)
         else case gm_get (dg_devices r) (tt_DeviceID target) of
             None \<Rightarrow> (Inl (terminateFailed requestID ''device_offline''), r)
           | Some live \<Rightarrow>
               if ow_UserID (lv_owner live) \<noteq> userID \<or> lv_peer live = None
               then (Inl (terminateFailed requestID ''device_offline''), r)
               else
                 let request = \<lparr>tq_ptr = dg_nextPtr r, tq_id = requestID, tq_deviceID = tt_DeviceID target,
                       tq_owner = lv_owner live, tq_peer = lv_peer live, tq_target = target\<rparr>
                 in (Inr request,
                     r\<lparr>dg_terminateRequests := gm_put requestID request (dg_terminateRequests r),
                       dg_nextPtr := Suc (dg_nextPtr r)\<rparr>))"

text \<open>
  On a done context \<open>Terminate\<close> completes its request object first and clears the map entry in a second
  section; the result is read last.
\<close>

definition Terminate_wait ::
    "terminateRequest \<Rightarrow> devRegistry waiting \<Rightarrow> devRegistry \<Rightarrow> TerminateResult option \<times> devRegistry" where
  "Terminate_wait request w r =
     (let requestID = tq_id request
      in case w of
           CtxDone \<Rightarrow> (Some (terminateFailed requestID ''terminate_timeout''), clearTerminateRequest requestID r)
         | SendFails \<Rightarrow> (Some (terminateFailed requestID ''device_offline''), clearTerminateRequest requestID r)
         | WakeDone r' \<Rightarrow> (gm_get (dg_terminated r') (tq_ptr request), r')
         | WakeCtx r' \<Rightarrow>
             let r2 = completeTerminateRequest (Some request)
                        (terminateFailed requestID ''terminate_timeout'') r';
                 r3 = clearTerminateRequest requestID r2
             in (gm_get (dg_terminated r3) (tq_ptr request), r3))"

definition Terminate ::
    "clock \<Rightarrow> (devRegistry \<Rightarrow> devRegistry waiting) \<Rightarrow> int \<Rightarrow> string \<Rightarrow> TerminateTarget \<Rightarrow> devRegistry
      \<Rightarrow> TerminateResult option \<times> deffect list \<times> devRegistry" where
  "Terminate clk others userID sessionID target r =
     (case Terminate_begin clk userID target r of
        (Inl result, r1) \<Rightarrow> (Some result, [], r1)
      | (Inr request, r1) \<Rightarrow>
          let w = others r1;
              sent = (if w = CtxDone then []
                      else [DSend (tq_peer request) (DeviceTerminateRequestFrame (tq_id request) sessionID
                              (TrimSpace (tt_WorkspaceSession target)))]);
              (result, r2) = Terminate_wait request w r1
          in (result, sent, r2))"

definition ResolveTerminateIfOwner ::
    "string \<Rightarrow> devPeer \<Rightarrow> string \<Rightarrow> string \<Rightarrow> string \<Rightarrow> devRegistry \<Rightarrow> bool \<times> devRegistry" where
  "ResolveTerminateIfOwner deviceID owner requestID status reason r =
     (case gm_get (dg_terminateRequests r) requestID of
        None \<Rightarrow> (False, r)
      | Some request \<Rightarrow>
          if tq_deviceID request \<noteq> deviceID \<or> tq_peer request \<noteq> owner then (False, r)
          else if status = TerminateStatusTerminated then
            (True, completeTerminateRequestLocked requestID
               \<lparr>rt_RequestID = requestID, rt_Status = TerminateStatusTerminated, rt_Reason = []\<rparr>
               (deleteCompletedLaunchTargetLocked (tq_target request) r))
          else if status = TerminateStatusFailed then
            let failureReason = (if TrimSpace reason = [] then ''unknown_reason'' else TrimSpace reason)
            in (True, completeTerminateRequestLocked requestID (terminateFailed requestID failureReason) r)
          else (False, r))"

end
