(* ===== verification/Device_Inv.thy ===== *)
theory Device_Inv
  imports Device_Ops
begin

text \<open>
  The invariant of the device registry: at most one launch in flight per device, the \<open>inFlight\<close> flag tells
  whether there is one, and a launch in the map has not got its result. Every section preserves it.
\<close>

section \<open>Request ids\<close>

lemma padLeft_length: "length s \<le> n \<Longrightarrow> length (padLeft n s) = n"
  by (simp add: padLeft_def)

lemma itoa_length:
  assumes "0 \<le> x" "x < 10 ^ Suc k"
  shows "length (itoa x) \<le> Suc k"
proof -
  have "nat x < 10 ^ Suc k" using assms by (simp add: nat_less_iff)
  then show ?thesis using itoa_nat_length [of "nat x" k] assms(1) by (simp add: itoa_def)
qed

lemma itoa_two: "0 \<le> x \<Longrightarrow> x < 100 \<Longrightarrow> length (itoa x) \<le> 2"
  using itoa_length [of x 1] by (simp add: numeral_2_eq_2)

lemma itoa_nine: "0 \<le> x \<Longrightarrow> x < 1000000000 \<Longrightarrow> length (itoa x) \<le> 9"
  using itoa_length [of x 8] by simp

lemma formatClock_length: "length (formatClock t) = 16"
proof -
  define s where "s = t div second mod 86400"
  have "0 \<le> s" "s < 86400" by (simp_all add: s_def)
  then have "length (itoa (s div 3600)) \<le> 2" "length (itoa (s div 60 mod 60)) \<le> 2" "length (itoa (s mod 60)) \<le> 2"
    by (auto intro!: itoa_two simp: pos_imp_zdiv_nonneg_iff)
  moreover have "length (itoa (t mod second)) \<le> 9"
    by (rule itoa_nine) (simp_all add: second_def)
  ultimately show ?thesis unfolding formatClock_def Let_def s_def [symmetric] by (simp add: padLeft_length)
qed

lemma request_key_inj:
  assumes "d @ ''-'' @ s = d' @ ''-'' @ s'" "length s = 16" "length s' = 16"
  shows "d = d'"
proof -
  have "length d = length d'" using arg_cong [OF assms(1), of length] assms(2,3) by simp
  then show ?thesis using assms(1) by simp
qed

section \<open>The invariant\<close>

definition launchRow :: "devRegistry \<Rightarrow> string \<Rightarrow> launchRequest \<Rightarrow> bool" where
  "launchRow r k q \<longleftrightarrow> lr_id q = k \<and> (\<exists>s. length s = 16 \<and> k = lr_deviceID q @ ''-'' @ s) \<and>
     lr_ptr q < dg_nextPtr r \<and> gm_get (dg_results r) (lr_ptr q) = None"

definition dev_inv :: "devRegistry \<Rightarrow> bool" where
  "dev_inv r \<longleftrightarrow>
     gm_wf (dg_devices r) \<and> gm_wf (dg_requests r) \<and> gm_wf (dg_results r) \<and> gm_wf (dg_pending r) \<and>
     gm_wf (dg_completedLaunches r) \<and> gm_wf (dg_terminateRequests r) \<and> gm_wf (dg_terminated r) \<and>
     gm_all (launchRow r) (dg_requests r) \<and>
     distinct (map (lr_ptr \<circ> snd) (dg_requests r)) \<and> distinct (map (lr_deviceID \<circ> snd) (dg_requests r)) \<and>
     gm_all (\<lambda>d live. lv_inFlight live \<longleftrightarrow> hasPendingRequestLocked d r) (dg_devices r) \<and>
     gm_all (\<lambda>p _. p < dg_nextPtr r) (dg_results r)"

lemma dev_invD:
  assumes "dev_inv r"
  shows "gm_wf (dg_devices r)" "gm_wf (dg_requests r)" "gm_wf (dg_results r)" "gm_wf (dg_pending r)"
    "gm_wf (dg_completedLaunches r)" "gm_wf (dg_terminateRequests r)" "gm_wf (dg_terminated r)"
    "gm_all (launchRow r) (dg_requests r)" "distinct (map (lr_ptr \<circ> snd) (dg_requests r))"
    "distinct (map (lr_deviceID \<circ> snd) (dg_requests r))"
    "gm_all (\<lambda>d live. lv_inFlight live \<longleftrightarrow> hasPendingRequestLocked d r) (dg_devices r)"
    "gm_all (\<lambda>p _. p < dg_nextPtr r) (dg_results r)"
  using assms by (auto simp: dev_inv_def)

lemma dev_inv_New: "dev_inv NewRegistry_dev"
  by (simp add: dev_inv_def NewRegistry_dev_def)

lemma pending_iff: "hasPendingRequestLocked d r \<longleftrightarrow> d \<in> set (map (lr_deviceID \<circ> snd) (dg_requests r))"
  by (force simp: hasPendingRequestLocked_def list_ex_iff)

lemma otherPending_iff:
  "hasOtherPendingRequestLocked d k r \<longleftrightarrow> d \<in> set (map (lr_deviceID \<circ> snd) (gm_del k (dg_requests r)))"
  by (force simp: hasOtherPendingRequestLocked_def list_ex_iff gm_del_def)

lemma pending_get:
  "gm_wf (dg_requests r) \<Longrightarrow>
   hasPendingRequestLocked d r \<longleftrightarrow> (\<exists>k q. gm_get (dg_requests r) k = Some q \<and> lr_deviceID q = d)"
proof -
  assume "gm_wf (dg_requests r)"
  then have "(k, q) \<in> set (dg_requests r) \<longleftrightarrow> gm_get (dg_requests r) k = Some q" for k q
    by (metis gm_in_get gm_get_in)
  then show ?thesis by (force simp: hasPendingRequestLocked_def list_ex_iff)
qed

text \<open>Two entries with the same value under an injective reading are the same entry.\<close>

lemma distinct_entry:
  assumes "distinct (map (f \<circ> snd) m)" "gm_get m k = Some v" "gm_get m k' = Some v'" "f v = f v'"
  shows "k = k'"
proof -
  have "inj_on (f \<circ> snd) (set m)" using assms(1) by (simp add: distinct_map)
  then show ?thesis
    using gm_get_in [OF assms(2)] gm_get_in [OF assms(3)] assms(4)
    by (auto dest!: inj_onD [where x = "(k, v)" and y = "(k', v')"])
qed

lemma map_gm_put_same:
  assumes "gm_get m k = Some v" "f v' = f v"
  shows "map (f \<circ> snd) (gm_put k v' m) = map (f \<circ> snd) m"
  using assms by (induction m) (auto simp: gm_get_def gm_put_def split: if_splits)

lemma map_gm_put_new:
  assumes "gm_get m k = None"
  shows "gm_put k v m = m @ [(k, v)]"
  using assms by (induction m) (auto simp: gm_get_def gm_put_def split: if_splits)

lemma distinct_map_del: "distinct (map f m) \<Longrightarrow> distinct (map f (gm_del k m))"
  by (simp add: gm_del_def distinct_map_filter)

section \<open>Clearing and completing requests\<close>

lemma setInFlight_fields [simp]:
  "dg_requests (setInFlight d b r) = dg_requests r" "dg_results (setInFlight d b r) = dg_results r"
  "dg_pending (setInFlight d b r) = dg_pending r" "dg_nextPtr (setInFlight d b r) = dg_nextPtr r"
  "dg_completedLaunches (setInFlight d b r) = dg_completedLaunches r"
  "dg_terminateRequests (setInFlight d b r) = dg_terminateRequests r"
  "dg_terminated (setInFlight d b r) = dg_terminated r"
  by (simp_all add: setInFlight_def split: option.split)

lemma clear_fields [simp]:
  "dg_requests (snd (clearRequestLocked k r)) = gm_del k (dg_requests r)"
  "dg_results (snd (clearRequestLocked k r)) = dg_results r"
  "dg_pending (snd (clearRequestLocked k r)) = dg_pending r"
  "dg_nextPtr (snd (clearRequestLocked k r)) = dg_nextPtr r"
  "dg_completedLaunches (snd (clearRequestLocked k r)) = dg_completedLaunches r"
  "dg_terminateRequests (snd (clearRequestLocked k r)) = dg_terminateRequests r"
  "dg_terminated (snd (clearRequestLocked k r)) = dg_terminated r"
proof -
  have "gm_get m k = None \<Longrightarrow> gm_del k m = m" for m :: "(string, launchRequest) gomap"
    by (force simp: gm_del_def gm_get_def map_of_eq_None_iff intro!: filter_True)
  then show "dg_requests (snd (clearRequestLocked k r)) = gm_del k (dg_requests r)"
    by (simp add: clearRequestLocked_def Let_def split: option.split)
qed (simp_all add: clearRequestLocked_def Let_def split: option.split)

lemma clear_fst: "fst (clearRequestLocked k r) = gm_get (dg_requests r) k"
  by (simp add: clearRequestLocked_def Let_def split: option.split)

text \<open>The devices differ in the flag of one device only.\<close>

definition withFlag :: "string \<Rightarrow> bool \<Rightarrow> (string, liveDevice) gomap \<Rightarrow> (string, liveDevice) gomap" where
  "withFlag d b m = (case gm_get m d of None \<Rightarrow> m | Some live \<Rightarrow> gm_put d (live\<lparr>lv_inFlight := b\<rparr>) m)"

lemma setInFlight_devices: "dg_devices (setInFlight d b r) = withFlag d b (dg_devices r)"
  by (simp add: setInFlight_def withFlag_def split: option.split)

lemma withFlag_wf [simp]: "gm_wf m \<Longrightarrow> gm_wf (withFlag d b m)"
  by (simp add: withFlag_def split: option.split)

lemma withFlag_get: "gm_get (withFlag d b m) d' =
    (if d' = d then map_option (\<lambda>live. live\<lparr>lv_inFlight := b\<rparr>) (gm_get m d) else gm_get m d')"
  by (simp add: withFlag_def split: option.split)

lemma withFlag_all:
  assumes "gm_wf m" "gm_all (\<lambda>d' live. d' \<noteq> d \<longrightarrow> P d' live) m"
    "\<And>live. gm_get m d = Some live \<Longrightarrow> P d (live\<lparr>lv_inFlight := b\<rparr>)"
  shows "gm_all P (withFlag d b m)"
  using assms by (auto simp: gm_all_get withFlag_get)

lemma clear_devices:
  "dg_devices (snd (clearRequestLocked k r)) =
     (case gm_get (dg_requests r) k of
        None \<Rightarrow> dg_devices r
      | Some q \<Rightarrow> withFlag (lr_deviceID q) (hasOtherPendingRequestLocked (lr_deviceID q) k r) (dg_devices r))"
  by (simp add: clearRequestLocked_def Let_def setInFlight_devices split: option.split)

lemma inv_clear:
  assumes "dev_inv r"
  shows "dev_inv (snd (clearRequestLocked k r))"
proof (cases "gm_get (dg_requests r) k")
  case None
  then show ?thesis using assms by (simp add: clearRequestLocked_def)
next
  case (Some q)
  note inv = dev_invD [OF assms]
  let ?r = "snd (clearRequestLocked k r)"
  have pend: "hasPendingRequestLocked d ?r \<longleftrightarrow> d \<in> set (map (lr_deviceID \<circ> snd) (gm_del k (dg_requests r)))" for d
    by (simp add: pending_iff)
  have other: "d \<noteq> lr_deviceID q \<Longrightarrow> hasPendingRequestLocked d ?r \<longleftrightarrow> hasPendingRequestLocked d r" for d
    using Some inv(2) by (auto simp: pending_get) (metis option.inject)
  have "gm_all (\<lambda>d live. lv_inFlight live \<longleftrightarrow> hasPendingRequestLocked d ?r) (dg_devices ?r)"
    unfolding clear_devices Some option.case
    by (rule withFlag_all [OF inv(1)])
      (use inv(11) other in \<open>auto simp: gm_all_iff otherPending_iff pend\<close>)
  then show ?thesis
    using inv Some unfolding dev_inv_def
    by (auto simp: clear_devices distinct_map_del launchRow_def intro!: gm_all_del gm_all_mono [OF inv(8)])
qed

lemma complete_Some [simp]:
  "\<not> launchCompleted q r \<Longrightarrow>
   completeLaunchRequest (Some q) res r = r\<lparr>dg_results := gm_put (lr_ptr q) res (dg_results r)\<rparr>"
  "launchCompleted q r \<Longrightarrow> completeLaunchRequest (Some q) res r = r"
  "completeLaunchRequest None res r = r"
  by (simp_all add: completeLaunchRequest_def)

lemma pending_not_completed:
  "dev_inv r \<Longrightarrow> gm_get (dg_requests r) k = Some q \<Longrightarrow> \<not> launchCompleted q r"
  using gm_allD [OF dev_invD(8)] by (fastforce simp: launchRow_def launchCompleted_def)

lemma pending_id: "dev_inv r \<Longrightarrow> gm_get (dg_requests r) k = Some q \<Longrightarrow> lr_id q = k"
  using gm_allD [OF dev_invD(8)] by (fastforce simp: launchRow_def)

text \<open>Completing a request that is in the map and clearing it.\<close>

definition finishLaunch :: "string \<Rightarrow> launchRequest \<Rightarrow> LaunchResult \<Rightarrow> devRegistry \<Rightarrow> devRegistry" where
  "finishLaunch k q res r = completeLaunchRequest (Some q) res (snd (clearRequestLocked k r))"

lemma finish_fields [simp]:
  assumes "\<not> launchCompleted q r"
  shows "dg_requests (finishLaunch k q res r) = gm_del k (dg_requests r)"
    "dg_results (finishLaunch k q res r) = gm_put (lr_ptr q) res (dg_results r)"
    "dg_pending (finishLaunch k q res r) = dg_pending r" "dg_nextPtr (finishLaunch k q res r) = dg_nextPtr r"
    "dg_completedLaunches (finishLaunch k q res r) = dg_completedLaunches r"
    "dg_terminateRequests (finishLaunch k q res r) = dg_terminateRequests r"
    "dg_terminated (finishLaunch k q res r) = dg_terminated r"
    "dg_devices (finishLaunch k q res r) = dg_devices (snd (clearRequestLocked k r))"
  using assms by (simp_all add: finishLaunch_def launchCompleted_def)

lemma inv_finish:
  assumes "dev_inv r" "gm_get (dg_requests r) k = Some q"
  shows "dev_inv (finishLaunch k q res r)"
proof -
  let ?c = "snd (clearRequestLocked k r)"
  have nc: "\<not> launchCompleted q r" using assms by (rule pending_not_completed)
  note inv = dev_invD [OF assms(1)] and cinv = dev_invD [OF inv_clear [OF assms(1), of k]]
  have row: "launchRow r k q" using gm_allD [OF inv(8) assms(2)] .
  have "lr_ptr q' \<noteq> lr_ptr q" if "gm_get (gm_del k (dg_requests r)) k' = Some q'" for k' q'
    using that distinct_entry [OF inv(9) assms(2), of k' q'] by (auto split: if_splits)
  moreover have "gm_wf (gm_del k (dg_requests r))" using inv(2) by blast
  ultimately have "gm_all (launchRow (finishLaunch k q res r)) (gm_del k (dg_requests r))"
    using cinv(8) nc by (auto simp: gm_all_get launchRow_def)
  moreover have "hasPendingRequestLocked d (finishLaunch k q res r) \<longleftrightarrow> hasPendingRequestLocked d ?c" for d
    using nc by (simp add: hasPendingRequestLocked_def)
  ultimately show ?thesis
    using inv cinv nc row unfolding dev_inv_def by (auto simp: launchRow_def intro!: gm_all_put)
qed

lemma completeRequest_finish:
  assumes "gm_get (dg_requests r) k = Some q"
  shows "completeRequestLocked k res r = finishLaunch k q res r"
  using assms clear_fst [of k r] by (cases "clearRequestLocked k r") (simp add: completeRequestLocked_def finishLaunch_def)

lemma inv_completeRequest: "dev_inv r \<Longrightarrow> dev_inv (completeRequestLocked k res r)"
proof (cases "gm_get (dg_requests r) k")
  case None
  then show "dev_inv r \<Longrightarrow> ?thesis" by (simp add: completeRequestLocked_def clearRequestLocked_def)
qed (simp add: completeRequest_finish inv_finish)

section \<open>Devices that go offline\<close>

lemma fold_filter: "fold (\<lambda>e. if P e then f e else id) es = fold f (filter P es)"
  by (induction es) auto

lemma distinct_filter_one:
  "distinct (map g es) \<Longrightarrow> filter (\<lambda>e. g e = d) es = [] \<or> (\<exists>e \<in> set es. filter (\<lambda>e. g e = d) es = [e] \<and> g e = d)"
proof (induction es)
  case (Cons e es)
  then show ?case
  proof (cases "g e = d")
    case True
    then have "filter (\<lambda>e. g e = d) es = []" using Cons.prems by (auto simp: filter_empty_conv image_iff)
    then show ?thesis using True by simp
  qed auto
qed simp

text \<open>With at most one launch per device the loop handles that one.\<close>

lemma completeDevice_cases:
  assumes "dev_inv r"
  obtains (none) "completeDeviceRequestsLocked d res r = r" "\<not> hasPendingRequestLocked d r"
  | (kept) k q where "gm_get (dg_requests r) k = Some q" "lr_deviceID q = d" "lr_accepted q"
      "completeDeviceRequestsLocked d res r = setInFlight d True r"
  | (failed) k q where "gm_get (dg_requests r) k = Some q" "lr_deviceID q = d" "\<not> lr_accepted q"
      "completeDeviceRequestsLocked d res r = finishLaunch k q (res\<lparr>rs_RequestID := k\<rparr>) r"
proof -
  note inv = dev_invD [OF assms]
  let ?f = "\<lambda>(requestID, request) r. if isAccepted request r then setInFlight d True r
     else completeLaunchRequest (Some request) (res\<lparr>rs_RequestID := lr_id request\<rparr>)
            (snd (clearRequestLocked requestID r))"
  have loop: "completeDeviceRequestsLocked d res r = fold ?f (filter (\<lambda>e. (lr_deviceID \<circ> snd) e = d) (dg_requests r)) r"
    unfolding completeDeviceRequestsLocked_def fold_filter [symmetric]
    by (rule fold_cong) (auto simp: fun_eq_iff)
  from distinct_filter_one [OF inv(10), of d] show ?thesis
  proof
    assume "filter (\<lambda>e. (lr_deviceID \<circ> snd) e = d) (dg_requests r) = []"
    then show ?thesis using none loop by (auto simp: pending_iff filter_empty_conv)
  next
    assume "\<exists>e \<in> set (dg_requests r). filter (\<lambda>e. (lr_deviceID \<circ> snd) e = d) (dg_requests r) = [e] \<and> (lr_deviceID \<circ> snd) e = d"
    then obtain k q where e: "(k, q) \<in> set (dg_requests r)" "lr_deviceID q = d"
      "filter (\<lambda>e. (lr_deviceID \<circ> snd) e = d) (dg_requests r) = [(k, q)]" by auto
    then have g: "gm_get (dg_requests r) k = Some q" using gm_in_get inv(2) by fast
    note nc = pending_not_completed [OF assms g] and id = pending_id [OF assms g]
    show ?thesis
      by (cases "lr_accepted q")
        (use kept [OF g e(2)] failed [OF g e(2)] loop e(3) nc id in \<open>simp_all add: isAccepted_def finishLaunch_def\<close>)
  qed
qed

end
