(* ===== verification/Device_System.thy ===== *)
theory Device_System
  imports Device_Inv
begin

text \<open>
  The device registry as a transition system: one step per section that holds its mutex (and one for the
  \<open>complete\<close> call of a terminate request, which holds the request's own). Every step keeps the invariant
  and every result that was given.
\<close>

section \<open>Evolution\<close>

definition evolves :: "devRegistry \<Rightarrow> devRegistry \<Rightarrow> bool" where
  "evolves r r' \<longleftrightarrow> dev_inv r' \<and> dg_nextPtr r \<le> dg_nextPtr r' \<and>
     (\<forall>p res. gm_get (dg_results r) p = Some res \<longrightarrow> gm_get (dg_results r') p = Some res) \<and>
     (\<forall>p res. gm_get (dg_terminated r) p = Some res \<longrightarrow> gm_get (dg_terminated r') p = Some res)"

lemma evolves_refl: "dev_inv r \<Longrightarrow> evolves r r"
  by (simp add: evolves_def)

lemma evolves_trans: "evolves r r1 \<Longrightarrow> evolves r1 r2 \<Longrightarrow> evolves r r2"
  by (auto simp: evolves_def)

lemma evolves_inv: "evolves r r' \<Longrightarrow> dev_inv r'"
  by (simp add: evolves_def)

lemma evolves_same:
  assumes "dev_inv r'" "dg_results r' = dg_results r" "dg_terminated r' = dg_terminated r"
    "dg_nextPtr r' = dg_nextPtr r"
  shows "evolves r r'"
  using assms by (simp add: evolves_def)

section \<open>Sections\<close>

lemma hasPending_requests:
  "dg_requests r' = dg_requests r \<Longrightarrow> hasPendingRequestLocked d r' = hasPendingRequestLocked d r"
  by (simp add: hasPendingRequestLocked_def)

text \<open>A step that leaves the requests and their results alone.\<close>

lemma evolves_frame:
  assumes "dev_inv r" "dg_requests r' = dg_requests r" "dg_results r' = dg_results r" "dg_nextPtr r' = dg_nextPtr r"
    "gm_wf (dg_devices r')" "gm_all (\<lambda>d live. lv_inFlight live \<longleftrightarrow> hasPendingRequestLocked d r) (dg_devices r')"
    "gm_wf (dg_pending r')" "gm_wf (dg_completedLaunches r')" "gm_wf (dg_terminateRequests r')"
    "gm_wf (dg_terminated r')"
    "\<forall>p res. gm_get (dg_terminated r) p = Some res \<longrightarrow> gm_get (dg_terminated r') p = Some res"
  shows "evolves r r'"
proof -
  have p: "hasPendingRequestLocked d r' = hasPendingRequestLocked d r" for d
    using assms(2) by (rule hasPending_requests)
  have l: "launchRow r' = launchRow r" using assms(3,4) by (simp add: launchRow_def fun_eq_iff)
  have "dev_inv r'"
    unfolding dev_inv_def p l assms(2-4) using dev_invD [OF assms(1)] assms(5-10) by (intro conjI)
  then show ?thesis using assms(3,4,11) by (simp add: evolves_def)
qed

lemma evolves_terminate:
  assumes "dev_inv r" "gm_wf m" "gm_wf m'"
    "\<forall>p res. gm_get (dg_terminated r) p = Some res \<longrightarrow> gm_get m' p = Some res"
  shows "evolves r (r\<lparr>dg_terminateRequests := m, dg_terminated := m'\<rparr>)"
  by (rule evolves_frame [OF assms(1)]) (use dev_invD [OF assms(1)] assms in simp_all)

lemma evolves_completeTerminate:
  assumes "dev_inv r"
  shows "evolves r (completeTerminateRequest q res r)"
proof -
  have "evolves r (r\<lparr>dg_terminateRequests := dg_terminateRequests r, dg_terminated := gm_put p res (dg_terminated r)\<rparr>)"
    if "gm_get (dg_terminated r) p = None" for p
    using assms dev_invD [OF assms] that by (intro evolves_terminate) auto
  then show ?thesis
    using evolves_refl [OF assms] by (auto simp: completeTerminateRequest_def split: option.splits)
qed

lemma evolves_clearTerminate:
  assumes "dev_inv r"
  shows "evolves r (snd (clearTerminateRequestLocked k r))"
proof -
  have "evolves r (r\<lparr>dg_terminateRequests := gm_del k (dg_terminateRequests r), dg_terminated := dg_terminated r\<rparr>)"
    using assms dev_invD [OF assms] by (intro evolves_terminate) auto
  then show ?thesis
    using evolves_refl [OF assms] by (auto simp: clearTerminateRequestLocked_def split: option.splits)
qed

lemma evolves_completeTerminateLocked:
  assumes "dev_inv r"
  shows "evolves r (completeTerminateRequestLocked k res r)"
proof -
  obtain q r1 where c: "clearTerminateRequestLocked k r = (q, r1)" by (cases "clearTerminateRequestLocked k r")
  then have "evolves r r1" using evolves_clearTerminate [OF assms, of k] by simp
  then show ?thesis
    using evolves_trans evolves_completeTerminate [OF evolves_inv] c
    by (simp add: completeTerminateRequestLocked_def)
qed

lemma evolves_fold:
  assumes "dev_inv r" "\<And>e r. dev_inv r \<Longrightarrow> evolves r (f e r)"
  shows "evolves r (fold f es r)"
  using assms(1)
proof (induction es arbitrary: r)
  case (Cons e es)
  then show ?case using evolves_trans assms(2) evolves_inv by (metis fold_simps(2))
qed (simp add: evolves_refl)

lemma evolves_deviceTerminate:
  "dev_inv r \<Longrightarrow> evolves r (completeDeviceTerminateRequestsLocked d res r)"
  unfolding completeDeviceTerminateRequestsLocked_def
  by (rule evolves_fold)
    (auto simp: evolves_refl intro: evolves_trans [OF evolves_clearTerminate]
      evolves_completeTerminate evolves_inv [OF evolves_clearTerminate] split: prod.split)

lemma evolves_finish:
  assumes "dev_inv r" "gm_get (dg_requests r) k = Some q"
  shows "evolves r (finishLaunch k q res r)"
  using inv_finish [OF assms] pending_not_completed [OF assms]
  by (auto simp: evolves_def launchCompleted_def)

lemma evolves_clear: "dev_inv r \<Longrightarrow> evolves r (snd (clearRequestLocked k r))"
  by (simp add: evolves_same inv_clear)

lemma evolves_flag:
  assumes "dev_inv r" "hasPendingRequestLocked d r"
  shows "evolves r (setInFlight d True r)"
proof -
  note inv = dev_invD [OF assms(1)]
  have "gm_all (\<lambda>d' live. lv_inFlight live \<longleftrightarrow> hasPendingRequestLocked d' r) (withFlag d True (dg_devices r))"
    by (rule withFlag_all [OF inv(1)]) (use inv(11) assms(2) in \<open>auto simp: gm_all_iff\<close>)
  then show ?thesis
    by (intro evolves_frame [OF assms(1)]) (simp_all add: inv(1-7) setInFlight_devices)
qed

lemma evolves_completeDevice:
  assumes "dev_inv r"
  shows "evolves r (completeDeviceRequestsLocked d res r)"
  using assms
proof (cases rule: completeDevice_cases [of r d res])
  case (kept k q)
  then have "hasPendingRequestLocked d r" using pending_get dev_invD(2) [OF assms] by blast
  then show ?thesis using kept evolves_flag [OF assms] by simp
next
  case (failed k q)
  then show ?thesis using evolves_finish [OF assms] by simp
qed (simp_all add: evolves_refl assms)

lemma evolves_offline:
  "dev_inv r \<Longrightarrow> evolves r (completeDeviceTerminateRequestsLocked d rt (completeDeviceRequestsLocked d rs r))"
  using evolves_trans evolves_completeDevice evolves_deviceTerminate evolves_inv by blast

lemma evolves_putDevice:
  assumes "dev_inv r" "lv_inFlight live \<longleftrightarrow> hasPendingRequestLocked d r"
  shows "evolves r (r\<lparr>dg_devices := gm_put d live (dg_devices r)\<rparr>)"
  using dev_invD [OF assms(1)] assms(2)
  by (intro evolves_frame [OF assms(1)]) (simp_all add: gm_all_put)

lemma evolves_delDevice:
  assumes "dev_inv r"
  shows "evolves r (r\<lparr>dg_devices := gm_del d (dg_devices r)\<rparr>)"
  using dev_invD [OF assms] by (intro evolves_frame [OF assms]) (simp_all add: gm_all_del)

lemma evolves_pending:
  assumes "dev_inv r" "gm_wf m"
  shows "evolves r (r\<lparr>dg_pending := m\<rparr>)"
  using dev_invD [OF assms(1)] assms(2) by (intro evolves_frame [OF assms(1)]) simp_all

lemma evolves_completed:
  assumes "dev_inv r" "gm_wf m"
  shows "evolves r (r\<lparr>dg_completedLaunches := m\<rparr>)"
  using dev_invD [OF assms(1)] assms(2) by (intro evolves_frame [OF assms(1)]) simp_all

lemma evolves_install:
  assumes "dev_inv r"
  shows "evolves r (snd (installDevice clk info owner peer r))"
proof -
  define r1 where "r1 = (case gm_get (dg_devices r) (dv_DeviceID info) of None \<Rightarrow> r
     | Some old \<Rightarrow> if lv_peer old = peer then r
         else completeDeviceTerminateRequestsLocked (dv_DeviceID info) offlineTerminate
                (completeDeviceRequestsLocked (dv_DeviceID info) offlineLaunch r))"
  have "evolves r r1"
    unfolding r1_def using evolves_offline [OF assms] evolves_refl [OF assms] by (auto split: option.split)
  moreover have "snd (installDevice clk info owner peer r) =
      r1\<lparr>dg_devices := gm_put (dv_DeviceID info) \<lparr>lv_info = info, lv_owner = owner, lv_peer = peer,
        lv_connectedAt = clk 0, lv_inFlight = hasPendingRequestLocked (dv_DeviceID info) r1\<rparr> (dg_devices r1)\<rparr>"
    by (simp add: installDevice_def r1_def Let_def split: option.split)
  ultimately show ?thesis
    using evolves_trans evolves_putDevice [OF evolves_inv] by fastforce
qed

lemma evolves_drop: "dev_inv r \<Longrightarrow> evolves r (dropDevice d r)"
  unfolding dropDevice_def using evolves_trans evolves_delDevice evolves_offline evolves_inv by blast

lemma evolves_request:
  assumes "dev_inv r" "gm_get (dg_requests r) k = Some q"
    "lr_ptr q' = lr_ptr q" "lr_deviceID q' = lr_deviceID q" "lr_id q' = lr_id q"
  shows "evolves r (r\<lparr>dg_requests := gm_put k q' (dg_requests r)\<rparr>)"
proof (rule evolves_same)
  note inv = dev_invD [OF assms(1)]
  have m: "map (lr_ptr \<circ> snd) (gm_put k q' (dg_requests r)) = map (lr_ptr \<circ> snd) (dg_requests r)"
    "map (lr_deviceID \<circ> snd) (gm_put k q' (dg_requests r)) = map (lr_deviceID \<circ> snd) (dg_requests r)"
    using assms by (simp_all add: map_gm_put_same)
  have row: "launchRow r k q'" using gm_allD [OF inv(8) assms(2)] assms(3-5) by (simp add: launchRow_def)
  show "dev_inv (r\<lparr>dg_requests := gm_put k q' (dg_requests r)\<rparr>)"
    unfolding dev_inv_def using inv row m
    by (intro conjI) (simp_all add: pending_iff launchRow_def [abs_def] gm_all_put)
qed simp_all

lemma evolves_ready:
  assumes "dev_inv r" "gm_get (dg_requests r) k = Some q"
  shows "evolves r (snd (completeReadyLaunchLocked k q' sid r))"
  using evolves_trans [OF evolves_finish [OF assms] evolves_completed [OF inv_finish [OF assms]]]
    evolves_finish [OF assms] dev_invD(5) [OF inv_finish [OF assms]] assms(2)
  by (simp add: completeReadyLaunchLocked_def Let_def completeRequest_finish)

lemma inv_begin:
  assumes "dev_inv r" "gm_get (dg_devices r) d = Some live" "\<not> lv_inFlight live" "length s = 16"
    "k = d @ ''-'' @ s" "lr_id q = k" "lr_deviceID q = d" "lr_ptr q = dg_nextPtr r"
  shows "dev_inv (r\<lparr>dg_devices := gm_put d (live\<lparr>lv_inFlight := True\<rparr>) (dg_devices r),
     dg_requests := gm_put k q (dg_requests r), dg_nextPtr := Suc (dg_nextPtr r)\<rparr>)"
proof -
  note inv = dev_invD [OF assms(1)]
  have free: "\<not> hasPendingRequestLocked d r" using gm_allD [OF inv(11) assms(2)] assms(3) by simp
  have new: "gm_get (dg_requests r) k = None"
  proof (rule ccontr)
    assume "gm_get (dg_requests r) k \<noteq> None"
    then obtain q' where q': "gm_get (dg_requests r) k = Some q'" by auto
    then have "lr_deviceID q' = d"
      using gm_allD [OF inv(8) q'] request_key_inj assms(4,5) unfolding launchRow_def by metis
    then show False using free q' pending_get [OF inv(2)] by blast
  qed
  have ptr: "dg_nextPtr r \<notin> set (map (lr_ptr \<circ> snd) (dg_requests r))"
    using inv(8) by (auto simp: gm_all_iff launchRow_def)
  have res: "gm_get (dg_results r) (dg_nextPtr r) = None"
    using gm_allD [OF inv(12), of "dg_nextPtr r"] by fastforce
  have "gm_all (launchRow (r\<lparr>dg_nextPtr := Suc (dg_nextPtr r)\<rparr>)) (dg_requests r @ [(k, q)])"
    using inv(8) assms(4-) res by (auto simp: gm_all_iff launchRow_def)
  moreover have "gm_all (\<lambda>d' l. lv_inFlight l \<longleftrightarrow> d' \<in> set (map (lr_deviceID \<circ> snd) (dg_requests r @ [(k, q)])))
      (gm_put d (live\<lparr>lv_inFlight := True\<rparr>) (dg_devices r))"
    using inv(1,11) assms(7) by (auto simp: gm_all_get pending_iff)
  ultimately show ?thesis
    using inv free ptr new assms(7,8) unfolding dev_inv_def
    by (auto simp: map_gm_put_new pending_iff launchRow_def [abs_def] gm_wf_put [of "dg_requests r" k q, simplified map_gm_put_new [OF new]]
        elim: gm_all_mono)
qed

lemma evolves_Launch_begin:
  assumes "dev_inv r"
  shows "evolves r (snd (Launch_begin clk d u r))"
proof (cases "gm_get (dg_devices r) d")
  case None
  then show ?thesis using evolves_refl [OF assms] by (simp add: Launch_begin_def Let_def)
next
  case (Some live)
  let ?k = "d @ ''-'' @ formatClock (clk 0)"
  let ?q = "\<lparr>lr_ptr = dg_nextPtr r, lr_id = ?k, lr_deviceID = d, lr_owner = lv_owner live, lr_peer = lv_peer live,
    lr_accepted = False, lr_sessionID = [], lr_workspaceSession = []\<rparr>"
  show ?thesis
  proof (cases "ow_UserID (lv_owner live) \<noteq> u \<or> lv_peer live = None \<or> lv_inFlight live")
    case True
    then show ?thesis using evolves_refl [OF assms] Some by (auto simp: Launch_begin_def Let_def)
  next
    case False
    have "dev_inv (r\<lparr>dg_devices := gm_put d (live\<lparr>lv_inFlight := True\<rparr>) (dg_devices r),
        dg_requests := gm_put ?k ?q (dg_requests r), dg_nextPtr := Suc (dg_nextPtr r)\<rparr>)"
      by (rule inv_begin [OF assms Some _ formatClock_length]) (use False in simp_all)
    then show ?thesis using False Some by (auto simp: Launch_begin_def Let_def evolves_def)
  qed
qed

lemma evolves_timeout:
  assumes "dev_inv r"
  shows "evolves r (snd (timeoutLaunchRequest k r))"
proof (cases "gm_get (dg_requests r) k")
  case None
  then show ?thesis using evolves_refl [OF assms] by (simp add: timeoutLaunchRequest_def clearRequestLocked_def Let_def)
next
  case (Some q)
  have "snd (timeoutLaunchRequest k r) = finishLaunch k q (launchFailed k ''launch_timeout'') r"
    using clear_fst [of k r] Some
    by (cases "clearRequestLocked k r") (simp add: timeoutLaunchRequest_def Let_def finishLaunch_def)
  then show ?thesis using evolves_finish [OF assms Some] by simp
qed

lemma evolves_Resolve:
  assumes "dev_inv r"
  shows "evolves r (snd (ResolveLaunchIfOwner d p k status reason w r))"
proof (cases "gm_get (dg_requests r) k")
  case None
  then show ?thesis using evolves_refl [OF assms] by (simp add: ResolveLaunchIfOwner_def)
next
  case (Some q)
  let ?q = "markAccepted w r q"
  let ?r = "r\<lparr>dg_requests := gm_put k ?q (dg_requests r)\<rparr>"
  have r: "evolves r ?r" by (rule evolves_request [OF assms Some]) (simp_all add: markAccepted_def)
  have "evolves r (snd (completeReadyLaunchLocked k ?q sid ?r))" for sid
    by (rule evolves_trans [OF r evolves_ready [OF evolves_inv [OF r]]]) simp
  moreover have "evolves r (completeRequestLocked k res r)" for res
    using evolves_finish [OF assms Some] Some by (simp add: completeRequest_finish)
  ultimately show ?thesis
    using r evolves_refl [OF assms] Some by (simp add: ResolveLaunchIfOwner_def Let_def split_def)
qed

lemma evolves_CompleteLaunch:
  assumes "dev_inv r"
  shows "evolves r (snd (CompleteLaunchIfOwner k owner sid r))"
proof (cases "gm_get (dg_requests r) k")
  case None
  then show ?thesis using evolves_refl [OF assms] by (simp add: CompleteLaunchIfOwner_def Let_def split: option.split)
next
  case (Some q)
  let ?q = "markSessionReady (TrimSpace sid) r q"
  let ?r = "r\<lparr>dg_requests := gm_put k ?q (dg_requests r)\<rparr>"
  have r: "evolves r ?r" by (rule evolves_request [OF assms Some]) (simp_all add: markSessionReady_def)
  have "evolves r (snd (completeReadyLaunchLocked k ?q sid' ?r))" for sid'
    by (rule evolves_trans [OF r evolves_ready [OF evolves_inv [OF r]]]) simp
  then show ?thesis
    using r evolves_refl [OF assms] Some by (simp add: CompleteLaunchIfOwner_def Let_def split_def split: option.split)
qed

lemma evolves_Terminate_begin:
  assumes "dev_inv r"
  shows "evolves r (snd (Terminate_begin clk u target r))"
proof -
  note inv = dev_invD [OF assms]
  have "evolves r (r\<lparr>dg_terminateRequests := gm_put k q (dg_terminateRequests r), dg_nextPtr := Suc (dg_nextPtr r)\<rparr>)"
    for k q
  proof -
    have l: "gm_all (launchRow (r\<lparr>dg_nextPtr := Suc (dg_nextPtr r)\<rparr>)) (dg_requests r)"
      using inv(8) by (auto simp: gm_all_iff launchRow_def)
    have p: "gm_all (\<lambda>p _. p < Suc (dg_nextPtr r)) (dg_results r)"
      using inv(12) by (auto simp: gm_all_iff)
    have "dev_inv (r\<lparr>dg_terminateRequests := gm_put k q (dg_terminateRequests r), dg_nextPtr := Suc (dg_nextPtr r)\<rparr>)"
      unfolding dev_inv_def using inv l p
      by (intro conjI) (simp_all add: launchRow_def [abs_def] hasPendingRequestLocked_def)
    then show ?thesis by (simp add: evolves_def)
  qed
  then show ?thesis
    using evolves_refl [OF assms] by (simp add: Terminate_begin_def Let_def split: option.split)
qed

lemma evolves_ResolveTerminate:
  assumes "dev_inv r"
  shows "evolves r (snd (ResolveTerminateIfOwner d p k status reason r))"
proof -
  have "evolves r (deleteCompletedLaunchTargetLocked t r)" for t
    using evolves_refl [OF assms] evolves_completed [OF assms gm_wf_drop [OF dev_invD(5) [OF assms]]]
    by (simp add: deleteCompletedLaunchTargetLocked_def Let_def)
  then have "evolves r (completeTerminateRequestLocked k res (deleteCompletedLaunchTargetLocked t r))" for res t
    using evolves_trans evolves_completeTerminateLocked evolves_inv by blast
  then show ?thesis
    using evolves_refl [OF assms] evolves_completeTerminateLocked [OF assms]
    by (simp add: ResolveTerminateIfOwner_def Let_def split: option.split)
qed

lemma evolves_Activate:
  assumes "dev_inv r"
  shows "evolves r (snd (snd (ActivatePending clk info owner peer r)))"
proof -
  let ?r = "r\<lparr>dg_pending := gm_del peer (dg_pending r)\<rparr>"
  have r: "evolves r ?r" using assms dev_invD(4) [OF assms] by (intro evolves_pending) auto
  have "evolves r (snd (installDevice clk info owner peer ?r))"
    using evolves_trans [OF r] evolves_install [OF evolves_inv [OF r]] by blast
  then show ?thesis
    using r evolves_refl [OF assms] by (simp add: ActivatePending_def Let_def split: option.split)
qed

lemma evolves_Update:
  assumes "dev_inv r"
  shows "evolves r (snd (UpdateIfOwner d p info r))"
proof (cases "gm_get (dg_devices r) d")
  case (Some live)
  have "lv_inFlight live \<longleftrightarrow> hasPendingRequestLocked d r" using gm_allD [OF dev_invD(11) [OF assms] Some] .
  then show ?thesis
    using Some evolves_refl [OF assms] evolves_putDevice [OF assms, of "live\<lparr>lv_info := info\<rparr>" d]
    by (simp add: UpdateIfOwner_def)
qed (simp add: UpdateIfOwner_def evolves_refl assms)

lemma evolves_DisconnectToken:
  assumes "dev_inv r"
  shows "evolves r (snd (snd (DisconnectAgentTokenDevices t r)))"
proof -
  define r1 where "r1 = fold (\<lambda>(deviceID, _). dropDevice deviceID)
    (filter (\<lambda>(_, live). ow_AgentTokenID (lv_owner live) = t) (dg_devices r)) r"
  have r1: "evolves r r1"
    unfolding r1_def using assms by (rule evolves_fold) (auto intro: evolves_drop split: prod.split)
  have "evolves r1 (r1\<lparr>dg_pending := gm_drop (\<lambda>owner. ow_AgentTokenID owner = t) (dg_pending r1)\<rparr>)"
    using evolves_inv [OF r1] dev_invD(4) [OF evolves_inv [OF r1]] by (intro evolves_pending) auto
  then show ?thesis
    using evolves_trans [OF r1] by (simp add: DisconnectAgentTokenDevices_def Let_def r1_def)
qed

section \<open>The transition system\<close>

inductive dev_step :: "devRegistry \<Rightarrow> devRegistry \<Rightarrow> bool" where
  Register: "dev_step r (snd (RegisterOwned_dev clk info owner peer r))"
| Pending: "dev_step r (RegisterPending owner peer r)"
| DropPending: "dev_step r (snd (snd (DisconnectPending peer r)))"
| Activate: "dev_step r (snd (snd (ActivatePending clk info owner peer r)))"
| Update: "dev_step r (snd (UpdateIfOwner d p info r))"
| Disconnect: "dev_step r (snd (snd (DisconnectIfOwner_dev d p r)))"
| DisconnectToken: "dev_step r (snd (snd (DisconnectAgentTokenDevices t r)))"
| LaunchBegin: "dev_step r (snd (Launch_begin clk d u r))"
| LaunchClear: "dev_step r (clearRequest k r)"
| LaunchTimeout: "dev_step r (snd (timeoutLaunchRequest k r))"
| Resolve: "dev_step r (snd (ResolveLaunchIfOwner d p k status reason w r))"
| Ready: "dev_step r (snd (CompleteLaunchIfOwner k owner sid r))"
| TerminateBegin: "dev_step r (snd (Terminate_begin clk u target r))"
| TerminateComplete: "dev_step r (completeTerminateRequest (Some q) res r)"
| TerminateClear: "dev_step r (clearTerminateRequest k r)"
| ResolveTerminate: "dev_step r (snd (ResolveTerminateIfOwner d p k status reason r))"

definition dev_reachable :: "devRegistry \<Rightarrow> bool" where
  "dev_reachable r \<longleftrightarrow> dev_step\<^sup>*\<^sup>* NewRegistry_dev r"

lemma step_evolves:
  assumes "dev_step r r'" "dev_inv r"
  shows "evolves r r'"
  using assms
proof (induction rule: dev_step.induct)
  case (Pending r owner peer)
  then show ?case using dev_invD(4) by (auto simp: RegisterPending_def intro!: evolves_pending)
next
  case (DropPending r peer)
  then show ?case
    using dev_invD(4) evolves_refl
    by (auto simp: DisconnectPending_def intro!: evolves_pending split: option.split)
next
  case (Disconnect r d p)
  then show ?case
    using evolves_refl evolves_drop by (auto simp: DisconnectIfOwner_dev_def split: option.split)
qed (simp_all add: RegisterOwned_dev_def evolves_install evolves_Activate evolves_Update evolves_DisconnectToken
    evolves_Launch_begin clearRequest_def evolves_clear evolves_timeout evolves_Resolve evolves_CompleteLaunch
    evolves_Terminate_begin evolves_completeTerminate clearTerminateRequest_def evolves_clearTerminate
    evolves_ResolveTerminate)

lemma run_evolves: "dev_step\<^sup>*\<^sup>* r r' \<Longrightarrow> dev_inv r \<Longrightarrow> evolves r r'"
proof (induction rule: rtranclp_induct)
  case (step y z)
  then show ?case using step_evolves evolves_inv evolves_trans by blast
qed (rule evolves_refl)

lemma reachable_dev_inv: "dev_reachable r \<Longrightarrow> dev_inv r"
  using run_evolves dev_inv_New evolves_inv by (auto simp: dev_reachable_def)

end
