(* ===== verification/Revocation.thy ===== *)
theory Revocation
  imports Go_Prelude
begin

text \<open>
  The interface of a registry whose entries are held by someone and can be revoked by holder: what the
  session registry and the device registry promise their callers of \<open>DisconnectUserSessions\<close>,
  \<open>DisconnectAgentTokenSessions\<close> and \<open>DisconnectAgentTokenDevices\<close>.
\<close>

locale revocable =
  fixes inv :: "'s \<Rightarrow> bool" and entry :: "'s \<Rightarrow> 'k \<Rightarrow> 'v option" and holder :: "'v \<Rightarrow> 't"
    and revoke :: "'t \<Rightarrow> 's \<Rightarrow> 's"
  assumes inv_revoke: "inv s \<Longrightarrow> inv (revoke t s)"
    and entry_revoke: "inv s \<Longrightarrow> entry (revoke t s) k = Some v \<longleftrightarrow> entry s k = Some v \<and> holder v \<noteq> t"
begin

lemma revoke_gone: "inv s \<Longrightarrow> entry (revoke t s) k = Some v \<Longrightarrow> holder v \<noteq> t"
  by (simp add: entry_revoke)

lemma revoke_keeps: "inv s \<Longrightarrow> entry s k = Some v \<Longrightarrow> holder v \<noteq> t \<Longrightarrow> entry (revoke t s) k = Some v"
  by (simp add: entry_revoke)

lemma entry_eqI: "(\<And>v. entry s k = Some v \<longleftrightarrow> entry s' k = Some v) \<Longrightarrow> entry s k = entry s' k"
  by (metis option.exhaust)

lemma revoke_idem: "inv s \<Longrightarrow> entry (revoke t (revoke t s)) k = entry (revoke t s) k"
  by (rule entry_eqI) (auto simp: entry_revoke inv_revoke)

lemma revoke_commute: "inv s \<Longrightarrow> entry (revoke t (revoke t' s)) k = entry (revoke t' (revoke t s)) k"
  by (rule entry_eqI) (auto simp: entry_revoke inv_revoke)

text \<open>A sequence of revocations leaves what none of them names.\<close>

lemma revoke_all:
  "inv s \<Longrightarrow> entry (fold revoke ts s) k = Some v \<longleftrightarrow> entry s k = Some v \<and> holder v \<notin> set ts"
  by (induction ts arbitrary: s) (auto simp: entry_revoke inv_revoke)

end

end
