(* ===== verification/Device_Props.thy ===== *)
theory Device_Props
  imports Device_System Revocation
begin

text \<open>
  The properties of the device registry: one launch at a time per device, one result per request, the two
  messages that complete a launch in either order, what a lost device does to its requests, and who may
  replace or use a device.
\<close>

section \<open>Completing a launch\<close>

lemma gm_del_put: "gm_del k (gm_put k v m) = gm_del k m"
  by (induction m) (auto simp: gm_del_def gm_put_def)

lemma gm_put_put: "gm_put k v (gm_put k v' m) = gm_put k v m"
  by (induction m) (auto simp: gm_put_def)

lemma otherPending_put [simp]:
  "hasOtherPendingRequestLocked d k (r\<lparr>dg_requests := gm_put k q (dg_requests r)\<rparr>) =
     hasOtherPendingRequestLocked d k r"
  by (simp add: otherPending_iff gm_del_put)

text \<open>The registry after a launch got its session: the request is gone, its result and its target are kept.\<close>

definition readyRegistry :: "string \<Rightarrow> launchRequest \<Rightarrow> string \<Rightarrow> string \<Rightarrow> devRegistry \<Rightarrow> devRegistry" where
  "readyRegistry k q w sid r =
     (let r1 = finishLaunch k q \<lparr>rs_RequestID = k, rs_Status = LaunchStatusSessionReady,
                 rs_SessionID = sid, rs_Reason = []\<rparr> r;
          target = \<lparr>tt_DeviceID = lr_deviceID q, tt_WorkspaceSession = TrimSpace w\<rparr>
      in if hasTerminateTarget target
         then r1\<lparr>dg_completedLaunches := gm_put k \<lparr>cl_owner = lr_owner q, cl_target = target\<rparr>
                   (dg_completedLaunches r1)\<rparr>
         else r1)"

lemma finish_update:
  assumes "gm_get (dg_requests r) k = Some q" "lr_ptr q' = lr_ptr q" "lr_deviceID q' = lr_deviceID q"
    "\<not> launchCompleted q r"
  shows "finishLaunch k q' res (r\<lparr>dg_requests := gm_put k q' (dg_requests r)\<rparr>) = finishLaunch k q res r"
proof -
  have "\<not> launchCompleted q' (snd (clearRequestLocked k (r\<lparr>dg_requests := gm_put k q' (dg_requests r)\<rparr>)))"
    "\<not> launchCompleted q (snd (clearRequestLocked k r))"
    using assms by (simp_all add: launchCompleted_def)
  then show ?thesis
    using assms
    by (simp add: finishLaunch_def clearRequestLocked_def Let_def setInFlight_def gm_del_put split: option.split)
qed

lemma ready_update:
  assumes "gm_get (dg_requests r) k = Some q" "lr_ptr q' = lr_ptr q" "lr_deviceID q' = lr_deviceID q"
    "lr_owner q' = lr_owner q" "TrimSpace (lr_workspaceSession q') = TrimSpace w" "\<not> launchCompleted q r"
  shows "completeReadyLaunchLocked k q' sid (r\<lparr>dg_requests := gm_put k q' (dg_requests r)\<rparr>) =
    ((\<lparr>lm_SessionID = sid, lm_Target = \<lparr>tt_DeviceID = lr_deviceID q, tt_WorkspaceSession = TrimSpace w\<rparr>\<rparr>,
      hasTerminateTarget \<lparr>tt_DeviceID = lr_deviceID q, tt_WorkspaceSession = TrimSpace w\<rparr>),
     readyRegistry k q w sid r)"
proof -
  let ?r = "r\<lparr>dg_requests := gm_put k q' (dg_requests r)\<rparr>"
  have "completeRequestLocked k res ?r = finishLaunch k q res r" for res
    using completeRequest_finish [of ?r k q' res] finish_update [OF assms(1-3,6)] by simp
  then show ?thesis
    using assms by (simp add: completeReadyLaunchLocked_def readyRegistry_def Let_def acceptedWorkspaceSession_def
        launchCompleted_def)
qed

text \<open>The device's answer and the session's registration, each when it comes second.\<close>

lemma accept_second:
  assumes "dev_inv r" "gm_get (dg_requests r) k = Some q" "lr_deviceID q = d" "lr_peer q = p"
    "TrimSpace (lr_sessionID q) \<noteq> []"
  shows "snd (ResolveLaunchIfOwner d p k LaunchStatusAccepted reason w r) =
    readyRegistry k q w (TrimSpace (lr_sessionID q)) r"
proof -
  have nc: "\<not> launchCompleted q r" using assms(1,2) by (rule pending_not_completed)
  let ?q = "markAccepted w r q"
  have q: "lr_ptr ?q = lr_ptr q" "lr_deviceID ?q = lr_deviceID q" "lr_owner ?q = lr_owner q"
    "TrimSpace (lr_workspaceSession ?q) = TrimSpace w"
    "registeredSessionID ?q (r\<lparr>dg_requests := gm_put k ?q (dg_requests r)\<rparr>) = TrimSpace (lr_sessionID q)"
    using nc by (simp_all add: markAccepted_def registeredSessionID_def launchCompleted_def)
  show ?thesis
    using assms q(5) ready_update [OF assms(2) q(1-4) nc]
    by (simp add: ResolveLaunchIfOwner_def Let_def)
qed

lemma ready_second:
  assumes "dev_inv r" "gm_get (dg_requests r) k = Some q" "lr_owner q = owner" "lr_accepted q" "TrimSpace sid \<noteq> []"
  shows "snd (CompleteLaunchIfOwner k owner sid r) = readyRegistry k q (lr_workspaceSession q) (TrimSpace sid) r"
proof -
  have nc: "\<not> launchCompleted q r" using assms(1,2) by (rule pending_not_completed)
  let ?q = "markSessionReady (TrimSpace sid) r q"
  have q: "lr_ptr ?q = lr_ptr q" "lr_deviceID ?q = lr_deviceID q" "lr_owner ?q = lr_owner q"
    "TrimSpace (lr_workspaceSession ?q) = TrimSpace (lr_workspaceSession q)"
    "isAccepted ?q (r\<lparr>dg_requests := gm_put k ?q (dg_requests r)\<rparr>)"
    using nc assms(4) by (simp_all add: markSessionReady_def isAccepted_def launchCompleted_def)
  show ?thesis
    using assms q(5) ready_update [OF assms(2) q(1-4) nc] by (simp add: CompleteLaunchIfOwner_def Let_def)
qed

lemma ready_put:
  assumes "gm_get (dg_requests r) k = Some q" "lr_ptr q' = lr_ptr q" "lr_deviceID q' = lr_deviceID q"
    "lr_owner q' = lr_owner q" "\<not> launchCompleted q r"
  shows "readyRegistry k q' w sid (r\<lparr>dg_requests := gm_put k q' (dg_requests r)\<rparr>) = readyRegistry k q w sid r"
  using finish_update [OF assms(1-3,5)] assms(2-4) by (simp add: readyRegistry_def Let_def)

lemma accept_first:
  assumes "dev_inv r" "gm_get (dg_requests r) k = Some q" "lr_deviceID q = d" "lr_peer q = p"
    "TrimSpace (lr_sessionID q) = []"
  shows "snd (ResolveLaunchIfOwner d p k LaunchStatusAccepted reason w r) =
    r\<lparr>dg_requests := gm_put k (q\<lparr>lr_accepted := True, lr_workspaceSession := TrimSpace w\<rparr>) (dg_requests r)\<rparr>"
  using assms pending_not_completed [OF assms(1,2)]
  by (simp add: ResolveLaunchIfOwner_def Let_def registeredSessionID_def markAccepted_def launchCompleted_def)

lemma ready_first:
  assumes "dev_inv r" "gm_get (dg_requests r) k = Some q" "lr_owner q = owner" "\<not> lr_accepted q" "TrimSpace sid \<noteq> []"
  shows "snd (CompleteLaunchIfOwner k owner sid r) =
    r\<lparr>dg_requests := gm_put k (q\<lparr>lr_sessionID := TrimSpace sid\<rparr>) (dg_requests r)\<rparr>"
  using assms pending_not_completed [OF assms(1,2)]
  by (simp add: CompleteLaunchIfOwner_def Let_def isAccepted_def markSessionReady_def launchCompleted_def)

lemma accept_then_ready:
  assumes "dev_inv r" "gm_get (dg_requests r) k = Some q" "lr_deviceID q = d" "lr_peer q = p" "lr_owner q = owner"
    "TrimSpace (lr_sessionID q) = []" "TrimSpace sid \<noteq> []"
  shows "snd (CompleteLaunchIfOwner k owner sid (snd (ResolveLaunchIfOwner d p k LaunchStatusAccepted reason w r)))
    = readyRegistry k q w (TrimSpace sid) r"
proof -
  let ?q = "q\<lparr>lr_accepted := True, lr_workspaceSession := TrimSpace w\<rparr>"
  let ?r = "r\<lparr>dg_requests := gm_put k ?q (dg_requests r)\<rparr>"
  have "evolves r ?r" by (rule evolves_request [OF assms(1,2)]) simp_all
  then have "snd (CompleteLaunchIfOwner k owner sid ?r) = readyRegistry k ?q (TrimSpace w) (TrimSpace sid) ?r"
    using ready_second [OF evolves_inv, of r ?r k ?q owner sid] assms by simp
  also have "\<dots> = readyRegistry k q w (TrimSpace sid) r"
    using ready_put [OF assms(2), of ?q "TrimSpace w"] pending_not_completed [OF assms(1,2)]
    by (simp add: readyRegistry_def)
  finally show ?thesis using accept_first [OF assms(1-4,6)] by simp
qed

lemma ready_then_accept:
  assumes "dev_inv r" "gm_get (dg_requests r) k = Some q" "lr_deviceID q = d" "lr_peer q = p" "lr_owner q = owner"
    "\<not> lr_accepted q" "TrimSpace sid \<noteq> []"
  shows "snd (ResolveLaunchIfOwner d p k LaunchStatusAccepted reason w (snd (CompleteLaunchIfOwner k owner sid r)))
    = readyRegistry k q w (TrimSpace sid) r"
proof -
  let ?q = "q\<lparr>lr_sessionID := TrimSpace sid\<rparr>"
  let ?r = "r\<lparr>dg_requests := gm_put k ?q (dg_requests r)\<rparr>"
  have "evolves r ?r" by (rule evolves_request [OF assms(1,2)]) simp_all
  then have "snd (ResolveLaunchIfOwner d p k LaunchStatusAccepted reason w ?r) = readyRegistry k ?q w (TrimSpace sid) ?r"
    using accept_second [OF evolves_inv, of r ?r k ?q d p reason w] assms by simp
  also have "\<dots> = readyRegistry k q w (TrimSpace sid) r"
    using ready_put [OF assms(2), of ?q w] pending_not_completed [OF assms(1,2)] by simp
  finally show ?thesis using ready_first [OF assms(1,2,5,6,7)] by simp
qed

lemma ready_result:
  assumes "dev_inv r" "gm_get (dg_requests r) k = Some q"
  shows "gm_get (dg_results (readyRegistry k q w sid r)) (lr_ptr q) =
      Some \<lparr>rs_RequestID = k, rs_Status = LaunchStatusSessionReady, rs_SessionID = sid, rs_Reason = []\<rparr>"
    "gm_get (dg_requests (readyRegistry k q w sid r)) k = None"
  using pending_not_completed [OF assms] by (simp_all add: readyRegistry_def Let_def)

section \<open>Devices that go offline\<close>

definition failTerminate :: "string \<Rightarrow> TerminateResult \<Rightarrow> string \<times> terminateRequest \<Rightarrow> devRegistry \<Rightarrow> devRegistry" where
  "failTerminate d res = (\<lambda>(k, q) r. if tq_deviceID q \<noteq> d then r
     else completeTerminateRequest (Some q) (res\<lparr>rt_RequestID := tq_id q\<rparr>) (snd (clearTerminateRequestLocked k r)))"

lemma clearTerminate_eq:
  "snd (clearTerminateRequestLocked k r) = r\<lparr>dg_terminateRequests := gm_del k (dg_terminateRequests r)\<rparr>"
  by (simp add: clearTerminateRequestLocked_def gm_del_absent split: option.split)

lemma failTerminate_fields:
  "dg_devices (failTerminate d res e r) = dg_devices r" "dg_requests (failTerminate d res e r) = dg_requests r"
  "dg_results (failTerminate d res e r) = dg_results r" "dg_pending (failTerminate d res e r) = dg_pending r"
  "dg_terminateRequests (failTerminate d res e r) =
     (if tq_deviceID (snd e) = d then gm_del (fst e) (dg_terminateRequests r) else dg_terminateRequests r)"
  "gm_get (dg_terminated r) p \<noteq> None \<Longrightarrow> gm_get (dg_terminated (failTerminate d res e r)) p = gm_get (dg_terminated r) p"
  "tq_deviceID (snd e) = d \<Longrightarrow> gm_get (dg_terminated (failTerminate d res e r)) (tq_ptr (snd e)) \<noteq> None"
  by (auto simp: failTerminate_def completeTerminateRequest_def clearTerminate_eq split: prod.split)

lemma failTerminate_fold:
  "dg_devices (fold (failTerminate d res) es r) = dg_devices r \<and> dg_requests (fold (failTerminate d res) es r) = dg_requests r \<and>
    dg_results (fold (failTerminate d res) es r) = dg_results r \<and> dg_pending (fold (failTerminate d res) es r) = dg_pending r \<and>
    (gm_get (dg_terminated r) p \<noteq> None \<longrightarrow> gm_get (dg_terminated (fold (failTerminate d res) es r)) p \<noteq> None) \<and>
    (\<forall>e \<in> set es. tq_deviceID (snd e) = d \<longrightarrow> gm_get (dg_terminateRequests (fold (failTerminate d res) es r)) (fst e) = None \<and>
       gm_get (dg_terminated (fold (failTerminate d res) es r)) (tq_ptr (snd e)) \<noteq> None) \<and>
    (gm_get (dg_terminateRequests r) k = None \<longrightarrow> gm_get (dg_terminateRequests (fold (failTerminate d res) es r)) k = None)"
proof -
  have keep: "gm_get (dg_terminated r) p \<noteq> None \<Longrightarrow> gm_get (dg_terminated (fold (failTerminate d res) es r)) p \<noteq> None" for p es r
    by (induction es arbitrary: r) (auto simp: failTerminate_fields(6))
  have gone: "gm_get (dg_terminateRequests r) k = None \<Longrightarrow>
      gm_get (dg_terminateRequests (fold (failTerminate d res) es r)) k = None" for k es r
    by (induction es arbitrary: r) (auto simp: failTerminate_fields(5))
  have "\<forall>e \<in> set es. tq_deviceID (snd e) = d \<longrightarrow>
      gm_get (dg_terminateRequests (fold (failTerminate d res) es r)) (fst e) = None \<and>
      gm_get (dg_terminated (fold (failTerminate d res) es r)) (tq_ptr (snd e)) \<noteq> None" for es r
  proof (induction es arbitrary: r)
    case (Cons e es)
    show ?case
      using Cons.IH [of "failTerminate d res e r"] keep [OF failTerminate_fields(7) [of e d res r], of es]
        gone [of "failTerminate d res e r" "fst e" es] by (auto simp: failTerminate_fields(5))
  qed simp
  moreover have "dg_devices (fold (failTerminate d res) es r) = dg_devices r \<and> dg_requests (fold (failTerminate d res) es r) = dg_requests r \<and>
      dg_results (fold (failTerminate d res) es r) = dg_results r \<and> dg_pending (fold (failTerminate d res) es r) = dg_pending r"
    by (induction es arbitrary: r) (auto simp: failTerminate_fields(1-4))
  ultimately show ?thesis using keep [of r p es] by (auto intro: gone)
qed

lemma deviceTerminate_fold:
  "completeDeviceTerminateRequestsLocked d res r = fold (failTerminate d res) (dg_terminateRequests r) r"
  unfolding completeDeviceTerminateRequestsLocked_def failTerminate_def ..

lemma withFlag_absent: "gm_get m d = None \<Longrightarrow> withFlag d b m = m"
  by (simp add: withFlag_def)

lemma dropDevice_spec:
  assumes "dev_inv r"
  shows "dg_devices (dropDevice d r) = gm_del d (dg_devices r) \<and> dg_pending (dropDevice d r) = dg_pending r \<and>
    (gm_get (dg_requests r) k = Some q \<and> lr_deviceID q = d \<longrightarrow>
       (if lr_accepted q then gm_get (dg_requests (dropDevice d r)) k = Some q
        else gm_get (dg_requests (dropDevice d r)) k = None \<and>
             gm_get (dg_results (dropDevice d r)) (lr_ptr q) = Some (launchFailed k ''device_offline''))) \<and>
    (gm_get (dg_terminateRequests r) tk = Some tq \<and> tq_deviceID tq = d \<longrightarrow>
       gm_get (dg_terminateRequests (dropDevice d r)) tk = None \<and>
       gm_get (dg_terminated (dropDevice d r)) (tq_ptr tq) \<noteq> None)"
proof -
  let ?r0 = "r\<lparr>dg_devices := gm_del d (dg_devices r)\<rparr>"
  have inv0: "dev_inv ?r0" using evolves_delDevice [OF assms] evolves_inv by blast
  let ?r1 = "completeDeviceRequestsLocked d offlineLaunch ?r0"
  note t = failTerminate_fold [of d offlineTerminate "dg_terminateRequests ?r1" ?r1, folded deviceTerminate_fold]
  have one: "k' = k \<and> q' = q" if "gm_get (dg_requests r) k' = Some q'" "lr_deviceID q' = d"
      "gm_get (dg_requests r) k = Some q" "lr_deviceID q = d" for k' q'
    using distinct_entry [OF dev_invD(10) [OF assms] that(1,3)] that by auto
  have s1: "dg_devices ?r1 = gm_del d (dg_devices r) \<and> dg_pending ?r1 = dg_pending r \<and>
      dg_terminateRequests ?r1 = dg_terminateRequests r \<and>
    (gm_get (dg_requests r) k = Some q \<and> lr_deviceID q = d \<longrightarrow>
       (if lr_accepted q then gm_get (dg_requests ?r1) k = Some q
        else gm_get (dg_requests ?r1) k = None \<and>
             gm_get (dg_results ?r1) (lr_ptr q) = Some (launchFailed k ''device_offline'')))"
    using inv0
  proof (cases rule: completeDevice_cases [of ?r0 d offlineLaunch])
    case none
    then show ?thesis using pending_get [OF dev_invD(2) [OF inv0]] by auto
  next
    case (kept k' q')
    then show ?thesis using one [of k' q'] by (auto simp: setInFlight_devices withFlag_absent)
  next
    case (failed k' q')
    have nc: "\<not> launchCompleted q' ?r0" using pending_not_completed [OF inv0 failed(1)] .
    have "withFlag d b (gm_del d (dg_devices r)) = gm_del d (dg_devices r)" for b by (simp add: withFlag_absent)
    then show ?thesis
      using failed one [of k' q'] nc
      by (auto simp: clear_devices launchFailed_def offlineLaunch_def)
  qed
  show ?thesis
    unfolding dropDevice_def using s1 t gm_get_in [of "dg_terminateRequests r" tk tq] by fastforce
qed

section \<open>Which devices a section touches\<close>

lemma completeDevice_others:
  assumes "dev_inv r" "d' \<noteq> d"
  shows "gm_get (dg_devices (completeDeviceRequestsLocked d res r)) d' = gm_get (dg_devices r) d'"
    "dg_pending (completeDeviceRequestsLocked d res r) = dg_pending r"
proof -
  have "gm_get (dg_devices (completeDeviceRequestsLocked d res r)) d' = gm_get (dg_devices r) d' \<and>
    dg_pending (completeDeviceRequestsLocked d res r) = dg_pending r"
    using assms(1)
  proof (cases rule: completeDevice_cases [of r d res])
    case (failed k q)
    then show ?thesis
      using assms(2) pending_not_completed [OF assms(1) failed(1)] by (simp add: clear_devices withFlag_get)
  qed (use assms in \<open>simp_all add: setInFlight_devices withFlag_get\<close>)
  then show "gm_get (dg_devices (completeDeviceRequestsLocked d res r)) d' = gm_get (dg_devices r) d'"
    "dg_pending (completeDeviceRequestsLocked d res r) = dg_pending r" by auto
qed

lemma deviceTerminate_devices [simp]:
  "dg_devices (completeDeviceTerminateRequestsLocked d res r) = dg_devices r"
  "dg_pending (completeDeviceTerminateRequestsLocked d res r) = dg_pending r"
  using failTerminate_fold [of d res "dg_terminateRequests r" r] by (simp_all add: deviceTerminate_fold)

lemma install_devices:
  assumes "dev_inv r"
  shows "\<exists>live. gm_get (dg_devices (snd (installDevice clk info owner peer r))) (dv_DeviceID info) = Some live \<and>
      lv_info live = info \<and> lv_owner live = owner \<and> lv_peer live = peer"
    and "d' \<noteq> dv_DeviceID info \<Longrightarrow>
      gm_get (dg_devices (snd (installDevice clk info owner peer r))) d' = gm_get (dg_devices r) d'"
    and "dg_pending (snd (installDevice clk info owner peer r)) = dg_pending r"
proof -
  have p: "dg_pending (completeDeviceRequestsLocked d res r) = dg_pending r" for d res
    using completeDevice_others(2) [OF assms, of "CHR ''x'' # d" d] by simp
  show "\<exists>live. gm_get (dg_devices (snd (installDevice clk info owner peer r))) (dv_DeviceID info) = Some live \<and>
      lv_info live = info \<and> lv_owner live = owner \<and> lv_peer live = peer"
    "dg_pending (snd (installDevice clk info owner peer r)) = dg_pending r"
    using p by (simp_all add: installDevice_def Let_def split: option.split)
  show "d' \<noteq> dv_DeviceID info \<Longrightarrow>
      gm_get (dg_devices (snd (installDevice clk info owner peer r))) d' = gm_get (dg_devices r) d'"
    using completeDevice_others(1) [OF assms] by (simp add: installDevice_def Let_def split: option.split)
qed

lemma dropDevice_devices:
  assumes "dev_inv r"
  shows "dg_devices (dropDevice d r) = gm_del d (dg_devices r)" "dg_pending (dropDevice d r) = dg_pending r"
  using dropDevice_spec [OF assms, of d] by auto

lemma dropDevices_spec:
  assumes "dev_inv r"
  shows "dg_pending (fold (\<lambda>(d, _). dropDevice d) es r) = dg_pending r \<and>
    gm_get (dg_devices (fold (\<lambda>(d, _). dropDevice d) es r)) d' =
      (if d' \<in> fst ` set es then None else gm_get (dg_devices r) d')"
  using assms
proof (induction es arbitrary: r)
  case (Cons e es)
  have "dev_inv (dropDevice (fst e) r)" using evolves_drop [OF Cons.prems] evolves_inv by blast
  then show ?case using Cons.IH [of "dropDevice (fst e) r"] dropDevice_devices [OF Cons.prems] by (cases e) auto
qed simp

section \<open>A registry with one device\<close>

definition demoDeviceOwner :: DeviceOwner where
  "demoDeviceOwner = \<lparr>ow_UserID = 7, ow_AgentTokenID = ''tok''\<rparr>"

definition demoDeviceInfo :: DeviceInfo where
  "demoDeviceInfo = \<lparr>dv_DeviceID = ''d1'', dv_DisplayName = ''pc'', dv_PlatformFamily = ''unix'',
     dv_PlatformID = ''linux'', dv_LaunchHealth = []\<rparr>"

definition demoIdle :: devRegistry where
  "demoIdle = snd (RegisterOwned_dev (\<lambda>_. 1) demoDeviceInfo demoDeviceOwner (Some 1) NewRegistry_dev)"

definition demoBusy :: devRegistry where
  "demoBusy = snd (Launch_begin (\<lambda>_. 0) ''d1'' 7 demoIdle)"

definition demoKeyL :: string where
  "demoKeyL = ''d1-000000.000000000''"

definition demoRequest :: launchRequest where
  "demoRequest = \<lparr>lr_ptr = 0, lr_id = demoKeyL, lr_deviceID = ''d1'', lr_owner = demoDeviceOwner, lr_peer = Some 1,
     lr_accepted = False, lr_sessionID = [], lr_workspaceSession = []\<rparr>"

lemma demoIdle_reachable: "dev_reachable demoIdle"
  unfolding dev_reachable_def demoIdle_def by (rule r_into_rtranclp) (rule dev_step.Register)

lemma demoBusy_reachable: "dev_reachable demoBusy"
  using rtranclp.rtrancl_into_rtrancl [OF demoIdle_reachable [unfolded dev_reachable_def] dev_step.LaunchBegin]
  by (simp add: dev_reachable_def demoBusy_def)

lemma demoBusy_request: "gm_get (dg_requests demoBusy) demoKeyL = Some demoRequest"
  by code_simp

section \<open>Properties\<close>

text \<open>
  C15. One launch at a time: in every reachable registry a device has at most one launch request, its
  \<open>inFlight\<close> flag tells whether it has one, no request in the map has its result yet, and launching on a
  device with a request answers \<open>busy\<close>, sends nothing and changes nothing.
\<close>

theorem launch_single_flight:
  assumes "dev_reachable r" "gm_get (dg_requests r) k = Some q"
  shows "(\<forall>k' q'. gm_get (dg_requests r) k' = Some q' \<and> lr_deviceID q' = lr_deviceID q \<longrightarrow> k' = k) \<and>
    gm_get (dg_results r) (lr_ptr q) = None \<and>
    (\<forall>live. gm_get (dg_devices r) (lr_deviceID q) = Some live \<longrightarrow> lv_inFlight live \<and>
       (lv_peer live \<noteq> None \<longrightarrow>
         Launch clk others (lr_deviceID q) (ow_UserID (lv_owner live)) command cwd label r =
           (Some (launchFailed (lr_deviceID q @ ''-'' @ formatClock (clk 0)) ''busy''), [], r))) \<and>
    (\<forall>d live. gm_get (dg_devices r) d = Some live \<and> lv_inFlight live \<longrightarrow>
       (\<exists>k' q'. gm_get (dg_requests r) k' = Some q' \<and> lr_deviceID q' = d))"
proof -
  have inv: "dev_inv r" using assms(1) by (rule reachable_dev_inv)
  note I = dev_invD [OF inv]
  have one: "k' = k" if "gm_get (dg_requests r) k' = Some q'" "lr_deviceID q' = lr_deviceID q" for k' q'
    using distinct_entry [OF I(10) that(1) assms(2) that(2)] .
  have flag: "lv_inFlight live \<longleftrightarrow> hasPendingRequestLocked d r" if "gm_get (dg_devices r) d = Some live" for d live
    using gm_allD [OF I(11) that] .
  have p: "hasPendingRequestLocked (lr_deviceID q) r" using pending_get [OF I(2)] assms(2) by blast
  show ?thesis
    using one flag p pending_not_completed [OF inv assms(2)] pending_get [OF I(2)]
    by (auto simp: launchCompleted_def Launch_def Launch_begin_def Let_def)
qed

theorem launch_single_flight_witness:
  "gm_get (dg_results demoBusy) 0 = None \<and> fst (Launch (\<lambda>_. 5) (\<lambda>r. CtxDone) ''d1'' 7 [] [] [] demoBusy)
     = Some (launchFailed (''d1-'' @ formatClock 5) ''busy'')"
proof -
  have "gm_get (dg_devices demoBusy) ''d1'' = Some \<lparr>lv_info = demoDeviceInfo, lv_owner = demoDeviceOwner,
      lv_peer = Some 1, lv_connectedAt = 1, lv_inFlight = True\<rparr>" by code_simp
  with launch_single_flight [OF demoBusy_reachable demoBusy_request, of "\<lambda>_. 5" "\<lambda>r. CtxDone" "[]" "[]" "[]"]
  show ?thesis by (simp add: demoRequest_def demoDeviceOwner_def)
qed



text \<open>
  The device's acceptance and the session's registration complete a launch in either order: both orders
  end in the same registry, in which the waiting caller reads \<open>session_ready\<close> with the session's id, and the
  request is gone.
\<close>

theorem launch_completes_in_either_order:
  assumes "dev_reachable r" "gm_get (dg_requests r) k = Some q"
    and "\<not> lr_accepted q" "lr_sessionID q = []" "TrimSpace sid \<noteq> []"
  shows "let accept = (\<lambda>r. snd (ResolveLaunchIfOwner (lr_deviceID q) (lr_peer q) k LaunchStatusAccepted reason w r));
             ready = (\<lambda>r. snd (CompleteLaunchIfOwner k (lr_owner q) sid r))
         in ready (accept r) = accept (ready r) \<and>
            fst (Launch_wait k (lr_ptr q) (WakeDone (ready (accept r))) r) =
              Some \<lparr>rs_RequestID = k, rs_Status = LaunchStatusSessionReady, rs_SessionID = TrimSpace sid, rs_Reason = []\<rparr> \<and>
            gm_get (dg_requests (ready (accept r))) k = None"
proof -
  have inv: "dev_inv r" using assms(1) by (rule reachable_dev_inv)
  show ?thesis
    using accept_then_ready [OF inv assms(2) refl refl refl _ assms(5), of reason w]
      ready_then_accept [OF inv assms(2) refl refl refl assms(3,5), of reason w] assms(4)
      ready_result [OF inv assms(2), of w "TrimSpace sid"]
    by (simp add: Let_def Launch_wait_def)
qed

theorem launch_completes_in_either_order_witness:
  "snd (CompleteLaunchIfOwner demoKeyL demoDeviceOwner ''s1''
     (snd (ResolveLaunchIfOwner ''d1'' (Some 1) demoKeyL LaunchStatusAccepted [] ''w1'' demoBusy))) =
   snd (ResolveLaunchIfOwner ''d1'' (Some 1) demoKeyL LaunchStatusAccepted [] ''w1''
     (snd (CompleteLaunchIfOwner demoKeyL demoDeviceOwner ''s1'' demoBusy)))"
proof -
  have "TrimSpace ''s1'' \<noteq> []" by code_simp
  then show ?thesis
    using launch_completes_in_either_order [OF demoBusy_reachable demoBusy_request, of "''s1''" "[]" "''w1''"]
    by (simp add: demoRequest_def Let_def)
qed

text \<open>
  A device that disconnects takes its open requests with it: the device is gone, the launch it had not
  accepted yet gets \<open>device_offline\<close>, the launch it had accepted stays and can still be completed by its
  session, and every termination waiting for it has a result and is out of the map. The other devices stay as
  they are.
\<close>

theorem offline_device_fails_its_requests:
  assumes "dev_reachable r" "DisconnectIfOwner_dev d p r = (True, effects, r')"
  shows "dg_devices r' = gm_del d (dg_devices r) \<and> DClose p \<in> set effects \<and>
    (gm_get (dg_requests r) k = Some q \<and> lr_deviceID q = d \<longrightarrow>
       (if lr_accepted q then gm_get (dg_requests r') k = Some q
        else gm_get (dg_requests r') k = None \<and>
             fst (Launch_wait k (lr_ptr q) (WakeDone r') r) = Some (launchFailed k ''device_offline''))) \<and>
    (gm_get (dg_terminateRequests r) tk = Some tq \<and> tq_deviceID tq = d \<longrightarrow>
       gm_get (dg_terminateRequests r') tk = None \<and> fst (Terminate_wait tq (WakeDone r') r) \<noteq> None)"
proof -
  have "r' = dropDevice d r" "DClose p \<in> set effects"
    using assms(2) by (auto simp: DisconnectIfOwner_dev_def split: option.splits if_splits)
  then show ?thesis
    using dropDevice_spec [OF reachable_dev_inv [OF assms(1)], of d k q tk tq]
    by (simp add: Launch_wait_def Terminate_wait_def Let_def)
qed

theorem offline_device_fails_its_requests_witness:
  "\<exists>es r'. DisconnectIfOwner_dev ''d1'' (Some 1) demoBusy = (True, es, r') \<and>
     fst (Launch_wait demoKeyL 0 (WakeDone r') demoBusy) = Some (launchFailed demoKeyL ''device_offline'')"
proof -
  have "fst (DisconnectIfOwner_dev ''d1'' (Some 1) demoBusy)" by code_simp
  then obtain es r' where d: "DisconnectIfOwner_dev ''d1'' (Some 1) demoBusy = (True, es, r')"
    by (cases "DisconnectIfOwner_dev ''d1'' (Some 1) demoBusy") auto
  from offline_device_fails_its_requests [OF demoBusy_reachable d, of demoKeyL demoRequest] d show ?thesis
    by (simp add: demoBusy_request) (simp add: demoRequest_def)
qed

text \<open>
  C32. A launch that completed just before its context ended is reported as timed out: when the \<open>select\<close> takes
  the context's case after the request was completed, \<open>Launch\<close> answers \<open>launch_timeout\<close> and sends no cleanup,
  although the request has its result (\<open>session_ready\<close>, say). \<open>Terminate\<close> answers the recorded result there.
\<close>

theorem launch_timeout_hides_result:
  assumes "gm_get (dg_requests r') k = None"
    and "gm_get (dg_results r') ptr = Some res" "gm_get (dg_terminated r') (tq_ptr tq) = Some tres"
  shows "Launch_wait k ptr (WakeCtx r') r = (Some (launchFailed k ''launch_timeout''), [], r') \<and>
    Launch_wait k ptr (WakeDone r') r = (Some res, [], r') \<and>
    fst (Terminate_wait tq (WakeCtx r') r) = Some tres"
  using assms
  by (simp add: Launch_wait_def timeoutLaunchRequest_def clearRequestLocked_def Let_def hasTerminateTarget_def
      Terminate_wait_def completeTerminateRequest_def clearTerminateRequest_def clearTerminate_eq)

definition demoReady :: devRegistry where
  "demoReady = snd (CompleteLaunchIfOwner demoKeyL demoDeviceOwner ''s1''
     (snd (ResolveLaunchIfOwner ''d1'' (Some 1) demoKeyL LaunchStatusAccepted [] ''w1'' demoBusy)))"

definition demoTarget :: TerminateTarget where
  "demoTarget = \<lparr>tt_DeviceID = ''d1'', tt_WorkspaceSession = ''w1''\<rparr>"

definition demoTerminating :: devRegistry where
  "demoTerminating = snd (Terminate_begin (\<lambda>_. 0) 7 demoTarget demoReady)"

theorem launch_timeout_hides_result_witness:
  "let r' = snd (ResolveTerminateIfOwner ''d1'' (Some 1) ''d1-terminate-000000.000000000'' ''terminated'' [] demoTerminating)
   in fst (Launch_wait demoKeyL 0 (WakeCtx r') demoBusy) = Some (launchFailed demoKeyL ''launch_timeout'') \<and>
      fst (Launch_wait demoKeyL 0 (WakeDone r') demoBusy) =
        Some \<lparr>rs_RequestID = demoKeyL, rs_Status = ''session_ready'', rs_SessionID = ''s1'', rs_Reason = []\<rparr>"
proof -
  let ?r = "snd (ResolveTerminateIfOwner ''d1'' (Some 1) ''d1-terminate-000000.000000000'' ''terminated'' [] demoTerminating)"
  have g: "gm_get (dg_requests ?r) demoKeyL = None"
    "gm_get (dg_results ?r) 0 = Some \<lparr>rs_RequestID = demoKeyL, rs_Status = ''session_ready'', rs_SessionID = ''s1'',
       rs_Reason = []\<rparr>"
    "gm_get (dg_terminated ?r) 1 = Some \<lparr>rt_RequestID = ''d1-terminate-000000.000000000'',
       rt_Status = ''terminated'', rt_Reason = []\<rparr>"
    by code_simp+
  show ?thesis
    using launch_timeout_hides_result [OF g(1,2), of "\<lparr>tq_ptr = 1, tq_id = [], tq_deviceID = [], tq_owner = demoDeviceOwner,
        tq_peer = None, tq_target = demoTarget\<rparr>"] g(3) by (simp add: Let_def)
qed

lemma revoke_token_entries:
  assumes "dev_inv r" and r'_def: "r' = snd (snd (DisconnectAgentTokenDevices t r))"
  shows "gm_get (dg_devices r') d = Some live \<longleftrightarrow> gm_get (dg_devices r) d = Some live \<and> ow_AgentTokenID (lv_owner live) \<noteq> t"
    "gm_get (dg_pending r') p = Some owner \<longleftrightarrow> gm_get (dg_pending r) p = Some owner \<and> ow_AgentTokenID owner \<noteq> t"
proof -
  note I = dev_invD [OF assms(1)]
  define victims where "victims = filter (\<lambda>(_, live). ow_AgentTokenID (lv_owner live) = t) (dg_devices r)"
  define r1 where "r1 = fold (\<lambda>(d, _). dropDevice d) victims r"
  have r1: "dg_pending r1 = dg_pending r"
    "gm_get (dg_devices r1) d = (if d \<in> fst ` set victims then None else gm_get (dg_devices r) d)" for d
    using dropDevices_spec [OF assms(1), of victims] by (simp_all add: r1_def)
  have r': "r' = r1\<lparr>dg_pending := gm_drop (\<lambda>owner. ow_AgentTokenID owner = t) (dg_pending r1)\<rparr>"
    by (simp add: r'_def DisconnectAgentTokenDevices_def Let_def r1_def victims_def)
  have "d \<in> fst ` set victims \<longleftrightarrow> ow_AgentTokenID (lv_owner live) = t" if "gm_get (dg_devices r) d = Some live" for live
    using that by (auto simp: victims_def gm_mem [OF I(1)] image_iff)
  then show "gm_get (dg_devices r') d = Some live \<longleftrightarrow> gm_get (dg_devices r) d = Some live \<and> ow_AgentTokenID (lv_owner live) \<noteq> t"
    by (auto simp: r' r1 split: if_splits)
  show "gm_get (dg_pending r') p = Some owner \<longleftrightarrow> gm_get (dg_pending r) p = Some owner \<and> ow_AgentTokenID owner \<noteq> t"
    using I(4) by (auto simp: r' r1 gm_get_drop split: option.splits if_splits)
qed

lemma revoke_token_inv: "dev_inv r \<Longrightarrow> dev_inv (snd (snd (DisconnectAgentTokenDevices t r)))"
  by (rule evolves_inv [OF evolves_DisconnectToken])

interpretation token_devices: revocable dev_inv "\<lambda>r. gm_get (dg_devices r)" "\<lambda>live. ow_AgentTokenID (lv_owner live)"
    "\<lambda>t r. snd (snd (DisconnectAgentTokenDevices t r))"
  by unfold_locales (simp_all add: revoke_token_inv revoke_token_entries [OF _ refl])

interpretation token_pending: revocable dev_inv "\<lambda>r. gm_get (dg_pending r)" ow_AgentTokenID
    "\<lambda>t r. snd (snd (DisconnectAgentTokenDevices t r))"
  by unfold_locales (simp_all add: revoke_token_inv revoke_token_entries [OF _ refl])

lemma revoke_token_closes:
  assumes "DisconnectAgentTokenDevices t r = (n, effects, r')"
  shows "gm_get (dg_devices r) d = Some live \<Longrightarrow> ow_AgentTokenID (lv_owner live) = t \<Longrightarrow> DClose (lv_peer live) \<in> set effects"
    "gm_get (dg_pending r) p = Some owner \<Longrightarrow> ow_AgentTokenID owner = t \<Longrightarrow> DClose p \<in> set effects"
proof -
  have effects: "effects = concat (map (\<lambda>(_, live). deactivateDevicePeer (lv_peer live) @ [DClose (lv_peer live)])
        (filter (\<lambda>(_, live). ow_AgentTokenID (lv_owner live) = t) (dg_devices r))) @
      concat (map (\<lambda>(peer, _). deactivateDevicePeer peer @ [DClose peer])
        (filter (\<lambda>(_, owner). ow_AgentTokenID owner = t) (dg_pending r)))"
    using assms by (simp add: DisconnectAgentTokenDevices_def Let_def)
  show "gm_get (dg_devices r) d = Some live \<Longrightarrow> ow_AgentTokenID (lv_owner live) = t \<Longrightarrow> DClose (lv_peer live) \<in> set effects"
    by (drule gm_get_in) (force simp: effects)
  show "gm_get (dg_pending r) p = Some owner \<Longrightarrow> ow_AgentTokenID owner = t \<Longrightarrow> DClose p \<in> set effects"
    by (drule gm_get_in) (force simp: effects)
qed

text \<open>
  Revoking agent tokens takes their devices out: after any sequence of revocations exactly the devices and the
  waiting connections of the other tokens are left. A revocation closes the connection of every device and every
  waiting connection it removes, returns their number, and none of the connections can activate a device afterwards.
\<close>

theorem revoked_token_devices_gone:
  assumes "dev_reachable r" "DisconnectAgentTokenDevices t r = (n, effects, r')"
  shows "(gm_get (dg_devices (fold (\<lambda>t r. snd (snd (DisconnectAgentTokenDevices t r))) ts r)) d = Some live \<longleftrightarrow>
            gm_get (dg_devices r) d = Some live \<and> ow_AgentTokenID (lv_owner live) \<notin> set ts) \<and>
    (gm_get (dg_pending (fold (\<lambda>t r. snd (snd (DisconnectAgentTokenDevices t r))) ts r)) p = Some owner \<longleftrightarrow>
            gm_get (dg_pending r) p = Some owner \<and> ow_AgentTokenID owner \<notin> set ts) \<and>
    (gm_get (dg_devices r) d = Some live \<and> ow_AgentTokenID (lv_owner live) = t \<longrightarrow> DClose (lv_peer live) \<in> set effects) \<and>
    (gm_get (dg_pending r) p = Some owner \<and> ow_AgentTokenID owner = t \<longrightarrow> DClose p \<in> set effects) \<and>
    n = int (card {d. \<exists>live. gm_get (dg_devices r) d = Some live \<and> ow_AgentTokenID (lv_owner live) = t}) +
        int (card {p. \<exists>owner. gm_get (dg_pending r) p = Some owner \<and> ow_AgentTokenID owner = t}) \<and>
    (ow_AgentTokenID owner = t \<longrightarrow> ActivatePending clk info owner p r' = (False, [], r'))"
proof -
  have inv: "dev_inv r" using assms(1) by (rule reachable_dev_inv)
  have "n = int (length (filter (\<lambda>e. ow_AgentTokenID (lv_owner (snd e)) = t) (dg_devices r))) +
      int (length (filter (\<lambda>e. ow_AgentTokenID (snd e) = t) (dg_pending r)))"
    using assms(2) by (auto simp: DisconnectAgentTokenDevices_def Let_def split_def)
  then have "n = int (card {d. \<exists>live. gm_get (dg_devices r) d = Some live \<and> ow_AgentTokenID (lv_owner live) = t}) +
      int (card {p. \<exists>owner. gm_get (dg_pending r) p = Some owner \<and> ow_AgentTokenID owner = t})"
    using gm_count [OF dev_invD(1) [OF inv], of "\<lambda>live. ow_AgentTokenID (lv_owner live) = t"]
      gm_count [OF dev_invD(4) [OF inv], of "\<lambda>owner. ow_AgentTokenID owner = t"] by simp
  moreover have "ActivatePending clk info owner p r' = (False, [], r')" if "ow_AgentTokenID owner = t"
    using token_pending.revoke_gone [OF inv, of t p owner] that assms(2) by (auto simp: ActivatePending_def)
  ultimately show ?thesis
    using token_devices.revoke_all [OF inv] token_pending.revoke_all [OF inv] revoke_token_closes [OF assms(2)] by blast
qed

theorem revoked_token_devices_gone_witness:
  "\<exists>n es r'. DisconnectAgentTokenDevices ''tok'' demoIdle = (n, es, r') \<and> DClose (Some 1) \<in> set es \<and>
     (\<forall>live. gm_get (dg_devices r') ''d1'' \<noteq> Some live)"
proof -
  obtain n es r' where d: "DisconnectAgentTokenDevices ''tok'' demoIdle = (n, es, r')"
    by (cases "DisconnectAgentTokenDevices ''tok'' demoIdle")
  have g: "gm_get (dg_devices demoIdle) ''d1'' = Some \<lparr>lv_info = demoDeviceInfo, lv_owner = demoDeviceOwner,
      lv_peer = Some 1, lv_connectedAt = 1, lv_inFlight = False\<rparr>" by code_simp
  have r': "r' = snd (snd (DisconnectAgentTokenDevices ''tok'' demoIdle))" using d by simp
  note facts = revoked_token_devices_gone [OF demoIdle_reachable d, of "[''tok'']" "''d1''"]
  have "DClose (Some 1) \<in> set es"
    using facts [THEN conjunct2, THEN conjunct2, THEN conjunct1, rule_format, OF conjI [OF g]] by (simp add: demoDeviceOwner_def)
  moreover have "gm_get (dg_devices r') ''d1'' \<noteq> Some live" for live
    using facts [THEN conjunct1, of live] g by (auto simp: demoDeviceOwner_def r')
  ultimately show ?thesis using d by blast
qed

text \<open>
  Devices belong to their user: activating a connection succeeds only for the owner it was registered with and
  never takes over a device id of another user; it installs exactly that device and touches no other. A user who does
  not own a device neither launches nor terminates on it (\<open>device_offline\<close>, nothing is sent, nothing changes), and the
  listing of a user is the devices of that user, latest connection first.
\<close>

theorem devices_belong_to_their_user:
  assumes "dev_reachable r"
  shows "(ActivatePending clk info owner peer r = (True, effects, r') \<longrightarrow>
      gm_get (dg_pending r) peer = Some owner \<and> gm_get (dg_pending r') peer = None \<and>
      (\<forall>old. gm_get (dg_devices r) (dv_DeviceID info) = Some old \<longrightarrow> ow_UserID (lv_owner old) = ow_UserID owner) \<and>
      (\<exists>live. gm_get (dg_devices r') (dv_DeviceID info) = Some live \<and> lv_info live = info \<and>
         lv_owner live = owner \<and> lv_peer live = peer) \<and>
      (\<forall>d. d \<noteq> dv_DeviceID info \<longrightarrow> gm_get (dg_devices r') d = gm_get (dg_devices r) d)) \<and>
    (gm_get (dg_devices r) d = Some live \<and> ow_UserID (lv_owner live) \<noteq> u \<longrightarrow>
      Launch clk others d u command cwd label r =
        (Some (launchFailed (d @ ''-'' @ formatClock (clk 0)) ''device_offline''), [], r) \<and>
      snd (Terminate clk others u sid \<lparr>tt_DeviceID = d, tt_WorkspaceSession = w\<rparr> r) = ([], r)) \<and>
    set (ListForUser u r) = lv_info ` {live. ow_UserID (lv_owner live) = u \<and> (\<exists>d. gm_get (dg_devices r) d = Some live)} \<and>
    (\<exists>lives :: liveDevice list. ListForUser u r = map lv_info lives \<and>
       sorted_wrt (\<lambda>a b. lv_connectedAt a \<ge> lv_connectedAt b) lives)"
proof -
  have inv: "dev_inv r" using assms(1) by (rule reachable_dev_inv)
  note I = dev_invD [OF inv]
  let ?r = "r\<lparr>dg_pending := gm_del peer (dg_pending r)\<rparr>"
  have inv': "dev_inv ?r" using evolves_pending [OF inv] I(4) evolves_inv by blast
  have act: "gm_get (dg_pending r) peer = Some owner \<and> gm_get (dg_pending r') peer = None \<and>
      (\<forall>old. gm_get (dg_devices r) (dv_DeviceID info) = Some old \<longrightarrow> ow_UserID (lv_owner old) = ow_UserID owner) \<and>
      (\<exists>live. gm_get (dg_devices r') (dv_DeviceID info) = Some live \<and> lv_info live = info \<and>
         lv_owner live = owner \<and> lv_peer live = peer) \<and>
      (\<forall>d. d \<noteq> dv_DeviceID info \<longrightarrow> gm_get (dg_devices r') d = gm_get (dg_devices r) d)"
    if a: "ActivatePending clk info owner peer r = (True, effects, r')"
  proof -
    have "r' = snd (installDevice clk info owner peer ?r)" "gm_get (dg_pending r) peer = Some owner"
      "\<forall>old. gm_get (dg_devices r) (dv_DeviceID info) = Some old \<longrightarrow> ow_UserID (lv_owner old) = ow_UserID owner"
      using a by (auto simp: ActivatePending_def Let_def split: option.splits if_splits)
    then show ?thesis using install_devices [OF inv', where clk = clk and info = info and owner = owner and peer = peer]
      by auto
  qed
  have entries: "(d, live) \<in> set (dg_devices r) \<longleftrightarrow> gm_get (dg_devices r) d = Some live" for d live
    using gm_in_get [OF I(1)] gm_get_in by metis
  have list: "set (ListForUser u r) = lv_info ` {live. ow_UserID (lv_owner live) = u \<and> (\<exists>d. gm_get (dg_devices r) d = Some live)}"
    by (auto simp: ListForUser_def gm_vals_def image_iff entries) (metis entries snd_conv)+
  let ?key = "\<lambda>live. (- lv_connectedAt live, dv_DeviceID (lv_info live))"
  let ?l = "sort_key ?key (gm_vals (\<lambda>live. ow_UserID (lv_owner live) = u) (dg_devices r))"
  have "sorted_wrt (\<lambda>a b. ?key a \<le> ?key b) ?l" using sorted_sort_key [of ?key] by (simp add: sorted_map)
  then have "sorted_wrt (\<lambda>a b. lv_connectedAt a \<ge> lv_connectedAt b) ?l"
    by (rule sorted_wrt_mono_rel [rotated]) (auto simp: less_eq_prod_def)
  then have "\<exists>lives :: liveDevice list. ListForUser u r = map lv_info lives \<and>
      sorted_wrt (\<lambda>a b. lv_connectedAt a \<ge> lv_connectedAt b) lives"
    by (intro exI [of _ ?l] conjI) (simp add: ListForUser_def)
  then show ?thesis
    using act list by (auto simp: Launch_def Launch_begin_def Terminate_def Terminate_begin_def Let_def)
qed

theorem devices_belong_to_their_user_witness:
  "fst (Launch (\<lambda>_. 0) (\<lambda>r. CtxDone) ''d1'' 8 [] [] [] demoIdle) = Some (launchFailed demoKeyL ''device_offline'') \<and>
   set (ListForUser 7 demoIdle) = {demoDeviceInfo}"
proof -
  let ?live = "\<lparr>lv_info = demoDeviceInfo, lv_owner = demoDeviceOwner, lv_peer = Some 1, lv_connectedAt = 1,
    lv_inFlight = False\<rparr>"
  have m: "dg_devices demoIdle = [(''d1'', ?live)]" "''d1-'' @ formatClock 0 = demoKeyL" by code_simp+
  have g: "gm_get (dg_devices demoIdle) d = (if d = ''d1'' then Some ?live else None)" for d
    by (simp add: m gm_get_def)
  note facts = devices_belong_to_their_user [OF demoIdle_reachable]
  have "fst (Launch (\<lambda>_. 0) (\<lambda>r. CtxDone) ''d1'' 8 [] [] [] demoIdle) = Some (launchFailed demoKeyL ''device_offline'')"
    using facts [of "\<lambda>_. 0" demoDeviceInfo demoDeviceOwner None "[]" demoIdle "''d1''" ?live 8 "\<lambda>r. CtxDone" "[]" "[]" "[]" "[]" "[]"]
      m(2) by (elim conjE) (simp add: g demoDeviceOwner_def)
  moreover have "set (ListForUser 7 demoIdle) =
      lv_info ` {live. ow_UserID (lv_owner live) = 7 \<and> (\<exists>d. gm_get (dg_devices demoIdle) d = Some live)}"
    using facts [of "\<lambda>_. 0" demoDeviceInfo demoDeviceOwner None "[]" demoIdle "''d1''" ?live 7 "\<lambda>r. CtxDone" "[]" "[]" "[]" "[]" "[]"]
    by blast
  moreover have "{live. ow_UserID (lv_owner live) = 7 \<and> (\<exists>d. gm_get (dg_devices demoIdle) d = Some live)} = {?live}"
    by (auto simp: g demoDeviceOwner_def split: if_splits)
  ultimately show ?thesis by simp
qed

text \<open>
  A launch that the device accepts and whose session registers returns the session: on an idle device of the user,
  with the device's acceptance and the session's registration coming in, \<open>Launch\<close> sends the request to the device and
  returns \<open>session_ready\<close> with the session's id, and the device is idle again.
\<close>

theorem launch_returns_session:
  assumes "dev_reachable r" "gm_get (dg_devices r) d = Some live" "\<not> lv_inFlight live" "lv_peer live \<noteq> None"
    and "TrimSpace sid \<noteq> []" "k = d @ ''-'' @ formatClock (clk 0)"
    and "others = (\<lambda>r1. WakeDone (snd (CompleteLaunchIfOwner k (lv_owner live) sid
           (snd (ResolveLaunchIfOwner d (lv_peer live) k LaunchStatusAccepted reason w r1)))))"
  shows "\<exists>r'. Launch clk others d (ow_UserID (lv_owner live)) command cwd label r =
      (Some \<lparr>rs_RequestID = k, rs_Status = LaunchStatusSessionReady, rs_SessionID = TrimSpace sid, rs_Reason = []\<rparr>,
       [DSend (lv_peer live) (DeviceLaunchRequestFrame k command cwd label)], r') \<and>
      dev_inv r' \<and> \<not> hasPendingRequestLocked d r'"
proof -
  have inv: "dev_inv r" using assms(1) by (rule reachable_dev_inv)
  define r1 where "r1 = snd (Launch_begin clk d (ow_UserID (lv_owner live)) r)"
  define q where "q = \<lparr>lr_ptr = dg_nextPtr r, lr_id = k, lr_deviceID = d, lr_owner = lv_owner live, lr_peer = lv_peer live,
    lr_accepted = False, lr_sessionID = [], lr_workspaceSession = []\<rparr>"
  have b: "Launch_begin clk d (ow_UserID (lv_owner live)) r = (Inr q, r1)"
    using assms(2-4,6) by (simp add: Launch_begin_def Let_def r1_def q_def)
  have inv1: "dev_inv r1" using evolves_Launch_begin [OF inv] evolves_inv r1_def by blast
  have g: "gm_get (dg_requests r1) k = Some q" using assms(2-4,6) by (auto simp: r1_def Launch_begin_def Let_def q_def)
  let ?r' = "readyRegistry k q w (TrimSpace sid) r1"
  have ready: "snd (CompleteLaunchIfOwner k (lv_owner live) sid
      (snd (ResolveLaunchIfOwner d (lv_peer live) k LaunchStatusAccepted reason w r1))) = ?r'"
    by (rule accept_then_ready [OF inv1 g]) (use assms(5) in \<open>simp_all add: q_def\<close>)
  have fin: "evolves r1 ?r'"
    using evolves_ready [OF inv1 g] ready_update [OF g refl refl refl, of w]  accept_then_ready [OF inv1 g]
      evolves_Resolve [OF inv1] evolves_CompleteLaunch evolves_inv evolves_trans ready by metis
  have "\<not> hasPendingRequestLocked d ?r'"
  proof
    assume "hasPendingRequestLocked d ?r'"
    then obtain k' q' where k': "gm_get (dg_requests ?r') k' = Some q'" "lr_deviceID q' = d"
      using pending_get dev_invD(2) [OF evolves_inv [OF fin]] by blast
    have "dg_requests ?r' = gm_del k (dg_requests r1)"
      using pending_not_completed [OF inv1 g] by (simp add: readyRegistry_def Let_def)
    then have "gm_get (dg_requests r1) k' = Some q'" "k' \<noteq> k" using k'(1) by (auto split: if_splits)
    then show False using distinct_entry [OF dev_invD(10) [OF inv1] _ g, of k' q'] k'(2) by (simp add: q_def)
  qed
  then show ?thesis
    using b ready ready_result(1) [OF inv1 g, of w "TrimSpace sid"] evolves_inv [OF fin] assms(7)
    by (simp add: Launch_def Launch_wait_def Let_def) (simp add: q_def)
qed

theorem launch_returns_session_witness:
  "fst (Launch (\<lambda>_. 0) (\<lambda>r1. WakeDone (snd (CompleteLaunchIfOwner demoKeyL demoDeviceOwner ''s1''
           (snd (ResolveLaunchIfOwner ''d1'' (Some 1) demoKeyL LaunchStatusAccepted [] ''w1'' r1)))))
     ''d1'' 7 ''sh'' [] [] demoIdle) =
   Some \<lparr>rs_RequestID = demoKeyL, rs_Status = LaunchStatusSessionReady, rs_SessionID = TrimSpace ''s1'', rs_Reason = []\<rparr>"
proof -
  let ?live = "\<lparr>lv_info = demoDeviceInfo, lv_owner = demoDeviceOwner, lv_peer = Some 1, lv_connectedAt = 1,
    lv_inFlight = False\<rparr>"
  have m: "gm_get (dg_devices demoIdle) ''d1'' = Some ?live" "demoKeyL = ''d1'' @ ''-'' @ formatClock ((\<lambda>_. 0) 0)"
    "TrimSpace ''s1'' \<noteq> []" by code_simp+
  show ?thesis
    using launch_returns_session [OF demoIdle_reachable m(1) _ _ m(3), of demoKeyL "\<lambda>_. 0" _ "[]" "''w1''" "''sh''" "[]" "[]"] m(2)
    by (auto simp: demoDeviceOwner_def)
qed

end
