(* ===== verification/Session_Registry.thy ===== *)
theory Session_Registry
  imports Protocol_Frames Revocation
begin

text \<open>
  The relay's session registry (\<open>internal/relay/session/registry.go\<close>): the agent sessions that are
  connected, by session id. An \<open>AgentPeer\<close> is an option, \<open>None\<close> for \<open>nil\<close>; every peer of the relay can
  be deactivated. Closing and deactivating a peer are effects, returned in order; the log line of a
  replaced session is not modelled.
\<close>

section \<open>State and operations\<close>

type_synonym agentPeer = "nat option"

record SessionOwner =
  so_UserID :: int
  so_AgentTokenID :: string

record liveSession =
  ls_info :: SessionInfo
  ls_owner :: SessionOwner
  ls_peer :: agentPeer

record sessRegistry =
  sg_sessions :: "(string, liveSession) gomap"

datatype seffect = SDeactivate nat | SClose nat

definition NewRegistry_sess :: sessRegistry where
  "NewRegistry_sess = \<lparr>sg_sessions = []\<rparr>"

definition deactivateAgentPeer :: "agentPeer \<Rightarrow> seffect list" where
  "deactivateAgentPeer peer = (case peer of None \<Rightarrow> [] | Some p \<Rightarrow> [SDeactivate p])"

definition closeAgentPeer :: "agentPeer \<Rightarrow> seffect list" where
  "closeAgentPeer peer = (case peer of None \<Rightarrow> [] | Some p \<Rightarrow> [SClose p])"

definition RegisterOwned_sess ::
    "SessionInfo \<Rightarrow> SessionOwner \<Rightarrow> agentPeer \<Rightarrow> sessRegistry \<Rightarrow> seffect list \<times> sessRegistry" where
  "RegisterOwned_sess info owner peer r =
     (let old = gm_get (sg_sessions r) (si_SessionID info);
          live = \<lparr>ls_info = info, ls_owner = owner, ls_peer = peer\<rparr>
      in ((case old of None \<Rightarrow> [] | Some o' \<Rightarrow> if ls_peer o' \<noteq> peer then deactivateAgentPeer (ls_peer o') else []) @
          (case old of None \<Rightarrow> [] | Some o' \<Rightarrow> closeAgentPeer (ls_peer o')),
          r\<lparr>sg_sessions := gm_put (si_SessionID info) live (sg_sessions r)\<rparr>))"

definition Register_sess :: "SessionInfo \<Rightarrow> agentPeer \<Rightarrow> sessRegistry \<Rightarrow> seffect list \<times> sessRegistry" where
  "Register_sess info peer r = RegisterOwned_sess info \<lparr>so_UserID = 0, so_AgentTokenID = []\<rparr> peer r"

definition Remove_sess :: "string \<Rightarrow> sessRegistry \<Rightarrow> sessRegistry" where
  "Remove_sess sessionID r = r\<lparr>sg_sessions := gm_del sessionID (sg_sessions r)\<rparr>"

definition DisconnectIfOwner_sess :: "string \<Rightarrow> agentPeer \<Rightarrow> sessRegistry \<Rightarrow> bool \<times> seffect list \<times> sessRegistry" where
  "DisconnectIfOwner_sess sessionID owner r =
     (case gm_get (sg_sessions r) sessionID of
        None \<Rightarrow> (False, [], r)
      | Some live \<Rightarrow>
          if owner = None \<or> ls_peer live \<noteq> owner then (False, [], r)
          else (True, deactivateAgentPeer owner @ closeAgentPeer owner, Remove_sess sessionID r))"

definition HasSession :: "string \<Rightarrow> sessRegistry \<Rightarrow> bool" where
  "HasSession sessionID r \<longleftrightarrow> gm_get (sg_sessions r) sessionID \<noteq> None"

definition SetLaunchSourceForUser :: "string \<Rightarrow> int \<Rightarrow> string \<Rightarrow> sessRegistry \<Rightarrow> bool \<times> sessRegistry" where
  "SetLaunchSourceForUser sessionID userID launchSource0 r =
     (let launchSource = TrimSpace launchSource0
      in if launchSource = [] then (False, r)
         else case gm_get (sg_sessions r) sessionID of
             None \<Rightarrow> (False, r)
           | Some live \<Rightarrow>
               if so_UserID (ls_owner live) \<noteq> userID then (False, r)
               else (True, r\<lparr>sg_sessions := gm_put sessionID
                       (live\<lparr>ls_info := (ls_info live)\<lparr>si_LaunchSource := launchSource\<rparr>\<rparr>) (sg_sessions r)\<rparr>))"

definition disconnectMatching ::
    "(liveSession \<Rightarrow> bool) \<Rightarrow> sessRegistry \<Rightarrow> nat \<times> seffect list \<times> sessRegistry" where
  "disconnectMatching match r =
     (let toClose = map ls_peer (gm_vals match (sg_sessions r))
      in (length toClose, concat (map deactivateAgentPeer toClose) @ concat (map closeAgentPeer toClose),
          r\<lparr>sg_sessions := gm_drop match (sg_sessions r)\<rparr>))"

definition DisconnectUserSessions :: "int \<Rightarrow> sessRegistry \<Rightarrow> nat \<times> seffect list \<times> sessRegistry" where
  "DisconnectUserSessions userID r = disconnectMatching (\<lambda>live. so_UserID (ls_owner live) = userID) r"

definition DisconnectAgentTokenSessions :: "string \<Rightarrow> sessRegistry \<Rightarrow> nat \<times> seffect list \<times> sessRegistry" where
  "DisconnectAgentTokenSessions agentTokenID r =
     disconnectMatching (\<lambda>live. so_AgentTokenID (ls_owner live) = agentTokenID) r"

section \<open>Revocation\<close>

definition sess_inv :: "sessRegistry \<Rightarrow> bool" where
  "sess_inv r \<longleftrightarrow> gm_wf (sg_sessions r) \<and> gm_all (\<lambda>k live. si_SessionID (ls_info live) = k) (sg_sessions r)"

definition sessionEntry :: "sessRegistry \<Rightarrow> string \<Rightarrow> liveSession option" where
  "sessionEntry r k = gm_get (sg_sessions r) k"

lemma sess_inv_New: "sess_inv NewRegistry_sess"
  by (simp add: sess_inv_def NewRegistry_sess_def)

lemma inv_disconnectMatching: "sess_inv r \<Longrightarrow> sess_inv (snd (snd (disconnectMatching match r)))"
  by (auto simp: sess_inv_def disconnectMatching_def Let_def)

lemma entry_disconnectMatching:
  "sess_inv r \<Longrightarrow> sessionEntry (snd (snd (disconnectMatching match r))) k = Some v \<longleftrightarrow>
     sessionEntry r k = Some v \<and> \<not> match v"
  by (auto simp: sess_inv_def disconnectMatching_def Let_def sessionEntry_def gm_get_drop split: option.splits if_splits)

interpretation user_sessions: revocable sess_inv sessionEntry "\<lambda>live. so_UserID (ls_owner live)"
    "\<lambda>u r. snd (snd (DisconnectUserSessions u r))"
  by unfold_locales
    (simp_all add: DisconnectUserSessions_def inv_disconnectMatching entry_disconnectMatching)

interpretation token_sessions: revocable sess_inv sessionEntry "\<lambda>live. so_AgentTokenID (ls_owner live)"
    "\<lambda>t r. snd (snd (DisconnectAgentTokenSessions t r))"
  by unfold_locales
    (simp_all add: DisconnectAgentTokenSessions_def inv_disconnectMatching entry_disconnectMatching)

section \<open>Runs\<close>

inductive sess_step :: "sessRegistry \<Rightarrow> sessRegistry \<Rightarrow> bool" where
  Register: "sess_step r (snd (RegisterOwned_sess info owner peer r))"
| Remove: "sess_step r (Remove_sess k r)"
| Disconnect: "sess_step r (snd (snd (DisconnectIfOwner_sess k p r)))"
| SetSource: "sess_step r (snd (SetLaunchSourceForUser k u src r))"
| Revoke: "sess_step r (snd (snd (disconnectMatching match r)))"

lemma sess_step_inv:
  assumes "sess_step r r'" "sess_inv r"
  shows "sess_inv r'"
  using assms
proof (induction rule: sess_step.induct)
  case (SetSource r k u src)
  show ?case
  proof (cases "gm_get (sg_sessions r) k")
    case (Some live)
    then have "si_SessionID (ls_info live) = k" using SetSource gm_allD by (fastforce simp: sess_inv_def)
    then show ?thesis
      using SetSource Some by (auto simp: SetLaunchSourceForUser_def Let_def sess_inv_def intro!: gm_all_put)
  qed (use SetSource in \<open>simp add: SetLaunchSourceForUser_def Let_def\<close>)
next
  case (Disconnect r k p)
  then show ?case
    by (auto simp: DisconnectIfOwner_sess_def Remove_sess_def sess_inv_def split: option.split)
qed (auto simp: RegisterOwned_sess_def Let_def Remove_sess_def sess_inv_def inv_disconnectMatching
      disconnectMatching_def intro!: gm_all_put)

section \<open>Properties\<close>

text \<open>
  A session belongs to its last registration: after a registration the id is held by that connection and no other
  session changed; the connection it replaced is closed; a disconnect by any other connection is refused and
  changes nothing, while the disconnect by the holder removes exactly that session, deactivates and closes the
  connection.
\<close>

theorem stale_agent_cannot_disconnect:
  assumes "RegisterOwned_sess info owner (Some p) r = (es, r')" "stale \<noteq> Some p"
  shows "sessionEntry r' = (sessionEntry r)(si_SessionID info \<mapsto> \<lparr>ls_info = info, ls_owner = owner, ls_peer = Some p\<rparr>) \<and>
    DisconnectIfOwner_sess (si_SessionID info) stale r' = (False, [], r') \<and>
    (\<exists>r''. DisconnectIfOwner_sess (si_SessionID info) (Some p) r' = (True, [SDeactivate p, SClose p], r'') \<and>
       sessionEntry r'' = (sessionEntry r')(si_SessionID info := None)) \<and>
    (\<forall>live. sessionEntry r (si_SessionID info) = Some live \<and> ls_peer live = Some q \<longrightarrow> SClose q \<in> set es)"
proof -
  have r': "r' = r\<lparr>sg_sessions := gm_put (si_SessionID info)
      \<lparr>ls_info = info, ls_owner = owner, ls_peer = Some p\<rparr> (sg_sessions r)\<rparr>"
    using assms(1) by (auto simp: RegisterOwned_sess_def Let_def)
  have "\<forall>live. sessionEntry r (si_SessionID info) = Some live \<and> ls_peer live = Some q \<longrightarrow> SClose q \<in> set es"
    using assms(1) by (auto simp: RegisterOwned_sess_def Let_def sessionEntry_def closeAgentPeer_def)
  then show ?thesis
    using assms(2)
    by (auto simp: r' sessionEntry_def DisconnectIfOwner_sess_def Remove_sess_def deactivateAgentPeer_def
        closeAgentPeer_def fun_eq_iff)
qed

definition demoSession :: SessionInfo where
  "demoSession = \<lparr>si_SessionID = ''s1'', si_DeviceID = ''d1'', si_Launcher = [], si_Label = [], si_CWD = [],
     si_CommandPreview = [], si_GitBranch = [], si_StartedAt = 0, si_PlatformFamily = [], si_PlatformID = [],
     si_ComputerName = [], si_LaunchSource = ''local''\<rparr>"

definition demoSessions :: sessRegistry where
  "demoSessions = snd (RegisterOwned_sess demoSession \<lparr>so_UserID = 7, so_AgentTokenID = ''tok''\<rparr> (Some 1) NewRegistry_sess)"

lemma demoSessions_run: "sess_step\<^sup>*\<^sup>* NewRegistry_sess demoSessions"
  unfolding demoSessions_def by (rule r_into_rtranclp) (rule sess_step.Register)

lemma demoSessions_entry:
  "sessionEntry demoSessions k = (if k = ''s1'' then Some \<lparr>ls_info = demoSession,
     ls_owner = \<lparr>so_UserID = 7, so_AgentTokenID = ''tok''\<rparr>, ls_peer = Some 1\<rparr> else None)"
  by (simp add: demoSessions_def RegisterOwned_sess_def NewRegistry_sess_def sessionEntry_def Let_def demoSession_def)

theorem stale_agent_cannot_disconnect_witness:
  "\<exists>es r'. RegisterOwned_sess demoSession \<lparr>so_UserID = 7, so_AgentTokenID = ''tok''\<rparr> (Some 2) demoSessions = (es, r') \<and>
     DisconnectIfOwner_sess ''s1'' (Some 1) r' = (False, [], r') \<and> SClose 1 \<in> set es"
proof -
  obtain es r' where e: "RegisterOwned_sess demoSession \<lparr>so_UserID = 7, so_AgentTokenID = ''tok''\<rparr> (Some 2) demoSessions = (es, r')"
    by (cases "RegisterOwned_sess demoSession \<lparr>so_UserID = 7, so_AgentTokenID = ''tok''\<rparr> (Some 2) demoSessions")
  from stale_agent_cannot_disconnect [OF e, of "Some 1" 1] e show ?thesis
    by (simp add: demoSessions_entry) (simp add: demoSession_def)
qed

text \<open>
  Revoking a user or an agent token ends exactly the sessions it holds: in every registry reached by the registry's
  operations, after the revocations of any users and tokens a session is listed iff it was listed and none of
  them holds it, and one revocation closes the connection of every session it removes and returns their number.
\<close>

theorem revoked_sessions_gone:
  assumes "sess_step\<^sup>*\<^sup>* NewRegistry_sess r"
  shows "(sessionEntry (fold (\<lambda>t r. snd (snd (DisconnectAgentTokenSessions t r))) ts
             (fold (\<lambda>u r. snd (snd (DisconnectUserSessions u r))) us r)) k = Some live \<longleftrightarrow>
           sessionEntry r k = Some live \<and> so_UserID (ls_owner live) \<notin> set us \<and> so_AgentTokenID (ls_owner live) \<notin> set ts) \<and>
    (sessionEntry r k = Some live \<and> so_UserID (ls_owner live) = u \<and> ls_peer live = Some p \<longrightarrow>
           SClose p \<in> set (fst (snd (DisconnectUserSessions u r))) \<and> SDeactivate p \<in> set (fst (snd (DisconnectUserSessions u r)))) \<and>
    fst (DisconnectUserSessions u r) = card {k. \<exists>live. sessionEntry r k = Some live \<and> so_UserID (ls_owner live) = u}"
proof -
  have inv: "sess_inv r" using assms by (induction rule: rtranclp_induct) (auto simp: sess_inv_New sess_step_inv)
  let ?r1 = "fold (\<lambda>u r. snd (snd (DisconnectUserSessions u r))) us r"
  have inv1: "sess_inv ?r1"
    using inv by (induction us arbitrary: r) (simp_all add: user_sessions.inv_revoke)
  have all: "sessionEntry (fold (\<lambda>t r. snd (snd (DisconnectAgentTokenSessions t r))) ts ?r1) k = Some live \<longleftrightarrow>
      sessionEntry r k = Some live \<and> so_UserID (ls_owner live) \<notin> set us \<and> so_AgentTokenID (ls_owner live) \<notin> set ts"
    using token_sessions.revoke_all [OF inv1] user_sessions.revoke_all [OF inv] by blast
  have closed: "sessionEntry r k = Some live \<and> so_UserID (ls_owner live) = u \<and> ls_peer live = Some p \<longrightarrow>
      SClose p \<in> set (fst (snd (DisconnectUserSessions u r))) \<and> SDeactivate p \<in> set (fst (snd (DisconnectUserSessions u r)))"
  proof
    assume a: "sessionEntry r k = Some live \<and> so_UserID (ls_owner live) = u \<and> ls_peer live = Some p"
    then have "live \<in> set (gm_vals (\<lambda>live. so_UserID (ls_owner live) = u) (sg_sessions r))"
      using gm_get_in by (force simp: gm_vals_def sessionEntry_def)
    then have "closeAgentPeer (ls_peer live) @ deactivateAgentPeer (ls_peer live) = [SClose p, SDeactivate p]"
      "live \<in> set (gm_vals (\<lambda>live. so_UserID (ls_owner live) = u) (sg_sessions r))"
      using a by (simp_all add: closeAgentPeer_def deactivateAgentPeer_def)
    then show "SClose p \<in> set (fst (snd (DisconnectUserSessions u r))) \<and> SDeactivate p \<in> set (fst (snd (DisconnectUserSessions u r)))"
      using a by (auto simp: DisconnectUserSessions_def disconnectMatching_def Let_def closeAgentPeer_def
          deactivateAgentPeer_def intro!: bexI [of _ live])
  qed
  have wf: "gm_wf (sg_sessions r)" using inv by (simp add: sess_inv_def)
  have "fst (DisconnectUserSessions u r) = card {k. \<exists>live. sessionEntry r k = Some live \<and> so_UserID (ls_owner live) = u}"
    using gm_count [OF wf, of "\<lambda>live. so_UserID (ls_owner live) = u"]
    by (simp add: DisconnectUserSessions_def disconnectMatching_def Let_def gm_vals_def filter_map o_def sessionEntry_def)
  then show ?thesis using all closed by blast
qed

theorem revoked_sessions_gone_witness:
  "fst (DisconnectUserSessions 7 demoSessions) = card {k. \<exists>live. sessionEntry demoSessions k = Some live \<and> so_UserID (ls_owner live) = 7} \<and>
   SClose 1 \<in> set (fst (snd (DisconnectUserSessions 7 demoSessions)))"
  using revoked_sessions_gone [OF demoSessions_run, of "[]" "[7]" "''s1''"
      "\<lparr>ls_info = demoSession, ls_owner = \<lparr>so_UserID = 7, so_AgentTokenID = ''tok''\<rparr>, ls_peer = Some 1\<rparr>" 7 1] by (simp add: demoSessions_entry)

text \<open>
  Registering a session does not look at who holds the id: an agent of another user that registers with a session id
  in use takes the session over, and the connection of the first user is deactivated and closed.
\<close>

theorem session_takeover_across_users:
  assumes "sessionEntry r (si_SessionID info) = Some live" "ls_peer live = Some q" "q \<noteq> p"
    "so_UserID (ls_owner live) \<noteq> so_UserID owner"
  shows "\<exists>r'. RegisterOwned_sess info owner (Some p) r = ([SDeactivate q, SClose q], r') \<and>
    sessionEntry r' (si_SessionID info) = Some \<lparr>ls_info = info, ls_owner = owner, ls_peer = Some p\<rparr>"
  using assms by (simp add: RegisterOwned_sess_def Let_def sessionEntry_def deactivateAgentPeer_def closeAgentPeer_def)

theorem session_takeover_across_users_witness:
  "\<exists>r'. RegisterOwned_sess demoSession \<lparr>so_UserID = 8, so_AgentTokenID = ''tok2''\<rparr> (Some 2) demoSessions
     = ([SDeactivate 1, SClose 1], r')"
proof -
  have "sessionEntry demoSessions (si_SessionID demoSession) = Some \<lparr>ls_info = demoSession,
      ls_owner = \<lparr>so_UserID = 7, so_AgentTokenID = ''tok''\<rparr>, ls_peer = Some 1\<rparr>"
    by (simp add: demoSessions_entry) (simp add: demoSession_def)
  from session_takeover_across_users [OF this, of 1 2 "\<lparr>so_UserID = 8, so_AgentTokenID = ''tok2''\<rparr>"] show ?thesis by auto
qed

end
