(* ===== verification/Go_Unicode.thy ===== *)
theory Go_Unicode
  imports Go_Strings
begin

text \<open>
  UTF-8 as Go's \<open>range\<close> loop over a string and \<open>WriteRune\<close> decode and encode it, and the functions of
  \<open>strings\<close> and \<open>unicode\<close> that work on code points. Decoding returns what was encoded.
\<close>

section \<open>UTF-8\<close>

type_synonym rune = int

definition RuneError :: rune where "RuneError = 0xFFFD"

definition contByte :: "int \<Rightarrow> bool" where
  "contByte b \<longleftrightarrow> 0x80 \<le> b \<and> b \<le> 0xBF"

text \<open>\<open>utf8.DecodeRune\<close>: the code point and its width; an invalid byte is \<open>RuneError\<close> of width 1.\<close>

fun decode2 :: "int \<Rightarrow> int list \<Rightarrow> rune \<times> nat" where
  "decode2 b0 (b1 # _) = (if contByte b1 then ((b0 - 0xC0) * 64 + (b1 - 0x80), 2) else (RuneError, 1))"
| "decode2 b0 _ = (RuneError, 1)"

fun decode3 :: "int \<Rightarrow> int list \<Rightarrow> rune \<times> nat" where
  "decode3 b0 (b1 # b2 # _) =
     (if (if b0 = 0xE0 then 0xA0 else 0x80) \<le> b1 \<and> b1 \<le> (if b0 = 0xED then 0x9F else 0xBF) \<and> contByte b2
      then ((b0 - 0xE0) * 4096 + (b1 - 0x80) * 64 + (b2 - 0x80), 3) else (RuneError, 1))"
| "decode3 b0 _ = (RuneError, 1)"

fun decode4 :: "int \<Rightarrow> int list \<Rightarrow> rune \<times> nat" where
  "decode4 b0 (b1 # b2 # b3 # _) =
     (if (if b0 = 0xF0 then 0x90 else 0x80) \<le> b1 \<and> b1 \<le> (if b0 = 0xF4 then 0x8F else 0xBF) \<and>
         contByte b2 \<and> contByte b3
      then ((b0 - 0xF0) * 262144 + (b1 - 0x80) * 4096 + (b2 - 0x80) * 64 + (b3 - 0x80), 4) else (RuneError, 1))"
| "decode4 b0 _ = (RuneError, 1)"

fun DecodeRune :: "int list \<Rightarrow> rune \<times> nat" where
  "DecodeRune [] = (RuneError, 0)"
| "DecodeRune (b0 # rest) =
     (if b0 < 0x80 then (b0, 1)
      else if 0xC2 \<le> b0 \<and> b0 \<le> 0xDF then decode2 b0 rest
      else if 0xE0 \<le> b0 \<and> b0 \<le> 0xEF then decode3 b0 rest
      else if 0xF0 \<le> b0 \<and> b0 \<le> 0xF4 then decode4 b0 rest
      else (RuneError, 1))"

declare decode2.simps [simp del] decode3.simps [simp del] decode4.simps [simp del] DecodeRune.simps [simp del]

lemmas decode_simps = DecodeRune.simps decode2.simps decode3.simps decode4.simps contByte_def

function runesOf :: "int list \<Rightarrow> rune list" where
  "runesOf bs = (if bs = [] then [] else fst (DecodeRune bs) # runesOf (drop (max 1 (snd (DecodeRune bs))) bs))"
  by pat_completeness auto
termination by (relation "measure length") auto

declare runesOf.simps [simp del]

definition EncodeRune :: "rune \<Rightarrow> int list" where
  "EncodeRune r0 =
     (let r = (if r0 < 0 \<or> 0xD800 \<le> r0 \<and> r0 \<le> 0xDFFF \<or> 0x10FFFF < r0 then RuneError else r0)
      in if r < 0x80 then [r]
         else if r < 0x800 then [0xC0 + r div 64, 0x80 + r mod 64]
         else if r < 0x10000 then [0xE0 + r div 4096, 0x80 + r div 64 mod 64, 0x80 + r mod 64]
         else [0xF0 + r div 262144, 0x80 + r div 4096 mod 64, 0x80 + r div 64 mod 64, 0x80 + r mod 64])"

definition decodeString :: "string \<Rightarrow> rune list" where
  "decodeString s = runesOf (map of_char s)"

definition encodeString :: "rune list \<Rightarrow> string" where
  "encodeString rs = map char_of (concat (map EncodeRune rs))"

section \<open>The functions of \<open>strings\<close> and \<open>unicode\<close>\<close>

definition IsControl :: "rune \<Rightarrow> bool" where
  "IsControl r \<longleftrightarrow> r < 0x20 \<or> 0x7F \<le> r \<and> r \<le> 0x9F"

definition IsSpace :: "rune \<Rightarrow> bool" where
  "IsSpace r \<longleftrightarrow> 0x09 \<le> r \<and> r \<le> 0x0D \<or> 0x2000 \<le> r \<and> r \<le> 0x200A \<or>
     r \<in> {0x20, 0x85, 0xA0, 0x1680, 0x2028, 0x2029, 0x202F, 0x205F, 0x3000}"

text \<open>\<open>strings.ReplaceAll\<close> for a non-empty old string.\<close>

function ReplaceAll :: "string \<Rightarrow> string \<Rightarrow> string \<Rightarrow> string" where
  "ReplaceAll old new s =
     (if s = [] \<or> old = [] then s
      else if prefix old s then new @ ReplaceAll old new (drop (length old) s)
      else hd s # ReplaceAll old new (tl s))"
  by pat_completeness auto
termination by (relation "measure (\<lambda>(_, _, s). length s)") auto

declare ReplaceAll.simps [simp del]

fun splitOn :: "('a \<Rightarrow> bool) \<Rightarrow> 'a list \<Rightarrow> 'a list list" where
  "splitOn p [] = [[]]"
| "splitOn p (x # xs) =
     (if p x then [] # splitOn p xs
      else case splitOn p xs of [] \<Rightarrow> [[x]] | w # ws \<Rightarrow> (x # w) # ws)"

fun Join :: "'a list list \<Rightarrow> 'a list \<Rightarrow> 'a list" where
  "Join [] sep = []"
| "Join [w] sep = w"
| "Join (w # ws) sep = w @ sep @ Join ws sep"

definition Fields :: "rune list \<Rightarrow> rune list list" where
  "Fields rs = filter (\<lambda>f. f \<noteq> []) (splitOn IsSpace rs)"

definition trimRunes :: "rune list \<Rightarrow> rune list" where
  "trimRunes rs = rev (dropWhile IsSpace (rev (dropWhile IsSpace rs)))"

section \<open>Decoding what was encoded\<close>

definition scalar :: "rune \<Rightarrow> bool" where
  "scalar r \<longleftrightarrow> 0 \<le> r \<and> r \<le> 0x10FFFF \<and> \<not> (0xD800 \<le> r \<and> r \<le> 0xDFFF)"

text \<open>\<open>es\<close> is an encoding of \<open>r\<close>: decoding finds it at the front of any input, and its bytes below 0x80 are \<open>r\<close>.\<close>

definition codes :: "int list \<Rightarrow> rune \<Rightarrow> bool" where
  "codes es r \<longleftrightarrow> (\<forall>bs. DecodeRune (es @ bs) = (r, length es)) \<and> es \<noteq> [] \<and> (\<forall>b \<in> set es. 0 \<le> b \<and> b < 256 \<and> (b < 0x80 \<longrightarrow> b = r))"

lemma codes1: "0 \<le> r \<Longrightarrow> r < 0x80 \<Longrightarrow> codes [r] r"
  by (simp add: codes_def decode_simps)

lemma codes2: "\<lbrakk>2 \<le> c; c < 32; 0 \<le> m; m < 64\<rbrakk> \<Longrightarrow> codes [0xC0 + c, 0x80 + m] (c * 64 + m)"
  by (simp add: codes_def decode_simps)

lemma codes3:
  "\<lbrakk>0 \<le> c; c < 16; 0 \<le> m1; m1 < 64; 0 \<le> m0; m0 < 64; c = 0 \<longrightarrow> 32 \<le> m1; c = 13 \<longrightarrow> m1 < 32\<rbrakk>
     \<Longrightarrow> codes [0xE0 + c, 0x80 + m1, 0x80 + m0] (c * 4096 + m1 * 64 + m0)"
  by (auto simp: codes_def decode_simps)

lemma codes4:
  "\<lbrakk>0 \<le> c; c < 5; 0 \<le> m2; m2 < 64; 0 \<le> m1; m1 < 64; 0 \<le> m0; m0 < 64; c = 0 \<longrightarrow> 16 \<le> m2; c = 4 \<longrightarrow> m2 < 16\<rbrakk>
     \<Longrightarrow> codes [0xF0 + c, 0x80 + m2, 0x80 + m1, 0x80 + m0] (c * 262144 + m2 * 4096 + m1 * 64 + m0)"
  by (auto simp: codes_def decode_simps)

lemma codes_EncodeRune:
  assumes "scalar r"
  shows "codes (EncodeRune r) r"
proof -
  define m0 q1 where "m0 = r mod 64" and "q1 = r div 64"
  define m1 q2 where "m1 = q1 mod 64" and "q2 = q1 div 64"
  define m2 q3 where "m2 = q2 mod 64" and "q3 = q2 div 64"
  have r: "r = q1 * 64 + m0" "0 \<le> m0" "m0 < 64" by (simp_all add: m0_def q1_def)
  have q1: "q1 = q2 * 64 + m1" "0 \<le> m1" "m1 < 64" by (simp_all add: m1_def q2_def)
  have q2: "q2 = q3 * 64 + m2" "0 \<le> m2" "m2 < 64" by (simp_all add: m2_def q3_def)
  have d: "r div 64 = q1" "r div 4096 = q2" "r div 262144 = q3"
    using zdiv_zmult2_eq [of 64 r 64] zdiv_zmult2_eq [of 64 r 4096] by (simp_all add: q1_def q2_def q3_def)
  have s: "\<not> (r < 0 \<or> 0xD800 \<le> r \<and> r \<le> 0xDFFF \<or> 0x10FFFF < r)" using assms by (auto simp: scalar_def)
  have enc: "EncodeRune r = (if r < 0x80 then [r] else if r < 0x800 then [0xC0 + q1, 0x80 + m0]
      else if r < 0x10000 then [0xE0 + q2, 0x80 + m1, 0x80 + m0] else [0xF0 + q3, 0x80 + m2, 0x80 + m1, 0x80 + m0])"
    unfolding EncodeRune_def Let_def if_not_P [OF s] d m0_def m1_def m2_def ..
  consider "0 \<le> r" "r < 0x80" | "0x80 \<le> r" "r < 0x800" | "0x800 \<le> r" "r < 0x10000" | "0x10000 \<le> r" "r \<le> 0x10FFFF"
    using assms unfolding scalar_def by linarith
  then show ?thesis
  proof cases
    case 2
    then show ?thesis using enc codes2 [of q1 m0] r by simp
  next
    case 3
    then have "q2 < 16" "q2 = 0 \<longrightarrow> 32 \<le> m1" "q2 = 13 \<longrightarrow> m1 < 32" using r q1 assms by (auto simp: scalar_def)
    then show ?thesis using 3 enc codes3 [of q2 m1 m0] r q1 by (simp add: algebra_simps)
  next
    case 4
    then have "q3 < 5" "q3 = 0 \<longrightarrow> 16 \<le> m2" "q3 = 4 \<longrightarrow> m2 < 16" using r q1 q2 by auto
    then show ?thesis using 4 enc codes4 [of q3 m2 m1 m0] r q1 q2 by (simp add: algebra_simps)
  qed (use enc in \<open>simp add: codes1\<close>)
qed

lemma runesOf_encoded: "\<forall>r \<in> set rs. scalar r \<Longrightarrow> runesOf (concat (map EncodeRune rs)) = rs"
proof (induction rs)
  case (Cons r rs)
  then have "codes (EncodeRune r) r" by (simp add: codes_EncodeRune)
  then show ?case using Cons by (subst runesOf.simps) (auto simp: codes_def max_def Suc_le_eq)
qed (simp add: runesOf.simps)

lemma decode_encode:
  assumes "\<forall>r \<in> set rs. scalar r"
  shows "decodeString (encodeString rs) = rs"
proof -
  have "\<forall>b \<in> set (concat (map EncodeRune rs)). 0 \<le> b \<and> b < 256"
    using assms codes_EncodeRune by (fastforce simp: codes_def)
  then have "map (of_char \<circ> (char_of :: int \<Rightarrow> char)) (concat (map EncodeRune rs)) = concat (map EncodeRune rs)"
    by (intro map_idI) (auto simp: of_char_of)
  then show ?thesis using runesOf_encoded [OF assms] by (simp add: decodeString_def encodeString_def)
qed

lemma encode_ascii:
  assumes "\<forall>r \<in> set rs. scalar r" "0 \<le> n" "n < 0x80" "n \<notin> set rs"
  shows "char_of n \<notin> set (encodeString rs)"
proof
  assume "char_of n \<in> set (encodeString rs)"
  then obtain r b where rb: "r \<in> set rs" "b \<in> set (EncodeRune r)" "(char_of n :: char) = char_of b"
    by (auto simp: encodeString_def)
  then have "codes (EncodeRune r) r" using assms(1) by (simp add: codes_EncodeRune)
  then have "0 \<le> b" "b < 256" "b < 0x80 \<longrightarrow> b = r" using rb(2) by (auto simp: codes_def)
  moreover have "n = b" using arg_cong [OF rb(3), of "of_char :: char \<Rightarrow> int"] \<open>0 \<le> b\<close> \<open>b < 256\<close> assms(2,3) by (simp add: of_char_of)
  ultimately show False using assms(3,4) rb(1) by simp
qed

lemma scalar1: "scalar RuneError" "0 \<le> b \<Longrightarrow> b < 0x80 \<Longrightarrow> scalar b"
  by (simp_all add: scalar_def RuneError_def)

lemma scalar2: "0xC2 \<le> b0 \<Longrightarrow> b0 \<le> 0xDF \<Longrightarrow> contByte b1 \<Longrightarrow> scalar ((b0 - 0xC0) * 64 + (b1 - 0x80))"
  by (auto simp: scalar_def contByte_def)

lemma scalar_three:
  assumes "0 \<le> c" "c \<le> 15" "0 \<le> m1" "m1 \<le> 63" "0 \<le> m0" "m0 \<le> 63" "c = 13 \<longrightarrow> m1 \<le> 31"
  shows "scalar (c * 4096 + m1 * 64 + m0)"
proof -
  consider "c < 13" | "c = 13" | "13 < c" by linarith
  then show ?thesis by cases (use assms in \<open>simp_all add: scalar_def\<close>)
qed

lemma scalar_four:
  assumes "0 \<le> c" "c \<le> 4" "0 \<le> m2" "m2 \<le> 63" "0 \<le> m1" "m1 \<le> 63" "0 \<le> m0" "m0 \<le> 63" "c = 0 \<longrightarrow> 16 \<le> m2" "c = 4 \<longrightarrow> m2 \<le> 15"
  shows "scalar (c * 262144 + m2 * 4096 + m1 * 64 + m0)"
proof -
  from assms(1,2) consider "c = 0" | "0 < c" "c < 4" | "c = 4" by linarith
  then show ?thesis by cases (use assms in \<open>simp_all add: scalar_def\<close>)
qed

lemma scalar_if: "(P \<Longrightarrow> scalar x) \<Longrightarrow> scalar (fst (if P then (x, n) else (RuneError, m)))"
  by (simp add: scalar1)

lemma decode2_scalar: "0xC2 \<le> b0 \<Longrightarrow> b0 \<le> 0xDF \<Longrightarrow> scalar (fst (decode2 b0 rest))"
  by (induction b0 rest rule: decode2.induct) (simp_all only: decode2.simps scalar_if scalar2 scalar1 fst_conv)

lemma decode3_scalar: "0xE0 \<le> b0 \<Longrightarrow> b0 \<le> 0xEF \<Longrightarrow> scalar (fst (decode3 b0 rest))"
proof (induction b0 rest rule: decode3.induct)
  case (1 b0 b1 b2 r)
  show ?case unfolding decode3.simps
    by (rule scalar_if, rule scalar_three) (use 1 in \<open>auto simp: contByte_def split: if_splits\<close>)
qed (simp_all only: decode3.simps scalar1 fst_conv)

lemma decode4_scalar: "0xF0 \<le> b0 \<Longrightarrow> b0 \<le> 0xF4 \<Longrightarrow> scalar (fst (decode4 b0 rest))"
proof (induction b0 rest rule: decode4.induct)
  case (1 b0 b1 b2 b3 r)
  show ?case unfolding decode4.simps
    by (rule scalar_if, rule scalar_four) (use 1 in \<open>auto simp: contByte_def split: if_splits\<close>)
qed (simp_all only: decode4.simps scalar1 fst_conv)

lemma DecodeRune_scalar: "\<forall>b \<in> set bs. 0 \<le> b \<Longrightarrow> scalar (fst (DecodeRune bs))"
  by (cases bs) (simp_all add: DecodeRune.simps scalar1 decode2_scalar decode3_scalar decode4_scalar)

lemma runesOf_scalar: "\<forall>b \<in> set bs. 0 \<le> b \<Longrightarrow> r \<in> set (runesOf bs) \<Longrightarrow> scalar r"
proof (induction bs rule: runesOf.induct)
  case (1 bs)
  then show ?case using DecodeRune_scalar [of bs] set_drop_subset [of "max 1 (snd (DecodeRune bs))" bs]
    by (auto simp: runesOf.simps [of bs] split: if_splits)
qed

lemma of_char_nonneg: "(0 :: int) \<le> of_char c"
  by (metis of_nat_0_le_iff of_nat_of_char)

end
