(* ===== verification/Preview_Text.thy ===== *)
theory Preview_Text
  imports Go_Unicode
begin

text \<open>
  The preview text of a terminal session (\<open>NormalizePreviewText\<close> in
  \<open>internal/tunnel/session/terminal_mirror.go\<close>): UTF-8 decoding and encoding as Go's \<open>range\<close> loop and
  \<open>WriteRune\<close> do it, the cleaning of control characters, white space folded line by line, and the cut to
  the last characters. Text between the decoding and the result is valid UTF-8 and is kept as its code points.
\<close>

section \<open>Normalization\<close>

definition DefaultPreviewMaxChars :: int where "DefaultPreviewMaxChars = 2000"

definition cleanRune :: "rune \<Rightarrow> rune list" where
  "cleanRune r =
     (if r = 0x0A then [0x0A] else if r = 0x09 then [0x20] else if r = RuneError then []
      else if IsControl r then [] else [r])"

definition foldLines :: "rune list \<Rightarrow> rune list" where
  "foldLines rs = Join (map (\<lambda>line. Join (Fields line) [0x20]) (splitOn (\<lambda>r. r = 0x0A) rs)) [0x0A]"

definition NormalizePreviewText :: "string \<Rightarrow> int \<Rightarrow> string" where
  "NormalizePreviewText raw0 maxChars =
     (let raw1 = ReplaceAll [CHR 0x0D, CHR 0x0A] [CHR 0x0A] raw0;
          raw = ReplaceAll [CHR 0x0D] [CHR 0x0A] raw1;
          b = concat (map cleanRune (decodeString raw));
          normalized = trimRunes (foldLines b)
      in if maxChars \<le> 0 \<or> int (length normalized) \<le> maxChars then encodeString normalized
         else
           let tail = drop (length normalized - nat maxChars) normalized;
               rest = dropWhile (\<lambda>r. r \<noteq> 0x0A) tail;
               tail1 = (if 1 < length rest then tl rest else tail)
           in encodeString (trimRunes tail1))"

section \<open>Splitting and joining\<close>

lemma splitOn_nonempty [simp]: "splitOn p xs \<noteq> []"
  by (cases xs) (auto split: list.splits)

lemma Join_Cons: "ws \<noteq> [] \<Longrightarrow> Join (w # ws) sep = w @ sep @ Join ws sep"
  by (cases ws) auto

lemma set_Join: "set (Join ws sep) \<subseteq> \<Union> (set ` set ws) \<union> set sep"
  by (induction ws sep rule: Join.induct) auto

lemma splitOn_pieces: "w \<in> set (splitOn p xs) \<Longrightarrow> x \<in> set w \<Longrightarrow> x \<in> set xs \<and> \<not> p x"
proof (induction xs arbitrary: w)
  case (Cons a xs)
  obtain v vs where "splitOn p xs = v # vs" by (cases "splitOn p xs") auto
  then show ?case using Cons.IH [of v] Cons.IH [of w] Cons.prems by (auto split: if_splits)
qed simp

lemma splitOn_cong: "(\<And>x. x \<in> set xs \<Longrightarrow> p x = q x) \<Longrightarrow> splitOn p xs = splitOn q xs"
  by (induction xs) auto

lemma Join_splitOn: "Join (splitOn (\<lambda>x. x = c) xs) [c] = xs"
proof (induction xs)
  case (Cons x xs)
  then show ?case
    by (cases "splitOn (\<lambda>x. x = c) xs") (auto simp: Join_Cons, case_tac list, auto)
qed simp

text \<open>A piece of a joined text stands between two separators, if one puts separators around the text.\<close>

lemma Join_piece: "w \<in> set ws \<Longrightarrow> \<exists>u v. c # Join ws [c] @ [c] = u @ (c # w @ [c]) @ v"
proof (induction ws)
  case (Cons w' ws)
  show ?case
  proof (cases "w \<in> set ws")
    case True
    then obtain u v where "c # Join ws [c] @ [c] = u @ (c # w @ [c]) @ v" using Cons by blast
    then have "c # Join (w' # ws) [c] @ [c] = (c # w' @ u) @ (c # w @ [c]) @ v" using True by (subst Join_Cons) auto
    then show ?thesis by blast
  next
    case False
    then have "c # Join (w' # ws) [c] @ [c] = [] @ (c # w @ [c]) @ (if ws = [] then [] else Join ws [c] @ [c])"
      using Cons.prems by (auto simp: Join_Cons)
    then show ?thesis by blast
  qed
qed simp

lemma successively_Join:
  "ws \<noteq> [] \<Longrightarrow> \<forall>w \<in> set ws. successively R (c # w @ [c]) \<Longrightarrow> successively R (c # Join ws [c] @ [c])"
proof (induction ws)
  case (Cons w ws)
  have w: "successively R ((c # w) @ [c])" using Cons.prems by simp
  show ?case
  proof (cases "ws = []")
    case False
    then have "c # Join (w # ws) [c] @ [c] = (c # w) @ (c # Join ws [c] @ [c])" by (simp add: Join_Cons)
    then show ?thesis using w Cons False by (simp only: successively_append_iff) simp
  qed (use w in simp)
qed simp

lemma successively_piece:
  "successively R (c # xs @ [c]) \<Longrightarrow> w \<in> set (splitOn (\<lambda>x. x = c) xs) \<Longrightarrow> successively R (c # w @ [c])"
proof -
  assume R: "successively R (c # xs @ [c])" and w: "w \<in> set (splitOn (\<lambda>x. x = c) xs)"
  obtain u v where "c # xs @ [c] = u @ (c # w @ [c]) @ v" using Join_piece [OF w, of c] by (auto simp: Join_splitOn)
  then show "successively R (c # w @ [c])" using R by (simp only: successively_append_iff)
qed

section \<open>Tidy text\<close>

text \<open>White space is a blank or a line end, and blanks are single and inside lines.\<close>

definition apart :: "rune \<Rightarrow> rune \<Rightarrow> bool" where
  "apart a b \<longleftrightarrow> \<not> (a = 0x20 \<and> IsSpace b) \<and> \<not> (IsSpace a \<and> b = 0x20)"

definition okText :: "rune list \<Rightarrow> bool" where
  "okText rs \<longleftrightarrow> successively apart rs \<and>
     (\<forall>r \<in> set rs. scalar r \<and> r \<noteq> RuneError \<and> (IsSpace r \<longrightarrow> r = 0x20 \<or> r = 0x0A) \<and> (IsControl r \<longrightarrow> r = 0x0A))"

definition tidy :: "rune list \<Rightarrow> bool" where
  "tidy rs \<longleftrightarrow> okText rs \<and> successively apart (0x0A # rs @ [0x0A])"

lemma space_chars [simp]: "IsSpace 0x20" "IsSpace 0x0A" "\<not> IsControl 0x20" "IsControl 0x0A"
  by (simp_all add: IsSpace_def IsControl_def)

lemma apart_line [simp]: "apart 10 10" "apart 10 b \<longleftrightarrow> b \<noteq> 0x20" "apart a 10 \<longleftrightarrow> a \<noteq> 0x20"
  by (auto simp: apart_def IsSpace_def)

lemma line_folded:
  assumes "okText w" "successively apart (0x0A # w @ [0x0A])" "0x0A \<notin> set w"
  shows "Join (Fields w) [0x20] = w"
proof (cases "w = []")
  case False
  have sp: "\<And>r. r \<in> set w \<Longrightarrow> IsSpace r \<longleftrightarrow> r = 0x20" using assms(1,3) by (auto simp: okText_def)
  have "apart 0x20 (hd w)" "apart (last w) 0x20"
    using assms(2) False sp hd_in_set [OF False] last_in_set [OF False]
    by (auto simp: successively_Cons successively_append_iff apart_def [of "0x20"] apart_def [of _ "0x20"])
  then have "successively apart (0x20 # w @ [0x20])"
    using assms(2) False by (auto simp: successively_Cons successively_append_iff)
  then have "[] \<notin> set (splitOn (\<lambda>r. r = 0x20) w)"
    using successively_piece [of apart "0x20" w "[]"] by (auto simp: apart_def)
  then have "Fields w = splitOn (\<lambda>r. r = 0x20) w"
    unfolding Fields_def using splitOn_cong [of w IsSpace "\<lambda>r. r = 0x20"] sp by (auto intro!: filter_True)
  then show ?thesis by (simp add: Join_splitOn)
qed (simp add: Fields_def)

lemma okText_append: "okText (u @ v) \<Longrightarrow> okText u \<and> okText v"
  by (auto simp: okText_def successively_append_iff)

lemma tidy_folded:
  assumes "tidy rs"
  shows "foldLines rs = rs"
proof -
  have "Join (Fields w) [0x20] = w" if w: "w \<in> set (splitOn (\<lambda>r. r = 0x0A) rs)" for w
  proof (rule line_folded)
    show "successively apart (0x0A # w @ [0x0A])" using assms successively_piece [OF _ w] by (simp add: tidy_def)
    then have "successively apart w" by (auto simp: successively_Cons successively_append_iff)
    then show "okText w" using assms splitOn_pieces [OF w] by (auto simp: tidy_def okText_def)
    show "0x0A \<notin> set w" using splitOn_pieces [OF w] by auto
  qed
  then have "map (\<lambda>line. Join (Fields line) [0x20]) (splitOn (\<lambda>r. r = 0x0A) rs) = splitOn (\<lambda>r. r = 0x0A) rs"
    by (intro map_idI)
  then show ?thesis by (simp add: foldLines_def Join_splitOn)
qed

section \<open>Folding lines makes text tidy\<close>

definition clean :: "rune list \<Rightarrow> bool" where
  "clean rs \<longleftrightarrow> (\<forall>r \<in> set rs. scalar r \<and> r \<noteq> RuneError \<and> (IsControl r \<longrightarrow> r = 0x0A))"

lemma clean_runes: "clean (concat (map cleanRune (decodeString s)))"
  using runesOf_scalar [of "map of_char s"] of_char_nonneg
  by (auto simp: clean_def cleanRune_def decodeString_def scalar_def RuneError_def IsControl_def split: if_splits)

lemma word_apart:
  assumes "w \<noteq> []" "\<forall>r \<in> set w. \<not> IsSpace r"
  shows "successively apart (0x20 # w @ [0x20])"
proof -
  have "successively apart w" using assms(2)
    by (induction w rule: induct_list012) (auto simp: apart_def)
  moreover have "\<not> IsSpace (hd w)" "\<not> IsSpace (last w)" using assms by simp_all
  then have "apart 0x20 (hd w)" "apart (last w) 0x20" by (auto simp: apart_def)
  ultimately show ?thesis using assms(1) by (simp add: successively_Cons successively_append_iff)
qed

lemma field_chars: "f \<in> set (Fields rs) \<Longrightarrow> f \<noteq> [] \<and> (\<forall>r \<in> set f. r \<in> set rs \<and> \<not> IsSpace r)"
  by (auto simp: Fields_def dest: splitOn_pieces)

lemma folded_line_apart: "successively apart (0x0A # Join (Fields line) [0x20] @ [0x0A])"
proof (cases "Join (Fields line) [0x20] = []")
  case False
  let ?l = "Join (Fields line) [0x20]"
  have ne: "Fields line \<noteq> []" using False by auto
  have "successively apart (0x20 # ?l @ [0x20])"
    by (rule successively_Join [OF ne]) (use field_chars in \<open>blast intro: word_apart\<close>)
  then show ?thesis using False by (auto simp: successively_Cons successively_append_iff apart_def)
qed simp

lemma folded_line_set: "r \<in> set (Join (Fields line) [0x20]) \<Longrightarrow> r = 0x20 \<or> r \<in> set line \<and> \<not> IsSpace r"
  using set_Join [of "Fields line" "[0x20]"] field_chars [of _ line] by fastforce

lemma tidy_foldLines:
  assumes "clean rs"
  shows "tidy (foldLines rs)"
proof -
  let ?lines = "map (\<lambda>line. Join (Fields line) [0x20]) (splitOn (\<lambda>r. r = 0x0A) rs)"
  have "successively apart (0x0A # Join ?lines [0x0A] @ [0x0A])"
    by (rule successively_Join) (auto simp: folded_line_apart)
  then have s: "successively apart (0x0A # foldLines rs @ [0x0A])" by (simp add: foldLines_def)
  have "r = 0x0A \<or> r = 0x20 \<or> r \<in> set rs \<and> r \<noteq> 0x0A \<and> \<not> IsSpace r" if "r \<in> set (foldLines rs)" for r
  proof -
    have "r = 0x0A \<or> (\<exists>line \<in> set (splitOn (\<lambda>r. r = 0x0A) rs). r \<in> set (Join (Fields line) [0x20]))"
      using that set_Join [of ?lines "[0x0A]"] by (auto simp: foldLines_def)
    then show ?thesis using folded_line_set [of r] splitOn_pieces [of _ "\<lambda>r. r = 0x0A" rs r] by auto
  qed
  then have "\<forall>r \<in> set (foldLines rs). scalar r \<and> r \<noteq> RuneError \<and> (IsSpace r \<longrightarrow> r = 0x20 \<or> r = 0x0A) \<and> (IsControl r \<longrightarrow> r = 0x0A)"
    using assms by (fastforce simp: clean_def scalar_def RuneError_def)
  moreover have "successively apart (foldLines rs)" using s by (auto simp: successively_Cons successively_append_iff)
  ultimately show ?thesis using s by (simp add: tidy_def okText_def)
qed

section \<open>Trimming\<close>

lemma trim_parts: obtains u v where "rs = u @ trimRunes rs @ v"
proof -
  have "rs = takeWhile IsSpace rs @ dropWhile IsSpace rs" by simp
  moreover have "dropWhile IsSpace rs = trimRunes rs @ rev (takeWhile IsSpace (rev (dropWhile IsSpace rs)))"
    unfolding trimRunes_def by (metis rev_append rev_rev_ident takeWhile_dropWhile_id)
  ultimately show thesis using that by metis
qed

lemma trim_ends:
  assumes "trimRunes rs \<noteq> []"
  shows "\<not> IsSpace (hd (trimRunes rs))" "\<not> IsSpace (last (trimRunes rs))"
proof -
  let ?d = "dropWhile IsSpace rs"
  have d: "dropWhile IsSpace (rev ?d) \<noteq> []" using assms by (simp add: trimRunes_def)
  then show "\<not> IsSpace (last (trimRunes rs))"
    using hd_dropWhile [of IsSpace "rev ?d"] by (simp add: trimRunes_def last_rev dropWhile_eq_Nil_conv)
  have ne: "?d \<noteq> []" using assms unfolding trimRunes_def by (metis dropWhile.simps(1) rev.simps(1))
  have "?d = trimRunes rs @ rev (takeWhile IsSpace (rev ?d))"
    unfolding trimRunes_def by (metis rev_append rev_rev_ident takeWhile_dropWhile_id)
  then have "hd (trimRunes rs) = hd ?d" using assms by (metis hd_append2)
  then show "\<not> IsSpace (hd (trimRunes rs))" using hd_dropWhile [of IsSpace rs] ne by (simp add: dropWhile_eq_Nil_conv)
qed

lemma trim_id: "rs = [] \<or> \<not> IsSpace (hd rs) \<and> \<not> IsSpace (last rs) \<Longrightarrow> trimRunes rs = rs"
  by (cases rs; cases "rev rs") (auto simp: trimRunes_def last_rev [symmetric] hd_rev dest: arg_cong [of _ _ hd])

lemma trim_trim [simp]: "trimRunes (trimRunes rs) = trimRunes rs"
  by (rule trim_id) (use trim_ends in blast)

lemma tidy_trim:
  assumes "okText rs"
  shows "tidy (trimRunes rs)"
proof -
  obtain u v where "rs = u @ trimRunes rs @ v" by (rule trim_parts)
  then have ok: "okText (trimRunes rs)" using okText_append assms by metis
  show ?thesis
  proof (cases "trimRunes rs = []")
    case False
    then have "hd (trimRunes rs) \<noteq> 0x20" "last (trimRunes rs) \<noteq> 0x20" using trim_ends [OF False] by auto
    then show ?thesis using ok False by (simp add: tidy_def okText_def successively_Cons successively_append_iff)
  qed (use ok in \<open>simp add: tidy_def\<close>)
qed

lemma tidy_ok: "tidy rs \<Longrightarrow> okText rs" by (simp add: tidy_def)

lemma ok_drop: "okText rs \<Longrightarrow> okText (drop n rs)"
  using okText_append [of "take n rs" "drop n rs"] by simp

lemma ok_dropWhile: "okText rs \<Longrightarrow> okText (dropWhile p rs)"
  using okText_append [of "takeWhile p rs" "dropWhile p rs"] by simp

lemma ok_tl: "okText rs \<Longrightarrow> okText (tl rs)"
  using ok_drop [of rs 1] by (simp add: drop_Suc)

section \<open>Normalization is idempotent\<close>

lemma ReplaceAll_absent: "c \<in> set old \<Longrightarrow> c \<notin> set s \<Longrightarrow> ReplaceAll old new s = s"
proof (induction s)
  case (Cons a s)
  then have "\<not> prefix old (a # s)" using set_mono_prefix [of old "a # s"] by auto
  then show ?case using Cons by (subst ReplaceAll.simps) auto
qed (simp add: ReplaceAll.simps)

definition cutTail :: "rune list \<Rightarrow> int \<Rightarrow> rune list" where
  "cutTail rs maxChars =
     (if maxChars \<le> 0 \<or> int (length rs) \<le> maxChars then rs
      else let tail = drop (length rs - nat maxChars) rs; rest = dropWhile (\<lambda>r. r \<noteq> 0x0A) tail
           in trimRunes (if 1 < length rest then tl rest else tail))"

lemma Normalize_eq:
  "NormalizePreviewText raw n = encodeString (cutTail (trimRunes (foldLines (concat (map cleanRune
     (decodeString (ReplaceAll [CHR 0x0D] [CHR 0x0A] (ReplaceAll [CHR 0x0D, CHR 0x0A] [CHR 0x0A] raw))))))) n)"
  by (simp add: NormalizePreviewText_def cutTail_def Let_def)

text \<open>What normalization leaves alone.\<close>

definition normalText :: "int \<Rightarrow> rune list \<Rightarrow> bool" where
  "normalText n rs \<longleftrightarrow> tidy rs \<and> trimRunes rs = rs \<and> (n \<le> 0 \<or> int (length rs) \<le> n)"

lemma trim_length: "length (trimRunes rs) \<le> length rs"
proof -
  obtain u v where "rs = u @ trimRunes rs @ v" by (rule trim_parts)
  then show ?thesis by (metis length_append le_add1 le_add2 le_trans)
qed

lemma cut_normal:
  assumes "tidy rs" "trimRunes rs = rs"
  shows "normalText n (cutTail rs n)"
proof (cases "n \<le> 0 \<or> int (length rs) \<le> n")
  case False
  define tail where "tail = drop (length rs - nat n) rs"
  define rest where "rest = dropWhile (\<lambda>r. r \<noteq> 0x0A) tail"
  let ?t = "if 1 < length rest then tl rest else tail"
  have "okText tail" using assms(1) by (auto simp: tail_def intro: ok_drop tidy_ok)
  then have ok: "okText ?t" by (auto simp: rest_def intro: ok_tl ok_dropWhile)
  have "nat n \<le> length rs" using False by linarith
  then have "length tail = nat n" by (simp add: tail_def)
  moreover have "length rest \<le> length tail" unfolding rest_def by (rule length_dropWhile_le)
  ultimately have "length ?t \<le> nat n" by auto
  then have "int (length (trimRunes ?t)) \<le> n" using trim_length [of ?t] False by linarith
  moreover have "cutTail rs n = trimRunes ?t" using False by (simp add: cutTail_def tail_def rest_def Let_def)
  ultimately show ?thesis using tidy_trim [OF ok] by (simp add: normalText_def)
qed (use assms in \<open>auto simp: normalText_def cutTail_def\<close>)

lemma concat_singletons: "\<forall>r \<in> set rs. f r = [r] \<Longrightarrow> concat (map f rs) = rs"
  by (induction rs) auto

lemma clean_id:
  assumes "okText rs"
  shows "concat (map cleanRune rs) = rs"
proof -
  have "cleanRune r = [r]" if "r \<in> set rs" for r
  proof -
    have "r \<noteq> RuneError" "IsControl r \<longrightarrow> r = 0x0A" using assms that unfolding okText_def by blast+
    moreover have "r \<noteq> 0x09" using calculation(2) by (auto simp: IsControl_def)
    ultimately show ?thesis unfolding cleanRune_def by (cases "r = 0x0A") (simp_all only: if_True if_False simp_thms)
  qed
  then show ?thesis by (intro concat_singletons) blast
qed

lemma normal_fixed:
  assumes "normalText n rs"
  shows "NormalizePreviewText (encodeString rs) n = encodeString rs"
proof -
  have ok: "okText rs" using assms by (simp add: normalText_def tidy_ok)
  then have sc: "\<forall>r \<in> set rs. scalar r" unfolding okText_def by blast
  have "IsControl 0x0D" by (simp add: IsControl_def)
  then have "0x0D \<notin> set rs" using ok unfolding okText_def by fastforce
  moreover have "char_of (0x0D :: int) = CHR 0x0D" by code_simp
  ultimately have "CHR 0x0D \<notin> set (encodeString rs)" using encode_ascii [OF sc, of "0x0D"] by simp
  then have "ReplaceAll [CHR 0x0D] [CHR 0x0A] (ReplaceAll [CHR 0x0D, CHR 0x0A] [CHR 0x0A] (encodeString rs)) = encodeString rs"
    by (simp add: ReplaceAll_absent [of "CHR 0x0D"])
  then show ?thesis using assms
    by (auto simp: Normalize_eq decode_encode [OF sc] clean_id [OF ok] normalText_def tidy_folded cutTail_def)
qed

lemma Normalize_normal:
  obtains rs where "NormalizePreviewText raw n = encodeString rs" "normalText n rs"
  using cut_normal [OF tidy_trim [OF tidy_ok [OF tidy_foldLines [OF clean_runes]]] trim_trim] Normalize_eq by blast

text \<open>
  C33. The preview text is normal: it has at most the characters asked for, no control character but line ends, no
  blank at the edge of a line or next to another one and no other white space, no white space at its ends, and
  normalizing it again changes nothing (the session process and the broker both normalize).
\<close>

theorem preview_text_normal:
  "let rs = decodeString (NormalizePreviewText raw n)
   in (n \<le> 0 \<or> int (length rs) \<le> n) \<and>
      (\<forall>r \<in> set rs. r \<noteq> RuneError \<and> (IsControl r \<longrightarrow> r = 0x0A) \<and> (IsSpace r \<longrightarrow> r = 0x20 \<or> r = 0x0A)) \<and>
      successively (\<lambda>a b. \<not> (a = 0x20 \<and> IsSpace b) \<and> \<not> (IsSpace a \<and> b = 0x20)) rs \<and>
      (rs \<noteq> [] \<longrightarrow> \<not> IsSpace (hd rs) \<and> \<not> IsSpace (last rs)) \<and>
      NormalizePreviewText (NormalizePreviewText raw n) n = NormalizePreviewText raw n"
proof -
  obtain rs where rs: "NormalizePreviewText raw n = encodeString rs" "normalText n rs" by (rule Normalize_normal)
  then have ok: "okText rs" by (simp add: normalText_def tidy_ok)
  then have d: "decodeString (encodeString rs) = rs" by (intro decode_encode) (simp add: okText_def)
  have "rs \<noteq> [] \<longrightarrow> \<not> IsSpace (hd rs) \<and> \<not> IsSpace (last rs)"
    using trim_ends [of rs] rs(2) by (auto simp: normalText_def)
  moreover have "successively (\<lambda>a b. \<not> (a = 0x20 \<and> IsSpace b) \<and> \<not> (IsSpace a \<and> b = 0x20)) rs"
    using ok unfolding okText_def apart_def [abs_def] by blast
  moreover have "\<forall>r \<in> set rs. r \<noteq> RuneError \<and> (IsControl r \<longrightarrow> r = 0x0A) \<and> (IsSpace r \<longrightarrow> r = 0x20 \<or> r = 0x0A)"
    using ok unfolding okText_def by blast
  moreover have "n \<le> 0 \<or> int (length rs) \<le> n" using rs(2) by (simp add: normalText_def)
  ultimately show ?thesis unfolding Let_def rs(1) normal_fixed [OF rs(2)] d by blast
qed

theorem preview_text_normal_witness:
  "NormalizePreviewText (NormalizePreviewText [CHR ''a'', CHR 0x0D, CHR 0x0A, CHR 0x09, CHR ''b'', CHR 0xC2, CHR 0xA0, CHR ''c''] 4) 4 = ''b c''"
proof -
  have w: "NormalizePreviewText [CHR ''a'', CHR 0x0D, CHR 0x0A, CHR 0x09, CHR ''b'', CHR 0xC2, CHR 0xA0, CHR ''c''] 4 = ''b c''"
    by code_simp
  have idem: "NormalizePreviewText (NormalizePreviewText raw 4) 4 = NormalizePreviewText raw 4" for raw
    using preview_text_normal [of raw 4] unfolding Let_def by (elim conjE)
  show ?thesis unfolding idem by (rule w)
qed

end
