(* ===== verification/Broker_Model.thy ===== *)
theory Broker_Model
  imports Preview_Text
begin

text \<open>
  The daemon's session broker (\<open>internal/tunnel/daemon/broker.go\<close>): the sessions that local agents
  registered over the broker's socket, who may type into them, and the subscribers that follow them. A
  section that holds the broker's mutex is one definition; \<open>emit\<close> runs after it, without the mutex, and is
  a definition of its own, so that other goroutines can be placed between the two. The receiver of every
  method is a broker that is not \<open>nil\<close>. Output bytes and snapshots are byte strings; a \<open>*brokerConnection\<close> is its
  address with its \<open>conn\<close> (which is never assigned again), and \<open>None\<close> is \<open>nil\<close>; an interactive owner is an
  address.
\<close>

section \<open>Data\<close>

definition brokerFrameRegisterSession :: string where "brokerFrameRegisterSession = ''register_session''"
definition brokerFrameRegisterAck :: string where "brokerFrameRegisterAck = ''register_ack''"
definition brokerFrameSessionUpdate :: string where "brokerFrameSessionUpdate = ''session_update''"
definition brokerFramePreviewUpdate :: string where "brokerFramePreviewUpdate = ''preview_update''"
definition brokerFrameSnapshotUpdate :: string where "brokerFrameSnapshotUpdate = ''snapshot_update''"
definition brokerFrameOutputBytes :: string where "brokerFrameOutputBytes = ''output_bytes''"
definition brokerFrameSessionGone :: string where "brokerFrameSessionGone = ''session_gone''"
definition brokerFrameStopSession :: string where "brokerFrameStopSession = ''stop_session''"
definition brokerFrameInputText :: string where "brokerFrameInputText = ''input_text''"
definition brokerFrameInputKey :: string where "brokerFrameInputKey = ''input_key''"
definition brokerFrameResize :: string where "brokerFrameResize = ''resize''"

datatype BrokerEventType =
  BrokerEventSessionUpsert | BrokerEventSessionGone | BrokerEventPreview | BrokerEventOutput | BrokerEventOutputOverflow

datatype brokerError =
  ErrBrokerSessionUnavailable | ErrBrokerInteractiveBusy | ErrBrokerInteractiveNotGranted | ErrBrokerWrite

record BrokerSession =
  bs_SessionID :: string
  bs_DeviceID :: string
  bs_Launcher :: string
  bs_Label :: string
  bs_CWD :: string
  bs_CommandPreview :: string
  bs_GitBranch :: string
  bs_StartedAt :: int
  bs_UpdatedAt :: int
  bs_Online :: bool
  bs_PlatformFamily :: string
  bs_PlatformID :: string
  bs_ComputerName :: string
  bs_LaunchSource :: string

record BrokerSessionSnapshot =
  sn_BrokerSession :: BrokerSession
  sn_LatestPreview :: string
  sn_LatestSnapshot :: string
  sn_SnapshotCols :: int
  sn_SnapshotRows :: int

record BrokerEvent =
  ev_Type :: BrokerEventType
  ev_Session :: BrokerSessionSnapshot
  ev_SessionID :: string
  ev_Output :: string

record BrokerFrame =
  bf_Type :: string
  bf_SessionID :: string
  bf_Session :: "BrokerSession option"
  bf_Preview :: string
  bf_Output :: string
  bf_Snapshot :: string
  bf_SnapshotCols :: int
  bf_SnapshotRows :: int
  bf_UpdatedAt :: int
  bf_Text :: string
  bf_Submit :: bool
  bf_Key :: string
  bf_Cols :: int
  bf_Rows :: int

record brokerConnection =
  bc_addr :: nat
  bc_conn :: "nat option"

record brokerSessionState =
  st_session :: BrokerSession
  st_latestPreview :: string
  st_latestSnapshot :: string
  st_snapshotCols :: int
  st_snapshotRows :: int
  st_owner :: "brokerConnection option"

text \<open>The channel of a subscriber is a queue of at most \<open>subscriberBuffer\<close> events.\<close>

record brokerSubscriber =
  sb_ch :: "BrokerEvent list"
  sb_done :: bool

text \<open>
  \<open>bk_subscribers\<close> is the broker's set of subscribers, \<open>bk_heap\<close> the subscriber objects: one that was taken out
  of the set can still be reached by an \<open>emit\<close> that read the set before.
\<close>

record Broker =
  bk_sessions :: "(string, brokerSessionState) gomap"
  bk_interactiveOwners :: "(string, nat) gomap"
  bk_subscribers :: "(nat, unit) gomap"
  bk_heap :: "(nat, brokerSubscriber) gomap"
  bk_nextPtr :: nat

datatype beffect = BClose nat | BWrite nat BrokerFrame

definition zeroBrokerSession :: BrokerSession where
  "zeroBrokerSession = \<lparr>bs_SessionID = [], bs_DeviceID = [], bs_Launcher = [], bs_Label = [], bs_CWD = [],
     bs_CommandPreview = [], bs_GitBranch = [], bs_StartedAt = 0, bs_UpdatedAt = 0, bs_Online = False,
     bs_PlatformFamily = [], bs_PlatformID = [], bs_ComputerName = [], bs_LaunchSource = []\<rparr>"

definition zeroSnapshot :: BrokerSessionSnapshot where
  "zeroSnapshot = \<lparr>sn_BrokerSession = zeroBrokerSession, sn_LatestPreview = [], sn_LatestSnapshot = [],
     sn_SnapshotCols = 0, sn_SnapshotRows = 0\<rparr>"

definition zeroSessionState :: brokerSessionState where
  "zeroSessionState = \<lparr>st_session = zeroBrokerSession, st_latestPreview = [], st_latestSnapshot = [],
     st_snapshotCols = 0, st_snapshotRows = 0, st_owner = None\<rparr>"

definition zeroBrokerFrame :: BrokerFrame where
  "zeroBrokerFrame = \<lparr>bf_Type = [], bf_SessionID = [], bf_Session = None, bf_Preview = [], bf_Output = [],
     bf_Snapshot = [], bf_SnapshotCols = 0, bf_SnapshotRows = 0, bf_UpdatedAt = 0, bf_Text = [], bf_Submit = False,
     bf_Key = [], bf_Cols = 0, bf_Rows = 0\<rparr>"

definition NewBroker :: Broker where
  "NewBroker = \<lparr>bk_sessions = [], bk_interactiveOwners = [], bk_subscribers = [], bk_heap = [], bk_nextPtr = 0\<rparr>"

section \<open>Snapshots\<close>

definition brokerSessionSnapshot :: "brokerSessionState \<Rightarrow> BrokerSessionSnapshot" where
  "brokerSessionSnapshot state =
     \<lparr>sn_BrokerSession = st_session state, sn_LatestPreview = st_latestPreview state,
      sn_LatestSnapshot = st_latestSnapshot state, sn_SnapshotCols = st_snapshotCols state,
      sn_SnapshotRows = st_snapshotRows state\<rparr>"

definition brokerSessionMetadataSnapshot :: "brokerSessionState \<Rightarrow> BrokerSessionSnapshot" where
  "brokerSessionMetadataSnapshot state =
     \<lparr>sn_BrokerSession = st_session state, sn_LatestPreview = st_latestPreview state, sn_LatestSnapshot = [],
      sn_SnapshotCols = st_snapshotCols state, sn_SnapshotRows = st_snapshotRows state\<rparr>"

definition normalizeBrokerSession :: "clock \<Rightarrow> BrokerSession \<Rightarrow> BrokerSession" where
  "normalizeBrokerSession clk session =
     \<lparr>bs_SessionID = TrimSpace (bs_SessionID session), bs_DeviceID = TrimSpace (bs_DeviceID session),
      bs_Launcher = TrimSpace (bs_Launcher session), bs_Label = TrimSpace (bs_Label session),
      bs_CWD = TrimSpace (bs_CWD session), bs_CommandPreview = TrimSpace (bs_CommandPreview session),
      bs_GitBranch = TrimSpace (bs_GitBranch session), bs_StartedAt = bs_StartedAt session,
      bs_UpdatedAt = (if bs_UpdatedAt session \<le> 0 then time_Unix (clk 0) else bs_UpdatedAt session),
      bs_Online = True, bs_PlatformFamily = TrimSpace (bs_PlatformFamily session),
      bs_PlatformID = TrimSpace (bs_PlatformID session), bs_ComputerName = TrimSpace (bs_ComputerName session),
      bs_LaunchSource = TrimSpace (bs_LaunchSource session)\<rparr>"

definition Snapshot :: "Broker \<Rightarrow> BrokerSessionSnapshot list" where
  "Snapshot b = map (brokerSessionMetadataSnapshot \<circ> snd) (bk_sessions b)"

definition SessionList :: "Broker \<Rightarrow> BrokerSessionSnapshot list" where
  "SessionList b = map (\<lambda>(_, state). zeroSnapshot\<lparr>sn_BrokerSession := st_session state\<rparr>) (bk_sessions b)"

definition SnapshotBySession :: "string \<Rightarrow> Broker \<Rightarrow> BrokerSessionSnapshot option" where
  "SnapshotBySession sessionID0 b =
     (let sessionID = TrimSpace sessionID0
      in if sessionID = [] then None
         else map_option brokerSessionSnapshot (gm_get (bk_sessions b) sessionID))"

definition HasSession_broker :: "string \<Rightarrow> Broker \<Rightarrow> bool" where
  "HasSession_broker sessionID0 b =
     (let sessionID = TrimSpace sessionID0
      in sessionID \<noteq> [] \<and> gm_get (bk_sessions b) sessionID \<noteq> None)"

section \<open>Subscribers\<close>

definition subscriberBuffer :: nat where "subscriberBuffer = 32"

definition Subscribe :: "Broker \<Rightarrow> nat \<times> Broker" where
  "Subscribe b =
     (let sub = bk_nextPtr b
      in (sub, b\<lparr>bk_heap := gm_put sub \<lparr>sb_ch = [], sb_done = False\<rparr> (bk_heap b),
                 bk_subscribers := gm_put sub () (bk_subscribers b), bk_nextPtr := Suc sub\<rparr>))"

definition SnapshotAndSubscribe :: "Broker \<Rightarrow> BrokerSessionSnapshot list \<times> nat \<times> Broker" where
  "SnapshotAndSubscribe b = (map (brokerSessionSnapshot \<circ> snd) (bk_sessions b), Subscribe b)"

definition SnapshotMetadataAndSubscribe :: "Broker \<Rightarrow> BrokerSessionSnapshot list \<times> nat \<times> Broker" where
  "SnapshotMetadataAndSubscribe b = (map (brokerSessionMetadataSnapshot \<circ> snd) (bk_sessions b), Subscribe b)"

text \<open>The \<open>cancel\<close> function of a subscription: it closes \<open>done\<close> once, then takes the subscriber out of the set.\<close>

definition cancelSubscription :: "nat \<Rightarrow> Broker \<Rightarrow> Broker" where
  "cancelSubscription sub b =
     (case gm_get (bk_heap b) sub of
        None \<Rightarrow> b
      | Some s \<Rightarrow> b\<lparr>bk_heap := gm_put sub (s\<lparr>sb_done := True\<rparr>) (bk_heap b),
                    bk_subscribers := gm_del sub (bk_subscribers b)\<rparr>)"

text \<open>
  The selects of \<open>enqueue\<close>. \<open>pickDone\<close> says which case runs when \<open>done\<close> is closed and the channel operation
  is ready too.
\<close>

datatype selectOutcome = CaseDone | CaseChannel | CaseDefault

definition selectSend :: "bool \<Rightarrow> BrokerEvent \<Rightarrow> brokerSubscriber \<Rightarrow> selectOutcome \<times> brokerSubscriber" where
  "selectSend pickDone event sub =
     (let ready = length (sb_ch sub) < subscriberBuffer
      in if sb_done sub \<and> (pickDone \<or> \<not> ready) then (CaseDone, sub)
         else if ready then (CaseChannel, sub\<lparr>sb_ch := sb_ch sub @ [event]\<rparr>)
         else (CaseDefault, sub))"

definition selectReceive :: "bool \<Rightarrow> brokerSubscriber \<Rightarrow> selectOutcome \<times> brokerSubscriber" where
  "selectReceive pickDone sub =
     (let ready = sb_ch sub \<noteq> []
      in if sb_done sub \<and> (pickDone \<or> \<not> ready) then (CaseDone, sub)
         else if ready then (CaseChannel, sub\<lparr>sb_ch := tl (sb_ch sub)\<rparr>)
         else (CaseDefault, sub))"

text \<open>\<open>others i\<close> is what other goroutines do to the subscriber after the \<open>i\<close>-th select.\<close>

definition enqueue ::
    "(nat \<Rightarrow> bool) \<Rightarrow> (nat \<Rightarrow> brokerSubscriber \<Rightarrow> brokerSubscriber) \<Rightarrow> BrokerEvent \<Rightarrow> brokerSubscriber
      \<Rightarrow> brokerSubscriber" where
  "enqueue pick others event sub =
     (case selectSend (pick 0) event sub of
        (CaseDefault, s1) \<Rightarrow>
          if ev_Type event = BrokerEventPreview then s1
          else
            let event1 = (if ev_Type event = BrokerEventOutput
                  then \<lparr>ev_Type = BrokerEventOutputOverflow, ev_Session = zeroSnapshot,
                        ev_SessionID = ev_SessionID event, ev_Output = []\<rparr>
                  else event)
            in (case selectReceive (pick 1) (others 0 s1) of
                  (CaseDone, s2) \<Rightarrow> s2
                | (_, s2) \<Rightarrow> snd (selectSend (pick 2) event1 (others 1 s2)))
      | (_, s1) \<Rightarrow> s1)"

definition enqueueAt ::
    "(nat \<Rightarrow> bool) \<Rightarrow> (nat \<Rightarrow> brokerSubscriber \<Rightarrow> brokerSubscriber) \<Rightarrow> BrokerEvent \<Rightarrow> nat \<Rightarrow> Broker \<Rightarrow> Broker" where
  "enqueueAt pick others event sub b =
     (case gm_get (bk_heap b) sub of
        None \<Rightarrow> b
      | Some s \<Rightarrow> b\<lparr>bk_heap := gm_put sub (enqueue pick others event s) (bk_heap b)\<rparr>)"

definition emit ::
    "(nat \<Rightarrow> bool) \<Rightarrow> (nat \<Rightarrow> brokerSubscriber \<Rightarrow> brokerSubscriber) \<Rightarrow> BrokerEvent \<Rightarrow> Broker \<Rightarrow> Broker" where
  "emit pick others event b = fold (\<lambda>(sub, _). enqueueAt pick others event sub) (bk_subscribers b) b"

text \<open>A subscriber's receive from its channel.\<close>

definition receive :: "nat \<Rightarrow> Broker \<Rightarrow> BrokerEvent option \<times> Broker" where
  "receive sub b =
     (case gm_get (bk_heap b) sub of
        None \<Rightarrow> (None, b)
      | Some s \<Rightarrow>
          (case sb_ch s of
             [] \<Rightarrow> (None, b)
           | event # rest \<Rightarrow> (Some event, b\<lparr>bk_heap := gm_put sub (s\<lparr>sb_ch := rest\<rparr>) (bk_heap b)\<rparr>)))"

section \<open>Sessions\<close>

definition upsertEvent :: "string \<Rightarrow> brokerSessionState \<Rightarrow> BrokerEvent" where
  "upsertEvent sessionID state =
     \<lparr>ev_Type = BrokerEventSessionUpsert, ev_Session = brokerSessionMetadataSnapshot state,
      ev_SessionID = sessionID, ev_Output = []\<rparr>"

definition goneEvent :: "string \<Rightarrow> BrokerEvent" where
  "goneEvent sessionID =
     \<lparr>ev_Type = BrokerEventSessionGone, ev_Session = zeroSnapshot, ev_SessionID = sessionID, ev_Output = []\<rparr>"

text \<open>
  The sections of the session operations: the event to emit, if any, and the broker. \<open>register\<close> also returns the
  connection it replaced.
\<close>

definition register_locked ::
    "clock \<Rightarrow> BrokerSession \<Rightarrow> brokerConnection option \<Rightarrow> Broker
      \<Rightarrow> BrokerEvent option \<times> brokerConnection option \<times> Broker" where
  "register_locked clk session0 owner b =
     (let session = normalizeBrokerSession clk session0;
          sessionID = bs_SessionID session
      in if owner = None \<or> sessionID = [] then (None, None, b)
         else
           let existing = gm_get (bk_sessions b) sessionID;
               previous = (case existing of
                   Some st \<Rightarrow> if st_owner st \<noteq> owner then st_owner st else None
                 | None \<Rightarrow> None);
               state = (case existing of Some st \<Rightarrow> st | None \<Rightarrow> zeroSessionState)
                         \<lparr>st_session := session, st_owner := owner\<rparr>
           in (Some (upsertEvent sessionID state), previous,
               b\<lparr>bk_sessions := gm_put sessionID state (bk_sessions b)\<rparr>))"

definition updateSession_locked ::
    "clock \<Rightarrow> BrokerSession \<Rightarrow> brokerConnection option \<Rightarrow> Broker \<Rightarrow> BrokerEvent option \<times> Broker" where
  "updateSession_locked clk session0 owner b =
     (let session = normalizeBrokerSession clk session0;
          sessionID = bs_SessionID session
      in if owner = None \<or> sessionID = [] then (None, b)
         else case gm_get (bk_sessions b) sessionID of
             None \<Rightarrow> (None, b)
           | Some st \<Rightarrow>
               if st_owner st \<noteq> owner then (None, b)
               else
                 let state = st\<lparr>st_session := session\<rparr>
                 in (Some (upsertEvent sessionID state), b\<lparr>bk_sessions := gm_put sessionID state (bk_sessions b)\<rparr>))"

definition updatePreview_locked ::
    "string \<Rightarrow> string \<Rightarrow> int \<Rightarrow> brokerConnection option \<Rightarrow> Broker \<Rightarrow> BrokerEvent option \<times> Broker" where
  "updatePreview_locked sessionID0 preview updatedAt owner b =
     (let sessionID = TrimSpace sessionID0
      in if owner = None \<or> sessionID = [] then (None, b)
         else case gm_get (bk_sessions b) sessionID of
             None \<Rightarrow> (None, b)
           | Some st \<Rightarrow>
               if st_owner st \<noteq> owner then (None, b)
               else
                 let st1 = (if updatedAt > 0 then st\<lparr>st_session := (st_session st)\<lparr>bs_UpdatedAt := updatedAt\<rparr>\<rparr> else st);
                     state = st1\<lparr>st_latestPreview := NormalizePreviewText preview DefaultPreviewMaxChars\<rparr>
                 in (Some \<lparr>ev_Type = BrokerEventPreview, ev_Session = brokerSessionMetadataSnapshot state,
                           ev_SessionID = sessionID, ev_Output = []\<rparr>,
                     b\<lparr>bk_sessions := gm_put sessionID state (bk_sessions b)\<rparr>))"

definition updateSnapshot ::
    "string \<Rightarrow> string \<Rightarrow> int \<Rightarrow> int \<Rightarrow> brokerConnection option \<Rightarrow> Broker \<Rightarrow> Broker" where
  "updateSnapshot sessionID0 snapshot cols rows owner b =
     (let sessionID = TrimSpace sessionID0
      in if owner = None \<or> cols \<le> 0 \<or> rows \<le> 0 \<or> sessionID = [] then b
         else case gm_get (bk_sessions b) sessionID of
             None \<Rightarrow> b
           | Some st \<Rightarrow>
               if st_owner st \<noteq> owner then b
               else b\<lparr>bk_sessions := gm_put sessionID
                  (st\<lparr>st_latestSnapshot := snapshot, st_snapshotCols := cols, st_snapshotRows := rows\<rparr>) (bk_sessions b)\<rparr>)"

definition updateSnapshotIfPresent ::
    "string \<Rightarrow> string \<Rightarrow> int \<Rightarrow> int \<Rightarrow> brokerConnection option \<Rightarrow> Broker \<Rightarrow> Broker" where
  "updateSnapshotIfPresent sessionID snapshot cols rows owner b =
     (if snapshot = [] \<or> cols \<le> 0 \<or> rows \<le> 0 then b else updateSnapshot sessionID snapshot cols rows owner b)"

definition output_locked :: "string \<Rightarrow> string \<Rightarrow> brokerConnection option \<Rightarrow> Broker \<Rightarrow> BrokerEvent option" where
  "output_locked sessionID0 bytes owner b =
     (let sessionID = TrimSpace sessionID0
      in if owner = None \<or> bytes = [] \<or> sessionID = [] then None
         else case gm_get (bk_sessions b) sessionID of
             None \<Rightarrow> None
           | Some st \<Rightarrow>
               if st_owner st \<noteq> owner then None
               else Some \<lparr>ev_Type = BrokerEventOutput, ev_Session = zeroSnapshot, ev_SessionID = sessionID, ev_Output = bytes\<rparr>)"

definition remove_locked :: "string \<Rightarrow> brokerConnection option \<Rightarrow> Broker \<Rightarrow> BrokerEvent option \<times> Broker" where
  "remove_locked sessionID0 owner b =
     (let sessionID = TrimSpace sessionID0
      in if owner = None \<or> sessionID = [] then (None, b)
         else case gm_get (bk_sessions b) sessionID of
             None \<Rightarrow> (None, b)
           | Some st \<Rightarrow>
               if st_owner st \<noteq> owner then (None, b)
               else (Some (goneEvent sessionID),
                     b\<lparr>bk_sessions := gm_del sessionID (bk_sessions b),
                       bk_interactiveOwners := gm_del sessionID (bk_interactiveOwners b)\<rparr>))"

section \<open>Interactive use\<close>

definition GrantInteractive :: "string \<Rightarrow> nat option \<Rightarrow> Broker \<Rightarrow> brokerError option \<times> Broker" where
  "GrantInteractive sessionID0 owner b =
     (let sessionID = TrimSpace sessionID0
      in case owner of
           None \<Rightarrow> (Some ErrBrokerSessionUnavailable, b)
         | Some o1 \<Rightarrow>
             if sessionID = [] then (Some ErrBrokerSessionUnavailable, b)
             else if gm_get (bk_sessions b) sessionID = None then (Some ErrBrokerSessionUnavailable, b)
             else if gm_get (bk_interactiveOwners b) sessionID \<notin> {None, Some o1} then (Some ErrBrokerInteractiveBusy, b)
             else (None, b\<lparr>bk_interactiveOwners := gm_put sessionID o1 (bk_interactiveOwners b)\<rparr>))"

definition ReleaseInteractive :: "string \<Rightarrow> nat option \<Rightarrow> Broker \<Rightarrow> Broker" where
  "ReleaseInteractive sessionID0 owner b =
     (let sessionID = TrimSpace sessionID0
      in if sessionID = [] \<or> owner = None then b
         else if gm_get (bk_interactiveOwners b) sessionID = owner
         then b\<lparr>bk_interactiveOwners := gm_del sessionID (bk_interactiveOwners b)\<rparr>
         else b)"

definition ReleaseInteractiveOwner :: "nat option \<Rightarrow> Broker \<Rightarrow> Broker" where
  "ReleaseInteractiveOwner owner b =
     (case owner of
        None \<Rightarrow> b
      | Some o1 \<Rightarrow> b\<lparr>bk_interactiveOwners := gm_drop (\<lambda>current. current = o1) (bk_interactiveOwners b)\<rparr>)"

text \<open>\<open>ok conn frame\<close> says whether the frame can be written.\<close>

definition writeFrame :: "(nat \<Rightarrow> BrokerFrame \<Rightarrow> bool) \<Rightarrow> brokerConnection option \<Rightarrow> BrokerFrame \<Rightarrow> brokerError option \<times> beffect list" where
  "writeFrame ok c frame =
     (case c of
        None \<Rightarrow> (Some ErrBrokerSessionUnavailable, [])
      | Some bc \<Rightarrow>
          (case bc_conn bc of
             None \<Rightarrow> (Some ErrBrokerSessionUnavailable, [])
           | Some conn \<Rightarrow> (if ok conn frame then None else Some ErrBrokerWrite, [BWrite conn frame])))"

definition sendToSession ::
    "(nat \<Rightarrow> BrokerFrame \<Rightarrow> bool) \<Rightarrow> string \<Rightarrow> nat option \<Rightarrow> BrokerFrame \<Rightarrow> Broker \<Rightarrow> brokerError option \<times> beffect list" where
  "sendToSession ok sessionID0 interactiveOwner frame b =
     (let sessionID = TrimSpace sessionID0
      in if sessionID = [] \<or> interactiveOwner = None then (Some ErrBrokerSessionUnavailable, [])
         else case gm_get (bk_sessions b) sessionID of
             None \<Rightarrow> (Some ErrBrokerSessionUnavailable, [])
           | Some state \<Rightarrow>
               if st_owner state = None \<or> bc_conn (the (st_owner state)) = None
               then (Some ErrBrokerSessionUnavailable, [])
               else if gm_get (bk_interactiveOwners b) sessionID \<noteq> interactiveOwner
               then (Some ErrBrokerInteractiveNotGranted, [])
               else writeFrame ok (st_owner state) (frame\<lparr>bf_SessionID := sessionID\<rparr>))"

definition RouteInputText ::
    "(nat \<Rightarrow> BrokerFrame \<Rightarrow> bool) \<Rightarrow> string \<Rightarrow> nat option \<Rightarrow> string \<Rightarrow> bool \<Rightarrow> Broker \<Rightarrow> brokerError option \<times> beffect list" where
  "RouteInputText ok sessionID interactiveOwner text submit b =
     sendToSession ok sessionID interactiveOwner
       (zeroBrokerFrame\<lparr>bf_Type := brokerFrameInputText, bf_SessionID := sessionID, bf_Text := text, bf_Submit := submit\<rparr>) b"

definition RouteInputKey ::
    "(nat \<Rightarrow> BrokerFrame \<Rightarrow> bool) \<Rightarrow> string \<Rightarrow> nat option \<Rightarrow> string \<Rightarrow> Broker \<Rightarrow> brokerError option \<times> beffect list" where
  "RouteInputKey ok sessionID interactiveOwner key b =
     sendToSession ok sessionID interactiveOwner
       (zeroBrokerFrame\<lparr>bf_Type := brokerFrameInputKey, bf_SessionID := sessionID, bf_Key := key\<rparr>) b"

definition RouteResize ::
    "(nat \<Rightarrow> BrokerFrame \<Rightarrow> bool) \<Rightarrow> string \<Rightarrow> nat option \<Rightarrow> int \<Rightarrow> int \<Rightarrow> Broker \<Rightarrow> brokerError option \<times> beffect list" where
  "RouteResize ok sessionID interactiveOwner cols rows b =
     sendToSession ok sessionID interactiveOwner
       (zeroBrokerFrame\<lparr>bf_Type := brokerFrameResize, bf_SessionID := sessionID, bf_Cols := cols, bf_Rows := rows\<rparr>) b"

definition StopSession ::
    "(nat \<Rightarrow> BrokerFrame \<Rightarrow> bool) \<Rightarrow> string \<Rightarrow> Broker \<Rightarrow> brokerError option \<times> beffect list" where
  "StopSession ok sessionID0 b =
     (let sessionID = TrimSpace sessionID0
      in if sessionID = [] then (Some ErrBrokerSessionUnavailable, [])
         else case gm_get (bk_sessions b) sessionID of
             None \<Rightarrow> (Some ErrBrokerSessionUnavailable, [])
           | Some state \<Rightarrow>
               if st_owner state = None \<or> bc_conn (the (st_owner state)) = None
               then (Some ErrBrokerSessionUnavailable, [])
               else writeFrame ok (st_owner state)
                 (zeroBrokerFrame\<lparr>bf_Type := brokerFrameStopSession, bf_SessionID := sessionID\<rparr>))"

section \<open>Connections\<close>

text \<open>
  \<open>serveConn\<close> reads frames and calls the broker. What one frame makes its goroutine do is a list of calls; the
  goroutine's variable \<open>registeredSessionID\<close> is not seen by any other goroutine.
\<close>

datatype brokerCall =
    CallRegister BrokerSession
  | CallAck string
  | CallUpdateSession BrokerSession
  | CallUpdatePreview string string int
  | CallUpdateSnapshot string string int int
  | CallOutput string string
  | CallRemove string

text \<open>The \<open>switch\<close> on the type of a frame: the calls, the new value of \<open>registeredSessionID\<close>, whether it returns.\<close>

definition handleFrame :: "string \<Rightarrow> BrokerFrame \<Rightarrow> brokerCall list \<times> string \<times> bool" where
  "handleFrame registered frame =
     (if bf_Type frame = brokerFrameRegisterSession then
        (case bf_Session frame of
           None \<Rightarrow> ([], registered, False)
         | Some session \<Rightarrow>
             let sessionID = TrimSpace (bs_SessionID session)
             in if sessionID = [] then ([], registered, False)
                else ((if registered \<noteq> [] \<and> registered \<noteq> sessionID then [CallRemove registered] else []) @
                      [CallRegister session, CallAck sessionID], sessionID, False))
      else if bf_Type frame = brokerFrameSessionUpdate then
        (case bf_Session frame of
           None \<Rightarrow> ([], registered, False)
         | Some session \<Rightarrow> ([CallUpdateSession session], registered, False))
      else if bf_Type frame = brokerFramePreviewUpdate then
        ([CallUpdatePreview (bf_SessionID frame) (bf_Preview frame) (bf_UpdatedAt frame)], registered, False)
      else if bf_Type frame = brokerFrameSnapshotUpdate then
        ([CallUpdateSnapshot (bf_SessionID frame) (bf_Snapshot frame) (bf_SnapshotCols frame) (bf_SnapshotRows frame)],
         registered, False)
      else if bf_Type frame = brokerFrameOutputBytes then
        ([CallOutput (bf_SessionID frame) (bf_Output frame)], registered, False)
      else if bf_Type frame = brokerFrameSessionGone then
        (let sessionID0 = TrimSpace (bf_SessionID frame);
             sessionID = (if sessionID0 = [] then registered else sessionID0)
         in ([CallRemove sessionID], if sessionID = registered then [] else registered, True))
      else ([], registered, False))"

text \<open>The deferred function of \<open>serveConn\<close> that runs first.\<close>

definition deferredCalls :: "string \<Rightarrow> brokerCall list" where
  "deferredCalls registered = (if registered \<noteq> [] then [CallRemove registered] else [])"

text \<open>The section of a call under the mutex: the event it will emit, the connection it will close, the broker.\<close>

definition callSection ::
    "clock \<Rightarrow> brokerCall \<Rightarrow> brokerConnection option \<Rightarrow> Broker \<Rightarrow> BrokerEvent option \<times> brokerConnection option \<times> Broker" where
  "callSection clk call owner b =
     (case call of
        CallRegister session \<Rightarrow> register_locked clk session owner b
      | CallAck _ \<Rightarrow> (None, None, b)
      | CallUpdateSession session \<Rightarrow> (let (e, b1) = updateSession_locked clk session owner b in (e, None, b1))
      | CallUpdatePreview sid preview t \<Rightarrow> (let (e, b1) = updatePreview_locked sid preview t owner b in (e, None, b1))
      | CallUpdateSnapshot sid snapshot cols rows \<Rightarrow> (None, None, updateSnapshot sid snapshot cols rows owner b)
      | CallOutput sid bytes \<Rightarrow> (output_locked sid bytes owner b, None, b)
      | CallRemove sid \<Rightarrow> (let (e, b1) = remove_locked sid owner b in (e, None, b1)))"

definition closePrevious :: "brokerConnection option \<Rightarrow> beffect list" where
  "closePrevious previous =
     (case previous of
        None \<Rightarrow> []
      | Some bc \<Rightarrow> (case bc_conn bc of None \<Rightarrow> [] | Some conn \<Rightarrow> [BClose conn]))"

definition emitAll ::
    "(nat \<Rightarrow> bool) \<Rightarrow> (nat \<Rightarrow> brokerSubscriber \<Rightarrow> brokerSubscriber) \<Rightarrow> BrokerEvent option \<Rightarrow> Broker \<Rightarrow> Broker" where
  "emitAll pick others e b = (case e of None \<Rightarrow> b | Some event \<Rightarrow> emit pick others event b)"

text \<open>A whole call that no other goroutine interrupts; an acknowledgement is written on the connection.\<close>

definition runCall ::
    "(nat \<Rightarrow> BrokerFrame \<Rightarrow> bool) \<Rightarrow> clock \<Rightarrow> (nat \<Rightarrow> bool) \<Rightarrow> brokerCall \<Rightarrow> brokerConnection option \<Rightarrow> Broker \<Rightarrow> beffect list \<times> Broker" where
  "runCall ok clk pick call owner b =
     (let (e, previous, b1) = callSection clk call owner b;
          acked = (case call of
              CallAck sid \<Rightarrow> snd (writeFrame ok owner (zeroBrokerFrame\<lparr>bf_Type := brokerFrameRegisterAck, bf_SessionID := sid\<rparr>))
            | _ \<Rightarrow> [])
      in (closePrevious previous @ acked, emitAll pick (\<lambda>_ s. s) e b1))"

fun runCalls ::
    "(nat \<Rightarrow> BrokerFrame \<Rightarrow> bool) \<Rightarrow> clock \<Rightarrow> (nat \<Rightarrow> bool) \<Rightarrow> brokerCall list \<Rightarrow> brokerConnection option \<Rightarrow> Broker \<Rightarrow> beffect list \<times> Broker" where
  "runCalls ok clk pick [] owner b = ([], b)"
| "runCalls ok clk pick (call # calls) owner b =
     (let (es, b1) = runCall ok clk pick call owner b; (es', b2) = runCalls ok clk pick calls owner b1 in (es @ es', b2))"

text \<open>The loop over the frames a connection delivers before its decoder fails, and the deferred functions.\<close>

fun serveFrames ::
    "(nat \<Rightarrow> BrokerFrame \<Rightarrow> bool) \<Rightarrow> clock \<Rightarrow> (nat \<Rightarrow> bool) \<Rightarrow> brokerConnection \<Rightarrow> string \<Rightarrow> BrokerFrame list \<Rightarrow> Broker
      \<Rightarrow> string \<times> beffect list \<times> Broker" where
  "serveFrames ok clk pick owner registered [] b = (registered, [], b)"
| "serveFrames ok clk pick owner registered (frame # frames) b =
     (let (calls, registered1, returns) = handleFrame registered frame;
          (es, b1) = runCalls ok clk pick calls (Some owner) b
      in if returns then (registered1, es, b1)
         else
           let (registered2, es', b2) = serveFrames ok clk pick owner registered1 frames b1
           in (registered2, es @ es', b2))"

definition serveConn ::
    "(nat \<Rightarrow> BrokerFrame \<Rightarrow> bool) \<Rightarrow> clock \<Rightarrow> (nat \<Rightarrow> bool) \<Rightarrow> brokerConnection \<Rightarrow> BrokerFrame list \<Rightarrow> Broker \<Rightarrow> beffect list \<times> Broker" where
  "serveConn ok clk pick owner frames b =
     (let (registered, es, b1) = serveFrames ok clk pick owner [] frames b;
          (es', b2) = runCalls ok clk pick (deferredCalls registered) (Some owner) b1
      in (es @ es' @ closePrevious (Some owner), b2))"

end
