(* ===== verification/Auth_Credentials.thy ===== *)
theory Auth_Credentials
  imports Go_Unicode Go_Net Go_Bytes
begin

text \<open>
  The credentials of the relay (\<open>internal/relay/auth/credentials.go\<close>, \<open>device_fingerprint.go\<close>,
  \<open>types.go\<close>): the normal forms of user names, invite codes, device fingerprints and subscription tiers,
  the generation of invite codes and opaque tokens, token digests and the stored form of passwords.

  HMAC-SHA-256 and Argon2id are the fields of an \<open>authCrypto\<close> record. The random reader is a list of the
  buffers its calls fill; a call after the last one fails. Letter case is modelled on ASCII letters and on the
  four other code points whose lower or upper case is an ASCII letter (U+0130, U+212A, U+0131, U+017F): every
  caller refuses a text that keeps a code point above 0x7F, whatever its case.
\<close>

section \<open>Errors\<close>

datatype authError =
    ErrInvalidUsername | ErrInvalidPassword | ErrInvalidInviteCode | ErrInvalidApplicationSecret
  | ErrInvalidPasswordHash | ErrInvalidCredentials
  | ErrUserNotFound | ErrUsernameTaken
  | ErrInviteCodeNotFound | ErrInviteCodeExpired | ErrInviteCodeDisabled | ErrInviteCodeConsumed
  | ErrAppSessionNotFound | ErrAppSessionExpired | ErrAppSessionRevoked | ErrAppSessionDeviceMismatch
  | ErrInvalidDeviceFingerprint | ErrInvalidSubscriptionTier | ErrAgentTokenNotFound | ErrAgentTokenRevoked
  | ErrInvalidOperatorRequest | ErrRandom | ErrDatabase

abbreviation ErrInvalidAgentTokenName :: authError where
  "ErrInvalidAgentTokenName \<equiv> ErrInvalidUsername"

section \<open>Normal forms\<close>

definition lowerRune :: "rune \<Rightarrow> rune" where
  "lowerRune r =
     (if 0x41 \<le> r \<and> r \<le> 0x5A then r + 32 else if r = 0x130 then 0x69 else if r = 0x212A then 0x6B else r)"

definition upperRune :: "rune \<Rightarrow> rune" where
  "upperRune r =
     (if 0x61 \<le> r \<and> r \<le> 0x7A then r - 32 else if r = 0x131 then 0x49 else if r = 0x17F then 0x53 else r)"

definition lowerText :: "string \<Rightarrow> string" where
  "lowerText s = encodeString (map lowerRune (decodeString s))"

definition upperText :: "string \<Rightarrow> string" where
  "upperText s = encodeString (map upperRune (decodeString s))"

definition minUsernameLength :: int where "minUsernameLength = 4"
definition minPasswordLength :: int where "minPasswordLength = 6"
definition inviteCodeLength :: int where "inviteCodeLength = 6"

definition inviteCodeAlphabet :: string where
  "inviteCodeAlphabet = ''23456789ABCDEFGHJKMNPQRSTUVWXYZ''"

definition usernameRune :: "rune \<Rightarrow> bool" where
  "usernameRune r \<longleftrightarrow> 0x61 \<le> r \<and> r \<le> 0x7A \<or> 0x30 \<le> r \<and> r \<le> 0x39 \<or> r = 0x5F \<or> r = 0x2D \<or> r = 0x2E"

definition NormalizeUsername :: "string \<Rightarrow> authError + string" where
  "NormalizeUsername raw =
     (let normalized = lowerText (TrimSpace raw)
      in if int (length normalized) < minUsernameLength then Inl ErrInvalidUsername
         else if list_all usernameRune (decodeString normalized) then Inr normalized
         else Inl ErrInvalidUsername)"

definition ValidatePassword :: "string \<Rightarrow> authError option" where
  "ValidatePassword raw = (if int (length raw) < minPasswordLength then Some ErrInvalidPassword else None)"

definition inviteRune :: "rune \<Rightarrow> bool" where
  "inviteRune r \<longleftrightarrow> r \<in> set (decodeString inviteCodeAlphabet)"

definition NormalizeInviteCode :: "string \<Rightarrow> authError + string" where
  "NormalizeInviteCode raw =
     (let normalized = upperText (TrimSpace raw)
      in if int (length normalized) \<noteq> inviteCodeLength then Inl ErrInvalidInviteCode
         else if list_all inviteRune (decodeString normalized) then Inr normalized
         else Inl ErrInvalidInviteCode)"

definition DeviceFingerprintHexLength :: int where "DeviceFingerprintHexLength = 64"

definition NormalizeDeviceFingerprint :: "string \<Rightarrow> authError + string" where
  "NormalizeDeviceFingerprint raw =
     (let fingerprint = lowerText (TrimSpace raw)
      in if fingerprint = [] then Inr []
         else if int (length fingerprint) \<noteq> DeviceFingerprintHexLength then Inl ErrInvalidDeviceFingerprint
         else case hex_DecodeString fingerprint of
             None \<Rightarrow> Inl ErrInvalidDeviceFingerprint
           | Some _ \<Rightarrow> Inr fingerprint)"

definition SubscriptionTierFree :: string where "SubscriptionTierFree = ''free''"
definition SubscriptionTierPro :: string where "SubscriptionTierPro = ''pro''"

definition NormalizeSubscriptionTier :: "string \<Rightarrow> authError + string" where
  "NormalizeSubscriptionTier raw =
     (let tier = lowerText (TrimSpace raw)
      in if tier = [] then Inr SubscriptionTierFree
         else if tier = SubscriptionTierFree \<or> tier = SubscriptionTierPro then Inr tier
         else Inl ErrInvalidSubscriptionTier)"

section \<open>Random codes and tokens\<close>

text \<open>\<open>limit\<close>: the largest multiple of the alphabet's size a byte can stay below.\<close>

definition inviteLimit :: int where
  "inviteLimit = 256 - 256 mod int (length inviteCodeAlphabet)"

definition inviteChar :: "byte \<Rightarrow> char" where
  "inviteChar b = inviteCodeAlphabet ! (unat b mod length inviteCodeAlphabet)"

text \<open>The inner loop: the bytes of one buffer appended to the code until it is full.\<close>

fun fillCode :: "string \<Rightarrow> byte list \<Rightarrow> string" where
  "fillCode code [] = code"
| "fillCode code (b # buf) =
     (if inviteLimit \<le> uint b then fillCode code buf
      else let code' = code @ [inviteChar b]
           in if int (length code') = inviteCodeLength then code' else fillCode code' buf)"

text \<open>The outer loop: it reads buffers until the code is full, and stops with the reader's error.\<close>

fun generateLoop :: "string \<Rightarrow> byte list list \<Rightarrow> authError + string" where
  "generateLoop code bufs =
     (if inviteCodeLength \<le> int (length code) then Inr code
      else case bufs of [] \<Rightarrow> Inl ErrRandom | buf # bufs' \<Rightarrow> generateLoop (fillCode code buf) bufs')"

declare generateLoop.simps [simp del]

definition GenerateInviteCode :: "byte list list \<Rightarrow> authError + string" where
  "GenerateInviteCode rnd = generateLoop [] rnd"

text \<open>\<open>rnd n\<close> is what \<open>rand.Read\<close> puts in a buffer of \<open>n\<close> bytes.\<close>

definition GenerateOpaqueToken :: "(int \<Rightarrow> byte list option) \<Rightarrow> int \<Rightarrow> authError + string" where
  "GenerateOpaqueToken rnd byteCount =
     (case rnd (if byteCount \<le> 0 then 32 else byteCount) of
        None \<Rightarrow> Inl ErrRandom
      | Some buf \<Rightarrow> Inr (hex_EncodeToString buf))"

definition GenerateOpaqueID :: "(int \<Rightarrow> byte list option) \<Rightarrow> string \<Rightarrow> int \<Rightarrow> authError + string" where
  "GenerateOpaqueID rnd pre byteCount =
     (case GenerateOpaqueToken rnd byteCount of
        Inl e \<Rightarrow> Inl e
      | Inr token \<Rightarrow> if pre = [] then Inr token else Inr (pre @ ''_'' @ token))"

section \<open>Digests\<close>

record authCrypto =
  ac_hmac :: "byte list \<Rightarrow> byte list \<Rightarrow> byte list"
  ac_argon2 :: "byte list \<Rightarrow> byte list \<Rightarrow> 32 word \<Rightarrow> 32 word \<Rightarrow> 8 word \<Rightarrow> 32 word \<Rightarrow> byte list"

record SecretDigester =
  sd_key :: "byte list"

definition NewSecretDigester :: "string \<Rightarrow> authError + SecretDigester" where
  "NewSecretDigester secret =
     (if TrimSpace secret = [] then Inl ErrInvalidApplicationSecret
      else Inr \<lparr>sd_key = bytes_of secret\<rparr>)"

definition Digest :: "authCrypto \<Rightarrow> SecretDigester \<Rightarrow> string \<Rightarrow> string" where
  "Digest cy d raw = hex_EncodeToString (ac_hmac cy (sd_key d) (bytes_of raw))"

definition DigestNormalizedUsername :: "authCrypto \<Rightarrow> SecretDigester \<Rightarrow> string \<Rightarrow> authError + string" where
  "DigestNormalizedUsername cy d raw =
     (case NormalizeUsername raw of Inl e \<Rightarrow> Inl e | Inr normalized \<Rightarrow> Inr (Digest cy d normalized))"

section \<open>Base 64 without padding\<close>

definition b64Alphabet :: string where
  "b64Alphabet = ''ABCDEFGHIJKLMNOPQRSTUVWXYZabcdefghijklmnopqrstuvwxyz0123456789+/''"

definition b64Char :: "nat \<Rightarrow> char" where
  "b64Char n = b64Alphabet ! n"

definition b64Val :: "char \<Rightarrow> nat option" where
  "b64Val c = map_of (zip b64Alphabet [0..<64]) c"

fun sextets :: "nat list \<Rightarrow> nat list" where
  "sextets [] = []"
| "sextets [a] = [a div 4, a mod 4 * 16]"
| "sextets [a, b] = [a div 4, a mod 4 * 16 + b div 16, b mod 16 * 4]"
| "sextets (a # b # c # r) = [a div 4, a mod 4 * 16 + b div 16, b mod 16 * 4 + c div 64, c mod 64] @ sextets r"

fun octets :: "nat list \<Rightarrow> nat list option" where
  "octets [] = Some []"
| "octets [w] = None"
| "octets [w, x] = Some [w * 4 + x div 16]"
| "octets [w, x, y] = Some [w * 4 + x div 16, x mod 16 * 16 + y div 4]"
| "octets (w # x # y # z # r) =
     map_option (\<lambda>t. [w * 4 + x div 16, x mod 16 * 16 + y div 4, y mod 4 * 64 + z] @ t) (octets r)"

definition b64_EncodeToString :: "byte list \<Rightarrow> string" where
  "b64_EncodeToString bs = map b64Char (sextets (map unat bs))"

definition b64_DecodeString :: "string \<Rightarrow> byte list option" where
  "b64_DecodeString s =
     (case those (map b64Val (filter (\<lambda>c. c \<noteq> CHR 0x0A \<and> c \<noteq> CHR 0x0D) s)) of
        None \<Rightarrow> None
      | Some vs \<Rightarrow> map_option (map word_of_nat) (octets vs))"

section \<open>Scanning the parameters of a hash\<close>

text \<open>
  \<open>fmt.Sscanf(s, "m=%d,t=%d,p=%d", ...)\<close>: literal text must match, \<open>%d\<close> skips white space but no line end,
  takes the longest run of digits and fails when there is none or the value does not fit the target. Text after
  the last verb is ignored.
\<close>

definition digitRune :: "rune \<Rightarrow> bool" where
  "digitRune r \<longleftrightarrow> 0x30 \<le> r \<and> r \<le> 0x39"

definition SkipSpace :: "rune list \<Rightarrow> rune list option" where
  "SkipSpace rs =
     (let rs' = dropWhile (\<lambda>r. IsSpace r \<and> r \<noteq> 0x0A) rs
      in if rs' \<noteq> [] \<and> hd rs' = 0x0A then None else Some rs')"

definition decimal :: "rune list \<Rightarrow> int" where
  "decimal ds = foldl (\<lambda>n r. 10 * n + (r - 0x30)) 0 ds"

definition scanUint :: "nat \<Rightarrow> rune list \<Rightarrow> (int \<times> rune list) option" where
  "scanUint bitSize rs =
     (case SkipSpace rs of
        None \<Rightarrow> None
      | Some rs' \<Rightarrow>
          let tok = takeWhile digitRune rs'
          in if tok = [] \<or> 2 ^ bitSize \<le> decimal tok then None
             else Some (decimal tok, dropWhile digitRune rs'))"

fun scanLiteral :: "rune list \<Rightarrow> rune list \<Rightarrow> rune list option" where
  "scanLiteral [] rs = Some rs"
| "scanLiteral (f # fs) [] = None"
| "scanLiteral (f # fs) (r # rs) = (if f = r then scanLiteral fs rs else None)"

definition scanField :: "string \<Rightarrow> nat \<Rightarrow> rune list \<Rightarrow> (int \<times> rune list) option" where
  "scanField lit bitSize rs =
     (case scanLiteral (decodeString lit) rs of None \<Rightarrow> None | Some rs' \<Rightarrow> scanUint bitSize rs')"

definition scanParams :: "string \<Rightarrow> (32 word \<times> 32 word \<times> 8 word) option" where
  "scanParams s =
     (case scanField ''m='' 32 (decodeString s) of
        None \<Rightarrow> None
      | Some (m, rs) \<Rightarrow>
          (case scanField '',t='' 32 rs of
             None \<Rightarrow> None
           | Some (t, rs') \<Rightarrow>
               (case scanField '',p='' 8 rs' of
                  None \<Rightarrow> None
                | Some (p, _) \<Rightarrow> Some (word_of_int m, word_of_int t, word_of_int p))))"

section \<open>Passwords\<close>

record PasswordHasher =
  ph_MemoryKiB :: "32 word"
  ph_Iterations :: "32 word"
  ph_Parallelism :: "8 word"
  ph_SaltLength :: "32 word"
  ph_KeyLength :: "32 word"

definition DefaultPasswordHasher :: PasswordHasher where
  "DefaultPasswordHasher =
     \<lparr>ph_MemoryKiB = 64 * 1024, ph_Iterations = 3, ph_Parallelism = 1, ph_SaltLength = 16, ph_KeyLength = 32\<rparr>"

definition hashText :: "32 word \<Rightarrow> 32 word \<Rightarrow> 8 word \<Rightarrow> byte list \<Rightarrow> byte list \<Rightarrow> string" where
  "hashText m t p salt hash =
     ''$argon2id$v=19$m='' @ itoa_nat (unat m) @ '',t='' @ itoa_nat (unat t) @ '',p='' @ itoa_nat (unat p) @
     ''$'' @ b64_EncodeToString salt @ ''$'' @ b64_EncodeToString hash"

definition HashPassword ::
    "authCrypto \<Rightarrow> PasswordHasher \<Rightarrow> (int \<Rightarrow> byte list option) \<Rightarrow> string \<Rightarrow> authError + string" where
  "HashPassword cy h rnd raw =
     (case ValidatePassword raw of
        Some e \<Rightarrow> Inl e
      | None \<Rightarrow>
          (case rnd (uint (ph_SaltLength h)) of
             None \<Rightarrow> Inl ErrRandom
           | Some salt \<Rightarrow>
               Inr (hashText (ph_MemoryKiB h) (ph_Iterations h) (ph_Parallelism h) salt
                 (ac_argon2 cy (bytes_of raw) salt (ph_Iterations h) (ph_MemoryKiB h) (ph_Parallelism h)
                   (ph_KeyLength h)))))"

definition VerifyPassword :: "authCrypto \<Rightarrow> string \<Rightarrow> string \<Rightarrow> authError option" where
  "VerifyPassword cy raw encoded =
     (case ValidatePassword raw of
        Some e \<Rightarrow> Some e
      | None \<Rightarrow>
          (let parts = split_on (CHR ''$'') encoded
           in if length parts \<noteq> 6 \<or> parts ! 1 \<noteq> ''argon2id'' \<or> parts ! 2 \<noteq> ''v=19''
              then Some ErrInvalidPasswordHash
              else if length (split_on (CHR '','') (parts ! 3)) \<noteq> 3 then Some ErrInvalidPasswordHash
              else case scanParams (parts ! 3) of
                  None \<Rightarrow> Some ErrInvalidPasswordHash
                | Some (memory, iterations, parallelism) \<Rightarrow>
                    if memory = 0 \<or> iterations = 0 \<or> parallelism = 0 then Some ErrInvalidPasswordHash
                    else case b64_DecodeString (parts ! 4) of
                        None \<Rightarrow> Some ErrInvalidPasswordHash
                      | Some salt \<Rightarrow>
                          (case b64_DecodeString (parts ! 5) of
                             None \<Rightarrow> Some ErrInvalidPasswordHash
                           | Some want \<Rightarrow>
                               if salt = [] \<or> want = [] then Some ErrInvalidPasswordHash
                               else if ac_argon2 cy (bytes_of raw) salt iterations memory parallelism
                                         (word_of_nat (length want)) \<noteq> want
                               then Some ErrInvalidPassword
                               else None)))"

section \<open>ASCII text\<close>

definition asciiText :: "string \<Rightarrow> bool" where
  "asciiText s \<longleftrightarrow> list_all (\<lambda>c. (of_char c :: int) < 0x80) s"

lemma runesOf_ascii: "\<forall>b \<in> set bs. 0 \<le> b \<and> b < 0x80 \<Longrightarrow> runesOf bs = bs"
  by (induction bs) (simp_all add: runesOf.simps DecodeRune.simps)

lemma decode_ascii: "asciiText s \<Longrightarrow> decodeString s = map of_char s"
  unfolding decodeString_def asciiText_def
  by (rule runesOf_ascii) (auto simp: list_all_iff of_char_nonneg)

lemma encode_runes_ascii: "\<forall>r \<in> set rs. 0 \<le> r \<and> r < 0x80 \<Longrightarrow> encodeString rs = map char_of rs"
  by (induction rs) (simp_all add: encodeString_def EncodeRune_def)

lemma case_ascii:
  "asciiText s \<Longrightarrow> \<forall>c \<in> set s. f (of_char c) = of_char c \<Longrightarrow> encodeString (map f (decodeString s)) = s"
  by (simp add: decode_ascii encode_runes_ascii asciiText_def list_all_iff of_char_nonneg comp_def cong: map_cong)

text \<open>A text whose code points are all ASCII is the list of them.\<close>

lemma decode_small:
  assumes "\<forall>r \<in> set (decodeString (encodeString rs)). r < 0x80" "\<forall>r \<in> set rs. scalar r"
  shows "encodeString rs = map char_of rs \<and> asciiText (encodeString rs)"
proof -
  have "\<forall>r \<in> set rs. 0 \<le> r \<and> r < 0x80" using assms by (auto simp: decode_encode scalar_def)
  then show ?thesis
    by (auto simp: encode_runes_ascii asciiText_def list_all_iff of_char_of)
qed

section \<open>Normal forms are fixed\<close>

locale normal_form =
  fixes norm :: "string \<Rightarrow> 'e + string" and good :: "string \<Rightarrow> bool"
  assumes norm_good: "norm raw = Inr s \<Longrightarrow> good s"
    and norm_fixed: "good s \<Longrightarrow> norm s = Inr s"
begin

lemma norm_idem: "norm raw = Inr s \<Longrightarrow> norm s = Inr s"
  by (blast intro: norm_fixed norm_good)

lemma norm_image: "(\<exists>raw. norm raw = Inr s) \<longleftrightarrow> good s"
  by (blast intro: norm_fixed norm_good)

end

text \<open>Plain ASCII text that a case mapping keeps.\<close>

lemma lower_kept:
  assumes "list_all plainChar s" "\<forall>c \<in> set s. lowerRune (of_char c) = of_char c"
  shows "lowerText (TrimSpace s) = s"
  using assms unfolding lowerText_def
  by (simp add: TrimSpace_plain) (rule case_ascii, auto simp: asciiText_def plainChar_def list_all_iff)

lemma upper_kept:
  assumes "list_all plainChar s" "\<forall>c \<in> set s. upperRune (of_char c) = of_char c"
  shows "upperText (TrimSpace s) = s"
  using assms unfolding upperText_def
  by (simp add: TrimSpace_plain) (rule case_ascii, auto simp: asciiText_def plainChar_def list_all_iff)

lemma scalar_decode: "r \<in> set (decodeString s) \<Longrightarrow> scalar r"
  unfolding decodeString_def by (rule runesOf_scalar) (auto simp: of_char_nonneg)

lemma case_scalar [simp]: "scalar r \<Longrightarrow> scalar (lowerRune r)" "scalar r \<Longrightarrow> scalar (upperRune r)"
  by (auto simp: scalar_def lowerRune_def upperRune_def)

lemma case_runes:
  "decodeString (lowerText s) = map lowerRune (decodeString s)"
  "decodeString (upperText s) = map upperRune (decodeString s)"
  unfolding lowerText_def upperText_def by (rule decode_encode; auto dest: scalar_decode)+

text \<open>If every code point of such a text satisfies a predicate on ASCII, so does every byte.\<close>

lemma runes_to_chars:
  assumes "list_all P (decodeString (encodeString rs))" "\<And>r. P r \<Longrightarrow> r < 0x80" "\<forall>r \<in> set rs. scalar r"
  shows "list_all (\<lambda>c. P (of_char c)) (encodeString rs)"
proof -
  have rs: "list_all P rs" using assms by (simp add: decode_encode)
  then have small: "\<forall>r \<in> set rs. 0 \<le> r \<and> r < 0x80" using assms(2,3) by (auto simp: list_all_iff scalar_def)
  then have "of_char (char_of r :: char) = r" if "r \<in> set rs" for r
    using small [rule_format, OF that] by (simp add: of_char_of)
  then show ?thesis using rs small by (simp add: encode_runes_ascii list_all_iff)
qed

lemma lower_chars:
  "list_all P (decodeString (lowerText s)) \<Longrightarrow> (\<And>r. P r \<Longrightarrow> r < 0x80) \<Longrightarrow> list_all (\<lambda>c. P (of_char c)) (lowerText s)"
  unfolding lowerText_def by (erule runes_to_chars) (auto dest: scalar_decode)

lemma upper_chars:
  "list_all P (decodeString (upperText s)) \<Longrightarrow> (\<And>r. P r \<Longrightarrow> r < 0x80) \<Longrightarrow> list_all (\<lambda>c. P (of_char c)) (upperText s)"
  unfolding upperText_def by (erule runes_to_chars) (auto dest: scalar_decode)

lemma chars_to_runes:
  assumes "list_all (\<lambda>c. P (of_char c)) s" "\<And>r. P r \<Longrightarrow> r < 0x80"
  shows "list_all P (decodeString s)"
  using assms by (subst decode_ascii) (auto simp: asciiText_def list_all_iff)

definition goodUsername :: "string \<Rightarrow> bool" where
  "goodUsername s \<longleftrightarrow> minUsernameLength \<le> int (length s) \<and> list_all (\<lambda>c. usernameRune (of_char c)) s"

lemma usernameRune_small: "usernameRune r \<Longrightarrow> r < 0x80"
  by (auto simp: usernameRune_def)

interpretation username: normal_form NormalizeUsername goodUsername
proof unfold_locales
  fix raw s assume "NormalizeUsername raw = Inr s"
  then show "goodUsername s"
    by (auto simp: NormalizeUsername_def goodUsername_def Let_def usernameRune_small intro!: lower_chars
        split: if_splits)
next
  fix s assume g: "goodUsername s"
  then have "lowerText (TrimSpace s) = s"
    by (intro lower_kept) (auto simp: goodUsername_def list_all_iff plainChar_def usernameRune_def lowerRune_def)
  moreover have "list_all usernameRune (decodeString s)"
    by (rule chars_to_runes) (use g in \<open>auto simp: goodUsername_def usernameRune_def\<close>)
  ultimately show "NormalizeUsername s = Inr s" using g by (simp add: NormalizeUsername_def goodUsername_def)
qed

definition goodInviteCode :: "string \<Rightarrow> bool" where
  "goodInviteCode s \<longleftrightarrow> int (length s) = inviteCodeLength \<and> set s \<subseteq> set inviteCodeAlphabet"

lemma alphabet_length [simp]: "length inviteCodeAlphabet = 31"
  by (simp add: inviteCodeAlphabet_def)

lemma alphabet_plain:
  "\<forall>c \<in> set inviteCodeAlphabet. plainChar c \<and> upperRune (of_char c) = of_char c"
  by (simp add: inviteCodeAlphabet_def plainChar_def upperRune_def)

lemma inviteRune_char: "inviteRune (of_char c) \<longleftrightarrow> c \<in> set inviteCodeAlphabet"
proof -
  have "decodeString inviteCodeAlphabet = map of_char inviteCodeAlphabet"
    using alphabet_plain by (intro decode_ascii) (auto simp: asciiText_def list_all_iff plainChar_def)
  then show ?thesis by (auto simp: inviteRune_def)
qed

lemma inviteRune_small: "inviteRune r \<Longrightarrow> r < 0x80"
proof -
  assume "inviteRune r"
  moreover have "decodeString inviteCodeAlphabet = map of_char inviteCodeAlphabet"
    using alphabet_plain by (intro decode_ascii) (auto simp: asciiText_def list_all_iff plainChar_def)
  ultimately show ?thesis using alphabet_plain by (auto simp: inviteRune_def plainChar_def)
qed

interpretation inviteCode: normal_form NormalizeInviteCode goodInviteCode
proof unfold_locales
  fix raw s assume "NormalizeInviteCode raw = Inr s"
  then have "int (length s) = inviteCodeLength \<and> list_all (\<lambda>c. inviteRune (of_char c)) s"
    by (auto simp: NormalizeInviteCode_def Let_def inviteRune_small intro!: upper_chars split: if_splits)
  then show "goodInviteCode s" by (auto simp: goodInviteCode_def list_all_iff inviteRune_char)
next
  fix s assume g: "goodInviteCode s"
  then have "upperText (TrimSpace s) = s"
    using alphabet_plain by (intro upper_kept) (auto simp: goodInviteCode_def list_all_iff)
  moreover have "list_all inviteRune (decodeString s)"
    by (rule chars_to_runes) (use g in \<open>auto simp: goodInviteCode_def inviteRune_char list_all_iff inviteRune_small\<close>)
  ultimately show "NormalizeInviteCode s = Inr s" using g by (simp add: NormalizeInviteCode_def goodInviteCode_def)
qed

definition goodFingerprint :: "string \<Rightarrow> bool" where
  "goodFingerprint s \<longleftrightarrow>
     s = [] \<or> int (length s) = DeviceFingerprintHexLength \<and> set s \<subseteq> set ''0123456789abcdef''"

lemma hex_Decode_chars: "hex_DecodeString s = Some bs \<Longrightarrow> c \<in> set s \<Longrightarrow> fromHexChar c \<noteq> None"
  by (induction s arbitrary: bs rule: hex_DecodeString.induct) (auto split: option.splits)

lemma fromHex_cases:
  assumes "fromHexChar c \<noteq> None"
  shows "c \<in> set ''0123456789abcdef'' \<or> 0x41 \<le> (of_char c :: int) \<and> (of_char c :: int) \<le> 0x5A"
proof -
  have "\<forall>c. fromHexChar c \<noteq> None \<longrightarrow>
      c \<in> set ''0123456789abcdef'' \<or> 0x41 \<le> (of_char c :: int) \<and> (of_char c :: int) \<le> 0x5A"
    by code_simp
  with assms show ?thesis by blast
qed

lemma lower_no_upper:
  assumes "asciiText (lowerText s)" "c \<in> set (lowerText s)"
  shows "\<not> (0x41 \<le> (of_char c :: int) \<and> (of_char c :: int) \<le> 0x5A)"
proof -
  have "(of_char c :: int) \<in> set (decodeString (lowerText s))" using assms by (simp add: decode_ascii)
  then obtain r where "of_char c = lowerRune r" by (auto simp: case_runes)
  then show ?thesis by (simp add: lowerRune_def split: if_splits)
qed

lemma hex_Decode_all: "set s \<subseteq> set ''0123456789abcdef'' \<Longrightarrow> even (length s) \<Longrightarrow> hex_DecodeString s \<noteq> None"
proof (induction s rule: hex_DecodeString.induct)
  case (3 c d s)
  have "\<forall>x \<in> set ''0123456789abcdef''. fromHexChar x \<noteq> None" by code_simp
  moreover have "c \<in> set ''0123456789abcdef''" "d \<in> set ''0123456789abcdef''"
    using 3(2) by (simp_all only: set_simps insert_subset)
  ultimately obtain x y where xy: "fromHexChar c = Some x" "fromHexChar d = Some y" by blast
  have "hex_DecodeString s \<noteq> None"
    using 3(2,3) by (intro 3(1) [OF refl xy]) (simp_all only: set_simps insert_subset, simp)
  then show ?case using xy by auto
qed auto

interpretation deviceFingerprint: normal_form NormalizeDeviceFingerprint goodFingerprint
proof unfold_locales
  fix raw s assume n: "NormalizeDeviceFingerprint raw = Inr s"
  let ?t = "lowerText (TrimSpace raw)"
  show "goodFingerprint s"
  proof (cases "?t = []")
    case False
    then obtain bs where bs: "hex_DecodeString ?t = Some bs" "int (length ?t) = DeviceFingerprintHexLength" "s = ?t"
      using n by (auto simp: NormalizeDeviceFingerprint_def Let_def split: if_splits option.splits)
    have hex: "c \<in> set ''0123456789abcdef'' \<or> 0x41 \<le> (of_char c :: int) \<and> (of_char c :: int) \<le> 0x5A"
      if "c \<in> set ?t" for c using hex_Decode_chars [OF bs(1) that] by (rule fromHex_cases)
    have "\<forall>c \<in> set ''0123456789abcdef''. (of_char c :: int) < 0x80" by simp
    then have "asciiText ?t" using hex by (fastforce simp: asciiText_def list_all_iff)
    then have "set ?t \<subseteq> set ''0123456789abcdef''" using hex lower_no_upper by blast
    then show ?thesis using bs by (simp add: goodFingerprint_def)
  qed (use n in \<open>simp add: NormalizeDeviceFingerprint_def goodFingerprint_def\<close>)
next
  fix s assume g: "goodFingerprint s"
  have ok: "\<forall>c \<in> set ''0123456789abcdef''. plainChar c \<and> lowerRune (of_char c) = of_char c"
    by (simp add: plainChar_def lowerRune_def)
  then have "lowerText (TrimSpace s) = s"
    using g by (intro lower_kept) (auto simp: goodFingerprint_def list_all_iff)
  moreover have "hex_DecodeString s \<noteq> None" if "s \<noteq> []"
  proof (rule hex_Decode_all)
    have "int (length s) = 64" using g that by (simp add: goodFingerprint_def DeviceFingerprintHexLength_def)
    then show "even (length s)" by presburger
  qed (use g that in \<open>simp add: goodFingerprint_def\<close>)
  ultimately show "NormalizeDeviceFingerprint s = Inr s"
    using g by (auto simp: NormalizeDeviceFingerprint_def goodFingerprint_def)
qed

section \<open>Invite codes\<close>

lemma inviteChar_in: "inviteChar b \<in> set inviteCodeAlphabet"
  unfolding inviteChar_def by (rule nth_mem) simp

lemma fillCode_inv:
  "int (length code) < inviteCodeLength \<Longrightarrow> set code \<subseteq> set inviteCodeAlphabet \<Longrightarrow>
   int (length (fillCode code buf)) \<le> inviteCodeLength \<and> set (fillCode code buf) \<subseteq> set inviteCodeAlphabet"
  by (induction code buf rule: fillCode.induct) (auto simp: Let_def inviteChar_in)

lemma generateLoop_good:
  "int (length code) \<le> inviteCodeLength \<Longrightarrow> set code \<subseteq> set inviteCodeAlphabet \<Longrightarrow>
   generateLoop code bufs = Inr s \<Longrightarrow> goodInviteCode s"
proof (induction code bufs rule: generateLoop.induct)
  case (1 code bufs)
  show ?case
  proof (cases "inviteCodeLength \<le> int (length code)")
    case True
    then show ?thesis using "1.prems" by (simp add: generateLoop.simps [of code bufs] goodInviteCode_def)
  next
    case False
    then obtain buf bufs' where b: "bufs = buf # bufs'"
      using "1.prems" by (simp add: generateLoop.simps [of code bufs] split: list.splits)
    then show ?thesis
      using "1.IH" [OF False b] fillCode_inv [of code buf] "1.prems" False
      by (simp add: generateLoop.simps [of code "buf # bufs'"])
  qed
qed

lemma fillCode_grows:
  "length code \<le> length (fillCode code buf)"
  by (induction code buf rule: fillCode.induct) (auto simp: Let_def)

lemma fillCode_progress:
  "\<exists>b \<in> set buf. uint b < inviteLimit \<Longrightarrow> length code < length (fillCode code buf)"
proof (induction code buf rule: fillCode.induct)
  case (2 code b buf)
  then show ?case using fillCode_grows [of "code @ [inviteChar b]" buf] by (auto simp: Let_def)
qed simp

text \<open>The loop returns once as many buffers as missing characters held an accepted byte.\<close>

lemma generateLoop_returns:
  "\<forall>buf \<in> set bufs. \<exists>b \<in> set buf. uint b < inviteLimit \<Longrightarrow>
   inviteCodeLength \<le> int (length code) + int (length bufs) \<Longrightarrow> \<exists>s. generateLoop code bufs = Inr s"
proof (induction code bufs rule: generateLoop.induct)
  case (1 code bufs)
  show ?case
  proof (cases "inviteCodeLength \<le> int (length code)")
    case False
    then obtain buf bufs' where b: "bufs = buf # bufs'" using "1.prems"(2) by (cases bufs) auto
    then show ?thesis
      using "1.IH" [OF False b] fillCode_progress [of buf code] "1.prems" False
      by (simp add: generateLoop.simps [of code "buf # bufs'"])
  qed (simp add: generateLoop.simps)
qed

text \<open>Every character of the alphabet is drawn by the same number of accepted bytes.\<close>

lemma residues: "k < 31 \<Longrightarrow> {n :: nat. n < 248 \<and> n mod 31 = k} = (\<lambda>j. 31 * j + k) ` {..<8}"
proof (intro equalityI subsetI)
  fix n assume "k < 31" "n \<in> {n. n < 248 \<and> n mod 31 = k}"
  then have "n = 31 * (n div 31) + k" "n div 31 < 8" by auto
  then show "n \<in> (\<lambda>j. 31 * j + k) ` {..<8}" by blast
qed auto

lemma inviteChar_uniform:
  assumes "c \<in> set inviteCodeAlphabet"
  shows "card {b :: byte. uint b < inviteLimit \<and> inviteChar b = c} = 8"
proof -
  obtain k where k: "k < 31" "c = inviteCodeAlphabet ! k"
    using assms by (metis in_set_conv_nth alphabet_length)
  have "distinct inviteCodeAlphabet" by (simp add: inviteCodeAlphabet_def)
  then have char: "inviteChar b = c \<longleftrightarrow> unat b mod 31 = k" for b
    using k by (simp add: inviteChar_def nth_eq_iff_index_eq)
  have byte: "uint b < inviteLimit \<longleftrightarrow> unat b < 248" for b :: byte
    by (simp add: inviteLimit_def uint_nat del: of_nat_unat)
  have "unat ` {b :: byte. unat b < 248 \<and> unat b mod 31 = k} = {n. n < 248 \<and> n mod 31 = k}"
  proof (intro equalityI subsetI)
    fix n :: nat assume "n \<in> {n. n < 248 \<and> n mod 31 = k}"
    then have "n = unat (word_of_nat n :: byte)" "n < 248" "n mod 31 = k" by (simp_all add: unat_of_nat)
    then show "n \<in> unat ` {b :: byte. unat b < 248 \<and> unat b mod 31 = k}" by (metis (mono_tags, lifting) image_eqI mem_Collect_eq)
  qed auto
  then have "card (unat ` {b :: byte. unat b < 248 \<and> unat b mod 31 = k}) = 8"
    using k by (simp add: residues card_image inj_on_def)
  moreover have "card (unat ` {b :: byte. unat b < 248 \<and> unat b mod 31 = k}) =
      card {b :: byte. unat b < 248 \<and> unat b mod 31 = k}"
    by (rule card_image) (auto simp: inj_on_def word_unat_eq_iff)
  ultimately show ?thesis by (simp add: char byte)
qed

section \<open>Base 64 decodes what it encoded\<close>

lemma octets_sextets: "\<forall>a \<in> set bs. a < 256 \<Longrightarrow> octets (sextets bs) = Some bs"
proof (induction bs rule: sextets.induct)
  case (4 a b c r)
  have "a div 4 * 4 + (a mod 4 * 16 + b div 16) div 16 = a"
    "(a mod 4 * 16 + b div 16) mod 16 * 16 + (b mod 16 * 4 + c div 64) div 4 = b"
    "(b mod 16 * 4 + c div 64) mod 4 * 64 + c mod 64 = c"
    using 4(2) by auto
  with 4 show ?case by simp
qed (auto; presburger)+

lemma sextets_small: "\<forall>a \<in> set bs. a < 256 \<Longrightarrow> v \<in> set (sextets bs) \<Longrightarrow> v < 64"
  by (induction bs rule: sextets.induct) (auto; presburger)+

lemma b64_chars: "n < 64 \<Longrightarrow> b64Val (b64Char n) = Some n \<and> b64Char n \<notin> {CHR 0x0A, CHR 0x0D, CHR ''$''}"
proof -
  have "\<forall>n \<in> set [0..<64]. b64Val (b64Char n) = Some n \<and> b64Char n \<notin> {CHR 0x0A, CHR 0x0D, CHR ''$''}"
    by code_simp
  then show "n < 64 \<Longrightarrow> ?thesis" by (simp del: upt_rec_numeral)
qed

lemma those_map_Some: "\<forall>x \<in> set xs. f x = Some (g x) \<Longrightarrow> those (map f xs) = Some (map g xs)"
  by (induction xs) auto

lemma unat_byte: "unat (b :: byte) < 256"
  using unsigned_less [of b, where 'a = nat] by simp

lemma b64_roundtrip [simp]: "b64_DecodeString (b64_EncodeToString bs) = Some bs"
proof -
  let ?vs = "sextets (map unat bs)"
  have vs: "v < 64" if "v \<in> set ?vs" for v using sextets_small [OF _ that] by (simp add: unat_byte)
  have "filter (\<lambda>c. c \<noteq> CHR 0x0A \<and> c \<noteq> CHR 0x0D) (map b64Char ?vs) = map b64Char ?vs"
    using vs b64_chars by (intro filter_True) auto
  moreover have "those (map b64Val (map b64Char ?vs)) = Some ?vs"
    using those_map_Some [of ?vs "b64Val \<circ> b64Char" id] vs b64_chars by simp
  moreover have "octets ?vs = Some (map unat bs)" by (rule octets_sextets) (simp add: unat_byte)
  ultimately show ?thesis by (simp add: b64_DecodeString_def b64_EncodeToString_def comp_def)
qed

lemma b64_no_dollar: "CHR ''$'' \<notin> set (b64_EncodeToString bs)"
proof
  assume "CHR ''$'' \<in> set (b64_EncodeToString bs)"
  then obtain v where "v \<in> set (sextets (map unat bs))" "b64Char v = CHR ''$''"
    by (auto simp: b64_EncodeToString_def)
  then show False using b64_chars [of v] sextets_small [of "map unat bs" v] by (simp add: unat_byte)
qed

section \<open>A stored password verifies\<close>

lemma split_on_absent: "d \<notin> set a \<Longrightarrow> split_on d a = [a]"
  by (induction a) auto

lemma split_on_append: "d \<notin> set a \<Longrightarrow> split_on d (a @ d # b) = a # split_on d b"
  by (induction a) auto

lemma decimal_itoa: "decimal (map of_char (itoa_nat n)) = int n"
proof (induction n rule: itoa_nat.induct)
  case (1 n)
  have dig: "\<forall>k \<in> set [0..<10]. of_char (''0123456789'' ! k) - (0x30 :: int) = int k" by code_simp
  show ?case
  proof (cases "n < 10")
    case True
    then show ?thesis using dig [rule_format, of n] by (subst itoa_nat.simps) (simp add: decimal_def)
  next
    case False
    have "of_char (''0123456789'' ! (n mod 10)) - (0x30 :: int) = int (n mod 10)"
      using dig [rule_format, of "n mod 10"] by simp
    then show ?thesis
      using 1 [OF False] False by (subst itoa_nat.simps) (simp add: decimal_def zmod_int zdiv_int)
  qed
qed

lemma itoa_runes: "decodeString (itoa_nat n) = map of_char (itoa_nat n)" "list_all digitRune (map of_char (itoa_nat n))"
  and itoa_ascii: "asciiText (itoa_nat n)"
proof -
  have "\<forall>c \<in> set ''0123456789''. digitRune (of_char c) \<and> (of_char c :: int) < 0x80" by code_simp
  then have d: "\<forall>c \<in> set (itoa_nat n). digitRune (of_char c) \<and> (of_char c :: int) < 0x80"
    using itoa_nat_digits [of n] by blast
  then show "list_all digitRune (map of_char (itoa_nat n))" by (simp add: list_all_iff)
  from d show "asciiText (itoa_nat n)" by (simp add: asciiText_def list_all_iff)
  then show "decodeString (itoa_nat n) = map of_char (itoa_nat n)" by (rule decode_ascii)
qed

lemma scanUint_itoa:
  assumes "n < 2 ^ w" "rs = [] \<or> \<not> digitRune (hd rs)"
  shows "scanUint w (map of_char (itoa_nat n) @ rs) = Some (int n, rs)"
proof -
  obtain c cs where c: "itoa_nat n = c # cs" using itoa_nat_nonempty [of n] by (cases "itoa_nat n") auto
  have dig: "list_all digitRune (map of_char (itoa_nat n))" by (rule itoa_runes)
  then have "digitRune (of_char c)" by (simp add: c)
  then have "\<not> IsSpace (of_char c)" "(of_char c :: int) \<noteq> 0x0A" by (auto simp: digitRune_def IsSpace_def)
  then have "SkipSpace (map of_char (itoa_nat n) @ rs) = Some (map of_char (itoa_nat n) @ rs)"
    by (simp add: SkipSpace_def c)
  moreover have "takeWhile digitRune (map of_char (itoa_nat n) @ rs) = map of_char (itoa_nat n)"
    "dropWhile digitRune (map of_char (itoa_nat n) @ rs) = rs"
    using dig assms(2)
    by (simp_all add: list_all_iff takeWhile_append dropWhile_append)
      (cases rs; simp)+
  ultimately show ?thesis using assms(1) by (simp add: scanUint_def decimal_itoa c [symmetric] itoa_nat_nonempty)
qed

lemma scanLiteral_append: "scanLiteral fs (fs @ rs) = Some rs"
  by (induction fs) auto

definition paramText :: "32 word \<Rightarrow> 32 word \<Rightarrow> 8 word \<Rightarrow> string" where
  "paramText m t p = ''m='' @ itoa_nat (unat m) @ '',t='' @ itoa_nat (unat t) @ '',p='' @ itoa_nat (unat p)"

lemma scanParams_paramText: "scanParams (paramText m t p) = Some (m, t, p)"
proof -
  have small: "unat m < 2 ^ 32" "unat t < 2 ^ 32" "unat p < 2 ^ 8"
    using unsigned_less [of m, where 'a = nat] unsigned_less [of t, where 'a = nat]
      unsigned_less [of p, where 'a = nat] by simp_all
  have lits: "decodeString ''m='' = [0x6D, 0x3D]" "decodeString '',t='' = [0x2C, 0x74, 0x3D]"
    "decodeString '',p='' = [0x2C, 0x70, 0x3D]" by code_simp+
  have "asciiText (paramText m t p)"
    using itoa_ascii [of "unat m"] itoa_ascii [of "unat t"] itoa_ascii [of "unat p"]
    by (simp add: paramText_def asciiText_def)
  then have "decodeString (paramText m t p) =
      [0x6D, 0x3D] @ map of_char (itoa_nat (unat m)) @ [0x2C, 0x74, 0x3D] @ map of_char (itoa_nat (unat t)) @
      [0x2C, 0x70, 0x3D] @ map of_char (itoa_nat (unat p)) @ []"
    by (simp add: decode_ascii) (simp add: paramText_def)
  then show ?thesis unfolding scanParams_def scanField_def lits
    by (simp add: scanUint_itoa scanUint_itoa [where rs = "[]", simplified] digitRune_def small [simplified])
qed

lemma params_split: "length (split_on (CHR '','') (paramText m t p)) = 3"
proof -
  have "CHR '','' \<notin> set (''m='' @ itoa_nat (unat m))" "CHR '','' \<notin> set (''t='' @ itoa_nat (unat t))"
    "CHR '','' \<notin> set (''p='' @ itoa_nat (unat p))"
    by (simp_all add: itoa_nat_chars)
  moreover have "paramText m t p = (''m='' @ itoa_nat (unat m)) @ CHR '','' # (''t='' @ itoa_nat (unat t)) @
      CHR '','' # (''p='' @ itoa_nat (unat p))"
    by (simp add: paramText_def)
  ultimately show ?thesis
    by (simp only: split_on_append split_on_absent not_False_eq_True list.size)
qed

lemma hash_split:
  "split_on (CHR ''$'') (hashText m t p salt hash) =
     [[], ''argon2id'', ''v=19'', paramText m t p, b64_EncodeToString salt, b64_EncodeToString hash]"
proof -
  have "CHR ''$'' \<notin> set (paramText m t p)" by (simp add: paramText_def itoa_nat_chars)
  moreover have "hashText m t p salt hash =
      [] @ CHR ''$'' # ''argon2id'' @ CHR ''$'' # ''v=19'' @ CHR ''$'' # paramText m t p @ CHR ''$'' #
      b64_EncodeToString salt @ CHR ''$'' # b64_EncodeToString hash"
    by (simp add: hashText_def paramText_def)
  moreover have "CHR ''$'' \<notin> set ''argon2id''" "CHR ''$'' \<notin> set ''v=19''" "CHR ''$'' \<notin> set []" by simp_all
  ultimately show ?thesis by (simp only: split_on_append split_on_absent b64_no_dollar not_False_eq_True)
qed

text \<open>What verifying a password against a stored one computes.\<close>

lemma Verify_hashText:
  assumes "m \<noteq> 0" "t \<noteq> 0" "p \<noteq> 0" "salt \<noteq> []" "hash \<noteq> []"
  shows "VerifyPassword cy raw (hashText m t p salt hash) =
     (if int (length raw) < minPasswordLength then Some ErrInvalidPassword
      else if ac_argon2 cy (bytes_of raw) salt t m p (word_of_nat (length hash)) \<noteq> hash then Some ErrInvalidPassword
      else None)"
  using assms
  by (simp add: VerifyPassword_def ValidatePassword_def hash_split params_split scanParams_paramText)

end
