(* ===== verification/Transport_Model.thy ===== *)
theory Transport_Model
  imports Broker_Model Frame_Codec Auth_Credentials
begin

text \<open>
  The daemon's side of a connection with a client (\<open>internal/tunnel/daemon/connectivity_transport.go\<close>) and its
  messages (\<open>internal/connectivity/sessionproto/sessionproto.go\<close>). \<open>Serve\<close> checks the client's first frame, sends the
  index of the sessions and then runs two goroutines, one that reads the control stream and one that follows the
  broker's events; every interactive stream has a goroutine of its own. Each goroutine is a function from its program
  point to what its next section does, so that they can be interleaved. JSON texts are the functions of record
  \<open>jsonCodec\<close>; a stream is the list of frames written on it; whether a write succeeds is an argument.
\<close>

section \<open>Messages (sessionproto.go)\<close>

definition ActorMobile :: string where "ActorMobile = ''mobile''"
definition ActorDaemon :: string where "ActorDaemon = ''daemon''"
definition PathDirect :: string where "PathDirect = ''direct''"
definition PathRelay :: string where "PathRelay = ''relay''"
definition ProtocolVersion :: int where "ProtocolVersion = 2"

record Hello =
  he_ProtocolVersion :: int
  he_ActorType :: string
  he_ClientFingerprint :: string
  he_PathKind :: string

record SessionMetadata =
  sm_SessionID :: string
  sm_Label :: string
  sm_CommandPreview :: string
  sm_CWD :: string
  sm_GitBranch :: string
  sm_StartedAt :: int
  sm_UpdatedAt :: int
  sm_Online :: bool

record PathState =
  ps_AttemptID :: string
  ps_PathKind :: string
  ps_FallbackReason :: string
  ps_DirectSetupLatencyMS :: int
  ps_RelaySetupLatencyMS :: int

record InteractiveRequest =
  ir_SessionID :: string
  ir_Cols :: int
  ir_Rows :: int

text \<open>What the daemon writes: a constructor for each structure, with its fields in order.\<close>

datatype payload =
    HelloMsg Hello
  | SessionIndexMsg "SessionMetadata list"
  | SessionUpsertMsg SessionMetadata
  | SessionGoneMsg string
  | PreviewSnapshotMsg string string int
  | InteractiveGrantedMsg string int int int
  | InteractiveDeniedMsg string string
  | PathStateMsg PathState
  | ErrorMsg string string
  | SnapshotBeginMsg string int int
  | SnapshotEndMsg string int

text \<open>What a client writes on the control stream.\<close>

datatype controlMessage =
    MsgInteractiveRequest InteractiveRequest
  | MsgInteractiveRelease string
  | MsgPreviewSubscribe string
  | MsgPreviewUnsubscribe string
  | MsgInputText string string bool
  | MsgInputKey string string
  | MsgResize string int int
  | MsgUnknown

text \<open>
  \<open>json.Marshal\<close> of a message, which does not fail on these structures, and \<open>json.Unmarshal\<close> into the structures a
  client sends; the three that have a session id only share a field.
\<close>

record jsonCodec =
  js_marshal :: "payload \<Rightarrow> byte list"
  js_hello :: "byte list \<Rightarrow> Hello option"
  js_request :: "byte list \<Rightarrow> InteractiveRequest option"
  js_session :: "byte list \<Rightarrow> string option"
  js_text :: "byte list \<Rightarrow> (string \<times> string \<times> bool) option"
  js_key :: "byte list \<Rightarrow> (string \<times> string) option"
  js_resize :: "byte list \<Rightarrow> (string \<times> int \<times> int) option"

section \<open>Frame types (frame.go)\<close>

definition TypeHello :: byte where "TypeHello = 0x01"
definition TypeSessionIndex :: byte where "TypeSessionIndex = 0x02"
definition TypePreviewSubscribe :: byte where "TypePreviewSubscribe = 0x03"
definition TypeSessionUpsert :: byte where "TypeSessionUpsert = 0x04"
definition TypeSessionGone :: byte where "TypeSessionGone = 0x05"
definition TypePreviewUnsubscribe :: byte where "TypePreviewUnsubscribe = 0x06"
definition TypePreviewSnapshot :: byte where "TypePreviewSnapshot = 0x07"
definition TypeInteractiveRequest :: byte where "TypeInteractiveRequest = 0x08"
definition TypeInteractiveGranted :: byte where "TypeInteractiveGranted = 0x09"
definition TypeInteractiveDenied :: byte where "TypeInteractiveDenied = 0x0a"
definition TypeInteractiveRelease :: byte where "TypeInteractiveRelease = 0x0b"
definition TypeInputText :: byte where "TypeInputText = 0x0c"
definition TypeInputKey :: byte where "TypeInputKey = 0x0d"
definition TypeResize :: byte where "TypeResize = 0x0e"
definition TypePathState :: byte where "TypePathState = 0x0f"
definition TypeSnapshotBegin :: byte where "TypeSnapshotBegin = 0x10"
definition TypeSnapshotChunk :: byte where "TypeSnapshotChunk = 0x11"
definition TypeLiveBytes :: byte where "TypeLiveBytes = 0x12"
definition TypeSnapshotEnd :: byte where "TypeSnapshotEnd = 0x13"
definition TypeError :: byte where "TypeError = 0x7f"

lemmas frame_types = TypeHello_def TypeSessionIndex_def TypePreviewSubscribe_def TypeSessionUpsert_def TypeSessionGone_def
  TypePreviewUnsubscribe_def TypePreviewSnapshot_def TypeInteractiveRequest_def TypeInteractiveGranted_def
  TypeInteractiveDenied_def TypeInteractiveRelease_def TypeInputText_def TypeInputKey_def TypeResize_def TypePathState_def
  TypeSnapshotBegin_def TypeSnapshotChunk_def TypeLiveBytes_def TypeSnapshotEnd_def TypeError_def

section \<open>The transport\<close>

record ConnectivityTransport =
  ct_DaemonFingerprint :: string
  ct_AndroidFingerprint :: string
  ct_PathKind :: string
  ct_AttemptID :: string
  ct_FallbackReason :: string
  ct_DirectSetupLatency :: duration
  ct_RelaySetupLatency :: duration
  ct_MaxPayload :: int

definition maxPayload :: "ConnectivityTransport \<Rightarrow> int" where
  "maxPayload t = (if ct_MaxPayload t \<le> 0 then DefaultMaxPayload else ct_MaxPayload t)"

definition millisecond :: duration where "millisecond = 1000000"

definition durationMillis :: "duration \<Rightarrow> int" where
  "durationMillis d = (if d \<le> 0 then 0 else d div millisecond)"

datatype transportError =
    ErrConnectivityProtocolVersion
  | ErrConnectivityDeviceUntrusted
  | ErrFrameRead frameError
  | ErrFrameType
  | ErrJSON
  | ErrTransportWrite

definition jsonFrame :: "jsonCodec \<Rightarrow> byte \<Rightarrow> payload \<Rightarrow> Frame" where
  "jsonFrame j typ p = \<lparr>fr_Type = typ, fr_Payload = js_marshal j p\<rparr>"

definition readConnectivityJSON ::
    "(byte list \<Rightarrow> 'a option) \<Rightarrow> byte \<Rightarrow> int \<Rightarrow> reader \<Rightarrow> (transportError + 'a) \<times> reader" where
  "readConnectivityJSON unmarshal typ maxLen r =
     (case Read r maxLen of
        (Inl e, r1) \<Rightarrow> (Inl (ErrFrameRead e), r1)
      | (Inr got, r1) \<Rightarrow>
          if fr_Type got \<noteq> typ then (Inl ErrFrameType, r1)
          else case unmarshal (fr_Payload got) of None \<Rightarrow> (Inl ErrJSON, r1) | Some p \<Rightarrow> (Inr p, r1))"

definition brokerSessionMetadataOne :: "BrokerSessionSnapshot \<Rightarrow> SessionMetadata" where
  "brokerSessionMetadataOne session =
     (let s = sn_BrokerSession session
      in \<lparr>sm_SessionID = bs_SessionID s, sm_Label = bs_Label s, sm_CommandPreview = bs_CommandPreview s, sm_CWD = bs_CWD s,
          sm_GitBranch = bs_GitBranch s, sm_StartedAt = bs_StartedAt s, sm_UpdatedAt = bs_UpdatedAt s,
          sm_Online = bs_Online s\<rparr>)"

definition brokerSessionMetadata :: "BrokerSessionSnapshot list \<Rightarrow> SessionMetadata list" where
  "brokerSessionMetadata sessions = map brokerSessionMetadataOne sessions"

text \<open>
  The frames of a list in order until one cannot be encoded or written (\<open>ok i\<close> for the \<open>i\<close>-th): what was written, and
  whether it was all.
\<close>

fun writeFrames :: "(nat \<Rightarrow> bool) \<Rightarrow> Frame list \<Rightarrow> Frame list \<times> bool" where
  "writeFrames ok [] = ([], True)"
| "writeFrames ok (f # fs) =
     (case Encode f of
        Inl _ \<Rightarrow> ([], False)
      | Inr _ \<Rightarrow> if ok 0 then (let (written, all) = writeFrames (ok \<circ> Suc) fs in (f # written, all)) else ([], False))"

section \<open>The first frames of Serve\<close>

definition pathKindOf :: "ConnectivityTransport \<Rightarrow> string" where
  "pathKindOf t = (if ct_PathKind t = [] then PathRelay else ct_PathKind t)"

text \<open>The check of the client's hello: the error to return, with the frame that tells the client.\<close>

definition checkHello :: "ConnectivityTransport \<Rightarrow> Hello \<Rightarrow> (transportError \<times> string) option" where
  "checkHello t hello =
     (if he_ProtocolVersion hello \<noteq> ProtocolVersion
      then Some (ErrConnectivityProtocolVersion, ''protocol_version_mismatch'')
      else
        let untrusted = Some (ErrConnectivityDeviceUntrusted, ''device_not_trusted'');
            configured0 = TrimSpace (ct_AndroidFingerprint t)
        in if configured0 = [] then None
           else case NormalizeDeviceFingerprint configured0 of
               Inl _ \<Rightarrow> untrusted
             | Inr configured \<Rightarrow>
                 if configured = [] then None
                 else (case NormalizeDeviceFingerprint (TrimSpace (he_ClientFingerprint hello)) of
                         Inl _ \<Rightarrow> untrusted
                       | Inr client \<Rightarrow> if client \<noteq> configured then untrusted else None))"

text \<open>
  \<open>Serve\<close> up to the start of its goroutines: the frames written on the control stream, the rest of what the client
  sent, and the error, or the subscription with the broker.
\<close>

definition serveStart ::
    "jsonCodec \<Rightarrow> (nat \<Rightarrow> bool) \<Rightarrow> ConnectivityTransport \<Rightarrow> reader \<Rightarrow> Broker
      \<Rightarrow> (transportError + nat) \<times> Frame list \<times> reader \<times> Broker" where
  "serveStart j ok t control b =
     (case readConnectivityJSON (js_hello j) TypeHello (maxPayload t) control of
        (Inl e, r1) \<Rightarrow> (Inl e, [], r1, b)
      | (Inr hello, r1) \<Rightarrow>
          (case checkHello t hello of
             Some (e, code) \<Rightarrow> (Inl e, fst (writeFrames ok [jsonFrame j TypeError (ErrorMsg code [])]), r1, b)
           | None \<Rightarrow>
               let greeting = jsonFrame j TypeHello (HelloMsg \<lparr>he_ProtocolVersion = ProtocolVersion, he_ActorType = ActorDaemon,
                     he_ClientFingerprint = ct_DaemonFingerprint t, he_PathKind = pathKindOf t\<rparr>);
                   (written, all) = writeFrames ok [greeting]
               in if \<not> all then (Inl ErrTransportWrite, written, r1, b)
                  else
                    let (snapshot, sub, b1) = SnapshotMetadataAndSubscribe b;
                        index = jsonFrame j TypeSessionIndex (SessionIndexMsg (brokerSessionMetadata snapshot));
                        path = jsonFrame j TypePathState (PathStateMsg \<lparr>ps_AttemptID = ct_AttemptID t,
                          ps_PathKind = pathKindOf t, ps_FallbackReason = ct_FallbackReason t,
                          ps_DirectSetupLatencyMS = durationMillis (ct_DirectSetupLatency t),
                          ps_RelaySetupLatencyMS = durationMillis (ct_RelaySetupLatency t)\<rparr>);
                        (written', all') = writeFrames (ok \<circ> Suc) [index, path]
                    in if all' then (Inr sub, written @ written', r1, b1)
                       else (Inl ErrTransportWrite, written @ written', r1, cancelSubscription sub b1)))"

section \<open>Interactive streams\<close>

text \<open>
  An \<open>interactiveStreamState\<close> is its stream (its id and the frames written on it), its queue, whether \<open>done\<close> is closed,
  the session id that its \<open>onClose\<close> captured, and where its goroutine is: not started, in its loop, about to release the
  grant and to take the stream out of the map because a write failed, or returned. Taking a stream out of the map and
  closing it are one section: only the stream's own goroutine sees the closing, and what it does in between it could
  have done before.
\<close>

datatype streamPoint = StreamNew | StreamLoop | StreamRelease | StreamRemove | StreamStopped

record interactiveStreamState =
  is_session :: string
  is_id :: int
  is_frames :: "Frame list"
  is_queue :: "string list"
  is_done :: bool
  is_point :: streamPoint

text \<open>
  The variables that the goroutines of a connection share: the client's owner and subscription, \<open>subscribedPreviews\<close>,
  \<open>interactiveStreams\<close> with the objects it points to, and \<open>activeInteractive\<close>, which only the reader uses.
\<close>

record clientState =
  cs_owner :: nat
  cs_sub :: nat
  cs_previews :: "(string, unit) gomap"
  cs_streams :: "(string, nat) gomap"
  cs_heap :: "(nat, interactiveStreamState) gomap"
  cs_next :: nat
  cs_active :: "(string, unit) gomap"

definition connectivityInteractiveQueueLimit :: nat where "connectivityInteractiveQueueLimit = 64"

definition newClient :: "nat \<Rightarrow> nat \<Rightarrow> clientState" where
  "newClient owner sub = \<lparr>cs_owner = owner, cs_sub = sub, cs_previews = [], cs_streams = [], cs_heap = [], cs_next = 0,
     cs_active = []\<rparr>"

definition onStream :: "nat \<Rightarrow> (interactiveStreamState \<Rightarrow> interactiveStreamState) \<Rightarrow> clientState \<Rightarrow> clientState" where
  "onStream p f c =
     (case gm_get (cs_heap c) p of None \<Rightarrow> c | Some s \<Rightarrow> c\<lparr>cs_heap := gm_put p (f s) (cs_heap c)\<rparr>)"

definition newInteractiveStreamState :: "string \<Rightarrow> int \<Rightarrow> interactiveStreamState" where
  "newInteractiveStreamState sessionID streamID =
     \<lparr>is_session = sessionID, is_id = streamID, is_frames = [], is_queue = [], is_done = False, is_point = StreamNew\<rparr>"

definition closeInteractiveStreamState :: "nat option \<Rightarrow> clientState \<Rightarrow> clientState" where
  "closeInteractiveStreamState state c =
     (case state of None \<Rightarrow> c | Some p \<Rightarrow> onStream p (\<lambda>s. s\<lparr>is_done := True\<rparr>) c)"

definition removeInteractiveStreamState :: "string \<Rightarrow> nat option \<Rightarrow> clientState \<Rightarrow> clientState" where
  "removeInteractiveStreamState sessionID state c =
     closeInteractiveStreamState state
       (if gm_get (cs_streams c) sessionID = state then c\<lparr>cs_streams := gm_del sessionID (cs_streams c)\<rparr> else c)"

text \<open>\<open>enqueue\<close>; \<open>pickDone\<close> is the choice of the select when \<open>done\<close> is closed and the queue has room.\<close>

definition stream_enqueue :: "bool \<Rightarrow> string \<Rightarrow> interactiveStreamState \<Rightarrow> bool \<times> interactiveStreamState" where
  "stream_enqueue pickDone bytes s =
     (let room = length (is_queue s) < connectivityInteractiveQueueLimit
      in if bytes = [] then (True, s)
         else if is_done s \<and> (pickDone \<or> \<not> room) then (False, s)
         else if room then (True, s\<lparr>is_queue := is_queue s @ [bytes]\<rparr>)
         else (False, s))"

definition liveFrame :: "string \<Rightarrow> Frame" where
  "liveFrame bytes = \<lparr>fr_Type = TypeLiveBytes, fr_Payload = bytes_of bytes\<rparr>"

text \<open>
  The next section of the goroutine that \<open>start\<close> runs for the stream \<open>p\<close>. In its select it takes the
  queue, or returns when \<open>done\<close> is closed, or closes the stream when the context has ended.
\<close>

datatype streamChoice = TakeQueue | TakeDone | TakeContext

definition streamStep ::
    "streamChoice \<Rightarrow> bool \<Rightarrow> nat \<Rightarrow> clientState \<Rightarrow> Broker \<Rightarrow> clientState \<times> Broker" where
  "streamStep choice ok p c b =
     (case gm_get (cs_heap c) p of
        None \<Rightarrow> (c, b)
      | Some s \<Rightarrow>
          (case is_point s of
             StreamNew \<Rightarrow> (c, b)
           | StreamLoop \<Rightarrow>
               (case choice of
                  TakeContext \<Rightarrow> (onStream p (\<lambda>s. s\<lparr>is_done := True, is_point := StreamStopped\<rparr>) c, b)
                | TakeDone \<Rightarrow> (if is_done s then onStream p (\<lambda>s. s\<lparr>is_point := StreamStopped\<rparr>) c else c, b)
                | TakeQueue \<Rightarrow>
                    (case is_queue s of
                       [] \<Rightarrow> (c, b)
                     | bytes # rest \<Rightarrow>
                         let (written, all) = writeFrames (\<lambda>_. ok) [liveFrame bytes]
                         in (onStream p (\<lambda>s. s\<lparr>is_queue := rest, is_frames := is_frames s @ written,
                               is_point := (if all then StreamLoop else StreamRelease)\<rparr>) c, b)))
           | StreamRelease \<Rightarrow> (onStream p (\<lambda>s. s\<lparr>is_point := StreamRemove\<rparr>) c, ReleaseInteractive (is_session s) (Some (cs_owner c)) b)
           | StreamRemove \<Rightarrow>
               (onStream p (\<lambda>s. s\<lparr>is_point := StreamStopped\<rparr>) (removeInteractiveStreamState (is_session s) (Some p) c), b)
           | StreamStopped \<Rightarrow> (c, b)))"

section \<open>Snapshots\<close>

definition initialInteractiveSnapshot :: "InteractiveRequest \<Rightarrow> Broker \<Rightarrow> BrokerSessionSnapshot option \<times> int \<times> int" where
  "initialInteractiveSnapshot request b =
     (let snapshot = SnapshotBySession (ir_SessionID request) b
      in case snapshot of
          None \<Rightarrow> (None, ir_Cols request, ir_Rows request)
        | Some s \<Rightarrow>
            if sn_SnapshotCols s > 0 \<and> sn_SnapshotRows s > 0 then (snapshot, sn_SnapshotCols s, sn_SnapshotRows s)
            else (snapshot, ir_Cols request, ir_Rows request))"

text \<open>The loop over \<open>LatestSnapshot\<close> in pieces of \<open>maxPayload\<close> bytes.\<close>

function snapshotChunks :: "nat \<Rightarrow> nat \<Rightarrow> byte list \<Rightarrow> byte list list" where
  "snapshotChunks step start bytes =
     (if start < length bytes \<and> 0 < step
      then (let end1 = start + step; end2 = (if end1 > length bytes then length bytes else end1)
            in drop start (take end2 bytes)) # snapshotChunks step (start + step) bytes
      else [])"
  by auto
termination by (relation "measure (\<lambda>(step, start, bytes). length bytes - start)") auto

declare snapshotChunks.simps [simp del]

text \<open>The frames that \<open>writeInitialInteractiveSnapshot\<close> writes.\<close>

definition snapshotFrames ::
    "jsonCodec \<Rightarrow> ConnectivityTransport \<Rightarrow> InteractiveRequest \<Rightarrow> BrokerSessionSnapshot option \<Rightarrow> int \<Rightarrow> int \<Rightarrow> Frame list" where
  "snapshotFrames j t request snapshot cols rows =
     (let chunks = (case snapshot of
            None \<Rightarrow> []
          | Some s \<Rightarrow> if length (sn_LatestSnapshot s) > 0
              then snapshotChunks (nat (maxPayload t)) 0 (bytes_of (sn_LatestSnapshot s)) else [])
      in [jsonFrame j TypeSnapshotBegin (SnapshotBeginMsg (ir_SessionID request) cols rows)] @
         map (\<lambda>chunk. \<lparr>fr_Type = TypeSnapshotChunk, fr_Payload = chunk\<rparr>) chunks @
         [jsonFrame j TypeSnapshotEnd (SnapshotEndMsg (ir_SessionID request) (int (length chunks)))])"

definition writeInitialInteractiveSnapshot ::
    "jsonCodec \<Rightarrow> (nat \<Rightarrow> bool) \<Rightarrow> ConnectivityTransport \<Rightarrow> InteractiveRequest \<Rightarrow> BrokerSessionSnapshot option \<Rightarrow> int \<Rightarrow> int
      \<Rightarrow> Frame list \<times> bool" where
  "writeInitialInteractiveSnapshot j ok t request snapshot cols rows =
     writeFrames ok (snapshotFrames j t request snapshot cols rows)"

section \<open>The reader of the control stream\<close>

text \<open>\<open>json.Unmarshal\<close> of a control frame by its type, \<open>None\<close> when it fails. Unknown types are ignored.\<close>

definition controlOf :: "jsonCodec \<Rightarrow> Frame \<Rightarrow> controlMessage option" where
  "controlOf j got =
     (let typ = fr_Type got; raw = fr_Payload got
      in if typ = TypeInteractiveRequest then map_option MsgInteractiveRequest (js_request j raw)
         else if typ = TypeInteractiveRelease then map_option MsgInteractiveRelease (js_session j raw)
         else if typ = TypePreviewSubscribe then map_option MsgPreviewSubscribe (js_session j raw)
         else if typ = TypePreviewUnsubscribe then map_option MsgPreviewUnsubscribe (js_session j raw)
         else if typ = TypeInputText then map_option (\<lambda>(sid, text, submit). MsgInputText sid text submit) (js_text j raw)
         else if typ = TypeInputKey then map_option (\<lambda>(sid, key). MsgInputKey sid key) (js_key j raw)
         else if typ = TypeResize then map_option (\<lambda>(sid, cols, rows). MsgResize sid cols rows) (js_resize j raw)
         else Some MsgUnknown)"

text \<open>What a section meets: the frame that is read, the stream that is opened, and which writes succeed.\<close>

record stepEnv =
  se_frame :: "frameError + Frame"
  se_open :: "int option"
  se_ok :: "nat \<Rightarrow> bool"
  se_sessionOk :: "nat \<Rightarrow> BrokerFrame \<Rightarrow> bool"

datatype teffect = Control Frame | ToSession beffect

datatype grantError = GrantBroker brokerError | GrantOpen

datatype readerPoint =
    ReaderRead
  | ReaderGranted InteractiveRequest "brokerError option"
  | ReaderSnapped InteractiveRequest "brokerError option" "BrokerSessionSnapshot option" int int
  | ReaderReply InteractiveRequest "grantError option" "(nat \<times> int) option" "nat option" "BrokerSessionSnapshot option" int int
  | ReaderSnapshot InteractiveRequest nat "BrokerSessionSnapshot option" int int
  | ReaderAbort string "nat option"
  | ReaderReleased string
  | ReaderPreview string
  | ReaderReturn
  | ReaderDone

definition writeControl :: "stepEnv \<Rightarrow> Frame \<Rightarrow> teffect list \<times> bool" where
  "writeControl e f = (let (written, all) = writeFrames (se_ok e) [f] in (map Control written, all))"

definition writeError :: "jsonCodec \<Rightarrow> stepEnv \<Rightarrow> string \<Rightarrow> teffect list \<times> bool" where
  "writeError j e code = writeControl e (jsonFrame j TypeError (ErrorMsg code []))"

definition writeRouteError :: "jsonCodec \<Rightarrow> stepEnv \<Rightarrow> brokerError \<Rightarrow> teffect list \<times> bool" where
  "writeRouteError j e err =
     (if err = ErrBrokerInteractiveNotGranted then writeError j e ''interactive_not_granted''
      else writeError j e ''session_unavailable'')"

definition continue :: "teffect list \<times> bool \<Rightarrow> readerPoint \<Rightarrow> readerPoint \<times> teffect list" where
  "continue w pt = (if snd w then pt else ReaderReturn, fst w)"

text \<open>The three cases of input share their shape: the grant is looked up, then the broker routes the input.\<close>

definition routeInput ::
    "jsonCodec \<Rightarrow> stepEnv \<Rightarrow> string \<Rightarrow> brokerError option \<times> beffect list \<Rightarrow> clientState \<Rightarrow> readerPoint \<times> teffect list" where
  "routeInput j e sessionID routed c =
     (if gm_get (cs_active c) sessionID = None then continue (writeError j e ''interactive_not_granted'') ReaderRead
      else case routed of
          (None, es) \<Rightarrow> (ReaderRead, map ToSession es)
        | (Some err, es) \<Rightarrow>
            let (pt, es') = continue (writeRouteError j e err) ReaderRead in (pt, map ToSession es @ es'))"

text \<open>The first section of the case of the switch for a message.\<close>

definition handleControl ::
    "jsonCodec \<Rightarrow> stepEnv \<Rightarrow> controlMessage \<Rightarrow> clientState \<Rightarrow> Broker \<Rightarrow> readerPoint \<times> teffect list \<times> clientState \<times> Broker" where
  "handleControl j e m c b =
     (case m of
        MsgInteractiveRequest req \<Rightarrow>
          let (err, b1) = GrantInteractive (ir_SessionID req) (Some (cs_owner c)) b in (ReaderGranted req err, [], c, b1)
      | MsgInteractiveRelease sid \<Rightarrow>
          (ReaderReleased sid, [], c\<lparr>cs_active := gm_del sid (cs_active c)\<rparr>, ReleaseInteractive sid (Some (cs_owner c)) b)
      | MsgPreviewSubscribe sid \<Rightarrow>
          if sid \<noteq> [] then (ReaderPreview sid, [], c\<lparr>cs_previews := gm_put sid () (cs_previews c)\<rparr>, b)
          else (ReaderRead, [], c, b)
      | MsgPreviewUnsubscribe sid \<Rightarrow> (ReaderRead, [], c\<lparr>cs_previews := gm_del sid (cs_previews c)\<rparr>, b)
      | MsgInputText sid text submit \<Rightarrow>
          let (pt, es) = routeInput j e sid (RouteInputText (se_sessionOk e) sid (Some (cs_owner c)) text submit b) c in (pt, es, c, b)
      | MsgInputKey sid key \<Rightarrow>
          let (pt, es) = routeInput j e sid (RouteInputKey (se_sessionOk e) sid (Some (cs_owner c)) key b) c in (pt, es, c, b)
      | MsgResize sid cols rows \<Rightarrow>
          let (pt, es) = routeInput j e sid (RouteResize (se_sessionOk e) sid (Some (cs_owner c)) cols rows b) c in (pt, es, c, b)
      | MsgUnknown \<Rightarrow> (ReaderRead, [], c, b))"

text \<open>Opening the stream of a granted request and putting it into the map, or giving the grant back.\<close>

definition installStream :: "string \<Rightarrow> int \<Rightarrow> clientState \<Rightarrow> clientState" where
  "installStream sessionID streamID c =
     (let p = cs_next c
      in c\<lparr>cs_heap := gm_put p (newInteractiveStreamState sessionID streamID) (cs_heap c),
           cs_streams := gm_put sessionID p (cs_streams c), cs_next := Suc p\<rparr>)"

definition replyFrame :: "jsonCodec \<Rightarrow> InteractiveRequest \<Rightarrow> grantError option \<Rightarrow> (nat \<times> int) option \<Rightarrow> int \<Rightarrow> int \<Rightarrow> Frame" where
  "replyFrame j req err opened cols rows =
     (case err of
        None \<Rightarrow> jsonFrame j TypeInteractiveGranted (InteractiveGrantedMsg (ir_SessionID req)
          (case opened of None \<Rightarrow> 0 | Some (_, streamID) \<Rightarrow> streamID) cols rows)
      | Some x \<Rightarrow> jsonFrame j TypeInteractiveDenied (InteractiveDeniedMsg (ir_SessionID req)
          (if x = GrantBroker ErrBrokerInteractiveBusy then ''daemon_busy'' else ''session_unavailable'')))"

definition closeAllStreams :: "clientState \<Rightarrow> clientState" where
  "closeAllStreams c = fold (\<lambda>(_, p). closeInteractiveStreamState (Some p)) (cs_streams c) (c\<lparr>cs_streams := []\<rparr>)"

definition readerStep ::
    "jsonCodec \<Rightarrow> ConnectivityTransport \<Rightarrow> stepEnv \<Rightarrow> readerPoint \<Rightarrow> clientState \<Rightarrow> Broker
      \<Rightarrow> readerPoint \<times> teffect list \<times> clientState \<times> Broker" where
  "readerStep j t e pt c b =
     (case pt of
        ReaderRead \<Rightarrow>
          (case se_frame e of
             Inl _ \<Rightarrow> (ReaderReturn, [], c, b)
           | Inr got \<Rightarrow>
               (case controlOf j got of None \<Rightarrow> (ReaderReturn, [], c, b) | Some m \<Rightarrow> handleControl j e m c b))
      | ReaderGranted req err \<Rightarrow>
          let (snapshot, cols, rows) = initialInteractiveSnapshot req b in (ReaderSnapped req err snapshot cols rows, [], c, b)
      | ReaderSnapped req err snapshot cols rows \<Rightarrow>
          (case err of
             Some x \<Rightarrow> (ReaderReply req (Some (GrantBroker x)) None None snapshot cols rows, [], c, b)
           | None \<Rightarrow>
               (case se_open e of
                  None \<Rightarrow> (ReaderReply req (Some GrantOpen) None None snapshot cols rows, [], c,
                    ReleaseInteractive (ir_SessionID req) (Some (cs_owner c)) b)
                | Some streamID \<Rightarrow>
                    (ReaderReply req None (Some (cs_next c, streamID)) (gm_get (cs_streams c) (ir_SessionID req)) snapshot cols rows,
                     [], installStream (ir_SessionID req) streamID c, b)))
      | ReaderReply req err opened old snapshot cols rows \<Rightarrow>
          let c1 = closeInteractiveStreamState old c;
              c2 = (if err = None then c1\<lparr>cs_active := gm_put (ir_SessionID req) () (cs_active c1)\<rparr> else c1);
              (es, all) = writeControl e (replyFrame j req err opened cols rows)
          in (case opened of
                None \<Rightarrow> if all then ReaderRead else ReaderReturn
              | Some (p, _) \<Rightarrow> if all then ReaderSnapshot req p snapshot cols rows
                  else ReaderAbort (ir_SessionID req) (Some p), es, c2, b)
      | ReaderSnapshot req p snapshot cols rows \<Rightarrow>
          let (written, all) = writeInitialInteractiveSnapshot j (se_ok e) t req snapshot cols rows;
              c1 = onStream p (\<lambda>s. s\<lparr>is_frames := is_frames s @ written,
                is_point := (if all then StreamLoop else is_point s)\<rparr>) c
          in (if all then ReaderRead else ReaderAbort (ir_SessionID req) (Some p), [], c1, b)
      | ReaderAbort sid state \<Rightarrow> (ReaderReturn, [], removeInteractiveStreamState sid state c, b)
      | ReaderReleased sid \<Rightarrow> (ReaderRead, [], removeInteractiveStreamState sid (gm_get (cs_streams c) sid) c, b)
      | ReaderPreview sid \<Rightarrow>
          (case SnapshotBySession sid b of
             None \<Rightarrow> (ReaderRead, [], c, b)
           | Some snapshot \<Rightarrow>
               let (pt1, es) = continue (writeControl e (jsonFrame j TypePreviewSnapshot (PreviewSnapshotMsg
                     (bs_SessionID (sn_BrokerSession snapshot)) (sn_LatestPreview snapshot)
                     (bs_UpdatedAt (sn_BrokerSession snapshot))))) ReaderRead
               in (pt1, es, c, b))
      | ReaderReturn \<Rightarrow> (ReaderDone, [], closeAllStreams c, b)
      | ReaderDone \<Rightarrow> (ReaderDone, [], c, b))"

section \<open>The follower of the broker's events\<close>

datatype writerPoint =
    WriterWait
  | WriterEvent BrokerEvent
  | WriterGone string
  | WriterEnqueue string nat string
  | WriterRelease string nat
  | WriterOverflow string
  | WriterRemove string "nat option"
  | WriterReturn

definition afterWrite :: "teffect list \<times> bool \<Rightarrow> writerPoint \<times> teffect list" where
  "afterWrite w = (if snd w then WriterWait else WriterReturn, fst w)"

definition writerStep ::
    "jsonCodec \<Rightarrow> stepEnv \<Rightarrow> bool \<Rightarrow> writerPoint \<Rightarrow> clientState \<Rightarrow> Broker
      \<Rightarrow> writerPoint \<times> teffect list \<times> clientState \<times> Broker" where
  "writerStep j e pick pt c b =
     (case pt of
        WriterWait \<Rightarrow>
          (case receive (cs_sub c) b of
             (None, b1) \<Rightarrow> (WriterWait, [], c, b1)
           | (Some event, b1) \<Rightarrow> (WriterEvent event, [], c, b1))
      | WriterEvent event \<Rightarrow>
          (case ev_Type event of
             BrokerEventSessionUpsert \<Rightarrow>
               let (pt1, es) = afterWrite (writeControl e (jsonFrame j TypeSessionUpsert
                     (SessionUpsertMsg (brokerSessionMetadataOne (ev_Session event)))))
               in (pt1, es, c, b)
           | BrokerEventSessionGone \<Rightarrow>
               (WriterGone (ev_SessionID event), [],
                removeInteractiveStreamState (ev_SessionID event) (gm_get (cs_streams c) (ev_SessionID event)) c, b)
           | BrokerEventPreview \<Rightarrow>
               if gm_get (cs_previews c) (ev_SessionID event) = None then (WriterWait, [], c, b)
               else
                 let (pt1, es) = afterWrite (writeControl e (jsonFrame j TypePreviewSnapshot (PreviewSnapshotMsg
                       (ev_SessionID event) (sn_LatestPreview (ev_Session event))
                       (bs_UpdatedAt (sn_BrokerSession (ev_Session event))))))
                 in (pt1, es, c, b)
           | BrokerEventOutput \<Rightarrow>
               (case gm_get (cs_streams c) (ev_SessionID event) of
                  None \<Rightarrow> (WriterWait, [], c, b)
                | Some p \<Rightarrow>
                    (if length (ev_Output event) > 0 then WriterEnqueue (ev_SessionID event) p (ev_Output event)
                     else WriterWait, [], c, b))
           | BrokerEventOutputOverflow \<Rightarrow>
               (WriterOverflow (ev_SessionID event), [], c, ReleaseInteractive (ev_SessionID event) (Some (cs_owner c)) b))
      | WriterGone sid \<Rightarrow>
          let (pt1, es) = afterWrite (writeControl e (jsonFrame j TypeSessionGone (SessionGoneMsg sid))) in (pt1, es, c, b)
      | WriterEnqueue sid p bytes \<Rightarrow>
          (case gm_get (cs_heap c) p of
             None \<Rightarrow> (WriterWait, [], c, b)
           | Some s \<Rightarrow>
               let (done, s1) = stream_enqueue pick bytes s
               in (if done then WriterWait else WriterRelease sid p, [], c\<lparr>cs_heap := gm_put p s1 (cs_heap c)\<rparr>, b))
      | WriterRelease sid p \<Rightarrow> (WriterRemove sid (Some p), [], c, ReleaseInteractive sid (Some (cs_owner c)) b)
      | WriterOverflow sid \<Rightarrow> (WriterRemove sid (gm_get (cs_streams c) sid), [], c, b)
      | WriterRemove sid state \<Rightarrow> (WriterWait, [], removeInteractiveStreamState sid state c, b)
      | WriterReturn \<Rightarrow> (WriterReturn, [], c, b))"

section \<open>The end of Serve\<close>

text \<open>The deferred calls, in the order they run: the subscription is cancelled and the client's grants are released.\<close>

definition serveEnd :: "clientState \<Rightarrow> Broker \<Rightarrow> Broker" where
  "serveEnd c b = ReleaseInteractiveOwner (Some (cs_owner c)) (cancelSubscription (cs_sub c) b)"

end
