(* ===== verification/Broker_System.thy ===== *)
theory Broker_System
  imports Broker_Model
begin

text \<open>
  The broker with its connections as a transition system: every connection has a goroutine that reads a frame,
  makes the calls of the frame one by one and emits the event of a call after the call's section; steps of
  different goroutines and of the clients interleave. The invariant ties every session to the connection that
  registered it.
\<close>

section \<open>Steps\<close>

text \<open>
  A goroutine of \<open>serveConn\<close>: its \<open>owner\<close>, its variable \<open>registeredSessionID\<close>, the calls it still makes before it
  reads again, the event it has to emit, and whether it left the loop. When it leaves the loop the deferred calls
  are its last ones.
\<close>

record connGoroutine =
  cn_owner :: brokerConnection
  cn_registered :: string
  cn_todo :: "brokerCall list"
  cn_emit :: "BrokerEvent option"
  cn_returned :: bool

record brokerSystem =
  sy_broker :: Broker
  sy_conns :: "(nat, connGoroutine) gomap"

definition leaveLoop :: "brokerCall list \<Rightarrow> string \<Rightarrow> connGoroutine \<Rightarrow> connGoroutine" where
  "leaveLoop calls registered g =
     g\<lparr>cn_registered := [], cn_todo := calls @ deferredCalls registered, cn_returned := True\<rparr>"

definition readFrame :: "BrokerFrame \<Rightarrow> connGoroutine \<Rightarrow> connGoroutine" where
  "readFrame frame g =
     (let (calls, registered, returns) = handleFrame (cn_registered g) frame
      in if returns then leaveLoop calls registered g else g\<lparr>cn_registered := registered, cn_todo := calls\<rparr>)"

definition idle :: "connGoroutine \<Rightarrow> bool" where
  "idle g \<longleftrightarrow> cn_todo g = [] \<and> cn_emit g = None"

text \<open>What other goroutines do to a channel keeps it within its capacity.\<close>

definition subscriber_ok :: "brokerSubscriber \<Rightarrow> bool" where
  "subscriber_ok sub \<longleftrightarrow> length (sb_ch sub) \<le> subscriberBuffer"

definition polite :: "(nat \<Rightarrow> brokerSubscriber \<Rightarrow> brokerSubscriber) \<Rightarrow> bool" where
  "polite others \<longleftrightarrow> (\<forall>i sub. subscriber_ok sub \<longrightarrow> subscriber_ok (others i sub))"

inductive broker_step :: "brokerSystem \<Rightarrow> brokerSystem \<Rightarrow> bool" where
  Accept: "gm_get (sy_conns s) a = None \<Longrightarrow>
    broker_step s (s\<lparr>sy_conns := gm_put a \<lparr>cn_owner = \<lparr>bc_addr = a, bc_conn = Some conn\<rparr>, cn_registered = [],
      cn_todo = [], cn_emit = None, cn_returned = False\<rparr> (sy_conns s)\<rparr>)"
| Read: "gm_get (sy_conns s) a = Some g \<Longrightarrow> idle g \<Longrightarrow> \<not> cn_returned g \<Longrightarrow>
    broker_step s (s\<lparr>sy_conns := gm_put a (readFrame frame g) (sy_conns s)\<rparr>)"
| ReadError: "gm_get (sy_conns s) a = Some g \<Longrightarrow> idle g \<Longrightarrow> \<not> cn_returned g \<Longrightarrow>
    broker_step s (s\<lparr>sy_conns := gm_put a (leaveLoop [] (cn_registered g) g) (sy_conns s)\<rparr>)"
| Call: "gm_get (sy_conns s) a = Some g \<Longrightarrow> cn_todo g = call # rest \<Longrightarrow> cn_emit g = None \<Longrightarrow>
    callSection clk call (Some (cn_owner g)) (sy_broker s) = (e, previous, b1) \<Longrightarrow>
    broker_step s (s\<lparr>sy_broker := b1, sy_conns := gm_put a (g\<lparr>cn_todo := rest, cn_emit := e\<rparr>) (sy_conns s)\<rparr>)"
| Emit: "gm_get (sy_conns s) a = Some g \<Longrightarrow> cn_emit g = Some e \<Longrightarrow> polite others \<Longrightarrow>
    broker_step s (s\<lparr>sy_broker := emit pick others e (sy_broker s),
      sy_conns := gm_put a (g\<lparr>cn_emit := None\<rparr>) (sy_conns s)\<rparr>)"
| Finish: "gm_get (sy_conns s) a = Some g \<Longrightarrow> idle g \<Longrightarrow> cn_returned g \<Longrightarrow>
    broker_step s (s\<lparr>sy_conns := gm_del a (sy_conns s)\<rparr>)"
| Grant: "broker_step s (s\<lparr>sy_broker := snd (GrantInteractive sid p (sy_broker s))\<rparr>)"
| Release: "broker_step s (s\<lparr>sy_broker := ReleaseInteractive sid p (sy_broker s)\<rparr>)"
| ReleaseOwner: "broker_step s (s\<lparr>sy_broker := ReleaseInteractiveOwner p (sy_broker s)\<rparr>)"
| SubscribeStep: "broker_step s (s\<lparr>sy_broker := snd (Subscribe (sy_broker s))\<rparr>)"
| Cancel: "broker_step s (s\<lparr>sy_broker := cancelSubscription sub (sy_broker s)\<rparr>)"
| Receive: "broker_step s (s\<lparr>sy_broker := snd (receive sub (sy_broker s))\<rparr>)"

definition NewSystem :: brokerSystem where
  "NewSystem = \<lparr>sy_broker = NewBroker, sy_conns = []\<rparr>"

definition broker_reachable :: "brokerSystem \<Rightarrow> bool" where
  "broker_reachable s \<longleftrightarrow> broker_step\<^sup>*\<^sup>* NewSystem s"

section \<open>The invariant\<close>

text \<open>The goroutine \<open>g\<close> answers for the session \<open>sid\<close>: it registered it last, or is about to remove it.\<close>

definition answersFor :: "connGoroutine \<Rightarrow> string \<Rightarrow> bool" where
  "answersFor g sid \<longleftrightarrow> cn_registered g = sid \<or> CallRemove sid \<in> set (cn_todo g)"

definition goroutine_ok :: "nat \<Rightarrow> connGoroutine \<Rightarrow> bool" where
  "goroutine_ok a g \<longleftrightarrow> bc_addr (cn_owner g) = a \<and> bc_conn (cn_owner g) \<noteq> None \<and> TrimSpace (cn_registered g) = cn_registered g \<and>
     (cn_returned g \<longrightarrow> cn_registered g = []) \<and>
     (\<forall>session. CallRegister session \<in> set (cn_todo g) \<longrightarrow> TrimSpace (bs_SessionID session) = cn_registered g)"

definition session_ok :: "(nat, connGoroutine) gomap \<Rightarrow> string \<Rightarrow> brokerSessionState \<Rightarrow> bool" where
  "session_ok conns sid st \<longleftrightarrow> sid \<noteq> [] \<and> TrimSpace sid = sid \<and> bs_SessionID (st_session st) = sid \<and>
     (\<exists>a g. gm_get conns a = Some g \<and> st_owner st = Some (cn_owner g) \<and> answersFor g sid)"

definition broker_inv :: "brokerSystem \<Rightarrow> bool" where
  "broker_inv s \<longleftrightarrow> gm_wf (sy_conns s) \<and> gm_wf (bk_interactiveOwners (sy_broker s)) \<and>
     (\<forall>a g. gm_get (sy_conns s) a = Some g \<longrightarrow> goroutine_ok a g) \<and>
     (\<forall>sid st. gm_get (bk_sessions (sy_broker s)) sid = Some st \<longrightarrow> session_ok (sy_conns s) sid st) \<and>
     (\<forall>sid p. gm_get (bk_interactiveOwners (sy_broker s)) sid = Some p \<longrightarrow> gm_get (bk_sessions (sy_broker s)) sid \<noteq> None)"

lemma broker_invD:
  assumes "broker_inv s"
  shows "gm_wf (sy_conns s)" "gm_wf (bk_interactiveOwners (sy_broker s))"
    "gm_get (sy_conns s) a = Some g \<Longrightarrow> goroutine_ok a g"
    "gm_get (bk_sessions (sy_broker s)) sid = Some st \<Longrightarrow> session_ok (sy_conns s) sid st"
    "gm_get (bk_interactiveOwners (sy_broker s)) sid = Some p \<Longrightarrow> gm_get (bk_sessions (sy_broker s)) sid \<noteq> None"
  using assms unfolding broker_inv_def by blast+

section \<open>Subscribers do not touch sessions\<close>

lemma enqueueAt_frame [simp]:
  "bk_sessions (enqueueAt pick others e sub b) = bk_sessions b"
  "bk_interactiveOwners (enqueueAt pick others e sub b) = bk_interactiveOwners b"
  "bk_subscribers (enqueueAt pick others e sub b) = bk_subscribers b"
  by (simp_all add: enqueueAt_def split: option.splits)

lemma emit_frame [simp]:
  "bk_sessions (emit pick others e b) = bk_sessions b"
  "bk_interactiveOwners (emit pick others e b) = bk_interactiveOwners b"
  "bk_subscribers (emit pick others e b) = bk_subscribers b"
proof -
  have "bk_sessions (fold (\<lambda>(sub, _). enqueueAt pick others e sub) subs b) = bk_sessions b \<and>
      bk_interactiveOwners (fold (\<lambda>(sub, _). enqueueAt pick others e sub) subs b) = bk_interactiveOwners b \<and>
      bk_subscribers (fold (\<lambda>(sub, _). enqueueAt pick others e sub) subs b) = bk_subscribers b" for subs :: "(nat \<times> unit) list"
    by (induction subs arbitrary: b) auto
  then show "bk_sessions (emit pick others e b) = bk_sessions b"
    "bk_interactiveOwners (emit pick others e b) = bk_interactiveOwners b"
    "bk_subscribers (emit pick others e b) = bk_subscribers b" by (simp_all add: emit_def)
qed

lemma subscription_frame [simp]:
  "bk_sessions (snd (Subscribe b)) = bk_sessions b" "bk_interactiveOwners (snd (Subscribe b)) = bk_interactiveOwners b"
  "bk_sessions (cancelSubscription sub b) = bk_sessions b" "bk_interactiveOwners (cancelSubscription sub b) = bk_interactiveOwners b"
  "bk_sessions (snd (receive sub b)) = bk_sessions b" "bk_interactiveOwners (snd (receive sub b)) = bk_interactiveOwners b"
  by (simp_all add: Subscribe_def Let_def cancelSubscription_def receive_def split: option.splits list.splits)

section \<open>What a call does to the sessions\<close>

lemma callSection_cases:
  assumes "callSection clk call (Some c) b = (e, previous, b1)"
  obtains (same) "bk_sessions b1 = bk_sessions b" "bk_interactiveOwners b1 = bk_interactiveOwners b"
      "\<And>x st. call = CallRemove x \<Longrightarrow> TrimSpace x \<noteq> [] \<Longrightarrow> gm_get (bk_sessions b) (TrimSpace x) = Some st \<Longrightarrow> st_owner st \<noteq> Some c"
  | (put) sid st where "bk_sessions b1 = gm_put sid st (bk_sessions b)" "bk_interactiveOwners b1 = bk_interactiveOwners b"
      "sid \<noteq> []" "TrimSpace sid = sid" "st_owner st = Some c" "\<And>x. call \<noteq> CallRemove x"
      "bs_SessionID (st_session st) = sid \<or>
       (\<exists>st0. gm_get (bk_sessions b) sid = Some st0 \<and> bs_SessionID (st_session st) = bs_SessionID (st_session st0))"
      "(\<exists>session. call = CallRegister session \<and> TrimSpace (bs_SessionID session) = sid) \<or>
       (\<exists>st0. gm_get (bk_sessions b) sid = Some st0 \<and> st_owner st0 = Some c)"
  | (del) x where "call = CallRemove x" "TrimSpace x \<noteq> []"
      "bk_sessions b1 = gm_del (TrimSpace x) (bk_sessions b)"
      "bk_interactiveOwners b1 = gm_del (TrimSpace x) (bk_interactiveOwners b)"
proof (cases call)
  case (CallRegister session)
  let ?sid = "TrimSpace (bs_SessionID session)"
  show ?thesis
  proof (cases "?sid = []")
    case False
    then show ?thesis
      using assms CallRegister by (intro put [of ?sid "(case gm_get (bk_sessions b) ?sid of Some st \<Rightarrow> st | None \<Rightarrow> zeroSessionState)
          \<lparr>st_session := normalizeBrokerSession clk session, st_owner := Some c\<rparr>"])
        (auto simp: callSection_def register_locked_def Let_def normalizeBrokerSession_def)
  qed (use assms CallRegister same in \<open>auto simp: callSection_def register_locked_def Let_def normalizeBrokerSession_def\<close>)
next
  case (CallUpdateSession session)
  then show ?thesis using assms
    by (cases "e = None")
      (auto simp: callSection_def updateSession_locked_def Let_def normalizeBrokerSession_def
        split: if_splits option.splits intro: same put)
next
  case (CallUpdatePreview sid preview t)
  then show ?thesis using assms
    by (auto simp: callSection_def updatePreview_locked_def Let_def split: if_splits option.splits intro: same put)
next
  case (CallUpdateSnapshot sid snapshot cols rows)
  then show ?thesis using assms
    by (auto simp: callSection_def updateSnapshot_def Let_def split: if_splits option.splits intro: same put)
next
  case (CallRemove x)
  then show ?thesis using assms
    by (auto simp: callSection_def remove_locked_def Let_def split: if_splits option.splits intro: same del)
qed (use assms same in \<open>auto simp: callSection_def\<close>)

section \<open>Every step keeps the invariant\<close>

lemma session_holder:
  assumes "broker_inv s" "gm_get (bk_sessions (sy_broker s)) sid = Some st"
  obtains a h where "gm_get (sy_conns s) a = Some h" "st_owner st = Some (cn_owner h)" "answersFor h sid"
    "sid \<noteq> []" "TrimSpace sid = sid"
  using broker_invD(4) [OF assms] by (auto simp: session_ok_def)

lemma owned_answers:
  assumes inv: "broker_inv s" and "gm_get (sy_conns s) a = Some g" "gm_get (bk_sessions (sy_broker s)) sid = Some st"
    "st_owner st = Some (cn_owner g)"
  shows "answersFor g sid \<and> sid \<noteq> [] \<and> TrimSpace sid = sid"
proof -
  obtain a' h where h: "gm_get (sy_conns s) a' = Some h" "st_owner st = Some (cn_owner h)" "answersFor h sid"
    "sid \<noteq> []" "TrimSpace sid = sid" by (rule session_holder [OF inv assms(3)])
  then have "a' = a"
    using assms(4) broker_invD(3) [OF inv h(1)] broker_invD(3) [OF inv assms(2)] by (simp add: goroutine_ok_def)
  then show ?thesis using h assms(2) by simp
qed

text \<open>A goroutine changed in place still answers for the sessions it owns.\<close>

lemma session_ok_put:
  assumes "gm_get conns a = Some g" "cn_owner g' = cn_owner g"
    and "session_ok conns sid st" "st_owner st = Some (cn_owner g) \<Longrightarrow> answersFor g' sid"
    and "\<And>a' h. gm_get conns a' = Some h \<Longrightarrow> goroutine_ok a' h"
  shows "session_ok (gm_put a g' conns) sid st"
proof -
  obtain a' h where h: "gm_get conns a' = Some h" "st_owner st = Some (cn_owner h)" "answersFor h sid"
    using assms(3) by (auto simp: session_ok_def)
  show ?thesis
  proof (cases "a' = a")
    case True
    then have "answersFor g' sid" "st_owner st = Some (cn_owner g')" using h assms(1,2,4) by auto
    then show ?thesis using assms(3) by (auto simp: session_ok_def intro!: exI [of _ a])
  next
    case False
    then show ?thesis using h assms(3) by (auto simp: session_ok_def intro!: exI [of _ a'])
  qed
qed

lemma inv_goroutine:
  assumes inv: "broker_inv s" and g: "gm_get (sy_conns s) a = Some g"
    and ok: "goroutine_ok a g'" "cn_owner g' = cn_owner g"
    and keep: "\<And>sid. sid \<noteq> [] \<Longrightarrow> TrimSpace sid = sid \<Longrightarrow> answersFor g sid \<Longrightarrow> answersFor g' sid"
  shows "broker_inv (s\<lparr>sy_conns := gm_put a g' (sy_conns s)\<rparr>)"
proof -
  note I = broker_invD [OF inv]
  have "session_ok (gm_put a g' (sy_conns s)) sid st" if st: "gm_get (bk_sessions (sy_broker s)) sid = Some st" for sid st
  proof (rule session_ok_put [OF g ok(2) I(4) [OF st]])
    assume "st_owner st = Some (cn_owner g)"
    then show "answersFor g' sid" using owned_answers [OF inv g st] keep by blast
  qed (use I(3) in blast)
  then show ?thesis using I ok(1) by (simp add: broker_inv_def)
qed

lemma handleFrame_calls:
  assumes "handleFrame registered frame = (calls, registered', returns)" "TrimSpace registered = registered"
  shows "TrimSpace registered' = registered'"
    "CallRegister session \<in> set calls \<Longrightarrow> TrimSpace (bs_SessionID session) = registered' \<and> \<not> returns"
    "registered \<noteq> [] \<Longrightarrow> registered' = registered \<or> CallRemove registered \<in> set calls"
  using assms by (auto simp: handleFrame_def Let_def split: if_splits option.splits)

lemma inv_leave:
  assumes inv: "broker_inv s" and g: "gm_get (sy_conns s) a = Some g" and "cn_todo g = []"
    and "TrimSpace registered = registered" "\<And>session. CallRegister session \<notin> set calls"
    and "cn_registered g \<noteq> [] \<Longrightarrow> registered = cn_registered g \<or> CallRemove (cn_registered g) \<in> set calls"
  shows "broker_inv (s\<lparr>sy_conns := gm_put a (leaveLoop calls registered g) (sy_conns s)\<rparr>)"
  by (rule inv_goroutine [OF inv g])
    (use broker_invD(3) [OF inv g] assms(3-6) in \<open>auto simp: leaveLoop_def deferredCalls_def goroutine_ok_def answersFor_def\<close>)

lemma inv_read:
  assumes inv: "broker_inv s" and g: "gm_get (sy_conns s) a = Some g" and "idle g" "\<not> cn_returned g"
  shows "broker_inv (s\<lparr>sy_conns := gm_put a (readFrame frame g) (sy_conns s)\<rparr>)"
proof -
  obtain calls reg returns where hf: "handleFrame (cn_registered g) frame = (calls, reg, returns)" by (metis prod_cases3)
  have t: "TrimSpace (cn_registered g) = cn_registered g" using broker_invD(3) [OF inv g] by (simp add: goroutine_ok_def)
  note H = handleFrame_calls [OF hf t]
  show ?thesis
  proof (cases returns)
    case True
    then show ?thesis using inv_leave [OF inv g _ H(1), of calls] H assms(3) hf by (auto simp: readFrame_def idle_def)
  next
    case False
    have "broker_inv (s\<lparr>sy_conns := gm_put a (g\<lparr>cn_registered := reg, cn_todo := calls\<rparr>) (sy_conns s)\<rparr>)"
      by (rule inv_goroutine [OF inv g])
        (use broker_invD(3) [OF inv g] assms(3,4) H in \<open>auto simp: goroutine_ok_def answersFor_def idle_def\<close>)
    then show ?thesis using False hf by (simp add: readFrame_def)
  qed
qed

lemma inv_call:
  assumes inv: "broker_inv s" and g: "gm_get (sy_conns s) a = Some g" and todo: "cn_todo g = call # rest"
    and cs: "callSection clk call (Some (cn_owner g)) (sy_broker s) = (e, previous, b1)"
  shows "broker_inv (s\<lparr>sy_broker := b1, sy_conns := gm_put a (g\<lparr>cn_todo := rest, cn_emit := e\<rparr>) (sy_conns s)\<rparr>)"
proof -
  note I = broker_invD [OF inv]
  let ?g = "g\<lparr>cn_todo := rest, cn_emit := e\<rparr>" and ?conns = "gm_put a (g\<lparr>cn_todo := rest, cn_emit := e\<rparr>) (sy_conns s)"
  have gok: "goroutine_ok a g" by (rule I(3) [OF g])
  then have gok': "goroutine_ok a ?g" using todo by (auto simp: goroutine_ok_def)
  have keep: "session_ok ?conns sid st"
    if st: "gm_get (bk_sessions (sy_broker s)) sid = Some st"
      and del: "call = CallRemove sid \<Longrightarrow> st_owner st \<noteq> Some (cn_owner g)" for sid st
  proof (rule session_ok_put [OF g _ I(4) [OF st]])
    assume own: "st_owner st = Some (cn_owner g)"
    then have "answersFor g sid" using owned_answers [OF inv g st] by blast
    then show "answersFor ?g sid" using del own todo by (auto simp: answersFor_def)
  qed (use I(3) in auto)
  from cs have "(\<forall>sid st. gm_get (bk_sessions b1) sid = Some st \<longrightarrow> session_ok ?conns sid st) \<and>
      gm_wf (bk_interactiveOwners b1) \<and>
      (\<forall>sid p. gm_get (bk_interactiveOwners b1) sid = Some p \<longrightarrow> gm_get (bk_sessions b1) sid \<noteq> None)"
  proof (cases rule: callSection_cases)
    case same
    have "session_ok ?conns sid st" if st: "gm_get (bk_sessions (sy_broker s)) sid = Some st" for sid st
      by (rule keep [OF st]) (use same(3) [of sid st] st I(4) [OF st] in \<open>auto simp: session_ok_def\<close>)
    then show ?thesis using same I by auto
  next
    case (put sid st)
    have "bs_SessionID (st_session st) = sid" using put(7) I(4) by (auto simp: session_ok_def)
    moreover have "answersFor ?g sid"
    proof (use put(8) in \<open>elim disjE\<close>)
      assume "\<exists>session. call = CallRegister session \<and> TrimSpace (bs_SessionID session) = sid"
      then show ?thesis using gok todo by (auto simp: goroutine_ok_def answersFor_def)
    next
      assume "\<exists>st0. gm_get (bk_sessions (sy_broker s)) sid = Some st0 \<and> st_owner st0 = Some (cn_owner g)"
      then have "answersFor g sid" using owned_answers [OF inv g] by blast
      then show ?thesis using put(6) todo by (auto simp: answersFor_def)
    qed
    ultimately have new: "session_ok ?conns sid st" using put by (auto simp: session_ok_def intro!: exI [of _ a])
    have old: "session_ok ?conns sid' st'" if "gm_get (bk_sessions (sy_broker s)) sid' = Some st'" for sid' st'
      using keep [OF that] put(6) by blast
    show ?thesis using new old I put(1,2) by auto
  next
    case (del x)
    have "session_ok ?conns sid st" if st: "gm_get (bk_sessions b1) sid = Some st" for sid st
      by (rule keep) (use st del I(4) [of sid st] in \<open>auto simp: session_ok_def split: if_splits\<close>)
    then show ?thesis using del I by auto
  qed
  then show ?thesis using I gok' by (auto simp: broker_inv_def)
qed

lemma inv_broker:
  assumes "broker_inv s" "bk_sessions b1 = bk_sessions (sy_broker s)" "gm_wf (bk_interactiveOwners b1)"
    "\<And>sid p. gm_get (bk_interactiveOwners b1) sid = Some p \<Longrightarrow> gm_get (bk_sessions (sy_broker s)) sid \<noteq> None"
  shows "broker_inv (s\<lparr>sy_broker := b1\<rparr>)"
  using assms by (simp add: broker_inv_def)

lemma interactive_frames:
  "bk_sessions (snd (GrantInteractive sid p b)) = bk_sessions b" "bk_sessions (ReleaseInteractive sid p b) = bk_sessions b"
  "bk_sessions (ReleaseInteractiveOwner p b) = bk_sessions b"
  by (simp_all add: GrantInteractive_def ReleaseInteractive_def ReleaseInteractiveOwner_def Let_def split: option.splits)

lemma inv_connFinish:
  assumes inv: "broker_inv s" and g: "gm_get (sy_conns s) a = Some g" "idle g" "cn_returned g"
  shows "broker_inv (s\<lparr>sy_conns := gm_del a (sy_conns s)\<rparr>)"
proof -
  note I = broker_invD [OF inv]
  have "session_ok (gm_del a (sy_conns s)) sid st" if st: "gm_get (bk_sessions (sy_broker s)) sid = Some st" for sid st
  proof -
    obtain a' h where h: "gm_get (sy_conns s) a' = Some h" "st_owner st = Some (cn_owner h)" "answersFor h sid" "sid \<noteq> []"
      by (rule session_holder [OF inv st])
    then have "a' \<noteq> a" using g I(3) [OF g(1)] by (auto simp: answersFor_def idle_def goroutine_ok_def)
    then show ?thesis using h I(4) [OF st] by (auto simp: session_ok_def intro!: exI [of _ a'])
  qed
  then show ?thesis using I by (simp add: broker_inv_def)
qed

lemma inv_accept:
  assumes inv: "broker_inv s" and new: "gm_get (sy_conns s) a = None" and "goroutine_ok a g"
  shows "broker_inv (s\<lparr>sy_conns := gm_put a g (sy_conns s)\<rparr>)"
proof -
  note I = broker_invD [OF inv]
  have "session_ok (gm_put a g (sy_conns s)) sid st" if st: "gm_get (bk_sessions (sy_broker s)) sid = Some st" for sid st
  proof -
    obtain a' h where h: "gm_get (sy_conns s) a' = Some h" "st_owner st = Some (cn_owner h)" "answersFor h sid"
      by (rule session_holder [OF inv st])
    then have "a' \<noteq> a" using new by auto
    then show ?thesis using h I(4) [OF st] by (auto simp: session_ok_def intro!: exI [of _ a'])
  qed
  then show ?thesis using I assms(3) by (simp add: broker_inv_def)
qed

lemma broker_step_inv: "broker_step s s' \<Longrightarrow> broker_inv s \<Longrightarrow> broker_inv s'"
proof (induction rule: broker_step.induct)
  case (Accept s a conn)
  then show ?case by (intro inv_accept) (auto simp: goroutine_ok_def)
next
  case (ReadError s a g)
  then show ?case using broker_invD(3) [OF ReadError.prems ReadError.hyps(1)]
    by (intro inv_leave) (auto simp: idle_def goroutine_ok_def)
next
  case (Emit s a g e pick others)
  have "broker_inv (s\<lparr>sy_conns := gm_put a (g\<lparr>cn_emit := None\<rparr>) (sy_conns s)\<rparr>)"
    by (rule inv_goroutine [OF Emit.prems Emit.hyps(1)])
      (use broker_invD(3) [OF Emit.prems Emit.hyps(1)] in \<open>auto simp: goroutine_ok_def answersFor_def\<close>)
  then show ?case by (simp add: broker_inv_def)
next
  case (Grant s sid p)
  then show ?case using broker_invD(2,5) [OF Grant]
    by (intro inv_broker) (auto simp: interactive_frames, auto simp: GrantInteractive_def Let_def split: option.splits if_splits)
next
  case (Release s sid p)
  then show ?case using broker_invD(2,5) [OF Release]
    by (intro inv_broker) (auto simp: interactive_frames, auto simp: ReleaseInteractive_def Let_def split: if_splits)
next
  case (ReleaseOwner s p)
  then show ?case using broker_invD(2,5) [OF ReleaseOwner]
    by (intro inv_broker) (auto simp: interactive_frames, auto simp: ReleaseInteractiveOwner_def gm_get_drop split: option.splits if_splits)
qed (simp_all add: inv_read inv_call inv_connFinish broker_inv_def [of "_\<lparr>sy_broker := _\<rparr>"] broker_invD)

lemma broker_inv_New: "broker_inv NewSystem"
  by (simp add: broker_inv_def NewSystem_def NewBroker_def)

lemma reachable_broker_inv: "broker_reachable s \<Longrightarrow> broker_inv s"
  unfolding broker_reachable_def by (induction rule: rtranclp_induct) (auto simp: broker_inv_New broker_step_inv)

section \<open>Subscribers\<close>

text \<open>The subscribers of the set exist, and their channels hold at most \<open>subscriberBuffer\<close> events.\<close>

definition subs_inv :: "Broker \<Rightarrow> bool" where
  "subs_inv b \<longleftrightarrow> gm_wf (bk_sessions b) \<and> gm_wf (bk_subscribers b) \<and>
     (\<forall>k u. gm_get (bk_subscribers b) k = Some u \<longrightarrow> gm_get (bk_heap b) k \<noteq> None) \<and>
     (\<forall>k sub. gm_get (bk_heap b) k = Some sub \<longrightarrow> k < bk_nextPtr b \<and> subscriber_ok sub)"

lemma selectSend_ok: "subscriber_ok sub \<Longrightarrow> subscriber_ok (snd (selectSend pick e sub))"
  by (simp add: selectSend_def Let_def subscriber_ok_def)

lemma selectReceive_ok: "subscriber_ok sub \<Longrightarrow> subscriber_ok (snd (selectReceive pick sub))"
  by (auto simp: selectReceive_def Let_def subscriber_ok_def)

lemma enqueue_ok:
  assumes "polite others" "subscriber_ok sub"
  shows "subscriber_ok (enqueue pick others e sub)"
proof -
  obtain o1 s1 where s1: "selectSend (pick 0) e sub = (o1, s1)" by force
  obtain o2 s2 where s2: "selectReceive (pick 1) (others 0 s1) = (o2, s2)" by force
  have ok1: "subscriber_ok s1" using selectSend_ok [OF assms(2), of "pick 0" e] s1 by simp
  then have "subscriber_ok (others 0 s1)" using assms(1) by (simp add: polite_def)
  then have ok2: "subscriber_ok s2" using selectReceive_ok [of "others 0 s1" "pick 1"] s2 by simp
  then have "subscriber_ok (others 1 s2)" using assms(1) by (simp add: polite_def)
  then show ?thesis using ok1 ok2 selectSend_ok by (auto simp: enqueue_def s1 s2 Let_def simp del: One_nat_def split: selectOutcome.split)
qed

lemma enqueueAt_heap:
  "gm_get (bk_heap (enqueueAt pick others e sub b)) k =
     (if k = sub then map_option (enqueue pick others e) (gm_get (bk_heap b) k) else gm_get (bk_heap b) k)"
  "bk_nextPtr (enqueueAt pick others e sub b) = bk_nextPtr b"
  by (simp_all add: enqueueAt_def split: option.splits)

lemma emit_heap:
  assumes "gm_wf (bk_subscribers b)"
  shows "gm_get (bk_heap (emit pick others e b)) k =
     (if gm_get (bk_subscribers b) k = None then gm_get (bk_heap b) k
      else map_option (enqueue pick others e) (gm_get (bk_heap b) k))"
    "bk_nextPtr (emit pick others e b) = bk_nextPtr b"
proof -
  have "distinct (map fst subs) \<Longrightarrow> gm_get (bk_heap (fold (\<lambda>(sub, _). enqueueAt pick others e sub) subs b)) k =
     (if map_of subs k = None then gm_get (bk_heap b) k else map_option (enqueue pick others e) (gm_get (bk_heap b) k)) \<and>
     bk_nextPtr (fold (\<lambda>(sub, _). enqueueAt pick others e sub) subs b) = bk_nextPtr b" for subs :: "(nat \<times> unit) list"
  proof (induction subs arbitrary: b)
    case (Cons x subs)
    then show ?case using map_of_eq_None_iff [of subs "fst x"]
      by (cases x) (auto simp: enqueueAt_heap simp del: map_of_eq_None_iff split: if_splits)
  qed simp
  from this [of "bk_subscribers b"] assms
  show "gm_get (bk_heap (emit pick others e b)) k =
     (if gm_get (bk_subscribers b) k = None then gm_get (bk_heap b) k
      else map_option (enqueue pick others e) (gm_get (bk_heap b) k))"
    "bk_nextPtr (emit pick others e b) = bk_nextPtr b"
    by (simp_all add: emit_def gm_wf_def gm_get_def)
qed

lemma subs_emit: "polite others \<Longrightarrow> subs_inv b \<Longrightarrow> subs_inv (emit pick others e b)"
  by (auto simp: subs_inv_def emit_heap enqueue_ok split: if_splits)

lemma callSection_subscribers:
  assumes "callSection clk call owner b = (e, previous, b1)"
  shows "bk_subscribers b1 = bk_subscribers b" "bk_heap b1 = bk_heap b" "bk_nextPtr b1 = bk_nextPtr b"
  using assms
  by (auto simp: callSection_def register_locked_def updateSession_locked_def updatePreview_locked_def updateSnapshot_def
      remove_locked_def Let_def split: brokerCall.splits if_splits option.splits)

lemma subs_call:
  assumes "callSection clk call (Some c) b = (e, previous, b1)" "subs_inv b"
  shows "subs_inv b1"
  using assms(1) by (cases rule: callSection_cases)
    (use assms(2) in \<open>auto simp: subs_inv_def callSection_subscribers [OF assms(1)]\<close>)

lemma subs_step: "broker_step s s' \<Longrightarrow> subs_inv (sy_broker s) \<Longrightarrow> subs_inv (sy_broker s')"
proof (induction rule: broker_step.induct)
  case (SubscribeStep s)
  then show ?case by (auto simp: subs_inv_def Subscribe_def Let_def subscriber_ok_def less_Suc_eq)
next
  case (Cancel s sub)
  then show ?case by (auto simp: subs_inv_def cancelSubscription_def subscriber_ok_def split: option.splits)
next
  case (Receive s sub)
  then show ?case by (fastforce simp: subs_inv_def receive_def subscriber_ok_def split: option.splits list.splits)
next
  case (Grant s sid p)
  then show ?case by (auto simp: subs_inv_def GrantInteractive_def Let_def split: option.splits)
qed (simp_all add: subs_emit subs_call, simp_all add: subs_inv_def ReleaseInteractive_def ReleaseInteractiveOwner_def Let_def split: option.splits)

lemma reachable_subs_inv: "broker_reachable s \<Longrightarrow> subs_inv (sy_broker s)"
  unfolding broker_reachable_def
  by (induction rule: rtranclp_induct) (auto simp: subs_step, simp add: subs_inv_def NewSystem_def NewBroker_def)

end
