(* ===== verification/Transport_System.thy ===== *)
theory Transport_System
  imports Transport_Model Broker_System
begin

text \<open>
  A connection of a client at work: the reader, the follower of the broker's events and the goroutines of the streams
  interleave with each other and with everything the broker's other users do. A step carries the output events that
  the follower looked at. The invariant says whose stream is where; from it follows that a stream has the snapshot first
  and then the session's output without gaps.
\<close>

record transportSystem =
  ts_broker :: brokerSystem
  ts_client :: clientState
  ts_reader :: readerPoint
  ts_writer :: writerPoint

abbreviation ts_core :: "transportSystem \<Rightarrow> Broker" where "ts_core s \<equiv> sy_broker (ts_broker s)"

definition withCore :: "Broker \<Rightarrow> transportSystem \<Rightarrow> transportSystem" where
  "withCore b s = s\<lparr>ts_broker := (ts_broker s)\<lparr>sy_broker := b\<rparr>\<rparr>"

definition eventsSeen :: "writerPoint \<Rightarrow> (string \<times> string) list" where
  "eventsSeen pt =
     (case pt of
        WriterEvent event \<Rightarrow>
          if ev_Type event = BrokerEventOutput \<and> ev_Output event \<noteq> [] then [(ev_SessionID event, ev_Output event)] else []
      | _ \<Rightarrow> [])"

inductive transport_step ::
    "jsonCodec \<Rightarrow> ConnectivityTransport \<Rightarrow> transportSystem \<Rightarrow> (string \<times> string) list \<Rightarrow> transportSystem \<Rightarrow> bool"
  for j :: jsonCodec and t :: ConnectivityTransport where
  Others: "broker_step (ts_broker s) bs \<Longrightarrow> transport_step j t s [] (s\<lparr>ts_broker := bs\<rparr>)"
| Reader: "readerStep j t e (ts_reader s) (ts_client s) (ts_core s) = (pt, es, c, b) \<Longrightarrow>
    transport_step j t s [] (withCore b (s\<lparr>ts_reader := pt, ts_client := c\<rparr>))"
| Writer: "writerStep j e pick (ts_writer s) (ts_client s) (ts_core s) = (pt, es, c, b) \<Longrightarrow>
    transport_step j t s (eventsSeen (ts_writer s)) (withCore b (s\<lparr>ts_writer := pt, ts_client := c\<rparr>))"
| Cancelled: "ts_writer s = WriterWait \<Longrightarrow> transport_step j t s [] (s\<lparr>ts_writer := WriterReturn\<rparr>)"
| Streams: "streamStep choice ok p (ts_client s) (ts_core s) = (c, b) \<Longrightarrow>
    transport_step j t s [] (withCore b (s\<lparr>ts_client := c\<rparr>))"

inductive transport_run ::
    "jsonCodec \<Rightarrow> ConnectivityTransport \<Rightarrow> transportSystem \<Rightarrow> (string \<times> string) list \<Rightarrow> transportSystem \<Rightarrow> bool"
  for j :: jsonCodec and t :: ConnectivityTransport where
  run_refl: "transport_run j t s [] s"
| run_next: "transport_run j t s tr s1 \<Longrightarrow> transport_step j t s1 tr' s2 \<Longrightarrow> transport_run j t s (tr @ tr') s2"

text \<open>\<open>Serve\<close> starts its goroutines with the subscription \<open>sub\<close> and an owner of its own.\<close>

definition startServing :: "nat \<Rightarrow> nat \<Rightarrow> brokerSystem \<Rightarrow> transportSystem" where
  "startServing owner sub bs =
     \<lparr>ts_broker = bs, ts_client = newClient owner sub, ts_reader = ReaderRead, ts_writer = WriterWait\<rparr>"

definition transport_reachable :: "jsonCodec \<Rightarrow> ConnectivityTransport \<Rightarrow> transportSystem \<Rightarrow> bool" where
  "transport_reachable j t s \<longleftrightarrow> (\<exists>owner sub bs tr. transport_run j t (startServing owner sub bs) tr s)"

section \<open>The invariant\<close>

text \<open>A stream has a prefix of its snapshot until its goroutine starts, and then all of it before the live output.\<close>

definition frames_shape :: "jsonCodec \<Rightarrow> ConnectivityTransport \<Rightarrow> string \<Rightarrow> bool \<Rightarrow> Frame list \<Rightarrow> bool" where
  "frames_shape j t sid started frames \<longleftrightarrow> (\<exists>req snapshot cols rows. ir_SessionID req = sid \<and>
     (let F = snapshotFrames j t req snapshot cols rows
      in if started then \<exists>live. frames = F @ map liveFrame live else \<exists>n. frames = take n F))"

definition stream_shape :: "jsonCodec \<Rightarrow> ConnectivityTransport \<Rightarrow> interactiveStreamState \<Rightarrow> bool" where
  "stream_shape j t s \<longleftrightarrow> length (is_queue s) \<le> connectivityInteractiveQueueLimit \<and>
     frames_shape j t (is_session s) (is_point s \<noteq> StreamNew) (is_frames s)"

fun readerStream :: "readerPoint \<Rightarrow> (string \<times> nat) option" where
  "readerStream (ReaderReply req _ (Some (p, _)) _ _ _ _) = Some (ir_SessionID req, p)"
| "readerStream (ReaderSnapshot req p _ _ _) = Some (ir_SessionID req, p)"
| "readerStream _ = None"

fun writerStream :: "writerPoint \<Rightarrow> (string \<times> nat) option" where
  "writerStream (WriterEnqueue sid p _) = Some (sid, p)"
| "writerStream (WriterRelease sid p) = Some (sid, p)"
| "writerStream (WriterRemove sid (Some p)) = Some (sid, p)"
| "writerStream _ = None"

definition ofSession :: "clientState \<Rightarrow> string \<Rightarrow> nat \<Rightarrow> bool" where
  "ofSession c sid p \<longleftrightarrow> (\<exists>s. gm_get (cs_heap c) p = Some s \<and> is_session s = sid)"

definition client_ok :: "jsonCodec \<Rightarrow> ConnectivityTransport \<Rightarrow> clientState \<Rightarrow> bool" where
  "client_ok j t c \<longleftrightarrow> (\<forall>p s. gm_get (cs_heap c) p = Some s \<longrightarrow> p < cs_next c \<and> stream_shape j t s) \<and>
     (\<forall>sid p. gm_get (cs_streams c) sid = Some p \<longrightarrow> ofSession c sid p)"

definition transport_inv :: "jsonCodec \<Rightarrow> ConnectivityTransport \<Rightarrow> transportSystem \<Rightarrow> bool" where
  "transport_inv j t s \<longleftrightarrow> client_ok j t (ts_client s) \<and> (\<forall>sid p. ts_writer s \<noteq> WriterEnqueue sid p []) \<and>
     (\<forall>sid p. writerStream (ts_writer s) = Some (sid, p) \<longrightarrow> ofSession (ts_client s) sid p) \<and>
     (\<forall>sid p. readerStream (ts_reader s) = Some (sid, p) \<longrightarrow> (\<exists>x. gm_get (cs_heap (ts_client s)) p = Some x \<and>
        is_session x = sid \<and> is_point x = StreamNew \<and> is_frames x = []))"

section \<open>What a section does to the streams\<close>

lemma onStream_simps [simp]:
  "cs_streams (onStream p f c) = cs_streams c" "cs_next (onStream p f c) = cs_next c" "cs_owner (onStream p f c) = cs_owner c"
  "gm_get (cs_heap (onStream p f c)) q = (if q = p then map_option f (gm_get (cs_heap c) p) else gm_get (cs_heap c) q)"
  by (auto simp: onStream_def split: option.split)

lemma close_simps [simp]:
  "cs_streams (closeInteractiveStreamState x c) = cs_streams c" "cs_next (closeInteractiveStreamState x c) = cs_next c"
  "gm_get (cs_heap (closeInteractiveStreamState x c)) q =
     (if x = Some q then map_option (\<lambda>s. s\<lparr>is_done := True\<rparr>) (gm_get (cs_heap c) q) else gm_get (cs_heap c) q)"
  by (auto simp: closeInteractiveStreamState_def split: option.split)

lemma remove_simps [simp]:
  "cs_next (removeInteractiveStreamState sid x c) = cs_next c"
  "gm_get (cs_streams (removeInteractiveStreamState sid x c)) k =
     (if k = sid \<and> gm_get (cs_streams c) sid = x then None else gm_get (cs_streams c) k)"
  "gm_get (cs_heap (removeInteractiveStreamState sid x c)) q =
     (if x = Some q then map_option (\<lambda>s. s\<lparr>is_done := True\<rparr>) (gm_get (cs_heap c) q) else gm_get (cs_heap c) q)"
  by (auto simp: removeInteractiveStreamState_def)

text \<open>Streams that were there before a section: the same session, and only the reader starts one.\<close>

definition liveOf :: "interactiveStreamState \<Rightarrow> byte list list" where
  "liveOf x = map fr_Payload (filter (\<lambda>f. fr_Type f = TypeLiveBytes) (is_frames x))"

definition sameStream :: "interactiveStreamState \<Rightarrow> interactiveStreamState \<Rightarrow> bool" where
  "sameStream x y \<longleftrightarrow> is_session y = is_session x \<and> is_frames y = is_frames x \<and> is_queue y = is_queue x \<and> is_point y = is_point x"

definition streamsKept :: "clientState \<Rightarrow> clientState \<Rightarrow> bool" where
  "streamsKept c c' \<longleftrightarrow> cs_next c' = cs_next c \<and> (\<forall>sid p. gm_get (cs_streams c') sid = Some p \<longrightarrow> gm_get (cs_streams c) sid = Some p) \<and>
     (\<forall>p. rel_option sameStream (gm_get (cs_heap c) p) (gm_get (cs_heap c') p))"

lemma sameStream_refl [simp]: "sameStream x x" "sameStream x (x\<lparr>is_done := d\<rparr>)"
  by (simp_all add: sameStream_def)

lemma rel_sameStream_refl [simp]: "rel_option sameStream y y" "rel_option sameStream y (map_option (\<lambda>s. s\<lparr>is_done := d\<rparr>) y)"
  by (cases y; simp)+

lemma streamsKept_refl [simp]: "streamsKept c c"
  by (simp add: streamsKept_def)

lemma streamsKept_trans: "streamsKept c c1 \<Longrightarrow> streamsKept c1 c2 \<Longrightarrow> streamsKept c c2"
proof -
  have "rel_option sameStream x z" if "rel_option sameStream x y" "rel_option sameStream y z" for x y z
    using that by (cases x; cases y; cases z) (auto simp: sameStream_def)
  then show "streamsKept c c1 \<Longrightarrow> streamsKept c1 c2 \<Longrightarrow> streamsKept c c2" unfolding streamsKept_def by metis
qed

lemma streamsKept_close: "streamsKept c (closeInteractiveStreamState x c)"
  by (simp add: streamsKept_def)

lemma streamsKept_remove: "streamsKept c (removeInteractiveStreamState sid x c)"
  by (auto simp: streamsKept_def)

lemma streamsKept_closeAll: "streamsKept c (closeAllStreams c)"
proof -
  have "streamsKept c0 (fold (\<lambda>(_, p). closeInteractiveStreamState (Some p)) ps c0)" for ps :: "(string \<times> nat) list" and c0
    by (induction ps arbitrary: c0) (auto intro: streamsKept_trans [OF streamsKept_close])
  moreover have "streamsKept c (c\<lparr>cs_streams := []\<rparr>)" by (simp add: streamsKept_def)
  ultimately show ?thesis unfolding closeAllStreams_def using streamsKept_trans by blast
qed

text \<open>A step of the reader keeps the streams, or puts a new one into the map, or writes the snapshot.\<close>

lemma handleControl_kept:
  assumes "handleControl j e m c b = (pt', es, c', b')"
  shows "streamsKept c c'" "readerStream pt' = None"
proof -
  have inp: "readerStream (fst (routeInput j e sid routed c)) = None" for sid routed
    by (auto simp: routeInput_def continue_def Let_def split: option.split prod.split)
  show "streamsKept c c'" using assms
    by (cases m) (auto simp: handleControl_def Let_def streamsKept_def split: prod.splits if_splits)
  have "readerStream (fst (handleControl j e m c b)) = None"
    by (cases m) (simp_all add: handleControl_def Let_def split_def inp)
  then show "readerStream pt' = None" by (simp add: assms)
qed

lemma reader_cases:
  assumes "readerStep j t e pt c b = (pt', es, c', b')"
  obtains (kept) "streamsKept c c'" "readerStream pt' = None \<or> readerStream pt' = readerStream pt"
  | (install) sid n where "c' = installStream sid n c" "readerStream pt' = Some (sid, cs_next c)"
  | (snapshot) req p snap cols rows written all where "pt = ReaderSnapshot req p snap cols rows" "readerStream pt' = None"
      "writeFrames (se_ok e) (snapshotFrames j t req snap cols rows) = (written, all)"
      "c' = onStream p (\<lambda>s. s\<lparr>is_frames := is_frames s @ written, is_point := (if all then StreamLoop else is_point s)\<rparr>) c"
proof (cases pt)
  case ReaderRead
  then show ?thesis using assms handleControl_kept kept
    by (auto simp: readerStep_def split: sum.splits option.splits)
next
  case (ReaderSnapped req err snap cols rows)
  then show ?thesis using assms kept install by (auto simp: readerStep_def split: option.splits)
next
  case (ReaderReply req err opened old snap cols rows)
  then have "streamsKept c c'" "readerStream pt' = None \<or> readerStream pt' = readerStream pt"
    using assms streamsKept_close [of c old]
    by (auto simp: readerStep_def Let_def streamsKept_def split: option.splits prod.splits if_splits)
  then show ?thesis by (rule kept)
next
  case (ReaderSnapshot req p snap cols rows)
  then show ?thesis using assms snapshot
    by (auto simp: readerStep_def Let_def writeInitialInteractiveSnapshot_def split: prod.splits if_splits)
next
  case ReaderReturn
  then show ?thesis using assms kept streamsKept_closeAll by (auto simp: readerStep_def)
qed (use assms kept streamsKept_remove in \<open>auto simp: readerStep_def Let_def continue_def split: prod.splits option.splits if_splits\<close>)

lemma writer_cases:
  assumes "writerStep j e pick pt c b = (pt', es, c', b')"
  obtains (kept) "streamsKept c c'"
      "\<And>sid p. writerStream pt' = Some (sid, p) \<Longrightarrow> writerStream pt = Some (sid, p) \<or> gm_get (cs_streams c) sid = Some p"
      "\<And>sid p bytes. pt = WriterEnqueue sid p bytes \<Longrightarrow> gm_get (cs_heap c) p = None"
  | (enqueue) sid p bytes x fin x1 where "pt = WriterEnqueue sid p bytes" "gm_get (cs_heap c) p = Some x"
      "stream_enqueue pick bytes x = (fin, x1)" "c' = c\<lparr>cs_heap := gm_put p x1 (cs_heap c)\<rparr>"
      "pt' = (if fin then WriterWait else WriterRelease sid p)"
proof (cases pt)
  case (WriterEvent event)
  then show ?thesis using assms kept streamsKept_remove
    by (cases "ev_Type event")
      (auto simp: writerStep_def Let_def afterWrite_def split: option.splits prod.splits if_splits)
next
  case (WriterEnqueue sid p bytes)
  then show ?thesis using assms kept enqueue
    by (auto simp: writerStep_def Let_def split: option.splits prod.splits if_splits)
next
  case (WriterOverflow sid)
  then have same: "c' = c" "pt' = WriterRemove sid (gm_get (cs_streams c) sid)" using assms by (auto simp: writerStep_def)
  show ?thesis
    by (rule kept) (cases "gm_get (cs_streams c) sid"; auto simp: same WriterOverflow)+
qed (use assms kept streamsKept_remove in \<open>auto simp: writerStep_def Let_def afterWrite_def split: prod.splits option.splits if_splits\<close>)

lemma stream_cases:
  assumes "streamStep choice ok p c b = (c', b')"
  obtains (kept) "streamsKept c c'"
  | (wrote) x bytes rest written all where "gm_get (cs_heap c) p = Some x" "is_point x = StreamLoop" "is_queue x = bytes # rest"
      "writeFrames (\<lambda>_. ok) [liveFrame bytes] = (written, all)"
      "c' = onStream p (\<lambda>s. s\<lparr>is_queue := rest, is_frames := is_frames s @ written,
         is_point := (if all then StreamLoop else StreamRelease)\<rparr>) c"
  | (pointed) x pt d where "gm_get (cs_heap c) p = Some x" "is_point x \<notin> {StreamNew, StreamStopped}" "pt \<noteq> StreamNew"
      "gm_get (cs_heap c') p = Some (x\<lparr>is_done := d, is_point := pt\<rparr>)" "\<And>q. q \<noteq> p \<Longrightarrow> gm_get (cs_heap c') q = gm_get (cs_heap c) q"
      "cs_next c' = cs_next c" "\<And>sid q. gm_get (cs_streams c') sid = Some q \<Longrightarrow> gm_get (cs_streams c) sid = Some q"
      "is_point x = StreamRelease \<Longrightarrow> pt = StreamRemove"
      "is_point x = StreamRemove \<Longrightarrow> gm_get (cs_streams c') (is_session x) \<noteq> Some p"
proof (cases "gm_get (cs_heap c) p")
  case None
  then show ?thesis using assms kept by (simp add: streamStep_def)
next
  case (Some x)
  show ?thesis
  proof (cases "is_point x")
    case StreamLoop
    show ?thesis
    proof (cases choice)
      case TakeQueue
      show ?thesis
      proof (cases "is_queue x")
        case Nil
        then show ?thesis using assms Some StreamLoop TakeQueue kept by (simp add: streamStep_def)
      next
        case (Cons bytes rest)
        obtain written all where w: "writeFrames (\<lambda>_. ok) [liveFrame bytes] = (written, all)" by fastforce
        show ?thesis
          by (rule wrote [OF Some StreamLoop Cons w])
            (use assms Some StreamLoop TakeQueue Cons w in \<open>simp del: writeFrames.simps add: streamStep_def Let_def\<close>)
      qed
    next
      case TakeDone
      show ?thesis
      proof (cases "is_done x")
        case True
        then have "c' = onStream p (\<lambda>s. s\<lparr>is_point := StreamStopped\<rparr>) c"
          using assms Some StreamLoop TakeDone by (simp add: streamStep_def)
        then show ?thesis by (intro pointed [of x StreamStopped "is_done x"]) (simp_all add: Some StreamLoop)
      next
        case False
        then show ?thesis using assms Some StreamLoop TakeDone kept by (simp add: streamStep_def)
      qed
    next
      case TakeContext
      then have "c' = onStream p (\<lambda>s. s\<lparr>is_done := True, is_point := StreamStopped\<rparr>) c"
        using assms Some StreamLoop by (simp add: streamStep_def)
      then show ?thesis by (intro pointed [of x StreamStopped True]) (simp_all add: Some StreamLoop)
    qed
  next
    case StreamRelease
    then have "c' = onStream p (\<lambda>s. s\<lparr>is_point := StreamRemove\<rparr>) c" using assms Some by (simp add: streamStep_def)
    then show ?thesis by (intro pointed [of x StreamRemove "is_done x"]) (simp_all add: Some StreamRelease)
  next
    case StreamRemove
    then have "c' = onStream p (\<lambda>s. s\<lparr>is_point := StreamStopped\<rparr>) (removeInteractiveStreamState (is_session x) (Some p) c)"
      using assms Some by (simp add: streamStep_def)
    then show ?thesis by (intro pointed [of x StreamStopped True]) (auto simp: Some StreamRemove split: if_splits)
  qed (use assms Some kept in \<open>simp_all add: streamStep_def\<close>)
qed

section \<open>Every step keeps the invariant\<close>

lemma writeFrames_prefix: "writeFrames ok fs = (written, all) \<Longrightarrow> \<exists>n. written = take n fs \<and> (all \<longrightarrow> written = fs)"
proof (induction fs arbitrary: ok written all)
  case (Cons f fs)
  show ?case
  proof (cases "Encode f")
    case (Inr raw)
    obtain w a where w: "writeFrames (ok \<circ> Suc) fs = (w, a)" by fastforce
    obtain n where "w = take n fs" "a \<longrightarrow> w = fs" using Cons.IH [OF w] by blast
    then show ?thesis using Cons.prems Inr w
      by (cases "ok 0") (auto intro: exI [of _ "Suc n"] exI [of _ 0])
  qed (use Cons.prems in \<open>auto intro: exI [of _ 0]\<close>)
qed simp

lemma streamsKeptD:
  assumes "streamsKept c c'"
  shows "gm_get (cs_heap c) p = Some x \<Longrightarrow> \<exists>y. gm_get (cs_heap c') p = Some y \<and> sameStream x y"
    "gm_get (cs_heap c') p = Some y \<Longrightarrow> \<exists>x. gm_get (cs_heap c) p = Some x \<and> sameStream x y"
proof -
  have "rel_option sameStream (gm_get (cs_heap c) p) (gm_get (cs_heap c') p)" using assms by (simp add: streamsKept_def)
  then show "gm_get (cs_heap c) p = Some x \<Longrightarrow> \<exists>y. gm_get (cs_heap c') p = Some y \<and> sameStream x y"
    "gm_get (cs_heap c') p = Some y \<Longrightarrow> \<exists>x. gm_get (cs_heap c) p = Some x \<and> sameStream x y"
    by (simp_all add: option_rel_Some1 option_rel_Some2)
qed

lemma ofSession_kept: "streamsKept c c' \<Longrightarrow> ofSession c sid p \<Longrightarrow> ofSession c' sid p"
  using streamsKeptD(1) by (fastforce simp: ofSession_def sameStream_def)

lemma mapped_session:
  assumes "client_ok j t c" "gm_get (cs_streams c) sid = Some p"
  shows "ofSession c sid p" "gm_get (cs_heap c) p = Some x \<Longrightarrow> is_session x = sid" "ofSession c k p \<Longrightarrow> k = sid"
proof -
  show of_sid: "ofSession c sid p" using assms by (simp add: client_ok_def)
  then show "gm_get (cs_heap c) p = Some x \<Longrightarrow> is_session x = sid" "ofSession c k p \<Longrightarrow> k = sid"
    by (auto simp: ofSession_def)
qed

lemma client_ok_kept:
  assumes "client_ok j t c" "streamsKept c c'"
  shows "client_ok j t c'"
proof -
  have "p < cs_next c' \<and> stream_shape j t y" if y: "gm_get (cs_heap c') p = Some y" for p y
  proof -
    obtain x where x: "gm_get (cs_heap c) p = Some x" "sameStream x y"
      using streamsKeptD(2) [OF assms(2) y] by blast
    then have "p < cs_next c" "stream_shape j t x" using assms(1) by (auto simp: client_ok_def)
    then show ?thesis using x(2) assms(2) by (simp add: stream_shape_def sameStream_def streamsKept_def)
  qed
  moreover have "ofSession c' sid p" if "gm_get (cs_streams c') sid = Some p" for sid p
    using that assms ofSession_kept [OF assms(2)] by (auto simp: client_ok_def streamsKept_def)
  ultimately show ?thesis by (simp add: client_ok_def)
qed

text \<open>A section that changes one stream.\<close>

definition streamPut :: "nat \<Rightarrow> interactiveStreamState \<Rightarrow> interactiveStreamState \<Rightarrow> clientState \<Rightarrow> clientState \<Rightarrow> bool" where
  "streamPut p x y c c' \<longleftrightarrow> gm_get (cs_heap c) p = Some x \<and> gm_get (cs_heap c') p = Some y \<and> is_session y = is_session x \<and>
     (\<forall>q. q \<noteq> p \<longrightarrow> gm_get (cs_heap c') q = gm_get (cs_heap c) q) \<and> cs_next c' = cs_next c \<and>
     (\<forall>sid q. gm_get (cs_streams c') sid = Some q \<longrightarrow> gm_get (cs_streams c) sid = Some q)"

lemma ofSession_put: "streamPut p x y c c' \<Longrightarrow> ofSession c sid q \<Longrightarrow> ofSession c' sid q"
  unfolding streamPut_def ofSession_def by (cases "q = p") auto

lemma client_ok_put:
  assumes "client_ok j t c" "streamPut p x y c c'" "stream_shape j t x \<Longrightarrow> stream_shape j t y"
  shows "client_ok j t c'"
proof -
  have "q < cs_next c' \<and> stream_shape j t z" if "gm_get (cs_heap c') q = Some z" for q z
    using assms that unfolding client_ok_def streamPut_def by (cases "q = p") auto
  moreover have "ofSession c' sid q" if "gm_get (cs_streams c') sid = Some q" for sid q
    using that assms(1,2) ofSession_put [OF assms(2)] by (auto simp: client_ok_def streamPut_def)
  ultimately show ?thesis by (simp add: client_ok_def)
qed

lemma client_ok_install:
  assumes "client_ok j t c"
  shows "client_ok j t (installStream sid n c)" "ofSession c k q \<Longrightarrow> ofSession (installStream sid n c) k q"
proof -
  have fresh: "gm_get (cs_heap c) (cs_next c) = None"
    using assms by (cases "gm_get (cs_heap c) (cs_next c)") (auto simp: client_ok_def)
  have shape: "stream_shape j t (newInteractiveStreamState sid n)"
    unfolding stream_shape_def frames_shape_def Let_def newInteractiveStreamState_def
    by (auto intro!: exI [of _ "\<lparr>ir_SessionID = sid, ir_Cols = 0, ir_Rows = 0\<rparr>"] exI [of _ 0])
  show keep: "ofSession c k q \<Longrightarrow> ofSession (installStream sid n c) k q" for k q
    using fresh by (auto simp: ofSession_def installStream_def Let_def)
  then show "client_ok j t (installStream sid n c)"
    using assms shape unfolding client_ok_def
    by (auto simp: installStream_def Let_def ofSession_def newInteractiveStreamState_def less_Suc_eq split: if_splits)
qed

lemma shape_snapshot:
  assumes "is_point x = StreamNew" "is_frames x = []" "ir_SessionID req = is_session x" "stream_shape j t x"
    "writeFrames ok (snapshotFrames j t req snap cols rows) = (written, all)"
  shows "stream_shape j t (x\<lparr>is_frames := is_frames x @ written, is_point := (if all then StreamLoop else is_point x)\<rparr>)"
proof -
  obtain n where n: "written = take n (snapshotFrames j t req snap cols rows)" "all \<longrightarrow> written = snapshotFrames j t req snap cols rows"
    using writeFrames_prefix [OF assms(5)] by blast
  have "frames_shape j t (is_session x) all written"
    unfolding frames_shape_def Let_def
  proof (intro exI conjI)
    show "ir_SessionID req = is_session x" by (rule assms(3))
    show "if all then \<exists>live. written = snapshotFrames j t req snap cols rows @ map liveFrame live
      else \<exists>n. written = take n (snapshotFrames j t req snap cols rows)"
      using n by (auto intro: exI [of _ "[]"])
  qed
  then show ?thesis using assms(1,2,4) by (cases all) (simp_all add: stream_shape_def)
qed

lemma shape_enqueue: "stream_enqueue pick bytes x = (fin, y) \<Longrightarrow> stream_shape j t x \<Longrightarrow> stream_shape j t y"
  by (auto simp: stream_enqueue_def stream_shape_def Let_def split: if_splits)

lemma shape_live:
  assumes "stream_shape j t x" "is_point x = StreamLoop" "is_queue x = bytes # rest"
    "writeFrames ok [liveFrame bytes] = (written, all)" "pt \<noteq> StreamNew"
  shows "stream_shape j t (x\<lparr>is_queue := rest, is_frames := is_frames x @ written, is_point := pt\<rparr>)"
proof -
  have "written = [] \<or> written = [liveFrame bytes]"
    using assms(4) by (auto split: sum.splits if_splits)
  then have "\<exists>l. written = map liveFrame l" by (auto intro: exI [of _ "[]"] exI [of _ "[bytes]"])
  then have "\<exists>live'. F @ map liveFrame live @ written = F @ map liveFrame live'" for F live
    by (metis map_append)
  then have "frames_shape j t (is_session x) True (is_frames x @ written)"
    using assms(1,2) unfolding stream_shape_def frames_shape_def Let_def by fastforce
  then show ?thesis using assms(1,3,5) by (simp add: stream_shape_def)
qed

lemma shape_point: "stream_shape j t x \<Longrightarrow> is_point x \<noteq> StreamNew \<Longrightarrow> pt \<noteq> StreamNew \<Longrightarrow>
    stream_shape j t (x\<lparr>is_done := d, is_point := pt\<rparr>)"
  by (auto simp: stream_shape_def Let_def)

lemma withCore_simps [simp]:
  "ts_client (withCore b s) = ts_client s" "ts_reader (withCore b s) = ts_reader s" "ts_writer (withCore b s) = ts_writer s"
  "ts_core (withCore b s) = b"
  by (simp_all add: withCore_def)

lemma transport_invD:
  assumes "transport_inv j t s"
  shows "client_ok j t (ts_client s)" "ts_writer s \<noteq> WriterEnqueue sid p []"
    "writerStream (ts_writer s) = Some (sid, p) \<Longrightarrow> ofSession (ts_client s) sid p"
    "readerStream (ts_reader s) = Some (sid, p) \<Longrightarrow> \<exists>x. gm_get (cs_heap (ts_client s)) p = Some x \<and>
        is_session x = sid \<and> is_point x = StreamNew \<and> is_frames x = []"
  using assms unfolding transport_inv_def by blast+

text \<open>What the sections of the other goroutines leave of the stream that the reader is about to start.\<close>

definition notStarted :: "clientState \<Rightarrow> string \<Rightarrow> nat \<Rightarrow> bool" where
  "notStarted c sid p \<longleftrightarrow> (\<exists>x. gm_get (cs_heap c) p = Some x \<and> is_session x = sid \<and> is_point x = StreamNew \<and> is_frames x = [])"

lemma notStarted_kept: "streamsKept c c' \<Longrightarrow> notStarted c sid p \<Longrightarrow> notStarted c' sid p"
  using streamsKeptD(1) by (fastforce simp: notStarted_def sameStream_def)

lemma notStarted_put:
  "streamPut q x y c c' \<Longrightarrow> is_point x \<noteq> StreamNew \<or> is_point y = is_point x \<and> is_frames y = is_frames x \<Longrightarrow>
   notStarted c sid p \<Longrightarrow> notStarted c' sid p"
  unfolding streamPut_def notStarted_def by (cases "p = q") auto

lemma transport_invI:
  assumes "client_ok j t (ts_client s)" "\<And>sid p. ts_writer s \<noteq> WriterEnqueue sid p []"
    "\<And>sid p. writerStream (ts_writer s) = Some (sid, p) \<Longrightarrow> ofSession (ts_client s) sid p"
    "\<And>sid p. readerStream (ts_reader s) = Some (sid, p) \<Longrightarrow> notStarted (ts_client s) sid p"
  shows "transport_inv j t s"
  using assms by (simp add: transport_inv_def notStarted_def)

lemma inv_reader:
  assumes inv: "transport_inv j t s" and step: "readerStep j t e (ts_reader s) (ts_client s) (ts_core s) = (pt, es, c, b)"
  shows "transport_inv j t (withCore b (s\<lparr>ts_reader := pt, ts_client := c\<rparr>))"
proof -
  note I = transport_invD [OF inv]
  have started: "notStarted (ts_client s) sid p" if "readerStream (ts_reader s) = Some (sid, p)" for sid p
    using I(4) [OF that] by (simp add: notStarted_def)
  from step show ?thesis
  proof (cases rule: reader_cases)
    case kept
    then show ?thesis using I started
      by (intro transport_invI) (auto intro: client_ok_kept ofSession_kept notStarted_kept)
  next
    case (install sid n)
    have "notStarted c sid (cs_next (ts_client s))"
      by (simp add: install notStarted_def installStream_def Let_def newInteractiveStreamState_def)
    then show ?thesis using I client_ok_install [OF I(1)] install by (intro transport_invI) auto
  next
    case (snapshot req p snap cols rows written all)
    obtain x where x: "gm_get (cs_heap (ts_client s)) p = Some x" "is_session x = ir_SessionID req" "is_point x = StreamNew"
      "is_frames x = []" using I(4) [of "ir_SessionID req" p] snapshot(1) by auto
    let ?y = "x\<lparr>is_frames := is_frames x @ written, is_point := (if all then StreamLoop else is_point x)\<rparr>"
    have put: "streamPut p x ?y (ts_client s) c" using x(1) by (simp add: streamPut_def snapshot(4))
    have "stream_shape j t ?y" if "stream_shape j t x"
      using shape_snapshot [OF x(3,4) x(2) [symmetric] that snapshot(3)] .
    then show ?thesis using I client_ok_put [OF I(1) put] ofSession_put [OF put] snapshot(2)
      by (intro transport_invI) auto
  qed
qed

lemma inv_writer:
  assumes inv: "transport_inv j t s" and step: "writerStep j e pick (ts_writer s) (ts_client s) (ts_core s) = (pt, es, c, b)"
  shows "transport_inv j t (withCore b (s\<lparr>ts_writer := pt, ts_client := c\<rparr>))"
proof -
  note I = transport_invD [OF inv]
  have started: "notStarted (ts_client s) sid p" if "readerStream (ts_reader s) = Some (sid, p)" for sid p
    using I(4) [OF that] by (simp add: notStarted_def)
  have nonempty: "pt \<noteq> WriterEnqueue sid p []" for sid p
    using step I(2) by (auto simp: writerStep_def Let_def afterWrite_def
        split: writerPoint.splits BrokerEventType.splits option.splits prod.splits if_splits)
  from step show ?thesis
  proof (cases rule: writer_cases)
    case kept
    have "ofSession (ts_client s) sid p" if "gm_get (cs_streams (ts_client s)) sid = Some p" for sid p
      using I(1) that by (simp add: client_ok_def)
    then show ?thesis using I started kept nonempty
      by (intro transport_invI) (auto intro: client_ok_kept ofSession_kept notStarted_kept)
  next
    case (enqueue sid p bytes x fin y)
    have same: "is_session y = is_session x" "is_point y = is_point x" "is_frames y = is_frames x"
      using enqueue(3) by (auto simp: stream_enqueue_def Let_def split: if_splits)
    then have put: "streamPut p x y (ts_client s) c" using enqueue(2,4) by (simp add: streamPut_def)
    show ?thesis
      using I(3) [of sid p] client_ok_put [OF I(1) put shape_enqueue [OF enqueue(3)]] ofSession_put [OF put] enqueue(1,5) nonempty
        notStarted_put [OF put] same started
      by (intro transport_invI) (auto split: if_splits)
  qed
qed

lemma inv_streams:
  assumes inv: "transport_inv j t s" and step: "streamStep choice ok p (ts_client s) (ts_core s) = (c, b)"
  shows "transport_inv j t (withCore b (s\<lparr>ts_client := c\<rparr>))"
proof -
  note I = transport_invD [OF inv]
  have started: "notStarted (ts_client s) sid p" if "readerStream (ts_reader s) = Some (sid, p)" for sid p
    using I(4) [OF that] by (simp add: notStarted_def)
  have put: ?thesis if put: "streamPut p x y (ts_client s) c" and "is_point x \<noteq> StreamNew"
    and "stream_shape j t x \<Longrightarrow> stream_shape j t y" for x y
    using I(2,3) client_ok_put [OF I(1) put that(3)] ofSession_put [OF put] notStarted_put [OF put] that(2) started
    by (intro transport_invI) auto
  from step show ?thesis
  proof (cases rule: stream_cases)
    case kept
    then show ?thesis using I started
      by (intro transport_invI) (auto intro: client_ok_kept ofSession_kept notStarted_kept)
  next
    case (wrote x bytes rest written all)
    show ?thesis
      by (rule put [of x "x\<lparr>is_queue := rest, is_frames := is_frames x @ written, is_point := (if all then StreamLoop else StreamRelease)\<rparr>"])
        (use wrote shape_live [OF _ wrote(2-4)] in \<open>simp_all add: streamPut_def\<close>)
  next
    case (pointed x pt d)
    show ?thesis
      by (rule put [of x "x\<lparr>is_done := d, is_point := pt\<rparr>"]) (use pointed shape_point in \<open>auto simp: streamPut_def\<close>)
  qed
qed

lemma inv_step: "transport_step j t s tr s' \<Longrightarrow> transport_inv j t s \<Longrightarrow> transport_inv j t s'"
proof (induction rule: transport_step.induct)
  case (Cancelled s)
  then show ?case by (simp add: transport_inv_def)
qed (simp_all add: inv_reader inv_writer inv_streams, simp add: transport_inv_def)

lemma inv_run: "transport_run j t s tr s' \<Longrightarrow> transport_inv j t s \<Longrightarrow> transport_inv j t s'"
  by (induction rule: transport_run.induct) (auto intro: inv_step)

lemma start_inv: "transport_inv j t (startServing owner sub bs)"
  by (simp add: startServing_def newClient_def transport_inv_def client_ok_def)

lemma serving_inv: "transport_reachable j t s \<Longrightarrow> transport_inv j t s"
  using inv_run start_inv by (auto simp: transport_reachable_def)

section \<open>No gaps\<close>

text \<open>
  What the goroutines hold for the stream \<open>p\<close>: the live output written on it, its queue, and the bytes that the follower
  is about to put there. A stream fails when a goroutine has lost bytes of it and is about to take it out of the map.
\<close>

fun pendingFor :: "writerPoint \<Rightarrow> nat \<Rightarrow> string list" where
  "pendingFor (WriterEnqueue _ q bytes) p = (if q = p then [bytes] else [])"
| "pendingFor _ p = []"

fun carriedBy :: "interactiveStreamState option \<Rightarrow> string list \<Rightarrow> byte list list" where
  "carriedBy None pending = []"
| "carriedBy (Some x) pending = liveOf x @ map bytes_of (is_queue x) @ map bytes_of pending"

definition carried :: "transportSystem \<Rightarrow> nat \<Rightarrow> byte list list" where
  "carried s p = carriedBy (gm_get (cs_heap (ts_client s)) p) (pendingFor (ts_writer s) p)"

fun removing :: "writerPoint \<Rightarrow> nat \<Rightarrow> bool" where
  "removing (WriterRelease _ q) p \<longleftrightarrow> q = p"
| "removing (WriterRemove _ (Some q)) p \<longleftrightarrow> q = p"
| "removing _ p \<longleftrightarrow> False"

definition failing :: "transportSystem \<Rightarrow> nat \<Rightarrow> bool" where
  "failing s p \<longleftrightarrow> removing (ts_writer s) p \<or>
     (\<exists>x. gm_get (cs_heap (ts_client s)) p = Some x \<and> is_point x \<in> {StreamRelease, StreamRemove})"

definition outputsOf :: "string \<Rightarrow> (string \<times> string) list \<Rightarrow> byte list list" where
  "outputsOf sid tr = map (bytes_of \<circ> snd) (filter (\<lambda>e. fst e = sid) tr)"

lemma outputsOf_simps [simp]: "outputsOf sid [] = []" "outputsOf sid (tr @ tr') = outputsOf sid tr @ outputsOf sid tr'"
  by (simp_all add: outputsOf_def)

text \<open>What a step has to do to the stream \<open>p\<close> of \<open>sid\<close> if it leaves it in the map.\<close>

definition carries :: "string \<Rightarrow> nat \<Rightarrow> transportSystem \<Rightarrow> (string \<times> string) list \<Rightarrow> transportSystem \<Rightarrow> bool" where
  "carries sid p s tr s' \<longleftrightarrow> gm_get (cs_streams (ts_client s')) sid = Some p \<longrightarrow>
     gm_get (cs_streams (ts_client s)) sid = Some p \<and>
     (if failing s p then failing s' p else failing s' p \<or> carried s' p = carried s p @ outputsOf sid tr)"

lemma carries_kept:
  assumes "streamsKept (ts_client s) (ts_client s')"
    "gm_get (cs_streams (ts_client s')) sid = Some p \<Longrightarrow> removing (ts_writer s) p \<Longrightarrow> removing (ts_writer s') p"
    "gm_get (cs_streams (ts_client s')) sid = Some p \<Longrightarrow> \<not> removing (ts_writer s') p \<Longrightarrow>
       map bytes_of (pendingFor (ts_writer s') p) = map bytes_of (pendingFor (ts_writer s) p) @ outputsOf sid tr"
    "client_ok j t (ts_client s)"
  shows "carries sid p s tr s'"
  unfolding carries_def
proof
  assume p: "gm_get (cs_streams (ts_client s')) sid = Some p"
  then have p0: "gm_get (cs_streams (ts_client s)) sid = Some p" using assms(1) by (simp add: streamsKept_def)
  then obtain x where x: "gm_get (cs_heap (ts_client s)) p = Some x"
    using mapped_session(1) [OF assms(4)] by (auto simp: ofSession_def)
  then obtain y where y: "gm_get (cs_heap (ts_client s')) p = Some y" "sameStream x y" using streamsKeptD(1) [OF assms(1)] by blast
  then show "gm_get (cs_streams (ts_client s)) sid = Some p \<and>
     (if failing s p then failing s' p else failing s' p \<or> carried s' p = carried s p @ outputsOf sid tr)"
    using p0 x assms(2,3) [OF p] by (auto simp: failing_def carried_def sameStream_def liveOf_def)
qed

lemma snapshotFrames_not_live: "f \<in> set (snapshotFrames j t req snap cols rows) \<Longrightarrow> fr_Type f \<noteq> TypeLiveBytes"
  by (auto simp: snapshotFrames_def Let_def jsonFrame_def frame_types)

lemma carries_reader:
  assumes inv: "transport_inv j t s" and step: "readerStep j t e (ts_reader s) (ts_client s) (ts_core s) = (pt, es, c, b)"
  shows "p < cs_next (ts_client s) \<Longrightarrow> carries sid p s [] (withCore b (s\<lparr>ts_reader := pt, ts_client := c\<rparr>))"
  using step
proof (cases rule: reader_cases)
  case kept
  then show ?thesis using transport_invD(1) [OF inv] by (intro carries_kept) auto
next
  case (install k n)
  assume "p < cs_next (ts_client s)"
  then show ?thesis
    by (auto simp: carries_def install(1) installStream_def Let_def failing_def carried_def split: if_splits)
next
  case (snapshot req q snap cols rows written all)
  obtain x where x: "gm_get (cs_heap (ts_client s)) q = Some x" "is_point x = StreamNew" "is_frames x = []"
    using transport_invD(4) [OF inv, of "ir_SessionID req" q] snapshot(1) by auto
  have "set written \<subseteq> set (snapshotFrames j t req snap cols rows)"
    using writeFrames_prefix [OF snapshot(3)] set_take_subset by fastforce
  then have "filter (\<lambda>f. fr_Type f = TypeLiveBytes) written = []"
    using snapshotFrames_not_live by (fastforce simp: filter_empty_conv)
  then show ?thesis using x
    by (cases "p = q") (auto simp: carries_def snapshot(4) failing_def carried_def liveOf_def)
qed

lemma carries_streams:
  assumes inv: "transport_inv j t s" and step: "streamStep choice ok q (ts_client s) (ts_core s) = (c, b)"
  shows "carries sid p s [] (withCore b (s\<lparr>ts_client := c\<rparr>))"
  using step
proof (cases rule: stream_cases)
  case kept
  then show ?thesis using transport_invD(1) [OF inv] by (intro carries_kept) auto
next
  case (wrote x bytes rest written all)
  have "written = (if all then [liveFrame bytes] else [])"
    using wrote(4) by (auto split: sum.splits if_splits)
  then show ?thesis using wrote(1-3,5)
    by (cases "p = q") (auto simp: carries_def failing_def carried_def liveOf_def liveFrame_def)
next
  case (pointed x pt d)
  have "is_session x = sid" if "gm_get (cs_streams (ts_client s)) sid = Some q"
    using mapped_session(2) [OF transport_invD(1) [OF inv] that pointed(1)] .
  then show ?thesis using pointed
    by (cases "p = q") (auto simp: carries_def failing_def carried_def liveOf_def)
qed

lemma carries_writer:
  assumes inv: "transport_inv j t s" and step: "writerStep j e pick (ts_writer s) (ts_client s) (ts_core s) = (pt, es, c, b)"
  shows "carries sid p s (eventsSeen (ts_writer s)) (withCore b (s\<lparr>ts_writer := pt, ts_client := c\<rparr>))"
proof -
  note I = transport_invD [OF inv]
  note own = mapped_session(3) [OF I(1)] and mapped = mapped_session(1) [OF I(1)]
  from step show ?thesis
  proof (cases rule: writer_cases)
    case kept
    have sub: "gm_get (cs_streams (ts_client s)) sid = Some p" if "gm_get (cs_streams c) sid = Some p"
      using kept(1) that by (simp add: streamsKept_def)
    have "removing pt p" if p: "gm_get (cs_streams c) sid = Some p" and "removing (ts_writer s) p"
    proof (cases "ts_writer s")
      case (WriterRemove k x)
      then show ?thesis using that own [OF sub [OF p] I(3)] step by (cases x) (auto simp: writerStep_def split: if_splits)
    qed (use that step in \<open>auto simp: writerStep_def\<close>)
    moreover have "map bytes_of (pendingFor pt p) = map bytes_of (pendingFor (ts_writer s) p) @ outputsOf sid (eventsSeen (ts_writer s))"
      if p: "gm_get (cs_streams c) sid = Some p" and "\<not> removing pt p"
    proof (cases "ts_writer s")
      case (WriterEvent event)
      let ?k = "ev_SessionID event"
      show ?thesis
      proof (cases "ev_Type event = BrokerEventOutput")
        case True
        then have "pt = (case gm_get (cs_streams (ts_client s)) ?k of None \<Rightarrow> WriterWait
            | Some q \<Rightarrow> if ev_Output event \<noteq> [] then WriterEnqueue ?k q (ev_Output event) else WriterWait)"
          using step WriterEvent by (auto simp: writerStep_def split: option.splits)
        moreover have "?k = sid \<longleftrightarrow> gm_get (cs_streams (ts_client s)) ?k = Some p"
          using sub [OF p] own [OF sub [OF p]] mapped by blast
        ultimately show ?thesis using True WriterEvent
          by (auto simp: eventsSeen_def outputsOf_def split: option.split)
      next
        case False
        then have "pendingFor pt p = []" using step WriterEvent
          by (cases "ev_Type event") (auto simp: writerStep_def Let_def afterWrite_def split: prod.splits if_splits)
        then show ?thesis using False WriterEvent by (simp add: eventsSeen_def)
      qed
    next
      case (WriterEnqueue k q bytes)
      then have "q \<noteq> p" using kept(3) mapped [OF sub [OF p]] by (auto simp: ofSession_def)
      then show ?thesis using WriterEnqueue kept(3) step by (auto simp: writerStep_def eventsSeen_def)
    qed (use that step in \<open>auto simp: writerStep_def eventsSeen_def Let_def afterWrite_def split: option.splits prod.splits if_splits\<close>)
    ultimately show ?thesis using I(1) kept(1) by (intro carries_kept) auto
  next
    case (enqueue k q bytes x fin y)
    have "bytes \<noteq> []" using I(2) enqueue(1) by metis
    then show ?thesis using enqueue
      by (cases "p = q")
        (auto simp: carries_def failing_def carried_def liveOf_def eventsSeen_def stream_enqueue_def Let_def split: if_splits)
  qed
qed

lemma carries_step:
  "transport_step j t s tr s' \<Longrightarrow> transport_inv j t s \<Longrightarrow> p < cs_next (ts_client s) \<Longrightarrow> carries sid p s tr s'"
proof (induction rule: transport_step.induct)
  case (Others s bs)
  then show ?case by (simp add: carries_def failing_def carried_def)
next
  case (Cancelled s)
  then show ?case by (simp add: carries_def failing_def carried_def)
qed (simp_all add: carries_reader carries_writer carries_streams)

lemma next_mono: "transport_step j t s tr s' \<Longrightarrow> cs_next (ts_client s) \<le> cs_next (ts_client s')"
proof (induction rule: transport_step.induct)
  case (Reader e s pt es c b)
  from Reader show ?case by (cases rule: reader_cases) (auto simp: streamsKept_def installStream_def Let_def)
next
  case (Writer e pick s pt es c b)
  from Writer show ?case by (cases rule: writer_cases) (auto simp: streamsKept_def)
next
  case (Streams choice ok p s c b)
  from Streams show ?case by (cases rule: stream_cases) (auto simp: streamsKept_def)
qed simp_all

lemma carries_trans: "carries sid p s tr s1 \<Longrightarrow> carries sid p s1 tr' s2 \<Longrightarrow> carries sid p s (tr @ tr') s2"
  by (auto simp: carries_def split: if_splits)

lemma carries_run:
  "transport_run j t s tr s' \<Longrightarrow> transport_inv j t s \<Longrightarrow> p < cs_next (ts_client s) \<Longrightarrow>
   carries sid p s tr s' \<and> p < cs_next (ts_client s')"
proof (induction rule: transport_run.induct)
  case (run_refl s)
  then show ?case by (simp add: carries_def)
next
  case (run_next s tr s1 tr' s2)
  then have "transport_inv j t s1" using inv_run by blast
  then show ?case using run_next carries_step [OF run_next.hyps(2)] next_mono [OF run_next.hyps(2)] carries_trans by fastforce
qed

end
