(* ===== verification/Broker_Props.thy ===== *)
theory Broker_Props
  imports Broker_System
begin

text \<open>
  The properties of the daemon's broker: sessions and their connections, exclusive interactive use, what a
  subscriber can rebuild from the events it receives, and the two ways in which it cannot.
\<close>

section \<open>The abstract view of a subscriber\<close>

text \<open>
  A log of events describes a state: every step of the state publishes at most one event, and applying it to the
  view before the step gives the view after it. A log that rebuilds the view then goes on doing so.
\<close>

locale event_log =
  fixes view :: "'s \<Rightarrow> 'v" and step :: "'c \<Rightarrow> 's \<Rightarrow> 'e option \<times> 's" and apply_event :: "'e \<Rightarrow> 'v \<Rightarrow> 'v"
  assumes step_view: "step c s = (e, s') \<Longrightarrow> view s' = (case e of None \<Rightarrow> view s | Some ev \<Rightarrow> apply_event ev (view s))"
begin

lemma replay_pending:
  "fold apply_event pending m = view s \<Longrightarrow> step c s = (e, s') \<Longrightarrow>
     fold apply_event (pending @ (case e of None \<Rightarrow> [] | Some ev \<Rightarrow> [ev])) m = view s'"
  by (auto dest: step_view split: option.splits)

end

type_synonym sessionView = "string \<Rightarrow> (BrokerSession \<times> string) option"

definition viewOf :: "Broker \<Rightarrow> sessionView" where
  "viewOf b = (\<lambda>sid. map_option (\<lambda>st. (st_session st, st_latestPreview st)) (gm_get (bk_sessions b) sid))"

definition applyEvent :: "BrokerEvent \<Rightarrow> sessionView \<Rightarrow> sessionView" where
  "applyEvent e m =
     (case ev_Type e of
        BrokerEventSessionUpsert \<Rightarrow> m(ev_SessionID e \<mapsto> (sn_BrokerSession (ev_Session e), sn_LatestPreview (ev_Session e)))
      | BrokerEventPreview \<Rightarrow> m(ev_SessionID e \<mapsto> (sn_BrokerSession (ev_Session e), sn_LatestPreview (ev_Session e)))
      | BrokerEventSessionGone \<Rightarrow> m(ev_SessionID e := None)
      | _ \<Rightarrow> m)"

definition sectionOf :: "clock \<times> brokerCall \<times> brokerConnection option \<Rightarrow> Broker \<Rightarrow> BrokerEvent option \<times> Broker" where
  "sectionOf c b = (case c of (clk, call, owner) \<Rightarrow> let (e, _, b1) = callSection clk call owner b in (e, b1))"

lemma view_section:
  assumes "callSection clk call owner b = (e, previous, b1)"
  shows "viewOf b1 = (case e of None \<Rightarrow> viewOf b | Some ev \<Rightarrow> applyEvent ev (viewOf b))"
proof (cases call)
  case (CallRegister session)
  then show ?thesis using assms
    by (auto simp: callSection_def register_locked_def Let_def upsertEvent_def brokerSessionMetadataSnapshot_def viewOf_def
        applyEvent_def fun_eq_iff split: if_splits option.splits)
next
  case (CallUpdateSession session)
  then show ?thesis using assms
    by (auto simp: callSection_def updateSession_locked_def Let_def upsertEvent_def brokerSessionMetadataSnapshot_def viewOf_def
        applyEvent_def fun_eq_iff split: if_splits option.splits)
next
  case (CallUpdatePreview sid preview t)
  then show ?thesis using assms
    by (auto simp: callSection_def updatePreview_locked_def Let_def brokerSessionMetadataSnapshot_def viewOf_def
        applyEvent_def fun_eq_iff split: if_splits option.splits)
next
  case (CallUpdateSnapshot sid snapshot cols rows)
  then show ?thesis using assms
    by (auto simp: callSection_def updateSnapshot_def Let_def viewOf_def fun_eq_iff split: if_splits option.splits)
next
  case (CallOutput sid bytes)
  then show ?thesis using assms
    by (auto simp: callSection_def output_locked_def Let_def applyEvent_def split: if_splits option.splits)
next
  case (CallRemove sid)
  then show ?thesis using assms
    by (auto simp: callSection_def remove_locked_def Let_def goneEvent_def viewOf_def applyEvent_def fun_eq_iff
        split: if_splits option.splits)
qed (use assms in \<open>auto simp: callSection_def\<close>)

interpretation broker_log: event_log viewOf sectionOf applyEvent
  by unfold_locales (auto simp: sectionOf_def split: prod.splits dest: view_section)

section \<open>Sessions and their connections\<close>

text \<open>
  One goroutine of the broker at work: \<open>advance a\<close> runs the next call or the next \<open>emit\<close> of the connection \<open>a\<close>.
\<close>

definition acceptAt :: "nat \<Rightarrow> brokerSystem \<Rightarrow> brokerSystem" where
  "acceptAt a s = s\<lparr>sy_conns := gm_put a \<lparr>cn_owner = \<lparr>bc_addr = a, bc_conn = Some a\<rparr>, cn_registered = [],
     cn_todo = [], cn_emit = None, cn_returned = False\<rparr> (sy_conns s)\<rparr>"

definition readAt :: "nat \<Rightarrow> BrokerFrame \<Rightarrow> brokerSystem \<Rightarrow> brokerSystem" where
  "readAt a frame s =
     (case gm_get (sy_conns s) a of
        None \<Rightarrow> s
      | Some g \<Rightarrow> if idle g \<and> \<not> cn_returned g then s\<lparr>sy_conns := gm_put a (readFrame frame g) (sy_conns s)\<rparr> else s)"

definition advance :: "nat \<Rightarrow> brokerSystem \<Rightarrow> brokerSystem" where
  "advance a s =
     (case gm_get (sy_conns s) a of
        None \<Rightarrow> s
      | Some g \<Rightarrow>
          (case cn_emit g of
             Some e \<Rightarrow> s\<lparr>sy_broker := emit (\<lambda>_. False) (\<lambda>_ sub. sub) e (sy_broker s),
                         sy_conns := gm_put a (g\<lparr>cn_emit := None\<rparr>) (sy_conns s)\<rparr>
           | None \<Rightarrow>
               (case cn_todo g of
                  [] \<Rightarrow> s
                | call # rest \<Rightarrow>
                    let (e, previous, b1) = callSection (\<lambda>_. 0) call (Some (cn_owner g)) (sy_broker s)
                    in s\<lparr>sy_broker := b1, sy_conns := gm_put a (g\<lparr>cn_todo := rest, cn_emit := e\<rparr>) (sy_conns s)\<rparr>)))"

lemma reach_step: "broker_reachable s \<Longrightarrow> broker_step s s' \<Longrightarrow> broker_reachable s'"
  unfolding broker_reachable_def by simp

lemma reach_run: "broker_reachable s \<Longrightarrow> broker_step\<^sup>*\<^sup>* s s' \<Longrightarrow> broker_reachable s'"
  unfolding broker_reachable_def by simp

lemma polite_id [simp]: "polite (\<lambda>_ sub. sub)"
  by (simp add: polite_def)

lemma advance_run: "broker_step\<^sup>*\<^sup>* s (advance a s)"
  by (auto simp: advance_def split: option.split list.split prod.split intro!: r_into_rtranclp intro: broker_step.intros)

lemma readAt_run: "broker_step\<^sup>*\<^sup>* s (readAt a frame s)"
  by (auto simp: readAt_def split: option.split intro!: r_into_rtranclp intro: broker_step.intros)

lemma acceptAt_run: "gm_get (sy_conns s) a = None \<Longrightarrow> broker_step\<^sup>*\<^sup>* s (acceptAt a s)"
  by (auto simp: acceptAt_def intro!: r_into_rtranclp intro: broker_step.intros)

definition demoRegister :: BrokerFrame where
  "demoRegister = zeroBrokerFrame\<lparr>bf_Type := brokerFrameRegisterSession,
     bf_Session := Some (zeroBrokerSession\<lparr>bs_SessionID := ''s1''\<rparr>)\<rparr>"

definition demoServed :: brokerSystem where
  "demoServed = advance 1 (advance 1 (advance 1 (readAt 1 demoRegister (acceptAt 1 NewSystem))))"

lemma demoServed_reachable: "broker_reachable demoServed"
proof -
  have "broker_reachable NewSystem" by (simp add: broker_reachable_def)
  then have "broker_reachable (acceptAt 1 NewSystem)" by (rule reach_run) (simp add: acceptAt_run NewSystem_def)
  then show ?thesis unfolding demoServed_def by (intro reach_run [OF _ advance_run] reach_run [OF _ readAt_run])
qed

text \<open>
  C14. No session is orphaned: whatever the connections and the clients do, and however their calls interleave,
  every session of the broker is held by an open connection that registered it last or is about to remove it, a
  connection that is between two frames holds at most the one session it registered, a connection that finished
  holds none, and only sessions of the broker are granted for interactive use.
\<close>

theorem broker_sessions_owned:
  assumes "broker_reachable s"
  shows "(\<forall>sid st. gm_get (bk_sessions (sy_broker s)) sid = Some st \<longrightarrow> bs_SessionID (st_session st) = sid \<and>
      (\<exists>a g. gm_get (sy_conns s) a = Some g \<and> st_owner st = Some (cn_owner g) \<and>
         (cn_registered g = sid \<or> CallRemove sid \<in> set (cn_todo g)))) \<and>
    (\<forall>a g sid st. gm_get (sy_conns s) a = Some g \<and> cn_todo g = [] \<and> gm_get (bk_sessions (sy_broker s)) sid = Some st \<and>
       st_owner st = Some (cn_owner g) \<longrightarrow> sid = cn_registered g \<and> \<not> cn_returned g) \<and>
    (\<forall>sid p. gm_get (bk_interactiveOwners (sy_broker s)) sid = Some p \<longrightarrow> gm_get (bk_sessions (sy_broker s)) sid \<noteq> None)"
proof -
  have inv: "broker_inv s" by (rule reachable_broker_inv [OF assms])
  note I = broker_invD [OF inv]
  have "sid = cn_registered g \<and> \<not> cn_returned g"
    if "gm_get (sy_conns s) a = Some g" "cn_todo g = []" "gm_get (bk_sessions (sy_broker s)) sid = Some st"
      "st_owner st = Some (cn_owner g)" for a g sid st
    using owned_answers [OF inv that(1,3,4)] I(3) [OF that(1)] that(2) by (auto simp: answersFor_def goroutine_ok_def)
  moreover have "bs_SessionID (st_session st) = sid \<and> (\<exists>a g. gm_get (sy_conns s) a = Some g \<and> st_owner st = Some (cn_owner g) \<and>
         (cn_registered g = sid \<or> CallRemove sid \<in> set (cn_todo g)))"
    if "gm_get (bk_sessions (sy_broker s)) sid = Some st" for sid st
    using I(4) [OF that] by (auto simp: session_ok_def answersFor_def)
  ultimately show ?thesis using I(5) by blast
qed

theorem broker_sessions_owned_witness:
  "\<exists>st. gm_get (bk_sessions (sy_broker demoServed)) ''s1'' = Some st \<and> bs_SessionID (st_session st) = ''s1''"
proof -
  have "gm_get (bk_sessions (sy_broker demoServed)) ''s1'' \<noteq> None" by code_simp
  then show ?thesis using broker_sessions_owned [OF demoServed_reachable] by blast
qed

section \<open>Interactive use\<close>

lemma interactive_step:
  assumes "broker_step s s'" "gm_get (bk_interactiveOwners (sy_broker s)) sid = Some p" "gm_wf (bk_interactiveOwners (sy_broker s))"
  shows "gm_get (bk_interactiveOwners (sy_broker s')) sid \<in> {None, Some p}"
  using assms
proof (induction rule: broker_step.induct)
  case (Call s a g call rest clk e previous b1)
  from Call.hyps(4) show ?case by (cases rule: callSection_cases) (use Call.prems in auto)
next
  case (Grant s sid' q)
  then show ?case by (auto simp: GrantInteractive_def Let_def split: option.splits if_splits)
next
  case (ReleaseOwner s q)
  then show ?case by (auto simp: ReleaseInteractiveOwner_def gm_get_drop split: option.splits)
qed (auto simp: ReleaseInteractive_def Let_def)

lemma sendToSession_cases:
  assumes "TrimSpace sid = sid" "sid \<noteq> []" "gm_get (bk_sessions b) sid = Some st" "st_owner st = Some c" "bc_conn c = Some conn"
  shows "sendToSession ok sid (Some q) frame b =
     (if gm_get (bk_interactiveOwners b) sid = Some q
      then (if ok conn (frame\<lparr>bf_SessionID := sid\<rparr>) then None else Some ErrBrokerWrite, [BWrite conn (frame\<lparr>bf_SessionID := sid\<rparr>)])
      else (Some ErrBrokerInteractiveNotGranted, []))"
  using assms by (simp add: sendToSession_def writeFrame_def)

text \<open>
  C17. One client at a time types into a session: while a client holds the interactive grant, another client's
  request is answered busy, its release changes nothing and its text, keys and sizes are refused without being
  written; the holder's input goes to the connection of the session, exactly once; and no step hands the grant over
  to someone else, it can only be given up.
\<close>

theorem interactive_exclusive:
  assumes "broker_reachable s" "gm_get (bk_interactiveOwners (sy_broker s)) sid = Some p" "q \<noteq> p"
  defines "b \<equiv> sy_broker s"
  shows "(broker_step s s' \<longrightarrow> gm_get (bk_interactiveOwners (sy_broker s')) sid \<in> {None, Some p}) \<and>
    GrantInteractive sid (Some q) b = (Some ErrBrokerInteractiveBusy, b) \<and> ReleaseInteractive sid (Some q) b = b \<and>
    RouteInputText ok sid (Some q) text submit b = (Some ErrBrokerInteractiveNotGranted, []) \<and>
    RouteInputKey ok sid (Some q) key b = (Some ErrBrokerInteractiveNotGranted, []) \<and>
    RouteResize ok sid (Some q) cols rows b = (Some ErrBrokerInteractiveNotGranted, []) \<and>
    (\<exists>st c conn frame. gm_get (bk_sessions b) sid = Some st \<and> st_owner st = Some c \<and> bc_conn c = Some conn \<and>
       bf_Type frame = brokerFrameInputText \<and> bf_SessionID frame = sid \<and> bf_Text frame = text \<and> bf_Submit frame = submit \<and>
       RouteInputText ok sid (Some p) text submit b = (if ok conn frame then None else Some ErrBrokerWrite, [BWrite conn frame]))"
proof -
  have inv: "broker_inv s" by (rule reachable_broker_inv [OF assms(1)])
  note I = broker_invD [OF inv]
  obtain st where st: "gm_get (bk_sessions b) sid = Some st" using I(5) [OF assms(2)] by (auto simp: b_def)
  obtain a h where h: "gm_get (sy_conns s) a = Some h" "st_owner st = Some (cn_owner h)" "sid \<noteq> []" "TrimSpace sid = sid"
    using session_holder [OF inv st [unfolded b_def]] by metis
  obtain conn where conn: "bc_conn (cn_owner h) = Some conn" using I(3) [OF h(1)] by (auto simp: goroutine_ok_def)
  have p: "gm_get (bk_interactiveOwners b) sid = Some p" using assms(2) by (simp add: b_def)
  note send = sendToSession_cases [OF h(4,3) st h(2) conn] and routes = RouteInputText_def RouteInputKey_def RouteResize_def
  have refuse: "RouteInputText ok sid (Some q) text submit b = (Some ErrBrokerInteractiveNotGranted, [])"
    "RouteInputKey ok sid (Some q) key b = (Some ErrBrokerInteractiveNotGranted, [])"
    "RouteResize ok sid (Some q) cols rows b = (Some ErrBrokerInteractiveNotGranted, [])"
    using assms(3) p by (simp_all add: routes send)
  have grant: "GrantInteractive sid (Some q) b = (Some ErrBrokerInteractiveBusy, b)" "ReleaseInteractive sid (Some q) b = b"
    using assms(3) p st h(3,4) by (simp_all add: GrantInteractive_def ReleaseInteractive_def)
  let ?f = "zeroBrokerFrame\<lparr>bf_Type := brokerFrameInputText, bf_Text := text, bf_Submit := submit, bf_SessionID := sid\<rparr>"
  have "RouteInputText ok sid (Some p) text submit b = (if ok conn ?f then None else Some ErrBrokerWrite, [BWrite conn ?f])"
    using p by (simp add: routes send)
  then have route: "\<exists>st c conn frame. gm_get (bk_sessions b) sid = Some st \<and> st_owner st = Some c \<and> bc_conn c = Some conn \<and>
       bf_Type frame = brokerFrameInputText \<and> bf_SessionID frame = sid \<and> bf_Text frame = text \<and> bf_Submit frame = submit \<and>
       RouteInputText ok sid (Some p) text submit b = (if ok conn frame then None else Some ErrBrokerWrite, [BWrite conn frame])"
    using st h(2) conn by (intro exI [of _ st] exI [of _ "cn_owner h"] exI [of _ conn] exI [of _ ?f]) simp
  have "broker_step s s' \<longrightarrow> gm_get (bk_interactiveOwners (sy_broker s')) sid \<in> {None, Some p}"
    using interactive_step [OF _ assms(2) I(2)] by blast
  from this grant refuse route show ?thesis by (intro conjI)
qed

definition demoGranted :: brokerSystem where
  "demoGranted = demoServed\<lparr>sy_broker := snd (GrantInteractive ''s1'' (Some 5) (sy_broker demoServed))\<rparr>"

theorem interactive_exclusive_witness:
  "GrantInteractive ''s1'' (Some 6) (sy_broker demoGranted) = (Some ErrBrokerInteractiveBusy, sy_broker demoGranted) \<and>
   RouteInputKey (\<lambda>_ _. True) ''s1'' (Some 6) ''Enter'' (sy_broker demoGranted) = (Some ErrBrokerInteractiveNotGranted, [])"
proof -
  have r: "broker_reachable demoGranted" unfolding demoGranted_def
    by (rule reach_step [OF demoServed_reachable broker_step.Grant])
  have p: "gm_get (bk_interactiveOwners (sy_broker demoGranted)) ''s1'' = Some 5" by code_simp
  show ?thesis using interactive_exclusive [OF r p, of 6] by simp
qed

section \<open>Following the events\<close>

text \<open>
  A client of the broker: it starts from the index it was given with its subscription, and applies every event it
  receives. Calls of connections and receives of the client alternate in any order; the run stops where a call is
  made while the client's channel is full.
\<close>

datatype followAct = ACall clock brokerCall "brokerConnection option" | AReceive

fun follow ::
    "(nat \<Rightarrow> BrokerFrame \<Rightarrow> bool) \<Rightarrow> (nat \<Rightarrow> bool) \<Rightarrow> nat \<Rightarrow> followAct list \<Rightarrow> Broker \<times> sessionView \<Rightarrow> (Broker \<times> sessionView) option" where
  "follow ok pick sub [] (b, m) = Some (b, m)"
| "follow ok pick sub (ACall clk call owner # acts) (b, m) =
     (case gm_get (bk_heap b) sub of
        None \<Rightarrow> None
      | Some q \<Rightarrow> if length (sb_ch q) < subscriberBuffer then follow ok pick sub acts (snd (runCall ok clk pick call owner b), m)
                  else None)"
| "follow ok pick sub (AReceive # acts) (b, m) =
     (case receive sub b of
        (None, b1) \<Rightarrow> follow ok pick sub acts (b1, m)
      | (Some e, b1) \<Rightarrow> follow ok pick sub acts (b1, applyEvent e m))"

definition indexOf :: "BrokerSessionSnapshot list \<Rightarrow> sessionView" where
  "indexOf snaps = map_of (map (\<lambda>sn. (bs_SessionID (sn_BrokerSession sn), (sn_BrokerSession sn, sn_LatestPreview sn))) snaps)"

lemma enqueue_room:
  "\<not> sb_done q \<Longrightarrow> length (sb_ch q) < subscriberBuffer \<Longrightarrow> enqueue pick others e q = q\<lparr>sb_ch := sb_ch q @ [e]\<rparr>"
  by (simp add: enqueue_def selectSend_def)

lemma indexOf_snapshot:
  assumes "broker_inv s" "gm_wf (bk_sessions (sy_broker s))"
  shows "indexOf (map (brokerSessionMetadataSnapshot \<circ> snd) (bk_sessions (sy_broker s))) = viewOf (sy_broker s)"
proof -
  have "bs_SessionID (st_session st) = sid" if "(sid, st) \<in> set (bk_sessions (sy_broker s))" for sid st
    using broker_invD(4) [OF assms(1)] that gm_mem [OF assms(2)] by (auto simp: session_ok_def)
  then have eq: "map (\<lambda>e. (bs_SessionID (st_session (snd e)), (st_session (snd e), st_latestPreview (snd e)))) (bk_sessions (sy_broker s)) =
      map (\<lambda>(sid, st). (sid, (st_session st, st_latestPreview st))) (bk_sessions (sy_broker s))"
    by (auto intro!: map_cong)
  have "indexOf (map (brokerSessionMetadataSnapshot \<circ> snd) (bk_sessions (sy_broker s))) =
      map_of (map (\<lambda>e. (bs_SessionID (st_session (snd e)), (st_session (snd e), st_latestPreview (snd e)))) (bk_sessions (sy_broker s)))"
    by (simp add: indexOf_def brokerSessionMetadataSnapshot_def o_def)
  then show ?thesis unfolding eq by (simp add: viewOf_def gm_get_def map_of_map o_def)
qed

text \<open>The client is subscribed and its channel holds what it still needs.\<close>

definition follows :: "nat \<Rightarrow> Broker \<Rightarrow> sessionView \<Rightarrow> bool" where
  "follows sub b m \<longleftrightarrow> gm_wf (bk_subscribers b) \<and> gm_get (bk_subscribers b) sub \<noteq> None \<and>
     (\<exists>q. gm_get (bk_heap b) sub = Some q \<and> \<not> sb_done q \<and> fold applyEvent (sb_ch q) m = viewOf b)"

lemma emit_view [simp]: "viewOf (emit pick others e b) = viewOf b"
  by (simp add: viewOf_def)

lemma follows_call:
  assumes "follows sub b m" "gm_get (bk_heap b) sub = Some q" "length (sb_ch q) < subscriberBuffer"
  shows "follows sub (snd (runCall ok clk pick call owner b)) m"
proof -
  obtain e previous b1 where c: "callSection clk call owner b = (e, previous, b1)" by (metis prod_cases3)
  note F = callSection_subscribers [OF c]
  have q: "\<not> sb_done q" "fold applyEvent (sb_ch q) m = viewOf b" using assms(1,2) by (auto simp: follows_def)
  have sec: "sectionOf (clk, call, owner) b = (e, b1)" by (simp add: sectionOf_def c)
  have "fold applyEvent (sb_ch q @ (case e of None \<Rightarrow> [] | Some ev \<Rightarrow> [ev])) m = viewOf b1"
    by (rule broker_log.replay_pending [OF q(2) sec])
  then show ?thesis using assms F q(1)
    by (cases e) (auto simp: runCall_def c emitAll_def follows_def emit_heap enqueue_room)
qed

lemma follows_receive:
  assumes "follows sub b m" "receive sub b = (e, b1)"
  shows "follows sub b1 (case e of None \<Rightarrow> m | Some ev \<Rightarrow> applyEvent ev m)"
  using assms by (auto simp: follows_def receive_def viewOf_def split: option.splits list.splits)

lemma follow_follows: "follow ok pick sub acts (b, m) = Some (b', m') \<Longrightarrow> follows sub b m \<Longrightarrow> follows sub b' m'"
proof (induction ok pick sub acts "(b, m)" arbitrary: b m rule: follow.induct)
  case (2 ok pick sub clk call owner acts b m)
  then show ?case using follows_call by (auto split: option.splits if_splits)
next
  case (3 ok pick sub acts b m)
  then show ?case using follows_receive [OF "3.prems"(2)] by (auto split: prod.splits option.splits)
qed simp



section \<open>Where following fails\<close>

lemma register_section:
  assumes "TrimSpace (bs_SessionID session) = sid" "sid \<noteq> []"
  obtains st previous where "register_locked clk session (Some c) b =
      (Some (upsertEvent sid st), previous, b\<lparr>bk_sessions := gm_put sid st (bk_sessions b)\<rparr>)" "st_owner st = Some c"
  using assms by (auto simp: register_locked_def Let_def normalizeBrokerSession_def)

lemma remove_section:
  assumes "TrimSpace sid = sid" "sid \<noteq> []" "gm_get (bk_sessions b) sid = Some st" "st_owner st = Some c"
  shows "remove_locked sid (Some c) b = (Some (goneEvent sid), b\<lparr>bk_sessions := gm_del sid (bk_sessions b),
     bk_interactiveOwners := gm_del sid (bk_interactiveOwners b)\<rparr>)"
  using assms by (simp add: remove_locked_def)

text \<open>
  A \<open>session_gone\<close> event can overtake the \<open>session_upsert\<close> of a later registration: when the connection \<open>a1\<close> of a
  session is about to remove it and another connection \<open>a2\<close> registers the same session, there is a run in which the removal
  comes first and its event is emitted last. The session is then registered, both goroutines have emitted, and every
  subscriber that replays its channel does not list it.
\<close>

theorem gone_overtakes_upsert:
  assumes reach: "broker_reachable s"
    and g1: "gm_get (sy_conns s) a1 = Some g1" "cn_todo g1 = CallRemove sid # rest1" "cn_emit g1 = None"
    and g2: "gm_get (sy_conns s) a2 = Some g2" "cn_todo g2 = CallRegister session # rest2" "cn_emit g2 = None"
    and "a1 \<noteq> a2" "TrimSpace (bs_SessionID session) = sid"
    and st: "gm_get (bk_sessions (sy_broker s)) sid = Some st" "st_owner st = Some (cn_owner g1)"
    and sub: "gm_get (bk_subscribers (sy_broker s)) sub = Some ()" "gm_get (bk_heap (sy_broker s)) sub = Some q"
      "\<not> sb_done q" "length (sb_ch q) + 2 \<le> subscriberBuffer"
  shows "\<exists>s' st' q'. broker_step\<^sup>*\<^sup>* s s' \<and>
    gm_get (bk_sessions (sy_broker s')) sid = Some st' \<and> st_owner st' = Some (cn_owner g2) \<and>
    (\<forall>a \<in> {a1, a2}. \<exists>g. gm_get (sy_conns s') a = Some g \<and> cn_emit g = None) \<and>
    gm_get (bk_heap (sy_broker s')) sub = Some q' \<and> (\<forall>m. fold applyEvent (sb_ch q') m sid = None)"
proof -
  let ?b = "sy_broker s" and ?id = "\<lambda>(_ :: nat) (sub :: brokerSubscriber). sub" and ?pick = "\<lambda>_ :: nat. False"
  have sid: "sid \<noteq> []" "TrimSpace sid = sid" using owned_answers [OF reachable_broker_inv [OF reach] g1(1) st] by auto
  have wf: "gm_wf (bk_subscribers ?b)" using reachable_subs_inv [OF reach] by (simp add: subs_inv_def)
  define b1 where "b1 = ?b\<lparr>bk_sessions := gm_del sid (bk_sessions ?b), bk_interactiveOwners := gm_del sid (bk_interactiveOwners ?b)\<rparr>"
  obtain st' previous where reg: "register_locked (\<lambda>_. 0) session (Some (cn_owner g2)) b1 =
      (Some (upsertEvent sid st'), previous, b1\<lparr>bk_sessions := gm_put sid st' (bk_sessions b1)\<rparr>)" "st_owner st' = Some (cn_owner g2)"
    by (rule register_section [OF assms(9) sid(1)])
  define b2 where "b2 = b1\<lparr>bk_sessions := gm_put sid st' (bk_sessions b1)\<rparr>"
  define b3 where "b3 = emit ?pick ?id (upsertEvent sid st') b2"
  define b4 where "b4 = emit ?pick ?id (goneEvent sid) b3"
  define c1 where "c1 = gm_put a1 (g1\<lparr>cn_todo := rest1, cn_emit := Some (goneEvent sid)\<rparr>) (sy_conns s)"
  define c2 where "c2 = gm_put a2 (g2\<lparr>cn_todo := rest2, cn_emit := Some (upsertEvent sid st')\<rparr>) c1"
  define c3 where "c3 = gm_put a2 (g2\<lparr>cn_todo := rest2, cn_emit := None\<rparr>) c2"
  define c4 where "c4 = gm_put a1 (g1\<lparr>cn_todo := rest1, cn_emit := None\<rparr>) c3"
  have "callSection (\<lambda>_. 0) (CallRemove sid) (Some (cn_owner g1)) ?b = (Some (goneEvent sid), None, b1)"
    by (simp add: callSection_def remove_section [OF sid(2,1) st] b1_def)
  then have s1: "broker_step s (s\<lparr>sy_broker := b1, sy_conns := c1\<rparr>)"
    using broker_step.Call [OF g1] by (simp add: c1_def)
  have "gm_get c1 a2 = Some g2" using g2(1) \<open>a1 \<noteq> a2\<close> by (simp add: c1_def)
  then have s2: "broker_step (s\<lparr>sy_broker := b1, sy_conns := c1\<rparr>) (s\<lparr>sy_broker := b2, sy_conns := c2\<rparr>)"
    using broker_step.Call [of "s\<lparr>sy_broker := b1, sy_conns := c1\<rparr>" a2 g2, OF _ g2(2,3), of "\<lambda>_. 0"] reg(1)
    by (simp add: callSection_def b2_def c2_def)
  have s3: "broker_step (s\<lparr>sy_broker := b2, sy_conns := c2\<rparr>) (s\<lparr>sy_broker := b3, sy_conns := c3\<rparr>)"
    using broker_step.Emit [of "s\<lparr>sy_broker := b2, sy_conns := c2\<rparr>" a2 "g2\<lparr>cn_todo := rest2, cn_emit := Some (upsertEvent sid st')\<rparr>",
        OF _ _ polite_id, of _ ?pick] by (simp add: c2_def c3_def b3_def)
  have "gm_get c3 a1 = Some (g1\<lparr>cn_todo := rest1, cn_emit := Some (goneEvent sid)\<rparr>)"
    using \<open>a1 \<noteq> a2\<close> by (simp add: c1_def c2_def c3_def)
  then have s4: "broker_step (s\<lparr>sy_broker := b3, sy_conns := c3\<rparr>) (s\<lparr>sy_broker := b4, sy_conns := c4\<rparr>)"
    using broker_step.Emit [of "s\<lparr>sy_broker := b3, sy_conns := c3\<rparr>" a1 "g1\<lparr>cn_todo := rest1, cn_emit := Some (goneEvent sid)\<rparr>"
        "goneEvent sid" ?id ?pick] by (simp add: c4_def b4_def)
  have run: "broker_step\<^sup>*\<^sup>* s (s\<lparr>sy_broker := b4, sy_conns := c4\<rparr>)"
    using s1 s2 s3 s4 by (meson converse_rtranclp_into_rtranclp rtranclp.rtrancl_refl)
  have subs: "bk_subscribers b2 = bk_subscribers ?b" "bk_heap b2 = bk_heap ?b" by (simp_all add: b2_def b1_def)
  let ?q = "q\<lparr>sb_ch := sb_ch q @ [upsertEvent sid st', goneEvent sid]\<rparr>"
  have "gm_get (bk_heap b3) sub = Some (q\<lparr>sb_ch := sb_ch q @ [upsertEvent sid st']\<rparr>)"
    using wf sub by (simp add: b3_def emit_heap subs enqueue_room)
  then have heap: "gm_get (bk_heap b4) sub = Some ?q"
    using wf sub by (simp add: b4_def emit_heap b3_def subs enqueue_room)
  have sess: "gm_get (bk_sessions b4) sid = Some st'" by (simp add: b4_def b3_def b2_def)
  have "fold applyEvent (sb_ch ?q) m sid = None" for m by (simp add: applyEvent_def goneEvent_def)
  moreover have "\<forall>a \<in> {a1, a2}. \<exists>g. gm_get c4 a = Some g \<and> cn_emit g = None"
    using \<open>a1 \<noteq> a2\<close> by (auto simp: c4_def c3_def)
  ultimately show ?thesis using run heap sess reg(2)
    by (intro exI [of _ "s\<lparr>sy_broker := b4, sy_conns := c4\<rparr>"] exI [of _ st'] exI [of _ ?q]) simp
qed

text \<open>A subscriber, a connection that leaves and one that registers its session anew.\<close>

definition demoRace :: brokerSystem where
  "demoRace = readAt 2 demoRegister (acceptAt 2 (readAt 1 (zeroBrokerFrame\<lparr>bf_Type := brokerFrameSessionGone\<rparr>)
     (demoServed\<lparr>sy_broker := snd (Subscribe (sy_broker demoServed))\<rparr>)))"

theorem gone_overtakes_upsert_witness:
  "\<exists>s' st' q'. broker_step\<^sup>*\<^sup>* demoRace s' \<and> gm_get (bk_sessions (sy_broker s')) ''s1'' = Some st' \<and>
     gm_get (bk_heap (sy_broker s')) 0 = Some q' \<and> fold applyEvent (sb_ch q') Map.empty ''s1'' = None"
proof -
  let ?s0 = "readAt 1 (zeroBrokerFrame\<lparr>bf_Type := brokerFrameSessionGone\<rparr>)
     (demoServed\<lparr>sy_broker := snd (Subscribe (sy_broker demoServed))\<rparr>)"
  let ?b = "sy_broker demoRace" and ?g = "\<lambda>a. the (gm_get (sy_conns demoRace) a)" and ?st = "the (gm_get (bk_sessions (sy_broker demoRace)) ''s1'')"
  have "broker_reachable (demoServed\<lparr>sy_broker := snd (Subscribe (sy_broker demoServed))\<rparr>)"
    by (rule reach_step [OF demoServed_reachable broker_step.SubscribeStep])
  then have "broker_reachable ?s0" by (rule reach_run [OF _ readAt_run])
  moreover have "gm_get (sy_conns ?s0) 2 = None" by code_simp
  ultimately have reach: "broker_reachable demoRace" unfolding demoRace_def
    by (rule reach_run [OF reach_run [OF _ acceptAt_run] readAt_run])
  have facts: "gm_get (sy_conns demoRace) 1 = Some (?g 1)" "cn_todo (?g 1) = CallRemove ''s1'' # []" "cn_emit (?g 1) = None"
    "gm_get (sy_conns demoRace) 2 = Some (?g 2)"
    "cn_todo (?g 2) = CallRegister (zeroBrokerSession\<lparr>bs_SessionID := ''s1''\<rparr>) # [CallAck ''s1'']" "cn_emit (?g 2) = None"
    "(1 :: nat) \<noteq> 2" "TrimSpace (bs_SessionID (zeroBrokerSession\<lparr>bs_SessionID := ''s1''\<rparr>)) = ''s1''"
    "gm_get (bk_sessions ?b) ''s1'' = Some ?st" "st_owner ?st = Some (cn_owner (?g 1))" "gm_get (bk_subscribers ?b) 0 = Some ()"
    "gm_get (bk_heap ?b) 0 = Some (the (gm_get (bk_heap ?b) 0))" "\<not> sb_done (the (gm_get (bk_heap ?b) 0))"
    "length (sb_ch (the (gm_get (bk_heap ?b) 0))) + 2 \<le> subscriberBuffer"
    by code_simp+
  show ?thesis using gone_overtakes_upsert [OF reach facts] by blast
qed

text \<open>
  A subscriber never blocks the broker, and pays with lost events: an \<open>enqueue\<close> keeps the channel within its 32 events,
  appends the event while there is room, ignores a preview when there is none, and otherwise drops the oldest event, whatever
  it is, for the new one (an output becomes an overflow mark of its own session). If the oldest event is the removal of a
  session no other waiting event names, the subscriber keeps listing that session; if it is an output of another session,
  no overflow mark for that session is in the channel.
\<close>

theorem full_channel_drops_oldest:
  assumes "subscriber_ok sub" "\<not> sb_done sub" and sub'_def: "sub' = enqueue pick (\<lambda>_ sub. sub) e sub"
  shows "subscriber_ok sub' \<and>
    (length (sb_ch sub) < subscriberBuffer \<longrightarrow> sb_ch sub' = sb_ch sub @ [e]) \<and>
    (length (sb_ch sub) = subscriberBuffer \<longrightarrow> (if ev_Type e = BrokerEventPreview then sub' = sub
       else \<exists>e'. sb_ch sub' = tl (sb_ch sub) @ [e'] \<and> ev_SessionID e' = ev_SessionID e \<and>
         ev_Type e' = (if ev_Type e = BrokerEventOutput then BrokerEventOutputOverflow else ev_Type e))) \<and>
    (length (sb_ch sub) = subscriberBuffer \<and> ev_Type e \<noteq> BrokerEventPreview \<and>
     (\<forall>x \<in> set (tl (sb_ch sub)). ev_SessionID x \<noteq> ev_SessionID (hd (sb_ch sub))) \<and> ev_SessionID e \<noteq> ev_SessionID (hd (sb_ch sub)) \<longrightarrow>
       fold applyEvent (sb_ch sub') m (ev_SessionID (hd (sb_ch sub))) = m (ev_SessionID (hd (sb_ch sub))) \<and>
       (\<forall>x \<in> set (sb_ch sub'). ev_SessionID x \<noteq> ev_SessionID (hd (sb_ch sub))))"
proof -
  have ok: "subscriber_ok sub'" unfolding sub'_def by (rule enqueue_ok [OF polite_id assms(1)])
  have room: "length (sb_ch sub) < subscriberBuffer \<longrightarrow> sb_ch sub' = sb_ch sub @ [e]"
    using assms(2) by (simp add: sub'_def enqueue_room)
  have full: "if ev_Type e = BrokerEventPreview then sub' = sub
       else \<exists>e'. sb_ch sub' = tl (sb_ch sub) @ [e'] \<and> ev_SessionID e' = ev_SessionID e \<and>
         ev_Type e' = (if ev_Type e = BrokerEventOutput then BrokerEventOutputOverflow else ev_Type e)"
    if "length (sb_ch sub) = subscriberBuffer"
    using that assms(2)
    by (auto simp: sub'_def enqueue_def selectSend_def selectReceive_def subscriberBuffer_def Let_def)
  have keep: "fold applyEvent es m k = m k" if "\<forall>x \<in> set es. ev_SessionID x \<noteq> k" for es m and k
    using that by (induction es arbitrary: m) (auto simp: applyEvent_def split: BrokerEventType.splits)
  have lost: "\<forall>x \<in> set (sb_ch sub'). ev_SessionID x \<noteq> k"
    if "length (sb_ch sub) = subscriberBuffer" "ev_Type e \<noteq> BrokerEventPreview" "\<forall>x \<in> set (tl (sb_ch sub)). ev_SessionID x \<noteq> k"
      "ev_SessionID e \<noteq> k" for k
    using full [OF that(1)] that(2-4) by auto
  have "fold applyEvent (sb_ch sub') m k = m k \<and> (\<forall>x \<in> set (sb_ch sub'). ev_SessionID x \<noteq> k)"
    if "length (sb_ch sub) = subscriberBuffer \<and> ev_Type e \<noteq> BrokerEventPreview \<and> (\<forall>x \<in> set (tl (sb_ch sub)). ev_SessionID x \<noteq> k) \<and>
      ev_SessionID e \<noteq> k" for k
    using lost [of k] keep [of "sb_ch sub'" k m] that by blast
  then show ?thesis using ok room full by blast
qed

definition demoFull :: brokerSubscriber where
  "demoFull = \<lparr>sb_ch = goneEvent ''a'' # replicate 31 (goneEvent ''b''), sb_done = False\<rparr>"

theorem full_channel_drops_oldest_witness:
  "fold applyEvent (sb_ch (enqueue (\<lambda>_. False) (\<lambda>_ sub. sub) (goneEvent ''c'') demoFull)) [''a'' \<mapsto> (zeroBrokerSession, [])] ''a'' = Some (zeroBrokerSession, [])"
proof -
  have "subscriber_ok demoFull" "\<not> sb_done demoFull" by (simp_all add: demoFull_def subscriber_ok_def subscriberBuffer_def)
  from full_channel_drops_oldest [OF this refl, of "\<lambda>_. False" "goneEvent ''c''" "[''a'' \<mapsto> (zeroBrokerSession, [])]"]
  show ?thesis by (simp add: demoFull_def subscriberBuffer_def goneEvent_def)
qed

end
