(* ===== verification/Transport_Props.thy ===== *)
theory Transport_Props
  imports Transport_System Broker_Props
begin

text \<open>
  Properties of a client's connection to the daemon: what reaches an interactive stream, that the snapshot on it can be
  read back, who may type, who is served at all, what the end of a connection leaves; and where output is lost.
\<close>

section \<open>Streams\<close>

lemma new_stream:
  assumes step: "transport_step j t s tr s'" and inv: "transport_inv j t s"
    and p: "gm_get (cs_heap (ts_client s)) p = None" "gm_get (cs_streams (ts_client s')) sid = Some p"
  shows "carried s' p = []" "p < cs_next (ts_client s')"
proof -
  note I = transport_invD [OF inv]
  have absent: "gm_get (cs_streams (ts_client s)) k \<noteq> Some p" for k
    using mapped_session(1) [OF I(1), of k p] p(1) by (auto simp: ofSession_def)
  have idle: "pendingFor (ts_writer s) p = []"
    using I(3) p(1) by (cases "ts_writer s") (auto simp: ofSession_def)
  from step have "carried s' p = [] \<and> p < cs_next (ts_client s')"
  proof cases
    case (Reader e pt es c b)
    from Reader(3) show ?thesis
    proof (cases rule: reader_cases)
      case (install k n)
      then have "p = cs_next (ts_client s)" using Reader(2) p(2) absent by (auto simp: installStream_def Let_def split: if_splits)
      then show ?thesis using Reader(2) install idle
        by (simp add: carried_def installStream_def Let_def newInteractiveStreamState_def liveOf_def)
    next
      case kept
      then show ?thesis using Reader(2) p(2) absent by (simp add: streamsKept_def) blast
    next
      case (snapshot req q snap cols rows written all)
      then show ?thesis using Reader(2) p(2) absent by simp
    qed
  next
    case (Writer e pick pt es c b)
    from Writer(3) have "gm_get (cs_streams (ts_client s)) sid = Some p"
      by (cases rule: writer_cases) (use Writer(2) p(2) in \<open>simp_all add: streamsKept_def\<close>)
    then show ?thesis using absent by blast
  next
    case (Streams choice ok q c b)
    from Streams(3) have "gm_get (cs_streams (ts_client s)) sid = Some p"
      by (cases rule: stream_cases) (use Streams(2) p(2) in \<open>simp_all add: streamsKept_def\<close>)
    then show ?thesis using absent by blast
  qed (use p(2) absent in auto)
  then show "carried s' p = []" "p < cs_next (ts_client s')" by simp_all
qed

lemma reachable_step: "transport_reachable j t s \<Longrightarrow> transport_step j t s tr s' \<Longrightarrow> transport_reachable j t s'"
  unfolding transport_reachable_def using run_next by blast

lemma serving_run: "transport_run j t s tr s' \<Longrightarrow> transport_reachable j t s \<Longrightarrow> transport_reachable j t s'"
  by (induction rule: transport_run.induct) (auto intro: reachable_step)


text \<open>A client that asks for the session \<open>s1\<close> while output of the session is on its way.\<close>

definition demoCodec :: jsonCodec where
  "demoCodec = \<lparr>js_marshal = (\<lambda>_. [123, 125]), js_hello = (\<lambda>_. Some \<lparr>he_ProtocolVersion = 2, he_ActorType = ActorMobile,
       he_ClientFingerprint = [], he_PathKind = []\<rparr>),
     js_request = (\<lambda>_. Some \<lparr>ir_SessionID = ''s1'', ir_Cols = 80, ir_Rows = 24\<rparr>), js_session = (\<lambda>_. Some ''s1''),
     js_text = (\<lambda>_. Some (''s1'', ''ls'', True)), js_key = (\<lambda>_. None), js_resize = (\<lambda>_. None)\<rparr>"

definition demoTransport :: ConnectivityTransport where
  "demoTransport = \<lparr>ct_DaemonFingerprint = ''d'', ct_AndroidFingerprint = [], ct_PathKind = [], ct_AttemptID = [],
     ct_FallbackReason = [], ct_DirectSetupLatency = 0, ct_RelaySetupLatency = 0, ct_MaxPayload = 4\<rparr>"

definition demoStepEnv :: "byte \<Rightarrow> stepEnv" where
  "demoStepEnv typ = \<lparr>se_frame = Inr \<lparr>fr_Type = typ, fr_Payload = [123, 125]\<rparr>, se_open = Some 3, se_ok = (\<lambda>_. True),
     se_sessionOk = (\<lambda>_ _. True)\<rparr>"

definition doReader :: "byte \<Rightarrow> transportSystem \<Rightarrow> transportSystem" where
  "doReader typ s = (case readerStep demoCodec demoTransport (demoStepEnv typ) (ts_reader s) (ts_client s) (ts_core s) of
     (pt, es, c, b) \<Rightarrow> withCore b (s\<lparr>ts_reader := pt, ts_client := c\<rparr>))"

definition doWriter :: "transportSystem \<Rightarrow> transportSystem" where
  "doWriter s = (case writerStep demoCodec (demoStepEnv 0) False (ts_writer s) (ts_client s) (ts_core s) of
     (pt, es, c, b) \<Rightarrow> withCore b (s\<lparr>ts_writer := pt, ts_client := c\<rparr>))"

definition doStream :: "nat \<Rightarrow> transportSystem \<Rightarrow> transportSystem" where
  "doStream p s = (case streamStep TakeQueue True p (ts_client s) (ts_core s) of (c, b) \<Rightarrow> withCore b (s\<lparr>ts_client := c\<rparr>))"

lemma do_steps:
  "transport_step demoCodec demoTransport s [] (doReader typ s)"
  "transport_step demoCodec demoTransport s (eventsSeen (ts_writer s)) (doWriter s)"
  "transport_step demoCodec demoTransport s [] (doStream p s)"
  unfolding doReader_def doWriter_def doStream_def
  by (auto split: prod.split intro: transport_step.intros)

definition demoBroker :: brokerSystem where
  "demoBroker = \<lparr>sy_broker = NewBroker\<lparr>bk_sessions := [(''s1'', zeroSessionState\<lparr>st_session := zeroBrokerSession\<lparr>bs_SessionID := ''s1''\<rparr>,
       st_latestSnapshot := ''hello'', st_snapshotCols := 80, st_snapshotRows := 24, st_owner := Some \<lparr>bc_addr = 1, bc_conn = Some 7\<rparr>\<rparr>)],
     bk_heap := [(0, \<lparr>sb_ch = [\<lparr>ev_Type = BrokerEventOutput, ev_Session = zeroSnapshot, ev_SessionID = ''s1'', ev_Output = ''x''\<rparr>],
       sb_done = False\<rparr>)]\<rparr>, sy_conns = []\<rparr>"

definition demoAsked :: transportSystem where
  "demoAsked = doReader 0 (doReader TypeInteractiveRequest (startServing 9 0 demoBroker))"

definition demoOpened :: transportSystem where "demoOpened = doReader 0 demoAsked"

definition demoStreamed :: transportSystem where
  "demoStreamed = doStream 0 (doReader 0 (doReader 0 (doWriter (doWriter (doWriter demoOpened)))))"

lemma demoAsked_reachable: "transport_reachable demoCodec demoTransport demoAsked"
proof -
  have "transport_reachable demoCodec demoTransport (startServing 9 0 demoBroker)"
    unfolding transport_reachable_def using run_refl by blast
  then show ?thesis unfolding demoAsked_def by (intro reachable_step [OF _ do_steps(1)])
qed

lemma demo_run: "transport_run demoCodec demoTransport demoOpened [(''s1'', ''x'')] demoStreamed"
proof -
  let ?J = "transport_run demoCodec demoTransport"
  have seen: "eventsSeen (ts_writer demoOpened) = []" "eventsSeen (ts_writer (doWriter demoOpened)) = [(''s1'', ''x'')]"
    "eventsSeen (ts_writer (doWriter (doWriter demoOpened))) = []" by code_simp+
  have "?J demoOpened ([] @ []) (doWriter demoOpened)"
    using run_next [OF run_refl do_steps(2)] seen(1) by metis
  then have "?J demoOpened (([] @ []) @ [(''s1'', ''x'')]) (doWriter (doWriter demoOpened))"
    using run_next do_steps(2) seen(2) by metis
  then have "?J demoOpened ((([] @ []) @ [(''s1'', ''x'')]) @ []) (doWriter (doWriter (doWriter demoOpened)))"
    using run_next do_steps(2) seen(3) by metis
  then have "?J demoOpened ((((([] @ []) @ [(''s1'', ''x'')]) @ []) @ []) @ []) (doReader 0 (doReader 0 (doWriter (doWriter (doWriter demoOpened)))))"
    using run_next do_steps(1) by metis
  from run_next [OF this do_steps(3)] show ?thesis unfolding demoStreamed_def by simp
qed


section \<open>Snapshots\<close>

lemma concat_chunks: "0 < step \<Longrightarrow> concat (snapshotChunks step start bytes) = drop start bytes"
proof (induction step start bytes rule: snapshotChunks.induct)
  case (1 step start bytes)
  show ?case
  proof (cases "start < length bytes")
    case True
    have "drop start (take (start + step) bytes) @ drop (start + step) bytes = drop start bytes"
      by (metis append_take_drop_id drop_take diff_add_inverse drop_drop add.commute)
    then show ?thesis using 1 True by (subst snapshotChunks.simps) (auto simp: Let_def)
  qed (subst snapshotChunks.simps, simp)
qed

lemma chunk_sizes: "chunk \<in> set (snapshotChunks step start bytes) \<Longrightarrow> 0 < length chunk \<and> length chunk \<le> step"
proof (induction step start bytes rule: snapshotChunks.induct)
  case (1 step start bytes)
  then show ?case by (subst (asm) (2) snapshotChunks.simps) (auto simp: Let_def split: if_splits)
qed

lemma chunk_count: "0 < step \<Longrightarrow> length (snapshotChunks step start bytes) = (length bytes - start + step - 1) div step"
proof (induction step start bytes rule: snapshotChunks.induct)
  case (1 step start bytes)
  show ?case
  proof (cases "start < length bytes")
    case True
    have "(length bytes - start + step - 1) div step = Suc ((length bytes - (start + step) + step - 1) div step)"
    proof (cases "start + step \<le> length bytes")
      case True
      then have "length bytes - start + step - 1 = (length bytes - (start + step) + step - 1) + step" using 1(2) by simp
      then show ?thesis using 1(2) by (metis div_add_self2 less_numeral_extra(3) Suc_eq_plus1)
    next
      case False
      then have "(length bytes - start + step - 1) div step = 1" "(length bytes - (start + step) + step - 1) div step = 0"
        using \<open>start < length bytes\<close> 1(2) by (simp_all add: div_nat_eqI)
      then show ?thesis by simp
    qed
    then show ?thesis using 1 True by (subst snapshotChunks.simps) simp
  next
    case False
    then show ?thesis using 1(2) by (subst snapshotChunks.simps) simp
  qed
qed

lemma writeFrames_all: "list_all (\<lambda>f. length (fr_Payload f) < 2 ^ 62) fs \<Longrightarrow> writeFrames (\<lambda>_. True) fs = (fs, True)"
proof (induction fs)
  case (Cons f fs)
  then obtain raw where "Encode f = Inr raw" using Encode_total [of f] by auto
  then show ?case using Cons by (simp add: comp_def)
qed simp

definition chunksOf :: "Frame list \<Rightarrow> byte list list" where
  "chunksOf fs = map fr_Payload (filter (\<lambda>f. fr_Type f = TypeSnapshotChunk) fs)"



section \<open>Typing\<close>

lemma sendToSession_wrote:
  assumes "BWrite conn f \<in> set (snd (sendToSession ok sid (Some p) frame b))"
  shows "\<exists>st bc. gm_get (bk_interactiveOwners b) (TrimSpace sid) = Some p \<and> gm_get (bk_sessions b) (TrimSpace sid) = Some st \<and>
    st_owner st = Some bc \<and> bc_conn bc = Some conn \<and> f = frame\<lparr>bf_SessionID := TrimSpace sid\<rparr>"
  using assms by (auto simp: sendToSession_def writeFrame_def Let_def split: if_splits option.splits)

lemma routeInput_wrote:
  assumes "ToSession x \<in> set (snd (routeInput j e sid routed c))"
  shows "gm_get (cs_active c) sid \<noteq> None" "x \<in> set (snd routed)"
  using assms by (auto simp: routeInput_def continue_def writeError_def writeRouteError_def writeControl_def Let_def
      split: if_splits option.splits prod.splits)

lemma writeError_ok:
  assumes "se_ok e 0" "length (js_marshal j (ErrorMsg code [])) < 2 ^ 62"
  shows "writeError j e code = ([Control (jsonFrame j TypeError (ErrorMsg code []))], True)"
proof -
  obtain raw where "Encode (jsonFrame j TypeError (ErrorMsg code [])) = Inr raw"
    using Encode_total [of "jsonFrame j TypeError (ErrorMsg code [])"] assms(2) by (auto simp: jsonFrame_def)
  then show ?thesis using assms(1) by (simp add: writeError_def writeControl_def)
qed

lemma reader_wrote:
  assumes "readerStep j t e pt c b = (pt', es, c', b')" and w: "ToSession (BWrite conn f) \<in> set es"
  shows "\<exists>sid st bc. gm_get (cs_active c) sid \<noteq> None \<and> bf_SessionID f = TrimSpace sid \<and>
    gm_get (bk_interactiveOwners b) (TrimSpace sid) = Some (cs_owner c) \<and> gm_get (bk_sessions b) (TrimSpace sid) = Some st \<and>
    st_owner st = Some bc \<and> bc_conn bc = Some conn \<and> bf_Type f \<in> {brokerFrameInputText, brokerFrameInputKey, brokerFrameResize} \<and>
    c' = c \<and> b' = b"
proof -
  have routed: "\<exists>st bc. gm_get (cs_active c) sid \<noteq> None \<and> bf_SessionID f = TrimSpace sid \<and>
      gm_get (bk_interactiveOwners b) (TrimSpace sid) = Some (cs_owner c) \<and> gm_get (bk_sessions b) (TrimSpace sid) = Some st \<and>
      st_owner st = Some bc \<and> bc_conn bc = Some conn \<and> bf_Type f = bf_Type fr"
    if "ToSession (BWrite conn f) \<in> set (snd (routeInput j e sid (sendToSession ok sid (Some (cs_owner c)) fr b) c))" for sid ok fr
    using routeInput_wrote [OF that] sendToSession_wrote by fastforce
  obtain fr m where m: "pt = ReaderRead" "handleControl j e m c b = (pt', es, c', b')"
    using assms w by (auto simp: readerStep_def writeControl_def continue_def Let_def split: readerPoint.splits sum.splits option.splits prod.splits if_splits)
  show ?thesis
  proof (cases m)
    case (MsgInputText sid typed submit)
    then show ?thesis using m(2) w routed [of sid "se_sessionOk e"]
      by (fastforce simp: handleControl_def Let_def RouteInputText_def split_def)
  next
    case (MsgInputKey sid key)
    then show ?thesis using m(2) w routed [of sid "se_sessionOk e"]
      by (fastforce simp: handleControl_def Let_def RouteInputKey_def split_def)
  next
    case (MsgResize sid cols rows)
    then show ?thesis using m(2) w routed [of sid "se_sessionOk e"]
      by (fastforce simp: handleControl_def Let_def RouteResize_def split_def)
  qed (use m(2) w in \<open>auto simp: handleControl_def split: prod.splits if_splits\<close>)
qed

text \<open>
  C24. A client types only where it holds the grant. Whatever the reader of a connection does in a section, it writes to
  a session only text, keys or sizes, only to the connection of the session that the client's frame named, and only while
  the broker has the session granted to this client and the client was told so. Text for a session that another client
  holds is answered with interactive_not_granted and reaches nobody; text from the holder reaches the session.
\<close>

theorem client_types_with_grant:
  assumes "readerStep j t e pt c b = (pt', es, c', b')"
  shows "(ToSession (BWrite conn f) \<in> set es \<longrightarrow>
      (\<exists>sid st bc. gm_get (cs_active c) sid \<noteq> None \<and> bf_SessionID f = TrimSpace sid \<and>
         gm_get (bk_interactiveOwners b) (TrimSpace sid) = Some (cs_owner c) \<and> gm_get (bk_sessions b) (TrimSpace sid) = Some st \<and>
         st_owner st = Some bc \<and> bc_conn bc = Some conn \<and> bf_Type f \<in> {brokerFrameInputText, brokerFrameInputKey, brokerFrameResize} \<and>
         c' = c \<and> b' = b)) \<and>
    (pt = ReaderRead \<and> se_frame e = Inr frame \<and> controlOf j frame = Some (MsgInputText sid typed submit) \<and>
       TrimSpace sid = sid \<and> sid \<noteq> [] \<and> gm_get (bk_sessions b) sid = Some st \<and> st_owner st = Some bc \<and> bc_conn bc = Some conn' \<and>
       se_ok e 0 \<and> length (js_marshal j (ErrorMsg ''interactive_not_granted'' [])) < 2 ^ 62 \<longrightarrow>
       (gm_get (bk_interactiveOwners b) sid \<noteq> Some (cs_owner c) \<longrightarrow> pt' = ReaderRead \<and>
          es = [Control (jsonFrame j TypeError (ErrorMsg ''interactive_not_granted'' []))] \<and> c' = c \<and> b' = b) \<and>
       (gm_get (bk_interactiveOwners b) sid = Some (cs_owner c) \<and> gm_get (cs_active c) sid \<noteq> None \<longrightarrow>
          (\<exists>f' es'. es = ToSession (BWrite conn' f') # es' \<and> bf_Text f' = typed \<and> bf_Submit f' = submit \<and> bf_SessionID f' = sid)))"
proof (intro conjI impI)
  assume "ToSession (BWrite conn f) \<in> set es"
  then show "\<exists>sid st bc. gm_get (cs_active c) sid \<noteq> None \<and> bf_SessionID f = TrimSpace sid \<and>
      gm_get (bk_interactiveOwners b) (TrimSpace sid) = Some (cs_owner c) \<and> gm_get (bk_sessions b) (TrimSpace sid) = Some st \<and>
      st_owner st = Some bc \<and> bc_conn bc = Some conn \<and> bf_Type f \<in> {brokerFrameInputText, brokerFrameInputKey, brokerFrameResize} \<and>
      c' = c \<and> b' = b" by (rule reader_wrote [OF assms])
next
  assume h: "pt = ReaderRead \<and> se_frame e = Inr frame \<and> controlOf j frame = Some (MsgInputText sid typed submit) \<and>
    TrimSpace sid = sid \<and> sid \<noteq> [] \<and> gm_get (bk_sessions b) sid = Some st \<and> st_owner st = Some bc \<and> bc_conn bc = Some conn' \<and>
    se_ok e 0 \<and> length (js_marshal j (ErrorMsg ''interactive_not_granted'' [])) < 2 ^ 62"
  then have step: "(pt', es, c', b') = (let (p, es) = routeInput j e sid (RouteInputText (se_sessionOk e) sid (Some (cs_owner c)) typed submit b) c
      in (p, es, c, b))" using assms by (simp add: readerStep_def handleControl_def)
  have send: "RouteInputText (se_sessionOk e) sid (Some (cs_owner c)) typed submit b =
      (if gm_get (bk_interactiveOwners b) sid = Some (cs_owner c)
       then let f' = zeroBrokerFrame\<lparr>bf_Type := brokerFrameInputText, bf_Text := typed, bf_Submit := submit, bf_SessionID := sid\<rparr>
         in (if se_sessionOk e conn' f' then None else Some ErrBrokerWrite, [BWrite conn' f'])
       else (Some ErrBrokerInteractiveNotGranted, []))"
    using h by (simp add: RouteInputText_def sendToSession_cases [of sid b st bc conn'] Let_def)
  note err = writeError_ok [of e j "''interactive_not_granted''"]
  {
    assume "gm_get (bk_interactiveOwners b) sid \<noteq> Some (cs_owner c)"
    then have "(pt', es, c', b') = (ReaderRead, [Control (jsonFrame j TypeError (ErrorMsg ''interactive_not_granted'' []))], c, b)"
      using step h err by (simp add: send routeInput_def continue_def writeRouteError_def)
    then show "pt' = ReaderRead" "es = [Control (jsonFrame j TypeError (ErrorMsg ''interactive_not_granted'' []))]" "c' = c" "b' = b"
      by simp_all
  }
  assume g: "gm_get (bk_interactiveOwners b) sid = Some (cs_owner c) \<and> gm_get (cs_active c) sid \<noteq> None"
  show "\<exists>f' es'. es = ToSession (BWrite conn' f') # es' \<and> bf_Text f' = typed \<and> bf_Submit f' = submit \<and> bf_SessionID f' = sid"
    using step g by (auto simp: send routeInput_def Let_def split_def split: if_splits)
qed

theorem client_types_with_grant_witness:
  "\<exists>f es. fst (snd (readerStep demoCodec demoTransport (demoStepEnv TypeInputText) ReaderRead (ts_client demoStreamed) (ts_core demoStreamed)))
     = ToSession (BWrite 7 f) # es \<and> bf_Text f = ''ls'' \<and> bf_SessionID f = ''s1''"
proof -
  obtain pt' es c' b' where step: "readerStep demoCodec demoTransport (demoStepEnv TypeInputText) ReaderRead (ts_client demoStreamed)
      (ts_core demoStreamed) = (pt', es, c', b')" by (metis prod.exhaust)
  have "map_option st_owner (gm_get (bk_sessions (ts_core demoStreamed)) ''s1'') = Some (Some \<lparr>bc_addr = 1, bc_conn = Some 7\<rparr>)"
    by code_simp
  then obtain st where st: "gm_get (bk_sessions (ts_core demoStreamed)) ''s1'' = Some st" "st_owner st = Some \<lparr>bc_addr = 1, bc_conn = Some 7\<rparr>"
    by auto
  have "controlOf demoCodec \<lparr>fr_Type = TypeInputText, fr_Payload = [123, 125]\<rparr> = Some (MsgInputText ''s1'' ''ls'' True)"
    "se_frame (demoStepEnv TypeInputText) = Inr \<lparr>fr_Type = TypeInputText, fr_Payload = [123, 125]\<rparr>" "TrimSpace ''s1'' = ''s1''"
    "gm_get (bk_interactiveOwners (ts_core demoStreamed)) ''s1'' = Some (cs_owner (ts_client demoStreamed))"
    "gm_get (cs_active (ts_client demoStreamed)) ''s1'' = Some ()" "se_ok (demoStepEnv TypeInputText) 0"
    by code_simp+
  note facts = this
  have small: "length (js_marshal demoCodec (ErrorMsg ''interactive_not_granted'' [])) < 2 ^ 62" by (simp add: demoCodec_def)
  note wrote = mp [OF conjunct2 [OF client_types_with_grant [OF step, where frame = "\<lparr>fr_Type = TypeInputText, fr_Payload = [123, 125]\<rparr>"
        and sid = "''s1''" and typed = "''ls''" and submit = True and bc = "\<lparr>bc_addr = 1, bc_conn = Some 7\<rparr>" and conn' = 7 and st = st]]]
  have "\<exists>f' es'. es = ToSession (BWrite 7 f') # es' \<and> bf_Text f' = ''ls'' \<and> bf_Submit f' = True \<and> bf_SessionID f' = ''s1''"
    by (rule mp [OF conjunct2 [OF wrote]]) (use facts small st in simp_all)
  then show ?thesis by (auto simp: step)
qed

section \<open>Who is served, and what is left\<close>

lemma lowerText_Nil: "lowerText s = [] \<longleftrightarrow> s = []"
proof
  assume "lowerText s = []"
  then have "map lowerRune (decodeString s) = decodeString []" using case_runes(1) [of s] by simp
  then have "decodeString s = []" by (simp add: decodeString_def runesOf.simps [of "[]"])
  then show "s = []" by (cases s) (simp_all add: decodeString_def runesOf.simps [of "_ # _"])
qed (simp add: lowerText_def decodeString_def encodeString_def runesOf.simps)

lemma checkHello_passed:
  assumes "checkHello t hello = None"
  shows "he_ProtocolVersion hello = 2" "TrimSpace (ct_AndroidFingerprint t) \<noteq> [] \<Longrightarrow>
    \<exists>fp. fp \<noteq> [] \<and> NormalizeDeviceFingerprint (ct_AndroidFingerprint t) = Inr fp \<and>
      NormalizeDeviceFingerprint (he_ClientFingerprint hello) = Inr fp"
proof -
  show "he_ProtocolVersion hello = 2" using assms by (simp add: checkHello_def ProtocolVersion_def split: if_splits)
  have trim: "NormalizeDeviceFingerprint (TrimSpace s) = NormalizeDeviceFingerprint s" for s
    by (simp add: NormalizeDeviceFingerprint_def)
  have "fp \<noteq> []" if "TrimSpace s \<noteq> []" "NormalizeDeviceFingerprint s = Inr fp" for s fp
    using that by (auto simp: NormalizeDeviceFingerprint_def Let_def lowerText_Nil split: if_splits option.splits)
  then show "TrimSpace (ct_AndroidFingerprint t) \<noteq> [] \<Longrightarrow>
    \<exists>fp. fp \<noteq> [] \<and> NormalizeDeviceFingerprint (ct_AndroidFingerprint t) = Inr fp \<and>
      NormalizeDeviceFingerprint (he_ClientFingerprint hello) = Inr fp"
    using assms by (auto simp: checkHello_def Let_def trim split: if_splits sum.splits)
qed

lemma serveStart_passed:
  assumes "readConnectivityJSON (js_hello j) TypeHello (maxPayload t) control = (Inr hello, r1)" "checkHello t hello = None"
  shows "\<exists>frames. serveStart j ok t control b = (Inr (fst (Subscribe b)), frames, r1, snd (Subscribe b)) \<and>
      map fr_Type frames = [TypeHello, TypeSessionIndex, TypePathState] \<and>
      fr_Payload (frames ! 1) = js_marshal j (SessionIndexMsg (brokerSessionMetadata (Snapshot b))) \<or>
    (\<exists>b'. serveStart j ok t control b = (Inl ErrTransportWrite, frames, r1, b') \<and>
      (b' = b \<or> b' = cancelSubscription (fst (Subscribe b)) (snd (Subscribe b))))"
proof -
  let ?hello = "jsonFrame j TypeHello (HelloMsg \<lparr>he_ProtocolVersion = ProtocolVersion, he_ActorType = ActorDaemon,
    he_ClientFingerprint = ct_DaemonFingerprint t, he_PathKind = pathKindOf t\<rparr>)"
  let ?index = "jsonFrame j TypeSessionIndex (SessionIndexMsg (brokerSessionMetadata (Snapshot b)))"
  let ?path = "jsonFrame j TypePathState (PathStateMsg \<lparr>ps_AttemptID = ct_AttemptID t, ps_PathKind = pathKindOf t,
    ps_FallbackReason = ct_FallbackReason t, ps_DirectSetupLatencyMS = durationMillis (ct_DirectSetupLatency t),
    ps_RelaySetupLatencyMS = durationMillis (ct_RelaySetupLatency t)\<rparr>)"
  obtain w1 a1 w2 a2 where w: "writeFrames ok [?hello] = (w1, a1)" "writeFrames (ok \<circ> Suc) [?index, ?path] = (w2, a2)" by fastforce
  have run: "serveStart j ok t control b = (if \<not> a1 then (Inl ErrTransportWrite, w1, r1, b)
      else if a2 then (Inr (fst (Subscribe b)), w1 @ w2, r1, snd (Subscribe b))
      else (Inl ErrTransportWrite, w1 @ w2, r1, cancelSubscription (fst (Subscribe b)) (snd (Subscribe b))))"
    using assms w
    by (simp add: serveStart_def SnapshotMetadataAndSubscribe_def Snapshot_def Let_def split_def del: writeFrames.simps)
  have "w1 = [?hello]" "w2 = [?index, ?path]" if "a1" "a2"
    using that writeFrames_prefix [OF w(1)] writeFrames_prefix [OF w(2)] by blast+
  then show ?thesis unfolding run by (cases a1; cases a2) (auto simp: jsonFrame_def)
qed

text \<open>
  C25. A client is served only after its check. If \<open>Serve\<close> starts its goroutines, the client's first frame was a hello
  of protocol version 2 and, where the transport names a device, with the fingerprint of that device in its normal form;
  and the client has been sent the daemon's hello, the index of the broker's sessions and the path, in this
  order. A client that fails the check gets an error frame at most, learns of no session, and the broker is untouched.
  In every error the broker has the sessions, grants and subscribers it had before.
\<close>

theorem client_checked_first:
  assumes "serveStart j ok t control b = (res, frames, control', b')" "gm_get (bk_subscribers b) (bk_nextPtr b) = None"
  shows "(\<forall>sub. res = Inr sub \<longrightarrow>
      (\<exists>hello. fst (readConnectivityJSON (js_hello j) TypeHello (maxPayload t) control) = Inr hello \<and> he_ProtocolVersion hello = 2 \<and>
         (TrimSpace (ct_AndroidFingerprint t) \<noteq> [] \<longrightarrow>
            (\<exists>fp. fp \<noteq> [] \<and> NormalizeDeviceFingerprint (ct_AndroidFingerprint t) = Inr fp \<and>
               NormalizeDeviceFingerprint (he_ClientFingerprint hello) = Inr fp))) \<and>
      map fr_Type frames = [TypeHello, TypeSessionIndex, TypePathState] \<and>
      fr_Payload (frames ! 1) = js_marshal j (SessionIndexMsg (brokerSessionMetadata (Snapshot b))) \<and> (sub, b') = Subscribe b) \<and>
    (res = Inl ErrConnectivityProtocolVersion \<or> res = Inl ErrConnectivityDeviceUntrusted \<longrightarrow>
      b' = b \<and> (frames = [] \<or> map fr_Type frames = [TypeError])) \<and>
    (\<forall>err. res = Inl err \<longrightarrow> bk_sessions b' = bk_sessions b \<and> bk_interactiveOwners b' = bk_interactiveOwners b \<and>
      gm_get (bk_subscribers b') k = gm_get (bk_subscribers b) k)"
proof -
  obtain got r1 where read: "readConnectivityJSON (js_hello j) TypeHello (maxPayload t) control = (got, r1)" by fastforce
  show ?thesis
  proof (cases got)
    case (Inl e)
    then show ?thesis using assms(1) read by (auto simp: serveStart_def)
  next
    case (Inr hello)
    show ?thesis
    proof (cases "checkHello t hello")
      case (Some x)
      obtain e code where x: "x = (e, code)" by (cases x)
      let ?f = "jsonFrame j TypeError (ErrorMsg code [])"
      have "frames = fst (writeFrames ok [?f])" "b' = b" "res = Inl e"
        using assms(1) read Inr Some x by (auto simp: serveStart_def simp del: writeFrames.simps)
      moreover have "fst (writeFrames ok [?f]) = [?f] \<or> fst (writeFrames ok [?f]) = []" by (auto split: sum.split)
      ultimately show ?thesis by (auto simp: jsonFrame_def simp del: writeFrames.simps)
    next
      case None
      have "bk_sessions (cancelSubscription (fst (Subscribe b)) (snd (Subscribe b))) = bk_sessions b"
        "bk_interactiveOwners (cancelSubscription (fst (Subscribe b)) (snd (Subscribe b))) = bk_interactiveOwners b"
        "gm_get (bk_subscribers (cancelSubscription (fst (Subscribe b)) (snd (Subscribe b)))) k = gm_get (bk_subscribers b) k"
        using assms(2) by (auto simp: cancelSubscription_def Subscribe_def Let_def)
      then show ?thesis
        using serveStart_passed [OF read [unfolded Inr] None, of ok b] checkHello_passed [OF None] read Inr assms(1) by auto
    qed
  qed
qed

theorem client_checked_first_witness:
  "\<exists>frames r b. serveStart demoCodec (\<lambda>_. True) demoTransport \<lparr>rd_data = [1, 2, 123, 125, 9], rd_end = EOF\<rparr> (sy_broker demoBroker) =
     (Inr 0, frames, r, b) \<and> map fr_Type frames = [TypeHello, TypeSessionIndex, TypePathState]"
proof -
  obtain res frames r b where run: "serveStart demoCodec (\<lambda>_. True) demoTransport \<lparr>rd_data = [1, 2, 123, 125, 9], rd_end = EOF\<rparr>
      (sy_broker demoBroker) = (res, frames, r, b)" by (metis prod.exhaust)
  let ?hello = "\<lparr>he_ProtocolVersion = 2, he_ActorType = ActorMobile, he_ClientFingerprint = [], he_PathKind = []\<rparr>"
  have read: "readConnectivityJSON (js_hello demoCodec) TypeHello (maxPayload demoTransport)
      \<lparr>rd_data = [1, 2, 123, 125, 9], rd_end = EOF\<rparr> = (Inr ?hello, \<lparr>rd_data = [9], rd_end = EOF\<rparr>)" by code_simp
  have check: "checkHello demoTransport ?hello = None" by code_simp
  have written: "writeFrames (\<lambda>_. True) [jsonFrame demoCodec ty m, jsonFrame demoCodec ty' m'] =
      ([jsonFrame demoCodec ty m, jsonFrame demoCodec ty' m'], True)"
    "writeFrames (\<lambda>_. True) [jsonFrame demoCodec ty m] = ([jsonFrame demoCodec ty m], True)" for ty m ty' m'
    by (rule writeFrames_all, simp add: jsonFrame_def demoCodec_def)+
  have "fst (serveStart demoCodec (\<lambda>_. True) demoTransport \<lparr>rd_data = [1, 2, 123, 125, 9], rd_end = EOF\<rparr> b0) = Inr (fst (Subscribe b0))" for b0
    unfolding serveStart_def read
    by (simp add: check SnapshotMetadataAndSubscribe_def Let_def split_def comp_def written del: writeFrames.simps)
  then have "res = Inr (fst (Subscribe (sy_broker demoBroker)))" using run by (metis fst_conv)
  then have res: "res = Inr 0" by (simp add: Subscribe_def demoBroker_def NewBroker_def)
  have fresh: "gm_get (bk_subscribers (sy_broker demoBroker)) (bk_nextPtr (sy_broker demoBroker)) = None" by code_simp
  have "map fr_Type frames = [TypeHello, TypeSessionIndex, TypePathState]"
    using mp [OF spec [OF conjunct1 [OF client_checked_first [OF run fresh]]] res] by simp
  then show ?thesis using run unfolding res by (intro exI conjI)
qed

lemma closeAll_done:
  assumes "gm_get (cs_streams c) sid = Some p" "gm_get (cs_heap c) p = Some x"
  shows "gm_get (cs_heap (closeAllStreams c)) p = Some (x\<lparr>is_done := True\<rparr>)"
proof -
  have closed: "gm_get (cs_heap (fold (\<lambda>(_, p). closeInteractiveStreamState (Some p)) ps c0)) p =
      (if p \<in> snd ` set ps then map_option (\<lambda>s. s\<lparr>is_done := True\<rparr>) (gm_get (cs_heap c0) p) else gm_get (cs_heap c0) p)"
    for ps :: "(string \<times> nat) list" and c0
    by (induction ps arbitrary: c0) (auto simp: option.map_comp comp_def cong: option.map_cong)
  have "(sid, p) \<in> set (cs_streams c)" using assms(1) by (rule gm_get_in)
  then have "p \<in> snd ` set (cs_streams c)" by force
  then show ?thesis using assms(2) by (simp add: closeAllStreams_def closed)
qed

lemma closeAll_empty: "cs_streams (closeAllStreams c) = []"
proof -
  have "cs_streams (fold (\<lambda>(_, p). closeInteractiveStreamState (Some p)) ps c0) = cs_streams c0" for ps :: "(string \<times> nat) list" and c0
    by (induction ps arbitrary: c0) auto
  then show ?thesis by (simp add: closeAllStreams_def)
qed

text \<open>
  C27. A connection that ends leaves nothing behind: after the deferred calls of its reader and of \<open>Serve\<close>, none of its
  streams is in the map and all that were are closed, its subscription gets no further event, and it holds no session,
  while every grant of another client stays.
\<close>

theorem ended_connection_leaves_nothing:
  assumes "readerStep j t e ReaderReturn c b = (pt, es, c', b0)" "gm_wf (bk_interactiveOwners b)"
    "gm_wf (bk_subscribers b)" "gm_get (bk_heap b) (cs_sub c) \<noteq> None"
  shows "pt = ReaderDone \<and> cs_streams c' = [] \<and>
    (gm_get (cs_streams c) sid = Some p \<and> gm_get (cs_heap c) p = Some x \<longrightarrow>
       map_option is_done (gm_get (cs_heap c') p) = Some True) \<and>
    gm_get (bk_interactiveOwners (serveEnd c b)) sid = (if gm_get (bk_interactiveOwners b) sid = Some (cs_owner c) then None
      else gm_get (bk_interactiveOwners b) sid) \<and>
    (\<exists>s. gm_get (bk_heap (serveEnd c b)) (cs_sub c) = Some s \<and> sb_done s \<and>
       gm_get (bk_heap (emit pick others event (serveEnd c b))) (cs_sub c) = Some s)"
proof -
  have c': "pt = ReaderDone" "c' = closeAllStreams c" using assms(1) by (simp_all add: readerStep_def)
  obtain s where s: "gm_get (bk_heap b) (cs_sub c) = Some s" using assms(4) by auto
  let ?b = "serveEnd c b"
  have owners: "bk_interactiveOwners ?b = gm_drop (\<lambda>current. current = cs_owner c) (bk_interactiveOwners b)"
    and heap: "gm_get (bk_heap ?b) (cs_sub c) = Some (s\<lparr>sb_done := True\<rparr>)" and subs: "cs_sub c \<notin> fst ` set (bk_subscribers ?b)"
    using s by (auto simp: serveEnd_def ReleaseInteractiveOwner_def cancelSubscription_def gm_del_def)
  have "gm_get (bk_heap (fold (\<lambda>(sub, _). enqueueAt pick others event sub) ss b1)) q = gm_get (bk_heap b1) q"
    if "q \<notin> fst ` set ss" for ss :: "(nat \<times> unit) list" and b1 q
    using that by (induction ss arbitrary: b1) (auto simp: enqueueAt_def split: option.split)
  then have "gm_get (bk_heap (emit pick others event ?b)) (cs_sub c) = Some (s\<lparr>sb_done := True\<rparr>)"
    using subs heap by (simp add: emit_def)
  moreover have "gm_get (bk_interactiveOwners ?b) sid = (if gm_get (bk_interactiveOwners b) sid = Some (cs_owner c) then None
      else gm_get (bk_interactiveOwners b) sid)"
    unfolding owners gm_get_drop [OF assms(2)] by (simp split: option.split)
  ultimately show ?thesis using c' heap closeAll_empty closeAll_done by (auto simp: c')
qed

theorem ended_connection_leaves_nothing_witness:
  "gm_get (bk_interactiveOwners (ts_core demoStreamed)) ''s1'' = Some 9 \<and>
   gm_get (bk_interactiveOwners (serveEnd (ts_client demoStreamed) (ts_core demoStreamed))) ''s1'' = None"
proof -
  have facts: "gm_wf (bk_interactiveOwners (ts_core demoStreamed))" "gm_wf (bk_subscribers (ts_core demoStreamed))"
    "gm_get (bk_interactiveOwners (ts_core demoStreamed)) ''s1'' = Some 9" "cs_owner (ts_client demoStreamed) = 9"
    "map_option sb_done (gm_get (bk_heap (ts_core demoStreamed)) (cs_sub (ts_client demoStreamed))) = Some False" by code_simp+
  obtain pt es c' b0 where step: "readerStep demoCodec demoTransport (demoStepEnv 0) ReaderReturn (ts_client demoStreamed)
      (ts_core demoStreamed) = (pt, es, c', b0)" by (metis prod.exhaust)
  have "gm_get (bk_heap (ts_core demoStreamed)) (cs_sub (ts_client demoStreamed)) \<noteq> None" using facts(5) by auto
  with ended_connection_leaves_nothing [OF step facts(1,2)] facts(3,4) show ?thesis by simp
qed

section \<open>Where output goes astray\<close>

text \<open>
  Output that the follower looks at after the snapshot was taken and before the stream is in the map is on neither: the
  client's terminal misses it. The run has the event; the stream that is then opened has nothing to carry.
\<close>

lemma output_before_stream_is_lost:
  assumes "transport_reachable j t s" "ts_reader s = ReaderSnapped req None snapshot cols rows"
    "ts_writer s = WriterEvent event" "ev_Type event = BrokerEventOutput" "ev_Output event \<noteq> []"
    "ev_SessionID event = ir_SessionID req" "gm_get (cs_streams (ts_client s)) (ir_SessionID req) = None"
  shows "\<exists>s' p. transport_run j t s [(ir_SessionID req, ev_Output event)] s' \<and> carried s' p = [] \<and> ts_writer s' = WriterWait \<and>
    gm_get (cs_streams (ts_client s')) (ir_SessionID req) = Some p \<and>
    ts_reader s' = ReaderReply req None (Some (p, 0)) None snapshot cols rows"
proof -
  define e where "e = \<lparr>se_frame = Inl ErrReader, se_open = Some 0, se_ok = (\<lambda>_. True), se_sessionOk = (\<lambda>_ _. True)\<rparr>"
  define s1 where "s1 = withCore (ts_core s) (s\<lparr>ts_writer := WriterWait, ts_client := ts_client s\<rparr>)"
  have "writerStep j e False (ts_writer s) (ts_client s) (ts_core s) = (WriterWait, [], ts_client s, ts_core s)"
    using assms by (simp add: writerStep_def)
  from transport_step.Writer [OF this] have w: "transport_step j t s [(ir_SessionID req, ev_Output event)] s1"
    using assms by (simp add: eventsSeen_def s1_def)
  define c where "c = installStream (ir_SessionID req) 0 (ts_client s)"
  define s2 where "s2 = withCore (ts_core s1) (s1\<lparr>ts_reader := ReaderReply req None (Some (cs_next (ts_client s), 0)) None snapshot cols rows,
    ts_client := c\<rparr>)"
  have "readerStep j t e (ts_reader s1) (ts_client s1) (ts_core s1) =
      (ReaderReply req None (Some (cs_next (ts_client s), 0)) None snapshot cols rows, [], c, ts_core s1)"
    using assms by (simp add: readerStep_def s1_def e_def c_def)
  from transport_step.Reader [OF this] have r: "transport_step j t s1 [] s2" by (simp add: s2_def)
  have run: "transport_run j t s [(ir_SessionID req, ev_Output event)] s2"
    using run_next [OF run_next [OF run_refl w] r] by simp
  have "carried s2 (cs_next (ts_client s)) = []"
    by (simp add: carried_def s2_def s1_def c_def installStream_def Let_def newInteractiveStreamState_def liveOf_def)
  then show ?thesis using run
    by (intro exI [of _ s2] exI [of _ "cs_next (ts_client s)"]) (simp add: s2_def s1_def c_def installStream_def Let_def)
qed

text \<open>
  A client that holds a session and asks for it again, and whose second stream cannot be opened, loses the grant and
  keeps the first stream: it goes on reading a session that another client can now be granted.
\<close>

lemma failed_reopening_keeps_stream:
  assumes "gm_get (cs_streams c) (ir_SessionID req) = Some p" "se_open e = None" "TrimSpace (ir_SessionID req) \<noteq> []"
  shows "\<exists>pt b'. readerStep j t e (ReaderSnapped req None snapshot cols rows) c b = (pt, [], c, b') \<and>
    gm_get (bk_interactiveOwners b') (TrimSpace (ir_SessionID req)) \<noteq> Some (cs_owner c)"
  using assms by (auto simp: readerStep_def ReleaseInteractive_def Let_def)

end
