(* ===== verification/Relay_Http.thy ===== *)
theory Relay_Http
  imports Go_Unicode Go_Net
begin

text \<open>
  What the relay's HTTP handlers share: reading a request (\<open>handler/httpx/request.go\<close>), the error envelope
  (\<open>handler/response/response.go\<close>, \<open>handler/api/json.go\<close>) and the throttle of failed attempts
  (\<open>handler/api/throttle.go\<close>).

  A request is its headers, as \<open>Header.Get\<close> reads them, and the address of the connection. The JSON text of
  bodies is not modelled: a handler gets the decoded body or the failure to decode it.
\<close>

section \<open>Requests\<close>

record httpRequest =
  hq_header :: "string \<Rightarrow> string"
  hq_RemoteAddr :: string

definition HasPrefix :: "string \<Rightarrow> string \<Rightarrow> bool" where
  "HasPrefix s p \<longleftrightarrow> take (length p) s = p"

definition BearerTokenFromRequest :: "httpRequest \<Rightarrow> string option" where
  "BearerTokenFromRequest r =
     (let auth = TrimSpace (hq_header r ''Authorization''); prefix = ''Bearer ''
      in if \<not> HasPrefix auth prefix then None
         else let token = TrimSpace (drop (length prefix) auth)
              in if token = [] then None else Some token)"

definition StaticBearerAuth :: "httpRequest \<Rightarrow> string \<Rightarrow> bool" where
  "StaticBearerAuth r wantToken0 =
     (case BearerTokenFromRequest r of
        None \<Rightarrow> False
      | Some token \<Rightarrow>
          let wantToken = TrimSpace wantToken0
          in if wantToken = [] then False else token = wantToken)"

definition DirectRequestRemoteIP :: "httpRequest \<Rightarrow> string" where
  "DirectRequestRemoteIP r =
     (case SplitHostPort (TrimSpace (hq_RemoteAddr r)) of
        Some (host, _) \<Rightarrow> if host \<noteq> [] then host else TrimSpace (hq_RemoteAddr r)
      | None \<Rightarrow> TrimSpace (hq_RemoteAddr r))"

definition RequestRemoteIP :: "httpRequest \<Rightarrow> string" where
  "RequestRemoteIP r =
     (let forwarded = TrimSpace (hq_header r ''X-Forwarded-For'')
      in if forwarded = [] then DirectRequestRemoteIP r
         else case find (\<lambda>c. c \<noteq> []) (map TrimSpace (rev (split_on (CHR '','') forwarded))) of
             Some candidate \<Rightarrow> candidate
           | None \<Rightarrow> DirectRequestRemoteIP r)"

definition HasForwardedProxyHeaders :: "httpRequest \<Rightarrow> bool" where
  "HasForwardedProxyHeaders r \<longleftrightarrow>
     TrimSpace (hq_header r ''X-Forwarded-For'') \<noteq> [] \<or>
     TrimSpace (hq_header r ''X-Real-IP'') \<noteq> [] \<or>
     TrimSpace (hq_header r ''Forwarded'') \<noteq> []"

text \<open>\<open>net.ParseIP\<close> with its value, as eight groups of 16 bits, and \<open>IP.IsLoopback\<close>.\<close>

definition hexDigit :: "char \<Rightarrow> nat" where
  "hexDigit c = the (map_of (zip ''0123456789abcdef'' [0..<16] @ zip ''ABCDEF'' [10..<16]) c)"

definition ipv4Groups :: "string \<Rightarrow> nat list" where
  "ipv4Groups s =
     (case map (\<lambda>w. the (parse_digits 0 w)) (split_on (CHR ''.'') s) of
        [a, b, c, d] \<Rightarrow> [256 * a + b, 256 * c + d]
      | _ \<Rightarrow> [])"

definition ipv6Half :: "string \<Rightarrow> nat list" where
  "ipv6Half s =
     (if s = [] then []
      else concat (map (\<lambda>w. if CHR ''.'' \<in> set w then ipv4Groups w
                            else [fold (\<lambda>c acc. 16 * acc + hexDigit c) w 0]) (split_on (CHR '':'') s)))"

fun cutEllipsis :: "string \<Rightarrow> (string \<times> string) option" where
  "cutEllipsis (c # d # s) =
     (if c = CHR '':'' \<and> d = CHR '':'' then Some ([], s)
      else map_option (\<lambda>(l, r). (c # l, r)) (cutEllipsis (d # s)))"
| "cutEllipsis _ = None"

definition ipGroups :: "string \<Rightarrow> nat list option" where
  "ipGroups s =
     (if \<not> ParseIP s then None
      else if CHR '':'' \<notin> set s then Some ([0, 0, 0, 0, 0, 0xFFFF] @ ipv4Groups s)
      else case cutEllipsis s of
          None \<Rightarrow> Some (ipv6Half s)
        | Some (l, r) \<Rightarrow>
            let left = ipv6Half l; right = ipv6Half r
            in Some (left @ replicate (8 - length left - length right) 0 @ right))"

definition IsLoopback :: "nat list \<Rightarrow> bool" where
  "IsLoopback g \<longleftrightarrow>
     (if take 6 g = [0, 0, 0, 0, 0, 0xFFFF] then g ! 6 div 256 = 127 else g = [0, 0, 0, 0, 0, 0, 0, 1])"

definition IsLoopbackRequest :: "httpRequest \<Rightarrow> bool" where
  "IsLoopbackRequest r =
     (case ipGroups (DirectRequestRemoteIP r) of None \<Rightarrow> False | Some ip \<Rightarrow> IsLoopback ip)"

definition sensitiveKey :: "string \<Rightarrow> bool" where
  "sensitiveKey key \<longleftrightarrow> ToLower (TrimSpace key) \<in> {''token'', ''access_token'', ''refresh_token''}"

definition RedactSensitiveQuery :: "(string, string list) gomap \<Rightarrow> (string, string list) gomap" where
  "RedactSensitiveQuery values =
     map (\<lambda>(key, value). (key, if sensitiveKey key then map (\<lambda>_. ''<redacted>'') value else value)) values"

section \<open>Responses\<close>

definition CodeSuccess :: int where "CodeSuccess = 0"
definition CodeInvalidRequest :: int where "CodeInvalidRequest = 1001"
definition CodeRateLimited :: int where "CodeRateLimited = 1002"
definition CodeUsernameTaken :: int where "CodeUsernameTaken = 1003"
definition CodePasswordTooShort :: int where "CodePasswordTooShort = 1004"
definition CodeInvalidAccessCode :: int where "CodeInvalidAccessCode = 1005"
definition CodeInviteCodeNotFound :: int where "CodeInviteCodeNotFound = 1006"
definition CodeInviteCodeExpired :: int where "CodeInviteCodeExpired = 1007"
definition CodeInviteCodeDisabled :: int where "CodeInviteCodeDisabled = 1008"
definition CodeInviteCodeConsumed :: int where "CodeInviteCodeConsumed = 1009"
definition CodeInvalidUsername :: int where "CodeInvalidUsername = 1010"
definition CodeInvalidCredentials :: int where "CodeInvalidCredentials = 1011"
definition CodeInvalidSession :: int where "CodeInvalidSession = 1012"
definition CodeAgentTokenNotFound :: int where "CodeAgentTokenNotFound = 1013"
definition CodeUserNotFound :: int where "CodeUserNotFound = 1014"
definition CodeSessionNotFound :: int where "CodeSessionNotFound = 1015"
definition CodeUnauthorized :: int where "CodeUnauthorized = 1016"
definition CodeForbidden :: int where "CodeForbidden = 1017"
definition CodeNotFound :: int where "CodeNotFound = 1018"
definition CodeMethodNotAllowed :: int where "CodeMethodNotAllowed = 1019"
definition CodeInvalidDeviceFingerprint :: int where "CodeInvalidDeviceFingerprint = 1020"
definition CodeServiceUnavailable :: int where "CodeServiceUnavailable = 2001"
definition CodeInternalError :: int where "CodeInternalError = 2002"

record reasonInfo =
  ri_Code :: int
  ri_Message :: string

definition reasonMap :: "(string, reasonInfo) gomap" where
  "reasonMap =
     [(''invalid_request'', \<lparr>ri_Code = CodeInvalidRequest, ri_Message = ''The request is invalid.''\<rparr>),
      (''rate_limited'', \<lparr>ri_Code = CodeRateLimited, ri_Message = ''Too many requests. Please try again later.''\<rparr>),
      (''username_taken'', \<lparr>ri_Code = CodeUsernameTaken, ri_Message = ''The username is already taken.''\<rparr>),
      (''password_too_short'', \<lparr>ri_Code = CodePasswordTooShort, ri_Message = ''The password must be at least 6 characters.''\<rparr>),
      (''invalid_access_code'', \<lparr>ri_Code = CodeInvalidAccessCode, ri_Message = ''Invalid access code.''\<rparr>),
      (''invite_code_not_found'', \<lparr>ri_Code = CodeInviteCodeNotFound, ri_Message = ''This access code is invalid.''\<rparr>),
      (''invite_code_expired'', \<lparr>ri_Code = CodeInviteCodeExpired, ri_Message = ''This access code has expired.''\<rparr>),
      (''invite_code_disabled'', \<lparr>ri_Code = CodeInviteCodeDisabled, ri_Message = ''This access code has been disabled.''\<rparr>),
      (''invite_code_consumed'', \<lparr>ri_Code = CodeInviteCodeConsumed, ri_Message = ''This access code has already been used.''\<rparr>),
      (''invalid_username'', \<lparr>ri_Code = CodeInvalidUsername, ri_Message = ''The username is invalid.''\<rparr>),
      (''invalid_credentials'', \<lparr>ri_Code = CodeInvalidCredentials, ri_Message = ''The username or password is invalid.''\<rparr>),
      (''invalid_session'', \<lparr>ri_Code = CodeInvalidSession, ri_Message = ''The session is invalid.''\<rparr>),
      (''invalid_client_fingerprint'', \<lparr>ri_Code = CodeInvalidDeviceFingerprint, ri_Message = ''The client fingerprint is invalid.''\<rparr>),
      (''agent_token_not_found'', \<lparr>ri_Code = CodeAgentTokenNotFound, ri_Message = ''This agent token was not found.''\<rparr>),
      (''user_not_found'', \<lparr>ri_Code = CodeUserNotFound, ri_Message = ''The user was not found.''\<rparr>),
      (''session_not_found'', \<lparr>ri_Code = CodeSessionNotFound, ri_Message = ''The session was not found or is offline.''\<rparr>),
      (''unauthorized'', \<lparr>ri_Code = CodeUnauthorized, ri_Message = ''The request is unauthorized.''\<rparr>),
      (''forbidden'', \<lparr>ri_Code = CodeForbidden, ri_Message = ''The request is forbidden.''\<rparr>),
      (''client_fingerprint_mismatch'', \<lparr>ri_Code = CodeForbidden, ri_Message = ''The request is forbidden.''\<rparr>),
      (''pairing_account_mismatch'', \<lparr>ri_Code = CodeForbidden, ri_Message = ''The request is forbidden.''\<rparr>),
      (''not_found'', \<lparr>ri_Code = CodeNotFound, ri_Message = ''The requested endpoint was not found.''\<rparr>),
      (''pairing_correlation_not_found'', \<lparr>ri_Code = CodeNotFound, ri_Message = ''The requested resource was not found.''\<rparr>),
      (''method_not_allowed'', \<lparr>ri_Code = CodeMethodNotAllowed, ri_Message = ''The HTTP method is not allowed for this endpoint.''\<rparr>),
      (''service_unavailable'', \<lparr>ri_Code = CodeServiceUnavailable, ri_Message = ''The service is temporarily unavailable.''\<rparr>),
      (''internal_error'', \<lparr>ri_Code = CodeInternalError, ri_Message = ''An unexpected internal error occurred.''\<rparr>)]"

lemmas code_defs =
  CodeSuccess_def CodeInvalidRequest_def CodeRateLimited_def CodeUsernameTaken_def CodePasswordTooShort_def CodeInvalidAccessCode_def CodeInviteCodeNotFound_def CodeInviteCodeExpired_def CodeInviteCodeDisabled_def CodeInviteCodeConsumed_def CodeInvalidUsername_def CodeInvalidCredentials_def CodeInvalidSession_def CodeAgentTokenNotFound_def CodeUserNotFound_def CodeSessionNotFound_def CodeUnauthorized_def CodeForbidden_def CodeNotFound_def CodeMethodNotAllowed_def CodeInvalidDeviceFingerprint_def CodeServiceUnavailable_def CodeInternalError_def

definition codeAndMessageFromReason :: "string \<Rightarrow> int \<times> string" where
  "codeAndMessageFromReason reason =
     (case gm_get reasonMap reason of
        Some detail \<Rightarrow> (ri_Code detail, ri_Message detail)
      | None \<Rightarrow> (CodeInternalError, ri_Message (the (gm_get reasonMap ''internal_error''))))"

text \<open>What is written: the status, the envelope, and the header \<open>Retry-After\<close> where one is set.\<close>

record 'b httpResponse =
  hp_status :: int
  hp_Code :: int
  hp_Message :: string
  hp_Body :: "'b option"
  hp_retryAfter :: "string option"

definition WriteJSON :: "int \<Rightarrow> 'b option \<Rightarrow> 'b httpResponse" where
  "WriteJSON status payload = \<lparr>hp_status = status, hp_Code = CodeSuccess, hp_Message = ''success'',
     hp_Body = payload, hp_retryAfter = None\<rparr>"

definition WriteJSONError :: "int \<Rightarrow> string \<Rightarrow> 'b httpResponse" where
  "WriteJSONError status reason =
     (let (code, message) = codeAndMessageFromReason reason
      in \<lparr>hp_status = status, hp_Code = code, hp_Message = message, hp_Body = None, hp_retryAfter = None\<rparr>)"

definition formatRetryAfter :: "duration \<Rightarrow> string" where
  "formatRetryAfter delay =
     (if delay \<le> 0 then ''0''
      else let seconds = (2 * delay + second) div (2 * second)
           in if seconds \<le> 0 then ''1'' else itoa seconds)"

section \<open>The throttle\<close>

record throttleWindow =
  tw_start :: gotime
  tw_failures :: int

record RegisterThrottle =
  th_limit :: int
  th_window :: duration
  th_clientsByIP :: "(string, throttleWindow) gomap"

definition NewRegisterThrottle :: "int \<Rightarrow> duration \<Rightarrow> RegisterThrottle" where
  "NewRegisterThrottle limit window =
     \<lparr>th_limit = (if limit \<le> 0 then 5 else limit), th_window = (if window \<le> 0 then 10 * minute else window),
      th_clientsByIP = []\<rparr>"

definition Allow :: "gotime \<Rightarrow> string \<Rightarrow> RegisterThrottle \<Rightarrow> (bool \<times> duration) \<times> RegisterThrottle" where
  "Allow now ip t =
     (if ip = [] then ((True, 0), t)
      else case gm_get (th_clientsByIP t) ip of
          None \<Rightarrow> ((True, 0), t)
        | Some window \<Rightarrow>
            if th_window t \<le> now - tw_start window
            then ((True, 0), t\<lparr>th_clientsByIP := gm_del ip (th_clientsByIP t)\<rparr>)
            else if tw_failures window < th_limit t then ((True, 0), t)
            else let retryAfter = tw_start window + th_window t - now
                 in ((False, if retryAfter < 0 then 0 else retryAfter), t))"

definition currentWindowLocked :: "string \<Rightarrow> gotime \<Rightarrow> RegisterThrottle \<Rightarrow> throttleWindow \<times> RegisterThrottle" where
  "currentWindowLocked ip now t =
     (let fresh = \<lparr>tw_start = now, tw_failures = 0\<rparr>
      in case gm_get (th_clientsByIP t) ip of
          None \<Rightarrow> (fresh, t\<lparr>th_clientsByIP := gm_put ip fresh (th_clientsByIP t)\<rparr>)
        | Some window \<Rightarrow>
            if th_window t \<le> now - tw_start window
            then (fresh, t\<lparr>th_clientsByIP := gm_put ip fresh (th_clientsByIP t)\<rparr>)
            else (window, t))"

definition RecordFailure :: "gotime \<Rightarrow> string \<Rightarrow> RegisterThrottle \<Rightarrow> RegisterThrottle" where
  "RecordFailure now ip t =
     (if ip = [] then t
      else let (window, t1) = currentWindowLocked ip now t
           in t1\<lparr>th_clientsByIP := gm_put ip (window\<lparr>tw_failures := tw_failures window + 1\<rparr>) (th_clientsByIP t1)\<rparr>)"

definition Reset :: "string \<Rightarrow> RegisterThrottle \<Rightarrow> RegisterThrottle" where
  "Reset ip t = (if ip = [] then t else t\<lparr>th_clientsByIP := gm_del ip (th_clientsByIP t)\<rparr>)"

end
