(* ===== verification/Auth_Store.thy ===== *)
theory Auth_Store
  imports Auth_Credentials
begin

text \<open>
  The relay's store (\<open>internal/relay/store/postgres\<close>) over the tables of \<open>schema/\<close>: users, invite codes, app
  sessions, agent tokens and audit events, each a map from its primary key to the row, and the identity
  sequences. Every method of \<open>auth.Repository\<close> and \<open>operator.Repository\<close> is a function on the database.

  A method is one step. Those that run several statements do so in a transaction that first locks the row it
  decides on (\<open>for update\<close>, or an \<open>update\<close> of it), so that a concurrent transaction on that row waits and then
  reads the committed row. Unique and primary keys, foreign keys with their \<open>on delete\<close> actions and the check
  on the tier are those of the schema. A transaction that is rolled back restores the tables; identity
  sequences are never set back.

  A \<open>pgEnv\<close> is what a method meets outside: \<open>pg_fail i\<close> says whether its \<open>i\<close>-th database call fails, \<open>pg_ts\<close> is
  what \<open>timestamptz\<close> keeps of a time, \<open>pg_now\<close> is the clock of the store. A failed commit is a rollback. The
  metadata of audit events is always one of the JSON objects written here, so \<open>json.Valid\<close> holds for it.
\<close>

section \<open>Rows\<close>

record authUser =
  u_ID :: int
  u_Username :: string
  u_UsernameNorm :: string
  u_PasswordHash :: string
  u_SubscriptionTier :: string
  u_CreatedAt :: gotime
  u_UpdatedAt :: gotime

record AppSession =
  as_ID :: string
  as_UserID :: int
  as_AccessTokenDigest :: string
  as_AccessExpiresAt :: gotime
  as_RefreshTokenDigest :: string
  as_RefreshExpiresAt :: gotime
  as_DeviceFingerprint :: string
  as_RevokedAt :: "gotime option"
  as_RevokeReason :: string
  as_CreatedAt :: gotime
  as_UpdatedAt :: gotime

record AgentTokenRecord =
  at_ID :: string
  at_UserID :: int
  at_Name :: string
  at_TokenDigest :: string
  at_CreatedAt :: gotime
  at_UpdatedAt :: gotime
  at_LastUsedAt :: "gotime option"
  at_RevokedAt :: "gotime option"
  at_RevokeReason :: string

record InviteCodeRecord =
  ic_ID :: int
  ic_Code :: string
  ic_CreatedBy :: string
  ic_CreatedAt :: gotime
  ic_ExpiresAt :: gotime
  ic_DisabledAt :: "gotime option"
  ic_DisabledBy :: string
  ic_ConsumedAt :: "gotime option"
  ic_ConsumedByUserID :: "int option"
  ic_ConsumedByUsername :: string

record AuditEvent =
  ae_EventType :: string
  ae_Actor :: string
  ae_TargetUserID :: "int option"
  ae_TargetUsername :: string
  ae_TargetAgentTokenID :: string
  ae_MetadataJSON :: string
  ae_CreatedAt :: gotime

record RegisterUserParams =
  ru_UsernameNorm :: string
  ru_InviteCode :: string
  ru_PasswordHash :: string
  ru_Now :: gotime

record CreateAppSessionParams =
  cs_ID :: string
  cs_UserID :: int
  cs_AccessTokenDigest :: string
  cs_AccessExpiresAt :: gotime
  cs_RefreshTokenDigest :: string
  cs_RefreshExpiresAt :: gotime
  cs_DeviceFingerprint :: string
  cs_Now :: gotime

record RotateAppSessionParams =
  rs_RefreshTokenDigest :: string
  rs_DeviceFingerprint :: string
  rs_NewAccessTokenDigest :: string
  rs_NewAccessExpiresAt :: gotime
  rs_NewRefreshTokenDigest :: string
  rs_NewRefreshExpiresAt :: gotime
  rs_AbsoluteTTL :: duration
  rs_Now :: gotime

record CreateInviteCodeParams =
  ci_Code :: string
  ci_CreatedBy :: string
  ci_ExpiresAt :: gotime
  ci_Now :: gotime

record CreateAgentTokenParams =
  ca_ID :: string
  ca_UserID :: int
  ca_Name :: string
  ca_TokenDigest :: string
  ca_Now :: gotime

record DeleteUserResult =
  du_UserID :: int
  du_UsernameNorm :: string

record authDB =
  db_users :: "(int, authUser) gomap"
  db_invites :: "(int, InviteCodeRecord) gomap"
  db_sessions :: "(string, AppSession) gomap"
  db_tokens :: "(string, AgentTokenRecord) gomap"
  db_audit :: "AuditEvent list"
  db_nextUser :: int
  db_nextInvite :: int

definition emptyDB :: authDB where
  "emptyDB = \<lparr>db_users = [], db_invites = [], db_sessions = [], db_tokens = [], db_audit = [],
     db_nextUser = 1, db_nextInvite = 1\<rparr>"

record pgEnv =
  pg_fail :: "nat \<Rightarrow> bool"
  pg_ts :: "gotime \<Rightarrow> gotime"
  pg_now :: gotime

type_synonym 'a dbres = "(authError + 'a) \<times> authDB"

section \<open>Statements\<close>

definition rollback :: "authDB \<Rightarrow> authDB \<Rightarrow> authDB" where
  "rollback db tx = db\<lparr>db_nextUser := db_nextUser tx, db_nextInvite := db_nextInvite tx\<rparr>"

text \<open>\<open>select ... where p\<close> read by \<open>QueryRow\<close>.\<close>

definition queryRow :: "('v \<Rightarrow> bool) \<Rightarrow> ('k, 'v) gomap \<Rightarrow> 'v option" where
  "queryRow p t = find p (map snd t)"

text \<open>\<open>update ... where p\<close>.\<close>

definition updateRows :: "('v \<Rightarrow> bool) \<Rightarrow> ('v \<Rightarrow> 'v) \<Rightarrow> ('k, 'v) gomap \<Rightarrow> ('k, 'v) gomap" where
  "updateRows p f t = map (\<lambda>(k, v). (k, if p v then f v else v)) t"

text \<open>An \<open>insert\<close> or \<open>update\<close> fails with a unique violation when another row has the key.\<close>

definition keyTaken :: "('v \<Rightarrow> bool) \<Rightarrow> ('k, 'v) gomap \<Rightarrow> bool" where
  "keyTaken p t \<longleftrightarrow> queryRow p t \<noteq> None"

definition insertAuditEvent :: "pgEnv \<Rightarrow> AuditEvent \<Rightarrow> authDB \<Rightarrow> authDB" where
  "insertAuditEvent env event db =
     db\<lparr>db_audit := db_audit db @
       [event\<lparr>ae_MetadataJSON := (if ae_MetadataJSON event = [] then ''{}'' else ae_MetadataJSON event),
         ae_CreatedAt := pg_ts env (ae_CreatedAt event)\<rparr>]\<rparr>"

definition lockInviteCode :: "bool \<Rightarrow> string \<Rightarrow> gotime \<Rightarrow> authDB \<Rightarrow> authError + int" where
  "lockInviteCode fails code now db =
     (if fails then Inl ErrDatabase
      else case queryRow (\<lambda>i. ic_Code i = code) (db_invites db) of
          None \<Rightarrow> Inl ErrInviteCodeNotFound
        | Some status \<Rightarrow>
            if ic_DisabledAt status \<noteq> None then Inl ErrInviteCodeDisabled
            else if ic_ConsumedAt status \<noteq> None then Inl ErrInviteCodeConsumed
            else if \<not> now < ic_ExpiresAt status then Inl ErrInviteCodeExpired
            else Inr (ic_ID status))"

definition queryUser :: "bool \<Rightarrow> (authUser \<Rightarrow> bool) \<Rightarrow> authDB \<Rightarrow> authError + authUser" where
  "queryUser fails p db =
     (if fails then Inl ErrDatabase
      else case queryRow p (db_users db) of None \<Rightarrow> Inl ErrUserNotFound | Some u \<Rightarrow> Inr u)"

definition queryAppSession :: "bool \<Rightarrow> (AppSession \<Rightarrow> bool) \<Rightarrow> authDB \<Rightarrow> authError + AppSession" where
  "queryAppSession fails p db =
     (if fails then Inl ErrDatabase
      else case queryRow p (db_sessions db) of None \<Rightarrow> Inl ErrAppSessionNotFound | Some s \<Rightarrow> Inr s)"

definition queryAgentToken :: "bool \<Rightarrow> (AgentTokenRecord \<Rightarrow> bool) \<Rightarrow> authDB \<Rightarrow> authError + AgentTokenRecord" where
  "queryAgentToken fails p db =
     (if fails then Inl ErrDatabase
      else case queryRow p (db_tokens db) of None \<Rightarrow> Inl ErrAgentTokenNotFound | Some t \<Rightarrow> Inr t)"

section \<open>Session times\<close>

definition isAbsoluteSessionExpired :: "AppSession \<Rightarrow> gotime \<Rightarrow> duration \<Rightarrow> bool" where
  "isAbsoluteSessionExpired session now absoluteTTL =
     (if absoluteTTL \<le> 0 then False else \<not> now < as_CreatedAt session + absoluteTTL)"

definition validateAccessSession :: "AppSession \<Rightarrow> gotime \<Rightarrow> duration \<Rightarrow> authError + AppSession" where
  "validateAccessSession session now absoluteTTL =
     (if as_RevokedAt session \<noteq> None then Inl ErrAppSessionRevoked
      else if isAbsoluteSessionExpired session now absoluteTTL then Inl ErrAppSessionExpired
      else if \<not> now < as_AccessExpiresAt session then Inl ErrAppSessionExpired
      else Inr session)"

definition clampSessionExpiry :: "AppSession \<Rightarrow> gotime \<Rightarrow> duration \<Rightarrow> gotime" where
  "clampSessionExpiry session requested absoluteTTL =
     (if absoluteTTL \<le> 0 then requested
      else let absoluteExpiresAt = as_CreatedAt session + absoluteTTL
           in if absoluteExpiresAt < requested then absoluteExpiresAt else requested)"

definition maxTime :: "gotime \<Rightarrow> gotime \<Rightarrow> gotime" where
  "maxTime a b = (if a < b then b else a)"

section \<open>Users\<close>

definition RegisterUser :: "pgEnv \<Rightarrow> RegisterUserParams \<Rightarrow> authDB \<Rightarrow> authUser dbres" where
  "RegisterUser env params db =
     (if pg_fail env 0 then (Inl ErrDatabase, db)
      else case lockInviteCode (pg_fail env 1) (ru_InviteCode params) (ru_Now params) db of
          Inl e \<Rightarrow> (Inl e, db)
        | Inr inviteID \<Rightarrow>
            if pg_fail env 2 then (Inl ErrDatabase, db)
            else
              let now = pg_ts env (ru_Now params);
                  user = \<lparr>u_ID = db_nextUser db, u_Username = ru_UsernameNorm params,
                    u_UsernameNorm = ru_UsernameNorm params, u_PasswordHash = ru_PasswordHash params,
                    u_SubscriptionTier = SubscriptionTierFree, u_CreatedAt = now, u_UpdatedAt = now\<rparr>;
                  tx = db\<lparr>db_nextUser := db_nextUser db + 1\<rparr>
              in if keyTaken (\<lambda>u. u_UsernameNorm u = ru_UsernameNorm params) (db_users db)
                 then (Inl ErrUsernameTaken, rollback db tx)
                 else
                   let tx1 = tx\<lparr>db_users := gm_put (u_ID user) user (db_users tx)\<rparr>;
                       tx2 = tx1\<lparr>db_invites := updateRows (\<lambda>i. ic_ID i = inviteID)
                         (\<lambda>i. i\<lparr>ic_ConsumedAt := Some now, ic_ConsumedByUserID := Some (u_ID user),
                                 ic_ConsumedByUsername := u_UsernameNorm user\<rparr>) (db_invites tx1)\<rparr>
                   in if pg_fail env 3 \<or> pg_fail env 4 then (Inl ErrDatabase, rollback db tx2)
                      else (Inr user, tx2))"

definition FindUserByUsername :: "pgEnv \<Rightarrow> string \<Rightarrow> authDB \<Rightarrow> authError + authUser" where
  "FindUserByUsername env usernameNorm db = queryUser (pg_fail env 0) (\<lambda>u. u_UsernameNorm u = usernameNorm) db"

definition FindUserByID :: "pgEnv \<Rightarrow> int \<Rightarrow> authDB \<Rightarrow> authError + authUser" where
  "FindUserByID env userID db = queryUser (pg_fail env 0) (\<lambda>u. u_ID u = userID) db"

definition revokeSession :: "gotime \<Rightarrow> string \<Rightarrow> AppSession \<Rightarrow> AppSession" where
  "revokeSession now reason s = s\<lparr>as_RevokedAt := Some now, as_RevokeReason := reason, as_UpdatedAt := now\<rparr>"

definition ChangeUserPassword :: "pgEnv \<Rightarrow> int \<Rightarrow> string \<Rightarrow> gotime \<Rightarrow> authDB \<Rightarrow> unit dbres" where
  "ChangeUserPassword env userID passwordHash now0 db =
     (let now = pg_ts env now0
      in if pg_fail env 0 \<or> pg_fail env 1 \<or> pg_fail env 2 then (Inl ErrDatabase, db)
         else if queryRow (\<lambda>u. u_ID u = userID) (db_users db) = None then (Inl ErrUserNotFound, db)
         else if pg_fail env 3 \<or> pg_fail env 4 then (Inl ErrDatabase, db)
         else (Inr (), db\<lparr>
           db_users := updateRows (\<lambda>u. u_ID u = userID)
             (\<lambda>u. u\<lparr>u_PasswordHash := passwordHash, u_UpdatedAt := now\<rparr>) (db_users db),
           db_sessions := updateRows (\<lambda>s. as_UserID s = userID \<and> as_RevokedAt s = None)
             (revokeSession now ''password_changed'') (db_sessions db)\<rparr>))"

section \<open>App sessions\<close>

definition CreateAppSession :: "pgEnv \<Rightarrow> CreateAppSessionParams \<Rightarrow> authDB \<Rightarrow> AppSession dbres" where
  "CreateAppSession env params db =
     (let now = pg_ts env (cs_Now params);
          session = \<lparr>as_ID = cs_ID params, as_UserID = cs_UserID params,
            as_AccessTokenDigest = cs_AccessTokenDigest params,
            as_AccessExpiresAt = pg_ts env (cs_AccessExpiresAt params),
            as_RefreshTokenDigest = cs_RefreshTokenDigest params,
            as_RefreshExpiresAt = pg_ts env (cs_RefreshExpiresAt params),
            as_DeviceFingerprint = cs_DeviceFingerprint params, as_RevokedAt = None, as_RevokeReason = [],
            as_CreatedAt = now, as_UpdatedAt = now\<rparr>
      in if pg_fail env 0 \<or>
            keyTaken (\<lambda>s. as_ID s = cs_ID params) (db_sessions db) \<or>
            keyTaken (\<lambda>s. as_AccessTokenDigest s = cs_AccessTokenDigest params) (db_sessions db) \<or>
            keyTaken (\<lambda>s. as_RefreshTokenDigest s = cs_RefreshTokenDigest params) (db_sessions db) \<or>
            queryRow (\<lambda>u. u_ID u = cs_UserID params) (db_users db) = None
         then (Inl ErrDatabase, db)
         else (Inr session, db\<lparr>db_sessions := gm_put (as_ID session) session (db_sessions db)\<rparr>))"

definition FindAppSessionByAccessToken ::
    "pgEnv \<Rightarrow> string \<Rightarrow> gotime \<Rightarrow> duration \<Rightarrow> authDB \<Rightarrow> authError + AppSession" where
  "FindAppSessionByAccessToken env accessTokenDigest now absoluteTTL db =
     (case queryAppSession (pg_fail env 0) (\<lambda>s. as_AccessTokenDigest s = accessTokenDigest) db of
        Inl e \<Rightarrow> Inl e
      | Inr session \<Rightarrow> validateAccessSession session now absoluteTTL)"

definition rotatedSession :: "pgEnv \<Rightarrow> RotateAppSessionParams \<Rightarrow> AppSession \<Rightarrow> AppSession" where
  "rotatedSession env params session =
     (let effectiveNow = maxTime (rs_Now params) (pg_now env);
          accessTTL = rs_NewAccessExpiresAt params - rs_Now params;
          refreshTTL = rs_NewRefreshExpiresAt params - rs_Now params
      in session\<lparr>as_AccessTokenDigest := rs_NewAccessTokenDigest params,
           as_AccessExpiresAt :=
             pg_ts env (clampSessionExpiry session (effectiveNow + accessTTL) (rs_AbsoluteTTL params)),
           as_RefreshTokenDigest := rs_NewRefreshTokenDigest params,
           as_RefreshExpiresAt :=
             pg_ts env (clampSessionExpiry session (effectiveNow + refreshTTL) (rs_AbsoluteTTL params)),
           as_UpdatedAt := pg_ts env effectiveNow\<rparr>)"

definition RotateAppSessionByRefreshToken ::
    "pgEnv \<Rightarrow> RotateAppSessionParams \<Rightarrow> authDB \<Rightarrow> AppSession dbres" where
  "RotateAppSessionByRefreshToken env params db =
     (if pg_fail env 0 then (Inl ErrDatabase, db)
      else case queryAppSession (pg_fail env 1) (\<lambda>s. as_RefreshTokenDigest s = rs_RefreshTokenDigest params) db of
          Inl e \<Rightarrow> (Inl e, db)
        | Inr session \<Rightarrow>
            (let effectiveNow = maxTime (rs_Now params) (pg_now env);
                 rotated = rotatedSession env params session
             in if as_RevokedAt session \<noteq> None then (Inl ErrAppSessionRevoked, db)
                else if isAbsoluteSessionExpired session effectiveNow (rs_AbsoluteTTL params)
                then (Inl ErrAppSessionExpired, db)
                else if \<not> effectiveNow < as_RefreshExpiresAt session then (Inl ErrAppSessionExpired, db)
                else if as_DeviceFingerprint session \<noteq> [] \<and>
                        as_DeviceFingerprint session \<noteq> rs_DeviceFingerprint params
                then (Inl ErrAppSessionDeviceMismatch, db)
                else if pg_fail env 2 \<or>
                        keyTaken (\<lambda>s. as_ID s \<noteq> as_ID session \<and>
                          as_AccessTokenDigest s = rs_NewAccessTokenDigest params) (db_sessions db) \<or>
                        keyTaken (\<lambda>s. as_ID s \<noteq> as_ID session \<and>
                          as_RefreshTokenDigest s = rs_NewRefreshTokenDigest params) (db_sessions db) \<or>
                        pg_fail env 3
                then (Inl ErrDatabase, db)
                else (Inr rotated, db\<lparr>db_sessions :=
                  updateRows (\<lambda>s. as_ID s = as_ID session) (\<lambda>s. rotated) (db_sessions db)\<rparr>)))"

definition RevokeAppSession :: "pgEnv \<Rightarrow> string \<Rightarrow> gotime \<Rightarrow> string \<Rightarrow> authDB \<Rightarrow> unit dbres" where
  "RevokeAppSession env sessionID now reason db =
     (let live = (\<lambda>s. as_ID s = sessionID \<and> as_RevokedAt s = None);
          db' = db\<lparr>db_sessions := updateRows live (revokeSession (pg_ts env now) reason) (db_sessions db)\<rparr>
      in if pg_fail env 0 then (Inl ErrDatabase, db)
         else if pg_fail env 1 then (Inl ErrDatabase, db')
         else if queryRow live (db_sessions db) = None then (Inl ErrAppSessionNotFound, db')
         else (Inr (), db'))"

section \<open>Agent tokens\<close>

definition CreateAgentToken_db :: "pgEnv \<Rightarrow> CreateAgentTokenParams \<Rightarrow> authDB \<Rightarrow> AgentTokenRecord dbres" where
  "CreateAgentToken_db env params db =
     (let now = pg_ts env (ca_Now params);
          rec = \<lparr>at_ID = ca_ID params, at_UserID = ca_UserID params, at_Name = ca_Name params,
            at_TokenDigest = ca_TokenDigest params, at_CreatedAt = now, at_UpdatedAt = now,
            at_LastUsedAt = None, at_RevokedAt = None, at_RevokeReason = []\<rparr>
      in if pg_fail env 0 \<or>
            keyTaken (\<lambda>t. at_ID t = ca_ID params) (db_tokens db) \<or>
            keyTaken (\<lambda>t. at_TokenDigest t = ca_TokenDigest params) (db_tokens db) \<or>
            queryRow (\<lambda>u. u_ID u = ca_UserID params) (db_users db) = None
         then (Inl ErrDatabase, db)
         else (Inr rec, db\<lparr>db_tokens := gm_put (at_ID rec) rec (db_tokens db)\<rparr>))"

definition ListAgentTokens_db :: "pgEnv \<Rightarrow> int \<Rightarrow> authDB \<Rightarrow> authError + AgentTokenRecord list" where
  "ListAgentTokens_db env userID db =
     (if pg_fail env 0 then Inl ErrDatabase
      else Inr (sort_key (\<lambda>t. (- at_CreatedAt t, at_ID t)) (gm_vals (\<lambda>t. at_UserID t = userID) (db_tokens db))))"

definition AuthenticateAgentToken :: "pgEnv \<Rightarrow> string \<Rightarrow> gotime \<Rightarrow> authDB \<Rightarrow> AgentTokenRecord dbres" where
  "AuthenticateAgentToken env tokenDigest now0 db =
     (let now = pg_ts env now0
      in if pg_fail env 0 then (Inl ErrDatabase, db)
         else case queryAgentToken (pg_fail env 1) (\<lambda>t. at_TokenDigest t = tokenDigest) db of
             Inl e \<Rightarrow> (Inl e, db)
           | Inr rec \<Rightarrow>
               let used = rec\<lparr>at_LastUsedAt := Some now, at_UpdatedAt := now\<rparr>
               in if at_RevokedAt rec \<noteq> None then (Inl ErrAgentTokenRevoked, db)
                  else if pg_fail env 2 \<or> pg_fail env 3 then (Inl ErrDatabase, db)
                  else (Inr used, db\<lparr>db_tokens := updateRows (\<lambda>t. at_ID t = at_ID rec) (\<lambda>t. used) (db_tokens db)\<rparr>))"

definition RevokeAgentToken_db :: "pgEnv \<Rightarrow> int \<Rightarrow> string \<Rightarrow> string \<Rightarrow> gotime \<Rightarrow> authDB \<Rightarrow> unit dbres" where
  "RevokeAgentToken_db env userID tokenID actor now0 db =
     (let now = pg_ts env now0;
          live = (\<lambda>t. at_ID t = tokenID \<and> at_UserID t = userID \<and> at_RevokedAt t = None);
          tx = db\<lparr>db_tokens := updateRows live
            (\<lambda>t. t\<lparr>at_RevokedAt := Some now, at_RevokeReason := ''revoked_by_user'', at_UpdatedAt := now\<rparr>)
            (db_tokens db)\<rparr>
      in if pg_fail env 0 \<or> pg_fail env 1 \<or> pg_fail env 2 then (Inl ErrDatabase, db)
         else if queryRow live (db_tokens db) = None then (Inl ErrAgentTokenNotFound, db)
         else if pg_fail env 3 \<or> pg_fail env 4 then (Inl ErrDatabase, db)
         else (Inr (), insertAuditEvent env
           \<lparr>ae_EventType = ''agent_token_revoked'', ae_Actor = actor, ae_TargetUserID = Some userID,
            ae_TargetUsername = [], ae_TargetAgentTokenID = tokenID,
            ae_MetadataJSON = ''{\"reason\":\"revoked_by_user\"}'', ae_CreatedAt = now0\<rparr> tx))"

section \<open>The operator's methods\<close>

definition insertInviteCode :: "pgEnv \<Rightarrow> bool \<Rightarrow> CreateInviteCodeParams \<Rightarrow> authDB \<Rightarrow> InviteCodeRecord dbres" where
  "insertInviteCode env fails params db =
     (let rec = \<lparr>ic_ID = db_nextInvite db, ic_Code = ci_Code params, ic_CreatedBy = ci_CreatedBy params,
            ic_CreatedAt = pg_ts env (ci_Now params), ic_ExpiresAt = pg_ts env (ci_ExpiresAt params),
            ic_DisabledAt = None, ic_DisabledBy = [], ic_ConsumedAt = None, ic_ConsumedByUserID = None,
            ic_ConsumedByUsername = []\<rparr>;
          db' = db\<lparr>db_nextInvite := db_nextInvite db + 1\<rparr>
      in if fails then (Inl ErrDatabase, db)
         else if keyTaken (\<lambda>i. ic_Code i = ci_Code params) (db_invites db) then (Inl ErrDatabase, db')
         else (Inr rec, db'\<lparr>db_invites := gm_put (ic_ID rec) rec (db_invites db')\<rparr>))"

definition CreateInviteCode :: "pgEnv \<Rightarrow> CreateInviteCodeParams \<Rightarrow> authDB \<Rightarrow> InviteCodeRecord dbres" where
  "CreateInviteCode env params db = insertInviteCode env (pg_fail env 0) params db"

text \<open>The loop of \<open>CreateInviteCodes\<close>: \<open>n\<close> is the number of its next database call.\<close>

fun insertInviteCodes :: "pgEnv \<Rightarrow> nat \<Rightarrow> CreateInviteCodeParams list \<Rightarrow> authDB \<Rightarrow> unit dbres" where
  "insertInviteCodes env n [] tx = (Inr (), tx)"
| "insertInviteCodes env n (param # params) tx =
     (case insertInviteCode env (pg_fail env n) param tx of
        (Inl e, tx') \<Rightarrow> (Inl e, tx')
      | (Inr _, tx') \<Rightarrow> insertInviteCodes env (Suc n) params tx')"

definition CreateInviteCodes_db :: "pgEnv \<Rightarrow> CreateInviteCodeParams list \<Rightarrow> authDB \<Rightarrow> unit dbres" where
  "CreateInviteCodes_db env params db =
     (if params = [] then (Inr (), db)
      else if pg_fail env 0 then (Inl ErrDatabase, db)
      else case insertInviteCodes env 1 params db of
          (Inl e, tx) \<Rightarrow> (Inl e, rollback db tx)
        | (Inr _, tx) \<Rightarrow>
            if pg_fail env (Suc (length params)) then (Inl ErrDatabase, rollback db tx) else (Inr (), tx))"

definition ListInviteCodes_db :: "pgEnv \<Rightarrow> authDB \<Rightarrow> authError + InviteCodeRecord list" where
  "ListInviteCodes_db env db =
     (if pg_fail env 0 then Inl ErrDatabase
      else Inr (sort_key (\<lambda>i. (- ic_CreatedAt i, - ic_ID i)) (map snd (db_invites db))))"

definition DisableInviteCode_db :: "pgEnv \<Rightarrow> string \<Rightarrow> string \<Rightarrow> gotime \<Rightarrow> authDB \<Rightarrow> unit dbres" where
  "DisableInviteCode_db env code actor now db =
     (if pg_fail env 0 then (Inl ErrDatabase, db)
      else case lockInviteCode (pg_fail env 1) code now db of
          Inl e \<Rightarrow> (Inl e, db)
        | Inr inviteID \<Rightarrow>
            if pg_fail env 2 \<or> pg_fail env 3 then (Inl ErrDatabase, db)
            else (Inr (), db\<lparr>db_invites := updateRows (\<lambda>i. ic_ID i = inviteID)
              (\<lambda>i. i\<lparr>ic_DisabledAt := Some (pg_ts env now), ic_DisabledBy := actor\<rparr>) (db_invites db)\<rparr>))"

text \<open>\<open>delete from users where id = ...\<close> with the actions of the foreign keys.\<close>

definition deleteUserRow :: "int \<Rightarrow> authDB \<Rightarrow> authDB" where
  "deleteUserRow userID db = db\<lparr>
     db_users := gm_drop (\<lambda>u. u_ID u = userID) (db_users db),
     db_sessions := gm_drop (\<lambda>s. as_UserID s = userID) (db_sessions db),
     db_tokens := gm_drop (\<lambda>t. at_UserID t = userID) (db_tokens db),
     db_invites := updateRows (\<lambda>i. ic_ConsumedByUserID i = Some userID)
       (\<lambda>i. i\<lparr>ic_ConsumedByUserID := None\<rparr>) (db_invites db)\<rparr>"

definition DeleteUser_db :: "pgEnv \<Rightarrow> string \<Rightarrow> string \<Rightarrow> gotime \<Rightarrow> authDB \<Rightarrow> DeleteUserResult dbres" where
  "DeleteUser_db env usernameNorm actor now db =
     (if pg_fail env 0 then (Inl ErrDatabase, db)
      else case queryUser (pg_fail env 1) (\<lambda>u. u_UsernameNorm u = usernameNorm) db of
          Inl e \<Rightarrow> (Inl e, db)
        | Inr user \<Rightarrow>
            if pg_fail env 2 \<or> pg_fail env 3 \<or> pg_fail env 4 then (Inl ErrDatabase, db)
            else (Inr \<lparr>du_UserID = u_ID user, du_UsernameNorm = u_UsernameNorm user\<rparr>,
              insertAuditEvent env
                \<lparr>ae_EventType = ''user_deleted'', ae_Actor = actor, ae_TargetUserID = Some (u_ID user),
                 ae_TargetUsername = u_UsernameNorm user, ae_TargetAgentTokenID = [],
                 ae_MetadataJSON = ''{\"reason\":\"operator_delete\"}'', ae_CreatedAt = now\<rparr>
                (deleteUserRow (u_ID user) db)))"

definition SetUserSubscriptionTier_db ::
    "pgEnv \<Rightarrow> string \<Rightarrow> string \<Rightarrow> string \<Rightarrow> gotime \<Rightarrow> authDB \<Rightarrow> (authUser \<times> string) dbres" where
  "SetUserSubscriptionTier_db env usernameNorm tier actor now db =
     (if pg_fail env 0 then (Inl ErrDatabase, db)
      else case queryUser (pg_fail env 1) (\<lambda>u. u_UsernameNorm u = usernameNorm) db of
          Inl e \<Rightarrow> (Inl e, db)
        | Inr user \<Rightarrow>
            let previousTier = (if u_SubscriptionTier user = [] then SubscriptionTierFree else u_SubscriptionTier user);
                updated = user\<lparr>u_SubscriptionTier := tier, u_UpdatedAt := pg_ts env now\<rparr>
            in if pg_fail env 2 \<or> \<not> (tier = SubscriptionTierFree \<or> tier = SubscriptionTierPro) \<or>
                  pg_fail env 3 \<or> pg_fail env 4
               then (Inl ErrDatabase, db)
               else (Inr (updated, previousTier), insertAuditEvent env
                 \<lparr>ae_EventType = ''user_subscription_tier_changed'', ae_Actor = actor,
                  ae_TargetUserID = Some (u_ID user), ae_TargetUsername = u_UsernameNorm user,
                  ae_TargetAgentTokenID = [],
                  ae_MetadataJSON = ''{\"new_tier\":\"'' @ tier @ ''\",\"previous_tier\":\"'' @ previousTier @ ''\"}'',
                  ae_CreatedAt = now\<rparr>
                 (db\<lparr>db_users := updateRows (\<lambda>u. u_ID u = u_ID user) (\<lambda>u. updated) (db_users db)\<rparr>)))"

end
