(* ===== verification/Auth_System.thy ===== *)
theory Auth_System
  imports Auth_Store
begin

text \<open>
  Runs of the store: any sequence of its methods, with any parameters, clocks and database faults, and the
  invariant of the tables along them: keys and unique columns, references between tables, invite codes that are
  consumed by at most one account, and accounts that each consumed one.
\<close>

section \<open>Runs\<close>

datatype dbOp =
    OpRegister pgEnv RegisterUserParams
  | OpPassword pgEnv int string gotime
  | OpCreateSession pgEnv CreateAppSessionParams
  | OpRotate pgEnv RotateAppSessionParams
  | OpRevokeSession pgEnv string gotime string
  | OpCreateToken pgEnv CreateAgentTokenParams
  | OpUseToken pgEnv string gotime
  | OpRevokeToken pgEnv int string string gotime
  | OpInvite pgEnv CreateInviteCodeParams
  | OpInvites pgEnv "CreateInviteCodeParams list"
  | OpDisable pgEnv string string gotime
  | OpDelete pgEnv string string gotime
  | OpTier pgEnv string string string gotime

fun runOp :: "dbOp \<Rightarrow> authDB \<Rightarrow> authDB" where
  "runOp (OpRegister env params) db = snd (RegisterUser env params db)"
| "runOp (OpPassword env uid hash now) db = snd (ChangeUserPassword env uid hash now db)"
| "runOp (OpCreateSession env params) db = snd (CreateAppSession env params db)"
| "runOp (OpRotate env params) db = snd (RotateAppSessionByRefreshToken env params db)"
| "runOp (OpRevokeSession env sid now reason) db = snd (RevokeAppSession env sid now reason db)"
| "runOp (OpCreateToken env params) db = snd (CreateAgentToken_db env params db)"
| "runOp (OpUseToken env digest now) db = snd (AuthenticateAgentToken env digest now db)"
| "runOp (OpRevokeToken env uid tid actor now) db = snd (RevokeAgentToken_db env uid tid actor now db)"
| "runOp (OpInvite env params) db = snd (CreateInviteCode env params db)"
| "runOp (OpInvites env params) db = snd (CreateInviteCodes_db env params db)"
| "runOp (OpDisable env code actor now) db = snd (DisableInviteCode_db env code actor now db)"
| "runOp (OpDelete env name actor now) db = snd (DeleteUser_db env name actor now db)"
| "runOp (OpTier env name tier actor now) db = snd (SetUserSubscriptionTier_db env name tier actor now db)"

definition runOps :: "dbOp list \<Rightarrow> authDB \<Rightarrow> authDB" where
  "runOps ops db = fold runOp ops db"

section \<open>Tables\<close>

definition uniqueOn :: "('v \<Rightarrow> 'a) \<Rightarrow> ('k, 'v) gomap \<Rightarrow> bool" where
  "uniqueOn f t \<longleftrightarrow> distinct (map (\<lambda>e. f (snd e)) t)"

definition table :: "('v \<Rightarrow> 'k) \<Rightarrow> ('k, 'v) gomap \<Rightarrow> bool" where
  "table key t \<longleftrightarrow> gm_wf t \<and> gm_all (\<lambda>k v. key v = k) t"

named_theorems table_simps \<open>rewriting of statements on tables\<close>

lemma updateRows_keys [simp]: "map fst (updateRows p f t) = map fst t"
  by (auto simp: updateRows_def)

lemma updateRows_wf [simp]: "gm_wf (updateRows p f t) = gm_wf t"
  by (simp add: gm_wf_def)

lemma updateRows_get [table_simps]:
  "gm_get (updateRows p f t) k = map_option (\<lambda>v. if p v then f v else v) (gm_get t k)"
  by (induction t) (auto simp: updateRows_def gm_get_def)

lemma updateRows_all:
  "gm_all P t \<Longrightarrow> (\<And>k v. (k, v) \<in> set t \<Longrightarrow> P k v \<Longrightarrow> p v \<Longrightarrow> P k (f v)) \<Longrightarrow> gm_all P (updateRows p f t)"
  by (auto simp: gm_all_iff updateRows_def)

lemma updateRows_table:
  "table key t \<Longrightarrow> (\<And>v. p v \<Longrightarrow> key (f v) = key v) \<Longrightarrow> table key (updateRows p f t)"
  unfolding table_def by (auto intro!: updateRows_all)

lemma updateRows_unique:
  "uniqueOn g t \<Longrightarrow> (\<And>v. p v \<Longrightarrow> g (f v) = g v) \<Longrightarrow> uniqueOn g (updateRows p f t)"
  unfolding uniqueOn_def updateRows_def by (simp add: comp_def case_prod_beta if_distrib cong: if_cong map_cong)

lemma queryRow_Some: "queryRow p t = Some v \<Longrightarrow> p v \<and> (\<exists>k. (k, v) \<in> set t)"
  unfolding queryRow_def find_Some_iff by (metis (no_types, lifting) length_map nth_map nth_mem surjective_pairing)

lemma queryRow_None: "queryRow p t = None \<longleftrightarrow> (\<forall>(k, v) \<in> set t. \<not> p v)"
  by (force simp: queryRow_def find_None_iff)

lemma keyTaken_iff: "keyTaken p t \<longleftrightarrow> (\<exists>(k, v) \<in> set t. p v)"
  by (auto simp: keyTaken_def queryRow_None)

lemma keyTaken_update: "(\<And>v. p v \<Longrightarrow> q (f v) = q v) \<Longrightarrow> keyTaken q (updateRows p f t) = keyTaken q t"
  by (induction t) (auto simp: keyTaken_iff updateRows_def split: if_splits)

lemma queryRow_get:
  "table key t \<Longrightarrow> queryRow p t = Some v \<Longrightarrow> p v \<and> gm_get t (key v) = Some v"
  by (auto simp: table_def gm_all_iff dest!: queryRow_Some intro: gm_in_get)

lemma gm_put_fresh: "gm_get t k = None \<Longrightarrow> gm_put k v t = t @ [(k, v)]"
  by (induction t) (auto simp: gm_get_def gm_put_def split: if_splits)

lemma insert_table: "table key t \<Longrightarrow> table key (gm_put (key v) v t)"
  unfolding table_def by auto

lemma insert_unique:
  "gm_get t k = None \<Longrightarrow> uniqueOn g t \<Longrightarrow> \<not> keyTaken (\<lambda>v'. g v' = g v) t \<Longrightarrow> uniqueOn g (gm_put k v t)"
  by (auto simp: gm_put_fresh uniqueOn_def keyTaken_iff)

lemma table_fresh:
  assumes "table key t" "\<not> keyTaken (\<lambda>v. key v = k) t"
  shows "gm_get t k = None"
proof (rule ccontr)
  assume "gm_get t k \<noteq> None"
  then obtain v where "(k, v) \<in> set t" by (auto dest: gm_get_in)
  with assms show False by (auto simp: table_def keyTaken_iff gm_all_iff)
qed

lemma drop_unique: "uniqueOn g t \<Longrightarrow> uniqueOn g (gm_drop p t)"
  unfolding uniqueOn_def gm_drop_def by (rule distinct_map_filter)

lemma drop_table: "table key t \<Longrightarrow> table key (gm_drop p t)"
  unfolding table_def by auto

text \<open>Rows that agree on a unique column are the same row.\<close>

lemma uniqueOnD:
  assumes "uniqueOn g t" "(k, v) \<in> set t" "(k', v') \<in> set t" "g v = g v'"
  shows "k = k' \<and> v = v'"
proof -
  have "inj_on (\<lambda>e. g (snd e)) (set t)" using assms(1) by (simp add: uniqueOn_def distinct_map)
  then have "(k, v) = (k', v')" by (rule inj_onD) (use assms in simp_all)
  then show ?thesis by simp
qed

lemma updateRows_mem:
  "(k, v) \<in> set (updateRows p f t) \<longleftrightarrow> (\<exists>v'. (k, v') \<in> set t \<and> v = (if p v' then f v' else v'))"
  by (force simp: updateRows_def)

text \<open>A row replaced by one with a new value of a unique column that no other row has.\<close>

lemma replace_unique:
  assumes "table key t" "uniqueOn g t" "\<not> keyTaken (\<lambda>v'. key v' \<noteq> key v \<and> g v' = g v) t"
  shows "uniqueOn g (updateRows (\<lambda>v'. key v' = key v) (\<lambda>_. v) t)"
proof -
  let ?t = "updateRows (\<lambda>v'. key v' = key v) (\<lambda>_. v) t"
  have wf: "distinct t" using assms(1) by (simp add: table_def gm_wf_def distinct_map)
  have keys: "key v' = k" if "(k, v') \<in> set t" for k v' using assms(1) that by (auto simp: table_def gm_all_iff)
  have same: "k = k'" if "(k, a) \<in> set t" "(k', b) \<in> set t"
      "g (if key a = key v then v else a) = g (if key b = key v then v else b)" for k a k' b
    using that keys [OF that(1)] keys [OF that(2)] assms(3) uniqueOnD [OF assms(2) that(1,2)]
    by (auto simp: keyTaken_iff split: if_splits)
  have "inj_on (\<lambda>e. g (if key (snd e) = key v then v else snd e)) (set t)"
  proof (rule inj_onI, clarify)
    fix k a k' b assume ab: "(k, a) \<in> set t" "(k', b) \<in> set t"
      "g (if key (snd (k, a)) = key v then v else snd (k, a)) = g (if key (snd (k', b)) = key v then v else snd (k', b))"
    then have "k = k'" using ab(3) by (intro same [OF ab(1,2)]) (simp only: snd_conv)
    with ab show "k = k' \<and> a = b" using assms(1) by (auto simp: table_def gm_wf_def dest: eq_key_imp_eq_value)
  qed
  then show ?thesis
    using wf by (simp add: uniqueOn_def updateRows_def comp_def case_prod_beta distinct_map)
qed

section \<open>The invariant\<close>

definition tierOK :: "string \<Rightarrow> bool" where
  "tierOK tier \<longleftrightarrow> tier = SubscriptionTierFree \<or> tier = SubscriptionTierPro"

definition users_ok :: "authDB \<Rightarrow> bool" where
  "users_ok db \<longleftrightarrow> table u_ID (db_users db) \<and> uniqueOn u_UsernameNorm (db_users db) \<and>
     gm_all (\<lambda>k u. k < db_nextUser db \<and> tierOK (u_SubscriptionTier u)) (db_users db)"

definition inviteState :: "InviteCodeRecord \<Rightarrow> bool" where
  "inviteState i \<longleftrightarrow> (ic_ConsumedByUserID i \<noteq> None \<longrightarrow> ic_ConsumedAt i \<noteq> None) \<and>
     (ic_ConsumedAt i = None \<or> ic_DisabledAt i = None)"

definition invites_ok :: "authDB \<Rightarrow> bool" where
  "invites_ok db \<longleftrightarrow> table ic_ID (db_invites db) \<and> uniqueOn ic_Code (db_invites db) \<and>
     gm_all (\<lambda>k i. k < db_nextInvite db \<and> inviteState i) (db_invites db)"

definition hasUser :: "authDB \<Rightarrow> int \<Rightarrow> bool" where
  "hasUser db uid \<longleftrightarrow> gm_get (db_users db) uid \<noteq> None"

definition consumes :: "authDB \<Rightarrow> int \<Rightarrow> int \<Rightarrow> bool" where
  "consumes db uid k \<longleftrightarrow> (case gm_get (db_invites db) k of None \<Rightarrow> False | Some i \<Rightarrow> ic_ConsumedByUserID i = Some uid)"

text \<open>Consumed codes name existing accounts, two codes never the same one, and every account consumed a code.\<close>

definition consumers_ok :: "authDB \<Rightarrow> bool" where
  "consumers_ok db \<longleftrightarrow>
     (\<forall>k uid. consumes db uid k \<longrightarrow> hasUser db uid) \<and>
     (\<forall>k k' uid. consumes db uid k \<longrightarrow> consumes db uid k' \<longrightarrow> k = k') \<and>
     (\<forall>uid. hasUser db uid \<longrightarrow> (\<exists>k. consumes db uid k))"

definition sessions_ok :: "authDB \<Rightarrow> bool" where
  "sessions_ok db \<longleftrightarrow> table as_ID (db_sessions db) \<and> uniqueOn as_AccessTokenDigest (db_sessions db) \<and>
     uniqueOn as_RefreshTokenDigest (db_sessions db) \<and> gm_all (\<lambda>k s. hasUser db (as_UserID s)) (db_sessions db)"

definition tokens_ok :: "authDB \<Rightarrow> bool" where
  "tokens_ok db \<longleftrightarrow> table at_ID (db_tokens db) \<and> uniqueOn at_TokenDigest (db_tokens db) \<and>
     gm_all (\<lambda>k t. hasUser db (at_UserID t)) (db_tokens db)"

definition auth_inv :: "authDB \<Rightarrow> bool" where
  "auth_inv db \<longleftrightarrow> users_ok db \<and> invites_ok db \<and> consumers_ok db \<and> sessions_ok db \<and> tokens_ok db"

lemmas ok_defs = users_ok_def invites_ok_def consumers_ok_def sessions_ok_def tokens_ok_def hasUser_def consumes_def

lemma auth_inv_empty: "auth_inv emptyDB"
  by (simp add: auth_inv_def ok_defs emptyDB_def table_def uniqueOn_def gm_get_def)

text \<open>The audit log and the sequences.\<close>

lemma auth_inv_audit [simp]: "auth_inv (db\<lparr>db_audit := a\<rparr>) = auth_inv db"
  by (simp add: auth_inv_def ok_defs)

lemma auth_inv_event [simp]: "auth_inv (insertAuditEvent env e db) = auth_inv db"
  by (simp add: insertAuditEvent_def)

lemma auth_inv_seq:
  "auth_inv db \<Longrightarrow> db_nextUser db \<le> m \<Longrightarrow> db_nextInvite db \<le> n \<Longrightarrow> auth_inv (db\<lparr>db_nextUser := m, db_nextInvite := n\<rparr>)"
  unfolding auth_inv_def ok_defs by (auto elim!: gm_all_mono)

lemma auth_inv_rollback:
  "auth_inv db \<Longrightarrow> db_nextUser db \<le> db_nextUser tx \<Longrightarrow> db_nextInvite db \<le> db_nextInvite tx \<Longrightarrow> auth_inv (rollback db tx)"
  unfolding rollback_def by (rule auth_inv_seq)

text \<open>A change of users that keeps their keys and names.\<close>

lemma auth_inv_users:
  assumes "auth_inv db" "\<And>u. p u \<Longrightarrow> u_ID (f u) = u_ID u \<and> u_UsernameNorm (f u) = u_UsernameNorm u"
    "\<And>u. p u \<Longrightarrow> tierOK (u_SubscriptionTier u) \<Longrightarrow> tierOK (u_SubscriptionTier (f u))"
  shows "auth_inv (db\<lparr>db_users := updateRows p f (db_users db)\<rparr>)"
proof -
  have "gm_get (updateRows p f (db_users db)) uid = None \<longleftrightarrow> gm_get (db_users db) uid = None" for uid
    by (simp add: updateRows_get)
  then show ?thesis using assms unfolding auth_inv_def ok_defs
    by (auto intro!: updateRows_table updateRows_unique updateRows_all)
qed

text \<open>A change of sessions or tokens that keeps their unique columns and owners.\<close>

lemma auth_inv_sessions:
  assumes "auth_inv db" "\<And>s. p s \<Longrightarrow> as_ID (f s) = as_ID s \<and> as_UserID (f s) = as_UserID s \<and>
      as_AccessTokenDigest (f s) = as_AccessTokenDigest s \<and> as_RefreshTokenDigest (f s) = as_RefreshTokenDigest s"
  shows "auth_inv (db\<lparr>db_sessions := updateRows p f (db_sessions db)\<rparr>)"
  using assms unfolding auth_inv_def ok_defs
  by (auto intro!: updateRows_table updateRows_unique updateRows_all)

lemma auth_inv_tokens:
  assumes "auth_inv db" "\<And>t. p t \<Longrightarrow> at_ID (f t) = at_ID t \<and> at_UserID (f t) = at_UserID t \<and>
      at_TokenDigest (f t) = at_TokenDigest t"
  shows "auth_inv (db\<lparr>db_tokens := updateRows p f (db_tokens db)\<rparr>)"
  using assms unfolding auth_inv_def ok_defs
  by (auto intro!: updateRows_table updateRows_unique updateRows_all)

lemma auth_inv_tables:
  "auth_inv db \<Longrightarrow> table u_ID (db_users db)" "auth_inv db \<Longrightarrow> table ic_ID (db_invites db)"
  "auth_inv db \<Longrightarrow> table as_ID (db_sessions db)" "auth_inv db \<Longrightarrow> table at_ID (db_tokens db)"
  by (simp_all add: auth_inv_def ok_defs)

lemma lockInviteCode_Inr:
  assumes "auth_inv db" "lockInviteCode fails code now db = Inr iid"
  obtains i where "gm_get (db_invites db) iid = Some i" "ic_Code i = code" "ic_DisabledAt i = None"
    "ic_ConsumedAt i = None" "now < ic_ExpiresAt i" "ic_ID i = iid"
proof -
  obtain i where i: "queryRow (\<lambda>i. ic_Code i = code) (db_invites db) = Some i" "ic_DisabledAt i = None"
      "ic_ConsumedAt i = None" "now < ic_ExpiresAt i" "ic_ID i = iid"
    using assms(2) by (auto simp: lockInviteCode_def split: if_splits option.splits)
  then show thesis using that queryRow_get [OF auth_inv_tables(2) [OF assms(1)] i(1)] by simp
qed

lemma findUser_has: "auth_inv db \<Longrightarrow> queryRow (\<lambda>u. u_ID u = uid) (db_users db) \<noteq> None \<Longrightarrow> hasUser db uid"
  unfolding hasUser_def using queryRow_get [OF auth_inv_tables(1)] by fastforce

section \<open>Every method keeps the invariant\<close>

lemma consumers_okI:
  "(\<And>k uid. consumes db uid k \<Longrightarrow> hasUser db uid) \<Longrightarrow>
   (\<And>k k' uid. consumes db uid k \<Longrightarrow> consumes db uid k' \<Longrightarrow> k = k') \<Longrightarrow>
   (\<And>uid. hasUser db uid \<Longrightarrow> \<exists>k. consumes db uid k) \<Longrightarrow> consumers_ok db"
  unfolding consumers_ok_def by blast

lemma consumersD:
  "consumers_ok db \<Longrightarrow> consumes db uid k \<Longrightarrow> hasUser db uid"
  "consumers_ok db \<Longrightarrow> consumes db uid k \<Longrightarrow> consumes db uid k' \<Longrightarrow> k = k'"
  "consumers_ok db \<Longrightarrow> hasUser db uid \<Longrightarrow> \<exists>k. consumes db uid k"
  unfolding consumers_ok_def by blast+

lemma consumers_cong:
  assumes ok: "consumers_ok db" and "\<And>uid. hasUser db' uid \<longleftrightarrow> hasUser db uid"
    "\<And>uid k. consumes db' uid k \<longleftrightarrow> consumes db uid k"
  shows "consumers_ok db'"
  by (rule consumers_okI; unfold assms(2,3); blast intro: consumersD [OF ok])

lemma consumes_update:
  "(\<And>i. p i \<Longrightarrow> ic_ConsumedByUserID (f i) = ic_ConsumedByUserID i) \<Longrightarrow>
   consumes (db\<lparr>db_invites := updateRows p f (db_invites db)\<rparr>) uid k = consumes db uid k"
  by (cases "gm_get (db_invites db) k") (simp_all add: consumes_def updateRows_get)

lemma table_row: "table key t \<Longrightarrow> (k, v) \<in> set t \<Longrightarrow> gm_get t (key v) = Some v \<and> k = key v"
  by (auto simp: table_def gm_all_iff intro: gm_in_get)

lemma replace_row:
  assumes "table key t" "gm_get t (key v) = Some v"
  shows "updateRows (\<lambda>w. key w = key v) (\<lambda>_. f v) t = updateRows (\<lambda>w. key w = key v) f t"
proof -
  have "w = v" if "(k, w) \<in> set t" "key w = key v" for k w
    using table_row [OF assms(1) that(1)] that(2) assms(2) by simp
  then have "(if key w = key v then f v else w) = (if key w = key v then f w else w)" if "(k, w) \<in> set t" for k w
    using that by metis
  then show ?thesis unfolding updateRows_def by (auto intro!: map_cong)
qed

lemma new_user: "auth_inv db \<Longrightarrow> gm_get (db_users db) (db_nextUser db) = None"
  by (cases "gm_get (db_users db) (db_nextUser db)") (auto simp: auth_inv_def users_ok_def dest: gm_allD)

lemma consumers_register:
  assumes inv: "auth_inv db" and i: "gm_get (db_invites db) iid = Some i" "ic_ConsumedAt i = None"
    and f: "\<And>i. ic_ConsumedByUserID (f i) = Some (db_nextUser db)"
  shows "consumers_ok (db\<lparr>db_users := gm_put (db_nextUser db) user (db_users db),
    db_invites := updateRows (\<lambda>i. ic_ID i = iid) f (db_invites db)\<rparr>)" (is "consumers_ok ?db'")
proof -
  let ?uid = "db_nextUser db"
  have cons: "consumers_ok db" using inv by (simp add: auth_inv_def)
  have key: "ic_ID r = k" if "gm_get (db_invites db) k = Some r" for k r
    using auth_inv_tables(2) [OF inv] that by (auto simp: table_def dest: gm_allD)
  have old: "\<not> consumes db w iid" for w
    using inv i by (auto simp: auth_inv_def invites_ok_def inviteState_def consumes_def dest!: gm_allD)
  have con: "consumes ?db' w k = (if k = iid then w = ?uid else consumes db w k)" for w k
    using i f key by (cases "gm_get (db_invites db) k") (auto simp: updateRows_get consumes_def)
  have has: "hasUser ?db' w \<longleftrightarrow> w = ?uid \<or> hasUser db w" for w by (auto simp: hasUser_def)
  have fresh: "\<not> consumes db ?uid k" for k
    using consumersD(1) [OF cons] new_user [OF inv] unfolding hasUser_def by blast
  show ?thesis
  proof (rule consumers_okI, unfold con has)
    fix w assume "w = ?uid \<or> hasUser db w"
    then show "\<exists>k. if k = iid then w = ?uid else consumes db w k" using consumersD(3) [OF cons] old by metis
  qed (use consumersD [OF cons] fresh in \<open>auto split: if_splits\<close>)
qed

lemma RegisterUser_inv:
  assumes inv: "auth_inv db"
  shows "auth_inv (snd (RegisterUser env params db))"
proof (cases "lockInviteCode (pg_fail env 1) (ru_InviteCode params) (ru_Now params) db")
  case (Inl e)
  then show ?thesis using inv by (simp add: RegisterUser_def)
next
  case (Inr iid)
  obtain i where i: "gm_get (db_invites db) iid = Some i" "ic_ConsumedAt i = None" "ic_DisabledAt i = None"
    using lockInviteCode_Inr [OF inv Inr] by metis
  let ?uid = "db_nextUser db" and ?now = "pg_ts env (ru_Now params)"
  define user where "user = \<lparr>u_ID = ?uid, u_Username = ru_UsernameNorm params,
    u_UsernameNorm = ru_UsernameNorm params, u_PasswordHash = ru_PasswordHash params,
    u_SubscriptionTier = SubscriptionTierFree, u_CreatedAt = ?now, u_UpdatedAt = ?now\<rparr>"
  define f where "f = (\<lambda>i :: InviteCodeRecord. i\<lparr>ic_ConsumedAt := Some ?now, ic_ConsumedByUserID := Some ?uid,
    ic_ConsumedByUsername := ru_UsernameNorm params\<rparr>)"
  define db2 where "db2 = db\<lparr>db_users := gm_put ?uid user (db_users db),
    db_invites := updateRows (\<lambda>i. ic_ID i = iid) f (db_invites db)\<rparr>"
  define db3 where "db3 = db\<lparr>db_nextUser := ?uid + 1, db_users := gm_put ?uid user (db_users db),
    db_invites := updateRows (\<lambda>i. ic_ID i = iid) f (db_invites db)\<rparr>"
  have new: "gm_get (db_users db) ?uid = None" by (rule new_user [OF inv])
  have *: "auth_inv db3" if "\<not> keyTaken (\<lambda>u. u_UsernameNorm u = ru_UsernameNorm params) (db_users db)"
  proof -
    have "users_ok db3"
      using inv new insert_table [of u_ID "db_users db" user] insert_unique [OF new, of u_UsernameNorm user] that
      by (auto simp: auth_inv_def ok_defs db3_def user_def tierOK_def elim!: gm_all_mono intro!: gm_all_put)
    moreover have "inviteState (f r)" if "(k, r) \<in> set (db_invites db)" "ic_ID r = iid" for k r
      using table_row [OF auth_inv_tables(2) [OF inv] that(1)] that(2) i by (simp add: inviteState_def f_def)
    then have "invites_ok db3"
      using inv unfolding auth_inv_def ok_defs db3_def
      by (auto intro!: updateRows_table updateRows_unique updateRows_all simp: f_def)
    moreover have "consumers_ok db2"
      unfolding db2_def by (rule consumers_register [OF inv i(1,2)]) (simp add: f_def)
    ultimately show ?thesis using inv
      by (auto simp: auth_inv_def ok_defs db2_def db3_def elim!: gm_all_mono)
  qed
  have seq: "auth_inv (rollback db tx)" if "db_nextUser tx = ?uid + 1" "db_nextInvite tx = db_nextInvite db" for tx
    using inv that by (intro auth_inv_rollback) auto
  show ?thesis
    using inv * Inr unfolding RegisterUser_def
    by (auto simp: Let_def seq db3_def user_def f_def)
qed

lemma ChangeUserPassword_inv: "auth_inv db \<Longrightarrow> auth_inv (snd (ChangeUserPassword env uid hash now db))"
proof -
  assume inv: "auth_inv db"
  have users: "auth_inv (db\<lparr>db_users := updateRows (\<lambda>u. u_ID u = uid)
      (\<lambda>u. u\<lparr>u_PasswordHash := hash, u_UpdatedAt := pg_ts env now\<rparr>) (db_users db)\<rparr>)" (is "auth_inv ?db1")
    by (rule auth_inv_users [OF inv]) simp_all
  have "auth_inv (?db1\<lparr>db_sessions := updateRows (\<lambda>s. as_UserID s = uid \<and> as_RevokedAt s = None)
      (revokeSession (pg_ts env now) ''password_changed'') (db_sessions ?db1)\<rparr>)"
    by (rule auth_inv_sessions [OF users]) (simp add: revokeSession_def)
  then show ?thesis using inv by (simp add: ChangeUserPassword_def Let_def)
qed

lemma insert_session_inv:
  assumes inv: "auth_inv db" and "as_ID s = k" "\<not> keyTaken (\<lambda>v. as_ID v = k) (db_sessions db)"
    "\<not> keyTaken (\<lambda>v. as_AccessTokenDigest v = as_AccessTokenDigest s) (db_sessions db)"
    "\<not> keyTaken (\<lambda>v. as_RefreshTokenDigest v = as_RefreshTokenDigest s) (db_sessions db)" "hasUser db (as_UserID s)"
  shows "auth_inv (db\<lparr>db_sessions := gm_put k s (db_sessions db)\<rparr>)"
proof -
  have "gm_get (db_sessions db) k = None" by (rule table_fresh [OF auth_inv_tables(3) [OF inv] assms(3)])
  then have "uniqueOn as_AccessTokenDigest (gm_put k s (db_sessions db))"
    "uniqueOn as_RefreshTokenDigest (gm_put k s (db_sessions db))"
    using assms by (auto intro!: insert_unique simp: auth_inv_def sessions_ok_def)
  then show ?thesis using assms insert_table [OF auth_inv_tables(3) [OF inv], of s]
    by (auto simp: auth_inv_def ok_defs)
qed

lemma insert_token_inv:
  assumes inv: "auth_inv db" and "at_ID t = k" "\<not> keyTaken (\<lambda>v. at_ID v = k) (db_tokens db)"
    "\<not> keyTaken (\<lambda>v. at_TokenDigest v = at_TokenDigest t) (db_tokens db)" "hasUser db (at_UserID t)"
  shows "auth_inv (db\<lparr>db_tokens := gm_put k t (db_tokens db)\<rparr>)"
proof -
  have "gm_get (db_tokens db) k = None" by (rule table_fresh [OF auth_inv_tables(4) [OF inv] assms(3)])
  then have "uniqueOn at_TokenDigest (gm_put k t (db_tokens db))"
    using assms by (auto intro!: insert_unique simp: auth_inv_def tokens_ok_def)
  then show ?thesis using assms insert_table [OF auth_inv_tables(4) [OF inv], of t]
    by (auto simp: auth_inv_def ok_defs)
qed

lemma CreateAppSession_inv: "auth_inv db \<Longrightarrow> auth_inv (snd (CreateAppSession env params db))"
  unfolding CreateAppSession_def Let_def
  using findUser_has [of db "cs_UserID params"] by (auto intro!: insert_session_inv)

lemma CreateAgentToken_inv: "auth_inv db \<Longrightarrow> auth_inv (snd (CreateAgentToken_db env params db))"
  unfolding CreateAgentToken_db_def Let_def
  using findUser_has [of db "ca_UserID params"] by (auto intro!: insert_token_inv)

lemma queryAppSession_Inr:
  "auth_inv db \<Longrightarrow> queryAppSession fails p db = Inr s \<Longrightarrow> p s \<and> gm_get (db_sessions db) (as_ID s) = Some s"
  by (auto simp: queryAppSession_def split: if_splits option.splits dest: queryRow_get [OF auth_inv_tables(3)])

lemma queryAgentToken_Inr:
  "auth_inv db \<Longrightarrow> queryAgentToken fails p db = Inr t \<Longrightarrow> p t \<and> gm_get (db_tokens db) (at_ID t) = Some t"
  by (auto simp: queryAgentToken_def split: if_splits option.splits dest: queryRow_get [OF auth_inv_tables(4)])

lemma queryUser_Inr:
  "auth_inv db \<Longrightarrow> queryUser fails p db = Inr u \<Longrightarrow> p u \<and> gm_get (db_users db) (u_ID u) = Some u"
  by (auto simp: queryUser_def split: if_splits option.splits dest: queryRow_get [OF auth_inv_tables(1)])

lemma rotated_fields [simp]:
  "as_ID (rotatedSession env params s) = as_ID s" "as_UserID (rotatedSession env params s) = as_UserID s"
  "as_CreatedAt (rotatedSession env params s) = as_CreatedAt s"
  "as_DeviceFingerprint (rotatedSession env params s) = as_DeviceFingerprint s"
  "as_RevokedAt (rotatedSession env params s) = as_RevokedAt s"
  "as_AccessTokenDigest (rotatedSession env params s) = rs_NewAccessTokenDigest params"
  "as_RefreshTokenDigest (rotatedSession env params s) = rs_NewRefreshTokenDigest params"
  by (simp_all add: rotatedSession_def Let_def)

lemma Rotate_inv:
  assumes inv: "auth_inv db"
  shows "auth_inv (snd (RotateAppSessionByRefreshToken env params db))"
proof (cases "queryAppSession (pg_fail env 1) (\<lambda>s. as_RefreshTokenDigest s = rs_RefreshTokenDigest params) db")
  case (Inr s)
  let ?t = "db_sessions db" and ?r = "rotatedSession env params s"
  have row: "gm_get ?t (as_ID s) = Some s" using queryAppSession_Inr [OF inv Inr] by simp
  have owner: "hasUser db (as_UserID s)"
    using inv row by (auto simp: auth_inv_def sessions_ok_def dest: gm_allD)
  have "auth_inv (db\<lparr>db_sessions := updateRows (\<lambda>v. as_ID v = as_ID s) (\<lambda>_. ?r) ?t\<rparr>)"
    if "\<not> keyTaken (\<lambda>v. as_ID v \<noteq> as_ID s \<and> as_AccessTokenDigest v = rs_NewAccessTokenDigest params) ?t"
      "\<not> keyTaken (\<lambda>v. as_ID v \<noteq> as_ID s \<and> as_RefreshTokenDigest v = rs_NewRefreshTokenDigest params) ?t"
  proof -
    have ok: "sessions_ok db" using inv by (simp add: auth_inv_def)
    have "uniqueOn as_AccessTokenDigest (updateRows (\<lambda>v. as_ID v = as_ID ?r) (\<lambda>_. ?r) ?t)"
      "uniqueOn as_RefreshTokenDigest (updateRows (\<lambda>v. as_ID v = as_ID ?r) (\<lambda>_. ?r) ?t)"
      by (rule replace_unique; use ok that in \<open>simp add: sessions_ok_def\<close>)+
    then show ?thesis using inv owner
      by (auto simp: auth_inv_def ok_defs intro!: updateRows_table updateRows_all)
  qed
  then show ?thesis using inv Inr by (auto simp: RotateAppSessionByRefreshToken_def Let_def)
qed (use inv in \<open>simp add: RotateAppSessionByRefreshToken_def\<close>)

lemma RevokeAppSession_inv: "auth_inv db \<Longrightarrow> auth_inv (snd (RevokeAppSession env sid now reason db))"
  using auth_inv_sessions [of db "\<lambda>s. as_ID s = sid \<and> as_RevokedAt s = None" "revokeSession (pg_ts env now) reason"]
  by (simp add: RevokeAppSession_def Let_def revokeSession_def)

lemma AuthenticateAgentToken_inv:
  assumes inv: "auth_inv db"
  shows "auth_inv (snd (AuthenticateAgentToken env digest now db))"
proof (cases "queryAgentToken (pg_fail env 1) (\<lambda>t. at_TokenDigest t = digest) db")
  case (Inr t)
  let ?u = "t\<lparr>at_LastUsedAt := Some (pg_ts env now), at_UpdatedAt := pg_ts env now\<rparr>"
  have row: "gm_get (db_tokens db) (at_ID t) = Some t" using queryAgentToken_Inr [OF inv Inr] by simp
  have "updateRows (\<lambda>v. at_ID v = at_ID t) (\<lambda>_. ?u) (db_tokens db) =
      updateRows (\<lambda>v. at_ID v = at_ID t)
        (\<lambda>v. v\<lparr>at_LastUsedAt := Some (pg_ts env now), at_UpdatedAt := pg_ts env now\<rparr>) (db_tokens db)"
    by (rule replace_row [OF auth_inv_tables(4) [OF inv] row])
  then have "auth_inv (db\<lparr>db_tokens := updateRows (\<lambda>v. at_ID v = at_ID t) (\<lambda>_. ?u) (db_tokens db)\<rparr>)"
    using auth_inv_tokens [OF inv, of "\<lambda>v. at_ID v = at_ID t"
        "\<lambda>v. v\<lparr>at_LastUsedAt := Some (pg_ts env now), at_UpdatedAt := pg_ts env now\<rparr>"] by simp
  then show ?thesis using inv Inr by (simp add: AuthenticateAgentToken_def Let_def)
qed (use inv in \<open>simp add: AuthenticateAgentToken_def Let_def\<close>)

lemma RevokeAgentToken_inv: "auth_inv db \<Longrightarrow> auth_inv (snd (RevokeAgentToken_db env uid tid actor now db))"
  using auth_inv_tokens [of db "\<lambda>t. at_ID t = tid \<and> at_UserID t = uid \<and> at_RevokedAt t = None"
      "\<lambda>t. t\<lparr>at_RevokedAt := Some (pg_ts env now), at_RevokeReason := ''revoked_by_user'', at_UpdatedAt := pg_ts env now\<rparr>"]
  by (simp add: RevokeAgentToken_db_def Let_def)

lemma insertInviteCode_inv:
  assumes inv: "auth_inv db" and r: "insertInviteCode env fails params db = (res, db')"
  shows "auth_inv db' \<and> db_nextInvite db \<le> db_nextInvite db' \<and> db_nextUser db' = db_nextUser db"
proof -
  let ?n = "db_nextInvite db"
  have new: "gm_get (db_invites db) ?n = None"
    using inv by (cases "gm_get (db_invites db) ?n") (auto simp: auth_inv_def invites_ok_def dest: gm_allD)
  have seq: "auth_inv (db\<lparr>db_nextInvite := ?n + 1\<rparr>)" (is "auth_inv ?db1")
    using auth_inv_seq [OF inv, of "db_nextUser db" "?n + 1"] by simp
  have "auth_inv (?db1\<lparr>db_invites := gm_put ?n i (db_invites db)\<rparr>)"
    if "\<not> keyTaken (\<lambda>v. ic_Code v = ic_Code i) (db_invites db)" "ic_ID i = ?n" "ic_ConsumedByUserID i = None"
      "ic_ConsumedAt i = None" for i
  proof -
    have "uniqueOn ic_Code (gm_put ?n i (db_invites db))"
      using inv that(1) new by (auto intro!: insert_unique simp: auth_inv_def invites_ok_def)
    moreover have "consumes (?db1\<lparr>db_invites := gm_put ?n i (db_invites db)\<rparr>) w k = consumes db w k" for w k
      using that(3) new by (auto simp: consumes_def)
    then have "consumers_ok (?db1\<lparr>db_invites := gm_put ?n i (db_invites db)\<rparr>)"
      by (rule consumers_cong [rotated 2]) (use inv in \<open>simp_all add: auth_inv_def hasUser_def\<close>)
    ultimately show ?thesis using seq that insert_table [OF auth_inv_tables(2) [OF inv], of i]
      by (auto simp: auth_inv_def users_ok_def invites_ok_def sessions_ok_def tokens_ok_def hasUser_def inviteState_def)
  qed
  then show ?thesis using inv seq r by (auto simp: insertInviteCode_def Let_def split: if_splits)
qed

lemma insertInviteCodes_inv:
  "auth_inv tx \<Longrightarrow> insertInviteCodes env n params tx = (res, tx') \<Longrightarrow>
   auth_inv tx' \<and> db_nextInvite tx \<le> db_nextInvite tx' \<and> db_nextUser tx' = db_nextUser tx"
proof (induction env n params tx rule: insertInviteCodes.induct)
  case (2 env n param params tx)
  obtain r t where rt: "insertInviteCode env (pg_fail env n) param tx = (r, t)" by fastforce
  have t: "auth_inv t \<and> db_nextInvite tx \<le> db_nextInvite t \<and> db_nextUser t = db_nextUser tx"
    by (rule insertInviteCode_inv [OF "2.prems"(1) rt])
  show ?case
  proof (cases r)
    case (Inl e)
    then show ?thesis using "2.prems"(2) rt t by simp
  next
    case (Inr i)
    then show ?thesis using "2.IH" [OF rt [symmetric] Inr] "2.prems"(2) rt t by fastforce
  qed
qed simp

lemma CreateInviteCode_inv: "auth_inv db \<Longrightarrow> auth_inv (snd (CreateInviteCode env params db))"
  unfolding CreateInviteCode_def using insertInviteCode_inv by (metis prod.collapse)

lemma CreateInviteCodes_inv:
  assumes inv: "auth_inv db"
  shows "auth_inv (snd (CreateInviteCodes_db env params db))"
proof -
  obtain r tx where tx: "insertInviteCodes env 1 params db = (r, tx)" by fastforce
  then have "auth_inv tx" "auth_inv (rollback db tx)"
    using insertInviteCodes_inv [OF inv tx] inv by (auto intro: auth_inv_rollback)
  then show ?thesis using inv tx by (auto simp: CreateInviteCodes_db_def split: sum.splits)
qed

lemma DisableInviteCode_inv:
  assumes inv: "auth_inv db"
  shows "auth_inv (snd (DisableInviteCode_db env code actor now db))"
proof (cases "lockInviteCode (pg_fail env 1) code now db")
  case (Inr iid)
  let ?f = "\<lambda>i :: InviteCodeRecord. i\<lparr>ic_DisabledAt := Some (pg_ts env now), ic_DisabledBy := actor\<rparr>"
  let ?t = "updateRows (\<lambda>i. ic_ID i = iid) ?f (db_invites db)"
  obtain i where i: "gm_get (db_invites db) iid = Some i" "ic_ConsumedAt i = None"
    by (rule lockInviteCode_Inr [OF inv Inr])
  have "inviteState (?f r)" if "(k, r) \<in> set (db_invites db)" "ic_ID r = iid" "inviteState r" for k r
    using table_row [OF auth_inv_tables(2) [OF inv] that(1)] that i by (simp add: inviteState_def)
  then have "invites_ok (db\<lparr>db_invites := ?t\<rparr>)"
    using inv unfolding auth_inv_def invites_ok_def
    by (auto intro!: updateRows_table updateRows_unique updateRows_all)
  moreover have "consumers_ok (db\<lparr>db_invites := ?t\<rparr>)"
    by (rule consumers_cong [OF _ _ consumes_update]) (use inv in \<open>simp_all add: auth_inv_def hasUser_def\<close>)
  ultimately have "auth_inv (db\<lparr>db_invites := ?t\<rparr>)" using inv
    by (simp add: auth_inv_def users_ok_def sessions_ok_def tokens_ok_def hasUser_def)
  then show ?thesis using inv Inr by (simp add: DisableInviteCode_db_def)
qed (use inv in \<open>simp add: DisableInviteCode_db_def\<close>)

lemma deleteUserRow_inv:
  assumes inv: "auth_inv db"
  shows "auth_inv (deleteUserRow uid db)"
proof -
  let ?db' = "deleteUserRow uid db"
  let ?f = "\<lambda>i :: InviteCodeRecord. i\<lparr>ic_ConsumedByUserID := None\<rparr>"
  have has: "hasUser ?db' w \<longleftrightarrow> w \<noteq> uid \<and> hasUser db w" for w
    using auth_inv_tables(1) [OF inv] gm_allD [of "\<lambda>k v. u_ID v = k" "db_users db" w]
    by (cases "gm_get (db_users db) w") (auto simp: hasUser_def deleteUserRow_def gm_get_drop table_def)
  have con: "consumes ?db' w k \<longleftrightarrow> w \<noteq> uid \<and> consumes db w k" for w k
    by (cases "gm_get (db_invites db) k") (auto simp: consumes_def deleteUserRow_def updateRows_get)
  have cons: "consumers_ok db" using inv by (simp add: auth_inv_def)
  have "consumers_ok ?db'"
    by (rule consumers_okI; unfold has con; use consumersD [OF cons] in blast)
  moreover have "users_ok ?db'" using inv
    by (auto simp: auth_inv_def users_ok_def deleteUserRow_def intro!: drop_table drop_unique gm_all_drop)
  moreover have "invites_ok ?db'" using inv
    by (auto simp: auth_inv_def invites_ok_def deleteUserRow_def inviteState_def
        intro!: updateRows_table updateRows_unique updateRows_all)
  moreover have "gm_all (\<lambda>k s. hasUser ?db' (as_UserID s)) (db_sessions ?db')" "gm_all (\<lambda>k t. hasUser ?db' (at_UserID t)) (db_tokens ?db')"
    using inv unfolding has by (auto simp: auth_inv_def sessions_ok_def tokens_ok_def deleteUserRow_def gm_all_iff set_gm_drop)
  ultimately show ?thesis using inv
    by (auto simp: auth_inv_def sessions_ok_def tokens_ok_def deleteUserRow_def intro!: drop_table drop_unique)
qed

lemma DeleteUser_inv: "auth_inv db \<Longrightarrow> auth_inv (snd (DeleteUser_db env name actor now db))"
  by (auto simp: DeleteUser_db_def deleteUserRow_inv split: sum.splits)

lemma SetTier_inv:
  assumes inv: "auth_inv db"
  shows "auth_inv (snd (SetUserSubscriptionTier_db env name tier actor now db))"
proof (cases "queryUser (pg_fail env 1) (\<lambda>u. u_UsernameNorm u = name) db")
  case (Inr u)
  let ?f = "\<lambda>u :: authUser. u\<lparr>u_SubscriptionTier := tier, u_UpdatedAt := pg_ts env now\<rparr>"
  have row: "gm_get (db_users db) (u_ID u) = Some u" using queryUser_Inr [OF inv Inr] by simp
  have eq: "updateRows (\<lambda>v. u_ID v = u_ID u) (\<lambda>_. ?f u) (db_users db) = updateRows (\<lambda>v. u_ID v = u_ID u) ?f (db_users db)"
    by (rule replace_row [OF auth_inv_tables(1) [OF inv] row])
  have "auth_inv (db\<lparr>db_users := updateRows (\<lambda>v. u_ID v = u_ID u) ?f (db_users db)\<rparr>)" if "tierOK tier"
    by (rule auth_inv_users [OF inv]) (simp_all add: that)
  then show ?thesis using inv Inr eq by (auto simp: SetUserSubscriptionTier_db_def Let_def tierOK_def)
qed (use inv in \<open>simp add: SetUserSubscriptionTier_db_def\<close>)

lemmas op_inv = RegisterUser_inv ChangeUserPassword_inv CreateAppSession_inv Rotate_inv RevokeAppSession_inv
  CreateAgentToken_inv AuthenticateAgentToken_inv RevokeAgentToken_inv CreateInviteCode_inv CreateInviteCodes_inv
  DisableInviteCode_inv DeleteUser_inv SetTier_inv

lemma runOp_inv: "auth_inv db \<Longrightarrow> auth_inv (runOp op db)"
  by (cases op) (simp_all add: op_inv)

lemma runOps_inv: "auth_inv db \<Longrightarrow> auth_inv (runOps ops db)"
  unfolding runOps_def by (induction ops arbitrary: db) (simp_all add: runOp_inv)

lemma runOps_simps [simp]: "runOps [] db = db" "runOps (op # ops) db = runOps ops (runOp op db)"
  "runOps (ops @ ops') db = runOps ops' (runOps ops db)"
  by (simp_all add: runOps_def)

end
