(* ===== verification/Auth_Service.thy ===== *)
theory Auth_Service
  imports Auth_System
begin

text \<open>
  The services over the store: \<open>AppAuthService\<close> (\<open>auth/app_service.go\<close>), \<open>AgentTokenService\<close>
  (\<open>auth/agent_tokens.go\<close>) and \<open>OperatorService\<close> (\<open>operator/service.go\<close>).

  A service method that calls the store twice is not a transaction: \<open>others\<close> is the list of store methods that
  other requests complete between its two calls. \<open>clk i\<close> is the \<open>i\<close>-th reading of the service's clock and
  \<open>rnd i\<close> its \<open>i\<close>-th use of the random reader.
\<close>

section \<open>App sessions\<close>

definition hour :: duration where "hour = 60 * minute"

definition DefaultAccessTokenTTL :: duration where "DefaultAccessTokenTTL = 24 * hour"
definition DefaultRefreshTokenTTL :: duration where "DefaultRefreshTokenTTL = 30 * 24 * hour"
definition DefaultAppSessionAbsoluteTTL :: duration where "DefaultAppSessionAbsoluteTTL = 90 * 24 * hour"

record IssuedAppSession =
  is_User :: authUser
  is_Session :: AppSession
  is_AccessToken :: string
  is_RefreshToken :: string
  is_ExpiresIn :: duration

record AuthenticatedApp =
  aa_User :: authUser
  aa_Session :: AppSession

record AppAuthService =
  sv_digester :: SecretDigester
  sv_hasher :: PasswordHasher
  sv_accessTTL :: duration
  sv_refreshTTL :: duration
  sv_absoluteTTL :: duration

definition NewAppAuthService :: "SecretDigester \<Rightarrow> PasswordHasher \<Rightarrow> AppAuthService" where
  "NewAppAuthService digester hasher = \<lparr>sv_digester = digester, sv_hasher = hasher,
     sv_accessTTL = DefaultAccessTokenTTL, sv_refreshTTL = DefaultRefreshTokenTTL,
     sv_absoluteTTL = DefaultAppSessionAbsoluteTTL\<rparr>"

type_synonym random = "nat \<Rightarrow> int \<Rightarrow> byte list option"

definition Register ::
    "authCrypto \<Rightarrow> AppAuthService \<Rightarrow> random \<Rightarrow> clock \<Rightarrow> pgEnv \<Rightarrow> string \<Rightarrow> string \<Rightarrow> string \<Rightarrow> authDB \<Rightarrow> authUser dbres" where
  "Register cy s rnd clk env username password inviteCode db =
     (case NormalizeUsername username of
        Inl e \<Rightarrow> (Inl e, db)
      | Inr usernameNorm \<Rightarrow>
          (case NormalizeInviteCode inviteCode of
             Inl e \<Rightarrow> (Inl e, db)
           | Inr inviteCodeNorm \<Rightarrow>
               (case HashPassword cy (sv_hasher s) (rnd 0) password of
                  Inl e \<Rightarrow> (Inl e, db)
                | Inr passwordHash \<Rightarrow>
                    RegisterUser env \<lparr>ru_UsernameNorm = usernameNorm, ru_InviteCode = inviteCodeNorm,
                      ru_PasswordHash = passwordHash, ru_Now = clk 0\<rparr> db)))"

definition issueSession ::
    "authCrypto \<Rightarrow> AppAuthService \<Rightarrow> random \<Rightarrow> clock \<Rightarrow> pgEnv \<Rightarrow> authUser \<Rightarrow> string \<Rightarrow> authDB \<Rightarrow> IssuedAppSession dbres" where
  "issueSession cy s rnd clk env user deviceFingerprint db =
     (case GenerateOpaqueID (rnd 0) ''appsess'' 16 of
        Inl e \<Rightarrow> (Inl e, db)
      | Inr sessionID \<Rightarrow>
          (case GenerateOpaqueToken (rnd 1) 32 of
             Inl e \<Rightarrow> (Inl e, db)
           | Inr accessToken \<Rightarrow>
               (case GenerateOpaqueToken (rnd 2) 32 of
                  Inl e \<Rightarrow> (Inl e, db)
                | Inr refreshToken \<Rightarrow>
                    let now = clk 0
                    in case CreateAppSession env \<lparr>cs_ID = sessionID, cs_UserID = u_ID user,
                         cs_AccessTokenDigest = Digest cy (sv_digester s) accessToken,
                         cs_AccessExpiresAt = now + sv_accessTTL s,
                         cs_RefreshTokenDigest = Digest cy (sv_digester s) refreshToken,
                         cs_RefreshExpiresAt = now + sv_refreshTTL s,
                         cs_DeviceFingerprint = deviceFingerprint, cs_Now = now\<rparr> db of
                        (Inl e, db') \<Rightarrow> (Inl e, db')
                      | (Inr session, db') \<Rightarrow>
                          (Inr \<lparr>is_User = user, is_Session = session, is_AccessToken = accessToken,
                             is_RefreshToken = refreshToken, is_ExpiresIn = as_AccessExpiresAt session - clk 1\<rparr>, db'))))"

definition login ::
    "authCrypto \<Rightarrow> AppAuthService \<Rightarrow> random \<Rightarrow> clock \<Rightarrow> pgEnv \<Rightarrow> pgEnv \<Rightarrow> dbOp list \<Rightarrow> string \<Rightarrow> string \<Rightarrow> string \<Rightarrow>
     authDB \<Rightarrow> IssuedAppSession dbres" where
  "login cy s rnd clk env env' others usernameNorm password fingerprint db =
     (case FindUserByUsername env usernameNorm db of
        Inl e \<Rightarrow> (Inl (if e = ErrUserNotFound then ErrInvalidCredentials else e), runOps others db)
      | Inr user \<Rightarrow>
          (case VerifyPassword cy password (u_PasswordHash user) of
             Some e \<Rightarrow> (Inl (if e = ErrInvalidPassword then ErrInvalidCredentials else e), runOps others db)
           | None \<Rightarrow> issueSession cy s rnd clk env' user fingerprint (runOps others db)))"

definition LoginWithDeviceFingerprint ::
    "authCrypto \<Rightarrow> AppAuthService \<Rightarrow> random \<Rightarrow> clock \<Rightarrow> pgEnv \<Rightarrow> pgEnv \<Rightarrow> dbOp list \<Rightarrow> string \<Rightarrow> string \<Rightarrow> string \<Rightarrow>
     authDB \<Rightarrow> IssuedAppSession dbres" where
  "LoginWithDeviceFingerprint cy s rnd clk env env' others username password deviceFingerprint db =
     (case NormalizeUsername username of
        Inl e \<Rightarrow> (Inl ErrInvalidCredentials, runOps others db)
      | Inr usernameNorm \<Rightarrow>
          (case NormalizeDeviceFingerprint deviceFingerprint of
             Inl e \<Rightarrow> (Inl ErrInvalidDeviceFingerprint, runOps others db)
           | Inr fingerprint \<Rightarrow> login cy s rnd clk env env' others usernameNorm password fingerprint db))"

definition Login ::
    "authCrypto \<Rightarrow> AppAuthService \<Rightarrow> random \<Rightarrow> clock \<Rightarrow> pgEnv \<Rightarrow> pgEnv \<Rightarrow> dbOp list \<Rightarrow> string \<Rightarrow> string \<Rightarrow>
     authDB \<Rightarrow> IssuedAppSession dbres" where
  "Login cy s rnd clk env env' others username password db =
     LoginWithDeviceFingerprint cy s rnd clk env env' others username password [] db"

definition AuthenticateAccessToken ::
    "authCrypto \<Rightarrow> AppAuthService \<Rightarrow> clock \<Rightarrow> pgEnv \<Rightarrow> pgEnv \<Rightarrow> dbOp list \<Rightarrow> string \<Rightarrow> authDB \<Rightarrow>
     authError + AuthenticatedApp" where
  "AuthenticateAccessToken cy s clk env env' others accessToken db =
     (case FindAppSessionByAccessToken env (Digest cy (sv_digester s) accessToken) (clk 0) (sv_absoluteTTL s) db of
        Inl e \<Rightarrow> Inl e
      | Inr session \<Rightarrow>
          (case FindUserByID env' (as_UserID session) (runOps others db) of
             Inl e \<Rightarrow> Inl e
           | Inr user \<Rightarrow> Inr \<lparr>aa_User = user, aa_Session = session\<rparr>))"

definition refresh ::
    "authCrypto \<Rightarrow> AppAuthService \<Rightarrow> random \<Rightarrow> clock \<Rightarrow> pgEnv \<Rightarrow> pgEnv \<Rightarrow> dbOp list \<Rightarrow> string \<Rightarrow> string \<Rightarrow>
     authDB \<Rightarrow> IssuedAppSession dbres" where
  "refresh cy s rnd clk env env' others refreshToken fingerprint db =
     (case GenerateOpaqueToken (rnd 0) 32 of
        Inl e \<Rightarrow> (Inl e, runOps others db)
      | Inr accessToken \<Rightarrow>
          (case GenerateOpaqueToken (rnd 1) 32 of
             Inl e \<Rightarrow> (Inl e, runOps others db)
           | Inr newRefreshToken \<Rightarrow>
               let now = clk 0
               in case RotateAppSessionByRefreshToken env
                    \<lparr>rs_RefreshTokenDigest = Digest cy (sv_digester s) refreshToken, rs_DeviceFingerprint = fingerprint,
                     rs_NewAccessTokenDigest = Digest cy (sv_digester s) accessToken,
                     rs_NewAccessExpiresAt = now + sv_accessTTL s,
                     rs_NewRefreshTokenDigest = Digest cy (sv_digester s) newRefreshToken,
                     rs_NewRefreshExpiresAt = now + sv_refreshTTL s,
                     rs_AbsoluteTTL = sv_absoluteTTL s, rs_Now = now\<rparr> db of
                   (Inl e, db') \<Rightarrow> (Inl e, runOps others db')
                 | (Inr session, db') \<Rightarrow>
                     (case FindUserByID env' (as_UserID session) (runOps others db') of
                        Inl e \<Rightarrow> (Inl e, runOps others db')
                      | Inr user \<Rightarrow>
                          (Inr \<lparr>is_User = user, is_Session = session, is_AccessToken = accessToken,
                             is_RefreshToken = newRefreshToken, is_ExpiresIn = as_AccessExpiresAt session - clk 1\<rparr>,
                           runOps others db'))))"

definition RefreshWithDeviceFingerprint ::
    "authCrypto \<Rightarrow> AppAuthService \<Rightarrow> random \<Rightarrow> clock \<Rightarrow> pgEnv \<Rightarrow> pgEnv \<Rightarrow> dbOp list \<Rightarrow> string \<Rightarrow> string \<Rightarrow>
     authDB \<Rightarrow> IssuedAppSession dbres" where
  "RefreshWithDeviceFingerprint cy s rnd clk env env' others refreshToken deviceFingerprint db =
     (case NormalizeDeviceFingerprint deviceFingerprint of
        Inl e \<Rightarrow> (Inl ErrInvalidDeviceFingerprint, runOps others db)
      | Inr fingerprint \<Rightarrow> refresh cy s rnd clk env env' others refreshToken fingerprint db)"

definition Refresh ::
    "authCrypto \<Rightarrow> AppAuthService \<Rightarrow> random \<Rightarrow> clock \<Rightarrow> pgEnv \<Rightarrow> pgEnv \<Rightarrow> dbOp list \<Rightarrow> string \<Rightarrow>
     authDB \<Rightarrow> IssuedAppSession dbres" where
  "Refresh cy s rnd clk env env' others refreshToken db =
     RefreshWithDeviceFingerprint cy s rnd clk env env' others refreshToken [] db"

definition Logout :: "clock \<Rightarrow> pgEnv \<Rightarrow> AuthenticatedApp \<Rightarrow> authDB \<Rightarrow> unit dbres" where
  "Logout clk env app db = RevokeAppSession env (as_ID (aa_Session app)) (clk 0) ''logout'' db"

definition ChangePassword ::
    "authCrypto \<Rightarrow> AppAuthService \<Rightarrow> random \<Rightarrow> clock \<Rightarrow> pgEnv \<Rightarrow> AuthenticatedApp \<Rightarrow> string \<Rightarrow> string \<Rightarrow> authDB \<Rightarrow> unit dbres" where
  "ChangePassword cy s rnd clk env app currentPassword newPassword db =
     (case VerifyPassword cy currentPassword (u_PasswordHash (aa_User app)) of
        Some e \<Rightarrow> (Inl (if e = ErrInvalidPassword then ErrInvalidCredentials else e), db)
      | None \<Rightarrow>
          (case HashPassword cy (sv_hasher s) (rnd 0) newPassword of
             Inl e \<Rightarrow> (Inl e, db)
           | Inr passwordHash \<Rightarrow> ChangeUserPassword env (u_ID (aa_User app)) passwordHash (clk 0) db))"

section \<open>Agent tokens\<close>

record CreatedAgentToken =
  ct_Record :: AgentTokenRecord
  ct_Plaintext :: string

record AuthenticatedAgentToken =
  ta_User :: authUser
  ta_Token :: AgentTokenRecord

definition Create_token ::
    "authCrypto \<Rightarrow> SecretDigester \<Rightarrow> random \<Rightarrow> clock \<Rightarrow> pgEnv \<Rightarrow> int \<Rightarrow> string \<Rightarrow> authDB \<Rightarrow> CreatedAgentToken dbres" where
  "Create_token cy digester rnd clk env userID name db =
     (let trimmed = TrimSpace name
      in if trimmed = [] then (Inl ErrInvalidAgentTokenName, db)
         else
           let now = clk 0
           in case GenerateOpaqueID (rnd 0) ''agt'' 12 of
               Inl e \<Rightarrow> (Inl e, db)
             | Inr tokenID \<Rightarrow>
                 (case GenerateOpaqueToken (rnd 1) 24 of
                    Inl e \<Rightarrow> (Inl e, db)
                  | Inr plaintext \<Rightarrow>
                      (case CreateAgentToken_db env \<lparr>ca_ID = tokenID, ca_UserID = userID, ca_Name = trimmed,
                           ca_TokenDigest = Digest cy digester plaintext, ca_Now = now\<rparr> db of
                         (Inl e, db') \<Rightarrow> (Inl e, db')
                       | (Inr rec, db') \<Rightarrow> (Inr \<lparr>ct_Record = rec, ct_Plaintext = plaintext\<rparr>, db'))))"

definition List_tokens :: "pgEnv \<Rightarrow> int \<Rightarrow> authDB \<Rightarrow> authError + AgentTokenRecord list" where
  "List_tokens env userID db = ListAgentTokens_db env userID db"

definition Revoke_token :: "clock \<Rightarrow> pgEnv \<Rightarrow> int \<Rightarrow> string \<Rightarrow> string \<Rightarrow> authDB \<Rightarrow> unit dbres" where
  "Revoke_token clk env userID tokenID actor db = RevokeAgentToken_db env userID tokenID actor (clk 0) db"

definition Authenticate_token ::
    "authCrypto \<Rightarrow> SecretDigester \<Rightarrow> clock \<Rightarrow> pgEnv \<Rightarrow> pgEnv \<Rightarrow> dbOp list \<Rightarrow> string \<Rightarrow> authDB \<Rightarrow>
     AuthenticatedAgentToken dbres" where
  "Authenticate_token cy digester clk env env' others plaintext db =
     (case AuthenticateAgentToken env (Digest cy digester plaintext) (clk 0) db of
        (Inl e, db') \<Rightarrow> (Inl e, runOps others db')
      | (Inr rec, db') \<Rightarrow>
          (case FindUserByID env' (at_UserID rec) (runOps others db') of
             Inl e \<Rightarrow> (Inl e, runOps others db')
           | Inr user \<Rightarrow> (Inr \<lparr>ta_User = user, ta_Token = rec\<rparr>, runOps others db')))"

section \<open>The operator\<close>

definition OperatorActor :: string where "OperatorActor = ''operator''"

text \<open>\<open>time.Duration\<close> is a signed 64-bit number: products wrap around.\<close>

definition wrap64 :: "int \<Rightarrow> int" where
  "wrap64 x = (x + 2 ^ 63) mod 2 ^ 64 - 2 ^ 63"

definition inviteLifetime :: "int \<Rightarrow> duration" where
  "inviteLifetime expiresInDays = wrap64 (wrap64 (expiresInDays * 24) * hour)"

text \<open>The loop that draws the codes: \<open>rnd i\<close> are the buffers the \<open>i\<close>-th code reads.\<close>

fun drawCodes :: "nat \<Rightarrow> (nat \<Rightarrow> byte list list) \<Rightarrow> gotime \<Rightarrow> gotime \<Rightarrow> nat \<Rightarrow> authError + CreateInviteCodeParams list" where
  "drawCodes i rnd now expiresAt 0 = Inr []"
| "drawCodes i rnd now expiresAt (Suc n) =
     (case GenerateInviteCode (rnd i) of
        Inl e \<Rightarrow> Inl e
      | Inr code \<Rightarrow>
          (case drawCodes (Suc i) rnd now expiresAt n of
             Inl e \<Rightarrow> Inl e
           | Inr params \<Rightarrow>
               Inr (\<lparr>ci_Code = code, ci_CreatedBy = OperatorActor, ci_ExpiresAt = expiresAt, ci_Now = now\<rparr> # params)))"

definition CreateInviteCodes ::
    "clock \<Rightarrow> (nat \<Rightarrow> byte list list) \<Rightarrow> pgEnv \<Rightarrow> int \<Rightarrow> int \<Rightarrow> authDB \<Rightarrow> string list dbres" where
  "CreateInviteCodes clk rnd env count expiresInDays db =
     (if count \<le> 0 \<or> expiresInDays \<le> 0 then (Inl ErrInvalidOperatorRequest, db)
      else
        let now = clk 0; expiresAt = now + inviteLifetime expiresInDays
        in case drawCodes 0 rnd now expiresAt (nat count) of
            Inl e \<Rightarrow> (Inl e, db)
          | Inr params \<Rightarrow>
              (case CreateInviteCodes_db env params db of
                 (Inl e, db') \<Rightarrow> (Inl e, db')
               | (Inr _, db') \<Rightarrow> (Inr (map ci_Code params), db')))"

definition DisableInviteCode :: "clock \<Rightarrow> pgEnv \<Rightarrow> string \<Rightarrow> authDB \<Rightarrow> unit dbres" where
  "DisableInviteCode clk env code db =
     (case NormalizeInviteCode code of
        Inl e \<Rightarrow> (Inl e, db)
      | Inr normalized \<Rightarrow> DisableInviteCode_db env normalized OperatorActor (clk 0) db)"

definition ListInviteCodes :: "pgEnv \<Rightarrow> authDB \<Rightarrow> authError + InviteCodeRecord list" where
  "ListInviteCodes env db = ListInviteCodes_db env db"

definition DeleteUser :: "clock \<Rightarrow> pgEnv \<Rightarrow> string \<Rightarrow> authDB \<Rightarrow> DeleteUserResult dbres" where
  "DeleteUser clk env username db =
     (case NormalizeUsername username of
        Inl e \<Rightarrow> (Inl e, db)
      | Inr normalized \<Rightarrow> DeleteUser_db env normalized OperatorActor (clk 0) db)"

definition SetUserSubscriptionTier ::
    "clock \<Rightarrow> pgEnv \<Rightarrow> string \<Rightarrow> string \<Rightarrow> authDB \<Rightarrow> (authUser \<times> string) dbres" where
  "SetUserSubscriptionTier clk env username tier db =
     (case NormalizeUsername username of
        Inl e \<Rightarrow> (Inl e, db)
      | Inr normalized \<Rightarrow>
          (case NormalizeSubscriptionTier tier of
             Inl e \<Rightarrow> (Inl e, db)
           | Inr tierNorm \<Rightarrow> SetUserSubscriptionTier_db env normalized tierNorm OperatorActor (clk 0) db))"

end
