(* ===== verification/Relay_Api.thy ===== *)
theory Relay_Api
  imports Relay_Http Auth_Service Conn_Tunnels Device_Ops Session_Registry
begin

text \<open>
  The relay's HTTP interface: the handlers of \<open>handler/api\<close> behind the middleware of \<open>handler/middleware\<close>, over
  the database and the three registries. A handler returns its response, the effects of the registries it called
  in order, and the relay's state.

  \<open>reqEnv\<close> is what one request meets: the readings of the clocks, the random bytes, the faults of the database, the
  store calls of other requests between its own, and which sends succeed. A service that may be missing is an
  option, \<open>None\<close> for \<open>nil\<close>; the router always has its registries and throttles.
\<close>

section \<open>State and environment\<close>

record relay =
  rl_db :: authDB
  rl_conn :: connRegistry
  rl_sess :: sessRegistry
  rl_dev :: devRegistry
  rl_throttle :: RegisterThrottle
  rl_pairThrottle :: RegisterThrottle

record reqEnv =
  rq_cy :: authCrypto
  rq_rnd :: random
  rq_buffers :: "nat \<Rightarrow> byte list list"
  rq_clk :: clock
  rq_regClk :: clock
  rq_throttleClk :: clock
  rq_pg :: pgEnv
  rq_pg2 :: pgEnv
  rq_others :: "dbOp list"
  rq_ok :: "jsonPeer \<Rightarrow> ConnectivityFrame \<Rightarrow> bool"

datatype reffect = RSess seffect | RDev deffect | RConn ceffect

section \<open>Bodies (handler/types)\<close>

record RegisterRequest =
  rr_InviteCode :: string
  rr_Username :: string
  rr_Password :: string

record LoginRequest =
  lq_Username :: string
  lq_Password :: string
  lq_ClientFingerprint :: string
  lq_DeviceFingerprint :: string

record RefreshRequest =
  fq_RefreshToken :: string
  fq_ClientFingerprint :: string
  fq_DeviceFingerprint :: string

record ChangePasswordRequest =
  cq_CurrentPassword :: string
  cq_NewPassword :: string

record AppSessionResponse =
  ap_AccessToken :: string
  ap_RefreshToken :: string
  ap_ExpiresIn :: int
  ap_TokenType :: string
  ap_AccountID :: string

record AgentTokenResponse =
  tr_ID :: string
  tr_Name :: string
  tr_CreatedAt :: int
  tr_LastUsedAt :: "int option"
  tr_RevokedAt :: "int option"

record OperatorInviteCodeListEntry =
  ie_Code :: string
  ie_CreatedBy :: string
  ie_CreatedAt :: int
  ie_ExpiresAt :: int
  ie_Expired :: bool
  ie_Available :: bool
  ie_Disabled :: bool
  ie_DisabledAt :: "int option"
  ie_DisabledBy :: string
  ie_Consumed :: bool
  ie_ConsumedAt :: "int option"
  ie_ConsumedByUserID :: "int option"
  ie_ConsumedByUsername :: string

record ComputerInfo =
  ci_ComputerID :: string
  ci_DisplayName :: string
  ci_PlatformFamily :: string
  ci_PlatformID :: string
  ci_LaunchHealth :: string

record DeviceLaunchRequest =
  dq_Command :: string
  dq_CWD :: string
  dq_Label :: string

datatype respBody =
    RegisteredBody int string
  | SessionBody AppSessionResponse
  | PolicyBody string string
  | TokenListBody "AgentTokenResponse list"
  | CreatedTokenBody AgentTokenResponse string
  | InviteCodesBody "string list"
  | InviteListBody "OperatorInviteCodeListEntry list"
  | TierBody string string string
  | ComputersBody "ComputerInfo list"
  | LaunchBody LaunchResult
  | StatusBody string

type_synonym response = "respBody httpResponse"
type_synonym handled = "response \<times> reffect list \<times> relay"

section \<open>Errors (api/errors.go)\<close>

definition WriteOperatorError :: "authError \<Rightarrow> response" where
  "WriteOperatorError err =
     (if err \<in> {ErrInvalidOperatorRequest, ErrInvalidInviteCode, ErrInvalidUsername, ErrInvalidSubscriptionTier}
      then WriteJSONError 400 ''invalid_request''
      else if err = ErrInviteCodeNotFound then WriteJSONError 404 ''invite_code_not_found''
      else if err = ErrInviteCodeDisabled then WriteJSONError 409 ''invite_code_disabled''
      else if err = ErrInviteCodeConsumed then WriteJSONError 409 ''invite_code_consumed''
      else if err = ErrInviteCodeExpired then WriteJSONError 409 ''invite_code_expired''
      else if err = ErrUserNotFound then WriteJSONError 404 ''user_not_found''
      else WriteJSONError 500 ''internal_error'')"

definition registerFailureDetailsFromError :: "authError \<Rightarrow> string option" where
  "registerFailureDetailsFromError err =
     (if err = ErrUsernameTaken then Some ''username_taken''
      else if err = ErrInvalidPassword then Some ''password_too_short''
      else if err = ErrInvalidInviteCode then Some ''invalid_access_code''
      else if err = ErrInviteCodeNotFound then Some ''invite_code_not_found''
      else if err = ErrInviteCodeExpired then Some ''invite_code_expired''
      else if err = ErrInviteCodeDisabled then Some ''invite_code_disabled''
      else if err = ErrInviteCodeConsumed then Some ''invite_code_consumed''
      else if err = ErrInvalidUsername then Some ''invalid_username''
      else None)"

definition isRefreshFailure :: "authError \<Rightarrow> bool" where
  "isRefreshFailure err \<longleftrightarrow>
     err \<in> {ErrAppSessionNotFound, ErrAppSessionExpired, ErrAppSessionRevoked, ErrAppSessionDeviceMismatch}"

definition newAppSessionResponse :: "IssuedAppSession \<Rightarrow> AppSessionResponse" where
  "newAppSessionResponse issued =
     (let expiresIn = (if is_ExpiresIn issued < 0 then 0 else is_ExpiresIn issued)
      in \<lparr>ap_AccessToken = is_AccessToken issued, ap_RefreshToken = is_RefreshToken issued,
          ap_ExpiresIn = expiresIn div second, ap_TokenType = ''Bearer'',
          ap_AccountID = itoa (u_ID (is_User issued))\<rparr>)"

definition unixTime :: "gotime option \<Rightarrow> int option" where
  "unixTime t = map_option time_Unix t"

definition newAgentTokenResponse :: "AgentTokenRecord \<Rightarrow> AgentTokenResponse" where
  "newAgentTokenResponse rec =
     \<lparr>tr_ID = at_ID rec, tr_Name = at_Name rec, tr_CreatedAt = time_Unix (at_CreatedAt rec),
      tr_LastUsedAt = unixTime (at_LastUsedAt rec), tr_RevokedAt = unixTime (at_RevokedAt rec)\<rparr>"

section \<open>Middleware\<close>

definition unauthorized :: response where
  "unauthorized = WriteJSONError 401 ''unauthorized''"

definition unavailable :: response where
  "unavailable = WriteJSONError 503 ''service_unavailable''"

definition AppAuth ::
    "AppAuthService option \<Rightarrow> reqEnv \<Rightarrow> httpRequest \<Rightarrow> (AuthenticatedApp \<Rightarrow> relay \<Rightarrow> handled) \<Rightarrow> relay \<Rightarrow> handled" where
  "AppAuth appAuth e req nxt st =
     (case appAuth of
        None \<Rightarrow> (unavailable, [], st)
      | Some s \<Rightarrow>
          (case BearerTokenFromRequest req of
             None \<Rightarrow> (unauthorized, [], st)
           | Some token \<Rightarrow>
               let st' = st\<lparr>rl_db := runOps (rq_others e) (rl_db st)\<rparr>
               in case AuthenticateAccessToken (rq_cy e) s (rq_clk e) (rq_pg e) (rq_pg2 e) (rq_others e) token (rl_db st) of
                   Inl _ \<Rightarrow> (unauthorized, [], st')
                 | Inr authenticated \<Rightarrow> nxt authenticated st'))"

definition AgentAuth ::
    "SecretDigester option \<Rightarrow> reqEnv \<Rightarrow> httpRequest \<Rightarrow> (AuthenticatedAgentToken \<Rightarrow> relay \<Rightarrow> handled) \<Rightarrow> relay \<Rightarrow> handled" where
  "AgentAuth agentTokens e req nxt st =
     (case agentTokens of
        None \<Rightarrow> (unavailable, [], st)
      | Some d \<Rightarrow>
          (case BearerTokenFromRequest req of
             None \<Rightarrow> (unauthorized, [], st)
           | Some token \<Rightarrow>
               (case Authenticate_token (rq_cy e) d (rq_clk e) (rq_pg e) (rq_pg2 e) (rq_others e) token (rl_db st) of
                  (Inl _, db) \<Rightarrow> (unauthorized, [], st\<lparr>rl_db := db\<rparr>)
                | (Inr authenticated, db) \<Rightarrow> nxt authenticated (st\<lparr>rl_db := db\<rparr>))))"

definition LocalOnly :: "httpRequest \<Rightarrow> (relay \<Rightarrow> handled) \<Rightarrow> relay \<Rightarrow> handled" where
  "LocalOnly req nxt st =
     (if \<not> IsLoopbackRequest req \<or> HasForwardedProxyHeaders req
      then (WriteJSONError 403 ''forbidden'', [], st) else nxt st)"

definition OperatorAuth :: "string \<Rightarrow> httpRequest \<Rightarrow> (relay \<Rightarrow> handled) \<Rightarrow> relay \<Rightarrow> handled" where
  "OperatorAuth configuredToken req nxt st =
     (let operatorToken = TrimSpace configuredToken
      in if operatorToken = [] then (unavailable, [], st)
         else if \<not> IsLoopbackRequest req \<or> HasForwardedProxyHeaders req
         then (WriteJSONError 403 ''forbidden'', [], st)
         else if \<not> StaticBearerAuth req operatorToken then (unauthorized, [], st)
         else nxt st)"

section \<open>Accounts and sessions (api/auth.go)\<close>

definition Register_http ::
    "AppAuthService option \<Rightarrow> reqEnv \<Rightarrow> httpRequest \<Rightarrow> RegisterRequest option \<Rightarrow> relay \<Rightarrow> handled" where
  "Register_http appAuth e req body st =
     (case appAuth of
        None \<Rightarrow> (unavailable, [], st)
      | Some s \<Rightarrow>
          let remoteIP = RequestRemoteIP req;
              ((allowed, retryAfter), t1) = Allow (rq_throttleClk e 0) remoteIP (rl_throttle st);
              failed = RecordFailure (rq_throttleClk e 1) remoteIP t1
          in if \<not> allowed
             then ((WriteJSONError 429 ''rate_limited'')\<lparr>hp_retryAfter := Some (formatRetryAfter retryAfter)\<rparr>, [],
                   st\<lparr>rl_throttle := t1\<rparr>)
             else case body of
                 None \<Rightarrow> (WriteJSONError 400 ''invalid_request'', [], st\<lparr>rl_throttle := failed\<rparr>)
               | Some q \<Rightarrow>
                   (case Register (rq_cy e) s (rq_rnd e) (rq_clk e) (rq_pg e) (rr_Username q) (rr_Password q)
                           (rr_InviteCode q) (rl_db st) of
                      (Inl err, db) \<Rightarrow>
                        (case registerFailureDetailsFromError err of
                           Some reason \<Rightarrow>
                             (WriteJSONError 400 reason, [], st\<lparr>rl_db := db, rl_throttle := failed\<rparr>)
                         | None \<Rightarrow>
                             (WriteJSONError 500 ''internal_error'', [], st\<lparr>rl_db := db, rl_throttle := t1\<rparr>))
                    | (Inr user, db) \<Rightarrow>
                        (WriteJSON 201 (Some (RegisteredBody (u_ID user) (u_UsernameNorm user))), [],
                         st\<lparr>rl_db := db, rl_throttle := Reset remoteIP t1\<rparr>)))"

definition authRequestFingerprint :: "string \<Rightarrow> string \<Rightarrow> string" where
  "authRequestFingerprint clientFingerprint legacyDeviceFingerprint =
     (if clientFingerprint \<noteq> [] then clientFingerprint else legacyDeviceFingerprint)"

definition Login_http :: "AppAuthService option \<Rightarrow> reqEnv \<Rightarrow> LoginRequest option \<Rightarrow> relay \<Rightarrow> handled" where
  "Login_http appAuth e body st =
     (case appAuth of
        None \<Rightarrow> (unavailable, [], st)
      | Some s \<Rightarrow>
          (case body of
             None \<Rightarrow> (WriteJSONError 400 ''invalid_request'', [], st)
           | Some q \<Rightarrow>
               (case LoginWithDeviceFingerprint (rq_cy e) s (rq_rnd e) (rq_clk e) (rq_pg e) (rq_pg2 e) (rq_others e)
                       (lq_Username q) (lq_Password q)
                       (authRequestFingerprint (lq_ClientFingerprint q) (lq_DeviceFingerprint q)) (rl_db st) of
                  (Inl err, db) \<Rightarrow>
                    (if err = ErrInvalidCredentials then WriteJSONError 401 ''invalid_credentials''
                     else if err = ErrInvalidDeviceFingerprint then WriteJSONError 400 ''invalid_client_fingerprint''
                     else WriteJSONError 500 ''internal_error'', [], st\<lparr>rl_db := db\<rparr>)
                | (Inr issued, db) \<Rightarrow>
                    (WriteJSON 200 (Some (SessionBody (newAppSessionResponse issued))), [], st\<lparr>rl_db := db\<rparr>))))"

definition Refresh_http :: "AppAuthService option \<Rightarrow> reqEnv \<Rightarrow> RefreshRequest option \<Rightarrow> relay \<Rightarrow> handled" where
  "Refresh_http appAuth e body st =
     (case appAuth of
        None \<Rightarrow> (unavailable, [], st)
      | Some s \<Rightarrow>
          (case body of
             None \<Rightarrow> (WriteJSONError 400 ''invalid_request'', [], st)
           | Some q \<Rightarrow>
               (case RefreshWithDeviceFingerprint (rq_cy e) s (rq_rnd e) (rq_clk e) (rq_pg e) (rq_pg2 e) (rq_others e)
                       (fq_RefreshToken q)
                       (authRequestFingerprint (fq_ClientFingerprint q) (fq_DeviceFingerprint q)) (rl_db st) of
                  (Inl err, db) \<Rightarrow>
                    (if err = ErrInvalidDeviceFingerprint then WriteJSONError 400 ''invalid_client_fingerprint''
                     else if isRefreshFailure err then WriteJSONError 401 ''invalid_session''
                     else WriteJSONError 500 ''internal_error'', [], st\<lparr>rl_db := db\<rparr>)
                | (Inr issued, db) \<Rightarrow>
                    (WriteJSON 200 (Some (SessionBody (newAppSessionResponse issued))), [], st\<lparr>rl_db := db\<rparr>))))"

definition AccountPolicy :: "AuthenticatedApp \<Rightarrow> relay \<Rightarrow> handled" where
  "AccountPolicy app st =
     (case NormalizeSubscriptionTier (u_SubscriptionTier (aa_User app)) of
        Inl _ \<Rightarrow> (WriteJSONError 500 ''internal_error'', [], st)
      | Inr tier \<Rightarrow> (WriteJSON 200 (Some (PolicyBody (itoa (u_ID (aa_User app))) tier)), [], st))"

definition Logout_http :: "AppAuthService option \<Rightarrow> reqEnv \<Rightarrow> AuthenticatedApp \<Rightarrow> relay \<Rightarrow> handled" where
  "Logout_http appAuth e app st =
     (case appAuth of
        None \<Rightarrow> (unavailable, [], st)
      | Some _ \<Rightarrow>
          (case Logout (rq_clk e) (rq_pg e) app (rl_db st) of
             (Inl err, db) \<Rightarrow>
               (if isRefreshFailure err then WriteJSONError 401 ''invalid_session''
                else WriteJSONError 500 ''internal_error'', [], st\<lparr>rl_db := db\<rparr>)
           | (Inr _, db) \<Rightarrow>
               let (_, es, conn) = DisconnectAppSession (rq_ok e) (as_ID (aa_Session app)) (rl_conn st)
               in (WriteJSON 200 None, map RConn es, st\<lparr>rl_db := db, rl_conn := conn\<rparr>)))"

definition ChangePassword_http ::
    "AppAuthService \<Rightarrow> reqEnv \<Rightarrow> ChangePasswordRequest option \<Rightarrow> AuthenticatedApp \<Rightarrow> relay \<Rightarrow> handled" where
  "ChangePassword_http s e body app st =
     (case body of
        None \<Rightarrow> (WriteJSONError 400 ''invalid_request'', [], st)
      | Some q \<Rightarrow>
          (case ChangePassword (rq_cy e) s (rq_rnd e) (rq_clk e) (rq_pg e) app (cq_CurrentPassword q)
                  (cq_NewPassword q) (rl_db st) of
             (Inl err, db) \<Rightarrow>
               (if err = ErrInvalidCredentials then WriteJSONError 401 ''invalid_credentials''
                else if err = ErrInvalidPassword then WriteJSONError 400 ''password_too_short''
                else WriteJSONError 500 ''internal_error'', [], st\<lparr>rl_db := db\<rparr>)
           | (Inr _, db) \<Rightarrow>
               let (_, es, conn) = DisconnectUser (rq_ok e) (rq_regClk e) (u_ID (aa_User app)) (rl_conn st)
               in (WriteJSON 200 None, map RConn es, st\<lparr>rl_db := db, rl_conn := conn\<rparr>)))"

section \<open>Agent tokens (api/agent_tokens.go)\<close>

definition ListAgentTokens_http :: "SecretDigester option \<Rightarrow> reqEnv \<Rightarrow> AuthenticatedApp \<Rightarrow> relay \<Rightarrow> handled" where
  "ListAgentTokens_http agentTokens e app st =
     (case agentTokens of
        None \<Rightarrow> (unavailable, [], st)
      | Some _ \<Rightarrow>
          (case List_tokens (rq_pg e) (u_ID (aa_User app)) (rl_db st) of
             Inl _ \<Rightarrow> (WriteJSONError 500 ''internal_error'', [], st)
           | Inr tokens \<Rightarrow> (WriteJSON 200 (Some (TokenListBody (map newAgentTokenResponse tokens))), [], st)))"

definition CreateAgentToken_http ::
    "SecretDigester option \<Rightarrow> reqEnv \<Rightarrow> string option \<Rightarrow> AuthenticatedApp \<Rightarrow> relay \<Rightarrow> handled" where
  "CreateAgentToken_http agentTokens e body app st =
     (case agentTokens of
        None \<Rightarrow> (unavailable, [], st)
      | Some d \<Rightarrow>
          (case body of
             None \<Rightarrow> (WriteJSONError 400 ''invalid_request'', [], st)
           | Some name \<Rightarrow>
               (case Create_token (rq_cy e) d (rq_rnd e) (rq_clk e) (rq_pg e) (u_ID (aa_User app)) name (rl_db st) of
                  (Inl err, db) \<Rightarrow>
                    (if err = ErrInvalidAgentTokenName then WriteJSONError 400 ''invalid_request''
                     else WriteJSONError 500 ''internal_error'', [], st\<lparr>rl_db := db\<rparr>)
                | (Inr created, db) \<Rightarrow>
                    (WriteJSON 201 (Some (CreatedTokenBody (newAgentTokenResponse (ct_Record created))
                       (ct_Plaintext created))), [], st\<lparr>rl_db := db\<rparr>))))"

definition RevokeAgentToken_http ::
    "SecretDigester option \<Rightarrow> reqEnv \<Rightarrow> string \<Rightarrow> AuthenticatedApp \<Rightarrow> relay \<Rightarrow> handled" where
  "RevokeAgentToken_http agentTokens e tokenID app st =
     (case agentTokens of
        None \<Rightarrow> (unavailable, [], st)
      | Some _ \<Rightarrow>
          (case Revoke_token (rq_clk e) (rq_pg e) (u_ID (aa_User app)) tokenID (u_UsernameNorm (aa_User app)) (rl_db st) of
             (Inl err, db) \<Rightarrow>
               (if err = ErrAgentTokenNotFound then WriteJSONError 404 ''agent_token_not_found''
                else WriteJSONError 500 ''internal_error'', [], st\<lparr>rl_db := db\<rparr>)
           | (Inr _, db) \<Rightarrow>
               let (_, ses, sess) = DisconnectAgentTokenSessions tokenID (rl_sess st);
                   (_, des, dev) = DisconnectAgentTokenDevices tokenID (rl_dev st);
                   (_, ces, conn) = DisconnectAgentToken (rq_ok e) tokenID (rl_conn st)
               in (WriteJSON 200 None, map RSess ses @ map RDev des @ map RConn ces,
                   st\<lparr>rl_db := db, rl_sess := sess, rl_dev := dev, rl_conn := conn\<rparr>)))"

section \<open>The operator (api/operator.go)\<close>

text \<open>\<open>svc\<close> tells whether the operator service exists.\<close>

definition CreateInvites :: "bool \<Rightarrow> reqEnv \<Rightarrow> (int \<times> int) option \<Rightarrow> relay \<Rightarrow> handled" where
  "CreateInvites svc e body st =
     (if \<not> svc then (unavailable, [], st)
      else case body of
          None \<Rightarrow> (WriteJSONError 400 ''invalid_request'', [], st)
        | Some (count, expiresInDays) \<Rightarrow>
            (case CreateInviteCodes (rq_clk e) (rq_buffers e) (rq_pg e) count expiresInDays (rl_db st) of
               (Inl err, db) \<Rightarrow> (WriteOperatorError err, [], st\<lparr>rl_db := db\<rparr>)
             | (Inr cs, db) \<Rightarrow> (WriteJSON 201 (Some (InviteCodesBody cs)), [], st\<lparr>rl_db := db\<rparr>)))"

definition inviteListEntry :: "gotime \<Rightarrow> InviteCodeRecord \<Rightarrow> OperatorInviteCodeListEntry" where
  "inviteListEntry now invite =
     (let expired = (\<not> now < ic_ExpiresAt invite);
          disabled = (ic_DisabledAt invite \<noteq> None);
          consumed = (ic_ConsumedAt invite \<noteq> None)
      in \<lparr>ie_Code = ic_Code invite, ie_CreatedBy = ic_CreatedBy invite,
          ie_CreatedAt = time_Unix (ic_CreatedAt invite), ie_ExpiresAt = time_Unix (ic_ExpiresAt invite),
          ie_Expired = expired, ie_Available = (\<not> disabled \<and> \<not> consumed \<and> \<not> expired),
          ie_Disabled = disabled, ie_DisabledAt = unixTime (ic_DisabledAt invite),
          ie_DisabledBy = ic_DisabledBy invite, ie_Consumed = consumed,
          ie_ConsumedAt = unixTime (ic_ConsumedAt invite), ie_ConsumedByUserID = ic_ConsumedByUserID invite,
          ie_ConsumedByUsername = ic_ConsumedByUsername invite\<rparr>)"

definition ListInvites :: "bool \<Rightarrow> reqEnv \<Rightarrow> relay \<Rightarrow> handled" where
  "ListInvites svc e st =
     (if \<not> svc then (unavailable, [], st)
      else case ListInviteCodes (rq_pg e) (rl_db st) of
          Inl err \<Rightarrow> (WriteOperatorError err, [], st)
        | Inr invites \<Rightarrow> (WriteJSON 200 (Some (InviteListBody (map (inviteListEntry (rq_clk e 0)) invites))), [], st))"

definition DisableInvite :: "bool \<Rightarrow> reqEnv \<Rightarrow> string option \<Rightarrow> relay \<Rightarrow> handled" where
  "DisableInvite svc e body st =
     (if \<not> svc then (unavailable, [], st)
      else case body of
          None \<Rightarrow> (WriteJSONError 400 ''invalid_request'', [], st)
        | Some code \<Rightarrow>
            (case DisableInviteCode (rq_clk e) (rq_pg e) code (rl_db st) of
               (Inl err, db) \<Rightarrow> (WriteOperatorError err, [], st\<lparr>rl_db := db\<rparr>)
             | (Inr _, db) \<Rightarrow> (WriteJSON 200 None, [], st\<lparr>rl_db := db\<rparr>)))"

definition DeleteUser_http :: "bool \<Rightarrow> reqEnv \<Rightarrow> string option \<Rightarrow> relay \<Rightarrow> handled" where
  "DeleteUser_http svc e body st =
     (if \<not> svc then (unavailable, [], st)
      else case body of
          None \<Rightarrow> (WriteJSONError 400 ''invalid_request'', [], st)
        | Some username \<Rightarrow>
            (case DeleteUser (rq_clk e) (rq_pg e) username (rl_db st) of
               (Inl err, db) \<Rightarrow> (WriteOperatorError err, [], st\<lparr>rl_db := db\<rparr>)
             | (Inr result, db) \<Rightarrow>
                 let (_, ses, sess) = DisconnectUserSessions (du_UserID result) (rl_sess st);
                     (_, ces, conn) = DisconnectUser (rq_ok e) (rq_regClk e) (du_UserID result) (rl_conn st)
                 in (WriteJSON 200 None, map RSess ses @ map RConn ces,
                     st\<lparr>rl_db := db, rl_sess := sess, rl_conn := conn\<rparr>)))"

definition SetUserTier :: "bool \<Rightarrow> reqEnv \<Rightarrow> (string \<times> string) option \<Rightarrow> relay \<Rightarrow> handled" where
  "SetUserTier svc e body st =
     (if \<not> svc then (unavailable, [], st)
      else case body of
          None \<Rightarrow> (WriteJSONError 400 ''invalid_request'', [], st)
        | Some (username, newTier) \<Rightarrow>
            (case SetUserSubscriptionTier (rq_clk e) (rq_pg e) username newTier (rl_db st) of
               (Inl err, db) \<Rightarrow> (WriteOperatorError err, [], st\<lparr>rl_db := db\<rparr>)
             | (Inr (user, previousTier), db) \<Rightarrow>
                 let tier = (if u_SubscriptionTier user = [] then ''free'' else u_SubscriptionTier user)
                 in (WriteJSON 200 (Some (TierBody (u_UsernameNorm user) previousTier tier)), [], st\<lparr>rl_db := db\<rparr>)))"

section \<open>Computers (api/devices.go)\<close>

definition computerInfo :: "DeviceInfo \<Rightarrow> ComputerInfo" where
  "computerInfo device =
     \<lparr>ci_ComputerID = dv_DeviceID device, ci_DisplayName = dv_DisplayName device,
      ci_PlatformFamily = dv_PlatformFamily device, ci_PlatformID = dv_PlatformID device,
      ci_LaunchHealth = dv_LaunchHealth device\<rparr>"

definition ListComputers :: "AuthenticatedApp \<Rightarrow> relay \<Rightarrow> handled" where
  "ListComputers app st =
     (WriteJSON 200 (Some (ComputersBody (map computerInfo (ListForUser (u_ID (aa_User app)) (rl_dev st))))), [], st)"

fun pathParam :: "(string \<Rightarrow> string) \<Rightarrow> string list \<Rightarrow> string" where
  "pathParam param [] = []"
| "pathParam param (key # keys) =
     (let value = TrimSpace (param key) in if value \<noteq> [] then value else pathParam param keys)"

text \<open>
  \<open>LaunchDevice\<close> waits for the device; \<open>wakes\<close> is what the registry goes through meanwhile (\<open>Device_Ops\<close>). No
  response means that it still waits.
\<close>

definition LaunchDevice ::
    "reqEnv \<Rightarrow> (devRegistry \<Rightarrow> devRegistry waiting) \<Rightarrow> (string \<Rightarrow> string) \<Rightarrow> DeviceLaunchRequest option \<Rightarrow>
     AuthenticatedApp \<Rightarrow> relay \<Rightarrow> response option \<times> reffect list \<times> relay" where
  "LaunchDevice e wakes param body app st =
     (case body of
        None \<Rightarrow> (Some (WriteJSONError 400 ''invalid_request''), [], st)
      | Some q \<Rightarrow>
          let command = TrimSpace (dq_Command q); cwd = TrimSpace (dq_CWD q)
          in if command = [] \<or> cwd = [] then (Some (WriteJSONError 400 ''invalid_request''), [], st)
             else
               let (result, es, dev) = Launch (rq_regClk e) wakes (pathParam param [''deviceID'', ''computerID''])
                     (u_ID (aa_User app)) command cwd (TrimSpace (dq_Label q)) (rl_dev st)
               in (map_option (\<lambda>r. WriteJSON 200 (Some (LaunchBody r))) result, map RDev es, st\<lparr>rl_dev := dev\<rparr>))"

section \<open>Pairing (api/pairing.go)\<close>

definition appOwnerOf :: "AuthenticatedApp \<Rightarrow> AppOwner" where
  "appOwnerOf app =
     \<lparr>ao_UserID = u_ID (aa_User app), ao_AppSessionID = as_ID (aa_Session app),
      ao_DeviceFingerprint = as_DeviceFingerprint (aa_Session app),
      ao_SessionCreatedAt = as_CreatedAt (aa_Session app)\<rparr>"

definition SubmitPairingResponse ::
    "reqEnv \<Rightarrow> httpRequest \<Rightarrow> ConnectivityPairingResponse option \<Rightarrow> AuthenticatedApp \<Rightarrow> relay \<Rightarrow> handled" where
  "SubmitPairingResponse e req body app st =
     (let remoteIP = RequestRemoteIP req;
          ((allowed, retryAfter), t1) = Allow (rq_throttleClk e 0) remoteIP (rl_pairThrottle st);
          failed = st\<lparr>rl_pairThrottle := RecordFailure (rq_throttleClk e 1) remoteIP t1\<rparr>
      in if \<not> allowed
         then ((WriteJSONError 429 ''rate_limited'')\<lparr>hp_retryAfter := Some (formatRetryAfter retryAfter)\<rparr>, [],
               st\<lparr>rl_pairThrottle := t1\<rparr>)
         else case body of
             None \<Rightarrow> (WriteJSONError 400 ''invalid_request'', [], failed)
           | Some pairing \<Rightarrow>
               if (case NormalizeDeviceFingerprint (pr_AndroidFingerprint pairing) of
                     Inl _ \<Rightarrow> True
                   | Inr fingerprint \<Rightarrow> fingerprint = [] \<or> as_DeviceFingerprint (aa_Session app) = [] \<or>
                       fingerprint \<noteq> as_DeviceFingerprint (aa_Session app))
               then (WriteJSONError 403 ''client_fingerprint_mismatch'', [], failed)
               else if pr_AccountID pairing \<noteq> itoa (u_ID (aa_User app))
               then (WriteJSONError 403 ''pairing_account_mismatch'', [], failed)
               else
                 let (err, es, conn) = ForwardPairingResponseFromApp (rq_ok e) (rq_regClk e) (appOwnerOf app) None
                       (pr_CorrelationID pairing) pairing (rl_conn st)
                 in case err of
                     Some _ \<Rightarrow> (WriteJSONError 404 ''pairing_correlation_not_found'', map RConn es,
                               failed\<lparr>rl_conn := conn\<rparr>)
                   | None \<Rightarrow> (WriteJSON 200 (Some (StatusBody ''forwarded'')), map RConn es,
                              st\<lparr>rl_conn := conn, rl_pairThrottle := Reset remoteIP t1\<rparr>))"

section \<open>The router (handler/new.go)\<close>

text \<open>The services the router was built with; the operator's token is read from the configuration at each request.\<close>

record relayServer =
  rv_appAuth :: "AppAuthService option"
  rv_agentTokens :: "SecretDigester option"
  rv_operator :: bool
  rv_operatorToken :: string

datatype apiRequest =
    PostOperatorInvites "(int \<times> int) option"
  | PostOperatorInviteList
  | PostOperatorInviteDisable "string option"
  | PostOperatorDeleteUser "string option"
  | PostOperatorUserTier "(string \<times> string) option"
  | PostRegister "RegisterRequest option"
  | PostLogin "LoginRequest option"
  | PostRefresh "RefreshRequest option"
  | PostLogout
  | PostPasswordChange "ChangePasswordRequest option"
  | GetAccountPolicy
  | GetAgentTokens
  | PostAgentTokens "string option"
  | DeleteAgentToken string
  | GetComputers
  | PostPairingResponse "ConnectivityPairingResponse option"
  | GetHealthz

text \<open>\<open>a\<close> is the environment of the middleware, \<open>e\<close> that of the handler. The routes of
  websockets are in \<open>Relay_Ws\<close>; the one of \<open>LaunchDevice\<close>, which may wait, is not among the requests.\<close>

fun serveApi :: "relayServer \<Rightarrow> reqEnv \<Rightarrow> reqEnv \<Rightarrow> httpRequest \<Rightarrow> apiRequest \<Rightarrow> relay \<Rightarrow> handled" where
  "serveApi v a e req (PostOperatorInvites b) st =
     OperatorAuth (rv_operatorToken v) req (CreateInvites (rv_operator v) e b) st"
| "serveApi v a e req PostOperatorInviteList st =
     OperatorAuth (rv_operatorToken v) req (ListInvites (rv_operator v) e) st"
| "serveApi v a e req (PostOperatorInviteDisable b) st =
     OperatorAuth (rv_operatorToken v) req (DisableInvite (rv_operator v) e b) st"
| "serveApi v a e req (PostOperatorDeleteUser b) st =
     OperatorAuth (rv_operatorToken v) req (DeleteUser_http (rv_operator v) e b) st"
| "serveApi v a e req (PostOperatorUserTier b) st =
     OperatorAuth (rv_operatorToken v) req (SetUserTier (rv_operator v) e b) st"
| "serveApi v a e req (PostRegister b) st = Register_http (rv_appAuth v) e req b st"
| "serveApi v a e req (PostLogin b) st = Login_http (rv_appAuth v) e b st"
| "serveApi v a e req (PostRefresh b) st = Refresh_http (rv_appAuth v) e b st"
| "serveApi v a e req PostLogout st = AppAuth (rv_appAuth v) a req (Logout_http (rv_appAuth v) e) st"
| "serveApi v a e req (PostPasswordChange b) st =
     AppAuth (rv_appAuth v) a req (ChangePassword_http (the (rv_appAuth v)) e b) st"
| "serveApi v a e req GetAccountPolicy st = AppAuth (rv_appAuth v) a req AccountPolicy st"
| "serveApi v a e req GetAgentTokens st =
     AppAuth (rv_appAuth v) a req (ListAgentTokens_http (rv_agentTokens v) e) st"
| "serveApi v a e req (PostAgentTokens b) st =
     AppAuth (rv_appAuth v) a req (CreateAgentToken_http (rv_agentTokens v) e b) st"
| "serveApi v a e req (DeleteAgentToken tokenID) st =
     AppAuth (rv_appAuth v) a req (RevokeAgentToken_http (rv_agentTokens v) e tokenID) st"
| "serveApi v a e req GetComputers st = AppAuth (rv_appAuth v) a req ListComputers st"
| "serveApi v a e req (PostPairingResponse b) st =
     AppAuth (rv_appAuth v) a req (SubmitPairingResponse e req b) st"
| "serveApi v a e req GetHealthz st = (WriteJSON 200 (Some (StatusBody ''ok'')), [], st)"

definition newRouter :: "authDB \<Rightarrow> relay" where
  "newRouter db = \<lparr>rl_db = db, rl_conn = NewRegistry, rl_sess = NewRegistry_sess, rl_dev = NewRegistry_dev,
     rl_throttle = NewRegisterThrottle 5 (10 * minute), rl_pairThrottle = NewRegisterThrottle 10 minute\<rparr>"

end
