(* ===== verification/Relay_Ws.thy ===== *)
theory Relay_Ws
  imports Relay_Api
begin

text \<open>
  The relay's websocket handlers: agents (\<open>handler/agent/ws.go\<close>), devices (\<open>handler/device/ws.go\<close>), daemons, apps and
  tunnels (\<open>handler/connectivity\<close>). A handler is written as the sections of its goroutine: the check of the first
  frame, the registration, one section for each later frame, and what its deferred calls do when the connection ends.
  Frames are decoded messages. Logging, deadlines, pings and byte counters are not modelled. A connection's peer is
  its number.
\<close>

section \<open>Agents (agent/ws.go)\<close>

definition agentAuthStillValid ::
    "reqEnv \<Rightarrow> SecretDigester option \<Rightarrow> string \<Rightarrow> AuthenticatedAgentToken \<Rightarrow> authDB \<Rightarrow> bool \<times> authDB" where
  "agentAuthStillValid e agentTokens token authenticated db =
     (case agentTokens of
        None \<Rightarrow> (False, db)
      | Some d \<Rightarrow>
          (case Authenticate_token (rq_cy e) d (rq_clk e) (rq_pg e) (rq_pg2 e) (rq_others e) token db of
             (Inl _, db') \<Rightarrow> (False, db')
           | (Inr current, db') \<Rightarrow>
               (u_ID (ta_User current) = u_ID (ta_User authenticated) \<and>
                at_ID (ta_Token current) = at_ID (ta_Token authenticated), db')))"

definition agentHello :: "AgentFrame \<Rightarrow> SessionInfo option" where
  "agentHello register = (if af_Type register \<noteq> ''register'' then None else af_Session register)"

definition agentRegister ::
    "AuthenticatedAgentToken \<Rightarrow> SessionInfo \<Rightarrow> nat \<Rightarrow> sessRegistry \<Rightarrow> seffect list \<times> sessRegistry" where
  "agentRegister authenticated info peer r =
     RegisterOwned_sess (info\<lparr>si_LaunchSource := SessionLaunchSourceLocal\<rparr>)
       \<lparr>so_UserID = u_ID (ta_User authenticated), so_AgentTokenID = at_ID (ta_Token authenticated)\<rparr> (Some peer) r"

definition agentFrame ::
    "AuthenticatedAgentToken \<Rightarrow> SessionInfo \<Rightarrow> AgentFrame \<Rightarrow> relay \<Rightarrow> relay" where
  "agentFrame authenticated info frame st =
     (if af_Type frame \<noteq> ''launch_ready'' then st
      else case af_LaunchContext frame of
          None \<Rightarrow> st
        | Some launchContext \<Rightarrow>
            if lc_Source launchContext \<noteq> SessionLaunchSourceMobile then st
            else
              let requestID = TrimSpace (lc_RequestID launchContext)
              in if requestID = [] then st
                 else
                   let ((_, ok), dev) = CompleteLaunchIfOwner requestID
                         \<lparr>ow_UserID = u_ID (ta_User authenticated), ow_AgentTokenID = at_ID (ta_Token authenticated)\<rparr>
                         (si_SessionID info) (rl_dev st)
                   in if ok
                      then st\<lparr>rl_dev := dev, rl_sess := snd (SetLaunchSourceForUser (si_SessionID info)
                             (u_ID (ta_User authenticated)) SessionLaunchSourceMobile (rl_sess st))\<rparr>
                      else st\<lparr>rl_dev := dev\<rparr>)"

definition agentLeave :: "SessionInfo \<Rightarrow> nat \<Rightarrow> sessRegistry \<Rightarrow> seffect list \<times> sessRegistry" where
  "agentLeave info peer r = snd (DisconnectIfOwner_sess (si_SessionID info) (Some peer) r)"

section \<open>Devices (device/ws.go)\<close>

definition deviceOwnerOf :: "AuthenticatedAgentToken \<Rightarrow> DeviceOwner" where
  "deviceOwnerOf authenticated =
     \<lparr>ow_UserID = u_ID (ta_User authenticated), ow_AgentTokenID = at_ID (ta_Token authenticated)\<rparr>"

definition deviceHello :: "DeviceFrame \<Rightarrow> DeviceInfo option" where
  "deviceHello register =
     (if df_Type register \<noteq> ''register'' then None
      else case df_Device register of
          None \<Rightarrow> None
        | Some info \<Rightarrow> if TrimSpace (dv_DeviceID info) = [] then None else Some info)"

definition deviceReauth ::
    "reqEnv \<Rightarrow> SecretDigester \<Rightarrow> string \<Rightarrow> AuthenticatedAgentToken \<Rightarrow> authDB \<Rightarrow> bool \<times> authDB" where
  "deviceReauth e d token authenticated db =
     (case Authenticate_token (rq_cy e) d (rq_clk e) (rq_pg e) (rq_pg2 e) (rq_others e) token db of
        (Inl _, db') \<Rightarrow> (False, db')
      | (Inr reauthenticated, db') \<Rightarrow>
          (\<not> (u_ID (ta_User reauthenticated) \<noteq> u_ID (ta_User authenticated) \<or>
              at_ID (ta_Token reauthenticated) \<noteq> at_ID (ta_Token authenticated)), db'))"

definition deviceFrame ::
    "AuthenticatedAgentToken \<Rightarrow> DeviceInfo \<Rightarrow> nat \<Rightarrow> DeviceFrame \<Rightarrow> relay \<Rightarrow> relay" where
  "deviceFrame authenticated info peer frame st =
     (if df_Type frame = ''launch_result'' then
        (let ((completion, ok), dev) = ResolveLaunchIfOwner (dv_DeviceID info) (Some peer) (df_RequestID frame)
               (df_Status frame) (df_Reason frame) (df_WorkspaceSession frame) (rl_dev st);
             st1 = st\<lparr>rl_dev := dev\<rparr>
         in case completion of
             None \<Rightarrow> st1
           | Some c \<Rightarrow>
               if ok \<and> lm_SessionID c \<noteq> []
               then st1\<lparr>rl_sess := snd (SetLaunchSourceForUser (lm_SessionID c) (u_ID (ta_User authenticated))
                      SessionLaunchSourceMobile (rl_sess st1))\<rparr>
               else st1)
      else if df_Type frame = ''terminate_result'' then
        st\<lparr>rl_dev := snd (ResolveTerminateIfOwner (dv_DeviceID info) (Some peer) (df_RequestID frame)
             (df_Status frame) (df_Reason frame) (rl_dev st))\<rparr>
      else if df_Type frame = ''update'' then
        (case df_Device frame of
           None \<Rightarrow> st
         | Some device \<Rightarrow>
             let incomingID = TrimSpace (dv_DeviceID device)
             in if incomingID = [] \<or> incomingID \<noteq> dv_DeviceID info then st
                else st\<lparr>rl_dev := snd (UpdateIfOwner (dv_DeviceID info) (Some peer) device (rl_dev st))\<rparr>)
      else st)"

text \<open>The deferred calls: \<open>DisconnectIfOwner\<close> once a device was activated, then \<open>DisconnectPending\<close>.\<close>

definition deviceLeave :: "DeviceInfo option \<Rightarrow> nat \<Rightarrow> devRegistry \<Rightarrow> deffect list \<times> devRegistry" where
  "deviceLeave active peer r =
     (let (es, r1) = (case active of
            None \<Rightarrow> ([], r)
          | Some info \<Rightarrow> snd (DisconnectIfOwner_dev (dv_DeviceID info) (Some peer) r));
          (_, es', r2) = DisconnectPending (Some peer) r1
      in (es @ es', r2))"

section \<open>Daemons (connectivity/daemon_ws.go)\<close>

definition daemonOwnerOf :: "AuthenticatedAgentToken \<Rightarrow> DaemonOwner" where
  "daemonOwnerOf authenticated =
     \<lparr>do_UserID = u_ID (ta_User authenticated), do_AgentTokenID = at_ID (ta_Token authenticated)\<rparr>"

definition daemonHello :: "ConnectivityFrame \<Rightarrow> ConnectivityDaemonInfo option" where
  "daemonHello register =
     (if cf_Type register \<noteq> ''computer_register'' \<or> cf_ProtocolVersion register \<noteq> ConnectivityProtocolVersion then None
      else case cf_Daemon register of
          None \<Rightarrow> None
        | Some info \<Rightarrow>
            if TrimSpace (di_DeviceID info) = [] \<or> TrimSpace (di_DaemonFingerprint info) = [] then None else Some info)"

text \<open>\<open>valid\<close> is the answer of \<open>agentAuthStillValid\<close>; the result is the information the connection goes on with.\<close>

definition daemonRegister ::
    "reqEnv \<Rightarrow> AuthenticatedAgentToken \<Rightarrow> peer \<Rightarrow> ConnectivityFrame \<Rightarrow> bool \<Rightarrow> connRegistry
      \<Rightarrow> ConnectivityDaemonInfo option \<times> ceffect list \<times> connRegistry" where
  "daemonRegister e authenticated peer register valid r =
     (case daemonHello register of
        None \<Rightarrow> (None, [Send (DaemonPeer peer) (ConnectivityErrorFrame (cf_RequestID register) ''invalid_register'')], r)
      | Some info \<Rightarrow>
          let ((_, ok), es, r1) = RegisterDaemonIfValidWithDirectSessions (rq_ok e) (rq_regClk e)
                (daemonOwnerOf authenticated) info (cf_TrustedDevices register) (cf_DirectSessions register) peer
                (Some valid) r
          in (if ok then Some info else None, es, r1))"

text \<open>A frame of a registered daemon; \<open>valid\<close> is the answer of \<open>agentAuthStillValid\<close> before it, the result whether the
  connection goes on.\<close>

definition daemonFrame ::
    "reqEnv \<Rightarrow> AuthenticatedAgentToken \<Rightarrow> ConnectivityDaemonInfo \<Rightarrow> peer \<Rightarrow> bool \<Rightarrow> ConnectivityFrame \<Rightarrow> connRegistry
      \<Rightarrow> bool \<times> ceffect list \<times> connRegistry" where
  "daemonFrame e authenticated info peer valid frame r =
     (let owner = daemonOwnerOf authenticated;
          deviceID = di_DeviceID info;
          send = (\<lambda>f. Send (DaemonPeer peer) f);
          refuse = (\<lambda>reason. send (ConnectivityErrorFrame (cf_RequestID frame) reason));
          fp = cf_AndroidFingerprint frame
      in if \<not> valid then (False, [], r)
         else Pair True (
         if cf_Type frame = ''client_revoked'' then
           (if fp = [] then ([refuse ''invalid_client_fingerprint''], r)
            else snd (RevokeTrustedAndroid (rq_ok e) deviceID peer fp r))
         else if cf_Type frame = ''pair_completed'' then
           (if fp = [] then ([refuse ''invalid_client_fingerprint''], r)
            else snd (CompletePairing deviceID peer \<lparr>ta_Fingerprint = fp, ta_DisplayName = []\<rparr> r))
         else if cf_Type frame = ''pair_invitation_reserve'' then
           (if cf_RequestID frame = [] then ([refuse ''invalid_pairing_correlation''], r)
            else
              let (ok, r1) = ReservePairing (rq_regClk e) deviceID owner peer (cf_RequestID frame) (5 * minute) r
              in if \<not> ok then ([refuse ''invalid_pairing_correlation''], r1)
                 else ([send (ConnectivityPairInvitationReservedFrame (cf_RequestID frame)
                          (itoa (u_ID (ta_User authenticated))))], r1))
         else if cf_Type frame = ''rendezvous_hint'' then
           (let (err, es, r1) = ForwardRendezvousHintFromDaemon (rq_ok e) (rq_regClk e) owner deviceID peer
                  (cf_AttemptID frame) (cf_RequestID frame) fp (cf_PublicUDPAddr frame) (cf_PrivateUDPAddrs frame) r
            in (es @ (if err \<noteq> None then [refuse ''rendezvous_unavailable''] else []), r1))
         else if cf_Type frame = ''rendezvous_close'' then
           (let (ok, es, r1) = CloseRendezvousFromDaemon (rq_ok e) owner deviceID peer (cf_AttemptID frame) fp r
            in (es @ (if \<not> ok then [refuse ''rendezvous_unavailable''] else []), r1))
         else if cf_Type frame = ''direct_session_open'' then
           (let (ok, r1) = OpenDirectSessionFromDaemon (rq_regClk e) owner deviceID peer (cf_AttemptID frame) fp r
            in (if \<not> ok then [send (ConnectivityDirectSessionCloseFrame (cf_RequestID frame) (cf_AttemptID frame)
                    deviceID fp)] else [], r1))
         else if cf_Type frame = ''direct_session_close'' then
           (let (ok, r1) = CloseDirectSessionFromDaemon owner deviceID peer (cf_AttemptID frame) fp r
            in (if \<not> ok then [refuse ''direct_session_unavailable''] else [], r1))
         else ([refuse ''unsupported_event''], r)))"

definition daemonLeave ::
    "reqEnv \<Rightarrow> ConnectivityDaemonInfo \<Rightarrow> peer \<Rightarrow> connRegistry \<Rightarrow> ceffect list \<times> connRegistry" where
  "daemonLeave e info peer r = snd (DisconnectDaemon (rq_ok e) (di_DeviceID info) peer r)"

section \<open>Apps (connectivity/app_ws.go)\<close>

definition appAuthStillValid ::
    "reqEnv \<Rightarrow> AppAuthService option \<Rightarrow> httpRequest \<Rightarrow> AuthenticatedApp \<Rightarrow> authDB \<Rightarrow> bool" where
  "appAuthStillValid e appAuth req authenticated db =
     (case appAuth of
        None \<Rightarrow> False
      | Some s \<Rightarrow>
          (case BearerTokenFromRequest req of
             None \<Rightarrow> False
           | Some token \<Rightarrow>
               (case AuthenticateAccessToken (rq_cy e) s (rq_clk e) (rq_pg e) (rq_pg2 e) (rq_others e) token db of
                  Inl _ \<Rightarrow> False
                | Inr current \<Rightarrow>
                    u_ID (aa_User current) = u_ID (aa_User authenticated) \<and>
                    as_ID (aa_Session current) = as_ID (aa_Session authenticated) \<and>
                    as_DeviceFingerprint (aa_Session current) = as_DeviceFingerprint (aa_Session authenticated))))"

text \<open>The result is whether the connection goes on; \<open>valid\<close> is the answer of \<open>appAuthStillValid\<close>.\<close>

definition appRegister ::
    "reqEnv \<Rightarrow> AuthenticatedApp \<Rightarrow> peer \<Rightarrow> ConnectivityFrame \<Rightarrow> bool \<Rightarrow> connRegistry
      \<Rightarrow> bool \<times> ceffect list \<times> connRegistry" where
  "appRegister e app peer register valid r =
     (if cf_Type register \<noteq> ''app_register'' \<or> cf_ProtocolVersion register \<noteq> ConnectivityProtocolVersion
      then (False, [Send (AppPeer peer) (ConnectivityErrorFrame (cf_RequestID register) ''invalid_register'')], r)
      else
        let ((snapshot, ok), r1) = RegisterAppIfValid (rq_regClk e) (appOwnerOf app) peer (Some valid) r
        in if \<not> ok then (False, [], r1)
           else (True, [Send (AppPeer peer) (ConnectivityDaemonSnapshotFrame snapshot)], r1))"

definition appFrame ::
    "reqEnv \<Rightarrow> string option \<times> string option \<Rightarrow> AuthenticatedApp \<Rightarrow> peer \<Rightarrow> bool \<Rightarrow> ConnectivityFrame \<Rightarrow> connRegistry
      \<Rightarrow> bool \<times> ceffect list \<times> connRegistry" where
  "appFrame e draws app peer valid frame r =
     (let owner = appOwnerOf app;
          send = (\<lambda>f. Send (AppPeer peer) f);
          refuse = (\<lambda>reason. send (ConnectivityErrorFrame (cf_RequestID frame) reason));
          limited = send (ConnectivityErrorFrameWithRetryAfter (cf_RequestID frame) ''relay_rate_limited''
            (RelayTunnelRequestWindow div second))
      in if cf_Type frame = ''relay_tunnel_request'' then
           (if \<not> valid then (False, [], r)
            else
              let (res, es, r1) = RequestRelayTunnelFromAppWithDiagnostics (rq_ok e) (rq_regClk e) draws owner peer
                    (cf_DaemonID frame) (cf_AttemptID frame) (cf_RequestID frame) (cf_FallbackReason frame)
                    (cf_DirectSetupLatencyMS frame) (cf_RelaySetupLatencyMS frame) (30 * second) r
              in (True, es @ (case res of
                    Inl err \<Rightarrow> [if err = ErrRelayTunnelRateLimited then limited else refuse ''relay_tunnel_unavailable'']
                  | Inr ready \<Rightarrow> [send ready]), r1))
         else if cf_Type frame = ''rendezvous_open'' then
           (if \<not> valid then (False, [], r)
            else
              let (res, es, r1) = OpenRendezvousFromApp (rq_ok e) (rq_regClk e) owner peer (cf_DaemonID frame)
                    (cf_AttemptID frame) (cf_RequestID frame) (cf_PublicUDPAddr frame) (cf_PrivateUDPAddrs frame)
                    (30 * second) r
              in (True, es @ (case res of
                    Inl err \<Rightarrow> [if err = ErrRendezvousRateLimited then limited else refuse ''rendezvous_unavailable'']
                  | Inr _ \<Rightarrow> []), r1))
         else if cf_Type frame = ''rendezvous_close'' then
           (if \<not> valid then (False, [], r)
            else
              let (ok, es, r1) = CloseRendezvousFromApp (rq_ok e) owner peer (cf_DaemonID frame) (cf_AttemptID frame) r
              in (True, es @ (if \<not> ok then [refuse ''rendezvous_unavailable''] else []), r1))
         else (True, [refuse ''unsupported_event''], r))"

definition appLeave :: "reqEnv \<Rightarrow> peer \<Rightarrow> connRegistry \<Rightarrow> ceffect list \<times> connRegistry" where
  "appLeave e peer r = snd (DisconnectApp (rq_ok e) peer r)"

section \<open>Tunnels (connectivity/tunnel_ws.go)\<close>

text \<open>
  An endpoint is the pointer of its object with its redemption. The hub keeps the endpoint that waits under a tunnel
  key. \<open>join\<close> either takes the waiting partner, which gets the endpoint on its channel, or waits.
\<close>

record tunnelEndpoint =
  te_ptr :: nat
  te_redemption :: TunnelRedemption

record TunnelHub =
  hub_waiting :: "(string, tunnelEndpoint) gomap"

definition NewTunnelHub :: TunnelHub where
  "NewTunnelHub = \<lparr>hub_waiting = []\<rparr>"

definition endpointKey :: "tunnelEndpoint \<Rightarrow> string" where
  "endpointKey endpoint = tr_TunnelKey (te_redemption endpoint)"

definition hub_join :: "tunnelEndpoint \<Rightarrow> TunnelHub \<Rightarrow> tunnelEndpoint option \<times> TunnelHub" where
  "hub_join endpoint h =
     (let waits = (None, h\<lparr>hub_waiting := gm_put (endpointKey endpoint) endpoint (hub_waiting h)\<rparr>)
      in case gm_get (hub_waiting h) (endpointKey endpoint) of
          None \<Rightarrow> waits
        | Some partner \<Rightarrow>
            if tr_Actor (te_redemption partner) \<noteq> tr_Actor (te_redemption endpoint)
            then (Some partner, h\<lparr>hub_waiting := gm_del (endpointKey endpoint) (hub_waiting h)\<rparr>)
            else waits)"

definition hub_remove :: "tunnelEndpoint \<Rightarrow> TunnelHub \<Rightarrow> TunnelHub" where
  "hub_remove endpoint h =
     (case gm_get (hub_waiting h) (endpointKey endpoint) of
        None \<Rightarrow> h
      | Some current \<Rightarrow>
          if te_ptr current = te_ptr endpoint
          then h\<lparr>hub_waiting := gm_del (endpointKey endpoint) (hub_waiting h)\<rparr> else h)"

text \<open>
  The handler: redeeming the token of the request, registering the closer of the new endpoint, and the deferred calls
  in the order they run (\<open>CloseRelayTunnel\<close>, \<open>remove\<close>, the removal of the closer).
\<close>

definition tunnelEnter ::
    "reqEnv \<Rightarrow> httpRequest \<Rightarrow> nat \<Rightarrow> closer \<Rightarrow> connRegistry
      \<Rightarrow> (tunnelEndpoint \<times> (string \<times> int) option) option \<times> ceffect list \<times> connRegistry" where
  "tunnelEnter e req ptr close r =
     (let token = (case BearerTokenFromRequest req of None \<Rightarrow> [] | Some t \<Rightarrow> t)
      in case RedeemRelayTunnelToken (rq_regClk e) token r of
          (Inl _, es, r1) \<Rightarrow> (None, es, r1)
        | (Inr redemption, es, r1) \<Rightarrow>
            let (remover, es', r2) = AddTunnelCloser (tr_TunnelKey redemption) (Some close) r1
            in (Some (\<lparr>te_ptr = ptr, te_redemption = redemption\<rparr>, remover), es @ es', r2))"

definition tunnelActive :: "tunnelEndpoint \<Rightarrow> connRegistry \<Rightarrow> connRegistry" where
  "tunnelActive endpoint r = snd (MarkRelayTunnelActive (endpointKey endpoint) r)"

definition tunnelLeave ::
    "tunnelEndpoint \<Rightarrow> (string \<times> int) option \<Rightarrow> connRegistry \<Rightarrow> TunnelHub \<Rightarrow> ceffect list \<times> connRegistry \<times> TunnelHub" where
  "tunnelLeave endpoint remover r h =
     (let (_, es, r1) = CloseRelayTunnel (endpointKey endpoint) r
      in (es, (case remover of None \<Rightarrow> r1 | Some (key, cid) \<Rightarrow> removeTunnelCloser key cid r1), hub_remove endpoint h))"

text \<open>
  \<open>forwardTo\<close>: messages are copied to the partner until one cannot be read, is not binary or cannot be written;
  \<open>closed\<close> tells whether the partner is closed when the \<open>i\<close>-th message is written.
\<close>

datatype wsMessage = BinaryMessage "byte list" | TextMessage string | ReadError

fun forwardTo :: "(nat \<Rightarrow> bool) \<Rightarrow> nat \<Rightarrow> wsMessage list \<Rightarrow> byte list list" where
  "forwardTo closed i (BinaryMessage payload # rest) =
     (if closed i then [] else payload # forwardTo closed (Suc i) rest)"
| "forwardTo closed i _ = []"

end
