(* ===== verification/Auth_Runs.thy ===== *)
theory Auth_Runs
  imports Auth_Service
begin

text \<open>
  What later methods of the store can do to a row: a session keeps its owner, device and creation time, a revoked
  session or token is never changed again, a digest that no row has is only brought back by a method that stores
  it, and a consumed invite code stays consumed.
\<close>

section \<open>Rows over runs\<close>

text \<open>
  A row of a table over a run: \<open>evolves\<close> relates a row to what it can become, \<open>creates\<close> says which methods insert
  a row under a key.
\<close>

locale row_history =
  fixes row :: "authDB \<Rightarrow> 'k \<Rightarrow> 'v option" and evolves :: "'v \<Rightarrow> 'v \<Rightarrow> bool" and creates :: "'k \<Rightarrow> dbOp \<Rightarrow> bool"
  assumes evolves_refl: "evolves v v"
    and evolves_trans: "evolves u v \<Longrightarrow> evolves v w \<Longrightarrow> evolves u w"
    and row_step: "auth_inv db \<Longrightarrow> \<not> creates k op \<Longrightarrow> row (runOp op db) k = Some v \<Longrightarrow>
      \<exists>u. row db k = Some u \<and> evolves u v"
begin

lemma row_run:
  "auth_inv db \<Longrightarrow> \<forall>op \<in> set ops. \<not> creates k op \<Longrightarrow> row (runOps ops db) k = Some v \<Longrightarrow>
   \<exists>u. row db k = Some u \<and> evolves u v"
proof (induction ops arbitrary: db)
  case (Cons op ops)
  have "\<exists>w. row (runOp op db) k = Some w \<and> evolves w v"
    using Cons.prems by (intro Cons.IH) (simp_all add: runOp_inv)
  then obtain w where w: "row (runOp op db) k = Some w" "evolves w v" by blast
  then obtain u where "row db k = Some u" "evolves u w"
    using row_step [of db k op w] Cons.prems by auto
  then show ?case using w(2) evolves_trans by blast
qed (auto intro: evolves_refl)

text \<open>A row that can no longer change.\<close>

lemma frozen_run:
  assumes "auth_inv db" "\<forall>op \<in> set ops. \<not> creates k op" "row db k = Some u" "row (runOps ops db) k = Some v"
    "\<And>w. evolves u w \<Longrightarrow> w = u"
  shows "v = u"
  using row_run [OF assms(1,2,4)] assms(3,5) by auto

end

section \<open>Sessions\<close>

definition sessionEvolves :: "AppSession \<Rightarrow> AppSession \<Rightarrow> bool" where
  "sessionEvolves s s' \<longleftrightarrow> as_ID s' = as_ID s \<and> as_UserID s' = as_UserID s \<and> as_CreatedAt s' = as_CreatedAt s \<and>
     as_DeviceFingerprint s' = as_DeviceFingerprint s \<and> (as_RevokedAt s \<noteq> None \<longrightarrow> s' = s)"

fun createsSession :: "string \<Rightarrow> dbOp \<Rightarrow> bool" where
  "createsSession sid (OpCreateSession env params) = (cs_ID params = sid)"
| "createsSession sid _ = False"

definition sessionRow :: "authDB \<Rightarrow> string \<Rightarrow> AppSession option" where
  "sessionRow db sid = gm_get (db_sessions db) sid"

named_theorems sessions_of \<open>the session table after each method\<close>

lemma sessions_rollback [sessions_of]: "db_sessions (rollback db tx) = db_sessions db"
  by (simp add: rollback_def)

lemma sessions_audit [sessions_of]: "db_sessions (insertAuditEvent env e db) = db_sessions db"
  by (simp add: insertAuditEvent_def)

lemma sessions_register [sessions_of]: "db_sessions (snd (RegisterUser env params db)) = db_sessions db"
  by (simp add: RegisterUser_def Let_def sessions_of split: sum.splits)

lemma sessions_tokens [sessions_of]:
  "db_sessions (snd (CreateAgentToken_db env p db)) = db_sessions db"
  "db_sessions (snd (AuthenticateAgentToken env d now db)) = db_sessions db"
  "db_sessions (snd (RevokeAgentToken_db env uid tid actor now db)) = db_sessions db"
  by (simp_all add: CreateAgentToken_db_def AuthenticateAgentToken_def RevokeAgentToken_db_def Let_def sessions_of
      split: sum.splits)

lemma sessions_invite1:
  "insertInviteCode env fails p db = (r, db') \<Longrightarrow> db_sessions db' = db_sessions db \<and> db_tokens db' = db_tokens db"
  by (auto simp: insertInviteCode_def Let_def split: if_splits)

lemma sessions_invites1:
  "insertInviteCodes env n ps db = (r, db') \<Longrightarrow> db_sessions db' = db_sessions db \<and> db_tokens db' = db_tokens db"
proof (induction env n ps db rule: insertInviteCodes.induct)
  case (2 env n p ps db)
  obtain q t where t: "insertInviteCode env (pg_fail env n) p db = (q, t)" by fastforce
  show ?case
  proof (cases q)
    case (Inr i)
    then show ?thesis using "2.IH" [OF t [symmetric] Inr] "2.prems" t sessions_invite1 [OF t] by simp
  qed (use "2.prems" t sessions_invite1 [OF t] in simp)
qed simp

lemma sessions_invites [sessions_of]:
  "db_sessions (snd (CreateInviteCode env p db)) = db_sessions db"
  "db_sessions (snd (CreateInviteCodes_db env ps db)) = db_sessions db"
  "db_sessions (snd (DisableInviteCode_db env code actor now db)) = db_sessions db"
  "db_sessions (snd (SetUserSubscriptionTier_db env name tier actor now db)) = db_sessions db"
proof -
  show "db_sessions (snd (CreateInviteCode env p db)) = db_sessions db"
    using sessions_invite1 by (metis CreateInviteCode_def prod.collapse)
  obtain r t where t: "insertInviteCodes env 1 ps db = (r, t)" by fastforce
  show "db_sessions (snd (CreateInviteCodes_db env ps db)) = db_sessions db"
    using t sessions_invites1 [OF t] by (auto simp: CreateInviteCodes_db_def sessions_of split: sum.splits)
qed (auto simp: DisableInviteCode_db_def SetUserSubscriptionTier_db_def Let_def sessions_of split: sum.splits)

lemma sessions_change [sessions_of]:
  "db_sessions (snd (ChangeUserPassword env uid hash now db)) =
     (if fst (ChangeUserPassword env uid hash now db) = Inr () then
        updateRows (\<lambda>s. as_UserID s = uid \<and> as_RevokedAt s = None) (revokeSession (pg_ts env now) ''password_changed'') (db_sessions db)
      else db_sessions db)"
  by (simp add: ChangeUserPassword_def Let_def)

lemma revoke_evolves: "as_RevokedAt s = None \<Longrightarrow> sessionEvolves s (revokeSession now reason s)"
  by (simp add: sessionEvolves_def revokeSession_def)

lemma evolves_updateRows:
  assumes "gm_get (updateRows p f t) k = Some v" "\<And>u. gm_get t k = Some u \<Longrightarrow> p u \<Longrightarrow> sessionEvolves u (f u)"
  shows "\<exists>u. gm_get t k = Some u \<and> sessionEvolves u v"
  using assms by (auto simp: updateRows_get sessionEvolves_def split: if_splits)

lemma Rotate_Inr:
  assumes inv: "auth_inv db" and ok: "RotateAppSessionByRefreshToken env params db = (Inr s', db')"
  obtains s where "sessionRow db (as_ID s) = Some s" "as_RevokedAt s = None"
    "as_RefreshTokenDigest s = rs_RefreshTokenDigest params"
    "\<not> isAbsoluteSessionExpired s (maxTime (rs_Now params) (pg_now env)) (rs_AbsoluteTTL params)"
    "maxTime (rs_Now params) (pg_now env) < as_RefreshExpiresAt s"
    "as_DeviceFingerprint s = [] \<or> as_DeviceFingerprint s = rs_DeviceFingerprint params"
    "s' = rotatedSession env params s"
    "db' = db\<lparr>db_sessions := updateRows (\<lambda>v. as_ID v = as_ID s) (\<lambda>_. s') (db_sessions db)\<rparr>"
proof (cases "queryAppSession (pg_fail env 1) (\<lambda>s. as_RefreshTokenDigest s = rs_RefreshTokenDigest params) db")
  case (Inr s)
  then show thesis using ok queryAppSession_Inr [OF inv Inr] that [of s]
    by (auto simp: RotateAppSessionByRefreshToken_def Let_def sessionRow_def split: if_splits)
qed (use ok in \<open>simp add: RotateAppSessionByRefreshToken_def split: if_splits\<close>)

lemma Rotate_Inl: "fst (RotateAppSessionByRefreshToken env params db) = Inl e \<Longrightarrow>
    snd (RotateAppSessionByRefreshToken env params db) = db"
  by (auto simp: RotateAppSessionByRefreshToken_def Let_def split: sum.splits if_splits)

lemma rotate_cases:
  assumes inv: "auth_inv db"
  shows "db_sessions (snd (RotateAppSessionByRefreshToken env params db)) = db_sessions db \<or>
    (\<exists>s. sessionRow db (as_ID s) = Some s \<and> as_RevokedAt s = None \<and>
       db_sessions (snd (RotateAppSessionByRefreshToken env params db)) =
         updateRows (\<lambda>v. as_ID v = as_ID s) (\<lambda>_. rotatedSession env params s) (db_sessions db))"
proof (cases "RotateAppSessionByRefreshToken env params db")
  case (Pair r db')
  show ?thesis
  proof (cases r)
    case (Inr s')
    show ?thesis
      by (rule Rotate_Inr [OF inv Pair [unfolded Inr]], rule disjI2) (use Pair Inr in auto)
  qed (use Pair Rotate_Inl [of env params db] in simp)
qed

lemma session_key: "auth_inv db \<Longrightarrow> sessionRow db sid = Some s \<Longrightarrow> as_ID s = sid"
  using auth_inv_tables(3) by (auto simp: sessionRow_def table_def dest: gm_allD)

interpretation sessions: row_history sessionRow sessionEvolves createsSession
proof unfold_locales
  fix db op sid v
  assume inv: "auth_inv db" and new: "\<not> createsSession sid op" and v: "sessionRow (runOp op db) sid = Some v"
  have same: "\<exists>u. sessionRow db sid = Some u \<and> sessionEvolves u v" if "db_sessions (runOp op db) = db_sessions db"
    using v that by (auto simp: sessionRow_def sessionEvolves_def)
  show "\<exists>u. sessionRow db sid = Some u \<and> sessionEvolves u v"
  proof (cases op)
    case (OpPassword env uid hash now)
    then show ?thesis using same v evolves_updateRows [OF _ revoke_evolves]
      by (fastforce simp: sessionRow_def sessions_of split: if_splits)
  next
    case (OpCreateSession env params)
    then show ?thesis using same v new
      by (auto simp: CreateAppSession_def sessionRow_def Let_def sessionEvolves_def split: if_splits)
  next
    case (OpRotate env params)
    from rotate_cases [OF inv, of env params] show ?thesis
    proof (elim disjE exE conjE)
      fix s assume s: "sessionRow db (as_ID s) = Some s" "as_RevokedAt s = None"
        "db_sessions (snd (RotateAppSessionByRefreshToken env params db)) =
           updateRows (\<lambda>v. as_ID v = as_ID s) (\<lambda>_. rotatedSession env params s) (db_sessions db)"
      have "sessionEvolves u (rotatedSession env params s)" if "gm_get (db_sessions db) sid = Some u" "as_ID u = as_ID s" for u
        using that s session_key [OF inv, of sid u] by (auto simp: sessionEvolves_def sessionRow_def)
      then show ?thesis using v OpRotate s(3) unfolding sessionRow_def
        by (intro evolves_updateRows [of "\<lambda>v. as_ID v = as_ID s" "\<lambda>_. rotatedSession env params s"]) simp_all
    qed (use OpRotate same in simp)
  next
    case (OpRevokeSession env sid' now reason)
    then show ?thesis using same v evolves_updateRows [OF _ revoke_evolves, of "\<lambda>s. as_ID s = sid' \<and> as_RevokedAt s = None"]
      by (auto simp: RevokeAppSession_def Let_def sessionRow_def split: if_splits)
  next
    case (OpDelete env name actor now)
    then show ?thesis using v auth_inv_tables(3) [OF inv]
      by (auto simp: DeleteUser_db_def sessions_of deleteUserRow_def sessionRow_def gm_get_drop table_def sessionEvolves_def
          split: sum.splits option.splits if_splits)
  qed (use same in \<open>simp_all add: sessions_of\<close>)
qed (auto simp: sessionEvolves_def)

section \<open>Digests of sessions\<close>

text \<open>A column of digests: which methods store a value in it, and that only those bring an absent value back.\<close>

definition noDigest :: "(AppSession \<Rightarrow> string) \<Rightarrow> string \<Rightarrow> authDB \<Rightarrow> bool" where
  "noDigest col d db \<longleftrightarrow> gm_all (\<lambda>_ s. col s \<noteq> d) (db_sessions db)"

locale digest_column =
  fixes col :: "AppSession \<Rightarrow> string" and stores :: "string \<Rightarrow> dbOp \<Rightarrow> bool"
  assumes absent_step: "auth_inv db \<Longrightarrow> \<not> stores d op \<Longrightarrow> noDigest col d db \<Longrightarrow> noDigest col d (runOp op db)"
begin

lemma absent_run:
  "auth_inv db \<Longrightarrow> \<forall>op \<in> set ops. \<not> stores d op \<Longrightarrow> noDigest col d db \<Longrightarrow> noDigest col d (runOps ops db)"
  by (induction ops arbitrary: db) (simp_all add: absent_step runOp_inv)

lemma absent_query: "noDigest col d db \<Longrightarrow> queryAppSession fails (\<lambda>s. col s = d) db =
    Inl (if fails then ErrDatabase else ErrAppSessionNotFound)"
proof -
  assume "noDigest col d db"
  then have "queryRow (\<lambda>s. col s = d) (db_sessions db) = None"
    by (auto simp: queryRow_None noDigest_def gm_all_iff)
  then show ?thesis by (simp add: queryAppSession_def)
qed

end

fun storesRefresh :: "string \<Rightarrow> dbOp \<Rightarrow> bool" where
  "storesRefresh d (OpCreateSession env params) = (cs_RefreshTokenDigest params = d)"
| "storesRefresh d (OpRotate env params) = (rs_NewRefreshTokenDigest params = d)"
| "storesRefresh d _ = False"

fun storesAccess :: "string \<Rightarrow> dbOp \<Rightarrow> bool" where
  "storesAccess d (OpCreateSession env params) = (cs_AccessTokenDigest params = d)"
| "storesAccess d (OpRotate env params) = (rs_NewAccessTokenDigest params = d)"
| "storesAccess d _ = False"

lemma noDigest_update:
  "noDigest col d db \<Longrightarrow> (\<And>s. p s \<Longrightarrow> col s \<noteq> d \<Longrightarrow> col (f s) \<noteq> d) \<Longrightarrow> gm_all (\<lambda>_ s. col s \<noteq> d) (updateRows p f (db_sessions db))"
  unfolding noDigest_def by (auto intro!: updateRows_all)

lemma noDigest_step:
  assumes inv: "auth_inv db" and abs: "noDigest col d db"
    and revoke: "\<And>now reason s. col (revokeSession now reason s) = col s"
    and create: "\<And>env params s. op = OpCreateSession env params \<Longrightarrow> fst (CreateAppSession env params db) = Inr s \<Longrightarrow> col s \<noteq> d"
    and rotate: "\<And>env params s. op = OpRotate env params \<Longrightarrow> col (rotatedSession env params s) \<noteq> d"
  shows "noDigest col d (runOp op db)"
proof -
  have same: "noDigest col d (runOp op db)" if "db_sessions (runOp op db) = db_sessions db"
    using abs that by (simp add: noDigest_def)
  show ?thesis
  proof (cases op)
    case (OpPassword env uid hash now)
    then show ?thesis using abs noDigest_update [OF abs] revoke by (simp add: noDigest_def sessions_of)
  next
    case (OpCreateSession env params)
    then show ?thesis using create [OF OpCreateSession] abs
      by (auto simp: CreateAppSession_def noDigest_def Let_def split: if_splits)
  next
    case (OpRotate env params)
    from rotate_cases [OF inv, of env params] show ?thesis
      using OpRotate same rotate [OF OpRotate] noDigest_update [OF abs] by (auto simp: noDigest_def)
  next
    case (OpRevokeSession env sid now reason)
    then show ?thesis using abs noDigest_update [OF abs] revoke
      by (simp add: RevokeAppSession_def Let_def noDigest_def)
  next
    case (OpDelete env name actor now)
    then show ?thesis using abs
      by (auto simp: DeleteUser_db_def sessions_of deleteUserRow_def noDigest_def split: sum.splits)
  qed (use same in \<open>simp_all add: sessions_of\<close>)
qed

interpretation refreshDigest: digest_column as_RefreshTokenDigest storesRefresh
proof unfold_locales
  fix db d op assume "auth_inv db" "\<not> storesRefresh d op" "noDigest as_RefreshTokenDigest d db"
  then show "noDigest as_RefreshTokenDigest d (runOp op db)"
    by (intro noDigest_step) (auto simp: revokeSession_def CreateAppSession_def Let_def split: if_splits)
qed

interpretation accessDigest: digest_column as_AccessTokenDigest storesAccess
proof unfold_locales
  fix db d op assume "auth_inv db" "\<not> storesAccess d op" "noDigest as_AccessTokenDigest d db"
  then show "noDigest as_AccessTokenDigest d (runOp op db)"
    by (intro noDigest_step) (auto simp: revokeSession_def CreateAppSession_def Let_def split: if_splits)
qed

text \<open>A rotation removes both digests of the session it rotates.\<close>

lemma rotate_removes:
  assumes inv: "auth_inv db" and ok: "RotateAppSessionByRefreshToken env params db = (Inr s', db')"
    and s: "sessionRow db (as_ID s') = Some s" and col: "uniqueOn col (db_sessions db)" "col s' \<noteq> col s"
  shows "noDigest col (col s) db'"
proof -
  obtain s0 where s0: "sessionRow db (as_ID s0) = Some s0" "s' = rotatedSession env params s0"
      "db_sessions db' = updateRows (\<lambda>v. as_ID v = as_ID s0) (\<lambda>_. s') (db_sessions db)"
    by (rule Rotate_Inr [OF inv ok]) simp
  then have "s0 = s" using s by simp
  have mem: "(as_ID s, s) \<in> set (db_sessions db)" using s0(1) \<open>s0 = s\<close> by (auto simp: sessionRow_def dest: gm_get_in)
  have "col v \<noteq> col s" if "(k, v) \<in> set (db_sessions db)" "as_ID v \<noteq> as_ID s" for k v
    using uniqueOnD [OF col(1) that(1) mem] that(2) by blast
  then show ?thesis using s0(3) \<open>s0 = s\<close> col(2)
    by (auto simp: noDigest_def gm_all_iff updateRows_mem split: if_splits)
qed

section \<open>Agent tokens\<close>

definition tokenEvolves :: "AgentTokenRecord \<Rightarrow> AgentTokenRecord \<Rightarrow> bool" where
  "tokenEvolves t t' \<longleftrightarrow> at_ID t' = at_ID t \<and> at_UserID t' = at_UserID t \<and> at_TokenDigest t' = at_TokenDigest t \<and>
     (at_RevokedAt t \<noteq> None \<longrightarrow> t' = t)"

fun createsToken :: "string \<Rightarrow> dbOp \<Rightarrow> bool" where
  "createsToken tid (OpCreateToken env params) = (ca_ID params = tid)"
| "createsToken tid _ = False"

definition tokenRow :: "authDB \<Rightarrow> string \<Rightarrow> AgentTokenRecord option" where
  "tokenRow db tid = gm_get (db_tokens db) tid"

lemma tokens_simps [simp]:
  "db_tokens (rollback db tx) = db_tokens db"
  "db_tokens (insertAuditEvent env e db) = db_tokens db"
  by (simp_all add: rollback_def insertAuditEvent_def)

lemma tokens_same:
  "db_tokens (snd (RegisterUser env params db)) = db_tokens db"
  "db_tokens (snd (ChangeUserPassword env uid hash now db)) = db_tokens db"
  "db_tokens (snd (CreateAppSession env cs db)) = db_tokens db"
  "db_tokens (snd (RotateAppSessionByRefreshToken env rs db)) = db_tokens db"
  "db_tokens (snd (RevokeAppSession env sid now reason db)) = db_tokens db"
  "db_tokens (snd (DisableInviteCode_db env code actor now db)) = db_tokens db"
  "db_tokens (snd (SetUserSubscriptionTier_db env name tier actor now db)) = db_tokens db"
  by (simp_all add: RegisterUser_def ChangeUserPassword_def CreateAppSession_def RotateAppSessionByRefreshToken_def
      RevokeAppSession_def DisableInviteCode_db_def SetUserSubscriptionTier_db_def Let_def split: sum.splits)

lemma tokens_invites:
  "db_tokens (snd (CreateInviteCode env p db)) = db_tokens db"
  "db_tokens (snd (CreateInviteCodes_db env ps db)) = db_tokens db"
proof -
  show "db_tokens (snd (CreateInviteCode env p db)) = db_tokens db"
    using sessions_invite1 by (metis CreateInviteCode_def prod.collapse)
  obtain r t where t: "insertInviteCodes env 1 ps db = (r, t)" by fastforce
  show "db_tokens (snd (CreateInviteCodes_db env ps db)) = db_tokens db"
    using t sessions_invites1 [OF t] by (auto simp: CreateInviteCodes_db_def split: sum.splits)
qed

interpretation tokens: row_history tokenRow tokenEvolves createsToken
proof unfold_locales
  fix db op tid v
  assume inv: "auth_inv db" and new: "\<not> createsToken tid op" and v: "tokenRow (runOp op db) tid = Some v"
  have same: "\<exists>u. tokenRow db tid = Some u \<and> tokenEvolves u v" if "db_tokens (runOp op db) = db_tokens db"
    using v that by (auto simp: tokenRow_def tokenEvolves_def)
  show "\<exists>u. tokenRow db tid = Some u \<and> tokenEvolves u v"
  proof (cases op)
    case (OpCreateToken env params)
    then show ?thesis using same v new
      by (auto simp: CreateAgentToken_db_def tokenRow_def Let_def tokenEvolves_def split: if_splits)
  next
    case (OpUseToken env digest now)
    show ?thesis
    proof (cases "queryAgentToken (pg_fail env 1) (\<lambda>t. at_TokenDigest t = digest) db")
      case (Inr t)
      have row: "gm_get (db_tokens db) (at_ID t) = Some t" using queryAgentToken_Inr [OF inv Inr] by simp
      then have "u = t" if "gm_get (db_tokens db) tid = Some u" "at_ID u = at_ID t" for u
        using that auth_inv_tables(4) [OF inv] by (auto simp: table_def dest: gm_allD)
      then show ?thesis using same v Inr OpUseToken
        by (auto simp: AuthenticateAgentToken_def Let_def tokenRow_def updateRows_get tokenEvolves_def split: if_splits)
    qed (use same OpUseToken in \<open>simp add: AuthenticateAgentToken_def Let_def\<close>)
  next
    case (OpRevokeToken env uid tid' actor now)
    then show ?thesis using same v
      by (auto simp: RevokeAgentToken_db_def Let_def tokenRow_def updateRows_get tokenEvolves_def split: if_splits)
  next
    case (OpDelete env name actor now)
    then show ?thesis using v auth_inv_tables(4) [OF inv]
      by (auto simp: DeleteUser_db_def deleteUserRow_def tokenRow_def gm_get_drop table_def tokenEvolves_def
          split: sum.splits option.splits if_splits)
  qed (use same in \<open>simp_all add: tokens_same tokens_invites\<close>)
qed (auto simp: tokenEvolves_def)

section \<open>Invite codes\<close>

text \<open>A code that was consumed is found consumed by every later lookup.\<close>

definition codeSpent :: "string \<Rightarrow> authDB \<Rightarrow> bool" where
  "codeSpent code db \<longleftrightarrow> (\<exists>k i. gm_get (db_invites db) k = Some i \<and> ic_Code i = code \<and> ic_ConsumedAt i \<noteq> None)"

lemma code_lock:
  assumes inv: "auth_inv db" and i: "gm_get (db_invites db) k = Some i" "ic_Code i = code"
  shows "queryRow (\<lambda>j. ic_Code j = code) (db_invites db) = Some i"
proof -
  obtain j where j: "queryRow (\<lambda>j. ic_Code j = code) (db_invites db) = Some j"
    using gm_get_in [OF i(1)] i(2) by (cases "queryRow (\<lambda>i. ic_Code i = code) (db_invites db)") (auto simp: queryRow_None)
  then obtain k' where "(k', j) \<in> set (db_invites db)" "ic_Code j = code" using queryRow_Some [OF j] by blast
  then have "i = j" using uniqueOnD [of ic_Code "db_invites db" k i k' j] inv gm_get_in [OF i(1)] i(2)
    by (simp add: auth_inv_def invites_ok_def)
  with j show ?thesis by simp
qed

lemma spent_lock:
  assumes inv: "auth_inv db" and "codeSpent code db"
  shows "lockInviteCode fails code now db = Inl (if fails then ErrDatabase else ErrInviteCodeConsumed)"
proof -
  obtain k i where i: "gm_get (db_invites db) k = Some i" "ic_Code i = code" "ic_ConsumedAt i \<noteq> None"
    using assms(2) by (auto simp: codeSpent_def)
  then have "inviteState i" using inv by (auto simp: auth_inv_def invites_ok_def dest: gm_allD)
  then show ?thesis using code_lock [OF inv i(1,2)] i(3) by (simp add: lockInviteCode_def inviteState_def)
qed

lemma spent_update:
  assumes "codeSpent code db"
    "\<And>i. p i \<Longrightarrow> ic_Code (f i) = ic_Code i \<and> (ic_ConsumedAt i \<noteq> None \<longrightarrow> ic_ConsumedAt (f i) \<noteq> None)"
    "db_invites db' = updateRows p f (db_invites db)"
  shows "codeSpent code db'"
proof -
  obtain k i where i: "gm_get (db_invites db) k = Some i" "ic_Code i = code" "ic_ConsumedAt i \<noteq> None"
    using assms(1) by (auto simp: codeSpent_def)
  then have "gm_get (db_invites db') k = Some (if p i then f i else i)" by (simp add: assms(3) updateRows_get)
  then show ?thesis using i assms(2) [of i] unfolding codeSpent_def by (cases "p i") auto
qed

lemma spent_same: "codeSpent code db \<Longrightarrow> db_invites db' = db_invites db \<Longrightarrow> codeSpent code db'"
  by (simp add: codeSpent_def)

lemma spent_insert1:
  assumes inv: "auth_inv db" and spent: "codeSpent code db" and r: "insertInviteCode env fails p db = (res, db')"
  shows "codeSpent code db'"
proof -
  have new: "gm_get (db_invites db) (db_nextInvite db) = None"
    using inv by (cases "gm_get (db_invites db) (db_nextInvite db)") (auto simp: auth_inv_def invites_ok_def dest: gm_allD)
  obtain k i where i: "gm_get (db_invites db) k = Some i" "ic_Code i = code" "ic_ConsumedAt i \<noteq> None"
    using spent by (auto simp: codeSpent_def)
  then have "gm_get (db_invites db') k = Some i"
    using r new by (auto simp: insertInviteCode_def Let_def split: if_splits)
  with i show ?thesis unfolding codeSpent_def by blast
qed

lemma spent_inserts:
  "auth_inv tx \<Longrightarrow> codeSpent code tx \<Longrightarrow> insertInviteCodes env n ps tx = (res, tx') \<Longrightarrow> codeSpent code tx'"
proof (induction env n ps tx rule: insertInviteCodes.induct)
  case (2 env n p ps tx)
  obtain q t where t: "insertInviteCode env (pg_fail env n) p tx = (q, t)" by fastforce
  have st: "codeSpent code t" "auth_inv t"
    using spent_insert1 [OF "2.prems"(1,2) t] insertInviteCode_inv [OF "2.prems"(1) t] by auto
  show ?case
  proof (cases q)
    case (Inr i)
    then show ?thesis using "2.IH" [OF t [symmetric] Inr] st "2.prems"(3) t by simp
  qed (use st "2.prems"(3) t in simp)
qed simp

lemma invites_simps [simp]:
  "db_invites (rollback db tx) = db_invites db"
  "db_invites (insertAuditEvent env e db) = db_invites db"
  by (simp_all add: rollback_def insertAuditEvent_def)

lemma invites_same:
  "db_invites (snd (ChangeUserPassword env uid hash now db)) = db_invites db"
  "db_invites (snd (CreateAppSession env cs db)) = db_invites db"
  "db_invites (snd (RotateAppSessionByRefreshToken env rs db)) = db_invites db"
  "db_invites (snd (RevokeAppSession env sid now reason db)) = db_invites db"
  "db_invites (snd (CreateAgentToken_db env p db)) = db_invites db"
  "db_invites (snd (AuthenticateAgentToken env d now db)) = db_invites db"
  "db_invites (snd (RevokeAgentToken_db env uid tid actor now db)) = db_invites db"
  "db_invites (snd (SetUserSubscriptionTier_db env name tier actor now db)) = db_invites db"
  by (simp_all add: ChangeUserPassword_def CreateAppSession_def RotateAppSessionByRefreshToken_def RevokeAppSession_def
      CreateAgentToken_db_def AuthenticateAgentToken_def RevokeAgentToken_db_def SetUserSubscriptionTier_db_def Let_def
      split: sum.splits)

lemma spent_step:
  assumes inv: "auth_inv db" and spent: "codeSpent code db"
  shows "codeSpent code (runOp op db)"
proof (cases op)
  case (OpRegister env params)
  show ?thesis
  proof (cases "lockInviteCode (pg_fail env 1) (ru_InviteCode params) (ru_Now params) db")
    case (Inr iid)
    let ?f = "\<lambda>i :: InviteCodeRecord. i\<lparr>ic_ConsumedAt := Some (pg_ts env (ru_Now params)),
      ic_ConsumedByUserID := Some (db_nextUser db), ic_ConsumedByUsername := ru_UsernameNorm params\<rparr>"
    have "db_invites (runOp op db) = db_invites db \<or> db_invites (runOp op db) = updateRows (\<lambda>i. ic_ID i = iid) ?f (db_invites db)"
      using OpRegister Inr by (simp add: RegisterUser_def Let_def)
    then show ?thesis using spent_same [OF spent] spent_update [OF spent, of "\<lambda>i. ic_ID i = iid" ?f] by auto
  qed (use OpRegister spent in \<open>simp add: RegisterUser_def\<close>)
next
  case (OpInvite env p)
  then show ?thesis using spent_insert1 [OF inv spent] by (metis CreateInviteCode_def prod.collapse runOp.simps(9))
next
  case (OpInvites env ps)
  obtain r t where t: "insertInviteCodes env 1 ps db = (r, t)" by fastforce
  have "db_invites (snd (CreateInviteCodes_db env ps db)) \<in> {db_invites db, db_invites t}"
    using t by (auto simp: CreateInviteCodes_db_def split: sum.splits)
  then show ?thesis using OpInvites spent_same [OF spent] spent_same [OF spent_inserts [OF inv spent t]] by auto
next
  case (OpDisable env code' actor now)
  show ?thesis
  proof (cases "lockInviteCode (pg_fail env 1) code' now db")
    case (Inr iid)
    let ?f = "\<lambda>i :: InviteCodeRecord. i\<lparr>ic_DisabledAt := Some (pg_ts env now), ic_DisabledBy := actor\<rparr>"
    have "db_invites (runOp op db) = db_invites db \<or> db_invites (runOp op db) = updateRows (\<lambda>i. ic_ID i = iid) ?f (db_invites db)"
      using OpDisable Inr by (simp add: DisableInviteCode_db_def)
    then show ?thesis using spent_same [OF spent] spent_update [OF spent, of "\<lambda>i. ic_ID i = iid" ?f] by auto
  qed (use OpDisable spent in \<open>simp add: DisableInviteCode_db_def\<close>)
next
  case (OpDelete env name actor now)
  show ?thesis
  proof (cases "queryUser (pg_fail env 1) (\<lambda>u. u_UsernameNorm u = name) db")
    case (Inr u)
    let ?p = "\<lambda>i. ic_ConsumedByUserID i = Some (u_ID u)" and ?f = "\<lambda>i :: InviteCodeRecord. i\<lparr>ic_ConsumedByUserID := None\<rparr>"
    have "db_invites (runOp op db) = db_invites db \<or> db_invites (runOp op db) = updateRows ?p ?f (db_invites db)"
      using OpDelete Inr by (simp add: DeleteUser_db_def deleteUserRow_def)
    then show ?thesis using spent_same [OF spent] spent_update [OF spent, of ?p ?f] by auto
  qed (use OpDelete spent in \<open>simp add: DeleteUser_db_def\<close>)
qed (use spent_same [OF spent] in \<open>simp_all add: invites_same\<close>)

lemma spent_run: "auth_inv db \<Longrightarrow> codeSpent code db \<Longrightarrow> codeSpent code (runOps ops db)"
  by (induction ops arbitrary: db) (simp_all add: spent_step runOp_inv)

end
