(* ===== verification/Conn_Parties.thy ===== *)
theory Conn_Parties
  imports Conn_System
begin

text \<open>
  Who is registered in the connectivity registry: the connected apps and the daemons with their connections and owners.
  Every section but the two registrations brings in nobody.
\<close>

definition appEntries :: "connRegistry \<Rightarrow> (peer \<times> liveApp) set" where
  "appEntries r = set (cr_apps r)"

definition daemonEntry :: "string \<times> liveDaemon \<Rightarrow> string \<times> peer \<times> DaemonOwner \<times> string" where
  "daemonEntry e = (fst e, ld_peer (snd e), ld_owner (snd e), di_DeviceID (ld_info (snd e)))"

definition daemonEntries :: "connRegistry \<Rightarrow> (string \<times> peer \<times> DaemonOwner \<times> string) set" where
  "daemonEntries r = daemonEntry ` set (cr_daemons r)"

definition noNewcomers :: "connRegistry \<Rightarrow> connRegistry \<Rightarrow> bool" where
  "noNewcomers r r' \<longleftrightarrow> appEntries r' \<subseteq> appEntries r \<and> daemonEntries r' \<subseteq> daemonEntries r"

lemmas parties_defs = noNewcomers_def appEntries_def daemonEntries_def

lemma noNewcomers_refl [simp, intro]: "noNewcomers r r"
  by (simp add: noNewcomers_def)

lemma noNewcomers_trans: "noNewcomers r r1 \<Longrightarrow> noNewcomers r1 r2 \<Longrightarrow> noNewcomers r r2"
  by (auto simp: noNewcomers_def)

lemma noNewcomers_subset:
  "set (cr_apps r') \<subseteq> set (cr_apps r) \<Longrightarrow> set (cr_daemons r') \<subseteq> set (cr_daemons r) \<Longrightarrow> noNewcomers r r'"
  by (auto simp: parties_defs)

text \<open>Sections that leave the apps and the daemons alone.\<close>

lemma noNewcomers_same: "cr_apps r' = cr_apps r \<Longrightarrow> cr_daemons r' = cr_daemons r \<Longrightarrow> noNewcomers r r'"
  by (rule noNewcomers_subset) simp_all

lemma frame_helpers [simp]:
  "cr_apps (snd (removeActiveDirectLocked q r)) = cr_apps r"
  "cr_daemons (snd (removeActiveDirectLocked q r)) = cr_daemons r"
  "cr_apps (snd (snd (sweepExpiredTunnelAttemptsLocked t r))) = cr_apps r"
  "cr_daemons (snd (snd (sweepExpiredTunnelAttemptsLocked t r))) = cr_daemons r"
  "cr_apps (sweepExpiredRendezvousLocked t r) = cr_apps r"
  "cr_daemons (sweepExpiredRendezvousLocked t r) = cr_daemons r"
  "cr_apps (sweepExpiredPairCorrelationsLocked t r) = cr_apps r"
  "cr_daemons (sweepExpiredPairCorrelationsLocked t r) = cr_daemons r"
  "cr_apps (snd (allowRelayTunnelRequestLocked u t r)) = cr_apps r"
  "cr_daemons (snd (allowRelayTunnelRequestLocked u t r)) = cr_daemons r"
  "cr_apps (snd (allowRendezvousRequestLocked u t r)) = cr_apps r"
  "cr_daemons (snd (allowRendezvousRequestLocked u t r)) = cr_daemons r"
  by (simp_all add: removeActiveDirectLocked_def sweepExpiredTunnelAttemptsLocked_def Let_def split_def
      sweepExpiredRendezvousLocked_def sweepExpiredPairCorrelationsLocked_def allowRelayTunnelRequestLocked_def
      allowRendezvousRequestLocked_def)

lemma frame_install [simp]:
  "cr_apps (snd (installTunnelAttempt owner d a q reason dl rl ttl now base live t1 t2 r)) = cr_apps r"
  "cr_daemons (snd (installTunnelAttempt owner d a q reason dl rl ttl now base live t1 t2 r)) = cr_daemons r"
  by (simp_all add: installTunnelAttempt_def Let_def split_def split: option.split)

lemma quiet_pairing:
  "noNewcomers r (snd (ReservePairing clk d owner p c ttl r))"
  "noNewcomers r (snd (forwardPairing_begin clk u ap aowner c r))"
  "noNewcomers r (forwardPairing_finish u k p r)"
  by (rule noNewcomers_same;
      simp add: ReservePairing_def forwardPairing_begin_def forwardPairing_finish_def Let_def split: option.split)+

lemma quiet_rendezvous:
  "noNewcomers r (snd (openRendezvous_begin clk owner p d a q pub priv ttl r))"
  "noNewcomers r (openRendezvous_abort k n r)"
  "noNewcomers r (snd (snd (ForwardRendezvousHintFromDaemon ok clk down d p a q fp pub priv r)))"
  "noNewcomers r (snd (snd (CloseRendezvousFromApp ok owner p d a r)))"
  "noNewcomers r (snd (snd (CloseRendezvousFromDaemon ok down d p a fp r)))"
  "noNewcomers r (snd (OpenDirectSessionFromDaemon clk down d p a fp r))"
  "noNewcomers r (snd (CloseDirectSessionFromDaemon down d p a fp r))"
  "noNewcomers r (expireRendezvousLater clk k r)"
  by (rule noNewcomers_same;
      simp add: openRendezvous_begin_def openRendezvous_abort_def ForwardRendezvousHintFromDaemon_def
        CloseRendezvousFromApp_def CloseRendezvousFromDaemon_def OpenDirectSessionFromDaemon_def
        CloseDirectSessionFromDaemon_def expireRendezvousLater_def Let_def split_def split: option.split)+

lemma quiet_tunnels:
  "noNewcomers r (snd (snd (requestRelayTunnel_begin clk rnd owner ap d a q reason dl rl ttl r)))"
  "noNewcomers r (snd (requestRelayTunnel_abort k n r))"
  "noNewcomers r (snd (snd (RedeemRelayTunnelToken clk token r)))"
  "noNewcomers r (snd (MarkRelayTunnelActive k r))"
  "noNewcomers r (snd (snd (CloseRelayTunnel k r)))"
  "noNewcomers r (snd (snd (SweepExpiredRelayTunnelAttempts clk r)))"
  "noNewcomers r (snd (snd (AddTunnelCloser k c r)))"
  "noNewcomers r (removeTunnelCloser k cid r)"
  "noNewcomers r (snd (expireUnpairedRelayTunnelLater clk k r))"
  by (rule noNewcomers_same;
      simp add: requestRelayTunnel_begin_def requestRelayTunnel_abort_def RedeemRelayTunnelToken_def
        MarkRelayTunnelActive_def CloseRelayTunnel_def SweepExpiredRelayTunnelAttempts_def AddTunnelCloser_def
        removeTunnelCloser_def expireUnpairedRelayTunnelLater_def Let_def split_def split: option.split prod.split)+

text \<open>Sections that take somebody out.\<close>

lemma leaving:
  "noNewcomers r (snd (snd (DisconnectApp ok p r)))"
  "noNewcomers r (snd (snd (DisconnectDaemon ok d p r)))"
  "noNewcomers r (snd (snd (DisconnectAppSession ok sid r)))"
  "noNewcomers r (snd (snd (DisconnectUser ok clk u r)))"
  "noNewcomers r (snd (snd (DisconnectAgentToken ok tok r)))"
  by (rule noNewcomers_subset;
      auto simp: DisconnectApp_def DisconnectDaemon_def DisconnectAppSession_def DisconnectUser_def
        DisconnectAgentToken_def dropDaemonLocked_def removeCorrelationsForDaemonLocked_def Let_def split_def
        dropDaemonsLocked_eq set_gm_del set_gm_drop split: option.split)+

lemma retrust:
  assumes "daemonByDevicePeerLocked d p r = Some (k, live)"
  shows "daemonEntry ` set (gm_put k (live\<lparr>ld_trusted := t\<rparr>) (cr_daemons r)) \<subseteq> daemonEntry ` set (cr_daemons r)"
proof -
  have "daemonEntry (k, live\<lparr>ld_trusted := t\<rparr>) = daemonEntry (k, live)" by (simp add: daemonEntry_def)
  moreover have "daemonEntry (k, live) \<in> daemonEntry ` set (cr_daemons r)"
    using find_in [OF assms [unfolded daemonByDevicePeerLocked_def]] by blast
  ultimately show ?thesis
    using image_gm_put [of daemonEntry k "live\<lparr>ld_trusted := t\<rparr>" "cr_daemons r"] by auto
qed

lemma retrusting:
  "noNewcomers r (snd (snd (RevokeTrustedAndroid ok d p fp r)))"
  "noNewcomers r (snd (snd (CompletePairing d p trusted r)))"
  using retrust
  by (simp_all add: RevokeTrustedAndroid_def CompletePairing_def Let_def split_def noNewcomers_def appEntries_def
      daemonEntries_def split: option.split)

text \<open>The two registrations bring in the party they register, and the two ends of a connection take it out.\<close>

lemma registering_app:
  assumes "RegisterAppIfValid clk owner p sv r = ((snapshot, ok), r')"
  shows "appEntries r' \<subseteq> (if ok then insert (p, \<lparr>la_owner = normOwner owner, la_peer = p, la_connectedAt = clk 0\<rparr>) (appEntries r)
      else appEntries r)" "daemonEntries r' = daemonEntries r"
  using assms
  by (auto simp: RegisterAppIfValid_def Let_def appEntries_def daemonEntries_def split: if_splits
      dest!: subsetD [OF set_gm_put])

lemma frame_reconcile [simp]:
  "cr_apps (snd (reconcileDirectSessionsLocked owner info trusted ds p r)) = cr_apps r"
  "cr_daemons (snd (reconcileDirectSessionsLocked owner info trusted ds p r)) = cr_daemons r"
proof -
  have step: "cr_apps (snd (snd (reconcileReport owner info trusted p d st))) = cr_apps (snd (snd st)) \<and>
      cr_daemons (snd (snd (reconcileReport owner info trusted p d st))) = cr_daemons (snd (snd st))" for d st
    by (cases st) (simp add: reconcileReport_def Let_def split: option.split prod.split)
  have "cr_apps (snd (snd (fold (reconcileReport owner info trusted p) ds st))) = cr_apps (snd (snd st)) \<and>
      cr_daemons (snd (snd (fold (reconcileReport owner info trusted p) ds st))) = cr_daemons (snd (snd st))" for st
    by (induction ds arbitrary: st) (simp_all add: step)
  from this [of "({}, [], r)"]
  show "cr_apps (snd (reconcileDirectSessionsLocked owner info trusted ds p r)) = cr_apps r"
    "cr_daemons (snd (reconcileDirectSessionsLocked owner info trusted ds p r)) = cr_daemons r"
    by (simp_all add: reconcileDirectSessionsLocked_def Let_def split_def)
qed

lemma frame_dropDaemon [simp]:
  "cr_apps (snd (snd (dropDaemonLocked k p r))) = cr_apps r"
  "cr_daemons (snd (snd (dropDaemonLocked k p r))) = gm_del k (cr_daemons r)"
  by (simp_all add: dropDaemonLocked_def removeCorrelationsForDaemonLocked_def Let_def split_def)

lemma registering_daemon:
  assumes "RegisterDaemonIfValidWithDirectSessions ok clk owner info trusted ds p sv r = ((peers, done), es, r')"
  shows "appEntries r' = appEntries r"
    "daemonEntries r' \<subseteq> (if done then insert (daemonMapKey (do_UserID owner) (TrimSpace (di_DeviceID info)), p, owner,
       TrimSpace (di_DeviceID info)) (daemonEntries r) else daemonEntries r)"
proof -
  have put: "daemonEntry ` set (gm_put k live m) \<subseteq> insert (k, p, owner, d) (daemonEntry ` set (cr_daemons r))"
    if "set m \<subseteq> set (cr_daemons r)" "ld_peer live = p" "ld_owner live = owner" "di_DeviceID (ld_info live) = d" for k live m d
  proof -
    have "daemonEntry (k, live) = (k, p, owner, d)" using that(2-4) by (simp add: daemonEntry_def)
    then show ?thesis using image_gm_put [of daemonEntry k live m] image_mono [OF that(1), of daemonEntry] by auto
  qed
  show "appEntries r' = appEntries r"
    using assms
    by (auto simp: RegisterDaemonIfValidWithDirectSessions_def Let_def split_def appEntries_def
        split: if_splits option.splits)
  let ?k = "daemonMapKey (do_UserID owner) (TrimSpace (di_DeviceID info))"
  let ?live = "\<lparr>ld_info = info\<lparr>di_DeviceID := TrimSpace (di_DeviceID info),
      di_DaemonFingerprint := normalizeFingerprint (di_DaemonFingerprint info)\<rparr>, ld_owner = owner, ld_peer = p,
      ld_trusted = trustedMapFromSlice trusted, ld_connectedAt = clk 0\<rparr>"
  have old: "cr_daemons r' = cr_daemons r" if "\<not> done"
    using assms that by (auto simp: RegisterDaemonIfValidWithDirectSessions_def Let_def split_def split: if_splits)
  have new: "cr_daemons r' = gm_put ?k ?live (cr_daemons r) \<or> cr_daemons r' = gm_put ?k ?live (gm_del ?k (cr_daemons r))" if "done"
    using assms that
    by (auto simp: RegisterDaemonIfValidWithDirectSessions_def Let_def split_def split: if_splits option.splits)
  let ?new = "insert (?k, p, owner, TrimSpace (di_DeviceID info)) (daemonEntry ` set (cr_daemons r))"
  have sub: "set (gm_del ?k (cr_daemons r)) \<subseteq> set (cr_daemons r)" unfolding gm_del_def by (rule filter_is_subset)
  have p1: "daemonEntry ` set (gm_put ?k ?live (cr_daemons r)) \<subseteq> ?new" by (rule put [OF subset_refl]) simp_all
  have p2: "daemonEntry ` set (gm_put ?k ?live (gm_del ?k (cr_daemons r))) \<subseteq> ?new" by (rule put [OF sub]) simp_all
  have "daemonEntries r' \<subseteq> insert (?k, p, owner, TrimSpace (di_DeviceID info)) (daemonEntries r)" if "done"
    using new [OF that]
  proof
    assume e: "cr_daemons r' = gm_put ?k ?live (cr_daemons r)"
    show ?thesis unfolding daemonEntries_def e by (rule p1)
  next
    assume e: "cr_daemons r' = gm_put ?k ?live (gm_del ?k (cr_daemons r))"
    show ?thesis unfolding daemonEntries_def e by (rule p2)
  qed
  then show "daemonEntries r' \<subseteq> (if done then insert (?k, p, owner, TrimSpace (di_DeviceID info)) (daemonEntries r)
      else daemonEntries r)"
    using old by (simp add: daemonEntries_def)
qed

lemma DisconnectApp_gone: "(p, app) \<notin> appEntries (snd (snd (DisconnectApp ok p r)))"
proof (cases "gm_get (cr_apps r) p")
  case None
  then have "(p, app) \<notin> set (cr_apps r)" by (auto simp: gm_get_def dest: weak_map_of_SomeI)
  then show ?thesis using None by (simp add: DisconnectApp_def appEntries_def)
qed (simp add: DisconnectApp_def Let_def split_def appEntries_def set_gm_del)

lemma DisconnectDaemon_gone:
  assumes "\<And>k' o'. (k', p, o', d) \<in> daemonEntries r \<Longrightarrow> k' = k"
  shows "(k', p, o', d) \<notin> daemonEntries (snd (snd (DisconnectDaemon ok d p r)))"
proof
  assume in': "(k', p, o', d) \<in> daemonEntries (snd (snd (DisconnectDaemon ok d p r)))"
  then have inr: "(k', p, o', d) \<in> daemonEntries r" using leaving(2) [of r ok d p] unfolding noNewcomers_def by blast
  then obtain live where live: "(k', live) \<in> set (cr_daemons r)" "ld_peer live = p" "di_DeviceID (ld_info live) = d"
    by (auto simp: daemonEntries_def daemonEntry_def)
  then have "daemonByDevicePeerLocked d p r \<noteq> None"
    by (auto simp: daemonByDevicePeerLocked_def find_None_iff)
  then obtain k2 live2 where f: "daemonByDevicePeerLocked d p r = Some (k2, live2)" by fastforce
  have "(k2, p, ld_owner live2, d) \<in> daemonEntries r"
    using find_in [OF f [unfolded daemonByDevicePeerLocked_def]] by (force simp: daemonEntries_def daemonEntry_def)
  then have "k2 = k'" using assms inr by blast
  then show False
    using in' f by (auto simp: DisconnectDaemon_def Let_def split_def daemonEntries_def daemonEntry_def set_gm_del)
qed

end
