(* ===== verification/Device_Parties.thy ===== *)
theory Device_Parties
  imports Device_System
begin

text \<open>
  Who holds what in the device registry: the connection and the owner of every device, and the waiting connections. Only
  \<open>RegisterPending\<close> and \<open>ActivatePending\<close> bring a connection in.
\<close>

definition holder :: "devRegistry \<Rightarrow> string \<Rightarrow> (devPeer \<times> DeviceOwner) option" where
  "holder r d = map_option (\<lambda>live. (lv_peer live, lv_owner live)) (gm_get (dg_devices r) d)"

named_theorems holder_simps \<open>who holds a device after a section\<close>

lemma holder_setInFlight [holder_simps]: "holder (setInFlight d b r) = holder r"
  by (auto simp: holder_def setInFlight_def fun_eq_iff split: option.split)

lemma holder_frames [holder_simps]:
  "holder (r\<lparr>dg_requests := a\<rparr>) = holder r" "holder (r\<lparr>dg_completedLaunches := b\<rparr>) = holder r"
  "holder (r\<lparr>dg_terminateRequests := c\<rparr>) = holder r" "holder (r\<lparr>dg_pending := e\<rparr>) = holder r"
  "holder (r\<lparr>dg_results := f\<rparr>) = holder r" "holder (r\<lparr>dg_terminated := g\<rparr>) = holder r"
  "holder (r\<lparr>dg_nextPtr := h\<rparr>) = holder r"
  by (simp_all add: holder_def fun_eq_iff)

lemma pending_setInFlight [holder_simps]: "dg_pending (setInFlight d b r) = dg_pending r"
  by (simp add: setInFlight_def split: option.split)

lemma holder_clear [holder_simps]:
  "holder (snd (clearRequestLocked k r)) = holder r" "dg_pending (snd (clearRequestLocked k r)) = dg_pending r"
  "holder (snd (clearTerminateRequestLocked k r)) = holder r"
  "dg_pending (snd (clearTerminateRequestLocked k r)) = dg_pending r"
  by (simp_all add: clearRequestLocked_def clearTerminateRequestLocked_def Let_def holder_simps split: option.split)

lemma holder_complete [holder_simps]:
  "holder (completeLaunchRequest q res r) = holder r" "dg_pending (completeLaunchRequest q res r) = dg_pending r"
  "holder (completeTerminateRequest q' res' r) = holder r"
  "dg_pending (completeTerminateRequest q' res' r) = dg_pending r"
  by (simp_all add: completeLaunchRequest_def completeTerminateRequest_def holder_simps split: option.split)

text \<open>A loop whose rounds keep a view of the registry keeps it.\<close>

lemma fold_keeps: "(\<And>x s. x \<in> set xs \<Longrightarrow> v (f x s) = v s) \<Longrightarrow> v (fold f xs s) = v s"
  by (induction xs arbitrary: s) simp_all

lemma holder_offline [holder_simps]:
  "holder (completeDeviceRequestsLocked d res r) = holder r"
  "dg_pending (completeDeviceRequestsLocked d res r) = dg_pending r"
  "holder (completeDeviceTerminateRequestsLocked d res' r) = holder r"
  "dg_pending (completeDeviceTerminateRequestsLocked d res' r) = dg_pending r"
  unfolding completeDeviceRequestsLocked_def completeDeviceTerminateRequestsLocked_def
  by (rule fold_keeps, simp add: holder_simps split: prod.split)+

lemma holder_install [holder_simps]:
  "holder (snd (installDevice clk info owner peer r)) = (holder r)(dv_DeviceID info \<mapsto> (peer, owner))"
  "dg_pending (snd (installDevice clk info owner peer r)) = dg_pending r"
proof -
  define r1 where "r1 = (case gm_get (dg_devices r) (dv_DeviceID info) of None \<Rightarrow> r
     | Some old \<Rightarrow> if lv_peer old = peer then r
         else completeDeviceTerminateRequestsLocked (dv_DeviceID info) offlineTerminate
                (completeDeviceRequestsLocked (dv_DeviceID info) offlineLaunch r))"
  have r1: "holder r1 = holder r" "dg_pending r1 = dg_pending r"
    by (simp_all add: r1_def holder_simps split: option.split)
  have "snd (installDevice clk info owner peer r) =
      r1\<lparr>dg_devices := gm_put (dv_DeviceID info) \<lparr>lv_info = info, lv_owner = owner, lv_peer = peer,
        lv_connectedAt = clk 0, lv_inFlight = hasPendingRequestLocked (dv_DeviceID info) r1\<rparr> (dg_devices r1)\<rparr>"
    by (simp add: installDevice_def r1_def Let_def split: option.split)
  then show "holder (snd (installDevice clk info owner peer r)) = (holder r)(dv_DeviceID info \<mapsto> (peer, owner))"
    "dg_pending (snd (installDevice clk info owner peer r)) = dg_pending r"
    using r1 by (simp_all add: holder_def fun_eq_iff)
qed

lemma holder_drop [holder_simps]:
  "holder (dropDevice d r) = (holder r)(d := None)" "dg_pending (dropDevice d r) = dg_pending r"
  by (auto simp: dropDevice_def holder_simps) (simp add: holder_def fun_eq_iff)

lemma holder_launch [holder_simps]:
  "holder (snd (Launch_begin clk d u r)) = holder r" "dg_pending (snd (Launch_begin clk d u r)) = dg_pending r"
  "holder (clearRequest k r) = holder r" "dg_pending (clearRequest k r) = dg_pending r"
  "holder (snd (timeoutLaunchRequest k r)) = holder r" "dg_pending (snd (timeoutLaunchRequest k r)) = dg_pending r"
proof -
  show "holder (snd (timeoutLaunchRequest k r)) = holder r" "dg_pending (snd (timeoutLaunchRequest k r)) = dg_pending r"
    using holder_clear(1,2) [of k r]
    by (cases "clearRequestLocked k r"; simp add: timeoutLaunchRequest_def Let_def holder_simps split: option.split)+
  show "holder (snd (Launch_begin clk d u r)) = holder r"
    by (auto simp: Launch_begin_def Let_def holder_def fun_eq_iff split: option.split)
qed (simp_all add: Launch_begin_def clearRequest_def Let_def holder_simps split: option.split)

lemma holder_answers [holder_simps]:
  "holder (completeRequestLocked k res r) = holder r" "dg_pending (completeRequestLocked k res r) = dg_pending r"
  "holder (completeTerminateRequestLocked k res' r) = holder r"
  "dg_pending (completeTerminateRequestLocked k res' r) = dg_pending r"
  "holder (deleteCompletedLaunchTargetLocked t r) = holder r"
  "dg_pending (deleteCompletedLaunchTargetLocked t r) = dg_pending r"
  by (simp_all add: completeRequestLocked_def completeTerminateRequestLocked_def deleteCompletedLaunchTargetLocked_def
      Let_def split_def holder_simps)

lemma holder_ready [holder_simps]:
  "holder (snd (completeReadyLaunchLocked k q sid r)) = holder r"
  "dg_pending (snd (completeReadyLaunchLocked k q sid r)) = dg_pending r"
  by (simp_all add: completeReadyLaunchLocked_def Let_def holder_simps)

lemma holder_frames_ops [holder_simps]:
  "holder (snd (ResolveLaunchIfOwner d p k status reason w r)) = holder r"
  "dg_pending (snd (ResolveLaunchIfOwner d p k status reason w r)) = dg_pending r"
  "holder (snd (CompleteLaunchIfOwner k owner sid r)) = holder r"
  "dg_pending (snd (CompleteLaunchIfOwner k owner sid r)) = dg_pending r"
  "holder (snd (ResolveTerminateIfOwner d p k status reason r)) = holder r"
  "dg_pending (snd (ResolveTerminateIfOwner d p k status reason r)) = dg_pending r"
  "dg_pending (snd (UpdateIfOwner d p info r)) = dg_pending r"
  by (simp_all add: ResolveLaunchIfOwner_def CompleteLaunchIfOwner_def ResolveTerminateIfOwner_def UpdateIfOwner_def
      Let_def split_def holder_simps split: option.split)

lemma holder_Update [holder_simps]: "holder (snd (UpdateIfOwner d p info r)) = holder r"
  by (auto simp: UpdateIfOwner_def holder_def fun_eq_iff split: option.split)

lemma holder_pending_ops [holder_simps]:
  "holder (RegisterPending owner p r) = holder r"
  "holder (snd (snd (DisconnectPending p r))) = holder r"
  by (simp_all add: RegisterPending_def DisconnectPending_def holder_simps split: option.split)

lemma holder_DisconnectIfOwner:
  "holder (snd (snd (DisconnectIfOwner_dev d p r))) =
     (if p \<noteq> None \<and> (\<exists>owner. holder r d = Some (p, owner)) then (holder r)(d := None) else holder r)"
  "dg_pending (snd (snd (DisconnectIfOwner_dev d p r))) = dg_pending r"
  by (auto simp: DisconnectIfOwner_dev_def holder_simps split: option.split) (auto simp: holder_def)

lemma holder_DisconnectToken:
  "holder (snd (snd (DisconnectAgentTokenDevices t r))) d = Some h \<Longrightarrow> holder r d = Some h"
  "dg_pending (snd (snd (DisconnectAgentTokenDevices t r))) = gm_drop (\<lambda>owner. ow_AgentTokenID owner = t) (dg_pending r)"
proof -
  let ?f = "\<lambda>(deviceID :: string, _ :: liveDevice). dropDevice deviceID"
  have "holder (fold ?f vs r) d = Some h \<Longrightarrow> holder r d = Some h" for vs r
  proof (induction vs arbitrary: r)
    case (Cons v vs)
    then show ?case using Cons.IH [of "dropDevice (fst v) r"] by (cases v) (auto simp: holder_simps split: if_splits)
  qed simp
  then show "holder (snd (snd (DisconnectAgentTokenDevices t r))) d = Some h \<Longrightarrow> holder r d = Some h"
    by (simp add: DisconnectAgentTokenDevices_def Let_def holder_simps)
  have "dg_pending (fold ?f vs r) = dg_pending r" for vs r
    by (rule fold_keeps) (simp add: holder_simps split: prod.split)
  then show "dg_pending (snd (snd (DisconnectAgentTokenDevices t r))) =
      gm_drop (\<lambda>owner. ow_AgentTokenID owner = t) (dg_pending r)"
    by (simp add: DisconnectAgentTokenDevices_def Let_def)
qed

lemma holder_Activate:
  "ActivatePending clk info owner p r = (True, es, r') \<Longrightarrow>
     holder r' = (holder r)(dv_DeviceID info \<mapsto> (p, owner)) \<and> dg_pending r' = gm_del p (dg_pending r) \<and>
     gm_get (dg_pending r) p = Some owner"
  "ActivatePending clk info owner p r = (False, es, r') \<Longrightarrow>
     holder r' = holder r \<and> (dg_pending r' = dg_pending r \<or> dg_pending r' = gm_del p (dg_pending r))"
proof -
  let ?r = "r\<lparr>dg_pending := gm_del p (dg_pending r)\<rparr>"
  have i: "holder (snd (installDevice clk info owner p ?r)) = (holder r)(dv_DeviceID info \<mapsto> (p, owner))"
    "dg_pending (snd (installDevice clk info owner p ?r)) = gm_del p (dg_pending r)"
    by (simp_all add: holder_simps)
  show "ActivatePending clk info owner p r = (True, es, r') \<Longrightarrow>
     holder r' = (holder r)(dv_DeviceID info \<mapsto> (p, owner)) \<and> dg_pending r' = gm_del p (dg_pending r) \<and>
     gm_get (dg_pending r) p = Some owner"
    using i by (auto simp: ActivatePending_def Let_def split: if_splits option.splits)
  show "ActivatePending clk info owner p r = (False, es, r') \<Longrightarrow>
     holder r' = holder r \<and> (dg_pending r' = dg_pending r \<or> dg_pending r' = gm_del p (dg_pending r))"
    by (auto simp: ActivatePending_def Let_def holder_simps split: if_splits option.splits)
qed

end
