(* ===== verification/Relay_System.thy ===== *)
theory Relay_System
  imports Relay_Ws Conn_Props2 Device_Props Auth_Runs Conn_Parties Device_Parties
begin

text \<open>
  The relay as a composition: every HTTP request and every later frame of a websocket is, for the database and for
  each of the three registries, a run of that component, and registers nobody who was not registered before. What is
  proved of the runs of a component thus holds of the relay.
\<close>

section \<open>Runs of the components\<close>

definition dbRun :: "authDB \<Rightarrow> authDB \<Rightarrow> bool" where
  "dbRun db db' \<longleftrightarrow> (\<exists>ops. db' = runOps ops db)"

definition connRun :: "connRegistry \<Rightarrow> connRegistry \<Rightarrow> bool" where
  "connRun r r' \<longleftrightarrow> (\<exists>T. conn_run r T r')"

text \<open>Runs after which nobody is registered who was not before.\<close>

definition sessEntries :: "sessRegistry \<Rightarrow> (string \<times> agentPeer \<times> SessionOwner) set" where
  "sessEntries r = (\<lambda>(k, live). (k, ls_peer live, ls_owner live)) ` set (sg_sessions r)"

definition sessQuiet :: "sessRegistry \<Rightarrow> sessRegistry \<Rightarrow> bool" where
  "sessQuiet r r' \<longleftrightarrow> sess_step\<^sup>*\<^sup>* r r' \<and> sessEntries r' \<subseteq> sessEntries r"

definition devQuiet :: "devRegistry \<Rightarrow> devRegistry \<Rightarrow> bool" where
  "devQuiet r r' \<longleftrightarrow> dev_step\<^sup>*\<^sup>* r r' \<and> holder r' \<subseteq>\<^sub>m holder r \<and> set (dg_pending r') \<subseteq> set (dg_pending r)"

definition connQuiet :: "connRegistry \<Rightarrow> connRegistry \<Rightarrow> bool" where
  "connQuiet r r' \<longleftrightarrow> connRun r r' \<and> noNewcomers r r'"

definition relayRun :: "relay \<Rightarrow> relay \<Rightarrow> bool" where
  "relayRun st st' \<longleftrightarrow> dbRun (rl_db st) (rl_db st') \<and> connQuiet (rl_conn st) (rl_conn st') \<and>
     sessQuiet (rl_sess st) (rl_sess st') \<and> devQuiet (rl_dev st) (rl_dev st')"

lemma dbRun_refl [simp, intro]: "dbRun db db"
  unfolding dbRun_def by (rule exI [of _ "[]"]) simp

lemma dbRun_ops [simp, intro]: "dbRun db (runOps ops db)"
  by (auto simp: dbRun_def)

lemma dbRun_op: "dbRun db (runOp op db)"
  using dbRun_ops [of db "[op]"] by simp

lemma runOps_append: "runOps (ops @ ops') db = runOps ops' (runOps ops db)"
  by (simp add: runOps_def)

lemma dbRun_trans: "dbRun db db1 \<Longrightarrow> dbRun db1 db2 \<Longrightarrow> dbRun db db2"
  unfolding dbRun_def by (metis runOps_append)

lemma connRun_refl [simp, intro]: "connRun r r"
  by (auto simp: connRun_def intro: run_refl)

lemma connRun_trans: "connRun r r1 \<Longrightarrow> connRun r1 r2 \<Longrightarrow> connRun r r2"
  unfolding connRun_def using run_trans by blast

lemma connRun_step: "conn_step r T r' \<Longrightarrow> connRun r r'"
  by (auto simp: connRun_def intro: run_one)

lemma quiet_refl [simp, intro]: "connQuiet r r" "sessQuiet r1 r1" "devQuiet r2 r2"
  by (simp_all add: connQuiet_def sessQuiet_def devQuiet_def)

lemma quiet_trans:
  "connQuiet r r1 \<Longrightarrow> connQuiet r1 r2 \<Longrightarrow> connQuiet r r2"
  "sessQuiet s s1 \<Longrightarrow> sessQuiet s1 s2 \<Longrightarrow> sessQuiet s s2"
  "devQuiet d d1 \<Longrightarrow> devQuiet d1 d2 \<Longrightarrow> devQuiet d d2"
proof -
  show "connQuiet r r1 \<Longrightarrow> connQuiet r1 r2 \<Longrightarrow> connQuiet r r2"
    unfolding connQuiet_def by (blast intro: connRun_trans noNewcomers_trans)
  show "sessQuiet s s1 \<Longrightarrow> sessQuiet s1 s2 \<Longrightarrow> sessQuiet s s2"
    unfolding sessQuiet_def by (auto intro: rtranclp_trans)
  show "devQuiet d d1 \<Longrightarrow> devQuiet d1 d2 \<Longrightarrow> devQuiet d d2"
    unfolding devQuiet_def by (auto intro: rtranclp_trans map_le_trans)
qed

lemma relayRun_refl [simp, intro]: "relayRun st st"
  by (simp add: relayRun_def)

lemma relayRun_trans: "relayRun st st1 \<Longrightarrow> relayRun st1 st2 \<Longrightarrow> relayRun st st2"
  unfolding relayRun_def using dbRun_trans quiet_trans by blast

section \<open>Store and services\<close>

lemma dbRun_store:
  "dbRun db (snd (RegisterUser env ru db))" "dbRun db (snd (ChangeUserPassword env uid hash now db))"
  "dbRun db (snd (CreateAppSession env cs db))" "dbRun db (snd (RotateAppSessionByRefreshToken env rs db))"
  "dbRun db (snd (RevokeAppSession env sid now reason db))" "dbRun db (snd (CreateAgentToken_db env ca db))"
  "dbRun db (snd (AuthenticateAgentToken env digest now db))" "dbRun db (snd (RevokeAgentToken_db env uid tid actor now db))"
  "dbRun db (snd (CreateInviteCodes_db env cis db))" "dbRun db (snd (DisableInviteCode_db env code actor now db))"
  "dbRun db (snd (DeleteUser_db env name actor now db))" "dbRun db (snd (SetUserSubscriptionTier_db env name tier actor now db))"
  using dbRun_op [of db "OpRegister env ru"] dbRun_op [of db "OpPassword env uid hash now"]
    dbRun_op [of db "OpCreateSession env cs"] dbRun_op [of db "OpRotate env rs"]
    dbRun_op [of db "OpRevokeSession env sid now reason"] dbRun_op [of db "OpCreateToken env ca"]
    dbRun_op [of db "OpUseToken env digest now"] dbRun_op [of db "OpRevokeToken env uid tid actor now"]
    dbRun_op [of db "OpInvites env cis"] dbRun_op [of db "OpDisable env code actor now"]
    dbRun_op [of db "OpDelete env name actor now"] dbRun_op [of db "OpTier env name tier actor now"]
  by simp_all

lemma dbRun_pair: "x = (a, db') \<Longrightarrow> dbRun db (snd x) \<Longrightarrow> dbRun db db'"
  by simp

lemma dbRun_Register: "dbRun db (snd (Register cy s rnd clk env u p i db))"
  by (simp add: Register_def dbRun_store split: sum.split)

lemma dbRun_issue: "dbRun db (snd (issueSession cy s rnd clk env user fp db))"
proof -
  have "dbRun db db'" if "CreateAppSession env params db = (x, db')" for params x db'
    by (rule dbRun_pair [OF that dbRun_store(3)])
  then show ?thesis by (simp add: issueSession_def Let_def split: sum.split prod.split)
qed

lemma dbRun_Login: "dbRun db (snd (LoginWithDeviceFingerprint cy s rnd clk env env' others u p fp db))"
  using dbRun_trans [OF dbRun_ops dbRun_issue]
  by (simp add: LoginWithDeviceFingerprint_def login_def split: sum.split option.split)

lemma dbRun_Refresh: "dbRun db (snd (RefreshWithDeviceFingerprint cy s rnd clk env env' others t fp db))"
proof -
  have "dbRun db (runOps others db')" if "RotateAppSessionByRefreshToken env params db = (x, db')" for params x db'
    using dbRun_trans [OF dbRun_pair [OF that dbRun_store(4)] dbRun_ops] .
  then show ?thesis
    by (simp add: RefreshWithDeviceFingerprint_def refresh_def Let_def split: sum.split prod.split)
qed

lemma dbRun_Logout: "dbRun db (snd (Logout clk env app db))"
  by (simp add: Logout_def dbRun_store)

lemma dbRun_ChangePassword: "dbRun db (snd (ChangePassword cy s rnd clk env app cur new db))"
  by (simp add: ChangePassword_def dbRun_store split: sum.split option.split)

lemma dbRun_Create: "dbRun db (snd (Create_token cy dg rnd clk env uid name db))"
proof -
  have "dbRun db db'" if "CreateAgentToken_db env params db = (x, db')" for params x db'
    by (rule dbRun_pair [OF that dbRun_store(6)])
  then show ?thesis by (simp add: Create_token_def Let_def split: sum.split prod.split)
qed

lemma dbRun_RevokeToken: "dbRun db (snd (Revoke_token clk env uid tid actor db))"
  by (simp add: Revoke_token_def dbRun_store)

lemma dbRun_Authenticate: "dbRun db (snd (Authenticate_token cy dg clk env env' others token db))"
proof -
  have "dbRun db (runOps others db')" if "AuthenticateAgentToken env digest now db = (x, db')" for digest now x db'
    using dbRun_trans [OF dbRun_pair [OF that dbRun_store(7)] dbRun_ops] .
  then show ?thesis by (simp add: Authenticate_token_def split: sum.split prod.split)
qed

lemma dbRun_Invites: "dbRun db (snd (CreateInviteCodes clk bufs env count days db))"
proof -
  have "dbRun db db'" if "CreateInviteCodes_db env params db = (x, db')" for params x db'
    by (rule dbRun_pair [OF that dbRun_store(9)])
  then show ?thesis by (simp add: CreateInviteCodes_def Let_def split: sum.split prod.split)
qed

lemma dbRun_operator:
  "dbRun db (snd (DisableInviteCode clk env code db))" "dbRun db (snd (DeleteUser clk env username db))"
  "dbRun db (snd (SetUserSubscriptionTier clk env username tier db))"
  by (simp_all add: DisableInviteCode_def DeleteUser_def SetUserSubscriptionTier_def dbRun_store split: sum.split)

lemmas service_runs = dbRun_Register dbRun_Login dbRun_Refresh dbRun_Logout dbRun_ChangePassword dbRun_Create
  dbRun_RevokeToken dbRun_Authenticate dbRun_Invites dbRun_operator

section \<open>HTTP requests\<close>

lemma sessEntries_drop: "sessEntries (snd (snd (disconnectMatching p r))) \<subseteq> sessEntries r"
  by (auto simp: disconnectMatching_def sessEntries_def Let_def set_gm_drop)

lemma sessQuiet_revoke:
  "sessQuiet r (snd (snd (DisconnectAgentTokenSessions t r)))" "sessQuiet r (snd (snd (DisconnectUserSessions u r)))"
  unfolding DisconnectAgentTokenSessions_def DisconnectUserSessions_def sessQuiet_def
  by (intro conjI r_into_rtranclp sess_step.Revoke sessEntries_drop)+

lemma devQuietI: "dev_step r r' \<Longrightarrow> (\<And>d h. holder r' d = Some h \<Longrightarrow> holder r d = Some h) \<Longrightarrow>
    set (dg_pending r') \<subseteq> set (dg_pending r) \<Longrightarrow> devQuiet r r'"
  unfolding devQuiet_def map_le_def by (metis domD r_into_rtranclp)

lemma devQuiet_token: "devQuiet r (snd (snd (DisconnectAgentTokenDevices t r)))"
  by (rule devQuietI, rule dev_step.DisconnectToken, erule holder_DisconnectToken(1))
    (auto simp: holder_DisconnectToken(2) set_gm_drop)

lemma connQuiet_step: "conn_step r T r' \<Longrightarrow> noNewcomers r r' \<Longrightarrow> connQuiet r r'"
  by (simp add: connQuiet_def connRun_step)

lemma connQuiet_pairing:
  "connQuiet r (snd (forwardPairing_begin clk u ap aowner c r))" "connQuiet r (forwardPairing_finish u k p r)"
  by (rule connQuiet_step, rule conn_step.intros, rule quiet_pairing)+

lemma connQuiet_forward: "connQuiet r (snd (snd (ForwardPairingResponseFromApp ok clk owner peer cid response r)))"
proof -
  let ?f = "forwardPairing_begin clk (ao_UserID (normOwner owner)) peer (normOwner owner) cid r"
  have "connQuiet r (snd ?f)" "connQuiet r (forwardPairing_finish u k p (snd ?f))" for u k p
    by (rule connQuiet_pairing quiet_trans(1) [OF connQuiet_pairing])+
  then show ?thesis
    by (cases ?f) (auto simp: ForwardPairingResponseFromApp_def forwardPairingResponse_def Let_def split: sum.split)
qed

lemma connQuiet_ops:
  "connQuiet r (snd (snd (DisconnectAppSession ok sid r)))" "connQuiet r (snd (snd (DisconnectUser ok clk uid r)))"
  "connQuiet r (snd (snd (DisconnectAgentToken ok tok r)))"
  by (rule connQuiet_step, rule conn_step.intros, rule leaving)+

text \<open>The component a handler's registry call leaves, read off its result.\<close>

lemma run_result:
  "DisconnectAgentTokenSessions t r1 = (n, ses, r1') \<Longrightarrow> sessQuiet r1 r1'"
  "DisconnectUserSessions u r1 = (n, ses, r1') \<Longrightarrow> sessQuiet r1 r1'"
  "DisconnectAgentTokenDevices t r2 = (m, des, r2') \<Longrightarrow> devQuiet r2 r2'"
  "DisconnectAppSession ok sid r = (k, ces, r') \<Longrightarrow> connQuiet r r'"
  "DisconnectUser ok clk uid r = (k, ces, r') \<Longrightarrow> connQuiet r r'"
  "DisconnectAgentToken ok tok r = (k, ces, r') \<Longrightarrow> connQuiet r r'"
  "ForwardPairingResponseFromApp ok clk owner peer cid response r = (err, ces, r') \<Longrightarrow> connQuiet r r'"
  using sessQuiet_revoke(1) [of r1 t] sessQuiet_revoke(2) [of r1 u] devQuiet_token [of r2 t] connQuiet_ops(1) [of r ok sid]
    connQuiet_ops(2) [of r ok clk uid] connQuiet_ops(3) [of r ok tok] connQuiet_forward [of r ok clk owner peer cid response]
  by simp_all

lemmas service_result = service_runs [THEN dbRun_pair [rotated]]

lemma run_AppAuth:
  assumes "\<And>app st. relayRun st (snd (snd (nxt app st)))"
  shows "relayRun st (snd (snd (AppAuth s e req nxt st)))"
proof -
  have "relayRun st (st\<lparr>rl_db := runOps ops (rl_db st)\<rparr>)" for ops by (simp add: relayRun_def)
  then show ?thesis using relayRun_trans [OF _ assms]
    by (simp add: AppAuth_def Let_def split: option.split sum.split)
qed

lemma run_OperatorAuth:
  assumes "\<And>st. relayRun st (snd (snd (nxt st)))"
  shows "relayRun st (snd (snd (OperatorAuth token req nxt st)))"
  using assms by (simp add: OperatorAuth_def Let_def)

lemma run_auth:
  "relayRun st (snd (snd (Register_http a e req rb st)))" "relayRun st (snd (snd (Login_http a e lb st)))"
  "relayRun st (snd (snd (Refresh_http a e fb st)))" "relayRun st (snd (snd (Logout_http a e app st)))"
  "relayRun st (snd (snd (ChangePassword_http s e cb app st)))" "relayRun st (snd (snd (AccountPolicy app st)))"
  by (auto simp: Register_http_def Login_http_def Refresh_http_def Logout_http_def ChangePassword_http_def
      AccountPolicy_def relayRun_def Let_def dest: service_result run_result split: option.split sum.split prod.split)

lemma run_tokens:
  "relayRun st (snd (snd (ListAgentTokens_http d e app st)))" "relayRun st (snd (snd (CreateAgentToken_http d e b app st)))"
  "relayRun st (snd (snd (RevokeAgentToken_http d e tid app st)))"
  by (auto simp: ListAgentTokens_http_def CreateAgentToken_http_def RevokeAgentToken_http_def relayRun_def Let_def
      dest: service_result run_result split: option.split sum.split prod.split)

lemma run_operator:
  "relayRun st (snd (snd (CreateInvites svc e ib st)))" "relayRun st (snd (snd (ListInvites svc e st)))"
  "relayRun st (snd (snd (DisableInvite svc e b st)))" "relayRun st (snd (snd (DeleteUser_http svc e b st)))"
  "relayRun st (snd (snd (SetUserTier svc e tb st)))"
  by (auto simp: CreateInvites_def ListInvites_def DisableInvite_def DeleteUser_http_def SetUserTier_def relayRun_def
      Let_def dest: service_result run_result split: option.split sum.split prod.split)

lemma run_pairing: "relayRun st (snd (snd (SubmitPairingResponse e req b app st)))"
  by (auto simp: SubmitPairingResponse_def relayRun_def Let_def dest: run_result split: option.split sum.split prod.split)

lemma run_serveApi: "relayRun st (snd (snd (serveApi v a e req q st)))"
  by (cases q) (simp_all add: run_AppAuth run_OperatorAuth run_auth run_tokens run_operator run_pairing ListComputers_def)

section \<open>Websocket sections\<close>

lemma devQuiet_frames:
  "devQuiet r (snd (CompleteLaunchIfOwner k owner sid r))"
  "devQuiet r (snd (ResolveLaunchIfOwner d p k status reason w r))"
  "devQuiet r (snd (ResolveTerminateIfOwner d p k status reason r))"
  "devQuiet r (snd (UpdateIfOwner d p info r))"
  "devQuiet r (snd (Launch_begin clk d u r))"
  "devQuiet r (clearRequest k r)"
  "devQuiet r (snd (timeoutLaunchRequest k r))"
  by (rule devQuietI, rule dev_step.intros, simp_all add: holder_simps)+

lemma devQuiet_leave:
  "devQuiet r (snd (snd (DisconnectIfOwner_dev d p r)))" "devQuiet r (snd (snd (DisconnectPending p r)))"
proof -
  show "devQuiet r (snd (snd (DisconnectIfOwner_dev d p r)))"
    by (rule devQuietI, rule dev_step.Disconnect) (simp_all add: holder_DisconnectIfOwner split: if_splits)
  show "devQuiet r (snd (snd (DisconnectPending p r)))"
    by (rule devQuietI, rule dev_step.DropPending)
      (auto simp: holder_simps DisconnectPending_def set_gm_del split: option.splits if_splits)
qed

lemma sessQuiet_source: "sessQuiet r (snd (SetLaunchSourceForUser sid u src r))"
proof -
  have "sess_step r (snd (SetLaunchSourceForUser sid u src r))" by (rule sess_step.SetSource)
  moreover have "sessEntries (snd (SetLaunchSourceForUser sid u src r)) \<subseteq> sessEntries r"
    by (auto simp: SetLaunchSourceForUser_def sessEntries_def Let_def image_iff split: option.splits if_splits
        dest!: subsetD [OF set_gm_put] gm_get_in)
      (auto intro!: bexI)
  ultimately show ?thesis by (simp add: sessQuiet_def r_into_rtranclp)
qed

lemma sessQuiet_leave: "sessQuiet r (snd (agentLeave info peer r))"
proof -
  have "sess_step r (snd (agentLeave info peer r))" unfolding agentLeave_def by (rule sess_step.Disconnect)
  then show ?thesis
    by (auto simp: sessQuiet_def agentLeave_def DisconnectIfOwner_sess_def Remove_sess_def sessEntries_def set_gm_del
        split: option.splits if_splits)
qed

lemma run_agentFrame: "relayRun st (agentFrame auth info frame st)"
  using devQuiet_frames(1) sessQuiet_source
  by (auto simp: agentFrame_def relayRun_def Let_def split_def split: option.split)

lemma run_deviceFrame: "relayRun st (deviceFrame auth info peer frame st)"
  using devQuiet_frames(2-4) sessQuiet_source
  by (auto simp: deviceFrame_def relayRun_def Let_def split_def split: option.split)

lemma run_deviceLeave: "devQuiet r (snd (deviceLeave active peer r))"
proof -
  have "devQuiet r (snd (snd (DisconnectPending p (snd (snd (DisconnectIfOwner_dev d p r))))))" for d p
    by (rule quiet_trans(3) [OF devQuiet_leave])
  then show ?thesis
    using devQuiet_leave(2) by (auto simp: deviceLeave_def Let_def split_def split: option.split)
qed

lemma run_daemonRegister:
  "freshDaemonPeer peer r \<Longrightarrow> connRun r (snd (snd (daemonRegister e auth peer register valid r)))"
  by (auto simp: daemonRegister_def Let_def split_def split: option.split intro!: connRun_step [OF step_RegisterDaemon])

lemma connQuiet_daemonFrames:
  "connQuiet r (snd (snd (RevokeTrustedAndroid ok d p fp r)))" "connQuiet r (snd (snd (CompletePairing d p t r)))"
  "connQuiet r (snd (ReservePairing clk d owner p c ttl r))"
  "connQuiet r (snd (snd (ForwardRendezvousHintFromDaemon ok clk owner d p a q fp pub priv r)))"
  "connQuiet r (snd (snd (CloseRendezvousFromDaemon ok owner d p a fp r)))"
  "connQuiet r (snd (OpenDirectSessionFromDaemon clk owner d p a fp r))"
  "connQuiet r (snd (CloseDirectSessionFromDaemon owner d p a fp r))"
  "connQuiet r (snd (snd (DisconnectDaemon ok d p r)))"
  by (rule connQuiet_step, rule conn_step.intros, rule retrusting quiet_pairing quiet_rendezvous leaving)+

lemma run_daemonFrame: "connQuiet r (snd (snd (daemonFrame e auth info peer valid frame r)))"
  using connQuiet_daemonFrames(1-7) by (auto simp: daemonFrame_def Let_def split_def)

lemma run_daemonLeave: "connQuiet r (snd (daemonLeave e info peer r))"
  using connQuiet_daemonFrames(8) by (simp add: daemonLeave_def)

lemma connQuiet_appSections:
  "connQuiet r (snd (snd (CloseRendezvousFromApp ok owner p d a r)))"
  "connQuiet r (snd (snd (DisconnectApp ok p r)))"
  "connQuiet r (snd (snd (requestRelayTunnel_begin clk rnd owner ap d a q reason dl rl ttl r)))"
  "connQuiet r (snd (requestRelayTunnel_abort k n r))"
  "connQuiet r (snd (openRendezvous_begin clk owner p d a q pub priv ttl r))"
  "connQuiet r (openRendezvous_abort k n r)"
  by (rule connQuiet_step, rule conn_step.intros, rule quiet_rendezvous quiet_tunnels leaving)+

lemma connQuiet_appFrames:
  "connQuiet r (snd (snd (RequestRelayTunnelFromAppWithDiagnostics ok clk rnd owner p d a q reason dl rl ttl r)))"
  "connQuiet r (snd (snd (OpenRendezvousFromApp ok clk owner p d a q pub priv ttl r)))"
proof -
  let ?b = "requestRelayTunnel_begin clk rnd owner (Some p) d a q reason dl rl ttl r"
  have "connQuiet r (snd (snd ?b))" "connQuiet r (snd (requestRelayTunnel_abort k n (snd (snd ?b))))" for k n
    by (rule connQuiet_appSections quiet_trans(1) [OF connQuiet_appSections(3) connQuiet_appSections(4)])+
  then show "connQuiet r (snd (snd (RequestRelayTunnelFromAppWithDiagnostics ok clk rnd owner p d a q reason dl rl ttl r)))"
    by (cases ?b) (auto simp: RequestRelayTunnelFromAppWithDiagnostics_def requestRelayTunnel_def Let_def split_def
        split: sum.split)
  let ?o = "openRendezvous_begin clk owner p d a q pub priv ttl r"
  have "connQuiet r (snd ?o)" "connQuiet r (openRendezvous_abort k n (snd ?o))" for k n
    by (rule connQuiet_appSections quiet_trans(1) [OF connQuiet_appSections(5) connQuiet_appSections(6)])+
  then show "connQuiet r (snd (snd (OpenRendezvousFromApp ok clk owner p d a q pub priv ttl r)))"
    by (cases ?o) (auto simp: OpenRendezvousFromApp_def Let_def split: sum.split)
qed

lemma run_appRegister: "connRun r (snd (snd (appRegister e app peer register valid r)))"
  using connRun_step [OF step_RegisterApp] by (auto simp: appRegister_def Let_def split_def)

lemma run_appFrame: "connQuiet r (snd (snd (appFrame e draws app peer valid frame r)))"
  using connQuiet_appFrames connQuiet_appSections(1) by (auto simp: appFrame_def Let_def split_def)

lemma run_appLeave: "connQuiet r (snd (appLeave e peer r))"
  using connQuiet_appSections(2) by (simp add: appLeave_def)

lemma connQuiet_tunnels:
  "connQuiet r (snd (snd (RedeemRelayTunnelToken clk token r)))" "connQuiet r (snd (snd (AddTunnelCloser key close r)))"
  "connQuiet r (snd (MarkRelayTunnelActive key r))" "connQuiet r (snd (snd (CloseRelayTunnel key r)))"
  "connQuiet r (removeTunnelCloser key cid r)"
  by (rule connQuiet_step, rule conn_step.intros, rule quiet_tunnels)+

lemma run_tunnel:
  "connQuiet r (snd (snd (tunnelEnter e req ptr close r)))" "connQuiet r (tunnelActive endpoint r)"
  "connQuiet r (fst (snd (tunnelLeave endpoint remover r h)))"
proof -
  have red: "connQuiet r r1" if "RedeemRelayTunnelToken (rq_regClk e) token r = (x, es, r1)" for token x es r1
    using connQuiet_tunnels(1) [of r "rq_regClk e" token] that by simp
  moreover have "connQuiet r (snd (snd (AddTunnelCloser key (Some close) r1)))"
    if "RedeemRelayTunnelToken (rq_regClk e) token r = (x, es, r1)" for token key x es r1
    by (rule quiet_trans(1) [OF red [OF that] connQuiet_tunnels(2)])
  moreover obtain x es r1 where "RedeemRelayTunnelToken (rq_regClk e)
      (case BearerTokenFromRequest req of None \<Rightarrow> [] | Some t \<Rightarrow> t) r = (x, es, r1)" by (rule prod_cases3)
  ultimately show "connQuiet r (snd (snd (tunnelEnter e req ptr close r)))"
    by (cases x) (simp_all add: tunnelEnter_def Let_def split_def)
  show "connQuiet r (tunnelActive endpoint r)" using connQuiet_tunnels(3) by (simp add: tunnelActive_def)
  show "connQuiet r (fst (snd (tunnelLeave endpoint remover r h)))"
    using quiet_trans(1) [OF connQuiet_tunnels(4) connQuiet_tunnels(5)] connQuiet_tunnels(4)
    by (auto simp: tunnelLeave_def Let_def split_def split: option.split)
qed

end
