(* ===== verification/Relay_Live.thy ===== *)
theory Relay_Live
  imports Relay_System
begin

text \<open>
  The running relay: its state with the state of every websocket connection, and all interleavings of the sections of
  its handlers. A connection goes through the stages of its handler (accepted, first frame checked, registered, ended);
  store calls are steps of their own, and so are the sections of other requests. A token or access token is checked
  against the database of the moment; the lookup of its user sees that database with the store calls of others.

  A section that registers nobody is any run of a registry after which no party is registered that was not before;
  \<open>run_api\<close> and \<open>run_frames\<close> show that every HTTP request and every later frame of a connection is made of such
  sections and of store calls.
\<close>

section \<open>Quiet sections\<close>

definition relayQuiet :: "relay \<Rightarrow> relay \<Rightarrow> bool" where
  "relayQuiet st st' \<longleftrightarrow> rl_db st' = rl_db st \<and> connQuiet (rl_conn st) (rl_conn st') \<and>
     sessQuiet (rl_sess st) (rl_sess st') \<and> devQuiet (rl_dev st) (rl_dev st')"

section \<open>Connections\<close>

datatype wsConn =
    Unopened
  | AgentOpen string AuthenticatedAgentToken
  | AgentChecked AuthenticatedAgentToken SessionInfo
  | AgentLive AuthenticatedAgentToken SessionInfo
  | DeviceOpen string AuthenticatedAgentToken
  | DevicePending string AuthenticatedAgentToken
  | DeviceChecked AuthenticatedAgentToken DeviceInfo
  | DeviceLive AuthenticatedAgentToken DeviceInfo
  | DeviceLeaving AuthenticatedAgentToken
  | DaemonOpen string AuthenticatedAgentToken
  | DaemonChecked AuthenticatedAgentToken ConnectivityFrame bool
  | DaemonLive AuthenticatedAgentToken ConnectivityDaemonInfo
  | DaemonLeft AuthenticatedAgentToken ConnectivityDaemonInfo
  | AppOpen httpRequest AuthenticatedApp
  | AppChecked httpRequest AuthenticatedApp ConnectivityFrame bool
  | AppLive httpRequest AuthenticatedApp
  | Ended

fun unregistered :: "wsConn \<Rightarrow> bool" where
  "unregistered (AgentOpen _ _) = True"
| "unregistered (DeviceOpen _ _) = True"
| "unregistered (DaemonOpen _ _) = True"
| "unregistered (AppOpen _ _) = True"
| "unregistered _ = False"

record relaySystem =
  sy_relay :: relay
  sy_conns :: "nat \<Rightarrow> wsConn"

definition newSystem :: "authDB \<Rightarrow> relaySystem" where
  "newSystem db = \<lparr>sy_relay = newRouter db, sy_conns = (\<lambda>_. Unopened)\<rparr>"

abbreviation sy_db :: "relaySystem \<Rightarrow> authDB" where "sy_db s \<equiv> rl_db (sy_relay s)"
abbreviation sy_sess :: "relaySystem \<Rightarrow> sessRegistry" where "sy_sess s \<equiv> rl_sess (sy_relay s)"
abbreviation sy_dev :: "relaySystem \<Rightarrow> devRegistry" where "sy_dev s \<equiv> rl_dev (sy_relay s)"
abbreviation sy_conn :: "relaySystem \<Rightarrow> connRegistry" where "sy_conn s \<equiv> rl_conn (sy_relay s)"

definition goto :: "nat \<Rightarrow> wsConn \<Rightarrow> relaySystem \<Rightarrow> relaySystem" where
  "goto c x s = s\<lparr>sy_conns := (sy_conns s)(c := x)\<rparr>"

definition withDb :: "authDB \<Rightarrow> relaySystem \<Rightarrow> relaySystem" where
  "withDb db s = s\<lparr>sy_relay := (sy_relay s)\<lparr>rl_db := db\<rparr>\<rparr>"

definition withSess :: "sessRegistry \<Rightarrow> relaySystem \<Rightarrow> relaySystem" where
  "withSess r s = s\<lparr>sy_relay := (sy_relay s)\<lparr>rl_sess := r\<rparr>\<rparr>"

definition withDev :: "devRegistry \<Rightarrow> relaySystem \<Rightarrow> relaySystem" where
  "withDev r s = s\<lparr>sy_relay := (sy_relay s)\<lparr>rl_dev := r\<rparr>\<rparr>"

definition withConn :: "connRegistry \<Rightarrow> relaySystem \<Rightarrow> relaySystem" where
  "withConn r s = s\<lparr>sy_relay := (sy_relay s)\<lparr>rl_conn := r\<rparr>\<rparr>"

lemma sys_upd [simp]:
  "sy_conns (goto c x s) = (sy_conns s)(c := x)" "sy_relay (goto c x s) = sy_relay s"
  "sy_conns (withDb db s) = sy_conns s" "sy_relay (withDb db s) = (sy_relay s)\<lparr>rl_db := db\<rparr>"
  "sy_conns (withSess r1 s) = sy_conns s" "sy_relay (withSess r1 s) = (sy_relay s)\<lparr>rl_sess := r1\<rparr>"
  "sy_conns (withDev r2 s) = sy_conns s" "sy_relay (withDev r2 s) = (sy_relay s)\<lparr>rl_dev := r2\<rparr>"
  "sy_conns (withConn r3 s) = sy_conns s" "sy_relay (withConn r3 s) = (sy_relay s)\<lparr>rl_conn := r3\<rparr>"
  by (simp_all add: goto_def fun_upd_def withDb_def withSess_def withDev_def withConn_def)

text \<open>The store call of a token check, and its answer in the database of the moment.\<close>

definition tokenUse :: "reqEnv \<Rightarrow> SecretDigester \<Rightarrow> string \<Rightarrow> dbOp" where
  "tokenUse e d token = OpUseToken (rq_pg e) (Digest (rq_cy e) d token) (rq_clk e 0)"

definition tokenAnswer :: "reqEnv \<Rightarrow> SecretDigester \<Rightarrow> string \<Rightarrow> authDB \<Rightarrow> authError + AuthenticatedAgentToken" where
  "tokenAnswer e d token db =
     fst (Authenticate_token (rq_cy e) d (rq_clk e) (rq_pg e) (rq_pg2 e) (rq_others e) token db)"

definition accessAnswer :: "reqEnv \<Rightarrow> AppAuthService \<Rightarrow> string \<Rightarrow> authDB \<Rightarrow> authError + AuthenticatedApp" where
  "accessAnswer e a token db =
     AuthenticateAccessToken (rq_cy e) a (rq_clk e) (rq_pg e) (rq_pg2 e) (rq_others e) token db"

section \<open>Steps\<close>

text \<open>\<open>sys_step v s ops s'\<close>: the relay with the services \<open>v\<close> makes the store calls \<open>ops\<close> in this step.\<close>

inductive sys_step :: "relayServer \<Rightarrow> relaySystem \<Rightarrow> dbOp list \<Rightarrow> relaySystem \<Rightarrow> bool" for v :: relayServer where
  Store: "sys_step v s [op] (withDb (runOp op (sy_db s)) s)"
| Section: "relayQuiet (sy_relay s) st \<Longrightarrow> sys_step v s [] (s\<lparr>sy_relay := st\<rparr>)"
| Drop: "unregistered (sy_conns s c) \<Longrightarrow> sys_step v s [] (goto c Ended s)"
| AgentAccept: "sy_conns s c = Unopened \<Longrightarrow> rv_agentTokens v = Some d \<Longrightarrow> BearerTokenFromRequest req = Some token \<Longrightarrow>
    tokenAnswer e d token (sy_db s) = Inr auth \<Longrightarrow>
    x \<in> {AgentOpen token auth, DeviceOpen token auth, DaemonOpen token auth} \<Longrightarrow>
    sys_step v s [tokenUse e d token] (goto c x (withDb (runOp (tokenUse e d token) (sy_db s)) s))"
| AppAccept: "sy_conns s c = Unopened \<Longrightarrow> rv_appAuth v = Some a \<Longrightarrow> BearerTokenFromRequest req = Some token \<Longrightarrow>
    accessAnswer e a token (sy_db s) = Inr app \<Longrightarrow> as_DeviceFingerprint (aa_Session app) \<noteq> [] \<Longrightarrow>
    sys_step v s [] (goto c (AppOpen req app) s)"
| AgentCheck: "sy_conns s c = AgentOpen token auth \<Longrightarrow> agentHello frame = Some info \<Longrightarrow> rv_agentTokens v = Some d \<Longrightarrow>
    fst (agentAuthStillValid e (Some d) token auth (sy_db s)) \<Longrightarrow>
    sys_step v s [tokenUse e d token]
      (goto c (AgentChecked auth info) (withDb (runOp (tokenUse e d token) (sy_db s)) s))"
| AgentRegister: "sy_conns s c = AgentChecked auth info \<Longrightarrow>
    sys_step v s [] (goto c (AgentLive auth info) (withSess (snd (agentRegister auth info c (sy_sess s))) s))"
| AgentLeave: "sy_conns s c = AgentLive auth info \<Longrightarrow>
    sys_step v s [] (goto c Ended (withSess (snd (agentLeave info c (sy_sess s))) s))"
| DevicePend: "sy_conns s c = DeviceOpen token auth \<Longrightarrow>
    sys_step v s [] (goto c (DevicePending token auth)
      (withDev (RegisterPending (deviceOwnerOf auth) (Some c) (sy_dev s)) s))"
| DeviceCheck: "sy_conns s c = DevicePending token auth \<Longrightarrow> deviceHello frame = Some info \<Longrightarrow> rv_agentTokens v = Some d \<Longrightarrow>
    fst (deviceReauth e d token auth (sy_db s)) \<Longrightarrow>
    sys_step v s [tokenUse e d token]
      (goto c (DeviceChecked auth info) (withDb (runOp (tokenUse e d token) (sy_db s)) s))"
| DeviceActivate: "sy_conns s c = DeviceChecked auth info \<Longrightarrow>
    ActivatePending clk info (deviceOwnerOf auth) (Some c) (sy_dev s) = (ok, es, dev) \<Longrightarrow>
    sys_step v s [] (goto c (if ok then DeviceLive auth info else DeviceLeaving auth) (withDev dev s))"
| DeviceRefused: "sy_conns s c = DevicePending token auth \<Longrightarrow> sys_step v s [] (goto c (DeviceLeaving auth) s)"
| DeviceLeave: "sy_conns s c = DeviceLive auth info \<Longrightarrow>
    sys_step v s [] (goto c (DeviceLeaving auth)
      (withDev (snd (snd (DisconnectIfOwner_dev (dv_DeviceID info) (Some c) (sy_dev s)))) s))"
| DeviceEnd: "sy_conns s c = DeviceLeaving auth \<Longrightarrow>
    sys_step v s [] (goto c Ended (withDev (snd (snd (DisconnectPending (Some c) (sy_dev s)))) s))"
| DaemonCheck: "sy_conns s c = DaemonOpen token auth \<Longrightarrow> rv_agentTokens v = Some d \<Longrightarrow>
    valid = fst (agentAuthStillValid e (Some d) token auth (sy_db s)) \<Longrightarrow>
    sys_step v s [tokenUse e d token]
      (goto c (DaemonChecked auth frame valid) (withDb (runOp (tokenUse e d token) (sy_db s)) s))"
| DaemonRegister: "sy_conns s c = DaemonChecked auth frame valid \<Longrightarrow>
    daemonRegister e auth c frame valid (sy_conn s) = (res, es, r) \<Longrightarrow>
    sys_step v s [] (goto c (case res of None \<Rightarrow> Ended | Some info \<Rightarrow> DaemonLive auth info) (withConn r s))"
| DaemonLeave: "sy_conns s c = DaemonLive auth info \<Longrightarrow>
    sys_step v s [] (goto c (DaemonLeft auth info) (withConn (snd (daemonLeave e info c (sy_conn s))) s))"
| AppCheck: "sy_conns s c = AppOpen req app \<Longrightarrow>
    valid = appAuthStillValid e (rv_appAuth v) req app (sy_db s) \<Longrightarrow>
    sys_step v s [] (goto c (AppChecked req app frame valid) s)"
| AppRegister: "sy_conns s c = AppChecked req app frame valid \<Longrightarrow>
    appRegister e app c frame valid (sy_conn s) = (on, es, r) \<Longrightarrow>
    sys_step v s [] (goto c (if on then AppLive req app else Ended) (withConn r s))"
| AppLeave: "sy_conns s c = AppLive req app \<Longrightarrow>
    sys_step v s [] (goto c Ended (withConn (snd (appLeave e c (sy_conn s))) s))"

inductive sys_run :: "relayServer \<Rightarrow> relaySystem \<Rightarrow> dbOp list \<Rightarrow> relaySystem \<Rightarrow> bool" for v :: relayServer where
  sys_refl: "sys_run v s [] s"
| sys_next: "sys_run v s ops s1 \<Longrightarrow> sys_step v s1 ops' s2 \<Longrightarrow> sys_run v s (ops @ ops') s2"

lemma sys_one: "sys_step v s ops s' \<Longrightarrow> sys_run v s ops s'"
  using sys_next [OF sys_refl] by fastforce

lemma sys_trans: "sys_run v s1 ops' s2 \<Longrightarrow> sys_run v s ops s1 \<Longrightarrow> sys_run v s (ops @ ops') s2"
proof (induction rule: sys_run.induct)
  case (sys_next s ops1 s1 ops2 s2)
  then show ?case using sys_run.sys_next [of v _ "ops @ ops1" s1 ops2 s2] by simp
qed simp

section \<open>Requests and frames are runs\<close>

lemma run_stores: "sys_run v s ops (withDb (runOps ops (sy_db s)) s)"
proof (induction ops arbitrary: s)
  case Nil
  show ?case by (simp add: withDb_def sys_refl)
next
  case (Cons op ops)
  let ?s = "withDb (runOp op (sy_db s)) s"
  have "sys_run v s ([op] @ ops) (withDb (runOps ops (sy_db ?s)) ?s)"
    by (rule sys_trans [OF Cons.IH sys_one [OF sys_step.Store]])
  then show ?case by (simp add: withDb_def)
qed

lemma run_relay:
  assumes "relayRun (sy_relay s) st"
  shows "\<exists>ops. sys_run v s ops (s\<lparr>sy_relay := st\<rparr>)"
proof -
  obtain ops where ops: "rl_db st = runOps ops (sy_db s)" using assms by (auto simp: relayRun_def dbRun_def)
  let ?s = "withDb (runOps ops (sy_db s)) s"
  have "relayQuiet (sy_relay ?s) st" using assms ops by (simp add: relayQuiet_def relayRun_def withDb_def)
  then have "sys_run v s (ops @ []) (?s\<lparr>sy_relay := st\<rparr>)"
    by (rule sys_trans [OF sys_one [OF sys_step.Section] run_stores])
  then show ?thesis by (auto simp: withDb_def)
qed

lemma relayRun_conn: "connQuiet (rl_conn st) r \<Longrightarrow> relayRun st (st\<lparr>rl_conn := r\<rparr>)"
  by (simp add: relayRun_def)

section \<open>Entries and connections\<close>

text \<open>What the stage of a connection may have in the registries.\<close>

fun agentAs :: "wsConn \<Rightarrow> string \<times> SessionOwner \<Rightarrow> bool" where
  "agentAs (AgentLive auth info) (k, owner) \<longleftrightarrow> k = si_SessionID info \<and>
     owner = \<lparr>so_UserID = u_ID (ta_User auth), so_AgentTokenID = at_ID (ta_Token auth)\<rparr>"
| "agentAs _ _ \<longleftrightarrow> False"

fun deviceAs :: "wsConn \<Rightarrow> string \<times> DeviceOwner \<Rightarrow> bool" where
  "deviceAs (DeviceLive auth info) (d, owner) \<longleftrightarrow> d = dv_DeviceID info \<and> owner = deviceOwnerOf auth"
| "deviceAs _ _ \<longleftrightarrow> False"

fun pendingAs :: "wsConn \<Rightarrow> DeviceOwner \<Rightarrow> bool" where
  "pendingAs (DevicePending _ auth) owner \<longleftrightarrow> owner = deviceOwnerOf auth"
| "pendingAs (DeviceChecked auth _) owner \<longleftrightarrow> owner = deviceOwnerOf auth"
| "pendingAs (DeviceLeaving auth) owner \<longleftrightarrow> owner = deviceOwnerOf auth"
| "pendingAs _ _ \<longleftrightarrow> False"

fun appAs :: "wsConn \<Rightarrow> AppOwner \<Rightarrow> bool" where
  "appAs (AppLive _ app) owner \<longleftrightarrow> owner = normOwner (appOwnerOf app)"
| "appAs _ _ \<longleftrightarrow> False"

text \<open>
  A daemon leaves under the device id of its first frame, while the registry keeps the trimmed id: with spaces
  around the id its entry stays.
\<close>

fun daemonAs :: "wsConn \<Rightarrow> string \<times> DaemonOwner \<times> string \<Rightarrow> bool" where
  "daemonAs (DaemonLive auth info) (k, owner, d) \<longleftrightarrow> d = TrimSpace (di_DeviceID info) \<and> owner = daemonOwnerOf auth \<and>
     k = daemonMapKey (do_UserID owner) d"
| "daemonAs (DaemonLeft auth info) (k, owner, d) \<longleftrightarrow> d = TrimSpace (di_DeviceID info) \<and> owner = daemonOwnerOf auth \<and>
     k = daemonMapKey (do_UserID owner) d \<and> di_DeviceID info \<noteq> d"
| "daemonAs _ _ \<longleftrightarrow> False"

definition backed :: "(wsConn \<Rightarrow> 'x \<Rightarrow> bool) \<Rightarrow> (nat option \<times> 'x) set \<Rightarrow> (nat \<Rightarrow> wsConn) \<Rightarrow> bool" where
  "backed P E conns \<longleftrightarrow> (\<forall>(p, x) \<in> E. \<exists>c. p = Some c \<and> P (conns c) x)"

definition agentParties :: "sessRegistry \<Rightarrow> (nat option \<times> string \<times> SessionOwner) set" where
  "agentParties r = (\<lambda>(k, p, owner). (p, k, owner)) ` sessEntries r"

definition deviceParties :: "devRegistry \<Rightarrow> (nat option \<times> string \<times> DeviceOwner) set" where
  "deviceParties r = {(p, d, owner). holder r d = Some (p, owner)}"

definition pendingParties :: "devRegistry \<Rightarrow> (nat option \<times> DeviceOwner) set" where
  "pendingParties r = set (dg_pending r)"

definition appParties :: "connRegistry \<Rightarrow> (nat option \<times> AppOwner) set" where
  "appParties r = (\<lambda>(c, app). (Some c, la_owner app)) ` appEntries r"

definition daemonParties :: "connRegistry \<Rightarrow> (nat option \<times> string \<times> DaemonOwner \<times> string) set" where
  "daemonParties r = (\<lambda>(k, c, owner, d). (Some c, k, owner, d)) ` daemonEntries r"

lemmas party_defs = agentParties_def deviceParties_def pendingParties_def appParties_def daemonParties_def

definition sys_inv :: "relaySystem \<Rightarrow> bool" where
  "sys_inv s \<longleftrightarrow> sess_inv (sy_sess s) \<and> backed agentAs (agentParties (sy_sess s)) (sy_conns s) \<and>
     backed deviceAs (deviceParties (sy_dev s)) (sy_conns s) \<and>
     backed pendingAs (pendingParties (sy_dev s)) (sy_conns s) \<and>
     backed appAs (appParties (sy_conn s)) (sy_conns s) \<and> backed daemonAs (daemonParties (sy_conn s)) (sy_conns s)"

text \<open>Three ways to stay backed: nobody comes, a connection comes or goes on, a connection comes in.\<close>

lemma backedI: "(\<And>p x. (p, x) \<in> E \<Longrightarrow> \<exists>c. p = Some c \<and> P (conns c) x) \<Longrightarrow> backed P E conns"
  by (auto simp: backed_def)

lemma backedD: "backed P E conns \<Longrightarrow> (p, x) \<in> E \<Longrightarrow> \<exists>c. p = Some c \<and> P (conns c) x"
  by (auto simp: backed_def)

lemma backed_mono: "backed P E conns \<Longrightarrow> E' \<subseteq> E \<Longrightarrow> backed P E' conns"
  by (auto simp: backed_def)

lemma backed_goto:
  assumes "backed P E conns" "E' \<subseteq> E" "\<And>x. (Some c, x) \<in> E' \<Longrightarrow> P (conns c) x \<Longrightarrow> P y x"
  shows "backed P E' (conns(c := y))"
proof (rule backedI)
  fix p x
  assume e: "(p, x) \<in> E'"
  then obtain c' where "p = Some c'" "P (conns c') x" using assms(2) backedD [OF assms(1)] by blast
  then show "\<exists>c'. p = Some c' \<and> P ((conns(c := y)) c') x" using assms(3) e by (cases "c' = c") auto
qed

lemma backed_enter:
  assumes "backed P E conns" "E' \<subseteq> insert (Some c, x) E" "P y x" "\<And>x. \<not> P (conns c) x"
  shows "backed P E' (conns(c := y))"
proof (rule backedI)
  fix p x'
  assume "(p, x') \<in> E'"
  then consider "p = Some c" "x' = x" | c' where "p = Some c'" "P (conns c') x'"
    using assms(2) backedD [OF assms(1)] by blast
  then show "\<exists>c'. p = Some c' \<and> P ((conns(c := y)) c') x'" using assms(3,4) by cases auto
qed

lemma parties_quiet:
  "sessQuiet r1 r1' \<Longrightarrow> agentParties r1' \<subseteq> agentParties r1"
  "devQuiet r2 r2' \<Longrightarrow> deviceParties r2' \<subseteq> deviceParties r2"
  "devQuiet r2 r2' \<Longrightarrow> pendingParties r2' \<subseteq> pendingParties r2"
  "connQuiet r3 r3' \<Longrightarrow> appParties r3' \<subseteq> appParties r3"
  "connQuiet r3 r3' \<Longrightarrow> daemonParties r3' \<subseteq> daemonParties r3"
proof -
  show "devQuiet r2 r2' \<Longrightarrow> deviceParties r2' \<subseteq> deviceParties r2"
    by (fastforce simp: devQuiet_def deviceParties_def map_le_def dom_def)
qed (simp_all add: sessQuiet_def connQuiet_def devQuiet_def noNewcomers_def image_mono
      agentParties_def pendingParties_def appParties_def daemonParties_def)

lemmas quiet_defs = relayQuiet_def connQuiet_def sessQuiet_def devQuiet_def

lemma sys_sess: "sys_step v s ops s' \<Longrightarrow> sess_step\<^sup>*\<^sup>* (sy_sess s) (sy_sess s')"
proof (induction rule: sys_step.induct)
  case (AgentRegister s c auth info)
  have "sess_step (sy_sess s) (snd (agentRegister auth info c (sy_sess s)))"
    unfolding agentRegister_def by (rule sess_step.Register)
  then show ?case by (simp add: r_into_rtranclp)
next
  case (AgentLeave s c auth info)
  show ?case using sessQuiet_leave [of "sy_sess s" info c] by (simp add: sessQuiet_def)
qed (simp_all add: quiet_defs)

lemma sys_dev: "sys_step v s ops s' \<Longrightarrow> dev_step\<^sup>*\<^sup>* (sy_dev s) (sy_dev s')"
proof (induction rule: sys_step.induct)
  case (DevicePend s c token auth)
  show ?case by (simp add: r_into_rtranclp dev_step.Pending)
next
  case (DeviceActivate s c auth info clk ok es dev)
  then show ?case using dev_step.Activate [of "sy_dev s" clk info "deviceOwnerOf auth" "Some c"]
    by (simp add: r_into_rtranclp)
next
  case (DeviceLeave s c auth info)
  show ?case using devQuiet_leave(1) by (simp add: devQuiet_def)
next
  case (DeviceEnd s c auth)
  show ?case using devQuiet_leave(2) by (simp add: devQuiet_def)
qed (simp_all add: quiet_defs)

lemma sys_db: "sys_step v s ops s' \<Longrightarrow> sy_db s' = runOps ops (sy_db s)"
  by (induction rule: sys_step.induct) (simp_all add: quiet_defs)

lemma unregistered_out [simp]:
  assumes "unregistered x"
  shows "\<not> agentAs x a" "\<not> deviceAs x d" "\<not> pendingAs x owner" "\<not> appAs x app" "\<not> daemonAs x k"
  using assms by (cases x; simp)+

lemma parties_same:
  "deviceParties (RegisterPending owner p r) \<subseteq> deviceParties r"
  "deviceParties (snd (snd (DisconnectPending p r))) \<subseteq> deviceParties r"
  "pendingParties (snd (snd (DisconnectIfOwner_dev d p r))) \<subseteq> pendingParties r"
  by (simp_all add: deviceParties_def pendingParties_def holder_simps holder_DisconnectIfOwner)

lemma agents_step:
  "sys_step v s ops s' \<Longrightarrow> sess_inv (sy_sess s) \<Longrightarrow> backed agentAs (agentParties (sy_sess s)) (sy_conns s) \<Longrightarrow>
     backed agentAs (agentParties (sy_sess s')) (sy_conns s')"
proof (induction rule: sys_step.induct)
  case (Section s st)
  then show ?case using backed_mono [OF _ parties_quiet(1)] by (simp add: relayQuiet_def)
next
  case (AgentRegister s c auth info)
  let ?owner = "\<lparr>so_UserID = u_ID (ta_User auth), so_AgentTokenID = at_ID (ta_Token auth)\<rparr>"
  have "agentParties (snd (agentRegister auth info c (sy_sess s))) \<subseteq>
      insert (Some c, si_SessionID info, ?owner) (agentParties (sy_sess s))"
    by (auto simp: agentRegister_def RegisterOwned_sess_def sessEntries_def agentParties_def Let_def image_iff
        dest!: subsetD [OF set_gm_put])
  from backed_enter [OF AgentRegister.prems(2) this, of "AgentLive auth info"] show ?case
    using AgentRegister.hyps by (simp add: fun_upd_def)
next
  case (AgentLeave s c auth info)
  have "(Some c, x) \<notin> agentParties (snd (agentLeave info c (sy_sess s)))" if "agentAs (sy_conns s c) x" for x
    using that AgentLeave.hyps AgentLeave.prems(1)
    by (auto simp: agentParties_def sessEntries_def agentLeave_def DisconnectIfOwner_sess_def Remove_sess_def set_gm_del
        sess_inv_def gm_mem split: option.splits if_splits)
  then show ?case
    using backed_goto [OF AgentLeave.prems(2) parties_quiet(1) [OF sessQuiet_leave], of c info c Ended] by (simp add: fun_upd_def)
qed (auto intro!: backed_goto [OF _ subset_refl])

lemma devices_step:
  "sys_step v s ops s' \<Longrightarrow> backed deviceAs (deviceParties (sy_dev s)) (sy_conns s) \<Longrightarrow>
     backed deviceAs (deviceParties (sy_dev s')) (sy_conns s')"
proof (induction rule: sys_step.induct)
  case (Section s st)
  then show ?case using backed_mono [OF _ parties_quiet(2)] by (simp add: relayQuiet_def)
next
  case (DevicePend s c token auth)
  from backed_goto [OF DevicePend.prems parties_same(1), of c "deviceOwnerOf auth" "Some c" "DevicePending token auth"]
  show ?case using DevicePend.hyps by (simp add: fun_upd_def)
next
  case (DeviceActivate s c auth info clk ok es dev)
  show ?case
  proof (cases ok)
    case True
    then have "deviceParties dev \<subseteq> insert (Some c, dv_DeviceID info, deviceOwnerOf auth) (deviceParties (sy_dev s))"
      using DeviceActivate.hyps holder_Activate(1) [of clk info "deviceOwnerOf auth" "Some c" "sy_dev s" es dev]
      by (auto simp: deviceParties_def split: if_splits)
    from backed_enter [OF DeviceActivate.prems this, of "DeviceLive auth info"] show ?thesis
      using True DeviceActivate.hyps by (simp add: fun_upd_def)
  next
    case False
    then have "deviceParties dev = deviceParties (sy_dev s)"
      using DeviceActivate.hyps holder_Activate(2) [of clk info "deviceOwnerOf auth" "Some c" "sy_dev s" es dev]
      by (simp add: deviceParties_def)
    then have "backed deviceAs (deviceParties dev) ((sy_conns s)(c := DeviceLeaving auth))"
      using DeviceActivate.hyps by (intro backed_goto [OF DeviceActivate.prems]) auto
    then show ?thesis using False by (simp add: fun_upd_def)
  qed
next
  case (DeviceLeave s c auth info)
  let ?dev = "snd (snd (DisconnectIfOwner_dev (dv_DeviceID info) (Some c) (sy_dev s)))"
  have "(Some c, x) \<notin> deviceParties ?dev" if "deviceAs (sy_conns s c) x" for x
    using that DeviceLeave.hyps by (auto simp: deviceParties_def holder_DisconnectIfOwner split: if_splits)
  then show ?case
    using backed_goto [OF DeviceLeave.prems parties_quiet(2) [OF devQuiet_leave(1)], of c "dv_DeviceID info" "Some c"
        "DeviceLeaving auth"] by (simp add: fun_upd_def)
next
  case (DeviceEnd s c auth)
  from backed_goto [OF DeviceEnd.prems parties_same(2), of c "Some c" Ended] show ?case
    using DeviceEnd.hyps by (simp add: fun_upd_def)
qed (auto intro!: backed_goto [OF _ subset_refl])

lemma pending_step:
  "sys_step v s ops s' \<Longrightarrow> backed pendingAs (pendingParties (sy_dev s)) (sy_conns s) \<Longrightarrow>
     backed pendingAs (pendingParties (sy_dev s')) (sy_conns s')"
proof (induction rule: sys_step.induct)
  case (Section s st)
  then show ?case using backed_mono [OF _ parties_quiet(3)] by (simp add: relayQuiet_def)
next
  case (DevicePend s c token auth)
  have "pendingParties (RegisterPending (deviceOwnerOf auth) (Some c) (sy_dev s)) \<subseteq>
      insert (Some c, deviceOwnerOf auth) (pendingParties (sy_dev s))"
    by (simp add: pendingParties_def RegisterPending_def set_gm_put)
  from backed_enter [OF DevicePend.prems this, of "DevicePending token auth"] show ?case
    using DevicePend.hyps by (simp add: fun_upd_def)
next
  case (DeviceActivate s c auth info clk ok es dev)
  note act = holder_Activate [of clk info "deviceOwnerOf auth" "Some c" "sy_dev s" es dev]
  have "pendingParties dev \<subseteq> pendingParties (sy_dev s)"
    using DeviceActivate.hyps act by (cases ok) (auto simp: pendingParties_def set_gm_del)
  moreover have "(Some c, x) \<notin> pendingParties dev" if ok for x
    using DeviceActivate.hyps act(1) that by (auto simp: pendingParties_def set_gm_del)
  ultimately have "backed pendingAs (pendingParties dev)
      ((sy_conns s)(c := if ok then DeviceLive auth info else DeviceLeaving auth))"
    using DeviceActivate.hyps by (intro backed_goto [OF DeviceActivate.prems]) auto
  then show ?case by (simp add: fun_upd_def)
next
  case (DeviceLeave s c auth info)
  from backed_goto [OF DeviceLeave.prems parties_same(3), of c "dv_DeviceID info" "Some c" "DeviceLeaving auth"] show ?case
    using DeviceLeave.hyps by (simp add: fun_upd_def)
next
  case (DeviceEnd s c auth)
  let ?dev = "snd (snd (DisconnectPending (Some c) (sy_dev s)))"
  have "(Some c, x) \<notin> pendingParties ?dev" for x
    by (auto simp: pendingParties_def DisconnectPending_def set_gm_del gm_get_def map_of_eq_None_iff image_iff
        split: option.split)
  then show ?case
    using backed_goto [OF DeviceEnd.prems parties_quiet(3) [OF devQuiet_leave(2)], of c "Some c" Ended]
    by (simp add: fun_upd_def)
qed (auto intro!: backed_goto [OF _ subset_refl])

lemma daemonRegister_parties:
  assumes "daemonRegister e auth c frame valid r = (res, es, r')"
  shows "appParties r' = appParties r"
    "daemonParties r' \<subseteq> (case res of None \<Rightarrow> daemonParties r
       | Some info \<Rightarrow> insert (Some c, daemonMapKey (do_UserID (daemonOwnerOf auth)) (TrimSpace (di_DeviceID info)),
           daemonOwnerOf auth, TrimSpace (di_DeviceID info)) (daemonParties r))"
proof -
  consider "res = None" "r' = r"
    | info peers on where "daemonHello frame = Some info" "res = (if on then Some info else None)"
        "RegisterDaemonIfValidWithDirectSessions (rq_ok e) (rq_regClk e) (daemonOwnerOf auth) info
           (cf_TrustedDevices frame) (cf_DirectSessions frame) c (Some valid) r = ((peers, on), es, r')"
    using assms by (auto simp: daemonRegister_def split: option.splits prod.splits)
  then have "appParties r' = appParties r \<and> daemonParties r' \<subseteq> (case res of None \<Rightarrow> daemonParties r
       | Some info \<Rightarrow> insert (Some c, daemonMapKey (do_UserID (daemonOwnerOf auth)) (TrimSpace (di_DeviceID info)),
           daemonOwnerOf auth, TrimSpace (di_DeviceID info)) (daemonParties r))"
  proof cases
    case 2
    then show ?thesis
      using registering_daemon(1) [OF 2(3)]
        image_mono [OF registering_daemon(2) [OF 2(3)], of "\<lambda>(k, c, owner, d). (Some c, k, owner, d)"]
      by (cases on) (simp_all add: daemonParties_def appParties_def)
  qed simp
  then show "appParties r' = appParties r"
    "daemonParties r' \<subseteq> (case res of None \<Rightarrow> daemonParties r
       | Some info \<Rightarrow> insert (Some c, daemonMapKey (do_UserID (daemonOwnerOf auth)) (TrimSpace (di_DeviceID info)),
           daemonOwnerOf auth, TrimSpace (di_DeviceID info)) (daemonParties r))" by blast+
qed

lemma appRegister_parties:
  assumes "appRegister e app c frame valid r = (on, es, r')"
  shows "daemonParties r' = daemonParties r"
    "appParties r' \<subseteq> (if on then insert (Some c, normOwner (appOwnerOf app)) (appParties r) else appParties r)"
proof -
  obtain snapshot ok' r1 where reg: "RegisterAppIfValid (rq_regClk e) (appOwnerOf app) c (Some valid) r = ((snapshot, ok'), r1)"
    by (metis prod.exhaust)
  then have "r' = r \<and> \<not> on \<or> r' = r1 \<and> on = ok'"
    using assms by (auto simp: appRegister_def split: if_splits)
  then show "daemonParties r' = daemonParties r"
    "appParties r' \<subseteq> (if on then insert (Some c, normOwner (appOwnerOf app)) (appParties r) else appParties r)"
    using registering_app [OF reg] image_mono [OF registering_app(1) [OF reg], of "\<lambda>(c, app). (Some c, la_owner app)"]
    by (elim disjE; cases on; simp add: daemonParties_def appParties_def)+
qed

lemma apps_step:
  "sys_step v s ops s' \<Longrightarrow> backed appAs (appParties (sy_conn s)) (sy_conns s) \<Longrightarrow>
     backed appAs (appParties (sy_conn s')) (sy_conns s')"
proof (induction rule: sys_step.induct)
  case (Section s st)
  then show ?case using backed_mono [OF _ parties_quiet(4)] by (simp add: relayQuiet_def)
next
  case (DaemonRegister s c auth frame valid e res es r)
  have "backed appAs (appParties r) ((sy_conns s)(c := (case res of None \<Rightarrow> Ended | Some info \<Rightarrow> DaemonLive auth info)))"
    using DaemonRegister.hyps(1) daemonRegister_parties(1) [OF DaemonRegister.hyps(2)]
    by (intro backed_goto [OF DaemonRegister.prems]) (auto split: option.split)
  then show ?case by (simp add: fun_upd_def)
next
  case (DaemonLeave s c auth info e)
  have "backed appAs (appParties (snd (daemonLeave e info c (sy_conn s)))) ((sy_conns s)(c := DaemonLeft auth info))"
    using DaemonLeave.hyps by (intro backed_goto [OF DaemonLeave.prems parties_quiet(4) [OF run_daemonLeave]]) simp
  then show ?case by (simp add: fun_upd_def)
next
  case (AppRegister s c req app frame valid e on es r)
  show ?case
  proof (cases on)
    case True
    have "backed appAs (appParties r) ((sy_conns s)(c := AppLive req app))"
      using True AppRegister.hyps(1) appRegister_parties(2) [OF AppRegister.hyps(2)]
      by (intro backed_enter [OF AppRegister.prems]) auto
    then show ?thesis using True by (simp add: fun_upd_def)
  next
    case False
    have "backed appAs (appParties r) ((sy_conns s)(c := Ended))"
      using False AppRegister.hyps(1) appRegister_parties(2) [OF AppRegister.hyps(2)]
      by (intro backed_goto [OF AppRegister.prems]) auto
    then show ?thesis using False by (simp add: fun_upd_def)
  qed
next
  case (AppLeave s c req app e)
  have "(Some c, x) \<notin> appParties (snd (appLeave e c (sy_conn s)))" for x
    using DisconnectApp_gone [of c] by (auto simp: appParties_def appLeave_def)
  then have "backed appAs (appParties (snd (appLeave e c (sy_conn s)))) ((sy_conns s)(c := Ended))"
    by (intro backed_goto [OF AppLeave.prems parties_quiet(4) [OF run_appLeave]]) simp
  then show ?case by (simp add: fun_upd_def)
qed (auto intro!: backed_goto [OF _ subset_refl])

lemma daemons_step:
  "sys_step v s ops s' \<Longrightarrow> backed daemonAs (daemonParties (sy_conn s)) (sy_conns s) \<Longrightarrow>
     backed daemonAs (daemonParties (sy_conn s')) (sy_conns s')"
proof (induction rule: sys_step.induct)
  case (Section s st)
  then show ?case using backed_mono [OF _ parties_quiet(5)] by (simp add: relayQuiet_def)
next
  case (DaemonRegister s c auth frame valid e res es r)
  note reg = daemonRegister_parties(2) [OF DaemonRegister.hyps(2)]
  show ?case
  proof (cases res)
    case None
    have "backed daemonAs (daemonParties r) ((sy_conns s)(c := Ended))"
      using None DaemonRegister.hyps(1) reg by (intro backed_goto [OF DaemonRegister.prems]) auto
    then show ?thesis using None by (simp add: fun_upd_def)
  next
    case (Some info)
    have "backed daemonAs (daemonParties r) ((sy_conns s)(c := DaemonLive auth info))"
      using Some DaemonRegister.hyps(1) reg by (intro backed_enter [OF DaemonRegister.prems]) auto
    then show ?thesis using Some by (simp add: fun_upd_def)
  qed
next
  case (DaemonLeave s c auth info e)
  have gone: "(Some c, k, o', di_DeviceID info) \<notin> daemonParties (snd (daemonLeave e info c (sy_conn s)))"
    for k o'
  proof -
    have "k' = daemonMapKey (do_UserID (daemonOwnerOf auth)) (TrimSpace (di_DeviceID info))"
      if "(k', c, o', di_DeviceID info) \<in> daemonEntries (sy_conn s)" for k' o'
      using backedD [OF DaemonLeave.prems, of "Some c" "(k', o', di_DeviceID info)"] that DaemonLeave.hyps
      by (force simp: daemonParties_def)
    from DisconnectDaemon_gone [of c "di_DeviceID info", OF this] show ?thesis
      by (auto simp: daemonParties_def daemonLeave_def)
  qed
  have "backed daemonAs (daemonParties (snd (daemonLeave e info c (sy_conn s)))) ((sy_conns s)(c := DaemonLeft auth info))"
    using DaemonLeave.hyps gone
    by (intro backed_goto [OF DaemonLeave.prems parties_quiet(5) [OF run_daemonLeave]]) auto
  then show ?case by (simp add: fun_upd_def)
next
  case (AppRegister s c req app frame valid e on es r)
  have "backed daemonAs (daemonParties r) ((sy_conns s)(c := (if on then AppLive req app else Ended)))"
    using AppRegister.hyps(1) appRegister_parties(1) [OF AppRegister.hyps(2)]
    by (intro backed_goto [OF AppRegister.prems]) auto
  then show ?case by (simp add: fun_upd_def)
next
  case (AppLeave s c req app e)
  have "backed daemonAs (daemonParties (snd (appLeave e c (sy_conn s)))) ((sy_conns s)(c := Ended))"
    using AppLeave.hyps by (intro backed_goto [OF AppLeave.prems parties_quiet(5) [OF run_appLeave]]) simp
  then show ?case by (simp add: fun_upd_def)
qed (auto intro!: backed_goto [OF _ subset_refl])

lemma fresh_checked:
  "backed daemonAs (daemonParties (sy_conn s)) (sy_conns s) \<Longrightarrow> sy_conns s c = DaemonChecked auth frame valid \<Longrightarrow>
     freshDaemonPeer c (sy_conn s)"
  by (fastforce simp: freshDaemonPeer_def list_all_iff backed_def daemonParties_def daemonEntries_def daemonEntry_def)

lemma sys_conn:
  "sys_step v s ops s' \<Longrightarrow> backed daemonAs (daemonParties (sy_conn s)) (sy_conns s) \<Longrightarrow> connRun (sy_conn s) (sy_conn s')"
proof (induction rule: sys_step.induct)
  case (DaemonRegister s c auth frame valid e res es r)
  then show ?case using run_daemonRegister [OF fresh_checked, of s c auth frame valid e auth frame valid] by simp
next
  case (DaemonLeave s c auth info e)
  show ?case using run_daemonLeave [of "sy_conn s" e info c] by (simp add: connQuiet_def)
next
  case (AppRegister s c req app frame valid e on es r)
  then show ?case using run_appRegister [of "sy_conn s" e app c frame valid] by simp
next
  case (AppLeave s c req app e)
  show ?case using run_appLeave [of "sy_conn s" e c] by (simp add: connQuiet_def)
qed (simp_all add: quiet_defs)

lemma sess_inv_run: "sess_step\<^sup>*\<^sup>* r r' \<Longrightarrow> sess_inv r \<Longrightarrow> sess_inv r'"
  by (induction rule: rtranclp_induct) (auto dest: sess_step_inv)

lemma sys_inv_step: "sys_step v s ops s' \<Longrightarrow> sys_inv s \<Longrightarrow> sys_inv s'"
  unfolding sys_inv_def
  by (intro conjI) (blast intro: sess_inv_run [OF sys_sess] agents_step devices_step pending_step apps_step daemons_step)+

lemma sys_inv_new: "sys_inv (newSystem db)"
  by (simp add: sys_inv_def newSystem_def newRouter_def sess_inv_def backed_def agentParties_def sessEntries_def
      NewRegistry_sess_def deviceParties_def holder_def NewRegistry_dev_def pendingParties_def appParties_def
      appEntries_def daemonParties_def daemonEntries_def NewRegistry_def)

lemma sys_inv_run: "sys_run v s ops s' \<Longrightarrow> sys_inv s \<Longrightarrow> sys_inv s'"
  by (induction rule: sys_run.induct) (auto dest: sys_inv_step)

text \<open>The components of a running relay.\<close>

lemma run_db: "sys_run v s ops s' \<Longrightarrow> sy_db s' = runOps ops (sy_db s)"
  by (induction rule: sys_run.induct) (simp_all add: sys_db runOps_append)

lemma run_sess: "sys_run v s ops s' \<Longrightarrow> sess_step\<^sup>*\<^sup>* (sy_sess s) (sy_sess s')"
  by (induction rule: sys_run.induct) (auto dest: sys_sess intro: rtranclp_trans)

lemma run_dev: "sys_run v s ops s' \<Longrightarrow> dev_step\<^sup>*\<^sup>* (sy_dev s) (sy_dev s')"
  by (induction rule: sys_run.induct) (auto dest: sys_dev intro: rtranclp_trans)

lemma run_conn: "sys_run v s ops s' \<Longrightarrow> sys_inv s \<Longrightarrow> connRun (sy_conn s) (sy_conn s')"
proof (induction rule: sys_run.induct)
  case (sys_next s ops s1 ops' s2)
  then have "sys_inv s1" using sys_inv_run by blast
  then show ?case using sys_next connRun_trans sys_conn by (metis sys_inv_def)
qed simp

end
