(* ===== verification/Auth_Props.thy ===== *)
theory Auth_Props
  imports Auth_Runs
begin

text \<open>
  What the authentication of the relay promises: one account per invite code, sessions and tokens that stay
  revoked, refresh tokens that work once, sessions that end, passwords that verify, and the interleaving of a
  login with a change of the password.
\<close>

section \<open>An example\<close>

definition demoAuthCrypto :: authCrypto where
  "demoAuthCrypto = \<lparr>ac_hmac = (\<lambda>k m. m), ac_argon2 = (\<lambda>p salt t m par k. take (unat k) (p @ replicate 32 0))\<rparr>"

definition demoHashCrypto :: authCrypto where
  "demoHashCrypto = \<lparr>ac_hmac = (\<lambda>k m. m), ac_argon2 = (\<lambda>p salt t m par k. replicate (unat k) 3)\<rparr>"

definition demoSalt :: "int \<Rightarrow> byte list option" where
  "demoSalt n = (if 0 \<le> n then Some (replicate (nat n) 7) else None)"

definition demoService :: AppAuthService where
  "demoService = NewAppAuthService \<lparr>sd_key = [1]\<rparr>
     \<lparr>ph_MemoryKiB = 8, ph_Iterations = 1, ph_Parallelism = 1, ph_SaltLength = 2, ph_KeyLength = 4\<rparr>"

definition demoRnd :: "byte \<Rightarrow> random" where
  "demoRnd c i n = Some (replicate (nat n) (c + word_of_nat i))"

definition demoEnv :: pgEnv where
  "demoEnv = \<lparr>pg_fail = (\<lambda>_. False), pg_ts = (\<lambda>t. t), pg_now = 0\<rparr>"

definition demoClock :: "gotime \<Rightarrow> clock" where
  "demoClock t i = t"

definition demoInvite :: dbOp where
  "demoInvite = OpInvite demoEnv \<lparr>ci_Code = ''ABCDEF'', ci_CreatedBy = ''operator'', ci_ExpiresAt = 1000, ci_Now = 1\<rparr>"

definition demoAccount :: dbOp where
  "demoAccount = OpRegister demoEnv \<lparr>ru_UsernameNorm = ''alice'', ru_InviteCode = ''ABCDEF'',
     ru_PasswordHash = ''$argon2id$v=19$m=8,t=1,p=1$AQE$c2Vjcg'', ru_Now = 2\<rparr>"

definition demoSession_op :: dbOp where
  "demoSession_op = OpCreateSession demoEnv \<lparr>cs_ID = ''s1'', cs_UserID = 1, cs_AccessTokenDigest = ''78'',
     cs_AccessExpiresAt = 1000, cs_RefreshTokenDigest = ''79'', cs_RefreshExpiresAt = 2000, cs_DeviceFingerprint = [], cs_Now = 3\<rparr>"

definition demoToken_op :: dbOp where
  "demoToken_op = OpCreateToken demoEnv \<lparr>ca_ID = ''t1'', ca_UserID = 1, ca_Name = ''agent'', ca_TokenDigest = ''7a'', ca_Now = 3\<rparr>"

definition demoOps :: "dbOp list" where
  "demoOps = [demoInvite, demoAccount, demoSession_op, demoToken_op]"

definition demoDB :: authDB where
  "demoDB = runOps demoOps emptyDB"

definition demoLogin :: "dbOp list \<Rightarrow> IssuedAppSession dbres" where
  "demoLogin others = login demoAuthCrypto demoService (demoRnd 5) (demoClock 3) demoEnv demoEnv others ''alice'' ''secret1'' [] demoDB"

definition demoApp :: AuthenticatedApp where
  "demoApp = projr (AuthenticateAccessToken demoAuthCrypto demoService (demoClock 4) demoEnv demoEnv [] ''x'' demoDB)"

definition demoRefresh :: "IssuedAppSession dbres" where
  "demoRefresh = refresh demoAuthCrypto demoService (demoRnd 7) (demoClock 4) demoEnv demoEnv [] ''y'' [] demoDB"

lemma Inr_pair: "\<not> isl (fst r) \<Longrightarrow> r = (Inr (projr (fst r)), snd r)"
  by (cases r; cases "fst r") auto

lemma Inr_projr: "\<not> isl x \<Longrightarrow> x = Inr (projr x)"
  by (cases x) auto

lemma demo_login: "login demoAuthCrypto demoService (demoRnd 5) (demoClock 3) demoEnv demoEnv [] ''alice'' ''secret1'' [] demoDB =
    (Inr (projr (fst (demoLogin []))), snd (demoLogin []))"
  unfolding demoLogin_def by (rule Inr_pair) code_simp

lemma demo_app: "AuthenticateAccessToken demoAuthCrypto demoService (demoClock 4) demoEnv demoEnv [] ''x'' demoDB = Inr demoApp"
proof -
  have "\<not> isl (AuthenticateAccessToken demoAuthCrypto demoService (demoClock 4) demoEnv demoEnv [] ''x'' demoDB)" by code_simp
  then show ?thesis unfolding demoApp_def by (rule Inr_projr)
qed

lemma demo_refresh: "refresh demoAuthCrypto demoService (demoRnd 7) (demoClock 4) demoEnv demoEnv [] ''y'' [] demoDB =
    (Inr (projr (fst demoRefresh)), snd demoRefresh)"
  unfolding demoRefresh_def by (rule Inr_pair) code_simp

section \<open>Facts about the services\<close>

lemma auth_reachable_inv: "auth_inv (runOps ops emptyDB)"
  by (rule runOps_inv [OF auth_inv_empty])

lemma accounts_codes:
  assumes "auth_inv db"
  shows "length (db_users db) \<le> length (filter (\<lambda>e. ic_ConsumedAt (snd e) \<noteq> None) (db_invites db))"
proof -
  have cons: "consumers_ok db" using assms by (simp add: auth_inv_def)
  let ?U = "{uid. hasUser db uid}" and ?K = "{k. \<exists>i. gm_get (db_invites db) k = Some i \<and> ic_ConsumedAt i \<noteq> None}"
  have wf: "gm_wf (db_users db)" "gm_wf (db_invites db)"
    using auth_inv_tables(1,2) [OF assms] by (auto simp: table_def)
  have U: "length (db_users db) = card ?U" using gm_count [OF wf(1), of "\<lambda>_. True"] by (simp add: hasUser_def)
  have K: "length (filter (\<lambda>e. ic_ConsumedAt (snd e) \<noteq> None) (db_invites db)) = card ?K" by (rule gm_count [OF wf(2)])
  have "?K \<subseteq> fst ` set (db_invites db)" by (force dest: gm_get_in)
  then have fin: "finite ?K" by (rule finite_subset) simp
  define code where "code uid = (SOME k. consumes db uid k)" for uid
  have code: "consumes db uid (code uid)" if "hasUser db uid" for uid
    unfolding code_def using consumersD(3) [OF cons that] by (rule someI_ex)
  have "inj_on code ?U"
  proof (rule inj_onI)
    fix u v assume uv: "u \<in> ?U" "v \<in> ?U" "code u = code v"
    then have "consumes db u (code u)" "consumes db v (code u)" using code [of u] code [of v] by simp_all
    then show "u = v" by (auto simp: consumes_def split: option.splits)
  qed
  moreover have "code ` ?U \<subseteq> ?K"
  proof
    fix k assume "k \<in> code ` ?U"
    then obtain u where "consumes db u k" using code by auto
    then obtain i where i: "gm_get (db_invites db) k = Some i" "ic_ConsumedByUserID i = Some u"
      by (auto simp: consumes_def split: option.splits)
    then have "inviteState i" using assms by (auto simp: auth_inv_def invites_ok_def dest: gm_allD)
    then show "k \<in> ?K" using i by (simp add: inviteState_def)
  qed
  ultimately show ?thesis unfolding U K by (rule card_inj_on_le [OF _ _ fin])
qed

lemma Register_Inr:
  assumes inv: "auth_inv db" and ok: "Register cy s rnd clk env username password inviteCode db = (Inr user, db1)"
  obtains code where "NormalizeInviteCode inviteCode = Inr code" "codeSpent code db1" "auth_inv db1"
proof -
  obtain name code h where n: "NormalizeUsername username = Inr name" "NormalizeInviteCode inviteCode = Inr code"
      "HashPassword cy (sv_hasher s) (rnd 0) password = Inr h"
    using ok by (auto simp: Register_def split: sum.splits)
  let ?p = "\<lparr>ru_UsernameNorm = name, ru_InviteCode = code, ru_PasswordHash = h, ru_Now = clk 0\<rparr>"
  have r: "RegisterUser env ?p db = (Inr user, db1)" using ok n by (simp add: Register_def)
  then obtain iid where iid: "lockInviteCode (pg_fail env 1) code (clk 0) db = Inr iid"
    by (auto simp: RegisterUser_def split: if_splits sum.splits)
  obtain i where i: "gm_get (db_invites db) iid = Some i" "ic_Code i = code" "ic_ID i = iid"
    by (rule lockInviteCode_Inr [OF inv iid])
  have "\<exists>j. gm_get (db_invites db1) iid = Some j \<and> ic_Code j = code \<and> ic_ConsumedAt j \<noteq> None"
    using r iid i by (auto simp: RegisterUser_def Let_def updateRows_get split: if_splits)
  moreover have "auth_inv db1" using RegisterUser_inv [OF inv, of env ?p] r by simp
  ultimately show thesis using that n(2) unfolding codeSpent_def by blast
qed

lemma FindSession_Inr:
  assumes "auth_inv db" "FindAppSessionByAccessToken env d now ttl db = Inr s"
  shows "sessionRow db (as_ID s) = Some s \<and> as_AccessTokenDigest s = d \<and> as_RevokedAt s = None \<and>
    \<not> isAbsoluteSessionExpired s now ttl \<and> now < as_AccessExpiresAt s"
proof -
  obtain s' where s': "queryAppSession (pg_fail env 0) (\<lambda>s. as_AccessTokenDigest s = d) db = Inr s'"
    using assms(2) by (auto simp: FindAppSessionByAccessToken_def split: sum.splits)
  then show ?thesis using assms(2) queryAppSession_Inr [OF assms(1) s']
    by (auto simp: FindAppSessionByAccessToken_def validateAccessSession_def sessionRow_def split: if_splits)
qed

lemma Authenticate_Inr:
  assumes "AuthenticateAccessToken cy s clk env env' others tok db = Inr a"
  shows "FindAppSessionByAccessToken env (Digest cy (sv_digester s) tok) (clk 0) (sv_absoluteTTL s) db = Inr (aa_Session a)"
  using assms by (auto simp: AuthenticateAccessToken_def split: sum.splits)

lemma refresh_Inr:
  assumes "refresh cy s rnd clk env env' others tok fp db = (Inr issued, db1)"
  obtains params db' where "RotateAppSessionByRefreshToken env params db = (Inr (is_Session issued), db')"
    "db1 = runOps others db'" "rs_RefreshTokenDigest params = Digest cy (sv_digester s) tok"
    "rs_NewRefreshTokenDigest params = Digest cy (sv_digester s) (is_RefreshToken issued)"
    "rs_NewAccessTokenDigest params = Digest cy (sv_digester s) (is_AccessToken issued)"
  using assms by (auto simp: refresh_def Let_def split: sum.splits prod.splits)

text \<open>A revoked session is neither authenticated nor refreshed.\<close>

lemma revoked_run:
  assumes inv: "auth_inv db" and row: "sessionRow db sid = Some s" "as_RevokedAt s \<noteq> None"
    and new: "\<forall>op \<in> set ops. \<not> createsSession sid op" and v: "sessionRow (runOps ops db) sid = Some v"
  shows "as_RevokedAt v \<noteq> None"
  using sessions.frozen_run [OF inv new row(1) v] row(2) by (auto simp: sessionEvolves_def)

lemma revoked_refused:
  assumes inv: "auth_inv db" and row: "sessionRow db sid = Some s" "as_RevokedAt s \<noteq> None"
    and new: "\<forall>op \<in> set ops. \<not> createsSession sid op"
  shows "AuthenticateAccessToken cy sv clk env env' others tok (runOps ops db) = Inr a \<Longrightarrow> as_ID (aa_Session a) \<noteq> sid"
    "refresh cy sv rnd clk env env' others tok fp (runOps ops db) = (Inr issued, db') \<Longrightarrow> as_ID (is_Session issued) \<noteq> sid"
proof -
  have inv': "auth_inv (runOps ops db)" by (rule runOps_inv [OF inv])
  show "as_ID (aa_Session a) \<noteq> sid" if "AuthenticateAccessToken cy sv clk env env' others tok (runOps ops db) = Inr a"
    using FindSession_Inr [OF inv' Authenticate_Inr [OF that]] revoked_run [OF inv row new] by auto
  show "as_ID (is_Session issued) \<noteq> sid"
    if r: "refresh cy sv rnd clk env env' others tok fp (runOps ops db) = (Inr issued, db')"
  proof -
    obtain params db2 where "RotateAppSessionByRefreshToken env params (runOps ops db) = (Inr (is_Session issued), db2)"
      by (rule refresh_Inr [OF r])
    then show ?thesis by (rule Rotate_Inr [OF inv']) (use revoked_run [OF inv row new] in auto)
  qed
qed

lemma Logout_revokes:
  assumes inv: "auth_inv db" and ok: "Logout clk env app db = (Inr (), db1)"
  shows "\<exists>s. sessionRow db1 (as_ID (aa_Session app)) = Some s \<and> as_RevokedAt s \<noteq> None"
proof -
  let ?sid = "as_ID (aa_Session app)"
  let ?live = "\<lambda>s. as_ID s = ?sid \<and> as_RevokedAt s = None"
  obtain s where "queryRow ?live (db_sessions db) = Some s"
    using ok by (auto simp: Logout_def RevokeAppSession_def Let_def split: if_splits)
  then have "?live s" "gm_get (db_sessions db) ?sid = Some s"
    using queryRow_get [OF auth_inv_tables(3) [OF inv], of ?live s] by auto
  then show ?thesis using ok
    by (auto simp: Logout_def RevokeAppSession_def Let_def sessionRow_def updateRows_get revokeSession_def split: if_splits)
qed

lemma ChangeUserPassword_revokes:
  assumes "ChangeUserPassword env uid hash now db = (Inr (), db1)" "sessionRow db sid = Some s" "as_UserID s = uid"
  shows "\<exists>s'. sessionRow db1 sid = Some s' \<and> as_RevokedAt s' \<noteq> None"
  using assms by (auto simp: ChangeUserPassword_def Let_def sessionRow_def updateRows_get revokeSession_def split: if_splits)

lemma login_Inr:
  assumes "login cy s rnd clk env env' others name password fp db = (Inr issued, db1)"
  obtains params where
    "CreateAppSession env' params (runOps others db) = (Inr (is_Session issued), db1)"
    "cs_UserID params = u_ID (is_User issued)"
    "cs_AccessTokenDigest params = Digest cy (sv_digester s) (is_AccessToken issued)"
    "cs_DeviceFingerprint params = fp"
    "FindUserByUsername env name db = Inr (is_User issued)"
proof -
  have "\<exists>params. CreateAppSession env' params (runOps others db) = (Inr (is_Session issued), db1) \<and>
      cs_UserID params = u_ID (is_User issued) \<and>
      cs_AccessTokenDigest params = Digest cy (sv_digester s) (is_AccessToken issued) \<and>
      cs_DeviceFingerprint params = fp \<and> FindUserByUsername env name db = Inr (is_User issued)"
    using assms by (auto simp: login_def issueSession_def Let_def split: sum.splits option.splits prod.splits)
  then show thesis using that by blast
qed

lemma CreateAppSession_Inr:
  assumes "CreateAppSession env params db = (Inr s, db')"
  shows "sessionRow db' (as_ID s) = Some s \<and> as_ID s = cs_ID params \<and> as_UserID s = cs_UserID params \<and>
    as_AccessTokenDigest s = cs_AccessTokenDigest params \<and> as_DeviceFingerprint s = cs_DeviceFingerprint params \<and>
    as_CreatedAt s = pg_ts env (cs_Now params) \<and> as_RevokedAt s = None \<and>
    db' = db\<lparr>db_sessions := gm_put (as_ID s) s (db_sessions db)\<rparr> \<and> queryRow (\<lambda>u. u_ID u = cs_UserID params) (db_users db) \<noteq> None"
  using assms by (auto simp: CreateAppSession_def Let_def sessionRow_def split: if_splits)

section \<open>The store\<close>

text \<open>
  C8. Every database the store's methods can reach, whatever the parameters, clocks and faults, has unique keys and
  digests, references only to existing accounts and codes that are not both disabled and consumed; and there
  are no more accounts than consumed invite codes.
\<close>

theorem auth_store_invariant:
  "auth_inv (runOps ops emptyDB) \<and>
   length (db_users (runOps ops emptyDB)) \<le>
     length (filter (\<lambda>e. ic_ConsumedAt (snd e) \<noteq> None) (db_invites (runOps ops emptyDB)))"
  using auth_reachable_inv accounts_codes by blast

text \<open>
  C10. An invite code makes one account: once \<open>Register\<close> has succeeded with a code, every later registration with the
  same code, in whatever spelling, fails and changes nothing; unless something else is wrong the error is
  \<open>ErrInviteCodeConsumed\<close>.
\<close>

theorem invite_code_single_use:
  assumes "Register cy s rnd clk env username password inviteCode (runOps ops emptyDB) = (Inr user, db1)"
    "NormalizeInviteCode inviteCode' = NormalizeInviteCode inviteCode"
  shows "\<exists>e. Register cy' s' rnd' clk' env' username' password' inviteCode' (runOps ops' db1) = (Inl e, runOps ops' db1) \<and>
    (goodUsername (lowerText (TrimSpace username')) \<longrightarrow> ValidatePassword password' = None \<longrightarrow>
     rnd' 0 (uint (ph_SaltLength (sv_hasher s'))) \<noteq> None \<longrightarrow> \<not> pg_fail env' 0 \<longrightarrow> \<not> pg_fail env' 1 \<longrightarrow>
     e = ErrInviteCodeConsumed)"
proof -
  obtain code where code: "NormalizeInviteCode inviteCode' = Inr code" "codeSpent code db1" "auth_inv db1"
    using Register_Inr [OF auth_reachable_inv assms(1)] assms(2) by metis
  have lock: "lockInviteCode f code now (runOps ops' db1) = Inl (if f then ErrDatabase else ErrInviteCodeConsumed)" for f now
    by (rule spent_lock [OF runOps_inv spent_run]; fact code)
  have user: "NormalizeUsername username' = Inr (lowerText (TrimSpace username'))"
    if "goodUsername (lowerText (TrimSpace username'))"
    using that by (simp add: NormalizeUsername_def goodUsername_def chars_to_runes usernameRune_small)
  show ?thesis
    by (cases "NormalizeUsername username'"; cases "HashPassword cy' (sv_hasher s') (rnd' 0) password'")
      (auto simp: Register_def RegisterUser_def code lock user HashPassword_def split: option.splits)
qed

theorem invite_code_single_use_witness:
  "fst (Register demoAuthCrypto demoService (demoRnd 9) (demoClock 4) demoEnv ''Bobby'' ''secret2'' '' abcdef''
     (runOps [] (snd (Register demoAuthCrypto demoService (demoRnd 1) (demoClock 2) demoEnv ''Alice'' ''secret1'' ''ABCDEF''
       (runOps [demoInvite] emptyDB))))) = Inl ErrInviteCodeConsumed"
proof -
  let ?r = "Register demoAuthCrypto demoService (demoRnd 1) (demoClock 2) demoEnv ''Alice'' ''secret1'' ''ABCDEF''
    (runOps [demoInvite] emptyDB)"
  have r: "?r = (Inr (projr (fst ?r)), snd ?r)" by (rule Inr_pair) code_simp
  have n: "NormalizeInviteCode '' abcdef'' = NormalizeInviteCode ''ABCDEF''" by code_simp
  have c: "goodUsername (lowerText (TrimSpace ''Bobby''))" "ValidatePassword ''secret2'' = None"
    "demoRnd 9 0 (uint (ph_SaltLength (sv_hasher demoService))) \<noteq> None" "\<not> pg_fail demoEnv 0" "\<not> pg_fail demoEnv 1"
    by code_simp+
  from invite_code_single_use [OF r n, of demoAuthCrypto demoService "demoRnd 9" "demoClock 4" demoEnv "''Bobby''" "''secret2''" "[]"] c
  show ?thesis by auto
qed

text \<open>
  C11. A session revoked by \<open>Logout\<close>, or by a change of its owner's password, stays out: whatever the store does
  afterwards short of issuing the same session id again, no access token authenticates as that session and
  no refresh token refreshes it.
\<close>

theorem revoked_session_refused:
  assumes "Logout clk env app db = (Inr (), db1) \<and> sid = as_ID (aa_Session app) \<or>
      ChangeUserPassword env uid hash now db = (Inr (), db1) \<and> sessionRow db sid = Some s \<and> as_UserID s = uid"
    "db = runOps ops0 emptyDB" "\<forall>op \<in> set ops. \<not> createsSession sid op"
  shows "(AuthenticateAccessToken cy sv clk1 env1 env1' others tok (runOps ops db1) = Inr a \<longrightarrow> as_ID (aa_Session a) \<noteq> sid) \<and>
    (refresh cy sv rnd clk2 env2 env2' others tok fp (runOps ops db1) = (Inr issued, db2) \<longrightarrow>
      as_ID (is_Session issued) \<noteq> sid)"
proof -
  have inv: "auth_inv db" by (simp add: assms(2) auth_reachable_inv)
  obtain s' where s': "sessionRow db1 sid = Some s'" "as_RevokedAt s' \<noteq> None"
    using assms(1) Logout_revokes [OF inv] ChangeUserPassword_revokes by blast
  have "auth_inv db1"
    using assms(1) RevokeAppSession_inv [OF inv] ChangeUserPassword_inv [OF inv] by (metis Logout_def snd_conv)
  from revoked_refused [OF this s' assms(3)] show ?thesis by blast
qed

theorem revoked_session_refused_witness:
  "AuthenticateAccessToken demoAuthCrypto demoService (demoClock 5) demoEnv demoEnv [] ''x''
     (runOps [] (snd (Logout (demoClock 4) demoEnv demoApp demoDB))) \<noteq> Inr demoApp"
proof -
  let ?r = "Logout (demoClock 4) demoEnv demoApp demoDB"
  have "\<not> isl (fst ?r)" by code_simp
  then have "?r = (Inr (), snd ?r)" using Inr_pair [of ?r] by simp
  from revoked_session_refused [OF disjI1 [OF conjI [OF this refl]] demoDB_def, of "[]"] show ?thesis by fastforce
qed

text \<open>
  C9. A refresh token works once, and using it retires the access token of the session: after a refresh, the same
  refresh token is refused and the access token it replaced no longer authenticates, as long as nobody
  draws a token with the same digest again.
\<close>

theorem refresh_token_single_use:
  assumes db: "db = runOps ops0 emptyDB"
    and ok: "refresh cy sv rnd clk env env' others tok fp db = (Inr issued, db1)"
    and fresh: "Digest cy (sv_digester sv) (is_RefreshToken issued) \<noteq> Digest cy (sv_digester sv) tok"
      "\<forall>op \<in> set (others @ ops). \<not> storesRefresh (Digest cy (sv_digester sv) tok) op"
    and old: "AuthenticateAccessToken cy sv clk0 env0 env0' others0 atok db = Inr a"
      "as_ID (aa_Session a) = as_ID (is_Session issued)"
      "Digest cy (sv_digester sv) (is_AccessToken issued) \<noteq> Digest cy (sv_digester sv) atok"
      "\<forall>op \<in> set (others @ ops). \<not> storesAccess (Digest cy (sv_digester sv) atok) op"
  shows "fst (refresh cy sv rnd' clk' env1 env1' others' tok fp' (runOps ops db1)) \<noteq> Inr issued' \<and>
    AuthenticateAccessToken cy sv clk' env1 env1' others' atok (runOps ops db1) =
      Inl (if pg_fail env1 0 then ErrDatabase else ErrAppSessionNotFound)"
proof -
  have inv: "auth_inv db" by (simp add: db auth_reachable_inv)
  let ?d = "Digest cy (sv_digester sv) tok" and ?a = "Digest cy (sv_digester sv) atok"
  obtain params db' where rot: "RotateAppSessionByRefreshToken env params db = (Inr (is_Session issued), db')"
      "db1 = runOps others db'" "rs_RefreshTokenDigest params = ?d"
      "rs_NewRefreshTokenDigest params = Digest cy (sv_digester sv) (is_RefreshToken issued)"
      "rs_NewAccessTokenDigest params = Digest cy (sv_digester sv) (is_AccessToken issued)"
    by (rule refresh_Inr [OF ok])
  obtain s where s: "sessionRow db (as_ID s) = Some s" "as_RefreshTokenDigest s = ?d"
      "is_Session issued = rotatedSession env params s"
    by (rule Rotate_Inr [OF inv rot(1)]) (simp add: rot)
  have a: "aa_Session a = s" "as_AccessTokenDigest s = ?a"
    using FindSession_Inr [OF inv Authenticate_Inr [OF old(1)]] old(2) s by auto
  have inv': "auth_inv db'" using Rotate_inv [OF inv, of env params] rot(1) by simp
  have uniq: "uniqueOn as_RefreshTokenDigest (db_sessions db)" "uniqueOn as_AccessTokenDigest (db_sessions db)"
    using inv by (simp_all add: auth_inv_def sessions_ok_def)
  have row: "sessionRow db (as_ID (is_Session issued)) = Some s" using s by simp
  have "noDigest as_RefreshTokenDigest ?d db'" "noDigest as_AccessTokenDigest ?a db'"
    using rotate_removes [OF inv rot(1) row uniq(1)] rotate_removes [OF inv rot(1) row uniq(2)] s a rot fresh(1) old(3)
    by simp_all
  then have none: "noDigest as_RefreshTokenDigest ?d (runOps ops db1)" "noDigest as_AccessTokenDigest ?a (runOps ops db1)"
    using refreshDigest.absent_run [OF inv' fresh(2)] accessDigest.absent_run [OF inv' old(4)] rot(2) by simp_all
  have "fst (refresh cy sv rnd' clk' env1 env1' others' tok fp' (runOps ops db1)) \<noteq> Inr issued'"
    using refreshDigest.absent_query [OF none(1)]
    by (auto simp: refresh_def Let_def RotateAppSessionByRefreshToken_def split: sum.splits)
  moreover have "AuthenticateAccessToken cy sv clk' env1 env1' others' atok (runOps ops db1) =
      Inl (if pg_fail env1 0 then ErrDatabase else ErrAppSessionNotFound)"
    using accessDigest.absent_query [OF none(2)]
    by (simp add: AuthenticateAccessToken_def FindAppSessionByAccessToken_def)
  ultimately show ?thesis by blast
qed

theorem refresh_token_single_use_witness:
  "AuthenticateAccessToken demoAuthCrypto demoService (demoClock 5) demoEnv demoEnv [] ''x'' (runOps [] (snd demoRefresh)) =
     Inl (if pg_fail demoEnv 0 then ErrDatabase else ErrAppSessionNotFound)"
proof -
  let ?i = "projr (fst demoRefresh)"
  have d: "Digest demoAuthCrypto (sv_digester demoService) (is_RefreshToken ?i) \<noteq> Digest demoAuthCrypto (sv_digester demoService) ''y''"
    "Digest demoAuthCrypto (sv_digester demoService) (is_AccessToken ?i) \<noteq> Digest demoAuthCrypto (sv_digester demoService) ''x''"
    "as_ID (aa_Session demoApp) = as_ID (is_Session ?i)" by code_simp+
  from refresh_token_single_use [OF demoDB_def demo_refresh d(1) _ demo_app d(3,2), of "[]"]
  show ?thesis by simp
qed

section \<open>Sessions\<close>

text \<open>
  C35. A session ends: whatever is refreshed in between, a token that authenticates as a session issued by a login is a
  token of the same account and device, and the time is before the session's creation plus the absolute
  lifetime.
\<close>

theorem session_lifetime:
  assumes db: "db = runOps ops0 emptyDB" and ttl: "0 < sv_absoluteTTL sv"
    and ok: "login cy sv rnd clk env env' others name password fp db = (Inr issued, db1)"
    and new: "\<forall>op \<in> set ops. \<not> createsSession (as_ID (is_Session issued)) op"
    and a: "AuthenticateAccessToken cy sv clk1 env1 env1' others1 tok (runOps ops db1) = Inr a"
      "as_ID (aa_Session a) = as_ID (is_Session issued)"
  shows "as_UserID (aa_Session a) = u_ID (is_User issued) \<and> as_DeviceFingerprint (aa_Session a) = fp \<and>
    clk1 0 < as_CreatedAt (is_Session issued) + sv_absoluteTTL sv \<and> clk1 0 < as_AccessExpiresAt (aa_Session a)"
proof -
  have inv: "auth_inv (runOps others db)" unfolding db by (intro runOps_inv auth_inv_empty)
  obtain params where p: "CreateAppSession env' params (runOps others db) = (Inr (is_Session issued), db1)"
      "cs_UserID params = u_ID (is_User issued)" "cs_DeviceFingerprint params = fp"
    by (rule login_Inr [OF ok])
  note c = CreateAppSession_Inr [OF p(1)]
  have inv1: "auth_inv db1" using CreateAppSession_inv [OF inv, of env' params] p(1) by simp
  note f = FindSession_Inr [OF runOps_inv [OF inv1] Authenticate_Inr [OF a(1)]]
  then have "sessionRow (runOps ops db1) (as_ID (is_Session issued)) = Some (aa_Session a)" using a(2) by simp
  from sessions.row_run [OF inv1 new this] c have "sessionEvolves (is_Session issued) (aa_Session a)" by auto
  then show ?thesis using f c p ttl by (auto simp: sessionEvolves_def isAbsoluteSessionExpired_def)
qed

theorem session_lifetime_witness:
  "3 < as_CreatedAt (is_Session (projr (fst (demoLogin [])))) + sv_absoluteTTL demoService"
proof -
  let ?i = "projr (fst (demoLogin []))"
  let ?a = "AuthenticateAccessToken demoAuthCrypto demoService (demoClock 3) demoEnv demoEnv [] (is_AccessToken ?i)
    (runOps [] (snd (demoLogin [])))"
  have "\<not> isl ?a" by code_simp
  then have a: "?a = Inr (projr ?a)" by (rule Inr_projr)
  have c: "0 < sv_absoluteTTL demoService" "as_ID (aa_Session (projr ?a)) = as_ID (is_Session ?i)" by code_simp+
  from session_lifetime [OF demoDB_def c(1) demo_login _ a c(2)]
  show ?thesis by (simp add: demoClock_def)
qed



text \<open>
  C37. A login that has read the account before the password is changed, and inserts its session after, keeps a live
  session: \<open>ChangeUserPassword\<close> revokes the sessions it finds, and the login, whose password was checked against
  the replaced hash, gets the session it would have got before.
\<close>

theorem password_change_misses_login:
  assumes db: "db = runOps ops0 emptyDB"
    and login: "login cy sv rnd clk env env' [] name password fp db = (Inr issued, db1)"
    and change: "ChangeUserPassword envp (u_ID (is_User issued)) hash now db = (Inr (), db2)"
  shows "\<exists>db3. login cy sv rnd clk env env' [OpPassword envp (u_ID (is_User issued)) hash now] name password fp db =
      (Inr issued, db3) \<and>
    sessionRow db3 (as_ID (is_Session issued)) = Some (is_Session issued) \<and> as_RevokedAt (is_Session issued) = None"
proof -
  obtain params where p: "CreateAppSession env' params db = (Inr (is_Session issued), db1)"
    using login_Inr [OF login] by auto
  have db2: "runOp (OpPassword envp (u_ID (is_User issued)) hash now) db = db2" using change by simp
  have "keyTaken (\<lambda>u. u_ID u = d) (db_users db2) = keyTaken (\<lambda>u. u_ID u = d) (db_users db)" for d
    using change by (auto simp: ChangeUserPassword_def Let_def keyTaken_update split: if_splits)
  then have usr: "queryRow (\<lambda>u. u_ID u = d) (db_users db2) = None \<longleftrightarrow> queryRow (\<lambda>u. u_ID u = d) (db_users db) = None" for d
    unfolding keyTaken_def by metis
  have same: "keyTaken (\<lambda>s. g s = d) (db_sessions db2) = keyTaken (\<lambda>s. g s = d) (db_sessions db)"
    if "\<And>t r s. g (revokeSession t r s) = g s" for g :: "AppSession \<Rightarrow> string" and d
    using change that by (auto simp: ChangeUserPassword_def Let_def keyTaken_update split: if_splits)
  have ins: "fst (CreateAppSession env' q db2) = fst (CreateAppSession env' q db)" for q
    by (simp add: CreateAppSession_def Let_def usr same revokeSession_def)
  have iss: "fst (issueSession cy sv rnd clk env' u f db2) = fst (issueSession cy sv rnd clk env' u f db)" for u f
    by (simp add: issueSession_def Let_def case_prod_beta ins split: sum.splits)
  have "fst (login cy sv rnd clk env env' [OpPassword envp (u_ID (is_User issued)) hash now] name password fp db) = Inr issued"
    using login db2 iss by (auto simp: login_def split: sum.splits option.splits)
  then obtain db3 where l: "login cy sv rnd clk env env' [OpPassword envp (u_ID (is_User issued)) hash now] name password fp db =
      (Inr issued, db3)" by (metis prod.collapse)
  obtain params3 where "CreateAppSession env' params3 db2 = (Inr (is_Session issued), db3)"
    using login_Inr [OF l] db2 by auto
  from CreateAppSession_Inr [OF this] l show ?thesis by blast
qed

theorem password_change_misses_login_witness:
  "\<exists>db3. demoLogin [OpPassword demoEnv 1 ''changed'' 4] = (Inr (projr (fst (demoLogin []))), db3) \<and>
     as_RevokedAt (is_Session (projr (fst (demoLogin [])))) = None"
proof -
  let ?i = "projr (fst (demoLogin []))" and ?c = "ChangeUserPassword demoEnv 1 ''changed'' 4 demoDB"
  have "\<not> isl (fst ?c)" and u: "u_ID (is_User ?i) = 1" by code_simp+
  then have "?c = (Inr (), snd ?c)" using Inr_pair [of ?c] by simp
  then have "ChangeUserPassword demoEnv (u_ID (is_User ?i)) ''changed'' 4 demoDB = (Inr (), snd ?c)" by (simp only: u)
  from password_change_misses_login [OF demoDB_def demo_login this, unfolded u]
  show ?thesis unfolding demoLogin_def [of "[_]"] by blast
qed

section \<open>Agent tokens\<close>

text \<open>
  C38. A revoked agent token is refused for good: after \<open>Revoke\<close>, no plaintext authenticates as that token, unless a token
  with the same id is created again.
\<close>

theorem revoked_agent_token_refused:
  assumes db: "db = runOps ops0 emptyDB" and ok: "Revoke_token clk env uid tid actor db = (Inr (), db1)"
    and new: "\<forall>op \<in> set ops. \<not> createsToken tid op"
    and a: "fst (Authenticate_token cy dg clk1 env1 env1' others plaintext (runOps ops db1)) = Inr a"
  shows "at_ID (ta_Token a) \<noteq> tid"
proof
  assume tid: "at_ID (ta_Token a) = tid"
  have inv: "auth_inv db" by (simp add: db auth_reachable_inv)
  have inv1: "auth_inv db1" using RevokeAgentToken_inv [OF inv, of env uid tid actor "clk 0"] ok by (simp add: Revoke_token_def)
  let ?live = "\<lambda>t. at_ID t = tid \<and> at_UserID t = uid \<and> at_RevokedAt t = None"
  obtain t where t: "queryRow ?live (db_tokens db) = Some t"
    using ok by (auto simp: Revoke_token_def RevokeAgentToken_db_def Let_def split: if_splits)
  then have "?live t" "gm_get (db_tokens db) tid = Some t"
    using queryRow_get [OF auth_inv_tables(4) [OF inv] t] by auto
  then obtain t1 where t1: "tokenRow db1 tid = Some t1" "at_RevokedAt t1 \<noteq> None"
    using ok by (auto simp: Revoke_token_def RevokeAgentToken_db_def Let_def tokenRow_def updateRows_get split: if_splits)
  obtain rec where rec: "queryAgentToken (pg_fail env1 1) (\<lambda>t. at_TokenDigest t = Digest cy dg plaintext) (runOps ops db1) = Inr rec"
      "at_RevokedAt rec = None" "at_ID rec = tid"
    using a tid by (auto simp: Authenticate_token_def AuthenticateAgentToken_def Let_def split: if_splits sum.splits prod.splits)
  have "tokenRow (runOps ops db1) tid = Some rec"
    using queryAgentToken_Inr [OF runOps_inv [OF inv1] rec(1)] rec(3) by (simp add: tokenRow_def)
  from tokens.frozen_run [OF inv1 new t1(1) this] t1(2) rec(2) show False by (auto simp: tokenEvolves_def)
qed

theorem revoked_agent_token_refused_witness:
  "at_ID (ta_Token (projr (fst (Authenticate_token demoAuthCrypto (sv_digester demoService) (demoClock 5) demoEnv demoEnv [] ''w''
     (runOps [OpCreateToken demoEnv \<lparr>ca_ID = ''t2'', ca_UserID = 1, ca_Name = ''agent'', ca_TokenDigest = ''77'', ca_Now = 3\<rparr>]
       (snd (Revoke_token (demoClock 4) demoEnv 1 ''t1'' ''alice'' demoDB))))))) \<noteq> ''t1''"
proof -
  let ?op = "OpCreateToken demoEnv \<lparr>ca_ID = ''t2'', ca_UserID = 1, ca_Name = ''agent'', ca_TokenDigest = ''77'', ca_Now = 3\<rparr>"
  let ?r = "Revoke_token (demoClock 4) demoEnv 1 ''t1'' ''alice'' demoDB"
  let ?a = "fst (Authenticate_token demoAuthCrypto (sv_digester demoService) (demoClock 5) demoEnv demoEnv [] ''w'' (runOps [?op] (snd ?r)))"
  have "\<not> isl (fst ?r)" "\<not> isl ?a" by code_simp+
  then have r: "?r = (Inr (), snd ?r)" and a: "?a = Inr (projr ?a)" using Inr_pair [of ?r] Inr_projr [of ?a] by simp_all
  show ?thesis by (rule revoked_agent_token_refused [OF demoDB_def r _ a]) simp
qed

section \<open>Credentials\<close>

text \<open>
  C39. A password verifies against the hash made of it, and another one exactly when Argon2id derives the same key from it:
  printing the parameters, the salt and the key and reading them back loses nothing.
\<close>

theorem password_verifies:
  assumes "ph_MemoryKiB h \<noteq> 0" "ph_Iterations h \<noteq> 0" "ph_Parallelism h \<noteq> 0" "ph_SaltLength h \<noteq> 0" "ph_KeyLength h \<noteq> 0"
    and read: "\<And>n buf. rnd n = Some buf \<Longrightarrow> int (length buf) = n"
    and key: "\<And>p salt t m par k. length (ac_argon2 cy p salt t m par k) = unat k"
    and hash: "HashPassword cy h rnd raw = Inr encoded"
  shows "\<exists>salt. rnd (uint (ph_SaltLength h)) = Some salt \<and> (\<forall>raw'. VerifyPassword cy raw' encoded =
    (if length raw' < 6 then Some ErrInvalidPassword
     else if ac_argon2 cy (bytes_of raw') salt (ph_Iterations h) (ph_MemoryKiB h) (ph_Parallelism h) (ph_KeyLength h) =
             ac_argon2 cy (bytes_of raw) salt (ph_Iterations h) (ph_MemoryKiB h) (ph_Parallelism h) (ph_KeyLength h)
     then None else Some ErrInvalidPassword))"
proof -
  let ?k = "\<lambda>salt r. ac_argon2 cy (bytes_of r) salt (ph_Iterations h) (ph_MemoryKiB h) (ph_Parallelism h) (ph_KeyLength h)"
  obtain salt where salt: "rnd (uint (ph_SaltLength h)) = Some salt"
      "encoded = hashText (ph_MemoryKiB h) (ph_Iterations h) (ph_Parallelism h) salt (?k salt raw)"
    using hash by (auto simp: HashPassword_def split: option.splits)
  have "unat (ph_KeyLength h) \<noteq> 0" using assms(5) by (simp add: unat_eq_0)
  then have "?k salt raw \<noteq> []" using key by (metis list.size(3))
  moreover have "salt \<noteq> []" using read [OF salt(1)] assms(4) by (auto simp: uint_0_iff)
  moreover have "word_of_nat (length (?k salt raw)) = ph_KeyLength h" by (simp add: key)
  ultimately have "VerifyPassword cy raw' encoded =
    (if length raw' < 6 then Some ErrInvalidPassword
     else if ?k salt raw' = ?k salt raw then None else Some ErrInvalidPassword)" for raw'
    unfolding salt(2) using assms(1-3) by (simp add: Verify_hashText minPasswordLength_def)
  with salt(1) show ?thesis by blast
qed

theorem password_verifies_witness:
  "VerifyPassword demoHashCrypto ''secret1'' (projr (HashPassword demoHashCrypto (sv_hasher demoService) demoSalt ''secret1'')) = None"
proof -
  let ?h = "sv_hasher demoService"
  have "\<not> isl (HashPassword demoHashCrypto ?h demoSalt ''secret1'')" by code_simp
  then have h: "HashPassword demoHashCrypto ?h demoSalt ''secret1'' = Inr (projr (HashPassword demoHashCrypto ?h demoSalt ''secret1''))"
    by (rule Inr_projr)
  have n: "ph_MemoryKiB ?h \<noteq> 0" "ph_Iterations ?h \<noteq> 0" "ph_Parallelism ?h \<noteq> 0" "ph_SaltLength ?h \<noteq> 0" "ph_KeyLength ?h \<noteq> 0"
    by (simp_all add: demoService_def NewAppAuthService_def)
  from password_verifies [OF n _ _ h] show ?thesis by (force simp: demoSalt_def demoHashCrypto_def split: if_splits)
qed



section \<open>The lifetime of invite codes\<close>

lemma insert_code_row:
  assumes "auth_inv db" "insertInviteCode env fails p db = (Inr i, db')"
  shows "gm_get (db_invites db') (ic_ID i) = Some i \<and> ic_Code i = ci_Code p \<and> ic_ExpiresAt i = pg_ts env (ci_ExpiresAt p) \<and>
    ic_DisabledAt i = None \<and> ic_ConsumedAt i = None \<and> ic_ID i = db_nextInvite db \<and> db_nextInvite db' = db_nextInvite db + 1"
  using assms by (auto simp: insertInviteCode_def Let_def split: if_splits)

lemma insert_keeps:
  assumes "auth_inv db" "insertInviteCode env fails p db = (r, db')" "gm_get (db_invites db) k = Some i"
  shows "gm_get (db_invites db') k = Some i"
proof -
  have "k < db_nextInvite db" using assms(1,3) by (auto simp: auth_inv_def invites_ok_def dest: gm_allD)
  then show ?thesis using assms(2,3) by (auto simp: insertInviteCode_def Let_def split: if_splits)
qed

lemma inserts_keep:
  "auth_inv db \<Longrightarrow> insertInviteCodes env n ps db = (r, db') \<Longrightarrow> gm_get (db_invites db) k = Some i \<Longrightarrow>
   gm_get (db_invites db') k = Some i"
proof (induction env n ps db rule: insertInviteCodes.induct)
  case (2 env n p ps db)
  obtain q t where t: "insertInviteCode env (pg_fail env n) p db = (q, t)" by fastforce
  note t' = insertInviteCode_inv [OF "2.prems"(1) t] insert_keeps [OF "2.prems"(1) t "2.prems"(3)]
  show ?case
  proof (cases q)
    case (Inr j)
    then show ?thesis using "2.IH" [OF t [symmetric] Inr] t' "2.prems"(2) t by simp
  qed (use t' "2.prems"(2) t in simp)
qed simp

lemma inserts_rows:
  "auth_inv db \<Longrightarrow> insertInviteCodes env n ps db = (Inr u, db') \<Longrightarrow> p \<in> set ps \<Longrightarrow>
   \<exists>k i. gm_get (db_invites db') k = Some i \<and> ic_Code i = ci_Code p \<and> ic_ExpiresAt i = pg_ts env (ci_ExpiresAt p) \<and>
     ic_DisabledAt i = None \<and> ic_ConsumedAt i = None"
proof (induction env n ps db rule: insertInviteCodes.induct)
  case (2 env n p' ps db)
  obtain j t where t: "insertInviteCode env (pg_fail env n) p' db = (Inr j, t)"
    using "2.prems"(2) by (auto split: sum.splits prod.splits)
  have rest: "insertInviteCodes env (Suc n) ps t = (Inr u, db')" using "2.prems"(2) t by simp
  have inv: "auth_inv t" using insertInviteCode_inv [OF "2.prems"(1) t] by simp
  show ?case
  proof (cases "p = p'")
    case True
    then show ?thesis using inserts_keep [OF inv rest] insert_code_row [OF "2.prems"(1) t] by blast
  next
    case False
    then show ?thesis using "2.IH" [OF t [symmetric] refl inv rest] "2.prems"(3) by simp
  qed
qed simp

lemma drawCodes_expiry: "drawCodes i rnd now exp n = Inr ps \<Longrightarrow> p \<in> set ps \<Longrightarrow> ci_ExpiresAt p = exp"
  by (induction i rnd now exp n arbitrary: ps rule: drawCodes.induct) (auto split: sum.splits)

text \<open>
  The lifetime of an invite code is the requested number of days up to 106751 days; from 106752 days on the product of
  64-bit nanoseconds wraps around, and the codes that \<open>CreateInviteCodes\<close> returns for 106752 days have expired
  before they are handed out.
\<close>

theorem invite_lifetime_wraps:
  assumes db: "db = runOps ops emptyDB" and ts: "\<And>t. pg_ts env t \<le> t"
    and ok: "CreateInviteCodes clk rnd env count 106752 db = (Inr out, db')" and code: "code \<in> set out" and now: "clk 0 \<le> now"
  shows "lockInviteCode False code now db' = Inl ErrInviteCodeExpired \<and>
    (\<forall>days. 0 < days \<and> days \<le> 106751 \<longrightarrow> inviteLifetime days = days * 24 * hour)"
proof -
  have inv: "auth_inv db" by (simp add: db auth_reachable_inv)
  have neg: "inviteLifetime 106752 \<le> 0" by (simp add: inviteLifetime_def wrap64_def hour_def minute_def second_def)
  obtain ps where ps: "drawCodes 0 rnd (clk 0) (clk 0 + inviteLifetime 106752) (nat count) = Inr ps"
      "CreateInviteCodes_db env ps db = (Inr (), db')" "out = map ci_Code ps"
    using ok by (auto simp: CreateInviteCodes_def Let_def split: if_splits sum.splits prod.splits)
  obtain p where p: "p \<in> set ps" "ci_Code p = code" using code ps(3) by auto
  obtain u where ins: "insertInviteCodes env 1 ps db = (Inr u, db')"
    using ps(2) p(1) by (auto simp: CreateInviteCodes_db_def split: if_splits sum.splits prod.splits)
  obtain k i where i: "gm_get (db_invites db') k = Some i" "ic_Code i = code" "ic_ExpiresAt i = pg_ts env (ci_ExpiresAt p)"
      "ic_DisabledAt i = None" "ic_ConsumedAt i = None"
    using inserts_rows [OF inv ins p(1)] p(2) by blast
  have "queryRow (\<lambda>j. ic_Code j = code) (db_invites db') = Some i"
    using code_lock [OF _ i(1,2)] insertInviteCodes_inv [OF inv ins] by simp
  moreover have "\<not> now < ic_ExpiresAt i"
    using drawCodes_expiry [OF ps(1) p(1)] ts [of "ci_ExpiresAt p"] neg now i(3) by simp
  moreover have "inviteLifetime days = days * 24 * hour" if "0 < days" "days \<le> 106751" for days
    using that by (simp add: inviteLifetime_def wrap64_def hour_def minute_def second_def)
  ultimately show ?thesis using i by (simp add: lockInviteCode_def)
qed

theorem invite_lifetime_wraps_witness:
  "lockInviteCode False ''555555'' 7 (snd (CreateInviteCodes (demoClock 5) (\<lambda>_. replicate 6 [3]) demoEnv 1 106752 demoDB)) =
     Inl ErrInviteCodeExpired"
proof -
  let ?r = "CreateInviteCodes (demoClock 5) (\<lambda>_. replicate 6 [3]) demoEnv 1 106752 demoDB"
  have "fst ?r = Inr [''555555'']" by code_simp
  then have r: "?r = (Inr [''555555''], snd ?r)" by (metis prod.collapse)
  from invite_lifetime_wraps [OF demoDB_def _ r, of "''555555''" 7] show ?thesis by (simp add: demoEnv_def demoClock_def)
qed

end
