(* ===== verification/Relay_Props.thy ===== *)
theory Relay_Props
  imports Relay_Live Auth_Props
begin

text \<open>
  Properties of the running relay: its components over all interleavings of its connections and requests, what stands
  behind an entry of a registry, and what a revoked agent token can still do.
\<close>

section \<open>Revoked tokens\<close>

definition tokenRefused :: "string \<Rightarrow> authDB \<Rightarrow> bool" where
  "tokenRefused t db \<longleftrightarrow> (\<forall>rec. tokenRow db t = Some rec \<longrightarrow> at_RevokedAt rec \<noteq> None)"

lemma refused_run:
  "auth_inv db \<Longrightarrow> tokenRefused t db \<Longrightarrow> \<forall>op \<in> set ops. \<not> createsToken t op \<Longrightarrow> tokenRefused t (runOps ops db)"
  unfolding tokenRefused_def using tokens.row_run [of db ops t] by (fastforce simp: tokenEvolves_def)

lemma refused_Revoke:
  assumes "auth_inv db" "RevokeAgentToken_db env uid t actor now db = (Inr (), db')"
  shows "tokenRefused t db'"
proof -
  let ?live = "\<lambda>r. at_ID r = t \<and> at_UserID r = uid \<and> at_RevokedAt r = None"
  obtain r where r: "queryRow ?live (db_tokens db) = Some r" and tokens: "db_tokens db' = updateRows ?live
      (\<lambda>r. r\<lparr>at_RevokedAt := Some (pg_ts env now), at_RevokeReason := ''revoked_by_user'', at_UpdatedAt := pg_ts env now\<rparr>)
      (db_tokens db)"
    using assms(2) by (auto simp: RevokeAgentToken_db_def Let_def insertAuditEvent_def split: if_splits)
  have "at_ID r = t" "?live r" "tokenRow db t = Some r"
    using queryRow_Some [OF r] queryRow_get [OF auth_inv_tables(4) [OF assms(1)] r] by (auto simp: tokenRow_def)
  then show ?thesis by (auto simp: tokenRefused_def tokenRow_def tokens updateRows_get)
qed

lemma refused_answer:
  assumes "auth_inv db" "tokenAnswer e d token db = Inr auth"
  shows "\<not> tokenRefused (at_ID (ta_Token auth)) db"
proof -
  obtain rec db' where use: "AuthenticateAgentToken (rq_pg e) (Digest (rq_cy e) d token) (rq_clk e 0) db = (Inr rec, db')"
    and auth: "ta_Token auth = rec"
    using assms(2) by (auto simp: tokenAnswer_def Authenticate_token_def split: sum.splits prod.splits)
  from use obtain r x y where "queryAgentToken (pg_fail (rq_pg e) 1) (\<lambda>t. at_TokenDigest t = Digest (rq_cy e) d token) db = Inr r"
    "at_RevokedAt r = None" "rec = r\<lparr>at_LastUsedAt := x, at_UpdatedAt := y\<rparr>"
    by (auto simp: AuthenticateAgentToken_def Let_def split: if_splits sum.splits)
  then show ?thesis using queryAgentToken_Inr [OF assms(1)] auth by (fastforce simp: tokenRefused_def tokenRow_def)
qed

lemma check_answer:
  "fst (deviceReauth e d token auth db) \<Longrightarrow> \<exists>auth'. tokenAnswer e d token db = Inr auth' \<and> at_ID (ta_Token auth') = at_ID (ta_Token auth)"
  "fst (agentAuthStillValid e (Some d) token auth db) \<Longrightarrow>
     \<exists>auth'. tokenAnswer e d token db = Inr auth' \<and> at_ID (ta_Token auth') = at_ID (ta_Token auth)"
  by (auto simp: deviceReauth_def agentAuthStillValid_def tokenAnswer_def split: sum.splits prod.splits)

text \<open>No entry of the token, and no connection past its check that could still make one.\<close>

definition devShut :: "string \<Rightarrow> relaySystem \<Rightarrow> bool" where
  "devShut t s \<longleftrightarrow> (\<forall>d p owner. holder (sy_dev s) d = Some (p, owner) \<longrightarrow> ow_AgentTokenID owner \<noteq> t) \<and>
     (\<forall>c auth info owner. sy_conns s c = DeviceChecked auth info \<longrightarrow> at_ID (ta_Token auth) = t \<longrightarrow>
        (Some c, owner) \<notin> set (dg_pending (sy_dev s)))"

definition sessShut :: "string \<Rightarrow> relaySystem \<Rightarrow> bool" where
  "sessShut t s \<longleftrightarrow> (\<forall>(k, p, owner) \<in> sessEntries (sy_sess s). so_AgentTokenID owner \<noteq> t) \<and>
     (\<forall>c auth info. sy_conns s c = AgentChecked auth info \<longrightarrow> at_ID (ta_Token auth) \<noteq> t)"

lemma devShut_step:
  assumes "sys_step v s ops s'" "auth_inv (sy_db s)" "tokenRefused t (sy_db s)" "devShut t s"
  shows "devShut t s'"
  using assms
proof (induction rule: sys_step.induct)
  case (Section s st)
  then show ?case by (fastforce simp: devShut_def relayQuiet_def devQuiet_def map_le_def dom_def)
next
  case (DevicePend s c token auth)
  then show ?case by (auto simp: devShut_def holder_simps RegisterPending_def dest!: subsetD [OF set_gm_put])
next
  case (DeviceCheck s c token auth frame info d e)
  then show ?case using check_answer(1) refused_answer by (fastforce simp: devShut_def)
next
  case (DeviceActivate s c auth info clk ok es dev)
  note act = holder_Activate [of clk info "deviceOwnerOf auth" "Some c" "sy_dev s" es dev]
  have "at_ID (ta_Token auth) \<noteq> t" if ok
    using that DeviceActivate act(1) gm_get_in by (fastforce simp: devShut_def)
  moreover have "set (dg_pending dev) \<subseteq> set (dg_pending (sy_dev s))"
    using DeviceActivate.hyps act by (cases ok) (auto simp: set_gm_del)
  ultimately show ?case using DeviceActivate act by (cases ok) (auto simp: devShut_def deviceOwnerOf_def)
next
  case (DeviceLeave s c auth info)
  then show ?case using devQuiet_leave(1) [of "sy_dev s" "dv_DeviceID info" "Some c"]
    by (fastforce simp: devShut_def devQuiet_def map_le_def dom_def)
next
  case (DeviceEnd s c auth)
  then show ?case using devQuiet_leave(2) [of "sy_dev s" "Some c"]
    by (fastforce simp: devShut_def devQuiet_def map_le_def dom_def)
qed (auto simp: devShut_def split: option.splits)

lemma sessShut_step:
  assumes "sys_step v s ops s'" "auth_inv (sy_db s)" "tokenRefused t (sy_db s)" "sessShut t s"
  shows "sessShut t s'"
  using assms
proof (induction rule: sys_step.induct)
  case (Section s st)
  then show ?case by (auto simp: sessShut_def relayQuiet_def sessQuiet_def)
next
  case (AgentCheck s c token auth frame info d e)
  then show ?case using check_answer(2) refused_answer by (fastforce simp: sessShut_def)
next
  case (AgentRegister s c auth info)
  have "at_ID (ta_Token auth) \<noteq> t" using AgentRegister by (auto simp: sessShut_def)
  then show ?case using AgentRegister
    by (auto simp: sessShut_def agentRegister_def RegisterOwned_sess_def sessEntries_def Let_def
        dest!: subsetD [OF set_gm_put])
next
  case (AgentLeave s c auth info)
  then show ?case using sessQuiet_leave [of "sy_sess s" info c] by (auto simp: sessShut_def sessQuiet_def)
qed (auto simp: sessShut_def split: option.splits)

lemma shut_run:
  assumes "sys_run v s ops s'" "auth_inv (sy_db s)" "tokenRefused t (sy_db s)" "\<forall>op \<in> set ops. \<not> createsToken t op"
  shows "devShut t s \<Longrightarrow> devShut t s'" "sessShut t s \<Longrightarrow> sessShut t s'"
proof -
  have "(devShut t s \<longrightarrow> devShut t s') \<and> (sessShut t s \<longrightarrow> sessShut t s')"
    using assms
  proof (induction rule: sys_run.induct)
    case (sys_next s ops s1 ops' s2)
    then have "auth_inv (sy_db s1)" "tokenRefused t (sy_db s1)"
      using run_db [OF sys_next.hyps(1)] by (auto simp: runOps_inv refused_run)
    then show ?case using sys_next devShut_step sessShut_step by simp
  qed simp
  then show "devShut t s \<Longrightarrow> devShut t s'" "sessShut t s \<Longrightarrow> sessShut t s'" by blast+
qed

lemma shut_devices:
  assumes "sys_inv s" "dev_inv (sy_dev s)"
  shows "devShut t (withDev (snd (snd (DisconnectAgentTokenDevices t (sy_dev s)))) s)"
proof -
  let ?r = "snd (snd (DisconnectAgentTokenDevices t (sy_dev s)))"
  have "ow_AgentTokenID owner \<noteq> t" if "holder ?r d = Some (p, owner)" for d p owner
    using that revoke_token_entries(1) [OF assms(2) refl, of t d] by (auto simp: holder_def)
  moreover have "(Some c, owner) \<notin> set (dg_pending ?r)"
    if "sy_conns s c = DeviceChecked auth info" "at_ID (ta_Token auth) = t" for c auth info owner
    using that assms(1) backedD [of pendingAs "pendingParties (sy_dev s)" "sy_conns s" "Some c" owner]
    by (auto simp: sys_inv_def holder_DisconnectToken(2) set_gm_drop pendingParties_def deviceOwnerOf_def)
  ultimately show ?thesis by (simp add: devShut_def)
qed

lemma shut_out:
  "devShut t s \<Longrightarrow> gm_get (dg_devices (sy_dev s)) d = Some live \<Longrightarrow> ow_AgentTokenID (lv_owner live) \<noteq> t"
  "sessShut t s \<Longrightarrow> sessionEntry (sy_sess s) k = Some live' \<Longrightarrow> so_AgentTokenID (ls_owner live') \<noteq> t"
proof -
  show "devShut t s \<Longrightarrow> gm_get (dg_devices (sy_dev s)) d = Some live \<Longrightarrow> ow_AgentTokenID (lv_owner live) \<noteq> t"
    by (auto simp: devShut_def holder_def)
  show "sessShut t s \<Longrightarrow> sessionEntry (sy_sess s) k = Some live' \<Longrightarrow> so_AgentTokenID (ls_owner live') \<noteq> t"
    by (force simp: sessShut_def sessionEntry_def sessEntries_def dest: gm_get_in)
qed

lemma shut_keep [simp]:
  "devShut t (withSess r1 s) = devShut t s" "devShut t (withConn r3 s) = devShut t s"
  "sessShut t (withDev r2 s) = sessShut t s" "sessShut t (withConn r3 s) = sessShut t s"
  by (simp_all add: devShut_def sessShut_def)

lemma refused_sys:
  "sys_run v s ops s' \<Longrightarrow> auth_inv (sy_db s) \<Longrightarrow> tokenRefused t (sy_db s) \<Longrightarrow> \<forall>op \<in> set ops. \<not> createsToken t op \<Longrightarrow>
     tokenRefused t (sy_db s')"
  by (simp add: run_db refused_run)

lemma shut_sessions:
  assumes "\<forall>c auth info. sy_conns s c = AgentChecked auth info \<longrightarrow> at_ID (ta_Token auth) \<noteq> t"
  shows "sessShut t (withSess (snd (snd (DisconnectAgentTokenSessions t (sy_sess s)))) s)"
  using assms
  by (auto simp: sessShut_def DisconnectAgentTokenSessions_def disconnectMatching_def sessEntries_def Let_def set_gm_drop)

lemma system_parts:
  assumes "sys_run v (newSystem emptyDB) ops s"
  shows "sy_db s = runOps ops emptyDB" "auth_inv (sy_db s)" "conn_reachable (sy_conn s)" "dev_reachable (sy_dev s)"
    "sess_step\<^sup>*\<^sup>* NewRegistry_sess (sy_sess s)" "sys_inv s" "dev_inv (sy_dev s)"
  using run_db [OF assms] run_conn [OF assms sys_inv_new] run_dev [OF assms] run_sess [OF assms]
    sys_inv_run [OF assms sys_inv_new]
  by (auto simp: newSystem_def newRouter_def runOps_inv auth_inv_empty connRun_def conn_reachable_def dev_reachable_def
      intro: reachable_dev_inv [unfolded dev_reachable_def])

lemma section_run:
  assumes "sys_run v (newSystem emptyDB) ops s"
  shows "sessQuiet (sy_sess s) r1 \<Longrightarrow> sys_run v (newSystem emptyDB) ops (withSess r1 s)"
    "devQuiet (sy_dev s) r2 \<Longrightarrow> sys_run v (newSystem emptyDB) ops (withDev r2 s)"
    "connQuiet (sy_conn s) r3 \<Longrightarrow> sys_run v (newSystem emptyDB) ops (withConn r3 s)"
    "sys_run v (newSystem emptyDB) (ops @ [op]) (withDb (runOp op (sy_db s)) s)"
proof -
  have go: "sys_run v (newSystem emptyDB) ops (s\<lparr>sy_relay := st\<rparr>)" if "relayQuiet (sy_relay s) st" for st
    using sys_next [OF assms sys_step.Section [OF that]] by simp
  show "sessQuiet (sy_sess s) r1 \<Longrightarrow> sys_run v (newSystem emptyDB) ops (withSess r1 s)"
    "devQuiet (sy_dev s) r2 \<Longrightarrow> sys_run v (newSystem emptyDB) ops (withDev r2 s)"
    "connQuiet (sy_conn s) r3 \<Longrightarrow> sys_run v (newSystem emptyDB) ops (withConn r3 s)"
    unfolding withSess_def withDev_def withConn_def by (rule go, simp add: relayQuiet_def)+
qed (rule sys_next [OF assms sys_step.Store])

section \<open>Properties\<close>

text \<open>
  C1. A revoked agent token stays out. Let a running relay revoke the token in the database and then, with any
  steps of other connections, requests and timers between them, end the token's sessions, its devices and its daemons,
  which is what \<open>RevokeAgentToken\<close> does. However the run goes on, no device, no daemon and nothing that a daemon serves
  is ever again registered under the token; nor is a session, provided that no agent connection stood
  between its check and its registration when the sessions were ended. (A new token has an id of its own.)
\<close>

theorem revoked_token_stays_out:
  assumes "sys_run v (newSystem emptyDB) ops0 s0"
    and "Revoke_token clk env uid t actor (sy_db s0) = (Inr (), db)"
    and "sys_run v (withDb db s0) ops1 s1"
    and "sys_run v (withSess (snd (snd (DisconnectAgentTokenSessions t (sy_sess s1)))) s1) ops2 s2"
    and "sys_run v (withDev (snd (snd (DisconnectAgentTokenDevices t (sy_dev s2)))) s2) ops3 s3"
    and "sys_run v (withConn (snd (snd (DisconnectAgentToken ok t (sy_conn s3)))) s3) ops4 s4"
    and "\<forall>op \<in> set (ops1 @ ops2 @ ops3 @ ops4). \<not> createsToken t op" "TrimSpace t = t"
  shows "(\<forall>d live. gm_get (dg_devices (sy_dev s4)) d = Some live \<longrightarrow> ow_AgentTokenID (lv_owner live) \<noteq> t) \<and>
    t \<notin> agentTokens (sy_conn s4) \<and>
    ((\<forall>c auth info. sy_conns s1 c = AgentChecked auth info \<longrightarrow> at_ID (ta_Token auth) \<noteq> t) \<longrightarrow>
       (\<forall>k live. sessionEntry (sy_sess s4) k = Some live \<longrightarrow> so_AgentTokenID (ls_owner live) \<noteq> t))"
proof -
  let ?s1 = "withSess (snd (snd (DisconnectAgentTokenSessions t (sy_sess s1)))) s1"
  let ?s2 = "withDev (snd (snd (DisconnectAgentTokenDevices t (sy_dev s2)))) s2"
  let ?s3 = "withConn (snd (snd (DisconnectAgentToken ok t (sy_conn s3)))) s3"
  note p0 = system_parts [OF assms(1)]
  have db: "db = runOp (OpRevokeToken env uid t actor (clk 0)) (sy_db s0)"
    using assms(2) by (simp add: Revoke_token_def)
  note r0 = section_run(4) [OF assms(1), of "OpRevokeToken env uid t actor (clk 0)", folded db]
  note r1 = sys_trans [OF assms(3) r0]
  note q1 = section_run(1) [OF r1 sessQuiet_revoke(1) [of _ t]]
  note r2 = sys_trans [OF assms(4) q1]
  note q2 = section_run(2) [OF r2 devQuiet_token [of _ t]]
  note r3 = sys_trans [OF assms(5) q2]
  note q3 = section_run(3) [OF r3 connQuiet_ops(3) [of _ ok t]]
  have new: "\<forall>op \<in> set ops1. \<not> createsToken t op" "\<forall>op \<in> set ops2. \<not> createsToken t op"
    "\<forall>op \<in> set ops3. \<not> createsToken t op" "\<forall>op \<in> set ops4. \<not> createsToken t op"
    using assms(7) by simp_all
  have f0: "tokenRefused t (sy_db (withDb db s0))"
    using refused_Revoke [OF p0(2)] assms(2) by (simp add: Revoke_token_def)
  have f1: "tokenRefused t (sy_db ?s1)" using refused_sys [OF assms(3) system_parts(2) [OF r0] f0 new(1)] by simp
  have f2: "tokenRefused t (sy_db ?s2)" using refused_sys [OF assms(4) system_parts(2) [OF q1] f1 new(2)] by simp
  have f3: "tokenRefused t (sy_db ?s3)" using refused_sys [OF assms(5) system_parts(2) [OF q2] f2 new(3)] by simp
  note shut2 = shut_run [OF assms(4) system_parts(2) [OF q1] f1 new(2)]
  note shut3 = shut_run [OF assms(5) system_parts(2) [OF q2] f2 new(3)]
  note shut4 = shut_run [OF assms(6) system_parts(2) [OF q3] f3 new(4)]
  have "devShut t s4" using shut4(1) shut3(1) [OF shut_devices [OF system_parts(6,7) [OF r2]]] by simp
  moreover have "sessShut t s4"
    if "\<forall>c auth info. sy_conns s1 c = AgentChecked auth info \<longrightarrow> at_ID (ta_Token auth) \<noteq> t"
    using shut4(2) shut3(2) shut2(2) [OF shut_sessions [OF that]] by simp
  moreover obtain T where "conn_run (sy_conn ?s3) T (sy_conn s4)"
    using run_conn [OF assms(6) system_parts(6) [OF q3]] by (auto simp: connRun_def)
  then have "t \<notin> agentTokens (sy_conn s4)"
    using run_footprint DisconnectAgentToken_clears [OF reachable_inv [OF system_parts(3) [OF r3]], of t ok] assms(8)
    by (force simp: footprint_def)
  ultimately show ?thesis using shut_out by blast
qed

definition demoServer :: relayServer where
  "demoServer = \<lparr>rv_appAuth = Some demoService, rv_agentTokens = Some \<lparr>sd_key = [1]\<rparr>, rv_operator = True,
     rv_operatorToken = ''op''\<rparr>"

definition demoReqEnv :: reqEnv where
  "demoReqEnv = \<lparr>rq_cy = demoAuthCrypto, rq_rnd = demoRnd 5, rq_buffers = (\<lambda>_. []), rq_clk = demoClock 4,
     rq_regClk = demoClock 4, rq_throttleClk = demoClock 4, rq_pg = demoEnv, rq_pg2 = demoEnv, rq_others = [],
     rq_ok = (\<lambda>_ _. True)\<rparr>"

definition demoHttp :: httpRequest where
  "demoHttp = \<lparr>hq_header = (\<lambda>h. if h = ''Authorization'' then ''Bearer z'' else []), hq_RemoteAddr = ''10.0.0.1:80''\<rparr>"

definition demoAuth :: AuthenticatedAgentToken where
  "demoAuth = projr (tokenAnswer demoReqEnv \<lparr>sd_key = [1]\<rparr> ''z'' demoDB)"

definition demoUse :: dbOp where
  "demoUse = tokenUse demoReqEnv \<lparr>sd_key = [1]\<rparr> ''z''"

definition demoHello :: DeviceFrame where
  "demoHello = \<lparr>df_Type = ''register'', df_Device = Some demoDeviceInfo, df_RequestID = [], df_SessionID = [],
     df_WorkspaceSession = [], df_Command = [], df_CWD = [], df_Label = [], df_Status = [], df_Reason = []\<rparr>"

definition demoOpened :: relaySystem where
  "demoOpened = goto 0 (DeviceOpen ''z'' demoAuth) (withDb (runOp demoUse demoDB) (withDb demoDB (newSystem emptyDB)))"

definition demoWaiting :: relaySystem where
  "demoWaiting = goto 0 (DevicePending ''z'' demoAuth)
     (withDev (RegisterPending (deviceOwnerOf demoAuth) (Some 0) (sy_dev demoOpened)) demoOpened)"

definition demoChecked :: relaySystem where
  "demoChecked = goto 0 (DeviceChecked demoAuth demoDeviceInfo) (withDb (runOp demoUse (sy_db demoWaiting)) demoWaiting)"

definition demoLive :: relaySystem where
  "demoLive = goto 0 (DeviceLive demoAuth demoDeviceInfo)
     (withDev (snd (snd (ActivatePending (demoClock 4) demoDeviceInfo (deviceOwnerOf demoAuth) (Some 0) (sy_dev demoChecked))))
        demoChecked)"

lemma demoLive_run: "sys_run demoServer (newSystem emptyDB) (demoOps @ [demoUse, demoUse]) demoLive"
proof -
  have answer: "\<not> isl (tokenAnswer demoReqEnv \<lparr>sd_key = [1]\<rparr> ''z'' demoDB)" by code_simp
  have s0: "sys_run demoServer (newSystem emptyDB) demoOps (withDb demoDB (newSystem emptyDB))"
    using run_stores [of demoServer "newSystem emptyDB" demoOps] by (simp add: demoDB_def newSystem_def newRouter_def)
  have s1: "sys_run demoServer (newSystem emptyDB) (demoOps @ [demoUse]) demoOpened"
    unfolding demoOpened_def demoUse_def
  proof (rule sys_next [OF s0])
    have "tokenAnswer demoReqEnv \<lparr>sd_key = [1]\<rparr> ''z'' demoDB = Inr demoAuth"
      using answer by (cases "tokenAnswer demoReqEnv \<lparr>sd_key = [1]\<rparr> ''z'' demoDB") (auto simp: demoAuth_def)
    moreover have "BearerTokenFromRequest demoHttp = Some ''z''" by code_simp
    ultimately show "sys_step demoServer (withDb demoDB (newSystem emptyDB)) [tokenUse demoReqEnv \<lparr>sd_key = [1]\<rparr> ''z'']
        (goto 0 (DeviceOpen ''z'' demoAuth) (withDb (runOp (tokenUse demoReqEnv \<lparr>sd_key = [1]\<rparr> ''z'') demoDB)
          (withDb demoDB (newSystem emptyDB))))"
      using sys_step.AgentAccept [of "withDb demoDB (newSystem emptyDB)" 0 demoServer "\<lparr>sd_key = [1]\<rparr>" demoHttp "''z''"
          demoReqEnv demoAuth "DeviceOpen ''z'' demoAuth"]
      by (simp add: demoServer_def newSystem_def)
  qed
  have s2: "sys_run demoServer (newSystem emptyDB) (demoOps @ [demoUse]) demoWaiting"
    using sys_next [OF s1 sys_step.DevicePend [of demoOpened 0 "''z''" demoAuth]]
    by (simp add: demoWaiting_def) (simp add: demoOpened_def)
  have "fst (deviceReauth demoReqEnv \<lparr>sd_key = [1]\<rparr> ''z'' demoAuth (sy_db demoWaiting))" by code_simp
  moreover have "deviceHello demoHello = Some demoDeviceInfo" by code_simp
  ultimately have "sys_step demoServer demoWaiting [demoUse] demoChecked"
    using sys_step.DeviceCheck [of demoWaiting 0 "''z''" demoAuth demoHello demoDeviceInfo demoServer "\<lparr>sd_key = [1]\<rparr>" demoReqEnv]
    by (simp add: demoChecked_def demoUse_def demoServer_def) (simp add: demoWaiting_def)
  with s2 have s3: "sys_run demoServer (newSystem emptyDB) (demoOps @ [demoUse, demoUse]) demoChecked"
    using sys_next by fastforce
  have act: "fst (ActivatePending (demoClock 4) demoDeviceInfo (deviceOwnerOf demoAuth) (Some 0) (sy_dev demoChecked))"
    by code_simp
  show ?thesis
    using sys_next [OF s3 sys_step.DeviceActivate [of demoChecked 0 demoAuth demoDeviceInfo "demoClock 4" True]] act
    by (cases "ActivatePending (demoClock 4) demoDeviceInfo (deviceOwnerOf demoAuth) (Some 0) (sy_dev demoChecked)")
      (simp add: demoLive_def, simp add: demoChecked_def)
qed

theorem revoked_token_stays_out_witness:
  "map_option (\<lambda>live. ow_AgentTokenID (lv_owner live)) (gm_get (dg_devices (sy_dev demoLive)) ''d1'') = Some ''t1'' \<and>
   map_option (\<lambda>live. ow_AgentTokenID (lv_owner live))
     (gm_get (dg_devices (snd (snd (DisconnectAgentTokenDevices ''t1'' (sy_dev demoLive))))) ''d1'') \<noteq> Some ''t1''"
proof -
  have d1: "map_option (\<lambda>live. ow_AgentTokenID (lv_owner live)) (gm_get (dg_devices (sy_dev demoLive)) ''d1'') = Some ''t1''"
    by code_simp
  have "fst (Revoke_token (demoClock 5) demoEnv 1 ''t1'' ''alice'' (sy_db demoLive)) = Inr ()" by code_simp
  then obtain db where db: "Revoke_token (demoClock 5) demoEnv 1 ''t1'' ''alice'' (sy_db demoLive) = (Inr (), db)"
    by (metis prod.collapse)
  have "TrimSpace ''t1'' = ''t1''" by code_simp
  with revoked_token_stays_out [OF demoLive_run db sys_refl sys_refl sys_refl sys_refl] d1 show ?thesis by auto
qed



lemma agentAs_iff: "agentAs x (k, owner) \<longleftrightarrow> (\<exists>auth info. x = AgentLive auth info \<and> k = si_SessionID info \<and>
     owner = \<lparr>so_UserID = u_ID (ta_User auth), so_AgentTokenID = at_ID (ta_Token auth)\<rparr>)"
  by (cases x) auto

lemma deviceAs_iff: "deviceAs x (d, owner) \<longleftrightarrow>
    (\<exists>auth info. x = DeviceLive auth info \<and> d = dv_DeviceID info \<and> owner = deviceOwnerOf auth)"
  by (cases x) auto

lemma appAs_iff: "appAs x owner \<longleftrightarrow> (\<exists>req app. x = AppLive req app \<and> owner = normOwner (appOwnerOf app))"
  by (cases x) auto

lemma daemonAs_iff: "daemonAs x (k, owner, d) \<longleftrightarrow> (\<exists>auth info. (x = DaemonLive auth info \<or>
     x = DaemonLeft auth info \<and> TrimSpace (di_DeviceID info) \<noteq> di_DeviceID info) \<and> d = TrimSpace (di_DeviceID info) \<and>
     owner = daemonOwnerOf auth \<and> k = daemonMapKey (u_ID (ta_User auth)) (TrimSpace (di_DeviceID info)))"
  by (cases x) (auto simp: daemonOwnerOf_def)

text \<open>
  C4. Behind every entry of a registry stands an open connection that was authenticated as its owner: the agent of a
  session, the computer of a device or of a waiting device, the app, and the daemon, under the id that its first frame
  gave. The only entry that outlives its connection is that of a daemon whose device id had spaces around it.
\<close>

theorem registered_parties_connected:
  assumes "sys_run v (newSystem emptyDB) ops s"
  shows "(sessionEntry (sy_sess s) k = Some session \<longrightarrow>
      (\<exists>c auth info. ls_peer session = Some c \<and> sy_conns s c = AgentLive auth info \<and> si_SessionID info = k \<and>
         so_UserID (ls_owner session) = u_ID (ta_User auth) \<and> so_AgentTokenID (ls_owner session) = at_ID (ta_Token auth))) \<and>
    (gm_get (dg_devices (sy_dev s)) d = Some device \<longrightarrow>
      (\<exists>c auth info. lv_peer device = Some c \<and> sy_conns s c = DeviceLive auth info \<and> dv_DeviceID info = d \<and>
         lv_owner device = deviceOwnerOf auth)) \<and>
    (gm_get (cr_apps (sy_conn s)) c' = Some app \<longrightarrow>
      (\<exists>req auth. sy_conns s c' = AppLive req auth \<and> la_owner app = normOwner (appOwnerOf auth))) \<and>
    (gm_get (cr_daemons (sy_conn s)) key = Some daemon \<longrightarrow>
      (\<exists>auth info. (sy_conns s (ld_peer daemon) = DaemonLive auth info \<or>
           sy_conns s (ld_peer daemon) = DaemonLeft auth info \<and> TrimSpace (di_DeviceID info) \<noteq> di_DeviceID info) \<and>
         ld_owner daemon = daemonOwnerOf auth \<and> key = daemonMapKey (u_ID (ta_User auth)) (TrimSpace (di_DeviceID info))))"
proof -
  note inv = system_parts(6) [OF assms, unfolded sys_inv_def]
  have agent: "\<exists>c. ls_peer session = Some c \<and> agentAs (sy_conns s c) (k, ls_owner session)" if "sessionEntry (sy_sess s) k = Some session"
    using that inv backedD [of agentAs _ _ "ls_peer session" "(k, ls_owner session)"]
    by (force simp: agentParties_def sessEntries_def sessionEntry_def dest: gm_get_in)
  have device: "\<exists>c. lv_peer device = Some c \<and> deviceAs (sy_conns s c) (d, lv_owner device)" if "gm_get (dg_devices (sy_dev s)) d = Some device"
    using that inv backedD [of deviceAs _ _ "lv_peer device" "(d, lv_owner device)"]
    by (auto simp: deviceParties_def holder_def)
  have app: "appAs (sy_conns s c') (la_owner app)" if "gm_get (cr_apps (sy_conn s)) c' = Some app"
    using that inv backedD [of appAs _ _ "Some c'" "la_owner app"]
    by (force simp: appParties_def appEntries_def dest: gm_get_in)
  have daemon: "daemonAs (sy_conns s (ld_peer daemon)) (key, ld_owner daemon, di_DeviceID (ld_info daemon))"
    if "gm_get (cr_daemons (sy_conn s)) key = Some daemon"
  proof -
    have "(key, ld_peer daemon, ld_owner daemon, di_DeviceID (ld_info daemon)) \<in> daemonEntries (sy_conn s)"
      using imageI [OF gm_get_in [OF that], of daemonEntry] by (simp add: daemonEntries_def daemonEntry_def)
    then have "(Some (ld_peer daemon), key, ld_owner daemon, di_DeviceID (ld_info daemon)) \<in> daemonParties (sy_conn s)"
      unfolding daemonParties_def by (rule rev_image_eqI) simp
    then show ?thesis using inv backedD [of daemonAs "daemonParties (sy_conn s)" "sy_conns s"] by blast
  qed
  show ?thesis
  proof (intro conjI impI, goal_cases)
    case 1
    from agent [OF this] show ?case unfolding agentAs_iff by auto
  next
    case 2
    from device [OF this] show ?case unfolding deviceAs_iff by auto
  next
    case 3
    from app [OF this] show ?case unfolding appAs_iff .
  next
    case 4
    from daemon [OF this] show ?case unfolding daemonAs_iff by blast
  qed
qed

theorem registered_parties_connected_witness:
  "\<exists>device c auth info. gm_get (dg_devices (sy_dev demoLive)) ''d1'' = Some device \<and> lv_peer device = Some c \<and>
     sy_conns demoLive c = DeviceLive auth info \<and> lv_owner device = deviceOwnerOf auth"
proof -
  have "gm_get (dg_devices (sy_dev demoLive)) ''d1'' \<noteq> None" by code_simp
  then show ?thesis using registered_parties_connected [OF demoLive_run] by blast
qed

end
