(* ===== verification/Relay_Props2.thy ===== *)
theory Relay_Props2
  imports Relay_Props
begin

text \<open>
  Properties of the relay's handlers: how many failing attempts the throttle admits, whom the tunnel hub pairs, and
  where a handler does less than it means to.
\<close>

section \<open>Failing attempts\<close>

text \<open>
  Attempts of one address that all fail: at \<open>a\<close> the handler asks \<open>Allow\<close> and, when let through, records the failure at
  \<open>b\<close>. The result has the times of the recorded failures.
\<close>

fun failedAttempts :: "string \<Rightarrow> (gotime \<times> gotime) list \<Rightarrow> RegisterThrottle \<Rightarrow> gotime list" where
  "failedAttempts ip [] t = []"
| "failedAttempts ip ((a, b) # rest) t =
     (case Allow a ip t of
        ((True, _), t1) \<Rightarrow> b # failedAttempts ip rest (RecordFailure b ip t1)
      | ((False, _), t1) \<Rightarrow> failedAttempts ip rest t1)"

fun inOrder :: "gotime \<Rightarrow> (gotime \<times> gotime) list \<Rightarrow> bool" where
  "inOrder now [] = True"
| "inOrder now ((a, b) # rest) = (now \<le> a \<and> a \<le> b \<and> inOrder b rest)"

text \<open>
  The windows behind the failures \<open>done\<close>: the current one began with the failure \<open>f\<close> places from the end, and a window
  before it began at least a window's length earlier, at most the limit of failures before.
\<close>

definition windowsOf :: "int \<Rightarrow> duration \<Rightarrow> gotime list \<Rightarrow> throttleWindow \<Rightarrow> bool" where
  "windowsOf limit window done w \<longleftrightarrow>
     (\<exists>f. tw_failures w = int f \<and> 0 < f \<and> int f \<le> limit \<and> f \<le> length done \<and> done ! (length done - f) = tw_start w \<and>
        (f = length done \<or> (\<exists>p. 0 < p \<and> int p \<le> limit \<and> f + p \<le> length done \<and>
           done ! (length done - (f + p)) + window \<le> tw_start w)))"

definition spaced :: "nat \<Rightarrow> duration \<Rightarrow> gotime list \<Rightarrow> bool" where
  "spaced n window ts \<longleftrightarrow> (\<forall>i. i + n < length ts \<longrightarrow> ts ! i + window \<le> ts ! (i + n))"

definition attemptsOK :: "string \<Rightarrow> gotime list \<Rightarrow> gotime \<Rightarrow> RegisterThrottle \<Rightarrow> bool" where
  "attemptsOK ip done now t \<longleftrightarrow> 0 < th_limit t \<and> sorted done \<and> (\<forall>x \<in> set done. x \<le> now) \<and>
     spaced (2 * nat (th_limit t) - 1) (th_window t) done \<and>
     (case gm_get (th_clientsByIP t) ip of None \<Rightarrow> done = [] | Some w \<Rightarrow> windowsOf (th_limit t) (th_window t) done w)"

lemma spaced_snoc:
  assumes "spaced n window ts" "0 < n" "n \<le> length ts \<Longrightarrow> ts ! (length ts - n) + window \<le> b"
  shows "spaced n window (ts @ [b])"
  unfolding spaced_def
proof (intro allI impI)
  fix i
  assume "i + n < length (ts @ [b])"
  then consider "i + n < length ts" | "i = length ts - n" "n \<le> length ts" by fastforce
  then show "(ts @ [b]) ! i + window \<le> (ts @ [b]) ! (i + n)"
    using assms by cases (auto simp: spaced_def nth_append)
qed

lemma windowsOf_new:
  assumes "windowsOf limit window done w" "tw_start w + window \<le> b" "0 < limit"
  shows "windowsOf limit window (done @ [b]) \<lparr>tw_start = b, tw_failures = 1\<rparr>"
proof -
  obtain f where f: "0 < f" "int f \<le> limit" "f \<le> length done" "done ! (length done - f) = tw_start w"
    using assms(1) by (auto simp: windowsOf_def)
  have "(done @ [b]) ! (length (done @ [b]) - (1 + f)) + window \<le> b"
    using f assms(2) diff_less [of f "length done"] by (auto simp: nth_append)
  then show ?thesis using f assms(3) unfolding windowsOf_def
    by (intro exI [of _ 1]) (auto intro!: exI [of _ f])
qed

lemma windowsOf_more:
  assumes "windowsOf limit window done w" "tw_failures w < limit"
  shows "windowsOf limit window (done @ [b]) (w\<lparr>tw_failures := tw_failures w + 1\<rparr>)"
proof -
  obtain f where f: "tw_failures w = int f" "0 < f" "f \<le> length done" "done ! (length done - f) = tw_start w"
    and p: "f = length done \<or> (\<exists>p. 0 < p \<and> int p \<le> limit \<and> f + p \<le> length done \<and>
           done ! (length done - (f + p)) + window \<le> tw_start w)"
    using assms(1) by (auto simp: windowsOf_def)
  have n: "(done @ [b]) ! (length (done @ [b]) - (Suc f + p)) = done ! (length done - (f + p))" if "f + p \<le> length done" "0 < f" for p
    using that diff_less [of "f + p" "length done"] by (auto simp: nth_append)
  show ?thesis using f p n [of 0] n assms(2) unfolding windowsOf_def
    by (intro exI [of _ "Suc f"]) auto
qed

text \<open>The new failure is far enough from the one that many places before it.\<close>

lemma windowsOf_spaced:
  assumes w: "windowsOf limit window done w" and "sorted done" "tw_start w \<le> b"
    and new: "tw_start w + window \<le> b \<or> tw_failures w < limit" and len: "2 * nat limit - 1 \<le> length done"
  shows "done ! (length done - (2 * nat limit - 1)) + window \<le> b"
proof -
  obtain f where f: "tw_failures w = int f" "0 < f" "int f \<le> limit" "f \<le> length done" "done ! (length done - f) = tw_start w"
    and p: "f = length done \<or> (\<exists>p. 0 < p \<and> int p \<le> limit \<and> f + p \<le> length done \<and>
           done ! (length done - (f + p)) + window \<le> tw_start w)"
    using w by (auto simp: windowsOf_def)
  have le: "done ! (length done - (2 * nat limit - 1)) \<le> done ! (length done - k)" if "0 < k" "k \<le> 2 * nat limit - 1" for k
    using \<open>sorted done\<close> that f(2,4) by (intro sorted_nth_mono) auto
  show ?thesis
  proof (cases "tw_start w + window \<le> b")
    case True
    then show ?thesis using le [of f] f by linarith
  next
    case False
    then have "int f < limit" using new f(1) by simp
    then have "f \<noteq> length done" using len f(2) by linarith
    then obtain p where "0 < p" "int p \<le> limit" "f + p \<le> length done" "done ! (length done - (f + p)) + window \<le> tw_start w"
      using p by blast
    then show ?thesis using le [of "f + p"] \<open>int f < limit\<close> \<open>tw_start w \<le> b\<close> by linarith
  qed
qed

lemma windowsOf_start: "windowsOf limit window done w \<Longrightarrow> tw_start w \<in> set done"
  unfolding windowsOf_def by (metis diff_less less_le_trans nth_mem)

lemma attempt_step:
  assumes ok: "attemptsOK ip done now t" and "ip \<noteq> []" "now \<le> a" "a \<le> b" and allow: "Allow a ip t = ((True, r), t1)"
  shows "attemptsOK ip (done @ [b]) b (RecordFailure b ip t1)"
    "th_limit (RecordFailure b ip t1) = th_limit t" "th_window (RecordFailure b ip t1) = th_window t"
proof -
  show "th_limit (RecordFailure b ip t1) = th_limit t" "th_window (RecordFailure b ip t1) = th_window t"
    using allow by (auto simp: Allow_def RecordFailure_def currentWindowLocked_def Let_def split: option.splits if_splits)
  note o = ok [unfolded attemptsOK_def]
  have le: "x \<le> b" if "x \<in> set done" for x using o that assms(3,4) by fastforce
  have n: "0 < 2 * nat (th_limit t) - 1" using o by linarith
  have "\<exists>w'. gm_get (th_clientsByIP (RecordFailure b ip t1)) ip = Some w' \<and>
      windowsOf (th_limit t) (th_window t) (done @ [b]) w' \<and> spaced (2 * nat (th_limit t) - 1) (th_window t) (done @ [b])"
  proof (cases "gm_get (th_clientsByIP t) ip")
    case None
    then have "done = []" "gm_get (th_clientsByIP (RecordFailure b ip t1)) ip = Some \<lparr>tw_start = b, tw_failures = 1\<rparr>"
      using o allow \<open>ip \<noteq> []\<close> by (auto simp: Allow_def RecordFailure_def currentWindowLocked_def Let_def)
    then show ?thesis using o n by (auto simp: windowsOf_def spaced_def)
  next
    case (Some w)
    then have w: "windowsOf (th_limit t) (th_window t) done w" using o by simp
    note far = windowsOf_spaced [OF w _ le [OF windowsOf_start [OF w]]]
    show ?thesis
    proof (cases "tw_start w + th_window t \<le> b")
      case True
      then have "gm_get (th_clientsByIP (RecordFailure b ip t1)) ip = Some \<lparr>tw_start = b, tw_failures = 1\<rparr>"
        using Some allow \<open>ip \<noteq> []\<close> by (auto simp: Allow_def RecordFailure_def currentWindowLocked_def Let_def split: if_splits)
      then show ?thesis using windowsOf_new [OF w True] spaced_snoc [OF _ n far] o True by auto
    next
      case False
      then have "tw_failures w < th_limit t"
        "gm_get (th_clientsByIP (RecordFailure b ip t1)) ip = Some (w\<lparr>tw_failures := tw_failures w + 1\<rparr>)"
        using Some allow \<open>ip \<noteq> []\<close> \<open>a \<le> b\<close>
        by (auto simp: Allow_def RecordFailure_def currentWindowLocked_def Let_def split: if_splits)
      then show ?thesis using windowsOf_more [OF w] spaced_snoc [OF _ n far] o by auto
    qed
  qed
  moreover have "th_limit (RecordFailure b ip t1) = th_limit t" "th_window (RecordFailure b ip t1) = th_window t"
    using allow by (auto simp: Allow_def RecordFailure_def currentWindowLocked_def Let_def split: option.splits if_splits)
  ultimately show "attemptsOK ip (done @ [b]) b (RecordFailure b ip t1)"
    using o le by (auto simp: attemptsOK_def sorted_append)
qed

lemma attempts_spaced:
  "attemptsOK ip done now t \<Longrightarrow> inOrder now as \<Longrightarrow> ip \<noteq> [] \<Longrightarrow>
     spaced (2 * nat (th_limit t) - 1) (th_window t) (done @ failedAttempts ip as t)"
proof (induction as arbitrary: "done" now t)
  case Nil
  then show ?case by (simp add: attemptsOK_def)
next
  case (Cons ab as)
  obtain a b allowed r t1 where ab: "ab = (a, b)" and allow: "Allow a ip t = ((allowed, r), t1)"
    by (metis prod.exhaust)
  show ?case
  proof (cases allowed)
    case True
    note step = attempt_step [OF Cons.prems(1,3) _ _ allow [unfolded True [THEN eqTrueI]], of b]
    show ?thesis using Cons.IH [OF step(1)] step(2,3) Cons.prems ab allow True by auto
  next
    case False
    then have "t1 = t" using allow by (auto simp: Allow_def Let_def split: option.splits if_splits)
    moreover have "attemptsOK ip done b t" using Cons.prems ab by (fastforce simp: attemptsOK_def)
    ultimately show ?thesis using Cons.IH [of "done" b t] Cons.prems ab allow False by simp
  qed
qed

lemma router_throttles [simp]:
  "th_limit (rl_throttle (newRouter db)) = 5" "th_window (rl_throttle (newRouter db)) = 10 * minute"
  "th_limit (rl_pairThrottle (newRouter db)) = 10" "th_window (rl_pairThrottle (newRouter db)) = minute"
  "th_clientsByIP (rl_throttle (newRouter db)) = []" "th_clientsByIP (rl_pairThrottle (newRouter db)) = []"
  by (simp_all add: newRouter_def NewRegisterThrottle_def minute_def second_def)



section \<open>The tunnel hub\<close>

datatype hubEvent = HubJoin tunnelEndpoint | HubRemove tunnelEndpoint

fun hubStep :: "hubEvent \<Rightarrow> (tunnelEndpoint \<times> tunnelEndpoint) list \<times> TunnelHub
    \<Rightarrow> (tunnelEndpoint \<times> tunnelEndpoint) list \<times> TunnelHub" where
  "hubStep (HubJoin endpoint) (pairs, h) =
     (case hub_join endpoint h of (None, h') \<Rightarrow> (pairs, h') | (Some partner, h') \<Rightarrow> ((partner, endpoint) # pairs, h'))"
| "hubStep (HubRemove endpoint) (pairs, h) = (pairs, hub_remove endpoint h)"

fun joinedBy :: "hubEvent list \<Rightarrow> tunnelEndpoint list" where
  "joinedBy [] = []"
| "joinedBy (HubJoin endpoint # es) = endpoint # joinedBy es"
| "joinedBy (HubRemove _ # es) = joinedBy es"

definition ends :: "(tunnelEndpoint \<times> tunnelEndpoint) list \<Rightarrow> nat list" where
  "ends pairs = concat (map (\<lambda>(a, b). [te_ptr a, te_ptr b]) pairs)"

definition hubOK :: "nat set \<Rightarrow> (tunnelEndpoint \<times> tunnelEndpoint) list \<Rightarrow> TunnelHub \<Rightarrow> bool" where
  "hubOK came pairs h \<longleftrightarrow> distinct (ends pairs) \<and> set (ends pairs) \<subseteq> came \<and>
     (\<forall>(a, b) \<in> set pairs. endpointKey a = endpointKey b \<and> tr_Actor (te_redemption a) \<noteq> tr_Actor (te_redemption b)) \<and>
     (\<forall>k w. gm_get (hub_waiting h) k = Some w \<longrightarrow> endpointKey w = k \<and> te_ptr w \<in> came \<and> te_ptr w \<notin> set (ends pairs)) \<and>
     (\<forall>k w k' w'. gm_get (hub_waiting h) k = Some w \<and> gm_get (hub_waiting h) k' = Some w' \<and> te_ptr w = te_ptr w' \<longrightarrow> k = k')"

lemma ends_Cons [simp]: "ends ((a, b) # pairs) = te_ptr a # te_ptr b # ends pairs"
  by (simp add: ends_def)

lemma hubOK_join:
  assumes ok: "hubOK came pairs h" and new: "te_ptr endpoint \<notin> came"
    and step: "hubStep (HubJoin endpoint) (pairs, h) = (pairs', h')"
  shows "hubOK (insert (te_ptr endpoint) came) pairs' h'"
proof -
  have waits: "hubOK (insert (te_ptr endpoint) came) pairs
      (h\<lparr>hub_waiting := gm_put (endpointKey endpoint) endpoint (hub_waiting h)\<rparr>)"
  proof -
    have fresh: "te_ptr w \<noteq> te_ptr endpoint" if "gm_get (hub_waiting h) k = Some w" for k w
      using ok new that unfolding hubOK_def by metis
    show ?thesis using ok new fresh fresh [symmetric] by (auto simp: hubOK_def split: if_splits)
  qed
  show ?thesis
  proof (cases "gm_get (hub_waiting h) (endpointKey endpoint)")
    case None
    then show ?thesis using waits step by (simp add: hub_join_def)
  next
    case (Some partner)
    then have partner: "endpointKey partner = endpointKey endpoint" "te_ptr partner \<in> came"
      "te_ptr partner \<notin> set (ends pairs)"
      using ok by (auto simp: hubOK_def)
    have alone: "te_ptr w \<noteq> te_ptr partner" if "gm_get (hub_waiting h) k = Some w" "k \<noteq> endpointKey endpoint" for k w
      using that Some ok unfolding hubOK_def by metis
    show ?thesis
    proof (cases "tr_Actor (te_redemption partner) = tr_Actor (te_redemption endpoint)")
      case True
      then show ?thesis using Some waits step by (simp add: hub_join_def)
    next
      case False
      then have made: "pairs' = (partner, endpoint) # pairs"
        "h' = h\<lparr>hub_waiting := gm_del (endpointKey endpoint) (hub_waiting h)\<rparr>"
        using Some step by (simp_all add: hub_join_def)
      have "te_ptr w \<in> came \<and> te_ptr w \<noteq> te_ptr endpoint" if "gm_get (hub_waiting h) k = Some w" for k w
        using ok new that unfolding hubOK_def by metis
      then show ?thesis using False partner alone ok new unfolding made hubOK_def
        by (simp split: if_splits) (intro conjI; (blast | metis))
    qed
  qed
qed

lemma hubOK_remove: "hubOK came pairs h \<Longrightarrow> hubOK came pairs (hub_remove endpoint h)"
  by (auto simp: hubOK_def hub_remove_def split: option.split if_splits)

lemma hubOK_run:
  "hubOK came pairs h \<Longrightarrow> distinct (map te_ptr (joinedBy es)) \<Longrightarrow> came \<inter> te_ptr ` set (joinedBy es) = {} \<Longrightarrow>
   fold hubStep es (pairs, h) = (pairs', h') \<Longrightarrow> hubOK (came \<union> te_ptr ` set (joinedBy es)) pairs' h'"
proof (induction es arbitrary: came pairs h)
  case (Cons ev es)
  show ?case
  proof (cases ev)
    case (HubJoin endpoint)
    obtain pairs1 h1 where step: "hubStep (HubJoin endpoint) (pairs, h) = (pairs1, h1)" by (metis prod.exhaust)
    have "hubOK (insert (te_ptr endpoint) came) pairs1 h1"
      using hubOK_join [OF Cons.prems(1) _ step] Cons.prems(3) HubJoin by simp
    from Cons.IH [OF this] show ?thesis using Cons.prems HubJoin step by (auto simp: image_iff)
  next
    case (HubRemove endpoint)
    then show ?thesis using Cons.IH [OF hubOK_remove [OF Cons.prems(1)]] Cons.prems by simp
  qed
qed simp

text \<open>
  C23. The tunnel hub pairs the two ends of one tunnel: in every sequence of endpoints that join once each and are removed
  at any time, a pair has one tunnel key and two different actors, no endpoint is in two pairs, and an endpoint that
  still waits is in none. Two endpoints of different actors that join one after the other under a key on which nobody
  waits are paired.
\<close>

theorem tunnel_hub_pairs_ends:
  assumes "distinct (map te_ptr (joinedBy es))" "fold hubStep es ([], NewTunnelHub) = (pairs, h)"
  shows "distinct (ends pairs) \<and> set (ends pairs) \<subseteq> te_ptr ` set (joinedBy es) \<and>
    (\<forall>(a, b) \<in> set pairs. endpointKey a = endpointKey b \<and> tr_Actor (te_redemption a) \<noteq> tr_Actor (te_redemption b)) \<and>
    (gm_get (hub_waiting h) k = Some w \<longrightarrow> te_ptr w \<notin> set (ends pairs)) \<and>
    (gm_get (hub_waiting h) (endpointKey a) = None \<and> endpointKey b = endpointKey a \<and>
       tr_Actor (te_redemption a) \<noteq> tr_Actor (te_redemption b) \<longrightarrow>
       fst (fold hubStep [HubJoin a, HubJoin b] (pairs, h)) = (a, b) # pairs)"
proof -
  have "hubOK {} [] NewTunnelHub" by (simp add: hubOK_def NewTunnelHub_def ends_def)
  from hubOK_run [OF this assms(1) _ assms(2)] have "hubOK (te_ptr ` set (joinedBy es)) pairs h" by simp
  then show ?thesis by (auto simp: hubOK_def hub_join_def)
qed

definition demoEnd :: "nat \<Rightarrow> string \<Rightarrow> tunnelEndpoint" where
  "demoEnd p actor = \<lparr>te_ptr = p, te_redemption = \<lparr>tr_TunnelKey = ''k'', tr_AttemptID = ''a'', tr_Actor = actor, tr_UserID = 1,
     tr_AppSessionID = ''s'', tr_DeviceFingerprint = [], tr_DaemonDeviceID = ''d'', tr_DaemonFingerprint = []\<rparr>\<rparr>"

theorem tunnel_hub_pairs_ends_witness:
  "\<exists>pairs h. fold hubStep [HubJoin (demoEnd 1 ''client''), HubJoin (demoEnd 2 ''daemon''), HubJoin (demoEnd 3 ''daemon'')]
     ([], NewTunnelHub) = (pairs, h) \<and> ends pairs = [1, 2] \<and> distinct (ends pairs)"
proof -
  let ?es = "[HubJoin (demoEnd 1 ''client''), HubJoin (demoEnd 2 ''daemon''), HubJoin (demoEnd 3 ''daemon'')]"
  obtain pairs h where run: "fold hubStep ?es ([], NewTunnelHub) = (pairs, h)" by (metis prod.exhaust)
  have "ends (fst (fold hubStep ?es ([], NewTunnelHub))) = [1, 2]" by code_simp
  moreover have "distinct (map te_ptr (joinedBy ?es))" by code_simp
  ultimately show ?thesis using tunnel_hub_pairs_ends [OF _ run] run by auto
qed

section \<open>Where the handlers do less than they mean to\<close>

text \<open>
  An agent connection that has passed its check registers its session although the token was revoked and everything
  of the token was ended in the meantime: the agents' registry keeps no list of revoked tokens, and the handler does
  not check again.
\<close>

lemma revoked_agent_registers:
  assumes "sy_conns s c = AgentChecked auth info" "at_ID (ta_Token auth) = t"
    and revoked: "RevokeAgentToken_http d e t app (sy_relay s) = (resp, es, st)"
  shows "\<exists>ops s'. sys_run v s ops s' \<and> sy_db s' = rl_db st \<and>
    (\<exists>live. gm_get (sg_sessions (sy_sess s')) (si_SessionID info) = Some live \<and> so_AgentTokenID (ls_owner live) = t \<and>
       ls_peer live = Some c)"
proof -
  have "relayRun (sy_relay s) st" using run_tokens(3) [of "sy_relay s" d e t app] revoked by simp
  then obtain ops where run: "sys_run v s ops (s\<lparr>sy_relay := st\<rparr>)" using run_relay by blast
  have "sys_step v (s\<lparr>sy_relay := st\<rparr>) [] (goto c (AgentLive auth info)
      (withSess (snd (agentRegister auth info c (rl_sess st))) (s\<lparr>sy_relay := st\<rparr>)))" (is "sys_step v _ [] ?s'")
    using sys_step.AgentRegister [of "s\<lparr>sy_relay := st\<rparr>" c auth info v] assms(1) by simp
  from sys_next [OF run this] have "sys_run v s ops ?s'" by simp
  moreover have "sy_db ?s' = rl_db st" by simp
  moreover have "\<exists>live. gm_get (sg_sessions (sy_sess ?s')) (si_SessionID info) = Some live \<and>
      so_AgentTokenID (ls_owner live) = t \<and> ls_peer live = Some c"
    using assms(2) by (simp add: agentRegister_def RegisterOwned_sess_def Let_def)
  ultimately show ?thesis by blast
qed

text \<open>The operator's deletion of a user ends the user's sessions, apps and daemons, and leaves every device connected.\<close>

lemma deleted_user_keeps_devices: "rl_dev (snd (snd (DeleteUser_http svc e b st))) = rl_dev st"
  by (simp add: DeleteUser_http_def Let_def split_def split: option.split sum.split)

text \<open>
  A daemon whose device id has spaces around it registers under the trimmed id and leaves under the id as sent: its
  entry stays when its connection is gone, and apps are never told.
\<close>

lemma untrimmed_daemon_stays:
  assumes fresh: "freshDaemonPeer peer r" and spaces: "TrimSpace (di_DeviceID info) \<noteq> di_DeviceID info"
    and reg: "daemonRegister e auth peer register True r = (Some info, es, r')"
  shows "daemonLeave e' info peer r' = ([], r')"
proof -
  let ?d = "TrimSpace (di_DeviceID info)"
  let ?k = "daemonMapKey (do_UserID (daemonOwnerOf auth)) ?d"
  let ?step = "RegisterDaemonIfValidWithDirectSessions (rq_ok e) (rq_regClk e) (daemonOwnerOf auth) info
    (cf_TrustedDevices register) (cf_DirectSessions register) peer (Some True) r"
  have hello: "daemonHello register = Some info"
    using reg by (cases "daemonHello register") (simp_all add: daemonRegister_def Let_def split_def split: if_splits)
  obtain peers fin es1 r1 where step: "?step = ((peers, fin), es1, r1)" by (metis prod.exhaust)
  have r1: "r1 = r'" using reg by (simp add: daemonRegister_def hello step)
  have sub: "daemonEntries r' \<subseteq> insert (?k, peer, daemonOwnerOf auth, ?d) (daemonEntries r)"
    using registering_daemon(2) [OF step] unfolding r1 by (cases fin) auto
  have others: "p \<noteq> peer" if "(k, p, o', d) \<in> daemonEntries r" for k p o' d
    using fresh that by (auto simp: freshDaemonPeer_def list_all_iff daemonEntries_def daemonEntry_def)
  have "\<not> (di_DeviceID (ld_info live) = di_DeviceID info \<and> ld_peer live = peer)"
    if "(k, live) \<in> set (cr_daemons r')" for k live
  proof -
    have "(k, ld_peer live, ld_owner live, di_DeviceID (ld_info live)) \<in> daemonEntries r'"
      unfolding daemonEntries_def by (rule image_eqI [OF _ that]) (simp add: daemonEntry_def)
    from subsetD [OF sub this] show ?thesis using spaces others by auto
  qed
  then have "daemonByDevicePeerLocked (di_DeviceID info) peer r' = None"
    by (auto simp: daemonByDevicePeerLocked_def find_None_iff)
  then show ?thesis by (simp add: daemonLeave_def DisconnectDaemon_def)
qed

text \<open>
  An endpoint that leaves closes whatever tunnel is under its key: when an app asks for a tunnel again with the same
  attempt id, the end of the replaced endpoint removes the new attempt and its tokens.
\<close>

lemma old_endpoint_closes_new_tunnel:
  assumes "gm_get (cr_attempts r) (endpointKey endpoint) = Some newer" "TrimSpace (endpointKey endpoint) = endpointKey endpoint"
    "endpointKey endpoint \<noteq> []" "conn_inv r"
  shows "gm_get (cr_attempts (fst (snd (tunnelLeave endpoint remover r h)))) (endpointKey endpoint) = None"
proof -
  have "tu_key newer = endpointKey endpoint"
    using assms(1,4) by (auto simp: conn_inv_def inv_rows_def attempt_ok_def dest!: gm_allD)
  then show ?thesis using assms
    by (simp add: tunnelLeave_def CloseRelayTunnel_def removeTunnelAttemptLocked_def removeTunnelCloser_def split: option.split)
qed

end
