(* ===== verification/Spec2Isabelle.thy ===== *)
theory Spec2Isabelle
  imports Conn_Props2 Conn_Rate Frame_Codec Stun_Server Pairing_Props Device_Props Session_Registry Transport_Props Relay_Props2
begin

text \<open>
  Verification of agent-tunnel.

  \<^bold>\<open>The program.\<close> Agents run in terminals on a user's machines; a mobile app looks at them and types into
  them. On each machine a daemon collects the local sessions (the broker) and keeps the devices it was paired with
  (the pairing store). A relay server connects both sides: it knows the sessions that agents registered (session
  registry), the machines that can launch sessions (device registry), and the apps and daemons that want to reach
  each other (connectivity registry: pairing, rendezvous for direct paths, relay tunnels with one-time tokens).
  Accounts, app sessions, agent tokens and invite codes are kept by the relay's authentication services in a database. The
  peers find their addresses with the relay's STUN server and speak a framed protocol over the path they got.

  \<^bold>\<open>Theories and code.\<close> Paths are under \<open>src/internal\<close>.

  \<^item> \<open>Go_Prelude\<close>, \<open>Go_Strings\<close>, \<open>Go_Net\<close>, \<open>Go_Bytes\<close>, \<open>Go_Unicode\<close>: the part of Go and of its library that the code uses. A map is a
    list of pairs with distinct keys whose order stands for the order of a \<open>range\<close> loop; a string is its bytes; a time is
    a number of nanoseconds, and an operation that reads the clock takes it as an argument. Locale \<open>go_map\<close> is the
    interface of maps, \<open>prefix_code\<close> and \<open>stream_code\<close> that of self-delimiting encodings.
  \<^item> \<open>Protocol_Frames\<close>: the messages of \<open>protocol/\<close> as records with their constructors.
  \<^item> \<open>Conn_Model\<close>, \<open>Conn_Ops\<close>, \<open>Conn_Tunnels\<close>: \<open>relay/connectivity/registry.go\<close>, record \<open>connRegistry\<close> for
    \<open>Registry\<close>, one definition for each method. \<open>Conn_Rate\<close> has the sliding window rate limit (locale
    \<open>sliding_window\<close>, interpreted for both limiters). \<open>Conn_Inv\<close> states the invariant, \<open>Conn_Steps\<close>,
    \<open>Conn_Steps2\<close> and \<open>Conn_Steps3\<close> prove it for every atomic section, \<open>Conn_Footprint\<close> bounds which sessions, agent
    tokens and tunnel tokens a section can bring in, \<open>Conn_System\<close> makes the sections a transition system,
    \<open>Conn_Props\<close> and \<open>Conn_Props2\<close> hold the properties.
  \<^item> \<open>Device_Model\<close>, \<open>Device_Ops\<close>: \<open>relay/device/registry.go\<close>, record \<open>devRegistry\<close>. The result and the \<open>done\<close> channel
    of a request are an entry of \<open>dg_results\<close> (\<open>dg_terminated\<close>) under the request's address. \<open>Device_Inv\<close> and
    \<open>Device_System\<close> have the invariant and the transition system, \<open>Device_Props\<close> the properties.
  \<^item> \<open>Session_Registry\<close>: \<open>relay/session/registry.go\<close>. Locale \<open>revocable\<close> (\<open>Revocation\<close>) is what both registries promise
    of revoking by holder; it is interpreted for users and agent tokens of sessions, and for agent tokens of devices and
    of waiting connections.
  \<^item> \<open>Frame_Codec\<close>: \<open>connectivity/frame/frame.go\<close>; \<open>Stun_Server\<close>: \<open>connectivity/stun/server.go\<close>;
    \<open>Pairing_Transcript\<close>: \<open>connectivity/pairing\<close>, with the hash and the signature scheme as a record of functions.
  \<^item> \<open>Pairing_State\<close>: \<open>tunnel/daemon/pairing_state.go\<close> over the contents of the state file; \<open>Pairing_Store\<close> makes its
    operations the letters of a history and interprets locale \<open>trust_store\<close>; \<open>Pairing_Props\<close> has the properties.
  \<^item> \<open>Preview_Text\<close>: \<open>NormalizePreviewText\<close> of \<open>tunnel/session/terminal_mirror.go\<close>.
  \<^item> \<open>Broker_Model\<close>: \<open>tunnel/daemon/broker.go\<close>; \<open>Broker_System\<close> has its connections as interleaving goroutines with the
    invariant; \<open>Broker_Props\<close> the properties and locale \<open>event_log\<close>, the contract of a publisher.
  \<^item> \<open>Transport_Model\<close>: \<open>tunnel/daemon/connectivity_transport.go\<close>, the daemon's side of a client's connection, and its
    messages in \<open>connectivity/sessionproto\<close>: the start of \<open>Serve\<close>, and its goroutines as functions from a program point to
    the next section (\<open>readerStep\<close>, \<open>writerStep\<close>, \<open>streamStep\<close>). \<open>Transport_System\<close> interleaves them with the broker's other
    users and has the invariant; \<open>Transport_Props\<close> the properties.

  \<^item> \<open>Auth_Credentials\<close>: \<open>relay/auth/credentials.go\<close>, \<open>device_fingerprint.go\<close> and the tiers of \<open>types.go\<close>: normal forms (locale
    \<open>normal_form\<close>, interpreted for usernames, invite codes and fingerprints), random codes and tokens, digests, and the
    textual password hashes with the \<open>fmt\<close> and \<open>base64\<close> functions they use. HMAC and Argon2id are the fields of record
    \<open>authCrypto\<close>.
  \<^item> \<open>Auth_Store\<close>: \<open>relay/store/postgres\<close>, the tables as record \<open>authDB\<close> and one definition for each repository method.
    \<open>pgEnv\<close> holds what the database decides: which call of the method fails, how a time is rounded when stored, the
    store's clock. Constraints and cascades are those of the schema in \<open>schema/\<close>. \<open>Auth_System\<close> makes the methods the
    letters \<open>dbOp\<close> of a history and proves the invariant of the tables, \<open>Auth_Runs\<close> follows rows and digests through a
    history (locales \<open>row_history\<close>, \<open>digest_column\<close>).
  \<^item> \<open>Auth_Service\<close>: \<open>relay/auth/app_service.go\<close>, \<open>agent_tokens.go\<close> and \<open>relay/operator/service.go\<close>; a method with two store calls takes
    the store calls of other requests that run in between as an argument. \<open>Auth_Props\<close> has the properties.

  \<^item> \<open>Relay_Http\<close>, \<open>Relay_Api\<close>: \<open>relay/handler\<close> without its websockets: request helpers, error codes, throttles, middleware,
    one definition for each HTTP handler and \<open>serveApi\<close> for the router. Record \<open>relay\<close> is the database, the three
    registries and the throttles; \<open>reqEnv\<close> is what a request meets (clocks, random bytes, database faults, store calls of
    others, sends that succeed). Bodies are decoded values.
  \<^item> \<open>Relay_Ws\<close>: the websocket handlers of \<open>relay/handler/agent\<close>, \<open>device\<close> and \<open>connectivity\<close> as the sections of their
    goroutines: the check of the first frame, the registration, each later frame, the deferred calls; and the hub that
    pairs the two ends of a tunnel.
  \<^item> \<open>Conn_Parties\<close>, \<open>Device_Parties\<close>: which section of a registry can bring a connection in. \<open>Relay_System\<close>: every request and
    every frame is a run of the store and of each registry that registers nobody. \<open>Relay_Live\<close>: the running relay, record
    \<open>relaySystem\<close>, with the stage of every connection and the step relation \<open>sys_step\<close>; \<open>Relay_Props\<close> and \<open>Relay_Props2\<close> have the
    properties.

  \<^bold>\<open>Concurrency.\<close> What runs between \<open>Lock\<close> and \<open>Unlock\<close> is one atomic section. An operation with several sections is
  defined by its sections and as their composition; the step relations (\<open>conn_step\<close>, \<open>dev_step\<close>, \<open>sess_step\<close>,
  \<open>broker_step\<close>, \<open>transport_step\<close>) have one rule for each section, with any arguments, so a run is any interleaving. In \<open>sys_step\<close> a
  connection is registered and leaves by the rules of its handler; every other section is any run of a registry that
  brings nobody in, which the sections of requests, frames and timers are. Sending and closing
  are effects returned as lists; whether a send succeeds is an argument. A repository method is one atomic transaction: a
  single statement, or statements after a \<open>select ... for update\<close> of the row they change.

  \<^bold>\<open>What is shown.\<close> Relay: it refines its components, every registered party has an open connection authenticated as its
  owner, a revoked agent token stays out whatever interleaves with the revocation, the throttles space failing attempts,
  and the tunnel hub pairs the two ends of one tunnel. Connectivity: the registry invariant in all reachable states; a tunnel token is redeemed once, only for
  a live, trusted, unrevoked pair, and not after expiry; a request that succeeds yields two tokens that work, one that
  fails leaves nothing behind; revoked app sessions and agent tokens stay out; the rate limit holds over every window.
  Devices: one launch at a time, one result for each request, the two messages that complete a launch commute, a launch
  that is accepted and registered returns its session, a lost device fails its open requests, a device is used by its
  user only. Sessions: the last registration holds the session, revocation is exact. Codecs: round trips of varints,
  frames, streams of frames and STUN addresses, agreement of the stream reader with the decoder, bounds of decoded
  frames, and a STUN server that keeps serving. Pairing: transcripts bind their fields, signed exchanges verify on both
  sides, an invitation is used once, trust comes only from verified responses, and revocation lasts. Broker: no orphaned
  session, exclusive interactive use, subscribers that can rebuild the sessions from their events. A client's connection: it
  is checked before it is served, its streams have one snapshot and then the session's output without gaps, the snapshot
  can be read back, it types only where it holds the grant, and its end leaves nothing. Authentication: the
  invariant of the tables, invite codes and refresh tokens work once, revoked sessions and agent tokens stay refused, a
  session ends with its absolute lifetime, a login authenticates, passwords verify against their hashes, and code
  generation returns unbiased codes. Thirteen theorems show where the code does less than it means to: output lost between a
  snapshot and its stream, a stream kept without its grant, a session registered
  under a token revoked after its check, devices that outlive their deleted account, a daemon whose untrimmed id keeps it
  listed, an old tunnel endpoint that closes a newer tunnel, a launch result hidden by a timeout, a session taken over across users, a
  pairing response that is stored but can never be confirmed, a removal event that overtakes a later registration, lost
  events of a full subscriber channel, a login that outlives a change of password, and an invite lifetime that wraps
  around.

  \<^bold>\<open>Termination, bounds and fuel.\<close> No definition uses fuel: loops are structural recursion, or recursion on the length of
  the remaining bytes (\<open>strip\<close>, \<open>ReplaceAll\<close>, \<open>runesOf\<close>, \<open>snapshotChunks\<close>, the attribute scan of \<open>Stun_Server\<close>). Integers of codecs are
  words of their width; sizes, times and counters are unbounded integers, far from any overflow in 64 bits. Waiting for a
  channel is modelled by what other goroutines do meanwhile; a call that still waits has no result.

  \<^bold>\<open>Not modelled.\<close> JSON text and file permissions; sockets, the websocket and HTTP libraries, QUIC; processes, pseudo terminals and tmux; the terminal emulator; command lines,
  configuration, logging, updates and the test harness. Letter case is ASCII in \<open>ToLower\<close>; the credentials also
  have the four code points outside ASCII whose case mapping is an ASCII letter. Methods are called on receivers
  that are not \<open>nil\<close>.
\<close>

end
